(* ===== verification/NkPrelude.thy ===== *)
theory NkPrelude
  imports Main "HOL-Library.Word"
begin

section \<open>Shared types, outcomes and memory primitives\<close>

text \<open>
  The vocabulary every component uses: the engine's error codes, the outcome of running a C
  function, the wrap-around of the unsigned C types, and the array primitives behind
  \<open>memcpy\<close>, \<open>memmove\<close>, \<open>memset\<close> and indexing.  The lemma collections \<open>nk_outcome\<close> and
  \<open>nk_mem\<close> carry the component proofs.
\<close>

named_theorems nk_outcome \<open>rules that decompose the outcome of a sequence of calls\<close>
named_theorems nk_mem \<open>facts about reading, writing and copying array slots\<close>

subsection \<open>Error codes (include/Noriko/error.h)\<close>

datatype (plugins only: code size) NkErrorCode =
    NkErr_Ok | NkErr_Unknown | NkErr_NoOperation | NkErr_ManuallyAborted
  | NkErr_AccessDenied | NkErr_NotImplemented | NkErr_InParameter | NkErr_OutParameter
  | NkErr_InOutParameter | NkErr_InptrParameter | NkErr_OutptrParameter
  | NkErr_CallbackParameter | NkErr_MemoryAlignment | NkErr_MemoryAllocation
  | NkErr_MemoryReallocation | NkErr_ItemNotFound | NkErr_ArrayOutOfBounds
  | NkErr_ArrayElemOutOfBounds | NkErr_InvalidRange | NkErr_UnsignedWrapAround
  | NkErr_CapLimitExceeded | NkErr_ComponentState | NkErr_ObjectType | NkErr_ObjectState
  | NkErr_SynchInit | NkErr_UnexpectedCharacter | NkErr_InvalidIdentifier
  | NkErr_ClosingTokenNotFound | NkErr_InterfacePureVirtual | NkErr_InterfaceNotImpl
  | NkErr_UnknownClass | NkErr_AggregationNotSupp | NkErr_ClassAlreadyReg
  | NkErr_ClassNotReg | NkErr_RegWindowClass | NkErr_CreateNativeWindow
  | NkErr_WndModeNotSupported | NkErr_AdjustClientArea | NkErr_CreateMemDC
  | NkErr_CreateCompBitmap | NkErr_CreateBrush | NkErr_OpenFile | NkErr_ErrorDuringDiskIO
  | NkErr_UnsupportedFileFormat | NkErr_InvImageDimensions | NkErr_InvBitDepth
  | NkErr_CreateDDBFromDIB | NkErr_CopyDDBPixels | NkErr_QueryStdLocation
  | NkErr_DatabaseOpen | NkErr_SetDatabaseProps | NkErr_DatabaseClose
  | NkErr_CompileSqlStatement | NkErr_DatabaseApplySchema | NkErr_InvalidStreamType
  | NkErr_CreateDirectory | NkErr_FindFileOrDir | NkErr_InvStreamMode | NkErr_InvSeekOrigin
  | NkErr_StreamSeek | NkErr_StreamFlush

subsection \<open>The outcome of a call\<close>

text \<open>
  A C function either returns (\<open>Done\<close>), fails an \<open>NK_ASSERT\<close> and terminates the process
  through \<open>NkFatalTerminate\<close> with the code of the assertion (\<open>Abort\<close>), runs into undefined
  behaviour such as an access outside an array (\<open>Undef\<close>), or never returns because one of its
  loops never ends (\<open>Hang\<close>).  Assertions are modelled as in the debug configurations, where
  the macro is not empty.
\<close>

datatype 'a outcome = Done 'a | Abort NkErrorCode | Undef | Hang

fun obind :: "'a outcome \<Rightarrow> ('a \<Rightarrow> 'b outcome) \<Rightarrow> 'b outcome" where
  "obind (Done x) f = f x"
| "obind (Abort e) f = Abort e"
| "obind Undef f = Undef"
| "obind Hang f = Hang"

definition nk_assert :: "bool \<Rightarrow> NkErrorCode \<Rightarrow> 'a outcome \<Rightarrow> 'a outcome" where
  "nk_assert b ec k = (if b then k else Abort ec)"

text \<open>A loop written as a \<open>partial_function\<close> returns \<open>None\<close> when it does not end.\<close>

definition of_loop :: "'a outcome option \<Rightarrow> 'a outcome" where
  "of_loop r = (case r of None \<Rightarrow> Hang | Some x \<Rightarrow> x)"

text \<open>Sequencing inside such a loop; the monotonicity rule lets recursive calls stand under it.\<close>

definition lbind :: "'a outcome option \<Rightarrow> ('a \<Rightarrow> 'b outcome option) \<Rightarrow> 'b outcome option" where
  "lbind m f = Option.bind m (\<lambda>r. case r of
     Done x \<Rightarrow> f x | Abort e \<Rightarrow> Some (Abort e) | Undef \<Rightarrow> Some Undef | Hang \<Rightarrow> Some Hang)"

lemma lbind_mono [partial_function_mono]:
  assumes "mono_option F" and "\<And>y. mono_option (\<lambda>f. G y f)"
  shows "mono_option (\<lambda>f. lbind (F f) (\<lambda>y. G y f))"
  unfolding lbind_def
proof (rule bind_mono[OF assms(1)])
  fix r
  show "mono_option (\<lambda>f. case r of Done x \<Rightarrow> G x f | Abort e \<Rightarrow> Some (Abort e)
      | Undef \<Rightarrow> Some Undef | Hang \<Rightarrow> Some Hang)"
    using assms(2) by (cases r) (auto intro: monotoneI simp: flat_ord_def)
qed

lemma lbind_simps [simp]:
  "lbind None f = None"
  "lbind (Some (Done x)) f = f x"
  "lbind (Some (Abort e)) f = Some (Abort e)"
  "lbind (Some Undef) f = Some Undef"
  "lbind (Some Hang) f = Some Hang"
  by (simp_all add: lbind_def)

lemma lbind_eq_Done [nk_outcome]:
  "lbind m f = Some (Done r) \<longleftrightarrow> (\<exists>x. m = Some (Done x) \<and> f x = Some (Done r))"
proof (cases m)
  case (Some o1)
  then show ?thesis by (cases o1) auto
qed simp

lemma obind_eq_Done [nk_outcome]:
  "obind m f = Done r \<longleftrightarrow> (\<exists>x. m = Done x \<and> f x = Done r)"
  by (cases m) auto

lemma nk_assert_eq_Done [nk_outcome]: "nk_assert b ec k = Done r \<longleftrightarrow> b \<and> k = Done r"
  by (simp add: nk_assert_def)

lemma nk_assert_True [simp]: "nk_assert True ec k = k"
  by (simp add: nk_assert_def)

lemma nk_assert_False [simp]: "nk_assert False ec k = Abort ec"
  by (simp add: nk_assert_def)

lemma of_loop_simps [simp]: "of_loop None = Hang" "of_loop (Some x) = x"
  by (simp_all add: of_loop_def)

lemma of_loop_eq_Done [nk_outcome]: "of_loop r = Done x \<longleftrightarrow> r = Some (Done x)"
  by (cases r) auto

lemma obind_assoc: "obind (obind m f) g = obind m (\<lambda>x. obind (f x) g)"
  by (cases m) auto

subsection \<open>Unsigned arithmetic\<close>

definition wrap32 :: "nat \<Rightarrow> nat" where
  "wrap32 n = n mod 2 ^ 32"

definition wrap64 :: "nat \<Rightarrow> nat" where
  "wrap64 n = n mod 2 ^ 64"

text \<open>Subtraction of two unsigned values that are already in range.\<close>

definition sub32 :: "nat \<Rightarrow> nat \<Rightarrow> nat" where
  "sub32 a b = wrap32 (a + (2 ^ 32 - b))"

definition sub64 :: "nat \<Rightarrow> nat \<Rightarrow> nat" where
  "sub64 a b = wrap64 (a + (2 ^ 64 - b))"

abbreviation UINT32_MAX :: nat where
  "UINT32_MAX \<equiv> 4294967295"

abbreviation SIZE_MAX :: nat where
  "SIZE_MAX \<equiv> 18446744073709551615"

lemma wrap32_small: "n \<le> UINT32_MAX \<Longrightarrow> wrap32 n = n"
  by (simp add: wrap32_def)

lemma wrap64_small: "n \<le> SIZE_MAX \<Longrightarrow> wrap64 n = n"
  by (simp add: wrap64_def)

lemma wrap64_le: "wrap64 n \<le> n"
  by (simp add: wrap64_def)

lemma wrap64_bound: "wrap64 n \<le> SIZE_MAX"
proof -
  have "wrap64 n < 2 ^ 64" by (simp add: wrap64_def)
  then show ?thesis by simp
qed

lemma sub64_ge: "b \<le> a \<Longrightarrow> a \<le> SIZE_MAX \<Longrightarrow> sub64 a b = a - b"
proof -
  assume le: "b \<le> a" and a: "a \<le> SIZE_MAX"
  then have eq: "a + (2 ^ 64 - b) = (a - b) + 2 ^ 64" by simp
  have "(a - b) < 2 ^ 64" using a by simp
  then show ?thesis unfolding sub64_def wrap64_def eq by (simp del: One_nat_def)
qed

lemma sub64_lt: "a < b \<Longrightarrow> b \<le> SIZE_MAX \<Longrightarrow> sub64 a b = 2 ^ 64 - (b - a)"
  by (simp add: sub64_def wrap64_def)

lemma sub32_ge: "b \<le> a \<Longrightarrow> a \<le> UINT32_MAX \<Longrightarrow> sub32 a b = a - b"
proof -
  assume le: "b \<le> a" and a: "a \<le> UINT32_MAX"
  then have eq: "a + (2 ^ 32 - b) = (a - b) + 2 ^ 32" by simp
  have "(a - b) < 2 ^ 32" using a by simp
  then show ?thesis unfolding sub32_def wrap32_def eq by (simp del: One_nat_def)
qed

subsection \<open>Array slots\<close>

text \<open>
  A block of memory is the list of its slots.  An access outside it is undefined behaviour;
  \<open>mem_copy\<close> is \<open>memcpy\<close>/\<open>memmove\<close> in units of whole slots, which reads its source before it
  writes (so it is right for overlapping \<open>memmove\<close> ranges).
\<close>

definition mem_read :: "'a list \<Rightarrow> nat \<Rightarrow> 'a outcome" where
  "mem_read b i = (if i < length b then Done (b ! i) else Undef)"

definition mem_write :: "'a list \<Rightarrow> nat \<Rightarrow> 'a \<Rightarrow> 'a list outcome" where
  "mem_write b i x = (if i < length b then Done (b[i := x]) else Undef)"

definition mem_copy :: "'a list \<Rightarrow> nat \<Rightarrow> 'a list \<Rightarrow> nat \<Rightarrow> nat \<Rightarrow> 'a list outcome" where
  "mem_copy dst di src si n =
     (if n = 0 then Done dst
      else if si + n \<le> length src \<and> di + n \<le> length dst
      then Done (take di dst @ take n (drop si src) @ drop (di + n) dst)
      else Undef)"

lemma mem_read_ok [simp, nk_mem]: "i < length b \<Longrightarrow> mem_read b i = Done (b ! i)"
  by (simp add: mem_read_def)

lemma mem_read_oob [simp, nk_mem]: "length b \<le> i \<Longrightarrow> mem_read b i = Undef"
  by (simp add: mem_read_def)

lemma mem_write_ok [simp, nk_mem]: "i < length b \<Longrightarrow> mem_write b i x = Done (b[i := x])"
  by (simp add: mem_write_def)

lemma mem_write_oob [simp, nk_mem]: "length b \<le> i \<Longrightarrow> mem_write b i x = Undef"
  by (simp add: mem_write_def)

lemma mem_read_eq_Done [nk_outcome]: "mem_read b i = Done x \<longleftrightarrow> i < length b \<and> x = b ! i"
  by (auto simp: mem_read_def)

lemma mem_write_eq_Done [nk_outcome]:
  "mem_write b i x = Done b' \<longleftrightarrow> i < length b \<and> b' = b[i := x]"
  by (auto simp: mem_write_def)

lemma mem_copy_ok [nk_mem]:
  "si + n \<le> length src \<Longrightarrow> di + n \<le> length dst \<Longrightarrow>
   mem_copy dst di src si n = Done (take di dst @ take n (drop si src) @ drop (di + n) dst)"
  by (simp add: mem_copy_def)

lemma mem_copy_0 [simp, nk_mem]: "mem_copy dst di src si 0 = Done dst"
  by (simp add: mem_copy_def)

lemma mem_copy_oob [nk_mem]:
  "0 < n \<Longrightarrow> length src < si + n \<or> length dst < di + n \<Longrightarrow> mem_copy dst di src si n = Undef"
  by (auto simp: mem_copy_def)

end
