(* ===== verification/NkUtil.thy ===== *)
theory NkUtil
  imports NkPrelude "HOL-Library.Word"
begin

unbundle bit_operations_syntax

section \<open>Utilities (src/Noriko/util.c, include/Noriko/util.h)\<close>

text \<open>
  The random number generator, UUIDs, variants, checked additions, NULL-terminated pointer arrays
  and the viewport origin.  Bytes are 8-bit words; a UUID is the list of its sixteen bytes in
  memory order.  The platform's seed (\<open>__NkVirt_PRNG_GenerateSeed\<close>) is the initial state of the
  generator.
\<close>

type_synonym byte = "8 word"

subsection \<open>The random number generator\<close>

record RandContext =
  s0 :: "64 word"
  s1 :: "64 word"
  s2 :: "64 word"
  s3 :: "64 word"

definition PRNGXoshiro256 :: "RandContext \<Rightarrow> 64 word \<times> RandContext" where
  "PRNGXoshiro256 s =
     (let dst = s0 s + s3 s;
          t = push_bit 17 (s1 s);
          s = s\<lparr>s2 := s2 s XOR s0 s\<rparr>;
          s = s\<lparr>s3 := s3 s XOR s1 s\<rparr>;
          s = s\<lparr>s1 := s1 s XOR s2 s\<rparr>;
          s = s\<lparr>s0 := s0 s XOR s3 s\<rparr>;
          s = s\<lparr>s2 := s2 s XOR t\<rparr>;
          s = s\<lparr>s3 := push_bit 45 (s3 s) OR drop_bit (64 - 45) (s3 s)\<rparr>
      in (dst, s))"

definition NkPRNGNext :: "RandContext \<Rightarrow> NkErrorCode \<times> 64 word \<times> RandContext" where
  "NkPRNGNext s = (let (dst, s') = PRNGXoshiro256 s in (NkErr_Ok, dst, s'))"

subsection \<open>UUIDs\<close>

type_synonym NkUuid = "byte list"

definition le_bytes :: "64 word \<Rightarrow> byte list" where
  "le_bytes w = map (\<lambda>i. ucast (drop_bit (8 * i) w)) [0..<8]"

definition NkUuidGenerate :: "RandContext \<Rightarrow> NkUuid \<times> RandContext" where
  "NkUuidGenerate s =
     (let (a, s) = PRNGXoshiro256 s;
          (b, s) = PRNGXoshiro256 s;
          u = le_bytes a @ le_bytes b;
          u = u[6 := push_bit 4 0b0100 OR (u ! 6 AND 0x0F)];
          u = u[8 := push_bit 6 0b0010 OR (u ! 8 AND 0x3F)]
      in (u, s))"

definition NkUuidIsEqual :: "NkUuid \<Rightarrow> NkUuid \<Rightarrow> bool" where
  "NkUuidIsEqual f g \<longleftrightarrow> take 8 f = take 8 g \<and> take 8 (drop 8 f) = take 8 (drop 8 g)"

definition NkUuidCopy :: "NkUuid \<Rightarrow> NkUuid" where
  "NkUuidCopy src = take 16 src"

text \<open>The digits of the formatted form.\<close>

definition hex_digit :: "byte \<Rightarrow> char" where
  "hex_digit n = ''0123456789abcdef'' ! unat n"

fun uuid_to_string_loop :: "nat \<Rightarrow> byte list \<Rightarrow> string" where
  "uuid_to_string_loop i [] = []"
| "uuid_to_string_loop i (b # bs) =
     (if i = 4 \<or> i = 6 \<or> i = 8 \<or> i = 10 then ''-'' else [])
     @ [hex_digit (drop_bit 4 b), hex_digit (b AND 0x0F)] @ uuid_to_string_loop (Suc i) bs"

definition NkUuidToString :: "NkUuid \<Rightarrow> string" where
  "NkUuidToString u = uuid_to_string_loop 0 u"

text \<open>The conversion table has 128 entries and is indexed with a signed \<open>char\<close>; entries that are
  not hexadecimal digits are 0.\<close>

definition nibble :: "char \<Rightarrow> byte outcome" where
  "nibble c =
     (let n = (of_char c :: nat) in
      if 128 \<le> n then Undef
      else if 48 \<le> n \<and> n \<le> 57 then Done (word_of_nat (n - 48))
      else if 97 \<le> n \<and> n \<le> 102 then Done (word_of_nat (n - 87))
      else if 65 \<le> n \<and> n \<le> 70 then Done (word_of_nat (n - 55))
      else Done 0)"

text \<open>One turn of the loop: an optional dash, then two digits.  The text is followed by its
  terminator, which counts as digit 0; reading behind the terminator is undefined.  The rest of
  the text is None when the pointer has moved behind the terminator.\<close>

definition uuid_byte :: "string \<Rightarrow> (byte \<times> string option) outcome" where
  "uuid_byte str =
     (let s = (case str of [] \<Rightarrow> [] | c # cs \<Rightarrow> if c = CHR ''-'' then cs else str) in
      case s of
        [] \<Rightarrow> Undef
      | [c1] \<Rightarrow> obind (nibble c1) (\<lambda>hi. Done (push_bit 4 hi, None))
      | c1 # c2 # cs \<Rightarrow>
          obind (nibble c1) (\<lambda>hi. obind (nibble c2) (\<lambda>lo. Done (push_bit 4 hi OR lo, Some cs))))"

fun uuid_from_string_loop :: "nat \<Rightarrow> string option \<Rightarrow> byte list outcome" where
  "uuid_from_string_loop 0 str = Done []"
| "uuid_from_string_loop (Suc n) None = Undef"
| "uuid_from_string_loop (Suc n) (Some str) =
     (if str = [] then Done []
      else obind (uuid_byte str) (\<lambda>(b, cs). obind (uuid_from_string_loop n cs) (\<lambda>bs. Done (b # bs))))"

definition NkUuidFromString :: "string \<Rightarrow> (NkErrorCode \<times> NkUuid) outcome" where
  "NkUuidFromString str =
     obind (uuid_from_string_loop 16 (Some str)) (\<lambda>bs.
       if 2 * length bs \<noteq> 32 then Done (NkErr_InParameter, replicate 16 0) else Done (NkErr_Ok, bs))"

subsection \<open>Variants\<close>

datatype NkVariantType = NkVarTy_None | NkVarTy_Boolean | NkVarTy_Char | NkVarTy_Int8 | NkVarTy_Int16
  | NkVarTy_Int32 | NkVarTy_Int64 | NkVarTy_Uint8 | NkVarTy_Uint16 | NkVarTy_Uint32 | NkVarTy_Uint64
  | NkVarTy_Float | NkVarTy_Double | NkVarTy_ErrorCode | NkVarTy_StringView | NkVarTy_BufferView
  | NkVarTy_Uuid | NkVarTy_Pointer | NkVarTy_Vector | NkVarTy_Hashtable | NkVarTy_Timer
  | NkVarTy_NkOMObject

text \<open>The value is the sixteen bytes of the union.\<close>

record NkVariant =
  var_type :: NkVariantType
  var_val :: "byte list"

fun VariantGetTypeSize :: "NkVariantType \<Rightarrow> nat" where
  "VariantGetTypeSize NkVarTy_None = 0"
| "VariantGetTypeSize NkVarTy_Boolean = 1"
| "VariantGetTypeSize NkVarTy_Char = 1"
| "VariantGetTypeSize NkVarTy_Int8 = 1"
| "VariantGetTypeSize NkVarTy_Int16 = 2"
| "VariantGetTypeSize NkVarTy_Int32 = 4"
| "VariantGetTypeSize NkVarTy_Int64 = 8"
| "VariantGetTypeSize NkVarTy_Uint8 = 1"
| "VariantGetTypeSize NkVarTy_Uint16 = 2"
| "VariantGetTypeSize NkVarTy_Uint32 = 4"
| "VariantGetTypeSize NkVarTy_Uint64 = 8"
| "VariantGetTypeSize NkVarTy_Float = 4"
| "VariantGetTypeSize NkVarTy_Double = 8"
| "VariantGetTypeSize NkVarTy_ErrorCode = 4"
| "VariantGetTypeSize NkVarTy_StringView = 16"
| "VariantGetTypeSize NkVarTy_BufferView = 16"
| "VariantGetTypeSize NkVarTy_Uuid = 16"
| "VariantGetTypeSize NkVarTy_Pointer = 8"
| "VariantGetTypeSize NkVarTy_Vector = 8"
| "VariantGetTypeSize NkVarTy_Hashtable = 8"
| "VariantGetTypeSize NkVarTy_Timer = 8"
| "VariantGetTypeSize NkVarTy_NkOMObject = 8"

text \<open>The object representation of the argument as \<open>va_arg\<close> fetches it: a \<open>float\<close> argument is
  fetched, and stored, as a \<open>double\<close>; every other type is stored at its own size.\<close>

definition va_arg_size :: "NkVariantType \<Rightarrow> nat" where
  "va_arg_size ty = (if ty = NkVarTy_Float then VariantGetTypeSize NkVarTy_Double else VariantGetTypeSize ty)"

definition NkVariantSet :: "NkVariant \<Rightarrow> NkVariantType \<Rightarrow> byte list \<Rightarrow> NkVariant" where
  "NkVariantSet v valType arg =
     (if valType = NkVarTy_None then v\<lparr>var_val := replicate 16 0, var_type := valType\<rparr>
      else v\<lparr>var_val := take (va_arg_size valType) arg @ drop (va_arg_size valType) (var_val v),
             var_type := valType\<rparr>)"

definition NkVariantGet :: "NkVariant \<Rightarrow> NkVariantType \<times> byte list" where
  "NkVariantGet v = (var_type v, take (VariantGetTypeSize (var_type v)) (var_val v))"

definition NkVariantCopy :: "NkVariant \<Rightarrow> NkVariant" where
  "NkVariantCopy v = \<lparr>var_type = var_type v, var_val = var_val v\<rparr>"

definition NkVariantIsNull :: "NkVariant \<Rightarrow> bool" where
  "NkVariantIsNull v \<longleftrightarrow> var_type v = NkVarTy_None"

subsection \<open>Checked additions\<close>

text \<open>The sum is formed before the check: for signed operands an overflow is undefined.\<close>

definition checked_signed_add :: "nat \<Rightarrow> int \<Rightarrow> int \<Rightarrow> (bool \<times> int) outcome" where
  "checked_signed_add w a b =
     (let lo = - (2 ^ (w - 1)); hi = 2 ^ (w - 1) - 1 in
      if a + b < lo \<or> hi < a + b then Undef
      else Done (0 \<le> a \<and> b \<le> hi - a \<or> a < 0 \<and> lo - a \<le> b, a + b))"

definition NkCheckedInt32Add :: "int \<Rightarrow> int \<Rightarrow> (bool \<times> int) outcome" where
  "NkCheckedInt32Add = checked_signed_add 32"

definition NkCheckedInt64Add :: "int \<Rightarrow> int \<Rightarrow> (bool \<times> int) outcome" where
  "NkCheckedInt64Add = checked_signed_add 64"

definition NkCheckedUint32Add :: "nat \<Rightarrow> nat \<Rightarrow> bool \<times> nat" where
  "NkCheckedUint32Add a b = (b \<le> sub32 UINT32_MAX a, wrap32 (a + b))"

definition NkCheckedUint64Add :: "nat \<Rightarrow> nat \<Rightarrow> bool \<times> nat" where
  "NkCheckedUint64Add a b = (b \<le> sub64 SIZE_MAX a, wrap64 (a + b))"

subsection \<open>NULL-terminated arrays and the viewport\<close>

text \<open>The array is the list of its slots, None being the NULL pointer.\<close>

fun dyn_count_loop :: "'a option list \<Rightarrow> nat \<Rightarrow> nat outcome" where
  "dyn_count_loop [] n = Undef"
| "dyn_count_loop (None # ps) n = Done n"
| "dyn_count_loop (Some p # ps) n = dyn_count_loop ps (Suc n)"

definition NkArrayGetDynCount :: "'a option list option \<Rightarrow> nat outcome" where
  "NkArrayGetDynCount ptrArray = (case ptrArray of None \<Rightarrow> Done 0 | Some ps \<Rightarrow> dyn_count_loop ps 0)"

record NkPoint2D =
  m_xCoord :: "64 word"
  m_yCoord :: "64 word"

record NkSize2D =
  m_width :: "64 word"
  m_height :: "64 word"

abbreviation NkVpAlign_Top :: "32 word" where "NkVpAlign_Top \<equiv> 1"
abbreviation NkVpAlign_VCenter :: "32 word" where "NkVpAlign_VCenter \<equiv> 2"
abbreviation NkVpAlign_Bottom :: "32 word" where "NkVpAlign_Bottom \<equiv> 4"
abbreviation NkVpAlign_Left :: "32 word" where "NkVpAlign_Left \<equiv> 8"
abbreviation NkVpAlign_HCenter :: "32 word" where "NkVpAlign_HCenter \<equiv> 16"
abbreviation NkVpAlign_Right :: "32 word" where "NkVpAlign_Right \<equiv> 32"

definition NkCalculateViewportOrigin ::
    "32 word \<Rightarrow> NkSize2D \<Rightarrow> NkSize2D \<Rightarrow> NkSize2D \<Rightarrow> NkPoint2D" where
  "NkCalculateViewportOrigin vpAlign vpExtents tileSize clExtents =
     (let vpw = m_width vpExtents * m_width tileSize;
          vph = m_height vpExtents * m_height tileSize
      in \<lparr>m_xCoord = (if vpAlign AND NkVpAlign_Left \<noteq> 0 then 0
                      else (m_width clExtents - vpw) div (if vpAlign AND NkVpAlign_Right \<noteq> 0 then 1 else 2)),
          m_yCoord = (if vpAlign AND NkVpAlign_Top \<noteq> 0 then 0
                      else (m_height clExtents - vph) div (if vpAlign AND NkVpAlign_Bottom \<noteq> 0 then 1 else 2))\<rparr>)"

subsection \<open>Lemmas\<close>

lemma mask_4: "(0x0F :: byte) = mask 4"
  by (simp add: mask_eq_exp_minus_1)

lemma byte_join: "push_bit 4 (drop_bit 4 b) OR (b AND 0x0F) = (b :: byte)"
  unfolding mask_4 by (rule bit_word_eqI) (auto simp: bit_simps)

lemma nibble_hex_digit:
  assumes "n < 16"
  shows "nibble (hex_digit n) = Done n" and "hex_digit n \<noteq> CHR ''-''"
proof -
  have all: "\<forall>k \<in> set [0..<16]. nibble (hex_digit (word_of_nat k)) = Done (word_of_nat k)
      \<and> hex_digit (word_of_nat k) \<noteq> CHR ''-''"
    by code_simp
  have "unat n \<in> set [0..<16]" using assms by (simp add: word_less_nat_alt)
  from bspec[OF all this] show "nibble (hex_digit n) = Done n" and "hex_digit n \<noteq> CHR ''-''"
    by simp_all
qed

lemma high_nibble: "drop_bit 4 (b :: byte) < 16"
  using unsigned_less[of b, where 'a = nat]
  by (simp add: word_less_nat_alt drop_bit_eq_div unat_div)

lemma low_nibble: "b AND 0x0F < (16 :: byte)"
  using word_and_le1[of b "0x0F"] by (simp add: order.strict_trans1)

lemma uuid_byte_printed:
  "uuid_byte ((if d then ''-'' else []) @ [hex_digit (drop_bit 4 b), hex_digit (b AND 0x0F)] @ cs)
     = Done (b, Some cs)"
  by (cases d) (simp_all add: uuid_byte_def nibble_hex_digit high_nibble low_nibble byte_join)

lemma uuid_string_roundtrip_loop:
  "uuid_from_string_loop (length bs) (Some (uuid_to_string_loop i bs)) = Done bs"
proof (induction bs arbitrary: i)
  case (Cons b bs)
  then show ?case
    using uuid_byte_printed[of "i = 4 \<or> i = 6 \<or> i = 8 \<or> i = 10" b "uuid_to_string_loop (Suc i) bs"]
    by simp
qed simp

text \<open>The state update of the generator.  Its building blocks are injective: a rotation, and the
  exclusive or of a word with a left shift of itself.\<close>

lemma rotl_45: "push_bit 45 x OR drop_bit 19 x = word_rotl 45 (x :: 64 word)"
proof (rule bit_word_eqI)
  fix n assume n: "n < LENGTH(64)"
  show "bit (push_bit 45 x OR drop_bit 19 x) n = bit (word_rotl 45 x) n"
  proof (cases "n < 45")
    case True
    then have "(n + 19) mod 64 = n + 19" by simp
    then show ?thesis using n True by (simp add: bit_simps add.commute)
  next
    case False
    then have "(n + 19) mod 64 = n - 45" using n by (simp add: mod_if)
    moreover have "\<not> bit x (19 + n)" using False bit_imp_le_length[of x "19 + n"] by auto
    ultimately show ?thesis using n False by (simp add: bit_simps)
  qed
qed

lemma xor_push_bit_inj:
  assumes "x XOR push_bit k x = y XOR push_bit k (y :: 64 word)" "0 < k"
  shows "x = y"
proof (rule bit_word_eqI)
  have eq: "bit x n \<noteq> (k \<le> n \<and> bit x (n - k)) \<longleftrightarrow> bit y n \<noteq> (k \<le> n \<and> bit y (n - k))"
    if "n < 64" for n
    using that arg_cong[OF assms(1), of "\<lambda>w. bit w n"] by (simp add: bit_simps)
  fix n assume "n < LENGTH(64)"
  then show "bit x n = bit y n"
  proof (induction n rule: less_induct)
    case (less n)
    then show ?case using eq[of n] less.IH[of "n - k"] assms(2) by auto
  qed
qed

lemma xoshiro_state:
  "snd (PRNGXoshiro256 s) = s\<lparr>
     s0 := s0 s XOR (s3 s XOR s1 s), s1 := s1 s XOR (s2 s XOR s0 s),
     s2 := (s2 s XOR s0 s) XOR push_bit 17 (s1 s), s3 := word_rotl 45 (s3 s XOR s1 s)\<rparr>"
  by (simp add: PRNGXoshiro256_def Let_def rotl_45)

lemma xor_cancel: "a XOR b = a XOR c \<longleftrightarrow> b = (c :: 64 word)"
  by (auto simp: bit_eq_iff bit_xor_iff)

lemma xor_cancel2: "b XOR a = c XOR a \<longleftrightarrow> b = (c :: 64 word)"
  by (simp add: xor_cancel xor.commute[of _ a])

lemma length_le_bytes [simp]: "length (le_bytes w) = 8"
  by (simp add: le_bytes_def)

subsection \<open>Properties\<close>

text \<open>C37: UUID round trip.  Reading back the textual form that \<open>NkUuidToString\<close> writes gives
  the same sixteen bytes.\<close>

theorem uuid_string_roundtrip:
  assumes "length u = 16"
  shows "NkUuidFromString (NkUuidToString u) = Done (NkErr_Ok, u)"
  using uuid_string_roundtrip_loop[of u 0] assms
  by (simp add: NkUuidFromString_def NkUuidToString_def)

theorem uuid_string_roundtrip_witness:
  "NkUuidFromString (NkUuidToString (map word_of_nat [0..<16])) = Done (NkErr_Ok, map word_of_nat [0..<16])"
  using uuid_string_roundtrip[of "map word_of_nat [0..<16]"] by simp

text \<open>Generated UUIDs are random UUIDs of version 4: sixteen bytes with version nibble 4 in
  byte 6 and variant bits 10 in byte 8, whatever the state of the generator.\<close>

theorem uuid_generate_version_4:
  "length (fst (NkUuidGenerate s)) = 16 \<and> drop_bit 4 (fst (NkUuidGenerate s) ! 6) = 4
     \<and> drop_bit 6 (fst (NkUuidGenerate s) ! 8) = 2"
proof -
  have a: "drop_bit 4 (64 OR (b AND 15)) = (4 :: byte)" for b
    by (simp add: drop_bit_or drop_bit_and)
  have b: "drop_bit 6 (128 OR (b AND 63)) = (2 :: byte)" for b
    by (simp add: drop_bit_or drop_bit_and)
  show ?thesis
    by (simp add: NkUuidGenerate_def Let_def split_beta a b)
qed

text \<open>The generator's state update is injective, so it permutes the 2^256 states: no two seeds
  ever lead to the same state, and a state other than zero never becomes zero.\<close>

theorem xoshiro_step_injective: "inj (\<lambda>s. snd (PRNGXoshiro256 s))"
proof (rule injI)
  fix x y :: RandContext
  assume eq: "snd (PRNGXoshiro256 x) = snd (PRNGXoshiro256 y)"
  let ?a = "\<lambda>s. s3 s XOR s1 s" and ?b = "\<lambda>s. s2 s XOR s0 s"
  have e: "word_rotl 45 (?a x) = word_rotl 45 (?a y)" "s0 x XOR ?a x = s0 y XOR ?a y"
    "s1 x XOR ?b x = s1 y XOR ?b y" "?b x XOR push_bit 17 (s1 x) = ?b y XOR push_bit 17 (s1 y)"
    using eq by (auto simp: xoshiro_state dest: arg_cong[where f = s0] arg_cong[where f = s1]
        arg_cong[where f = s2] arg_cong[where f = s3])
  have a: "?a x = ?a y" using e(1) by (metis word_rot_lr)
  then have 0: "s0 x = s0 y" using e(2) by (simp add: xor_cancel2)
  have "s1 x XOR push_bit 17 (s1 x) = s1 y XOR push_bit 17 (s1 y)"
  proof -
    have "(s1 x XOR ?b x) XOR (?b x XOR push_bit 17 (s1 x))
        = (s1 y XOR ?b y) XOR (?b y XOR push_bit 17 (s1 y))" using e(3,4) by simp
    moreover have "(p XOR q) XOR (q XOR r) = p XOR r" for p q r :: "64 word"
      by (auto simp: bit_eq_iff bit_xor_iff)
    ultimately show ?thesis by simp
  qed
  then have 1: "s1 x = s1 y" by (rule xor_push_bit_inj) simp
  then have 2: "s2 x = s2 y" using e(3) 0 by (simp add: xor_cancel xor_cancel2)
  have 3: "s3 x = s3 y" using a 1 by (simp add: xor_cancel2)
  show "x = y" using 0 1 2 3 by simp
qed

text \<open>Variants.  A value of any type but \<open>float\<close> that is stored in a variant is read back
  unchanged and with its type; a \<open>float\<close> is stored as the eight bytes of a \<open>double\<close> of which only
  the first four are read back.\<close>

theorem variant_set_get:
  assumes "length arg = va_arg_size ty" "length (var_val v) = 16"
  shows "NkVariantGet (NkVariantSet v ty arg) = (ty, if ty = NkVarTy_Float then take 4 arg else arg)"
  using assms by (cases ty) (simp_all add: NkVariantGet_def NkVariantSet_def va_arg_size_def)

theorem variant_set_get_witness:
  "NkVariantGet (NkVariantSet \<lparr>var_type = NkVarTy_None, var_val = replicate 16 0\<rparr> NkVarTy_Int16 [1, 2])
     = (NkVarTy_Int16, [1, 2])"
  using variant_set_get[of "[1, 2]" NkVarTy_Int16 "\<lparr>var_type = NkVarTy_None, var_val = replicate 16 0\<rparr>"]
  by (simp add: va_arg_size_def)

text \<open>Checked additions.  For operands in range, the unsigned checked addition reports success
  exactly when the sum fits and stores the sum modulo 2^32; the signed one reports success and stores
  the sum whenever it fits, and is undefined otherwise, since the sum is formed before the check.\<close>

theorem checked_add_detects_overflow:
  assumes "a \<le> UINT32_MAX" "b \<le> UINT32_MAX" "- (2 ^ 31) \<le> x" "x < 2 ^ 31" "- (2 ^ 31) \<le> y" "y < 2 ^ 31"
  shows "NkCheckedUint32Add a b = (a + b \<le> UINT32_MAX, (a + b) mod 2 ^ 32)
    \<and> NkCheckedInt32Add x y = (if - (2 ^ 31) \<le> x + y \<and> x + y < 2 ^ 31 then Done (True, x + y) else Undef)"
  using assms
  by (auto simp: NkCheckedUint32Add_def sub32_ge wrap32_def NkCheckedInt32Add_def checked_signed_add_def)

theorem checked_add_detects_overflow_witness:
  "NkCheckedUint32Add UINT32_MAX 1 = (False, 0) \<and> NkCheckedInt32Add 2147483647 1 = Undef"
  using checked_add_detects_overflow[of UINT32_MAX 1 2147483647 1] by simp

text \<open>The viewport.  If the viewport's pixel size does not wrap and fits into the client area,
  then for every alignment its origin is not negative and the whole viewport lies inside the
  client area, in both directions.\<close>

theorem viewport_inside_client:
  assumes "vpw = m_width vp * m_width ts" "vph = m_height vp * m_height ts"
    "vpw \<le> m_width cl" "vph \<le> m_height cl"
  shows "unat (m_xCoord (NkCalculateViewportOrigin al vp ts cl)) + unat vpw \<le> unat (m_width cl)
    \<and> unat (m_yCoord (NkCalculateViewportOrigin al vp ts cl)) + unat vph \<le> unat (m_height cl)"
proof -
  have fit: "unat ((c - v) div k) + unat v \<le> unat c" if "v \<le> c" "k = 1 \<or> k = 2" for c v k :: "64 word"
  proof -
    have "unat ((c - v) div k) \<le> unat (c - v)" by (simp add: unat_div)
    moreover have "unat (c - v) = unat c - unat v" "unat v \<le> unat c"
      using that(1) by (simp_all add: unat_sub word_le_nat_alt)
    ultimately show ?thesis by linarith
  qed
  show ?thesis
    using assms fit[of vpw "m_width cl"] fit[of vph "m_height cl"]
    by (simp add: NkCalculateViewportOrigin_def Let_def word_le_nat_alt)
qed

theorem viewport_inside_client_witness:
  "unat (m_xCoord (NkCalculateViewportOrigin (NkVpAlign_HCenter OR NkVpAlign_Bottom)
      \<lparr>m_width = 10, m_height = 5\<rparr> \<lparr>m_width = 32, m_height = 32\<rparr> \<lparr>m_width = 800, m_height = 600\<rparr>)) + 320 \<le> 800"
  using viewport_inside_client[of 320 "\<lparr>m_width = 10, m_height = 5\<rparr>" "\<lparr>m_width = 32, m_height = 32\<rparr>" 160
      "\<lparr>m_width = 800, m_height = 600\<rparr>" "NkVpAlign_HCenter OR NkVpAlign_Bottom"]
  by simp

end
