(* ===== verification/NkText.thy ===== *)
theory NkText
  imports NkPrelude
begin

section \<open>C strings and string views (src/Noriko/util.c)\<close>

text \<open>
  A C string is the list of its characters; the terminating NUL follows the last one and is not
  part of the list.  A string view is the text its data pointer points to (up to the NUL that
  ends the surrounding buffer) together with its size.  The views that \<open>NkRawStringTrim\<close> and
  \<open>NkRawStringSplit\<close> return point into their argument and are given by offset and size.
\<close>

abbreviation NUL :: char where
  "NUL \<equiv> CHR 0x00"

record NkStringView =
  sv_dataPtr :: string
  sv_sizeInBytes :: nat

subsection \<open>The functions of string.h the sources use\<close>

text \<open>\<open>char_at s i\<close> is \<open>s[i]\<close>: the terminator right behind the text, undefined further on.\<close>

definition char_at :: "string \<Rightarrow> nat \<Rightarrow> char outcome" where
  "char_at s i = (if i < length s then Done (s ! i) else if i = length s then Done NUL else Undef)"

definition hd0 :: "string \<Rightarrow> char" where
  "hd0 s = (case s of [] \<Rightarrow> NUL | c # _ \<Rightarrow> c)"

definition char_nat :: "char \<Rightarrow> nat" where
  "char_nat c = of_char c"

text \<open>Only the sign of the results of \<open>strcmp\<close> and \<open>strncmp\<close> is specified.\<close>

fun strncmp :: "string \<Rightarrow> string \<Rightarrow> nat \<Rightarrow> int" where
  "strncmp a b 0 = 0"
| "strncmp a b (Suc n) =
     (if hd0 a \<noteq> hd0 b then (if char_nat (hd0 a) < char_nat (hd0 b) then - 1 else 1)
      else if hd0 a = NUL then 0
      else strncmp (tl a) (tl b) n)"

definition strcmp :: "string \<Rightarrow> string \<Rightarrow> int" where
  "strcmp a b = strncmp a b (Suc (max (length a) (length b)))"

text \<open>The offset of the first character of \<open>s\<close> that is in \<open>keys\<close>; None is the NULL result.\<close>

definition strpbrk :: "string \<Rightarrow> string \<Rightarrow> nat option" where
  "strpbrk s keys = (let n = length (takeWhile (\<lambda>c. c \<notin> set keys) s)
                     in if n < length s then Some n else None)"

subsection \<open>String views\<close>

definition NkStringViewSet :: "string \<Rightarrow> NkStringView" where
  "NkStringViewSet str = \<lparr>sv_dataPtr = str, sv_sizeInBytes = length str\<rparr>"

definition NkStringViewCompare :: "NkStringView \<Rightarrow> NkStringView \<Rightarrow> int" where
  "NkStringViewCompare sv1 sv2 =
     (if sv_sizeInBytes sv1 = sv_sizeInBytes sv2
      then strncmp (sv_dataPtr sv1) (sv_dataPtr sv2) (sv_sizeInBytes sv1)
      else 1)"

definition NkStringViewCopy :: "NkStringView \<Rightarrow> NkStringView" where
  "NkStringViewCopy src = \<lparr>sv_dataPtr = sv_dataPtr src, sv_sizeInBytes = sv_sizeInBytes src\<rparr>"

text \<open>The text a view denotes.\<close>

definition sv_text :: "NkStringView \<Rightarrow> string" where
  "sv_text sv = take (sv_sizeInBytes sv) (sv_dataPtr sv)"

definition sv_wf :: "NkStringView \<Rightarrow> bool" where
  "sv_wf sv \<longleftrightarrow> sv_sizeInBytes sv \<le> length (sv_dataPtr sv) \<and> NUL \<notin> set (sv_dataPtr sv)"

subsection \<open>Splitting and trimming\<close>

text \<open>Both views of the result as (offset, size).\<close>

definition NkRawStringSplit :: "string \<Rightarrow> string \<Rightarrow> (nat \<times> nat) \<times> (nat \<times> nat)" where
  "NkRawStringSplit str ctrlChs =
     (let strSz = length str;
          endPtr = max (min (length str) (0 + strSz)) 0;
          delimPos = (case strpbrk str ctrlChs of None \<Rightarrow> endPtr | Some p \<Rightarrow> p)
      in ((0, max delimPos 0 - 0), (min (delimPos + 1) endPtr, endPtr - min (delimPos + 1) endPtr)))"

text \<open>The loop that moves the data pointer over the leading characters to be trimmed.\<close>

function trim_lead :: "string \<Rightarrow> string \<Rightarrow> nat \<Rightarrow> nat" where
  "trim_lead str key p =
     (if p < length str \<and> strpbrk (drop p str) key = Some 0 then trim_lead str key (Suc p) else p)"
  by auto
termination by (relation "measure (\<lambda>(str, key, p). length str - p)") auto

text \<open>The loop at \<open>lbl_NEXTCHAR\<close>.  The end pointer may end up one before the start, so it is
  an integer; reading before the text is undefined.\<close>

function trim_tail :: "string \<Rightarrow> string \<Rightarrow> nat \<Rightarrow> int \<Rightarrow> int outcome" where
  "trim_tail str key p e =
     (if int p \<le> e then
        obind (char_at str (nat e)) (\<lambda>c.
          if c \<in> set key then trim_tail str key p (e - 1) else Done e)
      else Done e)"
  by auto
termination by (relation "measure (\<lambda>(str, key, p, e). nat (e - int p + 1))") auto

declare trim_lead.simps [simp del] trim_tail.simps [simp del]

definition NkRawStringTrim :: "string \<Rightarrow> nat \<Rightarrow> string \<Rightarrow> (nat \<times> nat) outcome" where
  "NkRawStringTrim str maxChars key =
     (let p = min (trim_lead str key 0) maxChars;
          e = min (length str) maxChars
      in obind (trim_tail str key p (int e)) (\<lambda>e'.
           Done (p, if int p \<le> e' then nat (e' - int p) else sub64 0 (nat (int p - e')))))"

subsection \<open>Lemmas\<close>

lemma hd0_simps [simp]: "hd0 [] = NUL" "hd0 (c # s) = c"
  by (simp_all add: hd0_def)

lemma strncmp_eq_0:
  "strncmp a b n = 0 \<longleftrightarrow> takeWhile (\<lambda>c. c \<noteq> NUL) (take n a) = takeWhile (\<lambda>c. c \<noteq> NUL) (take n b)"
proof (induction a b n rule: strncmp.induct)
  case (2 a b n)
  then show ?case by (cases a; cases b) auto
qed simp

lemma takeWhile_no_NUL: "NUL \<notin> set s \<Longrightarrow> takeWhile (\<lambda>c. c \<noteq> NUL) s = s"
  by (auto simp: takeWhile_eq_all_conv)

lemma strcmp_eq_0: "NUL \<notin> set a \<Longrightarrow> NUL \<notin> set b \<Longrightarrow> strcmp a b = 0 \<longleftrightarrow> a = b"
  by (simp add: strcmp_def strncmp_eq_0 takeWhile_no_NUL del: strncmp.simps)

lemma NkStringViewCompare_eq_0:
  assumes "sv_wf a" "sv_wf b"
  shows "NkStringViewCompare a b = 0 \<longleftrightarrow> sv_text a = sv_text b"
proof -
  have "NUL \<notin> set (sv_text a)" "NUL \<notin> set (sv_text b)"
    using assms by (auto simp: sv_text_def sv_wf_def dest: in_set_takeD)
  then show ?thesis
    using assms by (auto simp: NkStringViewCompare_def strncmp_eq_0 takeWhile_no_NUL sv_text_def sv_wf_def
        dest: arg_cong[where f = length])
qed

lemma strpbrk_0: "strpbrk s keys = Some 0 \<longleftrightarrow> s \<noteq> [] \<and> hd0 s \<in> set keys"
  by (cases s) (auto simp: strpbrk_def)

lemma trim_lead_spec:
  "p \<le> length str \<Longrightarrow> trim_lead str key p = p + length (takeWhile (\<lambda>c. c \<in> set key) (drop p str))"
proof (induction str key p rule: trim_lead.induct)
  case (1 str key p)
  show ?case
  proof (cases "p < length str")
    case True
    then have d: "drop p str = str ! p # drop (Suc p) str" by (simp add: Cons_nth_drop_Suc)
    show ?thesis using 1 True by (subst trim_lead.simps) (auto simp: strpbrk_0 d)
  next
    case False
    then show ?thesis using "1.prems" by (subst trim_lead.simps) simp
  qed
qed

lemma trim_tail_at_end: "p \<le> length str \<Longrightarrow> NUL \<notin> set key \<Longrightarrow>
  trim_tail str key p (int (length str)) = Done (int (length str))"
  by (subst trim_tail.simps) (simp add: char_at_def)

subsection \<open>Properties\<close>

text \<open>String views compare equal exactly when they denote the same text: \<open>NkStringViewCompare\<close>
  on well-formed views returns 0 if and only if the two texts, and so their sizes, agree.\<close>

theorem string_view_compare_is_text_equality:
  assumes "sv_wf a" "sv_wf b"
  shows "NkStringViewCompare a b = 0 \<longleftrightarrow> sv_text a = sv_text b"
  using NkStringViewCompare_eq_0[OF assms] .

theorem string_view_compare_is_text_equality_witness:
  "NkStringViewCompare \<lparr>sv_dataPtr = ''scene=1'', sv_sizeInBytes = 5\<rparr> (NkStringViewSet ''scene'') = 0"
  using string_view_compare_is_text_equality[of "\<lparr>sv_dataPtr = ''scene=1'', sv_sizeInBytes = 5\<rparr>"
      "NkStringViewSet ''scene''"]
  by (simp add: sv_wf_def sv_text_def NkStringViewSet_def)

text \<open>Splitting at the first control character.  With \<open>k\<close> the number of characters before
  it, the first view is exactly these \<open>k\<close> characters; the second view is everything behind the
  control character, and is empty when there is none.\<close>

theorem raw_string_split_at_first:
  "\<exists>k o2 n2. NkRawStringSplit str ctrlChs = ((0, k), (o2, n2))
     \<and> take k str = takeWhile (\<lambda>c. c \<notin> set ctrlChs) str
     \<and> o2 + n2 = length str
     \<and> drop o2 str = (if k < length str then drop (Suc k) str else [])"
proof -
  let ?t = "takeWhile (\<lambda>c. c \<notin> set ctrlChs) str"
  have le: "length ?t \<le> length str" by (rule length_takeWhile_le)
  have tk: "take (length ?t) str = ?t" by (metis takeWhile_eq_take)
  have all: "length ?t = length str \<Longrightarrow> ?t = str" using tk by simp
  show ?thesis
    using le tk by (auto simp: NkRawStringSplit_def strpbrk_def Let_def min_def)
qed

text \<open>Trimming a whole string.  When the limit does not cut the text off, the result starts
  behind the leading trim characters and always ends at the end of the text: characters to be
  trimmed that stand at the end are kept, since the scan starts at the terminator.\<close>

theorem raw_string_trim_keeps_trailing:
  assumes "length str \<le> maxChars" "NUL \<notin> set key"
  shows "\<exists>p n. NkRawStringTrim str maxChars key = Done (p, n)
    \<and> take n (drop p str) = dropWhile (\<lambda>c. c \<in> set key) str"
proof -
  let ?p = "length (takeWhile (\<lambda>c. c \<in> set key) str)"
  have le: "?p \<le> length str" by (rule length_takeWhile_le)
  then have "NkRawStringTrim str maxChars key = Done (?p, length str - ?p)"
    using assms trim_lead_spec[of 0 str key] trim_tail_at_end[of ?p str key]
    by (simp add: NkRawStringTrim_def min_def Let_def nat_minus_as_int)
  then show ?thesis by (simp add: dropWhile_eq_drop)
qed

theorem raw_string_trim_keeps_trailing_witness:
  "\<exists>p n. NkRawStringTrim ''  ab  '' 16 '' '' = Done (p, n) \<and> take n (drop p ''  ab  '') = ''ab  ''"
  using raw_string_trim_keeps_trailing[of "''  ab  ''" 16 "'' ''"] by simp

end
