(* ===== verification/NkHash.thy ===== *)
theory NkHash
  imports NkUtil NkText
begin

unbundle bit_operations_syntax

section \<open>Hash table keys and their hash values (src/Noriko/dstruct/htable.c)\<close>

text \<open>
  The key union, the comparison of keys and the HalfSipHash that selects a key's home slot.
  Submitting a key whose member does not fit the table's key type is undefined behaviour by the
  documentation of the union.  A UUID key is a pointer: the hash reads sixteen bytes at the
  address of the union, that is, the pointer itself and the eight bytes behind it; these are the
  argument \<open>behind\<close>.
\<close>

datatype NkHashtableKeyType = NkHtKeyTy_Int64 | NkHtKeyTy_Uint64 | NkHtKeyTy_String
  | NkHtKeyTy_StringView | NkHtKeyTy_Pointer | NkHtKeyTy_Uuid

datatype NkHashtableKey =
    m_int64Key "64 word"
  | m_uint64Key "64 word"
  | mp_strKey string
  | mp_svKey NkStringView
  | mp_ptrKey "64 word"
  | mp_uuidKey "64 word" NkUuid

subsection \<open>HalfSipHash\<close>

definition ROTL :: "32 word \<Rightarrow> nat \<Rightarrow> 32 word" where
  "ROTL x b = push_bit b x OR drop_bit (32 - b) x"

definition U8TO32_LE :: "byte list \<Rightarrow> 32 word" where
  "U8TO32_LE p = ucast (p ! 0) OR push_bit 8 (ucast (p ! 1)) OR push_bit 16 (ucast (p ! 2))
     OR push_bit 24 (ucast (p ! 3))"

record sip_state =
  v0 :: "32 word"
  v1 :: "32 word"
  v2 :: "32 word"
  v3 :: "32 word"

definition SIPROUND :: "sip_state \<Rightarrow> sip_state" where
  "SIPROUND s =
     (let s = s\<lparr>v0 := v0 s + v1 s\<rparr>; s = s\<lparr>v1 := ROTL (v1 s) 5\<rparr>; s = s\<lparr>v1 := v1 s XOR v0 s\<rparr>;
          s = s\<lparr>v0 := ROTL (v0 s) 16\<rparr>;
          s = s\<lparr>v2 := v2 s + v3 s\<rparr>; s = s\<lparr>v3 := ROTL (v3 s) 8\<rparr>; s = s\<lparr>v3 := v3 s XOR v2 s\<rparr>;
          s = s\<lparr>v0 := v0 s + v3 s\<rparr>; s = s\<lparr>v3 := ROTL (v3 s) 7\<rparr>; s = s\<lparr>v3 := v3 s XOR v0 s\<rparr>;
          s = s\<lparr>v2 := v2 s + v1 s\<rparr>; s = s\<lparr>v1 := ROTL (v1 s) 13\<rparr>; s = s\<lparr>v1 := v1 s XOR v2 s\<rparr>;
          s = s\<lparr>v2 := ROTL (v2 s) 16\<rparr>
      in s)"

text \<open>The loop over whole 32-bit blocks; the bytes left over are returned with the state.\<close>

fun sip_blocks :: "sip_state \<Rightarrow> byte list \<Rightarrow> sip_state \<times> byte list" where
  "sip_blocks s (a # b # c # d # ni) =
     (let m = U8TO32_LE [a, b, c, d];
          s = s\<lparr>v3 := v3 s XOR m\<rparr>;
          s = SIPROUND (SIPROUND s)
      in sip_blocks (s\<lparr>v0 := v0 s XOR m\<rparr>) ni)"
| "sip_blocks s ni = (s, ni)"

fun sip_tail :: "32 word \<Rightarrow> byte list \<Rightarrow> 32 word" where
  "sip_tail b [x, y, z] = b OR push_bit 16 (ucast z) OR push_bit 8 (ucast y) OR ucast x"
| "sip_tail b [x, y] = b OR push_bit 8 (ucast y) OR ucast x"
| "sip_tail b [x] = b OR ucast x"
| "sip_tail b _ = b"

definition HalfSipHash :: "64 word \<Rightarrow> byte list \<Rightarrow> 64 word" where
  "HalfSipHash seed ni =
     (let kk = le_bytes seed;
          k0 = U8TO32_LE kk;
          k1 = U8TO32_LE (drop 4 kk);
          b = push_bit 24 (word_of_nat (length ni));
          s = \<lparr>v0 = 0 XOR k0, v1 = (0 XOR k1) XOR 0xee, v2 = 0x6c796765 XOR k0, v3 = 0x74656462 XOR k1\<rparr>;
          (s, rest) = sip_blocks s ni;
          b = sip_tail b rest;
          s = s\<lparr>v3 := v3 s XOR b\<rparr>;
          s = SIPROUND (SIPROUND s);
          s = s\<lparr>v0 := v0 s XOR b\<rparr>;
          s = s\<lparr>v2 := v2 s XOR 0xee\<rparr>;
          s = SIPROUND (SIPROUND (SIPROUND (SIPROUND s)));
          lo = v1 s XOR v3 s;
          s = s\<lparr>v1 := v1 s XOR 0xdd\<rparr>;
          s = SIPROUND (SIPROUND (SIPROUND (SIPROUND s)));
          hi = v1 s XOR v3 s
      in ucast lo OR push_bit 32 (ucast hi))"

subsection \<open>Hashing and comparing keys\<close>

fun HashtableGetKeySizeInBytes :: "NkHashtableKey \<Rightarrow> NkHashtableKeyType \<Rightarrow> nat outcome" where
  "HashtableGetKeySizeInBytes key NkHtKeyTy_Int64 = Done 8"
| "HashtableGetKeySizeInBytes key NkHtKeyTy_Uint64 = Done 8"
| "HashtableGetKeySizeInBytes key NkHtKeyTy_Pointer = Done 8"
| "HashtableGetKeySizeInBytes key NkHtKeyTy_String = (case key of mp_strKey s \<Rightarrow> Done (length s) | _ \<Rightarrow> Undef)"
| "HashtableGetKeySizeInBytes key NkHtKeyTy_StringView =
     (case key of mp_svKey sv \<Rightarrow> Done (sv_sizeInBytes sv) | _ \<Rightarrow> Undef)"
| "HashtableGetKeySizeInBytes key NkHtKeyTy_Uuid = Done 16"

definition str_bytes :: "string \<Rightarrow> byte list" where
  "str_bytes s = map of_char s"

text \<open>The bytes found at the address the hash starts reading from.\<close>

fun key_memory :: "byte list \<Rightarrow> NkHashtableKey \<Rightarrow> NkHashtableKeyType \<Rightarrow> byte list outcome" where
  "key_memory behind (m_int64Key i) NkHtKeyTy_Int64 = Done (le_bytes i)"
| "key_memory behind (m_uint64Key i) NkHtKeyTy_Uint64 = Done (le_bytes i)"
| "key_memory behind (mp_strKey s) NkHtKeyTy_String = Done (str_bytes s)"
| "key_memory behind (mp_svKey sv) NkHtKeyTy_StringView = Done (str_bytes (sv_dataPtr sv))"
| "key_memory behind (mp_ptrKey p) NkHtKeyTy_Pointer = Done (le_bytes p)"
| "key_memory behind (mp_uuidKey p u) NkHtKeyTy_Uuid = Done (le_bytes p @ behind)"
| "key_memory behind _ _ = Undef"

definition HashtableHash ::
    "64 word \<Rightarrow> byte list \<Rightarrow> NkHashtableKey \<Rightarrow> NkHashtableKeyType \<Rightarrow> nat \<Rightarrow> nat outcome" where
  "HashtableHash seed behind key kType htCap =
     obind (key_memory behind key kType) (\<lambda>mem.
     obind (HashtableGetKeySizeInBytes key kType) (\<lambda>inlen.
       if length mem < inlen then Undef
       else let out = HalfSipHash seed (take inlen mem) in
            if htCap = 0 then Undef
            else Done (unat ((out AND 0xFFFFFFFF) XOR drop_bit 32 out) mod htCap)))"

definition HashtableCompareKeys ::
    "NkHashtableKey \<Rightarrow> NkHashtableKey \<Rightarrow> NkHashtableKeyType \<Rightarrow> bool outcome" where
  "HashtableCompareKeys fk sk keyType =
     (case keyType of
        NkHtKeyTy_Int64 \<Rightarrow>
          (case fk of m_int64Key a \<Rightarrow> (case sk of m_int64Key b \<Rightarrow> Done (a = b) | _ \<Rightarrow> Undef) | _ \<Rightarrow> Undef)
      | NkHtKeyTy_Uint64 \<Rightarrow>
          (case fk of m_uint64Key a \<Rightarrow> (case sk of m_uint64Key b \<Rightarrow> Done (a = b) | _ \<Rightarrow> Undef) | _ \<Rightarrow> Undef)
      | NkHtKeyTy_String \<Rightarrow>
          (case fk of mp_strKey a \<Rightarrow> (case sk of mp_strKey b \<Rightarrow> Done (strcmp a b = 0) | _ \<Rightarrow> Undef) | _ \<Rightarrow> Undef)
      | NkHtKeyTy_StringView \<Rightarrow>
          (case fk of mp_svKey a \<Rightarrow> (case sk of mp_svKey b \<Rightarrow> Done (NkStringViewCompare a b = 0) | _ \<Rightarrow> Undef) | _ \<Rightarrow> Undef)
      | NkHtKeyTy_Pointer \<Rightarrow>
          (case fk of mp_ptrKey a \<Rightarrow> (case sk of mp_ptrKey b \<Rightarrow> Done (a = b) | _ \<Rightarrow> Undef) | _ \<Rightarrow> Undef)
      | NkHtKeyTy_Uuid \<Rightarrow>
          (case fk of mp_uuidKey p a \<Rightarrow> (case sk of mp_uuidKey q b \<Rightarrow> Done (NkUuidIsEqual a b) | _ \<Rightarrow> Undef) | _ \<Rightarrow> Undef))"

subsection \<open>Key identity\<close>

text \<open>A key is valid for a table when its member fits the key type and what it points to is a
  proper C string, string view or UUID.  Its identity is the value the comparison looks at; the
  address of a UUID is not part of it.\<close>

fun key_valid :: "NkHashtableKeyType \<Rightarrow> NkHashtableKey \<Rightarrow> bool" where
  "key_valid NkHtKeyTy_Int64 (m_int64Key i) = True"
| "key_valid NkHtKeyTy_Uint64 (m_uint64Key i) = True"
| "key_valid NkHtKeyTy_String (mp_strKey s) = (NUL \<notin> set s)"
| "key_valid NkHtKeyTy_StringView (mp_svKey sv) = sv_wf sv"
| "key_valid NkHtKeyTy_Pointer (mp_ptrKey p) = True"
| "key_valid NkHtKeyTy_Uuid (mp_uuidKey p u) = (length u = 16)"
| "key_valid _ _ = False"

datatype key_ident = IdWord "64 word" | IdText string | IdUuid NkUuid

fun key_id :: "NkHashtableKey \<Rightarrow> key_ident" where
  "key_id (m_int64Key i) = IdWord i"
| "key_id (m_uint64Key i) = IdWord i"
| "key_id (mp_strKey s) = IdText s"
| "key_id (mp_svKey sv) = IdText (sv_text sv)"
| "key_id (mp_ptrKey p) = IdWord p"
| "key_id (mp_uuidKey p u) = IdUuid u"

lemma NkUuidIsEqual_iff: "length a = 16 \<Longrightarrow> length b = 16 \<Longrightarrow> NkUuidIsEqual a b \<longleftrightarrow> a = b"
  by (auto simp: NkUuidIsEqual_def) (metis append_take_drop_id length_drop diff_self_eq_0 numeral_Bit0 take_all
      add_diff_cancel_left' order_refl)

lemma CompareKeys_id:
  assumes "key_valid kt a" "key_valid kt b"
  shows "HashtableCompareKeys a b kt = Done (key_id a = key_id b)"
  using assms
  by (cases kt; cases a; cases b)
    (auto simp: HashtableCompareKeys_def strcmp_eq_0 NkStringViewCompare_eq_0 NkUuidIsEqual_iff)

lemma HashtableHash_Done:
  assumes "key_valid kt key" "0 < cap" "length behind = 8"
  shows "\<exists>h. HashtableHash seed behind key kt cap = Done h \<and> h < cap"
  using assms
  by (cases kt; cases key) (auto simp: HashtableHash_def Let_def str_bytes_def sv_wf_def)

end
