(* ===== verification/NkFloat.thy ===== *)
theory NkFloat
  imports Complex_Main "HOL-Library.Log_Nat" NkPrelude
begin

section \<open>Single-precision arithmetic\<close>

text \<open>
  Two containers decide about their capacity in \<open>float\<close> arithmetic.  A finite \<open>float\<close> value is
  the rational it denotes, and an operation is the exact rational operation followed by
  \<open>f32_round\<close>, the round-to-nearest-even of IEEE binary32 (24 significant bits).  The values
  that occur are counts of elements, load factors and grow factors, well inside the normal
  range, so overflow and subnormal results do not arise and are not modelled.
\<close>

definition f32_exp :: "rat \<Rightarrow> int" where
  "f32_exp x = (let (p, q) = quotient_of x; k = bitlen p - bitlen q
                in if 2 powi k \<le> x then k else k - 1)"

definition round_half_even :: "rat \<Rightarrow> int" where
  "round_half_even x =
     (let f = \<lfloor>x\<rfloor>; d = x - of_int f
      in if d < 1 / 2 then f else if 1 / 2 < d then f + 1 else if even f then f else f + 1)"

definition f32_round :: "rat \<Rightarrow> rat" where
  "f32_round x = (if x = 0 then 0
     else let u = 2 powi (f32_exp x - 23) in of_int (round_half_even (x / u)) * u)"

text \<open>Conversion of a \<open>float\<close> to an unsigned integer type of \<open>w\<close> bits is undefined when the
  value does not fit.\<close>

definition f32_to_uint :: "nat \<Rightarrow> rat \<Rightarrow> nat outcome" where
  "f32_to_uint w r = (if 0 \<le> r \<and> r < 2 ^ w then Done (nat \<lfloor>r\<rfloor>) else Undef)"

lemma f32_exp_le:
  assumes "0 < x"
  shows "2 powi (f32_exp x) \<le> x"
proof -
  obtain p q where pq: "quotient_of x = (p, q)" by (cases "quotient_of x")
  have q: "0 < q" using quotient_of_denom_pos[OF pq] .
  have x: "x = of_int p / of_int q" using quotient_of_div[OF pq] .
  have p: "0 < p" using assms x q by (simp add: zero_less_divide_iff)
  let ?k = "bitlen p - bitlen q"
  have bp: "1 \<le> bitlen p" and bq: "1 \<le> bitlen q"
    using p q bitlen_nonneg[of p] bitlen_nonneg[of q] bitlen_eq_zero_iff[of p]
      bitlen_eq_zero_iff[of q] by linarith+
  have lo: "(2::rat) ^ nat (bitlen p - 1) \<le> of_int p"
    using bitlen_bounds[OF p] by (metis of_int_le_iff of_int_numeral of_int_power)
  have hi: "of_int q \<le> (2::rat) ^ nat (bitlen q)"
    using bitlen_bounds[OF q] by (metis less_imp_le of_int_le_iff of_int_numeral of_int_power)
  have "2 powi (?k - 1) = (2::rat) powi (bitlen p - 1) / 2 powi (bitlen q)"
    by (simp add: power_int_diff algebra_simps flip: power_int_diff)
  also have "\<dots> = 2 ^ nat (bitlen p - 1) / 2 ^ nat (bitlen q)"
    using bp bq by (simp add: power_int_def)
  also have "\<dots> \<le> of_int p / of_int q"
    using lo hi q p by (intro frac_le) auto
  finally have "2 powi (?k - 1) \<le> x" by (simp add: x)
  then show ?thesis by (simp add: f32_exp_def pq Let_def)
qed

lemma round_half_even_err: "\<bar>of_int (round_half_even x) - x\<bar> \<le> 1 / 2"
proof -
  have b: "of_int \<lfloor>x\<rfloor> \<le> x" "x < of_int \<lfloor>x\<rfloor> + 1" by linarith+
  consider "x - of_int \<lfloor>x\<rfloor> < 1 / 2" | "1 / 2 < x - of_int \<lfloor>x\<rfloor>" | "x - of_int \<lfloor>x\<rfloor> = 1 / 2"
    by linarith
  then show ?thesis
    using b by cases (auto simp: round_half_even_def Let_def abs_le_iff)
qed

lemma f32_round_err:
  assumes "0 < x"
  shows "\<bar>f32_round x - x\<bar> \<le> x / 2 ^ 24"
proof -
  define u :: rat where "u = 2 powi (f32_exp x - 23)"
  have u: "0 < u" by (simp add: u_def)
  have eq: "f32_round x - x = (of_int (round_half_even (x / u)) - x / u) * u"
    using assms u by (simp add: f32_round_def u_def[symmetric] left_diff_distrib)
  have "u * 2 ^ 23 = 2 powi (f32_exp x)"
    by (simp add: u_def power_int_diff)
  then have ux: "u * 2 ^ 23 \<le> x" using f32_exp_le[OF assms] by simp
  have "\<bar>f32_round x - x\<bar> = \<bar>of_int (round_half_even (x / u)) - x / u\<bar> * u"
    using u by (simp add: eq abs_mult)
  also have "\<dots> \<le> 1 / 2 * u"
    using u round_half_even_err by (intro mult_right_mono) auto
  also have "\<dots> \<le> x / 2 ^ 24" using ux by simp
  finally show ?thesis .
qed

lemma f32_round_bounds:
  assumes "0 \<le> x"
  shows "x - x / 2 ^ 24 \<le> f32_round x" "f32_round x \<le> x + x / 2 ^ 24"
proof -
  have "\<bar>f32_round x - x\<bar> \<le> x / 2 ^ 24"
    using f32_round_err[of x] assms by (cases "x = 0") (auto simp: f32_round_def)
  then show "x - x / 2 ^ 24 \<le> f32_round x" "f32_round x \<le> x + x / 2 ^ 24"
    by linarith+
qed

lemma f32_round_nonneg: "0 \<le> x \<Longrightarrow> 0 \<le> f32_round x"
  using f32_round_bounds(1)[of x] by simp

subsection \<open>Signed single precision\<close>

definition f32 :: "rat \<Rightarrow> rat" where
  "f32 x = (if x < 0 then - f32_round (- x) else f32_round x)"

text \<open>Integers of at most 24 bits are represented exactly.\<close>

lemma round_half_even_int: "round_half_even (of_int z) = z"
  by (simp add: round_half_even_def)

lemma f32_round_int:
  assumes "0 < n" "n < 2 ^ 24"
  shows "f32_round (of_int n) = of_int n"
proof -
  let ?e = "f32_exp (of_int n)"
  have "(2 :: rat) powi ?e \<le> of_int n" using f32_exp_le[of "of_int n"] assms(1) by simp
  also have "\<dots> < 2 powi 24" using assms(2) by (metis of_int_less_iff of_int_numeral of_int_power power_int_numeral)
  finally have le: "?e < 24" using power_int_increasing[of 24 ?e "2 :: rat"] by (force simp: not_less)
  define k where "k = nat (23 - ?e)"
  have k: "?e - 23 + int k = 0" using le by (simp add: k_def)
  have u: "(2 :: rat) powi (?e - 23) * 2 ^ k = 1"
    using power_int_add[of "2 :: rat" "?e - 23" "int k"] k by simp
  then have "(of_int n :: rat) / 2 powi (?e - 23) = of_int (n * 2 ^ k)"
    by (simp add: field_simps)
  then show ?thesis using assms(1) u
    by (simp add: f32_round_def Let_def round_half_even_int del: of_int_mult) (simp add: ac_simps)
qed

lemma f32_int:
  assumes "\<bar>n\<bar> < 2 ^ 24"
  shows "f32 (of_int n) = of_int n"
  using f32_round_int[of n] f32_round_int[of "- n"] assms by (cases n "0 :: int" rule: linorder_cases) (auto simp: f32_def f32_round_def)

end
