(* ===== verification/NkAlloc.thy ===== *)
theory NkAlloc
  imports NkPrelude
begin

section \<open>The general-purpose allocator (src/Noriko/alloc.c)\<close>

text \<open>
  \<open>NkGPAlloc\<close>, \<open>NkGPRealloc\<close> and \<open>NkGPFree\<close> wrap the C heap.  The heap's answer to a request is
  the argument \<open>heap\<close>: whether a request of that many bytes succeeds.  The contents of a block
  belong to the caller's state, so the calls return the error code and the caller builds,
  resizes or drops its own list of slots.
\<close>

type_synonym heap_answer = "nat \<Rightarrow> bool"

definition NkGPAlloc :: "heap_answer \<Rightarrow> nat \<Rightarrow> nat \<Rightarrow> NkErrorCode outcome" where
  "NkGPAlloc heap sizeInBytes alignInBytes =
     nk_assert (sizeInBytes \<noteq> 0) NkErr_InParameter
    (nk_assert (alignInBytes = 0) NkErr_NotImplemented
    (Done (if heap sizeInBytes then NkErr_Ok else NkErr_MemoryAllocation)))"

definition NkGPRealloc :: "heap_answer \<Rightarrow> nat \<Rightarrow> NkErrorCode outcome" where
  "NkGPRealloc heap newSizeInBytes =
     nk_assert (newSizeInBytes \<noteq> 0) NkErr_InParameter
    (Done (if heap newSizeInBytes then NkErr_Ok else NkErr_MemoryReallocation))"

text \<open>The slots of a block after a successful \<open>realloc\<close> to \<open>n\<close> slots: the common prefix is kept
  and new slots are indeterminate.\<close>

definition realloc_slots :: "'a option list \<Rightarrow> nat \<Rightarrow> 'a option list" where
  "realloc_slots b n = take n b @ replicate (n - length b) None"

lemma length_realloc_slots [simp]: "length (realloc_slots b n) = n"
  by (simp add: realloc_slots_def)

lemma take_realloc_slots: "m \<le> n \<Longrightarrow> m \<le> length b \<Longrightarrow> take m (realloc_slots b n) = take m b"
  by (simp add: realloc_slots_def min_def)

lemma NkGPAlloc_Done [nk_outcome]:
  "NkGPAlloc heap n al = Done ec \<longleftrightarrow> n \<noteq> 0 \<and> al = 0
     \<and> ec = (if heap n then NkErr_Ok else NkErr_MemoryAllocation)"
  by (auto simp: NkGPAlloc_def nk_outcome)

lemma NkGPRealloc_Done [nk_outcome]:
  "NkGPRealloc heap n = Done ec \<longleftrightarrow> n \<noteq> 0
     \<and> ec = (if heap n then NkErr_Ok else NkErr_MemoryReallocation)"
  by (auto simp: NkGPRealloc_def nk_outcome)

end
