(* ===== verification/NkHashtable.thy ===== *)
theory NkHashtable
  imports NkHash NkFloat NkAlloc "HOL-Library.Multiset"
begin

section \<open>The hash table (src/Noriko/dstruct/htable.c)\<close>

text \<open>
  The element array is the list of its slots.  The value pointer of a pair is an option, None
  being NULL; a zeroed slot holds the zero key and NULL.  Calls of the free function are logged:
  an operation returns the list of (key, value) arguments it was called with, None being NULL.
  The static context \<open>cx\<close> holds the hash seed and the bytes of a value pointer (these lie behind
  the key of a pair in memory).  Where a caller passes a key on its own, the eight bytes behind it
  are the argument \<open>behind\<close>.
\<close>

record 'v NkHashtablePair =
  m_keyVal :: NkHashtableKey
  mp_valuePtr :: "'v option"

record 'v ext_pair =
  m_regPair :: "'v NkHashtablePair"
  m_isUsed :: bool
  m_offset :: nat

record 'v ht_context =
  m_hashSeed :: "64 word"
  ptr_bytes :: "'v option \<Rightarrow> byte list"

record NkHashtableProperties =
  ht_structSize :: nat
  ht_initCap :: nat
  ht_minCap :: nat
  ht_maxCap :: nat
  ht_keyType :: NkHashtableKeyType
  ht_fnElemFree :: bool

record 'v NkHashtable =
  ht_elemCount :: nat
  ht_currCap :: nat
  ht_htProps :: NkHashtableProperties
  ht_elemArray :: "'v ext_pair list"

type_synonym 'v free_log = "(NkHashtableKey option \<times> 'v option) list"

definition zero_pair :: "'v NkHashtablePair" where
  "zero_pair = \<lparr>m_keyVal = m_uint64Key 0, mp_valuePtr = None\<rparr>"

definition zero_slot :: "'v ext_pair" where
  "zero_slot = \<lparr>m_regPair = zero_pair, m_isUsed = False, m_offset = 0\<rparr>"

definition sizeof_ext_pair :: nat where
  "sizeof_ext_pair = 24"

subsection \<open>Internal helpers\<close>

text \<open>The scans over the slots in index order stop early when \<open>j\<close> used slots have been seen.\<close>

fun free_elems_loop :: "'v ext_pair list \<Rightarrow> nat \<Rightarrow> 'v free_log" where
  "free_elems_loop [] n = []"
| "free_elems_loop (e # es) 0 = []"
| "free_elems_loop (e # es) (Suc n) =
     (if m_isUsed e
      then (Some (m_keyVal (m_regPair e)), mp_valuePtr (m_regPair e)) # free_elems_loop es n
      else free_elems_loop es (Suc n))"

definition HashtableFreeElems :: "'v NkHashtable \<Rightarrow> 'v free_log" where
  "HashtableFreeElems ht =
     (if ht_fnElemFree (ht_htProps ht)
      then free_elems_loop (take (ht_currCap ht) (ht_elemArray ht)) (ht_elemCount ht) else [])"

definition next_slot :: "nat \<Rightarrow> nat \<Rightarrow> nat" where
  "next_slot cap i = (if i \<ge> sub32 cap 1 then 0 else Suc i)"

text \<open>The probing loop of the insertion: its counter never changes, so it ends only at a free
  slot.\<close>

partial_function (option) rh_loop ::
    "nat \<Rightarrow> 'v ext_pair list \<Rightarrow> nat \<Rightarrow> nat \<Rightarrow> 'v NkHashtablePair \<Rightarrow> 'v ext_pair list outcome option" where
  "rh_loop cap arr i currPsa tmpPair =
     (if length arr \<le> i then Some Undef
      else let e = arr ! i in
        if \<not> m_isUsed e
        then Some (Done (arr[i := \<lparr>m_regPair = tmpPair, m_isUsed = True, m_offset = currPsa\<rparr>]))
        else if currPsa \<le> m_offset e
        then rh_loop cap arr (next_slot cap i) (wrap32 (currPsa + 1)) tmpPair
        else rh_loop cap (arr[i := \<lparr>m_regPair = tmpPair, m_isUsed = True, m_offset = currPsa\<rparr>])
               (next_slot cap i) (wrap32 (m_offset e + 1)) (m_regPair e))"

definition HashtableRobinHoodInsertSingle ::
    "'v ht_context \<Rightarrow> 'v NkHashtable \<Rightarrow> 'v NkHashtablePair \<Rightarrow> (bool \<times> 'v NkHashtable) outcome" where
  "HashtableRobinHoodInsertSingle cx ht pair =
     obind (HashtableHash (m_hashSeed cx) (ptr_bytes cx (mp_valuePtr pair)) (m_keyVal pair)
              (ht_keyType (ht_htProps ht)) (ht_currCap ht)) (\<lambda>initialHash.
       if ht_currCap ht = 0 then Done (False, ht)
       else obind (of_loop (rh_loop (ht_currCap ht) (ht_elemArray ht) initialHash 0 pair)) (\<lambda>arr.
              Done (True, ht\<lparr>ht_elemArray := arr\<rparr>)))"

text \<open>The transfer of the used slots into the new table.\<close>

fun transfer_loop ::
    "'v ht_context \<Rightarrow> 'v ext_pair list \<Rightarrow> nat \<Rightarrow> 'v NkHashtable \<Rightarrow> (bool \<times> 'v NkHashtable) outcome" where
  "transfer_loop cx [] n hTable = Done (True, hTable)"
| "transfer_loop cx (e # es) 0 hTable = Done (True, hTable)"
| "transfer_loop cx (e # es) (Suc n) hTable =
     (if m_isUsed e
      then obind (HashtableRobinHoodInsertSingle cx hTable (m_regPair e)) (\<lambda>(ok, hTable').
             if \<not> ok then Done (False, hTable') else transfer_loop cx es n hTable')
      else transfer_loop cx es (Suc n) hTable)"

definition HashtableAdjustCapacity ::
    "'v ht_context \<Rightarrow> heap_answer \<Rightarrow> 'v NkHashtable \<Rightarrow> nat \<Rightarrow> (NkErrorCode \<times> 'v NkHashtable) outcome" where
  "HashtableAdjustCapacity cx heap ht newCap =
     obind (NkGPAlloc heap (sizeof_ext_pair * newCap) 0) (\<lambda>eCode.
       if eCode \<noteq> NkErr_Ok then Done (eCode, ht)
       else let hTable = \<lparr>ht_elemCount = ht_elemCount ht, ht_currCap = newCap,
                          ht_htProps = ht_htProps ht, ht_elemArray = replicate newCap zero_slot\<rparr>
            in obind (transfer_loop cx (take (ht_currCap ht) (ht_elemArray ht)) (ht_elemCount ht) hTable)
                 (\<lambda>(ok, hTable'). if ok then Done (NkErr_Ok, hTable') else Done (NkErr_CapLimitExceeded, ht)))"

text \<open>The search visits every slot once, starting at the key's home slot; None is the result
  \<open>UINT32_MAX\<close>.\<close>

fun loc_loop :: "'v NkHashtable \<Rightarrow> NkHashtableKey \<Rightarrow> nat \<Rightarrow> nat \<Rightarrow> nat option outcome" where
  "loc_loop ht key i 0 = Done None"
| "loc_loop ht key i (Suc j) =
     obind (mem_read (ht_elemArray ht) i) (\<lambda>e.
     obind (if m_isUsed e
            then HashtableCompareKeys key (m_keyVal (m_regPair e)) (ht_keyType (ht_htProps ht))
            else Done False) (\<lambda>isKeysEqual.
       if isKeysEqual then Done (Some i) else loc_loop ht key (next_slot (ht_currCap ht) i) j))"

definition HashtableLocKey ::
    "'v ht_context \<Rightarrow> 'v NkHashtable \<Rightarrow> byte list \<Rightarrow> NkHashtableKey \<Rightarrow> nat option outcome" where
  "HashtableLocKey cx ht behind key =
     obind (HashtableHash (m_hashSeed cx) behind key (ht_keyType (ht_htProps ht)) (ht_currCap ht))
       (\<lambda>initialHash. loc_loop ht key initialHash (ht_currCap ht))"

subsection \<open>Creation and destruction\<close>

text \<open>\<open>poolRes\<close> is the result of the pool allocation of the structure itself.\<close>

definition HashtableInitContext :: "'v ht_context \<Rightarrow> RandContext \<Rightarrow> 'v ht_context \<times> RandContext" where
  "HashtableInitContext cx rnd =
     (if m_hashSeed cx = 0 then let (_, seed, rnd') = NkPRNGNext rnd in (cx\<lparr>m_hashSeed := seed\<rparr>, rnd')
      else (cx, rnd))"

definition NkHashtableCreate ::
    "'v ht_context \<Rightarrow> RandContext \<Rightarrow> NkErrorCode \<Rightarrow> heap_answer \<Rightarrow> NkHashtableProperties
     \<Rightarrow> (NkErrorCode \<times> 'v NkHashtable option \<times> 'v ht_context \<times> RandContext) outcome" where
  "NkHashtableCreate cx rnd poolRes heap props =
     (let (cx', rnd') = HashtableInitContext cx rnd in
      if poolRes \<noteq> NkErr_Ok then Done (poolRes, None, cx', rnd')
      else obind (NkGPAlloc heap (sizeof_ext_pair * ht_initCap props) 0) (\<lambda>errorCode.
        if errorCode \<noteq> NkErr_Ok then Done (errorCode, None, cx', rnd')
        else Done (NkErr_Ok, Some \<lparr>ht_elemCount = 0, ht_currCap = ht_initCap props, ht_htProps = props,
                                   ht_elemArray = replicate (ht_initCap props) zero_slot\<rparr>, cx', rnd')))"

definition NkHashtableDestroy :: "'v NkHashtable option \<Rightarrow> 'v free_log" where
  "NkHashtableDestroy ht = (case ht of None \<Rightarrow> [] | Some t \<Rightarrow> HashtableFreeElems t)"

definition NkHashtableClear ::
    "'v ht_context \<Rightarrow> heap_answer \<Rightarrow> 'v NkHashtable \<Rightarrow> ('v free_log \<times> 'v NkHashtable) outcome" where
  "NkHashtableClear cx heap ht =
     (let freed = HashtableFreeElems ht in
      obind (HashtableAdjustCapacity cx heap ht (ht_minCap (ht_htProps ht))) (\<lambda>(_, ht1).
        Done (freed, ht1\<lparr>ht_elemArray := replicate (ht_currCap ht1) zero_slot @ drop (ht_currCap ht1) (ht_elemArray ht1),
                         ht_elemCount := 0\<rparr>)))"

subsection \<open>Insertion\<close>

definition NkHashtableContains ::
    "'v ht_context \<Rightarrow> 'v NkHashtable \<Rightarrow> byte list \<Rightarrow> NkHashtableKey \<Rightarrow> bool outcome" where
  "NkHashtableContains cx ht behind key =
     obind (HashtableLocKey cx ht behind key) (\<lambda>w. Done (w \<noteq> None))"

fun insert_loop ::
    "'v ht_context \<Rightarrow> 'v NkHashtablePair list \<Rightarrow> nat \<Rightarrow> 'v NkHashtable \<Rightarrow> (nat \<times> 'v NkHashtable) outcome" where
  "insert_loop cx [] actAdded ht = Done (actAdded, ht)"
| "insert_loop cx (p # ps) actAdded ht =
     obind (NkHashtableContains cx ht (ptr_bytes cx (mp_valuePtr p)) (m_keyVal p)) (\<lambda>c.
       if c then insert_loop cx ps actAdded ht
       else obind (HashtableRobinHoodInsertSingle cx ht p) (\<lambda>(_, ht').
              insert_loop cx ps (Suc actAdded) ht'))"

definition ht_over_load :: "nat \<Rightarrow> nat \<Rightarrow> bool" where
  "ht_over_load newElemCount currCap \<longleftrightarrow>
     3 / 4 \<le> f32_round (f32_round (of_nat newElemCount) / f32_round (of_nat currCap))"

definition gl_TarLoadFactor :: rat where
  "gl_TarLoadFactor = f32_round (35 / 100)"

definition ht_new_cap :: "NkHashtableProperties \<Rightarrow> nat \<Rightarrow> nat outcome" where
  "ht_new_cap props newElemCount =
     obind (f32_to_uint 32 (f32_round (f32_round (of_nat newElemCount) / gl_TarLoadFactor))) (\<lambda>c.
       Done (max (min c (ht_maxCap props)) (ht_minCap props)))"

definition NkHashtableInsertMulti ::
    "'v ht_context \<Rightarrow> heap_answer \<Rightarrow> 'v NkHashtable \<Rightarrow> 'v NkHashtablePair list
     \<Rightarrow> (NkErrorCode \<times> 'v NkHashtable) outcome" where
  "NkHashtableInsertMulti cx heap ht pairs =
     (let (ok, newElemCount) = NkCheckedUint32Add (ht_elemCount ht) (length pairs) in
      if \<not> ok \<or> newElemCount > ht_maxCap (ht_htProps ht) then Done (NkErr_CapLimitExceeded, ht)
      else obind
        (if ht_over_load newElemCount (ht_currCap ht)
         then obind (ht_new_cap (ht_htProps ht) newElemCount) (\<lambda>c. HashtableAdjustCapacity cx heap ht c)
         else Done (NkErr_Ok, ht)) (\<lambda>(errorCode, ht1).
        if errorCode \<noteq> NkErr_Ok then Done (errorCode, ht1)
        else obind (insert_loop cx pairs 0 ht1) (\<lambda>(actAdded, ht2).
               Done (NkErr_Ok, ht2\<lparr>ht_elemCount := wrap32 (ht_elemCount ht2 + actAdded)\<rparr>))))"

definition NkHashtableInsert ::
    "'v ht_context \<Rightarrow> heap_answer \<Rightarrow> 'v NkHashtable \<Rightarrow> 'v NkHashtablePair
     \<Rightarrow> (NkErrorCode \<times> 'v NkHashtable) outcome" where
  "NkHashtableInsert cx heap ht pair = NkHashtableInsertMulti cx heap ht [pair]"

subsection \<open>Lookup and removal\<close>

definition NkHashtableAt ::
    "'v ht_context \<Rightarrow> 'v NkHashtable \<Rightarrow> byte list \<Rightarrow> NkHashtableKey \<Rightarrow> (NkErrorCode \<times> 'v option) outcome" where
  "NkHashtableAt cx ht behind key =
     obind (HashtableLocKey cx ht behind key) (\<lambda>w.
       case w of None \<Rightarrow> Done (NkErr_ItemNotFound, None)
       | Some i \<Rightarrow> Done (NkErr_Ok, mp_valuePtr (m_regPair (ht_elemArray ht ! i))))"

text \<open>The key is handed to the free function only for the key types from \<open>NkHtKeyTy_String\<close> to
  \<open>NkHtKeyTy_Uuid\<close>.\<close>

definition key_owned :: "NkHashtableKeyType \<Rightarrow> bool" where
  "key_owned kt \<longleftrightarrow> kt \<in> {NkHtKeyTy_String, NkHtKeyTy_StringView, NkHtKeyTy_Pointer, NkHtKeyTy_Uuid}"

definition NkHashtableErase ::
    "'v ht_context \<Rightarrow> 'v NkHashtable \<Rightarrow> byte list \<Rightarrow> NkHashtableKey
     \<Rightarrow> (NkErrorCode \<times> 'v free_log \<times> 'v NkHashtable) outcome" where
  "NkHashtableErase cx ht behind key =
     obind (HashtableLocKey cx ht behind key) (\<lambda>w.
       case w of None \<Rightarrow> Done (NkErr_ItemNotFound, [], ht)
       | Some i \<Rightarrow>
           let e = ht_elemArray ht ! i in
           Done (NkErr_Ok,
             (if ht_fnElemFree (ht_htProps ht)
              then [(if key_owned (ht_keyType (ht_htProps ht)) then Some (m_keyVal (m_regPair e)) else None,
                     mp_valuePtr (m_regPair e))]
              else []),
             ht\<lparr>ht_elemArray := (ht_elemArray ht)[i := e\<lparr>m_isUsed := False\<rparr>],
                ht_elemCount := sub32 (ht_elemCount ht) 1\<rparr>))"

definition NkHashtableExtract ::
    "'v ht_context \<Rightarrow> 'v NkHashtable \<Rightarrow> byte list \<Rightarrow> NkHashtableKey
     \<Rightarrow> (NkErrorCode \<times> 'v option \<times> 'v free_log \<times> 'v NkHashtable) outcome" where
  "NkHashtableExtract cx ht behind key =
     obind (HashtableLocKey cx ht behind key) (\<lambda>w.
       case w of None \<Rightarrow> Done (NkErr_ItemNotFound, None, [], ht)
       | Some i \<Rightarrow>
           let e = ht_elemArray ht ! i in
           Done (NkErr_Ok, mp_valuePtr (m_regPair e),
             (if ht_fnElemFree (ht_htProps ht) then [(Some (m_keyVal (m_regPair e)), None)] else []),
             ht\<lparr>ht_elemArray := (ht_elemArray ht)[i := e\<lparr>m_isUsed := False\<rparr>],
                ht_elemCount := sub32 (ht_elemCount ht) 1\<rparr>))"

subsection \<open>Iteration\<close>

text \<open>The callback may change its own state and the pair; a result other than \<open>NkErr_Ok\<close> ends the
  iteration.  The second loop counter never changes.\<close>

fun ht_foreach_loop ::
    "('s \<Rightarrow> 'v NkHashtablePair \<Rightarrow> NkErrorCode \<times> 's \<times> 'v NkHashtablePair) \<Rightarrow> 'v ext_pair list \<Rightarrow> NkErrorCode \<Rightarrow> 's
     \<Rightarrow> NkErrorCode \<times> 's \<times> 'v ext_pair list" where
  "ht_foreach_loop fnIter [] ec s = (ec, s, [])"
| "ht_foreach_loop fnIter (e # es) ec s =
     (if \<not> m_isUsed e then (let (ec', s', es') = ht_foreach_loop fnIter es ec s in (ec', s', e # es'))
      else let (ec1, s1, p1) = fnIter s (m_regPair e); e1 = e\<lparr>m_regPair := p1\<rparr> in
           if ec1 \<noteq> NkErr_Ok then (ec1, s1, e1 # es)
           else let (ec', s', es') = ht_foreach_loop fnIter es ec1 s1 in (ec', s', e1 # es'))"

definition NkHashtableForEach ::
    "'v NkHashtable \<Rightarrow> ('s \<Rightarrow> 'v NkHashtablePair \<Rightarrow> NkErrorCode \<times> 's \<times> 'v NkHashtablePair) \<Rightarrow> 's
     \<Rightarrow> NkErrorCode \<times> 's \<times> 'v NkHashtable" where
  "NkHashtableForEach ht fnIter s =
     (if ht_elemCount ht = 0 then (NkErr_NoOperation, s, ht)
      else let (ec, s', es) = ht_foreach_loop fnIter (take (ht_currCap ht) (ht_elemArray ht)) NkErr_NoOperation s
           in (ec, s', ht\<lparr>ht_elemArray := es @ drop (ht_currCap ht) (ht_elemArray ht)\<rparr>))"

definition NkHashtableCount :: "'v NkHashtable \<Rightarrow> nat" where
  "NkHashtableCount ht = ht_elemCount ht"

subsection \<open>The invariant and the map a table denotes\<close>

definition used :: "'v ext_pair list \<Rightarrow> 'v NkHashtablePair list" where
  "used arr = map m_regPair (filter m_isUsed arr)"

definition pair_kv :: "'v NkHashtablePair \<Rightarrow> key_ident \<times> 'v option" where
  "pair_kv p = (key_id (m_keyVal p), mp_valuePtr p)"

definition ht_pairs :: "'v NkHashtable \<Rightarrow> 'v NkHashtablePair list" where
  "ht_pairs ht = used (ht_elemArray ht)"

definition ht_map :: "'v NkHashtable \<Rightarrow> key_ident \<rightharpoonup> 'v option" where
  "ht_map ht = map_of (map pair_kv (ht_pairs ht))"

definition ht_wf :: "'v NkHashtable \<Rightarrow> bool" where
  "ht_wf ht \<longleftrightarrow> ht_currCap ht = length (ht_elemArray ht) \<and> 0 < ht_currCap ht \<and> ht_currCap ht \<le> UINT32_MAX
     \<and> ht_elemCount ht = length (ht_pairs ht)
     \<and> distinct (map fst (map pair_kv (ht_pairs ht)))
     \<and> list_all (\<lambda>p. key_valid (ht_keyType (ht_htProps ht)) (m_keyVal p)) (ht_pairs ht)"

definition cx_ok :: "'v ht_context \<Rightarrow> bool" where
  "cx_ok cx \<longleftrightarrow> (\<forall>v. length (ptr_bytes cx v) = 8)"

subsection \<open>Slots\<close>

lemma used_simps [simp]: "used [] = []" "used (e # es) = (if m_isUsed e then [m_regPair e] else []) @ used es"
  "used (xs @ ys) = used xs @ used ys"
  by (simp_all add: used_def)

lemma used_replicate_zero [simp]: "used (replicate n zero_slot) = []"
  by (induction n) (simp_all add: zero_slot_def)

lemma length_used_le: "length (used arr) \<le> length arr"
  by (simp add: used_def)

lemma mset_used_update:
  assumes "i < length arr"
  shows "mset (used (arr[i := e])) + mset (used [arr ! i]) = mset (used arr) + mset (used [e])"
proof -
  have "arr = take i arr @ [arr ! i] @ drop (Suc i) arr" by (simp add: id_take_nth_drop[OF assms, symmetric])
  then have "mset (used arr) = mset (used (take i arr @ [arr ! i] @ drop (Suc i) arr))" by simp
  then show ?thesis using assms by (auto simp: upd_conv_take_nth_drop ac_simps)
qed

lemma used_mem: "p \<in> set (used arr) \<longleftrightarrow> (\<exists>i < length arr. m_isUsed (arr ! i) \<and> p = m_regPair (arr ! i))"
  by (fastforce simp: used_def in_set_conv_nth)

lemma free_slot_exists: "length (used arr) < length arr \<Longrightarrow> \<exists>f < length arr. \<not> m_isUsed (arr ! f)"
proof (rule ccontr)
  assume lt: "length (used arr) < length arr" and "\<not> (\<exists>f < length arr. \<not> m_isUsed (arr ! f))"
  then have "filter m_isUsed arr = arr" by (auto simp: filter_id_conv in_set_conv_nth)
  then show False using lt by (simp add: used_def)
qed

lemma next_slot_eq: "i < cap \<Longrightarrow> cap \<le> UINT32_MAX \<Longrightarrow> next_slot cap i = Suc i mod cap"
  by (auto simp: next_slot_def sub32_ge mod_Suc)

lemma next_slot_add: "i < cap \<Longrightarrow> cap \<le> UINT32_MAX \<Longrightarrow> (next_slot cap i + d) mod cap = (i + Suc d) mod cap"
  by (simp add: next_slot_eq mod_simps)

subsection \<open>Insertion of a single pair\<close>

text \<open>If the slot \<open>d\<close> steps ahead is free, the loop ends, and the table gains the pair.\<close>

lemma rh_loop_inserts:
  assumes "length arr = cap" "cap \<le> UINT32_MAX" "i < cap" "\<not> m_isUsed (arr ! ((i + d) mod cap))"
  shows "\<exists>arr'. rh_loop cap arr i psa p = Some (Done arr') \<and> length arr' = cap
    \<and> mset (used arr') = add_mset p (mset (used arr))"
  using assms
proof (induction d arbitrary: arr i psa p)
  case 0
  then show ?case
    using mset_used_update[of i arr "\<lparr>m_regPair = p, m_isUsed = True, m_offset = psa\<rparr>"]
    by (subst rh_loop.simps) auto
next
  case (Suc d)
  let ?e = "arr ! i" and ?n = "next_slot cap i"
  let ?new = "\<lparr>m_regPair = p, m_isUsed = True, m_offset = psa\<rparr>"
  have n: "?n < cap" using Suc.prems by (simp add: next_slot_eq)
  have f: "(?n + d) mod cap = (i + Suc d) mod cap" using Suc.prems by (simp add: next_slot_add)
  show ?case
  proof (cases "m_isUsed ?e")
    case False
    then show ?thesis
      using Suc.prems mset_used_update[of i arr ?new] by (subst rh_loop.simps) auto
  next
    case True
    then have ne: "(i + Suc d) mod cap \<noteq> i" using Suc.prems by auto
    have mu: "mset (used (arr[i := ?new])) + {#m_regPair ?e#} = mset (used arr) + {#p#}"
      using mset_used_update[of i arr ?new] Suc.prems True by simp
    have "\<exists>arr'. rh_loop cap (arr[i := ?new]) ?n ps (m_regPair ?e) = Some (Done arr') \<and> length arr' = cap
      \<and> mset (used arr') = add_mset (m_regPair ?e) (mset (used (arr[i := ?new])))" for ps
      using Suc.prems n f ne by (intro Suc.IH) (auto simp: nth_list_update)
    moreover have "\<exists>arr'. rh_loop cap arr ?n ps p = Some (Done arr') \<and> length arr' = cap
      \<and> mset (used arr') = add_mset p (mset (used arr))" for ps
      using Suc.prems n f by (intro Suc.IH) auto
    ultimately show ?thesis
      using Suc.prems True mu by (subst rh_loop.simps) (auto simp: Let_def)
  qed
qed

lemma rh_loop_ok:
  assumes "length arr = cap" "cap \<le> UINT32_MAX" "i < cap" "length (used arr) < cap"
  shows "\<exists>arr'. rh_loop cap arr i psa p = Some (Done arr') \<and> length arr' = cap
    \<and> mset (used arr') = add_mset p (mset (used arr))"
proof -
  obtain f where f: "f < cap" "\<not> m_isUsed (arr ! f)" using free_slot_exists[of arr] assms by auto
  have "(i + (cap + f - i)) mod cap = f" using f(1) assms(3) by simp
  then show ?thesis using rh_loop_inserts[OF assms(1-3), of "cap + f - i"] f(2) by simp
qed

text \<open>Without a free slot the loop does not end.\<close>

definition all_used :: "nat \<Rightarrow> 'v ext_pair list \<Rightarrow> nat \<Rightarrow> bool" where
  "all_used cap arr i \<longleftrightarrow> length arr = cap \<and> cap \<le> UINT32_MAX \<and> i < cap \<and> list_all m_isUsed arr"

lemma all_used_step:
  assumes "all_used cap arr i"
  shows "i < length arr" "m_isUsed (arr ! i)" "all_used cap arr (next_slot cap i)"
    "all_used cap (arr[i := \<lparr>m_regPair = p, m_isUsed = True, m_offset = psa\<rparr>]) (next_slot cap i)"
  using assms by (auto simp: all_used_def list_all_length nth_list_update next_slot_def sub32_ge)

lemma rh_loop_full:
  assumes "all_used cap arr i"
  shows "rh_loop cap arr i psa p = None"
proof (rule ccontr)
  assume "rh_loop cap arr i psa p \<noteq> None"
  then obtain y where y: "rh_loop cap arr i psa p = Some y" by blast
  have "\<not> all_used cap arr i"
  proof (rule rh_loop.raw_induct[where P = "\<lambda>cap arr i psa p y. \<not> all_used cap arr i", OF _ y], rule notI)
    fix rh :: "nat \<Rightarrow> 'a ext_pair list \<Rightarrow> nat \<Rightarrow> nat \<Rightarrow> 'a NkHashtablePair \<Rightarrow> 'a ext_pair list outcome option"
    fix cap arr i psa p y
    assume IH: "\<And>cap arr i psa p y. rh cap arr i psa p = Some y \<Longrightarrow> \<not> all_used cap arr i"
      and eq: "(if length arr \<le> i then Some Undef else let e = arr ! i in
         if \<not> m_isUsed e then Some (Done (arr[i := \<lparr>m_regPair = p, m_isUsed = True, m_offset = psa\<rparr>]))
         else if psa \<le> m_offset e then rh cap arr (next_slot cap i) (wrap32 (psa + 1)) p
         else rh cap (arr[i := \<lparr>m_regPair = p, m_isUsed = True, m_offset = psa\<rparr>]) (next_slot cap i)
                (wrap32 (m_offset e + 1)) (m_regPair e)) = Some y"
      and a: "all_used cap arr i"
    show False using eq all_used_step(1-3)[OF a] all_used_step(4)[OF a, of p psa] by (auto simp: Let_def split: if_splits dest!: IH)
  qed
  then show False using assms by blast
qed

subsection \<open>Search\<close>

definition slot_hit :: "'v NkHashtable \<Rightarrow> NkHashtableKey \<Rightarrow> nat \<Rightarrow> bool" where
  "slot_hit ht key i \<longleftrightarrow> m_isUsed (ht_elemArray ht ! i)
     \<and> key_id (m_keyVal (m_regPair (ht_elemArray ht ! i))) = key_id key"

lemma ht_wf_slot_valid:
  assumes "ht_wf ht" "i < ht_currCap ht" "m_isUsed (ht_elemArray ht ! i)"
  shows "key_valid (ht_keyType (ht_htProps ht)) (m_keyVal (m_regPair (ht_elemArray ht ! i)))"
  using assms used_mem[of "m_regPair (ht_elemArray ht ! i)" "ht_elemArray ht"]
  by (auto simp: ht_wf_def ht_pairs_def list_all_iff)

lemma loc_loop_spec:
  assumes "ht_wf ht" "key_valid (ht_keyType (ht_htProps ht)) key" "i < ht_currCap ht"
  shows "loc_loop ht key i j = Done (List.find (slot_hit ht key) (map (\<lambda>t. (i + t) mod ht_currCap ht) [0..<j]))"
  using assms(3)
proof (induction j arbitrary: i)
  case (Suc j)
  let ?cap = "ht_currCap ht" and ?n = "next_slot (ht_currCap ht) i"
  have cap: "?cap = length (ht_elemArray ht)" "?cap \<le> UINT32_MAX" using assms(1) by (simp_all add: ht_wf_def)
  have n: "?n < ?cap" using Suc.prems cap by (auto simp: next_slot_def sub32_ge)
  have "map (\<lambda>t. (i + t) mod ?cap) [0..<Suc j] = i # map (\<lambda>t. (?n + t) mod ?cap) [0..<j]"
    using Suc.prems cap by (simp add: upt_conv_Cons map_Suc_upt[symmetric] next_slot_add del: upt_Suc)
  then show ?case
    using Suc.IH[OF n] Suc.prems cap ht_wf_slot_valid[OF assms(1) Suc.prems] assms(2)
    by (auto simp: CompareKeys_id slot_hit_def simp del: upt_Suc)
qed simp

lemma ht_wf_cap: "ht_wf ht \<Longrightarrow> 0 < ht_currCap ht \<and> ht_currCap ht = length (ht_elemArray ht) \<and> ht_currCap ht \<le> UINT32_MAX"
  by (auto simp: ht_wf_def)

lemma ht_map_iff:
  assumes "ht_wf ht"
  shows "ht_map ht k = Some v \<longleftrightarrow> (\<exists>p \<in> set (ht_pairs ht). key_id (m_keyVal p) = k \<and> mp_valuePtr p = v)"
  using assms map_of_eq_Some_iff[of "map pair_kv (ht_pairs ht)" k v]
  by (auto simp: ht_map_def ht_wf_def pair_kv_def)

lemma slot_hit_map:
  assumes "ht_wf ht" "i < ht_currCap ht" "slot_hit ht key i"
  shows "ht_map ht (key_id key) = Some (mp_valuePtr (m_regPair (ht_elemArray ht ! i)))"
  using assms used_mem[of "m_regPair (ht_elemArray ht ! i)" "ht_elemArray ht"]
  by (auto simp: ht_map_iff slot_hit_def ht_pairs_def ht_wf_cap)

lemma no_hit_map:
  assumes "ht_wf ht" "\<And>i. i < ht_currCap ht \<Longrightarrow> \<not> slot_hit ht key i"
  shows "ht_map ht (key_id key) = None"
proof (rule ccontr)
  assume "ht_map ht (key_id key) \<noteq> None"
  then obtain v where "ht_map ht (key_id key) = Some v" by blast
  then obtain p where "p \<in> set (ht_pairs ht)" "key_id (m_keyVal p) = key_id key"
    using assms(1) by (auto simp: ht_map_iff)
  then show False using assms ht_wf_cap[OF assms(1)] by (auto simp: ht_pairs_def used_mem slot_hit_def)
qed

text \<open>Whatever the hash, the search finds the slot of a key that is present, and only then.\<close>

lemma HashtableLocKey_spec:
  assumes "ht_wf ht" "key_valid (ht_keyType (ht_htProps ht)) key" "length behind = 8"
  shows "\<exists>w. HashtableLocKey cx ht behind key = Done w \<and>
    (case w of None \<Rightarrow> ht_map ht (key_id key) = None
     | Some i \<Rightarrow> i < ht_currCap ht \<and> slot_hit ht key i)"
proof -
  let ?cap = "ht_currCap ht"
  have cap: "0 < ?cap" using ht_wf_cap[OF assms(1)] by blast
  obtain h where h: "HashtableHash (m_hashSeed cx) behind key (ht_keyType (ht_htProps ht)) ?cap = Done h" "h < ?cap"
    using HashtableHash_Done[OF assms(2) cap assms(3)] by blast
  let ?order = "map (\<lambda>t. (h + t) mod ?cap) [0..<?cap]"
  have mem: "i \<in> set ?order" if "i < ?cap" for i
  proof -
    have "(h + (?cap + i - h) mod ?cap) mod ?cap = i" using that h(2) by (simp add: mod_simps)
    then show ?thesis using cap by (auto simp: image_iff intro!: bexI[of _ "(?cap + i - h) mod ?cap"])
  qed
  have loc: "HashtableLocKey cx ht behind key = Done (List.find (slot_hit ht key) ?order)"
    using h loc_loop_spec[OF assms(1,2) h(2)] by (simp add: HashtableLocKey_def)
  show ?thesis
  proof (cases "List.find (slot_hit ht key) ?order")
    case None
    then have "\<not> slot_hit ht key i" if "i < ?cap" for i using mem[OF that] unfolding find_None_iff by blast
    then show ?thesis using loc None no_hit_map[OF assms(1)] by simp
  next
    case (Some i)
    then have "i \<in> set ?order" "slot_hit ht key i" by (auto simp: find_Some_iff)
    then show ?thesis using loc Some cap by auto
  qed
qed

lemma HashtableLocKey_cases:
  assumes "ht_wf ht" "key_valid (ht_keyType (ht_htProps ht)) key" "length behind = 8"
  obtains "HashtableLocKey cx ht behind key = Done None" "ht_map ht (key_id key) = None"
  | i where "HashtableLocKey cx ht behind key = Done (Some i)" "i < ht_currCap ht" "slot_hit ht key i"
      "ht_map ht (key_id key) = Some (mp_valuePtr (m_regPair (ht_elemArray ht ! i)))"
proof -
  obtain w where w: "HashtableLocKey cx ht behind key = Done w"
    "case w of None \<Rightarrow> ht_map ht (key_id key) = None | Some i \<Rightarrow> i < ht_currCap ht \<and> slot_hit ht key i"
    using HashtableLocKey_spec[OF assms] by blast
  show thesis
  proof (cases w)
    case None
    then show ?thesis using w that(1) by simp
  next
    case (Some i)
    then show ?thesis using w that(2) slot_hit_map[OF assms(1), of i key] by simp
  qed
qed

lemma NkHashtableAt_spec:
  assumes "ht_wf ht" "key_valid (ht_keyType (ht_htProps ht)) key" "length behind = 8"
  shows "NkHashtableAt cx ht behind key
    = Done (case ht_map ht (key_id key) of None \<Rightarrow> (NkErr_ItemNotFound, None) | Some v \<Rightarrow> (NkErr_Ok, v))"
  by (rule HashtableLocKey_cases[OF assms, of cx]) (simp_all add: NkHashtableAt_def)

lemma NkHashtableContains_spec:
  assumes "ht_wf ht" "key_valid (ht_keyType (ht_htProps ht)) key" "length behind = 8"
  shows "NkHashtableContains cx ht behind key = Done (key_id key \<in> dom (ht_map ht))"
  by (rule HashtableLocKey_cases[OF assms, of cx]) (auto simp: NkHashtableContains_def)

subsection \<open>Rebuilding\<close>

text \<open>A table under construction: everything of the invariant but the element count.\<close>

definition ht_slots_ok :: "'v NkHashtable \<Rightarrow> bool" where
  "ht_slots_ok ht \<longleftrightarrow> ht_wf (ht\<lparr>ht_elemCount := length (ht_pairs ht)\<rparr>)"

lemma ht_pairs_count [simp]: "ht_pairs (ht\<lparr>ht_elemCount := n\<rparr>) = ht_pairs ht"
  "ht_map (ht\<lparr>ht_elemCount := n\<rparr>) = ht_map ht"
  by (simp_all add: ht_pairs_def ht_map_def)

lemma ht_wf_slots: "ht_wf ht \<longleftrightarrow> ht_slots_ok ht \<and> ht_elemCount ht = length (ht_pairs ht)"
  by (auto simp: ht_slots_ok_def ht_wf_def)

lemma ht_slots_ok_count [simp]: "ht_slots_ok (ht\<lparr>ht_elemCount := n\<rparr>) = ht_slots_ok ht"
  by (simp add: ht_slots_ok_def ht_wf_def ht_pairs_def)

lemma ht_slots_okI:
  assumes "ht_slots_ok ht" "length arr = ht_currCap ht" "mset (used arr) = mset ps"
    "distinct (map fst (map pair_kv ps))" "list_all (\<lambda>p. key_valid (ht_keyType (ht_htProps ht)) (m_keyVal p)) ps"
  shows "ht_slots_ok (ht\<lparr>ht_elemArray := arr\<rparr>) \<and> mset (ht_pairs (ht\<lparr>ht_elemArray := arr\<rparr>)) = mset ps
    \<and> ht_map (ht\<lparr>ht_elemArray := arr\<rparr>) = map_of (map pair_kv ps)"
proof -
  have m: "mset (map fst (map pair_kv (used arr))) = mset (map fst (map pair_kv ps))"
    using assms(3) by simp
  then have d: "distinct (map fst (map pair_kv (used arr)))"
    using assms(4) by (metis mset_eq_imp_distinct_iff)
  have s: "set (used arr) = set ps" using assms(3) by (rule mset_eq_setD)
  have "map_of (map pair_kv (used arr)) = map_of (map pair_kv ps)"
    using d assms(4) s by (intro map_of_inject_set[THEN iffD2]) auto
  then show ?thesis
    using assms d s by (auto simp: ht_slots_ok_def ht_wf_def ht_map_def ht_pairs_def list_all_iff)
qed

lemma RobinHoodInsertSingle_spec:
  assumes "ht_slots_ok ht" "cx_ok cx" "key_valid (ht_keyType (ht_htProps ht)) (m_keyVal p)"
    "length (ht_pairs ht) < ht_currCap ht" "key_id (m_keyVal p) \<notin> dom (ht_map ht)"
  shows "\<exists>ht'. HashtableRobinHoodInsertSingle cx ht p = Done (True, ht') \<and> ht_slots_ok ht'
    \<and> mset (ht_pairs ht') = add_mset p (mset (ht_pairs ht)) \<and> ht_map ht' = (ht_map ht)(key_id (m_keyVal p) \<mapsto> mp_valuePtr p)
    \<and> ht_elemCount ht' = ht_elemCount ht \<and> ht_currCap ht' = ht_currCap ht \<and> ht_htProps ht' = ht_htProps ht"
proof -
  let ?cap = "ht_currCap ht"
  have cap: "?cap = length (ht_elemArray ht)" "?cap \<le> UINT32_MAX" "0 < ?cap"
    using assms(1) by (auto simp: ht_slots_ok_def ht_wf_def)
  obtain h where h: "HashtableHash (m_hashSeed cx) (ptr_bytes cx (mp_valuePtr p)) (m_keyVal p)
      (ht_keyType (ht_htProps ht)) ?cap = Done h" "h < ?cap"
    using HashtableHash_Done[OF assms(3) cap(3), of "ptr_bytes cx (mp_valuePtr p)"] assms(2)
    by (auto simp: cx_ok_def)
  obtain arr where arr: "rh_loop ?cap (ht_elemArray ht) h 0 p = Some (Done arr)" "length arr = ?cap"
    "mset (used arr) = mset (p # ht_pairs ht)"
    using rh_loop_ok[of "ht_elemArray ht" ?cap h 0 p] cap h(2) assms(4) by (auto simp: ht_pairs_def)
  have dist: "distinct (map fst (map pair_kv (p # ht_pairs ht)))"
    using assms(1,5) by (auto simp: ht_slots_ok_def ht_wf_def ht_map_def pair_kv_def dom_map_of_conv_image_fst image_iff)
  have val: "list_all (\<lambda>p. key_valid (ht_keyType (ht_htProps ht)) (m_keyVal p)) (p # ht_pairs ht)"
    using assms(1,3) by (simp add: ht_slots_ok_def ht_wf_def)
  note r = ht_slots_okI[OF assms(1) arr(2,3) dist val]
  have m: "map_of (map pair_kv (p # ht_pairs ht)) = (ht_map ht)(key_id (m_keyVal p) \<mapsto> mp_valuePtr p)"
    by (simp add: ht_map_def pair_kv_def)
  show ?thesis
    using r m h arr cap(3) by (auto simp: HashtableRobinHoodInsertSingle_def)
qed

lemma used_keys_disjoint:
  assumes "m_isUsed e" "dom (map_of (map pair_kv (used (e # es)))) \<inter> dom m = {}"
    "key_id (m_keyVal (m_regPair e)) \<notin> dom (map_of (map pair_kv (used es)))"
    "m' = m(key_id (m_keyVal (m_regPair e)) \<mapsto> v)"
  shows "dom (map_of (map pair_kv (used es))) \<inter> dom m' = {}"
proof -
  have "dom (map_of (map pair_kv (used (e # es))))
      = insert (key_id (m_keyVal (m_regPair e))) (dom (map_of (map pair_kv (used es))))"
    using assms(1) by (simp add: pair_kv_def)
  then show ?thesis using assms(2-4) by auto
qed

text \<open>Transferring the used slots of a list into a table with room for all of them.\<close>

lemma transfer_loop_spec:
  assumes "ht_slots_ok t" "cx_ok cx" "length (used es) \<le> n" "length (ht_pairs t) + length (used es) \<le> ht_currCap t"
    "list_all (\<lambda>p. key_valid (ht_keyType (ht_htProps t)) (m_keyVal p)) (used es)"
    "distinct (map fst (map pair_kv (used es)))" "dom (map_of (map pair_kv (used es))) \<inter> dom (ht_map t) = {}"
  shows "\<exists>t'. transfer_loop cx es n t = Done (True, t') \<and> ht_slots_ok t'
    \<and> mset (ht_pairs t') = mset (ht_pairs t) + mset (used es) \<and> ht_map t' = ht_map t ++ map_of (map pair_kv (used es))
    \<and> ht_elemCount t' = ht_elemCount t \<and> ht_currCap t' = ht_currCap t \<and> ht_htProps t' = ht_htProps t"
  using assms
proof (induction cx es n t rule: transfer_loop.induct)
  case (2 cx e es t)
  then show ?case by auto
next
  case (3 cx e es n t)
  show ?case
  proof (cases "m_isUsed e")
    case False
    then show ?thesis using 3 by simp
  next
    case True
    let ?p = "m_regPair e"
    have new: "key_id (m_keyVal ?p) \<notin> dom (ht_map t)" "key_id (m_keyVal ?p) \<notin> dom (map_of (map pair_kv (used es)))"
      using 3(9,8) True by (auto simp: pair_kv_def dom_map_of_conv_image_fst image_iff)
    obtain t1 where t1: "HashtableRobinHoodInsertSingle cx t ?p = Done (True, t1)" "ht_slots_ok t1"
      "mset (ht_pairs t1) = add_mset ?p (mset (ht_pairs t))"
      "ht_map t1 = (ht_map t)(key_id (m_keyVal ?p) \<mapsto> mp_valuePtr ?p)"
      "ht_elemCount t1 = ht_elemCount t" "ht_currCap t1 = ht_currCap t" "ht_htProps t1 = ht_htProps t"
      using RobinHoodInsertSingle_spec[OF 3(3,4), of ?p] 3(6,7) True new(1) by auto
    have len: "length (ht_pairs t1) = Suc (length (ht_pairs t))" using t1(3) by (metis size_add_mset size_mset)
    note disj = used_keys_disjoint[OF True 3(9) new(2) t1(4)]
    have "\<exists>t'. transfer_loop cx es n t1 = Done (True, t') \<and> ht_slots_ok t'
      \<and> mset (ht_pairs t') = mset (ht_pairs t1) + mset (used es) \<and> ht_map t' = ht_map t1 ++ map_of (map pair_kv (used es))
      \<and> ht_elemCount t' = ht_elemCount t1 \<and> ht_currCap t' = ht_currCap t1 \<and> ht_htProps t' = ht_htProps t1"
      using 3(3-8) True t1(1-3,5-7) len by (intro 3(1) disj) auto
    then obtain t' where t': "transfer_loop cx es n t1 = Done (True, t')" "ht_slots_ok t'"
      "mset (ht_pairs t') = mset (ht_pairs t1) + mset (used es)" "ht_map t' = ht_map t1 ++ map_of (map pair_kv (used es))"
      "ht_elemCount t' = ht_elemCount t1" "ht_currCap t' = ht_currCap t1" "ht_htProps t' = ht_htProps t1" by blast
    have m: "ht_map t' = ht_map t ++ map_of (map pair_kv (used (e # es)))"
      unfolding t'(4) t1(4) using True new(2)
      by (auto simp: pair_kv_def fun_eq_iff map_add_def dom_def split: option.splits)
    show ?thesis
      using t' t1 True by (intro exI[of _ t'] conjI m) simp_all
  qed
qed auto

lemma ht_empty_slots_ok:
  assumes "0 < cap" "cap \<le> UINT32_MAX"
  shows "ht_slots_ok \<lparr>ht_elemCount = n, ht_currCap = cap, ht_htProps = props, ht_elemArray = replicate cap zero_slot\<rparr>"
    "ht_pairs \<lparr>ht_elemCount = n, ht_currCap = cap, ht_htProps = props, ht_elemArray = replicate cap zero_slot\<rparr> = []"
    "ht_map \<lparr>ht_elemCount = n, ht_currCap = cap, ht_htProps = props, ht_elemArray = replicate cap zero_slot\<rparr> = Map.empty"
  using assms by (simp_all add: ht_slots_ok_def ht_wf_def ht_pairs_def ht_map_def)

lemma AdjustCapacity_spec:
  assumes "ht_wf ht" "cx_ok cx" "heap (sizeof_ext_pair * newCap)" "ht_elemCount ht \<le> newCap" "0 < newCap" "newCap \<le> UINT32_MAX"
  shows "\<exists>ht'. HashtableAdjustCapacity cx heap ht newCap = Done (NkErr_Ok, ht') \<and> ht_wf ht'
    \<and> ht_map ht' = ht_map ht \<and> mset (ht_pairs ht') = mset (ht_pairs ht)
    \<and> ht_currCap ht' = newCap \<and> ht_htProps ht' = ht_htProps ht \<and> ht_elemCount ht' = ht_elemCount ht"
proof -
  define t :: "'a NkHashtable" where "t = \<lparr>ht_elemCount = ht_elemCount ht, ht_currCap = newCap,
     ht_htProps = ht_htProps ht, ht_elemArray = replicate newCap zero_slot\<rparr>"
  have t: "ht_slots_ok t" "ht_pairs t = []" "ht_map t = Map.empty" "ht_currCap t = newCap"
    "ht_htProps t = ht_htProps ht" "ht_elemCount t = ht_elemCount ht"
    using ht_empty_slots_ok[OF assms(5,6)] by (simp_all add: t_def)
  have w: "take (ht_currCap ht) (ht_elemArray ht) = ht_elemArray ht" "used (ht_elemArray ht) = ht_pairs ht"
    "ht_elemCount ht = length (ht_pairs ht)" "distinct (map fst (map pair_kv (ht_pairs ht)))"
    "list_all (\<lambda>p. key_valid (ht_keyType (ht_htProps ht)) (m_keyVal p)) (ht_pairs ht)"
    using assms(1) by (auto simp: ht_wf_def ht_pairs_def)
  obtain t' where t': "transfer_loop cx (ht_elemArray ht) (ht_elemCount ht) t = Done (True, t')" "ht_slots_ok t'"
    "mset (ht_pairs t') = mset (ht_pairs ht)" "ht_map t' = ht_map ht"
    "ht_elemCount t' = ht_elemCount ht" "ht_currCap t' = newCap" "ht_htProps t' = ht_htProps ht"
    using transfer_loop_spec[OF t(1) assms(2), of "ht_elemArray ht" "ht_elemCount ht"] t w assms(4)
    by (auto simp: ht_map_def)
  have len: "length (ht_pairs t') = length (ht_pairs ht)" using t'(3) by (metis size_mset)
  have "HashtableAdjustCapacity cx heap ht newCap = Done (NkErr_Ok, t')"
    using t'(1) w(1) assms(3,5) by (simp add: HashtableAdjustCapacity_def NkGPAlloc_def sizeof_ext_pair_def t_def)
  then show ?thesis using t' len w(3) by (auto simp: ht_wf_slots)
qed

lemma AdjustCapacity_refused:
  assumes "\<not> heap (sizeof_ext_pair * newCap)" "0 < newCap"
  shows "HashtableAdjustCapacity cx heap ht newCap = Done (NkErr_MemoryAllocation, ht)"
  using assms by (simp add: HashtableAdjustCapacity_def NkGPAlloc_def sizeof_ext_pair_def)

subsection \<open>Load factor\<close>

lemma f32_round_coarse:
  assumes "0 \<le> x"
  shows "15 / 16 * x \<le> f32_round x" "f32_round x \<le> 17 / 16 * x"
  using f32_round_bounds[OF assms] assms by simp_all

lemma ht_over_load_room:
  assumes "\<not> ht_over_load n cap" "0 < cap"
  shows "n < cap"
proof (rule ccontr)
  assume "\<not> n < cap"
  then have le: "(of_nat cap :: rat) \<le> of_nat n" by simp
  let ?n = "f32_round (of_nat n)" and ?c = "f32_round (of_nat cap)"
  have c0: "(0::rat) < of_nat cap" using assms(2) by simp
  have n: "15 / 16 * of_nat n \<le> ?n" and c: "?c \<le> 17 / 16 * of_nat cap" and c1: "15 / 16 * of_nat cap \<le> ?c"
    by (rule f32_round_coarse, simp)+
  have cpos: "0 < ?c" using c1 c0 by linarith
  have "7 / 8 * ?c \<le> ?n" using n c le c0 by linarith
  then have q: "7 / 8 \<le> ?n / ?c" using cpos by (simp add: pos_le_divide_eq)
  then have "3 / 4 \<le> f32_round (?n / ?c)"
    using f32_round_coarse(1)[of "?n / ?c"] by linarith
  then show False using assms(1) by (simp add: ht_over_load_def)
qed

lemma gl_TarLoadFactor_eq: "gl_TarLoadFactor = 11744051 / 33554432"
  unfolding gl_TarLoadFactor_def by code_simp

lemma ht_new_cap_room:
  assumes "0 < n" "n \<le> 2 ^ 30" "n \<le> ht_maxCap props"
  shows "\<exists>c. ht_new_cap props n = Done c \<and> n \<le> c \<and> c \<le> max (ht_maxCap props) (ht_minCap props)"
proof -
  let ?n = "of_nat n :: rat"
  define q where "q = f32_round ?n / gl_TarLoadFactor"
  have b: "15 / 16 * ?n \<le> f32_round ?n" "f32_round ?n \<le> 17 / 16 * ?n"
    by (rule f32_round_coarse, simp)+
  have np: "0 < ?n" "?n \<le> 2 ^ 30" using assms(1,2) by (simp, metis of_nat_le_iff of_nat_numeral of_nat_power)
  have q: "2 * ?n \<le> q" "q \<le> 31 / 10 * ?n"
    using b np by (simp_all add: q_def gl_TarLoadFactor_eq)
  have qb: "?n \<le> f32_round q" "f32_round q \<le> 17 / 5 * ?n"
    using f32_round_coarse[of q] q np by linarith+
  then have "f32_round q < 2 ^ 32" using np by simp
  then have "f32_to_uint 32 (f32_round q) = Done (nat \<lfloor>f32_round q\<rfloor>)" using qb np by (simp add: f32_to_uint_def)
  moreover have "n \<le> nat \<lfloor>f32_round q\<rfloor>" using qb(1) by (metis le_floor_iff nat_int nat_mono of_int_of_nat_eq)
  ultimately show ?thesis
    using assms(3) by (auto simp: ht_new_cap_def q_def[symmetric])
qed

subsection \<open>Inserting several pairs\<close>

lemma loc_loop_count [simp]: "loc_loop (ht\<lparr>ht_elemCount := n\<rparr>) key i j = loc_loop ht key i j"
  by (induction j arbitrary: i) (simp_all cong: if_cong)

lemma Contains_slots_ok:
  assumes "ht_slots_ok ht" "key_valid (ht_keyType (ht_htProps ht)) key" "length behind = 8"
  shows "NkHashtableContains cx ht behind key = Done (key_id key \<in> dom (ht_map ht))"
  using NkHashtableContains_spec[of "ht\<lparr>ht_elemCount := length (ht_pairs ht)\<rparr>" key behind cx] assms
  by (simp add: ht_slots_ok_def NkHashtableContains_def HashtableLocKey_def)

lemma insert_loop_spec:
  assumes "ht_slots_ok t" "cx_ok cx" "length (ht_pairs t) + length ps \<le> ht_currCap t"
    "list_all (\<lambda>p. key_valid (ht_keyType (ht_htProps t)) (m_keyVal p)) ps"
  shows "\<exists>k t'. insert_loop cx ps a t = Done (a + k, t') \<and> ht_slots_ok t'
    \<and> length (ht_pairs t') = length (ht_pairs t) + k \<and> k \<le> length ps
    \<and> ht_map t' = map_of (map pair_kv ps) ++ ht_map t
    \<and> ht_elemCount t' = ht_elemCount t \<and> ht_currCap t' = ht_currCap t \<and> ht_htProps t' = ht_htProps t"
  using assms
proof (induction ps arbitrary: a t)
  case (Cons p ps)
  have c: "NkHashtableContains cx t (ptr_bytes cx (mp_valuePtr p)) (m_keyVal p)
      = Done (key_id (m_keyVal p) \<in> dom (ht_map t))"
    using Cons.prems by (intro Contains_slots_ok) (auto simp: cx_ok_def)
  show ?case
  proof (cases "key_id (m_keyVal p) \<in> dom (ht_map t)")
    case True
    obtain k t' where t': "insert_loop cx ps a t = Done (a + k, t')" "ht_slots_ok t'"
      "length (ht_pairs t') = length (ht_pairs t) + k" "k \<le> length ps" "ht_map t' = map_of (map pair_kv ps) ++ ht_map t"
      "ht_elemCount t' = ht_elemCount t" "ht_currCap t' = ht_currCap t" "ht_htProps t' = ht_htProps t"
      using Cons.IH[of t a] Cons.prems by auto
    have m: "ht_map t' = map_of (map pair_kv (p # ps)) ++ ht_map t"
      unfolding t'(5) using True by (auto simp: pair_kv_def fun_eq_iff map_add_def split: option.splits)
    show ?thesis using c True t' by (intro exI[of _ k] exI[of _ t'] conjI m) simp_all
  next
    case False
    obtain t1 where t1: "HashtableRobinHoodInsertSingle cx t p = Done (True, t1)" "ht_slots_ok t1"
      "mset (ht_pairs t1) = add_mset p (mset (ht_pairs t))"
      "ht_map t1 = (ht_map t)(key_id (m_keyVal p) \<mapsto> mp_valuePtr p)"
      "ht_elemCount t1 = ht_elemCount t" "ht_currCap t1 = ht_currCap t" "ht_htProps t1 = ht_htProps t"
      using RobinHoodInsertSingle_spec[of t cx p] Cons.prems False by auto
    have len: "length (ht_pairs t1) = Suc (length (ht_pairs t))" using t1(3) by (metis size_add_mset size_mset)
    obtain k t' where t': "insert_loop cx ps (Suc a) t1 = Done (Suc a + k, t')" "ht_slots_ok t'"
      "length (ht_pairs t') = length (ht_pairs t1) + k" "k \<le> length ps" "ht_map t' = map_of (map pair_kv ps) ++ ht_map t1"
      "ht_elemCount t' = ht_elemCount t1" "ht_currCap t' = ht_currCap t1" "ht_htProps t' = ht_htProps t1"
      using Cons.IH[of t1 "Suc a"] Cons.prems t1(2,6,7) len by auto
    have m: "ht_map t' = map_of (map pair_kv (p # ps)) ++ ht_map t"
      unfolding t'(5) t1(4) using False
      by (auto simp: pair_kv_def fun_eq_iff map_add_def dom_def split: option.splits)
    show ?thesis
      using c False t1 t' len by (intro exI[of _ "Suc k"] exI[of _ t'] conjI m) simp_all
  qed
qed auto

text \<open>What an insertion needs from the allocator: nothing, or the new element array.\<close>

definition ht_room :: "heap_answer \<Rightarrow> 'v NkHashtable \<Rightarrow> nat \<Rightarrow> bool" where
  "ht_room heap ht n \<longleftrightarrow> n \<le> ht_maxCap (ht_htProps ht) \<and> n \<le> 2 ^ 30
     \<and> (ht_over_load n (ht_currCap ht) \<longrightarrow>
         (case ht_new_cap (ht_htProps ht) n of Done c \<Rightarrow> heap (sizeof_ext_pair * c) | _ \<Rightarrow> False))"

definition ht_limits :: "'v NkHashtable \<Rightarrow> bool" where
  "ht_limits ht \<longleftrightarrow> ht_minCap (ht_htProps ht) \<le> UINT32_MAX \<and> ht_maxCap (ht_htProps ht) \<le> UINT32_MAX"

lemma InsertMulti_spec:
  assumes "ht_wf ht" "cx_ok cx" "ht_limits ht" "ht_room heap ht (ht_elemCount ht + length ps)"
    "list_all (\<lambda>p. key_valid (ht_keyType (ht_htProps ht)) (m_keyVal p)) ps"
  shows "\<exists>ht'. NkHashtableInsertMulti cx heap ht ps = Done (NkErr_Ok, ht') \<and> ht_wf ht'
    \<and> ht_map ht' = map_of (map pair_kv ps) ++ ht_map ht \<and> ht_htProps ht' = ht_htProps ht
    \<and> ht_elemCount ht' \<le> ht_elemCount ht + length ps"
proof -
  let ?n = "ht_elemCount ht + length ps"
  have n: "?n \<le> ht_maxCap (ht_htProps ht)" "?n \<le> 2 ^ 30" using assms(4) by (simp_all add: ht_room_def)
  have chk: "NkCheckedUint32Add (ht_elemCount ht) (length ps) = (True, ?n)"
    using n(2) by (simp add: NkCheckedUint32Add_def sub32_ge wrap32_small)
  define grow where "grow = (if ht_over_load ?n (ht_currCap ht)
       then obind (ht_new_cap (ht_htProps ht) ?n) (\<lambda>c. HashtableAdjustCapacity cx heap ht c)
       else Done (NkErr_Ok, ht))"
  have "\<exists>t. grow = Done (NkErr_Ok, t) \<and> ht_wf t \<and> ht_map t = ht_map ht \<and> ?n \<le> ht_currCap t
      \<and> ht_htProps t = ht_htProps ht \<and> ht_elemCount t = ht_elemCount ht"
  proof (cases "ht_over_load ?n (ht_currCap ht)")
    case True
    then have n0: "0 < ?n" by (cases "?n = 0") (auto simp: ht_over_load_def f32_round_def)
    then obtain c where c: "ht_new_cap (ht_htProps ht) ?n = Done c" "?n \<le> c"
        "c \<le> max (ht_maxCap (ht_htProps ht)) (ht_minCap (ht_htProps ht))"
      using ht_new_cap_room[OF n0 n(2,1)] by blast
    have "0 < c" using c(2) n0 by linarith
    moreover have "heap (sizeof_ext_pair * c)" "c \<le> UINT32_MAX"
      using assms(3,4) True c by (auto simp: ht_room_def ht_limits_def)
    ultimately show ?thesis
      using AdjustCapacity_spec[OF assms(1,2), of heap c] c True by (auto simp: grow_def)
  next
    case False
    then show ?thesis
      using assms(1) ht_over_load_room[OF False] ht_wf_cap[OF assms(1)] by (auto simp: grow_def)
  qed
  then obtain t where t: "grow = Done (NkErr_Ok, t)" "ht_wf t" "ht_map t = ht_map ht" "?n \<le> ht_currCap t"
    "ht_htProps t = ht_htProps ht" "ht_elemCount t = ht_elemCount ht" by blast
  obtain k t' where t': "insert_loop cx ps 0 t = Done (k, t')" "ht_slots_ok t'"
    "length (ht_pairs t') = length (ht_pairs t) + k" "k \<le> length ps" "ht_map t' = map_of (map pair_kv ps) ++ ht_map t"
    "ht_elemCount t' = ht_elemCount t" "ht_htProps t' = ht_htProps t"
    using insert_loop_spec[of t cx ps 0] t assms(2,5) by (auto simp: ht_wf_slots)
  have "NkHashtableInsertMulti cx heap ht ps = Done (NkErr_Ok, t'\<lparr>ht_elemCount := ht_elemCount ht + k\<rparr>)"
    using chk n t(1) t' t(6) by (simp add: NkHashtableInsertMulti_def grow_def[symmetric] wrap32_small)
  then show ?thesis using t t' by (auto simp: ht_wf_slots)
qed

subsection \<open>Removal\<close>

lemma pair_kv_sel [simp]: "fst (pair_kv p) = key_id (m_keyVal p)" "snd (pair_kv p) = mp_valuePtr p"
  by (simp_all add: pair_kv_def)

lemma map_of_remove1:
  assumes "distinct (map fst (map pair_kv ps))" "p \<in> set ps"
  shows "map_of (map pair_kv (remove1 p ps)) = (map_of (map pair_kv ps))(key_id (m_keyVal p) := None)"
  using assms
proof (induction ps)
  case (Cons q ps)
  show ?case
  proof (cases "q = p")
    case True
    then have "map_of (map pair_kv ps) (key_id (m_keyVal p)) = None"
      using Cons.prems by (auto simp: map_of_eq_None_iff)
    then show ?thesis using True by (auto simp: fun_eq_iff)
  next
    case False
    then have "p \<in> set ps" "key_id (m_keyVal q) \<noteq> key_id (m_keyVal p)"
      using Cons.prems False by (auto simp: image_iff)
    then show ?thesis using Cons False by (auto simp: fun_eq_iff)
  qed
qed simp

lemma clear_slot_spec:
  assumes "ht_wf ht" "i < ht_currCap ht" "slot_hit ht key i"
  defines "ht' \<equiv> ht\<lparr>ht_elemArray := (ht_elemArray ht)[i := (ht_elemArray ht ! i)\<lparr>m_isUsed := False\<rparr>],
                     ht_elemCount := sub32 (ht_elemCount ht) 1\<rparr>"
  shows "ht_wf ht'" "ht_map ht' = (ht_map ht)(key_id key := None)" "Suc (ht_elemCount ht') = ht_elemCount ht"
    "ht_htProps ht' = ht_htProps ht"
proof -
  let ?p = "m_regPair (ht_elemArray ht ! i)" and ?e = "(ht_elemArray ht ! i)\<lparr>m_isUsed := False\<rparr>"
  let ?arr = "(ht_elemArray ht)[i := ?e]" and ?ps = "remove1 ?p (ht_pairs ht)"
  have len: "i < length (ht_elemArray ht)" and u: "m_isUsed (ht_elemArray ht ! i)" "key_id (m_keyVal ?p) = key_id key"
    using assms ht_wf_cap[OF assms(1)] by (auto simp: slot_hit_def)
  have mem: "?p \<in> set (ht_pairs ht)" using len u by (auto simp: ht_pairs_def used_mem)
  have "add_mset ?p (mset (used ?arr)) = mset (ht_pairs ht)"
    using mset_used_update[OF len, of ?e] u by (simp add: ht_pairs_def)
  then have ms: "mset (used ?arr) = mset ?ps" by (metis add_mset_remove_trivial mset_remove1)
  have ok: "ht_slots_ok ht" "ht_elemCount ht = length (ht_pairs ht)" using assms(1) by (simp_all add: ht_wf_slots)
  have dist: "distinct (map fst (map pair_kv (ht_pairs ht)))" using assms(1) by (simp add: ht_wf_def)
  have dist': "distinct (map fst (map pair_kv ?ps))"
    using dist set_remove1_subset[of ?p "ht_pairs ht"]
    by (auto simp: distinct_map distinct_remove1 intro: inj_on_subset)
  have val: "list_all (\<lambda>p. key_valid (ht_keyType (ht_htProps ht)) (m_keyVal p)) ?ps"
    using assms(1) set_remove1_subset[of ?p "ht_pairs ht"] by (auto simp: ht_wf_def list_all_iff)
  have "length ?arr = ht_currCap ht" using ht_wf_cap[OF assms(1)] by auto
  note r = ht_slots_okI[OF ok(1) this ms dist' val]
  have pos: "0 < ht_elemCount ht" using ok(2) mem by (cases "ht_pairs ht") auto
  have bound: "ht_elemCount ht \<le> UINT32_MAX"
    using ok(2) ht_wf_cap[OF assms(1)] length_used_le[of "ht_elemArray ht"] by (auto simp: ht_pairs_def)
  have cnt: "sub32 (ht_elemCount ht) 1 = ht_elemCount ht - 1" using pos bound by (simp add: sub32_ge)
  have "length (ht_pairs (ht\<lparr>ht_elemArray := ?arr\<rparr>)) = ht_elemCount ht - 1"
    using r ok(2) mem by (metis length_remove1 size_mset)
  then show "ht_wf ht'" using r cnt by (simp add: ht_wf_slots ht'_def)
  show "ht_map ht' = (ht_map ht)(key_id key := None)"
    using r map_of_remove1[OF dist mem] u(2) by (simp add: ht'_def ht_map_def)
  show "Suc (ht_elemCount ht') = ht_elemCount ht" "ht_htProps ht' = ht_htProps ht"
    using pos cnt by (simp_all add: ht'_def)
qed

lemma NkHashtableErase_spec:
  assumes "ht_wf ht" "key_valid (ht_keyType (ht_htProps ht)) key" "length behind = 8"
  shows "\<exists>lg ht'. NkHashtableErase cx ht behind key
      = Done (if key_id key \<in> dom (ht_map ht) then NkErr_Ok else NkErr_ItemNotFound, lg, ht')
    \<and> ht_wf ht' \<and> ht_map ht' = (ht_map ht)(key_id key := None) \<and> ht_htProps ht' = ht_htProps ht
    \<and> ht_elemCount ht' = ht_elemCount ht - (if key_id key \<in> dom (ht_map ht) then 1 else 0)"
proof (rule HashtableLocKey_cases[OF assms, of cx])
  assume "HashtableLocKey cx ht behind key = Done None" "ht_map ht (key_id key) = None"
  then show ?thesis using assms(1) by (auto simp: NkHashtableErase_def)
next
  fix i assume i: "HashtableLocKey cx ht behind key = Done (Some i)" "i < ht_currCap ht" "slot_hit ht key i"
    "ht_map ht (key_id key) = Some (mp_valuePtr (m_regPair (ht_elemArray ht ! i)))"
  from clear_slot_spec[OF assms(1) i(2,3)] i(1,4) show ?thesis by (auto simp: NkHashtableErase_def Let_def)
qed

lemma NkHashtableErase_log:
  assumes "ht_wf ht" "key_valid (ht_keyType (ht_htProps ht)) key" "length behind = 8"
    "NkHashtableErase cx ht behind key = Done (ec, lg, ht')" "ht_fnElemFree (ht_htProps ht)"
  shows "map snd lg = (case ht_map ht (key_id key) of None \<Rightarrow> [] | Some v \<Rightarrow> [v])"
proof (rule HashtableLocKey_cases[OF assms(1-3), of cx])
  assume "HashtableLocKey cx ht behind key = Done None" "ht_map ht (key_id key) = None"
  then show ?thesis using assms(4) by (auto simp: NkHashtableErase_def)
next
  fix i assume "HashtableLocKey cx ht behind key = Done (Some i)" "i < ht_currCap ht" "slot_hit ht key i"
    "ht_map ht (key_id key) = Some (mp_valuePtr (m_regPair (ht_elemArray ht ! i)))"
  then show ?thesis using assms(4,5) by (auto simp: NkHashtableErase_def Let_def)
qed

subsection \<open>Destruction, clearing and iteration\<close>

lemma free_elems_loop_used:
  "length (used es) \<le> n \<Longrightarrow>
   free_elems_loop es n = map (\<lambda>p. (Some (m_keyVal p), mp_valuePtr p)) (used es)"
  by (induction es n rule: free_elems_loop.induct) auto

lemma HashtableFreeElems_spec:
  assumes "ht_wf ht"
  shows "HashtableFreeElems ht
    = (if ht_fnElemFree (ht_htProps ht) then map (\<lambda>p. (Some (m_keyVal p), mp_valuePtr p)) (ht_pairs ht) else [])"
  using assms by (simp add: HashtableFreeElems_def ht_wf_def ht_pairs_def free_elems_loop_used)

lemma transfer_loop_hangs:
  assumes "ht_slots_ok t" "cx_ok cx" "length (used es) \<le> n" "ht_currCap t < length (ht_pairs t) + length (used es)"
    "list_all (\<lambda>p. key_valid (ht_keyType (ht_htProps t)) (m_keyVal p)) (used es)"
    "distinct (map fst (map pair_kv (used es)))" "dom (map_of (map pair_kv (used es))) \<inter> dom (ht_map t) = {}"
  shows "transfer_loop cx es n t = Hang"
  using assms
proof (induction cx es n t rule: transfer_loop.induct)
  case (1 cx n t)
  then show ?case using length_used_le[of "ht_elemArray t"]
    by (auto simp: ht_slots_ok_def ht_wf_def ht_pairs_def)
next
  case (2 cx e es t)
  then show ?case using length_used_le[of "ht_elemArray t"]
    by (auto simp: ht_slots_ok_def ht_wf_def ht_pairs_def)
next
  case (3 cx e es n t)
  show ?case
  proof (cases "m_isUsed e")
    case False
    then show ?thesis using 3 by simp
  next
    case True
    let ?p = "m_regPair e"
    have cap: "0 < ht_currCap t" "ht_currCap t = length (ht_elemArray t)" "ht_currCap t \<le> UINT32_MAX"
      using 3(3) by (auto simp: ht_slots_ok_def ht_wf_def)
    have val: "key_valid (ht_keyType (ht_htProps t)) (m_keyVal ?p)" using 3(7) True by simp
    have new: "key_id (m_keyVal ?p) \<notin> dom (ht_map t)" "key_id (m_keyVal ?p) \<notin> dom (map_of (map pair_kv (used es)))"
      using 3(9,8) True by (auto simp: dom_map_of_conv_image_fst image_iff)
    show ?thesis
    proof (cases "length (ht_pairs t) < ht_currCap t")
      case room: True
      obtain t1 where t1: "HashtableRobinHoodInsertSingle cx t ?p = Done (True, t1)" "ht_slots_ok t1"
        "mset (ht_pairs t1) = add_mset ?p (mset (ht_pairs t))"
        "ht_map t1 = (ht_map t)(key_id (m_keyVal ?p) \<mapsto> mp_valuePtr ?p)"
        "ht_currCap t1 = ht_currCap t" "ht_htProps t1 = ht_htProps t"
        using RobinHoodInsertSingle_spec[OF 3(3,4) val room new(1)] by auto
      have len: "length (ht_pairs t1) = Suc (length (ht_pairs t))" using t1(3) by (metis size_add_mset size_mset)
      note disj = used_keys_disjoint[OF True 3(9) new(2) t1(4)]
      have "transfer_loop cx es n t1 = Hang"
        using 3(3-8) True t1(1-3,5,6) len by (intro 3(1) disj) auto
      then show ?thesis using True t1(1) by simp
    next
      case full: False
      then have "filter m_isUsed (ht_elemArray t) = ht_elemArray t"
        using cap by (metis ht_pairs_def used_def length_map length_filter_less filter_True linorder_neqE_nat
            length_used_le not_less)
      then have au: "all_used (ht_currCap t) (ht_elemArray t) h" if "h < ht_currCap t" for h
        using that cap by (auto simp: all_used_def list_all_iff filter_id_conv)
      obtain h where "HashtableHash (m_hashSeed cx) (ptr_bytes cx (mp_valuePtr ?p)) (m_keyVal ?p)
          (ht_keyType (ht_htProps t)) (ht_currCap t) = Done h" "h < ht_currCap t"
        using HashtableHash_Done[OF val cap(1), of "ptr_bytes cx (mp_valuePtr ?p)"] 3(4) by (auto simp: cx_ok_def)
      then show ?thesis
        using True cap(1) rh_loop_full[OF au] by (simp add: HashtableRobinHoodInsertSingle_def)
    qed
  qed
qed

text \<open>A callback that leaves the pairs alone: the run over a list of pairs until it fails.\<close>

fun visit :: "('s \<Rightarrow> 'v NkHashtablePair \<Rightarrow> NkErrorCode \<times> 's) \<Rightarrow> 'v NkHashtablePair list \<Rightarrow> NkErrorCode \<Rightarrow> 's \<Rightarrow> NkErrorCode \<times> 's" where
  "visit f [] ec s = (ec, s)"
| "visit f (p # ps) ec s = (let (ec1, s1) = f s p in if ec1 \<noteq> NkErr_Ok then (ec1, s1) else visit f ps ec1 s1)"

lemma ht_foreach_loop_visit:
  "ht_foreach_loop (\<lambda>s p. let (ec, s') = f s p in (ec, s', p)) es ec s
     = (let (ec', s') = visit f (used es) ec s in (ec', s', es))"
proof (induction es arbitrary: ec s)
  case (Cons e es)
  have "e\<lparr>m_regPair := m_regPair e\<rparr> = e" by simp
  then show ?case using Cons by (auto simp: Let_def split_beta)
qed simp

subsection \<open>The dictionary contract\<close>

text \<open>
  What the clients of the table rely on: a dictionary from key identities to value pointers in
  which the first insertion of a key wins.
\<close>

locale nk_map =
  fixes wf :: "'t \<Rightarrow> bool"
    and valid :: "'t \<Rightarrow> 'k \<Rightarrow> bool"
    and ident :: "'k \<Rightarrow> 'i"
    and dict :: "'t \<Rightarrow> 'i \<rightharpoonup> 'v option"
    and room :: "'t \<Rightarrow> bool"
    and lookup :: "'t \<Rightarrow> 'k \<Rightarrow> (NkErrorCode \<times> 'v option) outcome"
    and put :: "'t \<Rightarrow> 'k \<Rightarrow> 'v option \<Rightarrow> (NkErrorCode \<times> 't) outcome"
    and erase :: "'t \<Rightarrow> 'k \<Rightarrow> (NkErrorCode \<times> 'l \<times> 't) outcome"
  assumes lookup_dict: "wf t \<Longrightarrow> valid t k \<Longrightarrow> lookup t k
      = Done (case dict t (ident k) of None \<Rightarrow> (NkErr_ItemNotFound, None) | Some v \<Rightarrow> (NkErr_Ok, v))"
    and put_dict: "wf t \<Longrightarrow> valid t k \<Longrightarrow> room t \<Longrightarrow> \<exists>t'. put t k v = Done (NkErr_Ok, t') \<and> wf t' \<and> valid t' = valid t
      \<and> dict t' = (if ident k \<in> dom (dict t) then dict t else (dict t)(ident k \<mapsto> v))"
    and erase_dict: "wf t \<Longrightarrow> valid t k \<Longrightarrow> \<exists>l t'. erase t k
      = Done (if ident k \<in> dom (dict t) then NkErr_Ok else NkErr_ItemNotFound, l, t')
      \<and> wf t' \<and> valid t' = valid t \<and> dict t' = (dict t)(ident k := None)"
begin

lemma lookup_put:
  assumes "wf t" "valid t k" "room t" "put t k v = Done (ec, t')" "valid t k'"
  shows "lookup t' k' = (if ident k' = ident k \<and> ident k \<notin> dom (dict t) then Done (NkErr_Ok, v) else lookup t k')"
  using put_dict[OF assms(1-3), of v] assms(4,5) lookup_dict[OF assms(1,5)] by (auto simp: lookup_dict)

lemma put_twice_keeps_first:
  assumes "wf t" "valid t k" "valid t k'" "ident k' = ident k" "room t" "put t k v = Done (ec, t1)"
    "room t1" "put t1 k' v' = Done (ec', t2)" "ident k \<notin> dom (dict t)"
  shows "lookup t2 k = Done (NkErr_Ok, v)"
  using put_dict[OF assms(1,2,5), of v] put_dict[of t1 k' v'] assms
  by (auto simp: lookup_dict)

lemma lookup_erase:
  assumes "wf t" "valid t k" "erase t k = Done (ec, l, t')" "valid t k'"
  shows "lookup t' k' = (if ident k' = ident k then Done (NkErr_ItemNotFound, None) else lookup t k')"
  using erase_dict[OF assms(1,2)] assms(3,4) lookup_dict[OF assms(1,4)] by (auto simp: lookup_dict)

lemma put_erase_restores:
  assumes "wf t" "valid t k" "room t" "put t k v = Done (ec, t1)" "erase t1 k = Done (ec', l, t2)"
    "ident k \<notin> dom (dict t)"
  shows "dict t2 = dict t"
  using put_dict[OF assms(1-3), of v] erase_dict[of t1 k] assms
  by (auto simp: fun_eq_iff dom_def)

end

text \<open>A dictionary that owns its values: an erased value is handed to the free function.\<close>

locale nk_owning_map = nk_map wf valid ident dict room lookup put erase
  for wf :: "'t \<Rightarrow> bool" and valid :: "'t \<Rightarrow> 'k \<Rightarrow> bool" and ident :: "'k \<Rightarrow> 'i"
    and dict :: "'t \<Rightarrow> 'i \<rightharpoonup> 'v option" and room :: "'t \<Rightarrow> bool"
    and lookup :: "'t \<Rightarrow> 'k \<Rightarrow> (NkErrorCode \<times> 'v option) outcome"
    and put :: "'t \<Rightarrow> 'k \<Rightarrow> 'v option \<Rightarrow> (NkErrorCode \<times> 't) outcome"
    and erase :: "'t \<Rightarrow> 'k \<Rightarrow> (NkErrorCode \<times> 'l \<times> 't) outcome" +
  fixes freed :: "'l \<Rightarrow> 'v option list"
  assumes erase_frees: "wf t \<Longrightarrow> valid t k \<Longrightarrow> erase t k = Done (ec, l, t')
      \<Longrightarrow> freed l = (case dict t (ident k) of None \<Rightarrow> [] | Some v \<Rightarrow> [v])"
begin

lemma erase_all:
  assumes "wf t" "valid t k"
  obtains ec l t' where "erase t k = Done (ec, l, t')" "wf t'" "valid t' = valid t"
    "dict t' = (dict t)(ident k := None)" "freed l = (case dict t (ident k) of None \<Rightarrow> [] | Some v \<Rightarrow> [v])"
  using erase_dict[OF assms] erase_frees[OF assms] that by blast

end

lemma NkHashtableInsert_spec:
  assumes "ht_wf ht" "cx_ok cx" "ht_limits ht" "ht_room heap ht (Suc (ht_elemCount ht))"
    "key_valid (ht_keyType (ht_htProps ht)) (m_keyVal p)"
  shows "\<exists>ht'. NkHashtableInsert cx heap ht p = Done (NkErr_Ok, ht') \<and> ht_wf ht' \<and> ht_htProps ht' = ht_htProps ht
    \<and> ht_map ht' = (if key_id (m_keyVal p) \<in> dom (ht_map ht) then ht_map ht
                    else (ht_map ht)(key_id (m_keyVal p) \<mapsto> mp_valuePtr p))
    \<and> ht_elemCount ht' \<le> Suc (ht_elemCount ht)"
proof -
  have "map_of (map pair_kv [p]) ++ ht_map ht = (if key_id (m_keyVal p) \<in> dom (ht_map ht) then ht_map ht
      else (ht_map ht)(key_id (m_keyVal p) \<mapsto> mp_valuePtr p))"
    by (auto simp: fun_eq_iff map_add_def split: option.splits)
  then show ?thesis
    using InsertMulti_spec[OF assms(1-3), of heap "[p]"] assms(4,5) by (auto simp: NkHashtableInsert_def)
qed

interpretation ht_dict: nk_map
  "\<lambda>t. ht_wf t \<and> cx_ok cx \<and> ht_limits t \<and> length behind = 8"
  "\<lambda>t. key_valid (ht_keyType (ht_htProps t))" key_id ht_map "\<lambda>t. ht_room heap t (Suc (ht_elemCount t))"
  "\<lambda>t k. NkHashtableAt cx t behind k"
  "\<lambda>t k v. NkHashtableInsert cx heap t \<lparr>m_keyVal = k, mp_valuePtr = v\<rparr>"
  "\<lambda>t k. NkHashtableErase cx t behind k"
  for cx :: "'v ht_context" and heap behind
proof unfold_locales
  fix t :: "'v NkHashtable" and k v
  assume t: "ht_wf t \<and> cx_ok cx \<and> ht_limits t \<and> length behind = 8" and k: "key_valid (ht_keyType (ht_htProps t)) k"
  show "NkHashtableAt cx t behind k
      = Done (case ht_map t (key_id k) of None \<Rightarrow> (NkErr_ItemNotFound, None) | Some v \<Rightarrow> (NkErr_Ok, v))"
    using NkHashtableAt_spec t k by blast
  show "\<exists>l t'. NkHashtableErase cx t behind k
      = Done (if key_id k \<in> dom (ht_map t) then NkErr_Ok else NkErr_ItemNotFound, l, t')
      \<and> (ht_wf t' \<and> cx_ok cx \<and> ht_limits t' \<and> length behind = 8)
      \<and> key_valid (ht_keyType (ht_htProps t')) = key_valid (ht_keyType (ht_htProps t))
      \<and> ht_map t' = (ht_map t)(key_id k := None)"
    using NkHashtableErase_spec[of t k behind cx] t k by (auto simp: ht_limits_def)
  assume "ht_room heap t (Suc (ht_elemCount t))"
  then show "\<exists>t'. NkHashtableInsert cx heap t \<lparr>m_keyVal = k, mp_valuePtr = v\<rparr> = Done (NkErr_Ok, t')
      \<and> (ht_wf t' \<and> cx_ok cx \<and> ht_limits t' \<and> length behind = 8)
      \<and> key_valid (ht_keyType (ht_htProps t')) = key_valid (ht_keyType (ht_htProps t))
      \<and> ht_map t' = (if key_id k \<in> dom (ht_map t) then ht_map t else (ht_map t)(key_id k \<mapsto> v))"
    using NkHashtableInsert_spec[of t cx heap "\<lparr>m_keyVal = k, mp_valuePtr = v\<rparr>"] t k
    by (auto simp: ht_limits_def)
qed

interpretation ht_owner: nk_owning_map
  "\<lambda>t. (ht_wf t \<and> cx_ok cx \<and> ht_limits t \<and> length behind = 8) \<and> ht_fnElemFree (ht_htProps t)"
  "\<lambda>t. key_valid (ht_keyType (ht_htProps t))" key_id ht_map "\<lambda>t. ht_room heap t (Suc (ht_elemCount t))"
  "\<lambda>t k. NkHashtableAt cx t behind k"
  "\<lambda>t k v. NkHashtableInsert cx heap t \<lparr>m_keyVal = k, mp_valuePtr = v\<rparr>"
  "\<lambda>t k. NkHashtableErase cx t behind k" "map snd"
  for cx :: "'v ht_context" and heap behind
proof unfold_locales
  fix t :: "'v NkHashtable" and k v ec t' l
  assume t: "(ht_wf t \<and> cx_ok cx \<and> ht_limits t \<and> length behind = 8) \<and> ht_fnElemFree (ht_htProps t)"
    and k: "key_valid (ht_keyType (ht_htProps t)) k"
  show "NkHashtableAt cx t behind k
      = Done (case ht_map t (key_id k) of None \<Rightarrow> (NkErr_ItemNotFound, None) | Some v \<Rightarrow> (NkErr_Ok, v))"
    using NkHashtableAt_spec t k by blast
  show "\<exists>l t'. NkHashtableErase cx t behind k
      = Done (if key_id k \<in> dom (ht_map t) then NkErr_Ok else NkErr_ItemNotFound, l, t')
      \<and> ((ht_wf t' \<and> cx_ok cx \<and> ht_limits t' \<and> length behind = 8) \<and> ht_fnElemFree (ht_htProps t'))
      \<and> key_valid (ht_keyType (ht_htProps t')) = key_valid (ht_keyType (ht_htProps t))
      \<and> ht_map t' = (ht_map t)(key_id k := None)"
    using NkHashtableErase_spec[of t k behind cx] t k by (auto simp: ht_limits_def)
  show "NkHashtableErase cx t behind k = Done (ec, l, t')
      \<Longrightarrow> map snd l = (case ht_map t (key_id k) of None \<Rightarrow> [] | Some v \<Rightarrow> [v])"
    using NkHashtableErase_log[of t k behind cx] t k by blast
  assume "ht_room heap t (Suc (ht_elemCount t))"
  then show "\<exists>t'. NkHashtableInsert cx heap t \<lparr>m_keyVal = k, mp_valuePtr = v\<rparr> = Done (NkErr_Ok, t')
      \<and> ((ht_wf t' \<and> cx_ok cx \<and> ht_limits t' \<and> length behind = 8) \<and> ht_fnElemFree (ht_htProps t'))
      \<and> key_valid (ht_keyType (ht_htProps t')) = key_valid (ht_keyType (ht_htProps t))
      \<and> ht_map t' = (if key_id k \<in> dom (ht_map t) then ht_map t else (ht_map t)(key_id k \<mapsto> v))"
    using NkHashtableInsert_spec[of t cx heap "\<lparr>m_keyVal = k, mp_valuePtr = v\<rparr>"] t k
    by (auto simp: ht_limits_def)
qed

subsection \<open>Properties\<close>

text \<open>Sequences of operations on a table and the map they describe.\<close>

datatype 'v ht_op = OpInsert "'v NkHashtablePair" | OpErase NkHashtableKey

fun run_ops :: "'v ht_context \<Rightarrow> heap_answer \<Rightarrow> byte list \<Rightarrow> 'v ht_op list \<Rightarrow> 'v NkHashtable \<Rightarrow> 'v NkHashtable outcome" where
  "run_ops cx heap behind [] ht = Done ht"
| "run_ops cx heap behind (OpInsert p # ops) ht =
     obind (NkHashtableInsert cx heap ht p) (\<lambda>(_, ht'). run_ops cx heap behind ops ht')"
| "run_ops cx heap behind (OpErase k # ops) ht =
     obind (NkHashtableErase cx ht behind k) (\<lambda>(_, _, ht'). run_ops cx heap behind ops ht')"

fun op_valid :: "NkHashtableKeyType \<Rightarrow> 'v ht_op \<Rightarrow> bool" where
  "op_valid kt (OpInsert p) = key_valid kt (m_keyVal p)"
| "op_valid kt (OpErase k) = key_valid kt k"

fun abs_op :: "(key_ident \<rightharpoonup> 'v option) \<Rightarrow> 'v ht_op \<Rightarrow> key_ident \<rightharpoonup> 'v option" where
  "abs_op m (OpInsert p) = (if key_id (m_keyVal p) \<in> dom m then m else m(key_id (m_keyVal p) \<mapsto> mp_valuePtr p))"
| "abs_op m (OpErase k) = m(key_id k := None)"

lemma ht_room_granted:
  assumes "n \<le> ht_maxCap (ht_htProps ht)" "n \<le> 2 ^ 30"
  shows "ht_room (\<lambda>_. True) ht n"
proof -
  have "0 < n" if "ht_over_load n (ht_currCap ht)"
    using that by (cases "n = 0") (auto simp: ht_over_load_def f32_round_def)
  then show ?thesis
    using ht_new_cap_room[of n "ht_htProps ht"] assms by (auto simp: ht_room_def)
qed

lemma run_ops_refines:
  assumes "ht_wf ht" "cx_ok cx" "ht_limits ht" "length behind = 8"
    "list_all (op_valid (ht_keyType (ht_htProps ht))) ops"
    "ht_elemCount ht + length ops \<le> min (ht_maxCap (ht_htProps ht)) (2 ^ 30)"
  shows "\<exists>ht'. run_ops cx (\<lambda>_. True) behind ops ht = Done ht' \<and> ht_wf ht' \<and> ht_map ht' = foldl abs_op (ht_map ht) ops"
  using assms
proof (induction ops arbitrary: ht)
  case (Cons op ops)
  have room: "ht_room (\<lambda>_. True) ht (Suc (ht_elemCount ht))"
    using Cons.prems(6) by (intro ht_room_granted) auto
  show ?case
  proof (cases op)
    case (OpInsert p)
    then obtain ht1 where "NkHashtableInsert cx (\<lambda>_. True) ht p = Done (NkErr_Ok, ht1)" "ht_wf ht1"
      "ht_htProps ht1 = ht_htProps ht" "ht_map ht1 = abs_op (ht_map ht) op" "ht_elemCount ht1 \<le> Suc (ht_elemCount ht)"
      using NkHashtableInsert_spec[OF Cons.prems(1-3) room, of p] Cons.prems(5) by auto
    then show ?thesis using Cons.IH[of ht1] Cons.prems OpInsert by (auto simp: ht_limits_def)
  next
    case (OpErase k)
    then obtain ec lg ht1 where "NkHashtableErase cx ht behind k = Done (ec, lg, ht1)" "ht_wf ht1"
      "ht_htProps ht1 = ht_htProps ht" "ht_map ht1 = abs_op (ht_map ht) op" "ht_elemCount ht1 \<le> ht_elemCount ht"
      using NkHashtableErase_spec[OF Cons.prems(1) _ Cons.prems(4), of k cx] Cons.prems(5) by (auto split: if_splits)
    then show ?thesis using Cons.IH[of ht1] Cons.prems OpErase by (auto simp: ht_limits_def fun_upd_def)
  qed
qed auto

text \<open>The table the witnesses below run on: four slots, one of them in use.\<close>

definition sample_props :: NkHashtableProperties where
  "sample_props = \<lparr>ht_structSize = 32, ht_initCap = 4, ht_minCap = 4, ht_maxCap = 64,
     ht_keyType = NkHtKeyTy_Uint64, ht_fnElemFree = True\<rparr>"

definition sample_cx :: "nat ht_context" where
  "sample_cx = \<lparr>m_hashSeed = 1, ptr_bytes = (\<lambda>_. replicate 8 0)\<rparr>"

definition sample_table :: "nat NkHashtable" where
  "sample_table = \<lparr>ht_elemCount = 1, ht_currCap = 4, ht_htProps = sample_props,
     ht_elemArray = [zero_slot, \<lparr>m_regPair = \<lparr>m_keyVal = m_uint64Key 7, mp_valuePtr = Some 70\<rparr>,
                                 m_isUsed = True, m_offset = 0\<rparr>, zero_slot, zero_slot]\<rparr>"

lemma sample_facts [simp]:
  "ht_wf sample_table" "cx_ok sample_cx" "ht_limits sample_table" "ht_htProps sample_table = sample_props"
  "ht_elemCount sample_table = 1" "ht_keyType sample_props = NkHtKeyTy_Uint64" "ht_minCap sample_props = 4"
  "ht_maxCap sample_props = 64" "ht_fnElemFree sample_props"
  "ht_pairs sample_table = [\<lparr>m_keyVal = m_uint64Key 7, mp_valuePtr = Some 70\<rparr>]"
  "ht_map sample_table = [IdWord 7 \<mapsto> Some 70]"
  by (simp_all add: sample_table_def sample_props_def sample_cx_def ht_wf_def cx_ok_def ht_limits_def ht_pairs_def
      ht_map_def zero_slot_def pair_kv_def)

text \<open>C2: Lookup.  On a well-formed table \<open>NkHashtableAt\<close> returns the stored value pointer exactly
  for the keys that are present and \<open>NkErr_ItemNotFound\<close> for all others, whatever the seed, the
  hash values and the bytes behind the key are.\<close>

theorem hashtable_lookup_correct:
  assumes "ht_wf ht" "key_valid (ht_keyType (ht_htProps ht)) key" "length behind = 8"
  shows "NkHashtableAt cx ht behind key
    = Done (case ht_map ht (key_id key) of None \<Rightarrow> (NkErr_ItemNotFound, None) | Some v \<Rightarrow> (NkErr_Ok, v))"
  using NkHashtableAt_spec[OF assms] .

theorem hashtable_lookup_correct_witness:
  "NkHashtableAt sample_cx sample_table (replicate 8 0) (m_uint64Key 7) = Done (NkErr_Ok, Some 70)
   \<and> NkHashtableAt sample_cx sample_table (replicate 8 0) (m_uint64Key 8) = Done (NkErr_ItemNotFound, None)"
  using hashtable_lookup_correct[of sample_table "m_uint64Key 7" "replicate 8 0" sample_cx]
    hashtable_lookup_correct[of sample_table "m_uint64Key 8" "replicate 8 0" sample_cx] by simp

text \<open>Insertion.  If the table has room, a multi-insertion succeeds, keeps the table
  well-formed and adds exactly the pairs whose keys are new: a key that is already present keeps
  its old value, and of several pairs with the same key the first one counts.  In particular the
  insertion terminates.\<close>

theorem hashtable_insert_adds_new_keys:
  assumes "ht_wf ht" "cx_ok cx" "ht_limits ht" "ht_room heap ht (ht_elemCount ht + length ps)"
    "list_all (\<lambda>p. key_valid (ht_keyType (ht_htProps ht)) (m_keyVal p)) ps"
  shows "\<exists>ht'. NkHashtableInsertMulti cx heap ht ps = Done (NkErr_Ok, ht') \<and> ht_wf ht'
    \<and> ht_map ht' = map_of (map pair_kv ps) ++ ht_map ht"
  using InsertMulti_spec[OF assms] by blast

theorem hashtable_insert_adds_new_keys_witness:
  "\<exists>ht'. NkHashtableInsertMulti sample_cx (\<lambda>_. True) sample_table
       [\<lparr>m_keyVal = m_uint64Key 7, mp_valuePtr = Some 1\<rparr>, \<lparr>m_keyVal = m_uint64Key 8, mp_valuePtr = Some 2\<rparr>]
     = Done (NkErr_Ok, ht') \<and> ht_wf ht' \<and> ht_map ht' (IdWord 7) = Some (Some 70) \<and> ht_map ht' (IdWord 8) = Some (Some 2)"
  using hashtable_insert_adds_new_keys[of sample_table sample_cx "\<lambda>_. True"
      "[\<lparr>m_keyVal = m_uint64Key 7, mp_valuePtr = Some 1\<rparr>, \<lparr>m_keyVal = m_uint64Key 8, mp_valuePtr = Some 2\<rparr>]"]
    ht_room_granted[of 3 sample_table]
  by (auto simp: pair_kv_def map_add_def numeral_3_eq_3)

text \<open>C1: Refinement.  Any sequence of insertions and erasures with valid keys, on a table whose
  capacity limit is not reached and with an allocator that grants requests, runs to the end without
  an abort, undefined behaviour or endless loop, and the resulting well-formed table denotes the
  map that the same sequence gives on a finite map.\<close>

theorem hashtable_refines_map:
  assumes "ht_wf ht" "cx_ok cx" "ht_limits ht" "length behind = 8"
    "list_all (op_valid (ht_keyType (ht_htProps ht))) ops"
    "ht_elemCount ht + length ops \<le> min (ht_maxCap (ht_htProps ht)) (2 ^ 30)"
  shows "\<exists>ht'. run_ops cx (\<lambda>_. True) behind ops ht = Done ht' \<and> ht_wf ht' \<and> ht_map ht' = foldl abs_op (ht_map ht) ops"
  using run_ops_refines[OF assms] .

theorem hashtable_refines_map_witness:
  "\<exists>ht'. run_ops sample_cx (\<lambda>_. True) (replicate 8 0)
       [OpErase (m_uint64Key 7), OpInsert \<lparr>m_keyVal = m_uint64Key 7, mp_valuePtr = Some 5\<rparr>] sample_table = Done ht'
     \<and> ht_wf ht' \<and> ht_map ht' (IdWord 7) = Some (Some 5)"
  using hashtable_refines_map[of sample_table sample_cx "replicate 8 0"
      "[OpErase (m_uint64Key 7), OpInsert \<lparr>m_keyVal = m_uint64Key 7, mp_valuePtr = Some 5\<rparr>]"] by auto

text \<open>Erasure.  Erasing a valid key from a well-formed table removes exactly that key, keeps the
  table well-formed and leaves the lookup of every other key unchanged; afterwards the key is not
  found.\<close>

theorem hashtable_erase_then_lookup:
  assumes "ht_wf t" "cx_ok cx" "ht_limits t" "length behind = 8" "key_valid (ht_keyType (ht_htProps t)) k"
    "key_valid (ht_keyType (ht_htProps t)) k'" "NkHashtableErase cx t behind k = Done (ec, lg, t')"
  shows "NkHashtableAt cx t' behind k'
    = (if key_id k' = key_id k then Done (NkErr_ItemNotFound, None) else NkHashtableAt cx t behind k')"
  using ht_dict.lookup_erase[of t cx behind k ec lg t' k'] assms by blast

theorem hashtable_erase_then_lookup_witness:
  "\<exists>ec lg t'. NkHashtableErase sample_cx sample_table (replicate 8 0) (m_uint64Key 7) = Done (ec, lg, t')
    \<and> NkHashtableAt sample_cx t' (replicate 8 0) (m_uint64Key 7) = Done (NkErr_ItemNotFound, None)"
proof -
  obtain ec lg t' where er: "NkHashtableErase sample_cx sample_table (replicate 8 0) (m_uint64Key 7) = Done (ec, lg, t')"
    using NkHashtableErase_spec[of sample_table "m_uint64Key 7" "replicate 8 0" sample_cx] by auto
  then show ?thesis
    using hashtable_erase_then_lookup[OF _ _ _ _ _ _ er, of "m_uint64Key 7"] by simp
qed

text \<open>Clearing.  If the elements fit into the minimum capacity and the allocator grants the new
  array, clearing frees every pair once and leaves an empty table of minimum capacity; if there
  are more elements than that, the call never returns: the old elements are first moved into the
  smaller table.\<close>

theorem hashtable_clear_by_size:
  assumes "ht_wf ht" "cx_ok cx" "0 < ht_minCap (ht_htProps ht)" "ht_minCap (ht_htProps ht) \<le> UINT32_MAX"
    "heap (sizeof_ext_pair * ht_minCap (ht_htProps ht))"
  shows "if ht_elemCount ht \<le> ht_minCap (ht_htProps ht)
    then \<exists>ht'. NkHashtableClear cx heap ht = Done (HashtableFreeElems ht, ht') \<and> ht_wf ht'
           \<and> ht_map ht' = Map.empty \<and> ht_elemCount ht' = 0 \<and> ht_currCap ht' = ht_minCap (ht_htProps ht)
    else NkHashtableClear cx heap ht = Hang"
proof (cases "ht_elemCount ht \<le> ht_minCap (ht_htProps ht)")
  case True
  obtain ht1 where ht1: "HashtableAdjustCapacity cx heap ht (ht_minCap (ht_htProps ht)) = Done (NkErr_Ok, ht1)"
    "ht_wf ht1" "ht_currCap ht1 = ht_minCap (ht_htProps ht)"
    using AdjustCapacity_spec[of ht cx heap "ht_minCap (ht_htProps ht)"] assms True by blast
  then show ?thesis
    using True assms(3,4) by (auto simp: NkHashtableClear_def Let_def ht_wf_def ht_map_def ht_pairs_def)
next
  case False
  have w: "take (ht_currCap ht) (ht_elemArray ht) = ht_elemArray ht" "used (ht_elemArray ht) = ht_pairs ht"
    "ht_elemCount ht = length (ht_pairs ht)" "distinct (map fst (map pair_kv (ht_pairs ht)))"
    "list_all (\<lambda>p. key_valid (ht_keyType (ht_htProps ht)) (m_keyVal p)) (ht_pairs ht)"
    using assms(1) by (auto simp: ht_wf_def ht_pairs_def)
  note e = ht_empty_slots_ok[OF assms(3,4), of "ht_elemCount ht" "ht_htProps ht"]
  have "transfer_loop cx (ht_elemArray ht) (ht_elemCount ht) \<lparr>ht_elemCount = ht_elemCount ht,
      ht_currCap = ht_minCap (ht_htProps ht), ht_htProps = ht_htProps ht,
      ht_elemArray = replicate (ht_minCap (ht_htProps ht)) zero_slot\<rparr> = Hang"
    using w(3-5) False by (intro transfer_loop_hangs[OF e(1) assms(2)]) (simp_all add: w(2) ht_empty_slots_ok(2,3)[OF assms(3,4)])
  then show ?thesis
    using False w(1) assms(3,5)
    by (simp add: NkHashtableClear_def HashtableAdjustCapacity_def NkGPAlloc_def sizeof_ext_pair_def)
qed

theorem hashtable_clear_by_size_witness:
  "\<exists>ht'. NkHashtableClear sample_cx (\<lambda>_. True) sample_table = Done (HashtableFreeElems sample_table, ht')
    \<and> ht_wf ht' \<and> ht_map ht' = Map.empty \<and> ht_elemCount ht' = 0 \<and> ht_currCap ht' = 4"
  using hashtable_clear_by_size[of sample_table sample_cx "\<lambda>_. True"] by simp

text \<open>Iteration.  On a well-formed, non-empty table \<open>NkHashtableForEach\<close> with a callback that
  does not change the pairs calls it on the stored pairs in slot order, on each exactly once,
  until one call fails, and returns the result of the last call; the table is unchanged.\<close>

theorem hashtable_foreach_visits_all:
  assumes "ht_wf ht" "0 < ht_elemCount ht"
  shows "NkHashtableForEach ht (\<lambda>s p. let (ec, s') = f s p in (ec, s', p)) s
    = (let (ec, s') = visit f (ht_pairs ht) NkErr_NoOperation s in (ec, s', ht))"
proof -
  have es: "take (ht_currCap ht) (ht_elemArray ht) = ht_elemArray ht" using assms(1) by (simp add: ht_wf_def)
  show ?thesis
    using assms unfolding NkHashtableForEach_def es ht_foreach_loop_visit ht_pairs_def
    by (auto simp: Let_def ht_wf_def split: prod.splits)
qed

theorem hashtable_foreach_visits_all_witness:
  "NkHashtableForEach sample_table (\<lambda>s p. let (ec, s') = (NkErr_Ok, s @ [mp_valuePtr p]) in (ec, s', p)) []
     = (NkErr_Ok, [Some 70], sample_table)"
  using hashtable_foreach_visits_all[of sample_table "\<lambda>s p. (NkErr_Ok, s @ [mp_valuePtr p])" "[]"] by simp

text \<open>Destruction.  Destroying a well-formed table that owns its elements hands every stored pair
  to the free function exactly once, in slot order.\<close>

theorem hashtable_destroy_frees_each_once:
  assumes "ht_wf ht" "ht_fnElemFree (ht_htProps ht)"
  shows "NkHashtableDestroy (Some ht) = map (\<lambda>p. (Some (m_keyVal p), mp_valuePtr p)) (ht_pairs ht)"
  using assms by (simp add: NkHashtableDestroy_def HashtableFreeElems_spec)

theorem hashtable_destroy_frees_each_once_witness:
  "NkHashtableDestroy (Some sample_table) = [(Some (m_uint64Key 7), Some 70)]"
  using hashtable_destroy_frees_each_once[of sample_table] by simp

end
