(* ===== verification/NkOM.thy ===== *)
theory NkOM
  imports NkHashtable
begin

section \<open>The object model runtime (src/Noriko/nkom.c)\<close>

text \<open>
  The class registry is a hash table from class identifiers to factories which owns a reference on
  each factory.  Objects and factories are references of one type; their methods are virtual
  functions supplied by the classes and are the argument \<open>vt\<close>.  A method maps the whole state to
  a result and a new state; \<open>om_objs\<close> stands for the objects themselves, reference counts included.
  The free function of the registry runs inside the registry's lock, so it cannot call back into the
  registry; its calls are made from the log after the table operation.
\<close>

record ('o, 's) om_context =
  om_isInitialized :: bool
  om_isDebugEnabled :: bool
  om_classReg :: "'o NkHashtable option"
  om_htctx :: "'o ht_context"
  om_rnd :: RandContext
  om_objs :: 's

record ('o, 'p, 'st) nkom_vt =
  om_QueryInterface :: "'o \<Rightarrow> NkUuid \<Rightarrow> 'st \<Rightarrow> NkErrorCode \<times> 'o option \<times> 'st"
  om_AddRef :: "'o \<Rightarrow> 'st \<Rightarrow> 'st"
  om_Release :: "'o \<Rightarrow> 'st \<Rightarrow> 'st"
  om_Initialize :: "'o \<Rightarrow> 'p option \<Rightarrow> 'st \<Rightarrow> NkErrorCode \<times> 'st"
  om_QueryInstantiableClasses :: "'o \<Rightarrow> 'st \<Rightarrow> (64 word \<times> NkUuid) list \<times> 'st"
  om_CreateInstance :: "'o \<Rightarrow> NkUuid \<Rightarrow> 'o option \<Rightarrow> 'st \<Rightarrow> NkErrorCode \<times> 'o option \<times> 'st"

type_synonym ('o, 'p, 's) om_vt = "('o, 'p, ('o, 's) om_context) nkom_vt"

text \<open>Identifiers as they lie in memory; the fields of a UUID are written in the order of the
  initialisers, each in little-endian bytes.\<close>

definition IID_NkINull :: NkUuid where
  "IID_NkINull = replicate 16 0"

definition IID_NkIInitializable :: NkUuid where
  "IID_NkIInitializable = [0x35, 0xaf, 0x0a, 0xa3, 0x5d, 0xb9, 0x2b, 0x42,
                           0xde, 0x6e, 0x6f, 0x0d, 0x6a, 0xb7, 0x1b, 0xbb]"

definition IID_NkIBase :: NkUuid where
  "IID_NkIBase = [0x45, 0xd7, 0xc6, 0xa2, 0x5f, 0xf0, 0x53, 0x40,
                  0x6d, 0x6e, 0xea, 0xaa, 0x7b, 0x90, 0x39, 0xbb]"

definition IID_NkIClassFactory :: NkUuid where
  "IID_NkIClassFactory = [0xc3, 0x13, 0xac, 0x5f, 0x8e, 0xad, 0x30, 0x48,
                          0x44, 0xfd, 0xaa, 0x23, 0x88, 0x99, 0xdc, 0x8f]"

definition the_reg :: "('o, 's) om_context \<Rightarrow> 'o NkHashtable outcome" where
  "the_reg st = (case om_classReg st of None \<Rightarrow> Undef | Some ht \<Rightarrow> Done ht)"

subsection \<open>Start-up and shutdown\<close>

definition OM_DestroyClsFacFn ::
    "('o, 'p, 's) om_vt \<Rightarrow> NkHashtableKey option \<times> 'o option \<Rightarrow> ('o, 's) om_context \<Rightarrow> ('o, 's) om_context" where
  "OM_DestroyClsFacFn vt kv st = (case snd kv of None \<Rightarrow> st | Some clsFac \<Rightarrow> om_Release vt clsFac st)"

definition om_props :: NkHashtableProperties where
  "om_props = \<lparr>ht_structSize = 32, ht_initCap = 16, ht_minCap = 16, ht_maxCap = UINT32_MAX,
     ht_keyType = NkHtKeyTy_Uuid, ht_fnElemFree = True\<rparr>"

text \<open>\<open>enableDbgTools\<close> is the flag of the application specification.\<close>

definition NkOMStartup ::
    "bool \<Rightarrow> NkErrorCode \<Rightarrow> heap_answer \<Rightarrow> ('o, 's) om_context \<Rightarrow> (NkErrorCode \<times> ('o, 's) om_context) outcome" where
  "NkOMStartup enableDbgTools poolRes heap st =
     (if \<not> om_isInitialized st then
        let st1 = st\<lparr>om_isInitialized := True, om_isDebugEnabled := enableDbgTools, om_classReg := None\<rparr> in
        obind (NkHashtableCreate (om_htctx st1) (om_rnd st1) poolRes heap om_props) (\<lambda>(errCode, ht, cx, rnd).
          let st2 = st1\<lparr>om_classReg := ht, om_htctx := cx, om_rnd := rnd\<rparr> in
          if errCode \<noteq> NkErr_Ok then Done (errCode, st2\<lparr>om_isInitialized := False\<rparr>)
          else Done (NkErr_Ok, st2))
      else Done (NkErr_NoOperation, st))"

definition NkOMShutdown ::
    "('o, 'p, 's) om_vt \<Rightarrow> ('o, 's) om_context \<Rightarrow> NkErrorCode \<times> ('o, 's) om_context" where
  "NkOMShutdown vt st =
     (if om_isInitialized st
      then (NkErr_Ok, fold (OM_DestroyClsFacFn vt) (NkHashtableDestroy (om_classReg st))
              (st\<lparr>om_isInitialized := False, om_classReg := None\<rparr>))
      else (NkErr_NoOperation, st))"

subsection \<open>Class factories\<close>

text \<open>A class identifier is its address and the UUID found there.\<close>

definition NkOMQueryFactoryForClass ::
    "byte list \<Rightarrow> ('o, 'p, 's) om_vt \<Rightarrow> 64 word \<times> NkUuid \<Rightarrow> ('o, 's) om_context
     \<Rightarrow> (NkErrorCode \<times> 'o option \<times> ('o, 's) om_context) outcome" where
  "NkOMQueryFactoryForClass behind vt clsid st =
     nk_assert (om_isInitialized st) NkErr_ComponentState
    (obind (the_reg st) (\<lambda>ht.
     obind (NkHashtableAt (om_htctx st) ht behind (mp_uuidKey (fst clsid) (snd clsid))) (\<lambda>(errCode, clsFac).
       if errCode = NkErr_Ok
       then case clsFac of None \<Rightarrow> Undef | Some f \<Rightarrow> Done (NkErr_Ok, Some f, om_AddRef vt f st)
       else Done (NkErr_ClassNotReg, clsFac, st))))"

fun uninstall_loop ::
    "byte list \<Rightarrow> ('o, 'p, 's) om_vt \<Rightarrow> 'o \<Rightarrow> (64 word \<times> NkUuid) list \<Rightarrow> ('o, 's) om_context
     \<Rightarrow> ('o, 's) om_context outcome" where
  "uninstall_loop behind vt clsFac [] st = Done st"
| "uninstall_loop behind vt clsFac ((p, u) # cs) st =
     obind (the_reg st) (\<lambda>ht.
     obind (NkHashtableErase (om_htctx st) ht behind (mp_uuidKey p u)) (\<lambda>(_, freed, ht').
       uninstall_loop behind vt clsFac cs
         (om_Release vt clsFac (fold (OM_DestroyClsFacFn vt) freed (st\<lparr>om_classReg := Some ht'\<rparr>)))))"

definition NkOMUninstallClassFactory ::
    "byte list \<Rightarrow> ('o, 'p, 's) om_vt \<Rightarrow> 'o \<Rightarrow> ('o, 's) om_context \<Rightarrow> (NkErrorCode \<times> ('o, 's) om_context) outcome" where
  "NkOMUninstallClassFactory behind vt clsFac st =
     nk_assert (om_isInitialized st) NkErr_ComponentState
    (let (clsidArr, st1) = om_QueryInstantiableClasses vt clsFac st in
     obind (uninstall_loop behind vt clsFac clsidArr st1) (\<lambda>st2. Done (NkErr_Ok, om_Release vt clsFac st2)))"

fun install_loop ::
    "heap_answer \<Rightarrow> byte list \<Rightarrow> ('o, 'p, 's) om_vt \<Rightarrow> 'o \<Rightarrow> nat \<Rightarrow> (64 word \<times> NkUuid) list \<Rightarrow> ('o, 's) om_context
     \<Rightarrow> (NkErrorCode \<times> ('o, 's) om_context) outcome" where
  "install_loop heap behind vt clsFac i [] st = Done (NkErr_Ok, st)"
| "install_loop heap behind vt clsFac i ((p, u) # cs) st =
     obind (the_reg st) (\<lambda>ht.
     obind (NkHashtableInsert (om_htctx st) heap ht \<lparr>m_keyVal = mp_uuidKey p u, mp_valuePtr = Some clsFac\<rparr>)
       (\<lambda>(errCode, ht').
       let st1 = st\<lparr>om_classReg := Some ht'\<rparr> in
       if errCode \<noteq> NkErr_Ok
       then if 0 < i then obind (NkOMUninstallClassFactory behind vt clsFac st1) (\<lambda>(_, st2). Done (errCode, st2))
            else Done (errCode, st1)
       else install_loop heap behind vt clsFac (Suc i) cs (om_AddRef vt clsFac st1)))"

definition NkOMInstallClassFactory ::
    "heap_answer \<Rightarrow> byte list \<Rightarrow> ('o, 'p, 's) om_vt \<Rightarrow> 'o \<Rightarrow> ('o, 's) om_context
     \<Rightarrow> (NkErrorCode \<times> ('o, 's) om_context) outcome" where
  "NkOMInstallClassFactory heap behind vt clsFac st =
     nk_assert (om_isInitialized st) NkErr_ComponentState
    (let (clsidArr, st1) = om_QueryInstantiableClasses vt clsFac st in
     install_loop heap behind vt clsFac 0 clsidArr st1)"

subsection \<open>Instances\<close>

text \<open>Using a result pointer that a method has left NULL is undefined.  The initialisation step
  returns the error code the function goes on with.\<close>

definition init_instance ::
    "('o, 'p, 's) om_vt \<Rightarrow> 'o \<Rightarrow> 'p option \<Rightarrow> ('o, 's) om_context \<Rightarrow> (NkErrorCode \<times> ('o, 's) om_context) outcome" where
  "init_instance vt tmpRes initParam st =
     (let (ec, initRef, st1) = om_QueryInterface vt tmpRes IID_NkIInitializable st in
      if ec \<noteq> NkErr_Ok then Done (NkErr_Ok, st1)
      else case initRef of None \<Rightarrow> Undef
      | Some ini \<Rightarrow>
          let (errCode, st2) = om_Initialize vt ini initParam st1;
              st3 = (if errCode \<noteq> NkErr_Ok then om_Release vt ini st2 else st2)
          in Done (errCode, om_Release vt tmpRes st3))"

text \<open>The part of the creation that works on the new object.\<close>

definition finish_instance ::
    "('o, 'p, 's) om_vt \<Rightarrow> 'o \<Rightarrow> NkUuid \<Rightarrow> 'p option \<Rightarrow> ('o, 's) om_context
     \<Rightarrow> (NkErrorCode \<times> 'o option \<times> ('o, 's) om_context) outcome" where
  "finish_instance vt tmpRes iId initParam st =
     obind (init_instance vt tmpRes initParam st) (\<lambda>(errCode, st4).
       if errCode \<noteq> NkErr_Ok then Done (errCode, None, st4)
       else let (errCode, resPtr, st5) = om_QueryInterface vt tmpRes iId st4 in
         if errCode \<noteq> NkErr_Ok then Done (errCode, None, om_Release vt tmpRes st5)
         else case resPtr of None \<Rightarrow> Undef
              | Some res \<Rightarrow> Done (NkErr_Ok, Some res, om_Release vt res st5))"

definition NkOMCreateInstance ::
    "byte list \<Rightarrow> ('o, 'p, 's) om_vt \<Rightarrow> 64 word \<times> NkUuid \<Rightarrow> 'o option \<Rightarrow> NkUuid \<Rightarrow> 'p option \<Rightarrow> ('o, 's) om_context
     \<Rightarrow> (NkErrorCode \<times> 'o option \<times> ('o, 's) om_context) outcome" where
  "NkOMCreateInstance behind vt clsId ctrlInst iId initParam st =
     nk_assert (om_isInitialized st) NkErr_ComponentState
    (obind (NkOMQueryFactoryForClass behind vt clsId st) (\<lambda>(errCode, reqClsFac, st1).
       if errCode \<noteq> NkErr_Ok then Done (errCode, None, st1)
       else case reqClsFac of None \<Rightarrow> Undef | Some f \<Rightarrow>
         let (errCode, tmpResPtr, st2) = om_CreateInstance vt f (snd clsId) ctrlInst st1;
             st3 = om_Release vt f st2
         in if errCode \<noteq> NkErr_Ok then Done (errCode, None, st3)
            else case tmpResPtr of None \<Rightarrow> Undef | Some tmpRes \<Rightarrow>
              finish_instance vt tmpRes iId initParam st3))"

definition NkOMIsPureVirtual :: "NkUuid \<Rightarrow> bool" where
  "NkOMIsPureVirtual iId = NkUuidIsEqual iId IID_NkINull"

text \<open>The implementation table is the list of entries before its NULL terminator.\<close>

fun impl_index_loop :: "nat \<Rightarrow> NkUuid list \<Rightarrow> NkUuid \<Rightarrow> nat" where
  "impl_index_loop currInd [] uuidRef = SIZE_MAX"
| "impl_index_loop currInd (i # infos) uuidRef =
     (if NkUuidIsEqual uuidRef i then currInd else impl_index_loop (Suc currInd) infos uuidRef)"

definition NkOMQueryImplementationIndex :: "NkUuid list \<Rightarrow> NkUuid \<Rightarrow> nat" where
  "NkOMQueryImplementationIndex infos uuidRef = impl_index_loop 0 infos uuidRef"

subsection \<open>The documented protocol of the methods\<close>

text \<open>
  What include/Noriko/nkom.h asks of the methods.  \<open>cnt\<close> reads the number of outstanding
  references of an object off the object state and \<open>own\<close> is the object an interface pointer belongs
  to.  \<open>AddRef\<close> and \<open>Release\<close> change this number by one, a successful \<open>QueryInterface\<close> returns an
  interface of the same object with one reference more, \<open>Initialize\<close> does not touch it, and a
  factory hands out a new object with one reference.  None of them changes the registry.
\<close>

definition nkom_protocol :: "('o, 'p, 's) om_vt \<Rightarrow> ('s \<Rightarrow> 'i \<Rightarrow> int) \<Rightarrow> ('o \<Rightarrow> 'i) \<Rightarrow> bool" where
  "nkom_protocol vt cnt own \<longleftrightarrow>
     (\<forall>r st. \<exists>s. om_AddRef vt r st = st\<lparr>om_objs := s\<rparr> \<and> cnt s = (cnt (om_objs st))(own r := cnt (om_objs st) (own r) + 1))
   \<and> (\<forall>r st. \<exists>s. om_Release vt r st = st\<lparr>om_objs := s\<rparr> \<and> cnt s = (cnt (om_objs st))(own r := cnt (om_objs st) (own r) - 1))
   \<and> (\<forall>r iid st. \<exists>ec q s. om_QueryInterface vt r iid st = (ec, q, st\<lparr>om_objs := s\<rparr>)
        \<and> (if ec = NkErr_Ok then \<exists>q'. q = Some q' \<and> own q' = own r
               \<and> cnt s = (cnt (om_objs st))(own r := cnt (om_objs st) (own r) + 1)
           else cnt s = cnt (om_objs st)))
   \<and> (\<forall>r ip st. \<exists>ec s. om_Initialize vt r ip st = (ec, st\<lparr>om_objs := s\<rparr>) \<and> cnt s = cnt (om_objs st))
   \<and> (\<forall>r st. \<exists>cs s. om_QueryInstantiableClasses vt r st = (cs, st\<lparr>om_objs := s\<rparr>) \<and> cnt s = cnt (om_objs st))
   \<and> (\<forall>r cl ctrl st. \<exists>ec q s. om_CreateInstance vt r cl ctrl st = (ec, q, st\<lparr>om_objs := s\<rparr>)
        \<and> (if ec = NkErr_Ok then \<exists>q'. q = Some q' \<and> cnt (om_objs st) (own q') = 0
               \<and> own q' \<noteq> own r \<and> cnt s = (cnt (om_objs st))(own q' := 1)
           else cnt s = cnt (om_objs st)))"

definition reg_ok :: "('o, 's) om_context \<Rightarrow> 'o NkHashtable \<Rightarrow> bool" where
  "reg_ok st ht \<longleftrightarrow> om_isInitialized st \<and> om_classReg st = Some ht \<and> ht_wf ht \<and> cx_ok (om_htctx st) \<and> ht_limits ht
     \<and> ht_keyType (ht_htProps ht) = NkHtKeyTy_Uuid \<and> ht_fnElemFree (ht_htProps ht)"


lemma reg_ok_objs [simp]: "reg_ok (st\<lparr>om_objs := s\<rparr>) ht = reg_ok st ht"
  by (simp add: reg_ok_def)

lemma AddRef_spec:
  "nkom_protocol vt cnt own \<Longrightarrow> \<exists>s. om_AddRef vt r st = st\<lparr>om_objs := s\<rparr>
     \<and> cnt s = (cnt (om_objs st))(own r := cnt (om_objs st) (own r) + 1)"
  by (simp add: nkom_protocol_def)

lemma Release_spec:
  "nkom_protocol vt cnt own \<Longrightarrow> \<exists>s. om_Release vt r st = st\<lparr>om_objs := s\<rparr>
     \<and> cnt s = (cnt (om_objs st))(own r := cnt (om_objs st) (own r) - 1)"
  by (simp add: nkom_protocol_def)

lemma QueryInterface_spec:
  assumes "nkom_protocol vt cnt own"
  obtains ec q s where "om_QueryInterface vt r iid st = (ec, q, st\<lparr>om_objs := s\<rparr>)" "ec \<noteq> NkErr_Ok" "cnt s = cnt (om_objs st)"
  | q s where "om_QueryInterface vt r iid st = (NkErr_Ok, Some q, st\<lparr>om_objs := s\<rparr>)" "own q = own r"
      "cnt s = (cnt (om_objs st))(own r := cnt (om_objs st) (own r) + 1)"
proof -
  obtain ec q s where "om_QueryInterface vt r iid st = (ec, q, st\<lparr>om_objs := s\<rparr>)"
    "if ec = NkErr_Ok then \<exists>q'. q = Some q' \<and> own q' = own r
               \<and> cnt s = (cnt (om_objs st))(own r := cnt (om_objs st) (own r) + 1)
     else cnt s = cnt (om_objs st)"
    using assms unfolding nkom_protocol_def by metis
  then show thesis using that by (auto split: if_splits)
qed

lemma Initialize_spec:
  "nkom_protocol vt cnt own \<Longrightarrow> \<exists>ec s. om_Initialize vt r ip st = (ec, st\<lparr>om_objs := s\<rparr>) \<and> cnt s = cnt (om_objs st)"
  by (simp add: nkom_protocol_def)

lemma CreateInstance_spec:
  assumes "nkom_protocol vt cnt own"
  obtains ec q s where "om_CreateInstance vt r cl ctrl st = (ec, q, st\<lparr>om_objs := s\<rparr>)" "ec \<noteq> NkErr_Ok"
      "cnt s = cnt (om_objs st)"
  | q s where "om_CreateInstance vt r cl ctrl st = (NkErr_Ok, Some q, st\<lparr>om_objs := s\<rparr>)"
      "cnt (om_objs st) (own q) = 0" "own q \<noteq> own r" "cnt s = (cnt (om_objs st))(own q := 1)"
proof -
  obtain ec q s where "om_CreateInstance vt r cl ctrl st = (ec, q, st\<lparr>om_objs := s\<rparr>)"
    "if ec = NkErr_Ok then \<exists>q'. q = Some q' \<and> cnt (om_objs st) (own q') = 0
               \<and> own q' \<noteq> own r \<and> cnt s = (cnt (om_objs st))(own q' := 1)
     else cnt s = cnt (om_objs st)"
    using assms unfolding nkom_protocol_def by metis
  then show thesis using that by (auto split: if_splits)
qed

subsection \<open>Registry lookups and instances\<close>

lemma QueryFactory_spec:
  assumes "reg_ok st ht" "length (snd clsid) = 16" "length behind = 8"
  shows "NkOMQueryFactoryForClass behind vt clsid st = (case ht_map ht (IdUuid (snd clsid)) of
      None \<Rightarrow> Done (NkErr_ClassNotReg, None, st) | Some None \<Rightarrow> Undef
    | Some (Some f) \<Rightarrow> Done (NkErr_Ok, Some f, om_AddRef vt f st))"
proof -
  have "NkHashtableAt (om_htctx st) ht behind (mp_uuidKey (fst clsid) (snd clsid))
      = Done (case ht_map ht (IdUuid (snd clsid)) of None \<Rightarrow> (NkErr_ItemNotFound, None) | Some v \<Rightarrow> (NkErr_Ok, v))"
    using ht_dict.lookup_dict[of ht "om_htctx st" behind "mp_uuidKey (fst clsid) (snd clsid)"] assms
    by (simp add: reg_ok_def)
  then show ?thesis using assms(1)
    by (auto simp: NkOMQueryFactoryForClass_def the_reg_def reg_ok_def split: option.splits)
qed

lemma init_instance_spec:
  assumes "nkom_protocol vt cnt own"
  shows "\<exists>ec s. init_instance vt r ip st = Done (ec, st\<lparr>om_objs := s\<rparr>)
    \<and> cnt s = (if ec = NkErr_Ok then cnt (om_objs st) else (cnt (om_objs st))(own r := cnt (om_objs st) (own r) - 1))"
proof (rule QueryInterface_spec[OF assms, of r IID_NkIInitializable st])
  fix ec q s
  assume "om_QueryInterface vt r IID_NkIInitializable st = (ec, q, st\<lparr>om_objs := s\<rparr>)" "ec \<noteq> NkErr_Ok" "cnt s = cnt (om_objs st)"
  then show ?thesis by (auto simp: init_instance_def)
next
  fix q s
  assume q: "om_QueryInterface vt r IID_NkIInitializable st = (NkErr_Ok, Some q, st\<lparr>om_objs := s\<rparr>)" "own q = own r"
    "cnt s = (cnt (om_objs st))(own r := cnt (om_objs st) (own r) + 1)"
  obtain ec s1 where i: "om_Initialize vt q ip (st\<lparr>om_objs := s\<rparr>) = (ec, st\<lparr>om_objs := s1\<rparr>)" "cnt s1 = cnt s"
    using Initialize_spec[OF assms, of q ip "st\<lparr>om_objs := s\<rparr>"] by auto
  obtain s2 where r1: "om_Release vt q (st\<lparr>om_objs := s1\<rparr>) = st\<lparr>om_objs := s2\<rparr>"
    "cnt s2 = (cnt s1)(own r := cnt s1 (own r) - 1)"
    using Release_spec[OF assms, of q "st\<lparr>om_objs := s1\<rparr>"] q(2) by auto
  obtain s3 where r2: "om_Release vt r (st\<lparr>om_objs := s1\<rparr>) = st\<lparr>om_objs := s3\<rparr>"
    "cnt s3 = (cnt s1)(own r := cnt s1 (own r) - 1)"
    using Release_spec[OF assms, of r "st\<lparr>om_objs := s1\<rparr>"] by auto
  obtain s4 where r3: "om_Release vt r (st\<lparr>om_objs := s2\<rparr>) = st\<lparr>om_objs := s4\<rparr>"
    "cnt s4 = (cnt s2)(own r := cnt s2 (own r) - 1)"
    using Release_spec[OF assms, of r "st\<lparr>om_objs := s2\<rparr>"] by auto
  show ?thesis using q i r1 r2 r3 by (cases "ec = NkErr_Ok") (auto simp: init_instance_def fun_eq_iff)
qed

lemma finish_instance_spec:
  assumes p: "nkom_protocol vt cnt own" and one: "cnt (om_objs st) (own r) = 1"
  shows "(\<exists>q s. finish_instance vt r iId ip st = Done (NkErr_Ok, Some q, st\<lparr>om_objs := s\<rparr>) \<and> own q = own r \<and> cnt s = cnt (om_objs st))
    \<or> (\<exists>ec s. ec \<noteq> NkErr_Ok \<and> finish_instance vt r iId ip st = Done (ec, None, st\<lparr>om_objs := s\<rparr>) \<and> cnt s = (cnt (om_objs st))(own r := 0))"
proof -
  obtain ec s where i: "init_instance vt r ip st = Done (ec, st\<lparr>om_objs := s\<rparr>)"
    "cnt s = (if ec = NkErr_Ok then cnt (om_objs st) else (cnt (om_objs st))(own r := cnt (om_objs st) (own r) - 1))"
    using init_instance_spec[OF p, of r ip st] by auto
  show ?thesis
  proof (cases "ec = NkErr_Ok")
    case False
    then show ?thesis using i one by (auto simp: finish_instance_def)
  next
    case True
    note i' = i[unfolded True, simplified]
    show ?thesis
    proof (rule QueryInterface_spec[OF p, of r iId "st\<lparr>om_objs := s\<rparr>"])
      fix ec q s1
      assume "om_QueryInterface vt r iId (st\<lparr>om_objs := s\<rparr>) = (ec, q, (st\<lparr>om_objs := s\<rparr>)\<lparr>om_objs := s1\<rparr>)" "ec \<noteq> NkErr_Ok"
        "cnt s1 = cnt (om_objs (st\<lparr>om_objs := s\<rparr>))"
      then show ?thesis using i' one Release_spec[OF p, of r "st\<lparr>om_objs := s1\<rparr>"] by (auto simp: finish_instance_def)
    next
      fix q s1
      assume "om_QueryInterface vt r iId (st\<lparr>om_objs := s\<rparr>) = (NkErr_Ok, Some q, (st\<lparr>om_objs := s\<rparr>)\<lparr>om_objs := s1\<rparr>)"
        "own q = own r"
        "cnt s1 = (cnt (om_objs (st\<lparr>om_objs := s\<rparr>)))(own r := cnt (om_objs (st\<lparr>om_objs := s\<rparr>)) (own r) + 1)"
      then show ?thesis using i' Release_spec[OF p, of q "st\<lparr>om_objs := s1\<rparr>"] by (auto simp: finish_instance_def)
    qed
  qed
qed

lemma CreateInstance_registered:
  assumes p: "nkom_protocol vt cnt own" and reg: "reg_ok st ht" "length (snd clsid) = 16" "length behind = 8"
    and f: "ht_map ht (IdUuid (snd clsid)) = Some (Some f)"
  shows "(\<exists>q s. NkOMCreateInstance behind vt clsid ctrl iId ip st = Done (NkErr_Ok, Some q, st\<lparr>om_objs := s\<rparr>)
        \<and> cnt (om_objs st) (own q) = 0 \<and> cnt s = (cnt (om_objs st))(own q := 1))
    \<or> (\<exists>ec s. ec \<noteq> NkErr_Ok \<and> NkOMCreateInstance behind vt clsid ctrl iId ip st = Done (ec, None, st\<lparr>om_objs := s\<rparr>)
        \<and> cnt s = cnt (om_objs st))"
proof -
  have ini: "om_isInitialized st" using reg(1) by (simp add: reg_ok_def)
  obtain s1 where a: "om_AddRef vt f st = st\<lparr>om_objs := s1\<rparr>"
    "cnt s1 = (cnt (om_objs st))(own f := cnt (om_objs st) (own f) + 1)"
    using AddRef_spec[OF p, of f st] by auto
  have qf: "NkOMQueryFactoryForClass behind vt clsid st = Done (NkErr_Ok, Some f, st\<lparr>om_objs := s1\<rparr>)"
    using QueryFactory_spec[OF reg, of vt] f a by simp
  show ?thesis
  proof (rule CreateInstance_spec[OF p, of f "snd clsid" ctrl "st\<lparr>om_objs := s1\<rparr>"])
    fix ec q s2
    assume c: "om_CreateInstance vt f (snd clsid) ctrl (st\<lparr>om_objs := s1\<rparr>) = (ec, q, (st\<lparr>om_objs := s1\<rparr>)\<lparr>om_objs := s2\<rparr>)"
      "ec \<noteq> NkErr_Ok" "cnt s2 = cnt (om_objs (st\<lparr>om_objs := s1\<rparr>))"
    then show ?thesis
      using a ini qf Release_spec[OF p, of f "st\<lparr>om_objs := s2\<rparr>"] by (auto simp: NkOMCreateInstance_def)
  next
    fix q s2
    assume c: "om_CreateInstance vt f (snd clsid) ctrl (st\<lparr>om_objs := s1\<rparr>) = (NkErr_Ok, Some q, (st\<lparr>om_objs := s1\<rparr>)\<lparr>om_objs := s2\<rparr>)"
      "cnt (om_objs (st\<lparr>om_objs := s1\<rparr>)) (own q) = 0" "own q \<noteq> own f"
      "cnt s2 = (cnt (om_objs (st\<lparr>om_objs := s1\<rparr>)))(own q := 1)"
    obtain s3 where r: "om_Release vt f (st\<lparr>om_objs := s2\<rparr>) = st\<lparr>om_objs := s3\<rparr>" "cnt s3 = (cnt s2)(own f := cnt s2 (own f) - 1)"
      using Release_spec[OF p, of f "st\<lparr>om_objs := s2\<rparr>"] by auto
    have s3: "cnt s3 = (cnt (om_objs st))(own q := 1)" and z: "cnt (om_objs st) (own q) = 0"
      using a c r by (auto simp: fun_eq_iff)
    have "cnt (om_objs (st\<lparr>om_objs := s3\<rparr>)) (own q) = 1" using s3 by simp
    note fin = finish_instance_spec[OF p this, of iId ip]
    have cr: "NkOMCreateInstance behind vt clsid ctrl iId ip st = finish_instance vt q iId ip (st\<lparr>om_objs := s3\<rparr>)"
      using c(1) r(1) ini qf by (simp add: NkOMCreateInstance_def)
    have dead: "(cnt s3)(own q := 0) = cnt (om_objs st)" using s3 z by (auto simp: fun_eq_iff)
    from fin show ?thesis
    proof
      assume "\<exists>qa s. finish_instance vt q iId ip (st\<lparr>om_objs := s3\<rparr>) = Done (NkErr_Ok, Some qa, st\<lparr>om_objs := s3, om_objs := s\<rparr>)
        \<and> own qa = own q \<and> cnt s = cnt (om_objs (st\<lparr>om_objs := s3\<rparr>))"
      then obtain qa s where "NkOMCreateInstance behind vt clsid ctrl iId ip st = Done (NkErr_Ok, Some qa, st\<lparr>om_objs := s\<rparr>)"
        "own qa = own q" "cnt s = cnt s3" unfolding cr by auto
      then show ?thesis using z s3 by metis
    next
      assume "\<exists>ec s. ec \<noteq> NkErr_Ok \<and> finish_instance vt q iId ip (st\<lparr>om_objs := s3\<rparr>) = Done (ec, None, st\<lparr>om_objs := s3, om_objs := s\<rparr>)
        \<and> cnt s = (cnt (om_objs (st\<lparr>om_objs := s3\<rparr>)))(own q := 0)"
      then show ?thesis unfolding cr using dead by auto
    qed
  qed
qed


subsection \<open>Installing and removing factories\<close>

definition class_map :: "'o \<Rightarrow> (64 word \<times> NkUuid) list \<Rightarrow> key_ident \<rightharpoonup> 'o option" where
  "class_map f cs = map_of (map (\<lambda>c. (IdUuid (snd c), Some f)) cs)"

lemma class_map_simps [simp]:
  "class_map f [] = Map.empty" "class_map f ((p, u) # cs) = (class_map f cs)(IdUuid u \<mapsto> Some f)"
  by (simp_all add: class_map_def)

lemma class_map_apply: "class_map f cs x = (if x \<in> (\<lambda>c. IdUuid (snd c)) ` set cs then Some (Some f) else None)"
  by (induction cs) (auto, force)

text \<open>The first registration of a class wins; every class of the factory takes a reference on it,
  registered before or not.\<close>

lemma install_loop_spec:
  assumes p: "nkom_protocol vt cnt own" and reg: "reg_ok st ht"
    and cs: "list_all (\<lambda>c. length (snd c) = 16) cs"
    and room: "ht_elemCount ht + length cs \<le> min (ht_maxCap (ht_htProps ht)) (2 ^ 30)"
  shows "\<exists>ht' s. install_loop (\<lambda>_. True) behind vt f i cs st = Done (NkErr_Ok, st\<lparr>om_classReg := Some ht', om_objs := s\<rparr>)
    \<and> reg_ok (st\<lparr>om_classReg := Some ht', om_objs := s\<rparr>) ht' \<and> ht_map ht' = class_map f cs ++ ht_map ht
    \<and> cnt s = (cnt (om_objs st))(own f := cnt (om_objs st) (own f) + int (length cs))"
  using reg cs room
proof (induction cs arbitrary: st ht i)
  case Nil
  then show ?case by (intro exI[of _ ht] exI[of _ "om_objs st"]) (auto simp: reg_ok_def)
next
  case (Cons c cs)
  obtain a u where c: "c = (a, u)" by fastforce
  let ?p = "\<lparr>m_keyVal = mp_uuidKey a u, mp_valuePtr = Some f\<rparr>"
  have rm: "ht_room (\<lambda>_. True) ht (Suc (ht_elemCount ht))" using Cons.prems(3) by (intro ht_room_granted) auto
  obtain ht1 where h: "NkHashtableInsert (om_htctx st) (\<lambda>_. True) ht ?p = Done (NkErr_Ok, ht1)" "ht_wf ht1"
    "ht_htProps ht1 = ht_htProps ht" "ht_elemCount ht1 \<le> Suc (ht_elemCount ht)"
    "ht_map ht1 = (if IdUuid u \<in> dom (ht_map ht) then ht_map ht else (ht_map ht)(IdUuid u \<mapsto> Some f))"
    using NkHashtableInsert_spec[of ht "om_htctx st" "\<lambda>_. True" ?p] rm Cons.prems(1,2) c by (auto simp: reg_ok_def)
  obtain s1 where a: "om_AddRef vt f (st\<lparr>om_classReg := Some ht1\<rparr>) = st\<lparr>om_classReg := Some ht1, om_objs := s1\<rparr>"
    "cnt s1 = (cnt (om_objs st))(own f := cnt (om_objs st) (own f) + 1)"
    using AddRef_spec[OF p, of f "st\<lparr>om_classReg := Some ht1\<rparr>"] by auto
  have reg1: "reg_ok (st\<lparr>om_classReg := Some ht1, om_objs := s1\<rparr>) ht1"
    using Cons.prems(1) h by (auto simp: reg_ok_def ht_limits_def)
  have "\<exists>ht2 s2. install_loop (\<lambda>_. True) behind vt f (Suc i) cs (st\<lparr>om_classReg := Some ht1, om_objs := s1\<rparr>)
      = Done (NkErr_Ok, st\<lparr>om_classReg := Some ht2, om_objs := s2\<rparr>)
    \<and> reg_ok (st\<lparr>om_classReg := Some ht2, om_objs := s2\<rparr>) ht2 \<and> ht_map ht2 = class_map f cs ++ ht_map ht1
    \<and> cnt s2 = (cnt s1)(own f := cnt s1 (own f) + int (length cs))"
    using Cons.IH[OF reg1, of "Suc i"] Cons.prems(2,3) h(3,4) by (simp add: c fun_upd_def)
  then obtain ht2 s2 where r: "install_loop (\<lambda>_. True) behind vt f (Suc i) cs (st\<lparr>om_classReg := Some ht1, om_objs := s1\<rparr>)
      = Done (NkErr_Ok, st\<lparr>om_classReg := Some ht2, om_objs := s2\<rparr>)"
    "reg_ok (st\<lparr>om_classReg := Some ht2, om_objs := s2\<rparr>) ht2" "ht_map ht2 = class_map f cs ++ ht_map ht1"
    "cnt s2 = (cnt s1)(own f := cnt s1 (own f) + int (length cs))" by blast
  have m: "ht_map ht2 = class_map f (c # cs) ++ ht_map ht"
    using r(3) h(5) by (auto simp: c fun_eq_iff map_add_def split: option.splits)
  have "install_loop (\<lambda>_. True) behind vt f i (c # cs) st = Done (NkErr_Ok, st\<lparr>om_classReg := Some ht2, om_objs := s2\<rparr>)"
    using r(1) h(1) a(1) Cons.prems(1) by (simp add: c the_reg_def reg_ok_def)
  moreover have "cnt s2 = (cnt (om_objs st))(own f := cnt (om_objs st) (own f) + int (length (c # cs)))"
    using r(4) a(2) by (auto simp: fun_eq_iff)
  ultimately show ?case using r(2) m by blast
qed

text \<open>Erasing a class releases its factory once through the free function and once more in the loop.\<close>

lemma uninstall_loop_spec:
  assumes p: "nkom_protocol vt cnt own" and reg: "reg_ok st ht" and b: "length behind = 8"
    and cs: "list_all (\<lambda>c. length (snd c) = 16) cs" "distinct (map snd cs)"
    and mine: "list_all (\<lambda>c. ht_map ht (IdUuid (snd c)) = Some (Some f)) cs"
  shows "\<exists>ht' s. uninstall_loop behind vt f cs st = Done (st\<lparr>om_classReg := Some ht', om_objs := s\<rparr>)
    \<and> reg_ok (st\<lparr>om_classReg := Some ht', om_objs := s\<rparr>) ht' \<and> ht_map ht' = ht_map ht |` (- (\<lambda>c. IdUuid (snd c)) ` set cs)
    \<and> cnt s = (cnt (om_objs st))(own f := cnt (om_objs st) (own f) - 2 * int (length cs))"
  using reg cs mine
proof (induction cs arbitrary: st ht)
  case Nil
  then show ?case by (intro exI[of _ ht] exI[of _ "om_objs st"]) (auto simp: reg_ok_def restrict_map_def)
next
  case (Cons c cs)
  obtain a u where c: "c = (a, u)" by fastforce
  have pre: "(ht_wf ht \<and> cx_ok (om_htctx st) \<and> ht_limits ht \<and> length behind = 8) \<and> ht_fnElemFree (ht_htProps ht)"
    "key_valid (ht_keyType (ht_htProps ht)) (mp_uuidKey a u)"
    using Cons.prems b c by (auto simp: reg_ok_def)
  obtain ec lg ht1 where h: "NkHashtableErase (om_htctx st) ht behind (mp_uuidKey a u) = Done (ec, lg, ht1)"
    "ht_wf ht1" "ht_htProps ht1 = ht_htProps ht" "ht_map ht1 = (ht_map ht)(IdUuid u := None)"
    using NkHashtableErase_spec[of ht "mp_uuidKey a u" behind "om_htctx st"] pre by auto
  have lg: "map snd lg = [Some f]" using ht_owner.erase_frees[OF pre h(1)] Cons.prems(4) c by simp
  obtain s1 where a1: "fold (OM_DestroyClsFacFn vt) lg (st\<lparr>om_classReg := Some ht1\<rparr>) = st\<lparr>om_classReg := Some ht1, om_objs := s1\<rparr>"
    "cnt s1 = (cnt (om_objs st))(own f := cnt (om_objs st) (own f) - 1)"
    using Release_spec[OF p, of f "st\<lparr>om_classReg := Some ht1\<rparr>"] lg
    by (cases lg) (auto simp: OM_DestroyClsFacFn_def)
  obtain s2 where a2: "om_Release vt f (st\<lparr>om_classReg := Some ht1, om_objs := s1\<rparr>) = st\<lparr>om_classReg := Some ht1, om_objs := s2\<rparr>"
    "cnt s2 = (cnt s1)(own f := cnt s1 (own f) - 1)"
    using Release_spec[OF p, of f "st\<lparr>om_classReg := Some ht1, om_objs := s1\<rparr>"] by auto
  have reg1: "reg_ok (st\<lparr>om_classReg := Some ht1, om_objs := s2\<rparr>) ht1"
    using Cons.prems(1) h by (auto simp: reg_ok_def ht_limits_def)
  have mine1: "list_all (\<lambda>c. ht_map ht1 (IdUuid (snd c)) = Some (Some f)) cs"
    using Cons.prems(3,4) h(4) c by (fastforce simp: list_all_iff)
  have "\<exists>ht2 s3. uninstall_loop behind vt f cs (st\<lparr>om_classReg := Some ht1, om_objs := s2\<rparr>)
      = Done (st\<lparr>om_classReg := Some ht2, om_objs := s3\<rparr>)
    \<and> reg_ok (st\<lparr>om_classReg := Some ht2, om_objs := s3\<rparr>) ht2
    \<and> ht_map ht2 = ht_map ht1 |` (- (\<lambda>c. IdUuid (snd c)) ` set cs)
    \<and> cnt s3 = (cnt s2)(own f := cnt s2 (own f) - 2 * int (length cs))"
    using Cons.IH[OF reg1 _ _ mine1] Cons.prems(2,3) by (simp add: fun_upd_def)
  then obtain ht2 s3 where r: "uninstall_loop behind vt f cs (st\<lparr>om_classReg := Some ht1, om_objs := s2\<rparr>)
      = Done (st\<lparr>om_classReg := Some ht2, om_objs := s3\<rparr>)"
    "reg_ok (st\<lparr>om_classReg := Some ht2, om_objs := s3\<rparr>) ht2"
    "ht_map ht2 = ht_map ht1 |` (- (\<lambda>c. IdUuid (snd c)) ` set cs)"
    "cnt s3 = (cnt s2)(own f := cnt s2 (own f) - 2 * int (length cs))" by blast
  have "uninstall_loop behind vt f (c # cs) st = Done (st\<lparr>om_classReg := Some ht2, om_objs := s3\<rparr>)"
    using r(1) h(1) a1(1) a2(1) Cons.prems(1) by (simp add: c the_reg_def reg_ok_def)
  moreover have "ht_map ht2 = ht_map ht |` (- (\<lambda>c. IdUuid (snd c)) ` set (c # cs))"
    using r(3) h(4) by (auto simp: c fun_eq_iff restrict_map_def)
  moreover have "cnt s3 = (cnt (om_objs st))(own f := cnt (om_objs st) (own f) - 2 * int (length (c # cs)))"
    using r(4) a1(2) a2(2) by (auto simp: fun_eq_iff)
  ultimately show ?case using r(2) by blast
qed


subsection \<open>Properties\<close>

text \<open>The classes the witnesses below run on.  Objects are numbered and their reference counts are
  kept in a map; object 1 is a static factory of one class, its instances are numbered from 10 on.\<close>

definition bump :: "int \<Rightarrow> nat \<Rightarrow> (nat, nat \<Rightarrow> int) om_context \<Rightarrow> (nat, nat \<Rightarrow> int) om_context" where
  "bump d r st = st\<lparr>om_objs := (om_objs st)(r := om_objs st r + d)\<rparr>"

definition sample_clsid :: "64 word \<times> NkUuid" where
  "sample_clsid = (4096, replicate 16 7)"

definition sample_om_vt :: "(nat, unit, nat \<Rightarrow> int) om_vt" where
  "sample_om_vt = \<lparr>om_QueryInterface = (\<lambda>r iid st. (NkErr_Ok, Some r, bump 1 r st)),
     om_AddRef = bump 1, om_Release = bump (- 1), om_Initialize = (\<lambda>r ip st. (NkErr_Ok, st)),
     om_QueryInstantiableClasses = (\<lambda>r st. ([sample_clsid], st)),
     om_CreateInstance = (\<lambda>r cl ctrl st.
       if om_objs st 10 = 0 \<and> r \<noteq> 10 then (NkErr_Ok, Some 10, bump 1 10 st) else (NkErr_MemoryAllocation, None, st))\<rparr>"

definition sample_registry :: "nat NkHashtable" where
  "sample_registry = \<lparr>ht_elemCount = 0, ht_currCap = 16, ht_htProps = om_props, ht_elemArray = replicate 16 zero_slot\<rparr>"

definition sample_om :: "(nat, nat \<Rightarrow> int) om_context" where
  "sample_om = \<lparr>om_isInitialized = True, om_isDebugEnabled = False, om_classReg = Some sample_registry,
     om_htctx = \<lparr>m_hashSeed = 1, ptr_bytes = (\<lambda>_. replicate 8 0)\<rparr>, om_rnd = \<lparr>s0 = 1, s1 = 2, s2 = 3, s3 = 4\<rparr>,
     om_objs = (\<lambda>r. if r = 1 then 1 else 0)\<rparr>"

definition sample_registered :: "nat NkHashtable" where
  "sample_registered = sample_registry\<lparr>ht_elemCount := 1, ht_elemArray := replicate 3 zero_slot @
     \<lparr>m_regPair = \<lparr>m_keyVal = mp_uuidKey (fst sample_clsid) (snd sample_clsid), mp_valuePtr = Some 1\<rparr>, m_isUsed = True, m_offset = 0\<rparr>
     # replicate 12 zero_slot\<rparr>"

lemma sample_protocol [simp]: "nkom_protocol sample_om_vt (\<lambda>s. s) (\<lambda>r. r)"
  by (auto simp: nkom_protocol_def sample_om_vt_def bump_def)

lemma sample_om_facts [simp]:
  "reg_ok sample_om sample_registry" "ht_elemCount sample_registry = 0"
  "ht_htProps sample_registry = om_props" "ht_maxCap om_props = UINT32_MAX" "ht_map sample_registry = Map.empty"
  "om_objs sample_om = (\<lambda>r. if r = 1 then 1 else 0)" "om_QueryInstantiableClasses sample_om_vt r st = ([sample_clsid], st)"
  "length (snd sample_clsid) = 16"
  by (auto simp: sample_om_vt_def bump_def reg_ok_def sample_om_def sample_registry_def om_props_def
      ht_wf_def ht_pairs_def cx_ok_def ht_limits_def ht_map_def sample_clsid_def fun_eq_iff)

lemma sample_registered_facts [simp]:
  "reg_ok (sample_om\<lparr>om_classReg := Some sample_registered\<rparr>) sample_registered"
  "ht_map sample_registered = [IdUuid (replicate 16 7) \<mapsto> Some 1]"
  by (auto simp: reg_ok_def sample_om_def sample_registered_def sample_registry_def om_props_def ht_wf_def ht_pairs_def
      cx_ok_def ht_limits_def ht_map_def sample_clsid_def pair_kv_def)





text \<open>Removing a factory.  Removing a factory that has registered all its classes takes exactly these
  classes out of the registry, but it releases the factory twice per class and once more at the
  end: installing and removing a factory with \<open>n\<close> classes gives up \<open>n + 1\<close> references more than it takes.\<close>

theorem nkom_install_uninstall_over_releases:
  assumes "nkom_protocol vt cnt own" "reg_ok st ht" "\<forall>st. om_QueryInstantiableClasses vt f st = (cs, st)"
    "list_all (\<lambda>c. length (snd c) = 16) cs" "distinct (map snd cs)"
    "ht_elemCount ht + length cs \<le> min (ht_maxCap (ht_htProps ht)) (2 ^ 30)"
    "list_all (\<lambda>c. IdUuid (snd c) \<notin> dom (ht_map ht)) cs" "length behind = 8"
  shows "\<exists>st1 st2 ht2. NkOMInstallClassFactory (\<lambda>_. True) behind vt f st = Done (NkErr_Ok, st1)
    \<and> NkOMUninstallClassFactory behind vt f st1 = Done (NkErr_Ok, st2)
    \<and> reg_ok st2 ht2 \<and> ht_map ht2 = ht_map ht
    \<and> cnt (om_objs st2) = (cnt (om_objs st))(own f := cnt (om_objs st) (own f) - int (length cs + 1))"
proof -
  obtain ht1 s1 where i: "install_loop (\<lambda>_. True) behind vt f 0 cs st = Done (NkErr_Ok, st\<lparr>om_classReg := Some ht1, om_objs := s1\<rparr>)"
    "reg_ok (st\<lparr>om_classReg := Some ht1, om_objs := s1\<rparr>) ht1" "ht_map ht1 = class_map f cs ++ ht_map ht"
    "cnt s1 = (cnt (om_objs st))(own f := cnt (om_objs st) (own f) + int (length cs))"
    using install_loop_spec[OF assms(1,2,4,6), of behind f 0] by blast
  let ?st1 = "st\<lparr>om_classReg := Some ht1, om_objs := s1\<rparr>"
  note cm = class_map_apply[of f cs]
  have mine: "list_all (\<lambda>c. ht_map ht1 (IdUuid (snd c)) = Some (Some f)) cs"
    using assms(7) i(3) by (auto simp: list_all_iff cm map_add_def dom_def)
  obtain ht2 s2 where u: "uninstall_loop behind vt f cs ?st1 = Done (?st1\<lparr>om_classReg := Some ht2, om_objs := s2\<rparr>)"
    "reg_ok (?st1\<lparr>om_classReg := Some ht2, om_objs := s2\<rparr>) ht2" "ht_map ht2 = ht_map ht1 |` (- (\<lambda>c. IdUuid (snd c)) ` set cs)"
    "cnt s2 = (cnt (om_objs ?st1))(own f := cnt (om_objs ?st1) (own f) - 2 * int (length cs))"
    using uninstall_loop_spec[OF assms(1) i(2) assms(8,4,5) mine] by blast
  obtain s3 where r: "om_Release vt f (?st1\<lparr>om_classReg := Some ht2, om_objs := s2\<rparr>) = st\<lparr>om_classReg := Some ht2, om_objs := s3\<rparr>"
    "cnt s3 = (cnt s2)(own f := cnt s2 (own f) - 1)"
    using Release_spec[OF assms(1), of f "?st1\<lparr>om_classReg := Some ht2, om_objs := s2\<rparr>"] by auto
  have "ht_map ht2 = ht_map ht"
    unfolding u(3) i(3) using assms(7)
    by (intro ext) (auto simp: restrict_map_def map_add_def cm list_all_iff dom_def split: option.splits)
  moreover have "cnt s3 = (cnt (om_objs st))(own f := cnt (om_objs st) (own f) - int (length cs + 1))"
    using r(2) u(4) i(4) by (auto simp: fun_eq_iff)
  moreover have "reg_ok (st\<lparr>om_classReg := Some ht2, om_objs := s3\<rparr>) ht2" using u(2) by (simp add: reg_ok_def)
  moreover have ini: "om_isInitialized st" using assms(2) by (simp add: reg_ok_def)
  ultimately show ?thesis
    using i(1) u(1) r(1) assms(3)
    by (intro exI[of _ ?st1] exI[of _ "st\<lparr>om_classReg := Some ht2, om_objs := s3\<rparr>"] exI[of _ ht2])
      (simp add: NkOMInstallClassFactory_def NkOMUninstallClassFactory_def)
qed

theorem nkom_install_uninstall_over_releases_witness:
  "\<exists>st1 st2. NkOMInstallClassFactory (\<lambda>_. True) (replicate 8 0) sample_om_vt 1 sample_om = Done (NkErr_Ok, st1)
    \<and> NkOMUninstallClassFactory (replicate 8 0) sample_om_vt 1 st1 = Done (NkErr_Ok, st2) \<and> om_objs st2 1 = - 1"
  using nkom_install_uninstall_over_releases[of sample_om_vt "\<lambda>s. s" "\<lambda>r. r" sample_om sample_registry 1 "[sample_clsid]" "replicate 8 0"]
  by auto

end
