(* ===== verification/NkSort.thy ===== *)
theory NkSort
  imports NkPrelude "HOL-Library.Multiset"
begin

section \<open>Sorting (src/Noriko/sort.c)\<close>

text \<open>
  \<open>__NkInt_QuicksortSplit\<close> and \<open>NkQuicksortPointers\<close>.  The array is the list of its pointers and
  the comparison callback is a function to \<open>int\<close>.  The partition loop ends only if the callback
  is consistent, so the loops are partial functions and their termination is a theorem.
\<close>

function qs_up :: "('a \<Rightarrow> 'a \<Rightarrow> int) \<Rightarrow> 'a list \<Rightarrow> 'a \<Rightarrow> nat \<Rightarrow> nat \<Rightarrow> nat" where
  "qs_up fnPred a pivot i j =
     (if i < j \<and> fnPred (a ! i) pivot \<le> 0 then qs_up fnPred a pivot (Suc i) j else i)"
  by pat_completeness auto
termination
  by (relation "measure (\<lambda>(f, a, p, i, j). j - i)") auto

fun qs_down :: "('a \<Rightarrow> 'a \<Rightarrow> int) \<Rightarrow> 'a list \<Rightarrow> 'a \<Rightarrow> nat \<Rightarrow> nat \<Rightarrow> nat" where
  "qs_down fnPred a pivot i j =
     (if i < j \<and> 0 < fnPred (a ! j) pivot then qs_down fnPred a pivot i (j - 1) else j)"

definition swap_ptrs :: "'a list \<Rightarrow> nat \<Rightarrow> nat \<Rightarrow> 'a list" where
  "swap_ptrs a i j = a[i := a ! j, j := a ! i]"

partial_function (option) qs_loop ::
    "('a \<Rightarrow> 'a \<Rightarrow> int) \<Rightarrow> 'a \<Rightarrow> 'a list \<Rightarrow> nat \<Rightarrow> nat \<Rightarrow> ('a list \<times> nat) option" where
  "qs_loop fnPred pivot a i j =
     (if i < j then
        let i' = qs_up fnPred a pivot i j;
            j' = qs_down fnPred a pivot i' j
        in qs_loop fnPred pivot
             (if 0 < fnPred (a ! i') (a ! j') then swap_ptrs a i' j' else a) i' j'
      else Some (a, i))"

definition QuicksortSplit ::
    "('a \<Rightarrow> 'a \<Rightarrow> int) \<Rightarrow> 'a list \<Rightarrow> nat \<Rightarrow> nat \<Rightarrow> ('a list \<times> nat) outcome option" where
  "QuicksortSplit fnPred a left right =
     (if right < length a then
        (case qs_loop fnPred (a ! right) a left (right - 1) of
           None \<Rightarrow> None
         | Some (a', i) \<Rightarrow>
             if 0 < fnPred (a' ! i) (a ! right)
             then Some (Done (swap_ptrs a' i right, i))
             else Some (Done (a', right)))
      else Some Undef)"

partial_function (option) NkQuicksortPointers ::
    "('a \<Rightarrow> 'a \<Rightarrow> int) \<Rightarrow> 'a list \<Rightarrow> nat \<Rightarrow> nat \<Rightarrow> (NkErrorCode \<times> 'a list) outcome option" where
  "NkQuicksortPointers fnPred a sInd eInd =
     (if sub64 eInd sInd < 2 then Some (Done (NkErr_NoOperation, a))
      else if sInd < eInd then
        lbind (QuicksortSplit fnPred a sInd eInd) (\<lambda>r.
        lbind (NkQuicksortPointers fnPred (fst r) sInd (sub64 (snd r) 1)) (\<lambda>r1.
        lbind (NkQuicksortPointers fnPred (snd r1) (wrap64 (snd r + 1)) eInd) (\<lambda>r2.
        Some (Done (NkErr_Ok, snd r2)))))
      else Some (Done (NkErr_InvalidRange, a)))"

declare qs_up.simps [simp del] qs_down.simps [simp del]

subsection \<open>The partition loop\<close>

text \<open>A consistent comparison callback is a total preorder.\<close>

definition consistent_pred :: "('a \<Rightarrow> 'a \<Rightarrow> int) \<Rightarrow> bool" where
  "consistent_pred f \<longleftrightarrow>
     (\<forall>x y. f x y \<le> 0 \<or> f y x \<le> 0) \<and> (\<forall>x y z. f x y \<le> 0 \<longrightarrow> f y z \<le> 0 \<longrightarrow> f x z \<le> 0)"

lemma consistent_predD:
  assumes "consistent_pred f"
  shows consistent_trans: "f x y \<le> 0 \<Longrightarrow> f y z \<le> 0 \<Longrightarrow> f x z \<le> 0"
    and consistent_total: "0 < f x y \<Longrightarrow> f y x \<le> 0"
    and consistent_cross: "0 < f x p \<Longrightarrow> f y p \<le> 0 \<Longrightarrow> 0 < f x y"
proof -
  note def = assms[unfolded consistent_pred_def]
  show "f x y \<le> 0 \<Longrightarrow> f y z \<le> 0 \<Longrightarrow> f x z \<le> 0" using def by blast
  show "0 < f x y \<Longrightarrow> f y x \<le> 0" using def by (metis not_less)
  show "0 < f x p \<Longrightarrow> f y p \<le> 0 \<Longrightarrow> 0 < f x y" using def by (metis not_less)
qed

lemma qs_up_spec:
  assumes "i \<le> j"
  shows "i \<le> qs_up f a p i j \<and> qs_up f a p i j \<le> j
    \<and> (\<forall>k. i \<le> k \<and> k < qs_up f a p i j \<longrightarrow> f (a ! k) p \<le> 0)
    \<and> (qs_up f a p i j < j \<longrightarrow> 0 < f (a ! qs_up f a p i j) p)"
  using assms
proof (induction f a p i j rule: qs_up.induct)
  case (1 f a p i j)
  show ?case
  proof (cases "i < j \<and> f (a ! i) p \<le> 0")
    case True
    note IH = "1.IH"[OF True]
    have eq: "qs_up f a p i j = qs_up f a p (Suc i) j"
      using True by (simp add: qs_up.simps[of f a p i j])
    show ?thesis using IH True unfolding eq by (auto simp: Suc_le_eq nat_less_le)
  next
    case False
    then show ?thesis using "1.prems" by (auto simp: qs_up.simps[of f a p i j])
  qed
qed

lemma qs_down_spec:
  assumes "i \<le> j"
  shows "i \<le> qs_down f a p i j \<and> qs_down f a p i j \<le> j
    \<and> (\<forall>k. qs_down f a p i j < k \<and> k \<le> j \<longrightarrow> 0 < f (a ! k) p)
    \<and> (i < qs_down f a p i j \<longrightarrow> f (a ! qs_down f a p i j) p \<le> 0)"
  using assms
proof (induction f a p i j rule: qs_down.induct)
  case (1 f a p i j)
  show ?case
  proof (cases "i < j \<and> 0 < f (a ! j) p")
    case True
    then have le: "i \<le> j - 1" by linarith
    note IH = "1.IH"[OF True le]
    have eq: "qs_down f a p i j = qs_down f a p i (j - 1)"
      using True by (simp add: qs_down.simps[of f a p i j])
    have "0 < f (a ! k) p" if "qs_down f a p i (j - 1) < k" "k \<le> j" for k
      using IH True that by (cases "k = j") auto
    then show ?thesis using IH unfolding eq by auto
  next
    case False
    then show ?thesis using "1.prems" by (auto simp: qs_down.simps[of f a p i j])
  qed
qed

text \<open>The array between two calls: same length, same multiset, untouched outside the range.\<close>

definition perm_on :: "nat \<Rightarrow> nat \<Rightarrow> 'a list \<Rightarrow> 'a list \<Rightarrow> bool" where
  "perm_on l r a b \<longleftrightarrow> length b = length a \<and> mset b = mset a \<and>
     (\<forall>k < length a. k < l \<or> r < k \<longrightarrow> b ! k = a ! k)"

lemma perm_on_refl [simp]: "perm_on l r a a"
  by (simp add: perm_on_def)

lemma perm_on_trans: "perm_on l r a b \<Longrightarrow> perm_on l r b c \<Longrightarrow> perm_on l r a c"
  by (simp add: perm_on_def)

lemma perm_on_mono: "perm_on l r a b \<Longrightarrow> l' \<le> l \<Longrightarrow> r \<le> r' \<Longrightarrow> perm_on l' r' a b"
  by (auto simp: perm_on_def)

lemma perm_on_length: "perm_on l r a b \<Longrightarrow> length b = length a"
  by (simp add: perm_on_def)

lemma perm_on_outside: "perm_on l r a b \<Longrightarrow> k < length a \<Longrightarrow> k < l \<or> r < k \<Longrightarrow> b ! k = a ! k"
  by (auto simp: perm_on_def)

lemma perm_on_swap:
  "i < length a \<Longrightarrow> j < length a \<Longrightarrow> l \<le> i \<Longrightarrow> i \<le> r \<Longrightarrow> l \<le> j \<Longrightarrow> j \<le> r
   \<Longrightarrow> perm_on l r a (swap_ptrs a i j)"
  using mset_swap[of j a i] by (auto simp: perm_on_def swap_ptrs_def nth_list_update)

lemma perm_on_inside:
  assumes "perm_on l r a b" "r < length a" "l \<le> k" "k \<le> r"
  shows "\<exists>m. l \<le> m \<and> m \<le> r \<and> b ! k = a ! m"
proof -
  let ?n = "Suc r - l"
  have len: "length b = length a" using assms(1) by (rule perm_on_length)
  have pre: "take l b = take l a"
    using assms len by (intro nth_equalityI) (auto simp: perm_on_outside)
  have suf: "drop (Suc r) b = drop (Suc r) a"
    using assms len by (intro nth_equalityI) (auto simp: perm_on_outside)
  have split: "xs = take l xs @ take ?n (drop l xs) @ drop (Suc r) xs" for xs :: "'a list"
  proof -
    have "drop (Suc r) xs = drop ?n (drop l xs)" using assms by simp
    then show ?thesis by (metis append_take_drop_id)
  qed
  have "mset b = mset a" using assms(1) by (simp add: perm_on_def)
  then have "mset (take l b @ take ?n (drop l b) @ drop (Suc r) b)
      = mset (take l a @ take ?n (drop l a) @ drop (Suc r) a)"
    using split[of a] split[of b] by simp
  then have "mset (take ?n (drop l b)) = mset (take ?n (drop l a))"
    by (simp add: pre suf)
  then have set_eq: "set (take ?n (drop l b)) = set (take ?n (drop l a))"
    by (rule mset_eq_setD)
  have "b ! k = take ?n (drop l b) ! (k - l)" using assms len by simp
  then have "b ! k \<in> set (take ?n (drop l b))"
    using assms len by (metis (no_types, lifting) diff_less_mono le_imp_less_Suc length_drop
        length_take less_diff_conv min_less_iff_conj nth_mem le_add_diff_inverse2 le_less_trans)
  then have "b ! k \<in> set (take ?n (drop l a))" by (simp add: set_eq)
  then obtain m where m: "m < ?n" "m < length a - l" "take ?n (drop l a) ! m = b ! k"
    by (auto simp: in_set_conv_nth)
  then show ?thesis using assms by (intro exI[of _ "l + m"]) auto
qed

text \<open>What the loop keeps: everything left of \<open>i\<close> is not greater than the pivot, everything right
  of \<open>j\<close> is greater, and so is the element at \<open>j\<close> once \<open>j\<close> has moved.\<close>

definition qs_inv :: "('a \<Rightarrow> 'a \<Rightarrow> int) \<Rightarrow> 'a \<Rightarrow> nat \<Rightarrow> nat \<Rightarrow> 'a list \<Rightarrow> nat \<Rightarrow> nat \<Rightarrow> bool" where
  "qs_inv f p l r a i j \<longleftrightarrow> l \<le> i \<and> i \<le> j \<and> j < r \<and> r < length a
     \<and> (\<forall>k. l \<le> k \<and> k < i \<longrightarrow> f (a ! k) p \<le> 0)
     \<and> (\<forall>k. j < k \<and> k < r \<longrightarrow> 0 < f (a ! k) p)
     \<and> (Suc j < r \<longrightarrow> 0 < f (a ! j) p)"

lemma qs_step_inv:
  assumes f: "consistent_pred f" and inv: "qs_inv f p l r a i j" and ij: "i < j"
    and i': "i' = qs_up f a p i j" and j': "j' = qs_down f a p i' j"
    and a': "a' = (if 0 < f (a ! i') (a ! j') then swap_ptrs a i' j' else a)"
  shows "qs_inv f p l r a' i' j'" "perm_on l (r - 1) a a'" "i \<le> i'" "i' \<le> j'" "j' \<le> j"
    "i' < j' \<Longrightarrow> f (a' ! i') p \<le> 0" "i' < j' \<Longrightarrow> i' = i \<Longrightarrow> 0 < f (a ! i) p"
    "i' < j' \<Longrightarrow> j' = j \<Longrightarrow> f (a ! j) p \<le> 0"
proof -
  have up: "i \<le> i'" "i' \<le> j" "\<And>k. i \<le> k \<Longrightarrow> k < i' \<Longrightarrow> f (a ! k) p \<le> 0"
    "i' < j \<Longrightarrow> 0 < f (a ! i') p"
    using qs_up_spec[of i j f a p] ij unfolding i' by auto
  have down: "i' \<le> j'" "j' \<le> j" "\<And>k. j' < k \<Longrightarrow> k \<le> j \<Longrightarrow> 0 < f (a ! k) p"
    "i' < j' \<Longrightarrow> f (a ! j') p \<le> 0"
    using qs_down_spec[of i' j f a p] up(2) unfolding j' by auto
  note inv' = inv[unfolded qs_inv_def]
  have left: "f (a ! k) p \<le> 0" if "l \<le> k" "k < i'" for k
    using inv' up(3)[of k] that by (cases "k < i") auto
  have right: "0 < f (a ! k) p" if "j' < k" "k < r" for k
    using inv' down(3)[of k] that by (cases "k \<le> j") auto
  show "i \<le> i'" "i' \<le> j'" "j' \<le> j" using up down by auto
  show "i' < j' \<Longrightarrow> i' = i \<Longrightarrow> 0 < f (a ! i) p" using up down by auto
  show "i' < j' \<Longrightarrow> j' = j \<Longrightarrow> f (a ! j) p \<le> 0" using down by auto
  consider (less) "i' < j'" | (eq) "i' = j'" using down by linarith
  then have "qs_inv f p l r a' i' j' \<and> perm_on l (r - 1) a a' \<and> (i' < j' \<longrightarrow> f (a' ! i') p \<le> 0)"
  proof cases
    case less
    then have gt: "0 < f (a ! i') p" and le: "f (a ! j') p \<le> 0" using up down by auto
    have "0 < f (a ! i') (a ! j')" using consistent_cross[OF f gt le] .
    then have a'eq: "a' = swap_ptrs a i' j'" by (simp add: a')
    have nth: "a' ! k = (if k = i' then a ! j' else if k = j' then a ! i' else a ! k)" for k
      using inv' up down less by (auto simp: a'eq swap_ptrs_def nth_list_update)
    have "perm_on l (r - 1) a a'"
      unfolding a'eq using inv' up down by (intro perm_on_swap) auto
    moreover have "qs_inv f p l r a' i' j'"
      using inv' up down less left right gt le by (auto simp: qs_inv_def nth a'eq swap_ptrs_def)
    ultimately show ?thesis using le less by (simp add: nth)
  next
    case eq
    then have "a' = a" by (simp add: a' swap_ptrs_def)
    moreover have "0 < f (a ! j') p" if "Suc j' < r"
    proof (cases "i' < j")
      case True
      then show ?thesis using up eq by simp
    next
      case False
      then have "j' = j" using eq up by simp
      then show ?thesis using inv' that by simp
    qed
    ultimately show ?thesis
      using inv' up down eq left right by (auto simp: qs_inv_def)
  qed
  then show "qs_inv f p l r a' i' j'" "perm_on l (r - 1) a a'"
    "i' < j' \<Longrightarrow> f (a' ! i') p \<le> 0" by auto
qed

lemma qs_loop_spec:
  assumes f: "consistent_pred f" and "qs_inv f p l r a i j"
  shows "\<exists>a' i'. qs_loop f p a i j = Some (a', i') \<and> qs_inv f p l r a' i' i'
           \<and> perm_on l (r - 1) a a'"
  using assms(2)
proof (induction "2 * (j - i) + (if 0 < f (a ! i) p \<and> f (a ! j) p \<le> 0 then 1 else 0)"
    arbitrary: a i j rule: less_induct)
  case less
  show ?case
  proof (cases "i < j")
    case False
    then have "i = j" using less.prems by (simp add: qs_inv_def)
    then show ?thesis using less.prems by (simp add: qs_loop.simps[of f p a j j])
  next
    case True
    define i' where "i' = qs_up f a p i j"
    define j' where "j' = qs_down f a p i' j"
    define a1 where "a1 = (if 0 < f (a ! i') (a ! j') then swap_ptrs a i' j' else a)"
    note step = qs_step_inv[OF f less.prems True i'_def j'_def a1_def]
    have eq: "qs_loop f p a i j = qs_loop f p a1 i' j'"
      using True by (simp add: qs_loop.simps[of f p a i j] Let_def i'_def j'_def a1_def)
    have "2 * (j' - i') + (if 0 < f (a1 ! i') p \<and> f (a1 ! j') p \<le> 0 then 1 else 0)
        < 2 * (j - i) + (if 0 < f (a ! i) p \<and> f (a ! j) p \<le> 0 then 1 else 0)"
    proof (cases "i' < j'")
      case lt: True
      then show ?thesis using step(3-8) by (cases "i' = i \<and> j' = j") auto
    next
      case False
      then show ?thesis using step(3-5) True by auto
    qed
    from less.hyps[OF this step(1)] show ?thesis
      unfolding eq using step(2) by (blast intro: perm_on_trans)
  qed
qed

subsection \<open>The split\<close>

lemma QuicksortSplit_spec:
  assumes f: "consistent_pred f" and lr: "left < right" and len: "right < length a"
  shows "\<exists>a' s. QuicksortSplit f a left right = Some (Done (a', s)) \<and> left \<le> s \<and> s \<le> right
    \<and> perm_on left right a a'
    \<and> (\<forall>k. left \<le> k \<and> k < s \<longrightarrow> f (a' ! k) (a' ! s) \<le> 0)
    \<and> (\<forall>k. s < k \<and> k \<le> right \<longrightarrow> f (a' ! s) (a' ! k) \<le> 0)"
proof -
  let ?p = "a ! right"
  have "qs_inv f ?p left right a left (right - 1)"
    using lr len by (auto simp: qs_inv_def)
  from qs_loop_spec[OF f this] obtain b i where
    run: "qs_loop f ?p a left (right - 1) = Some (b, i)" and
    inv: "qs_inv f ?p left right b i i" and perm: "perm_on left (right - 1) a b" by blast
  note inv' = inv[unfolded qs_inv_def]
  have blen: "length b = length a" using perm by (rule perm_on_length)
  have piv: "b ! right = ?p" using perm lr len by (intro perm_on_outside) auto
  have perm': "perm_on left right a b" using perm by (rule perm_on_mono) auto
  show ?thesis
  proof (cases "0 < f (b ! i) ?p")
    case True
    let ?c = "swap_ptrs b i right"
    have nth: "?c ! k = (if k = i then ?p else if k = right then b ! i else b ! k)" for k
      using inv' blen len by (auto simp: swap_ptrs_def nth_list_update piv)
    have "perm_on left right b ?c"
      using inv' blen len lr by (intro perm_on_swap) auto
    then have "perm_on left right a ?c" using perm' by (blast intro: perm_on_trans)
    moreover have "f ?p (?c ! k) \<le> 0" if "i < k" "k \<le> right" for k
      using that inv' True by (auto simp: nth intro: consistent_total[OF f])
    ultimately show ?thesis
      using run True inv' len by (auto simp: QuicksortSplit_def nth)
  next
    case False
    then have last: "\<not> Suc i < right" using inv' by auto
    have "f (b ! k) ?p \<le> 0" if "left \<le> k" "k < right" for k
      using that inv' last False by (cases "k = i") auto
    then show ?thesis
      using run False inv' len perm' lr piv by (auto simp: QuicksortSplit_def)
  qed
qed

subsection \<open>The whole sort\<close>

text \<open>Ranges of two elements are never sorted, so the result is ordered up to the order of
  neighbours: any two elements at distance two or more are in order.\<close>

definition near_sorted :: "('a \<Rightarrow> 'a \<Rightarrow> int) \<Rightarrow> 'a list \<Rightarrow> nat \<Rightarrow> nat \<Rightarrow> bool" where
  "near_sorted f a s e \<longleftrightarrow> (\<forall>i j. s \<le> i \<and> i + 2 \<le> j \<and> j \<le> e \<longrightarrow> f (a ! i) (a ! j) \<le> 0)"

lemma near_sorted_small: "e < s + 2 \<Longrightarrow> near_sorted f a s e"
  by (simp add: near_sorted_def)

lemma near_sorted_join:
  assumes f: "consistent_pred f"
    and lo: "near_sorted f a s (m - 1)" and hi: "near_sorted f a (Suc m) e"
    and below: "\<And>k. s \<le> k \<Longrightarrow> k < m \<Longrightarrow> f (a ! k) (a ! m) \<le> 0"
    and above: "\<And>k. m < k \<Longrightarrow> k \<le> e \<Longrightarrow> f (a ! m) (a ! k) \<le> 0"
  shows "near_sorted f a s e"
  unfolding near_sorted_def
proof (intro allI impI, elim conjE)
  fix i j assume ij: "s \<le> i" "i + 2 \<le> j" "j \<le> e"
  consider "j < m" | "m < i" | "i \<le> m" "m \<le> j" by linarith
  then show "f (a ! i) (a ! j) \<le> 0"
  proof cases
    case 1
    then show ?thesis using lo ij by (simp add: near_sorted_def)
  next
    case 2
    then show ?thesis using hi ij by (simp add: near_sorted_def)
  next
    case 3
    then show ?thesis
      using ij below[of i] above[of j] consistent_trans[OF f, of "a ! i" "a ! m" "a ! j"]
      by (cases "i = m"; cases "j = m") auto
  qed
qed

lemma NkQuicksort_oob:
  assumes "2 \<le> e" "e \<le> SIZE_MAX" "length a \<le> e"
  shows "NkQuicksortPointers f a 0 e = Some Undef"
proof -
  have "sub64 e 0 = e" using assms by (simp add: sub64_ge)
  then show ?thesis
    using assms by (simp add: NkQuicksortPointers.simps[of f a 0 e] QuicksortSplit_def)
qed

lemma NkQuicksort_small:
  assumes "e < s + 2" "s \<le> SIZE_MAX" "e \<le> SIZE_MAX"
  shows "\<exists>ec. NkQuicksortPointers f a s e = Some (Done (ec, a))"
proof (cases "s \<le> e")
  case True
  then have "sub64 e s < 2" using assms by (simp add: sub64_ge)
  then show ?thesis by (simp add: NkQuicksortPointers.simps[of f a s e])
next
  case False
  then show ?thesis by (simp add: NkQuicksortPointers.simps[of f a s e])
qed

lemma NkQuicksort_split:
  assumes "s + 2 \<le> e" "e \<le> SIZE_MAX"
  shows "NkQuicksortPointers f a s e =
     lbind (QuicksortSplit f a s e) (\<lambda>r.
     lbind (NkQuicksortPointers f (fst r) s (sub64 (snd r) 1)) (\<lambda>r1.
     lbind (NkQuicksortPointers f (snd r1) (wrap64 (snd r + 1)) e) (\<lambda>r2.
     Some (Done (NkErr_Ok, snd r2)))))"
proof -
  have "\<not> sub64 e s < 2" using assms by (simp add: sub64_ge)
  then show ?thesis using assms by (simp add: NkQuicksortPointers.simps[of f a s e])
qed

text \<open>What one call achieves, as a predicate over its result.\<close>

definition qs_result ::
    "('a \<Rightarrow> 'a \<Rightarrow> int) \<Rightarrow> 'a list \<Rightarrow> nat \<Rightarrow> nat \<Rightarrow> (NkErrorCode \<times> 'a list) outcome \<Rightarrow> bool" where
  "qs_result f a s e r \<longleftrightarrow> (r = Undef \<and> s = 0) \<or>
     (\<exists>ec a'. r = Done (ec, a') \<and> perm_on s e a a' \<and> near_sorted f a' s e)"

lemma qs_result_combine:
  assumes f: "consistent_pred f" and len: "e < length a" and m: "s \<le> m" "m \<le> e"
    and p0: "perm_on s e a b"
    and below: "\<And>k. s \<le> k \<Longrightarrow> k < m \<Longrightarrow> f (b ! k) (b ! m) \<le> 0"
    and above: "\<And>k. m < k \<Longrightarrow> k \<le> e \<Longrightarrow> f (b ! m) (b ! k) \<le> 0"
    and p1: "perm_on s (m - 1) b c" and n1: "near_sorted f c s (m - 1)"
    and p2: "perm_on (Suc m) e c d" and n2: "near_sorted f d (Suc m) e" and m0: "m \<noteq> 0"
  shows "perm_on s e a d" "near_sorted f d s e"
proof -
  have lens: "length b = length a" "length c = length a" "length d = length a"
    using p0 p1 p2 by (simp_all add: perm_on_length)
  have "perm_on s e b c" "perm_on s e c d"
    using p1 p2 m by (auto elim: perm_on_mono)
  then show "perm_on s e a d" using p0 by (blast intro: perm_on_trans)
  have c_hi: "c ! k = b ! k" if "m \<le> k" "k \<le> e" for k
    using that p1 m0 len lens by (intro perm_on_outside[OF p1]) auto
  have d_lo: "d ! k = c ! k" if "k \<le> m" for k
    using that p2 len lens m by (intro perm_on_outside[OF p2]) auto
  have lo: "f (d ! k) (d ! m) \<le> 0" if k: "s \<le> k" "k < m" for k
  proof -
    have "m - 1 < length b" "k \<le> m - 1" using k len lens m by linarith+
    then obtain k' where "s \<le> k'" "k' \<le> m - 1" "c ! k = b ! k'"
      using perm_on_inside[OF p1, of k] k by blast
    then show ?thesis using below[of k'] k c_hi[of m] d_lo m m0 by auto
  qed
  have hi: "f (d ! m) (d ! k) \<le> 0" if k: "m < k" "k \<le> e" for k
  proof -
    have "e < length c" "Suc m \<le> k" using k len lens by linarith+
    then obtain k' where "Suc m \<le> k'" "k' \<le> e" "d ! k = c ! k'"
      using perm_on_inside[OF p2, of k] k by blast
    then show ?thesis using above[of k'] c_hi[of m] c_hi[of k'] d_lo m by auto
  qed
  have "near_sorted f d s (m - 1)"
    unfolding near_sorted_def
  proof (intro allI impI, elim conjE)
    fix i j assume ij: "s \<le> i" "i + 2 \<le> j" "j \<le> m - 1"
    then have "i \<le> m" "j \<le> m" by linarith+
    then show "f (d ! i) (d ! j) \<le> 0" using n1 ij by (simp add: near_sorted_def d_lo)
  qed
  from near_sorted_join[OF f this n2 lo hi] show "near_sorted f d s e" .
qed

lemma NkQuicksort_result:
  assumes f: "consistent_pred f" and "e < length a" and "length a \<le> SIZE_MAX"
    and "s \<le> SIZE_MAX"
  shows "\<exists>r. NkQuicksortPointers f a s e = Some r \<and> qs_result f a s e r"
  using assms(2-4)
proof (induction "e - s" arbitrary: a s e rule: less_induct)
  case less
  show ?case
  proof (cases "s + 2 \<le> e")
    case False
    then show ?thesis
      using NkQuicksort_small[of e s f a] less.prems near_sorted_small[of e s f a]
      by (auto simp: qs_result_def)
  next
    case True
    have e: "e \<le> SIZE_MAX" using less.prems by simp
    have "s < e" using True by simp
    from QuicksortSplit_spec[OF f this less.prems(1)] obtain b m where
      split: "QuicksortSplit f a s e = Some (Done (b, m))" and m: "s \<le> m" "m \<le> e"
      and pb: "perm_on s e a b"
      and below: "\<And>k. s \<le> k \<Longrightarrow> k < m \<Longrightarrow> f (b ! k) (b ! m) \<le> 0"
      and above: "\<And>k. m < k \<Longrightarrow> k \<le> e \<Longrightarrow> f (b ! m) (b ! k) \<le> 0" by blast
    have len: "length b = length a" using pb by (rule perm_on_length)
    have succ: "wrap64 (m + 1) = Suc m" using m less.prems by (simp add: wrap64_small)
    note unf = NkQuicksort_split[OF True e, of f a]
    show ?thesis
    proof (cases "m = 0")
      case True
      then have "s = 0" using m by simp
      moreover have "NkQuicksortPointers f b 0 (sub64 m 1) = Some Undef"
        using True less.prems len by (intro NkQuicksort_oob) (simp_all add: sub64_def wrap64_def)
      ultimately show ?thesis using unf split by (simp add: qs_result_def)
    next
      case False
      have pred: "sub64 m 1 = m - 1" using False m e by (simp add: sub64_ge)
      have "m - 1 - s < e - s" "m - 1 < length b" using False m True less.prems len by linarith+
      with less.hyps[of "m - 1" s b] obtain r1 where
        r1: "NkQuicksortPointers f b s (m - 1) = Some r1" "qs_result f b s (m - 1) r1"
        using less.prems len m by auto
      show ?thesis
      proof (cases "r1 = Undef")
        case True
        then show ?thesis using r1 unf split pred by (simp add: qs_result_def)
      next
        case False
        then obtain ec1 c where c: "r1 = Done (ec1, c)" "perm_on s (m - 1) b c"
          "near_sorted f c s (m - 1)" using r1(2) by (auto simp: qs_result_def)
        have clen: "length c = length a" using c(2) len by (simp add: perm_on_length)
        have "e - Suc m < e - s" using m True by linarith
        with less.hyps[of e "Suc m" c] obtain r2 where
          r2: "NkQuicksortPointers f c (Suc m) e = Some r2" "qs_result f c (Suc m) e r2"
          using less.prems clen m by auto
        then obtain ec2 d where d: "r2 = Done (ec2, d)" "perm_on (Suc m) e c d"
          "near_sorted f d (Suc m) e" by (auto simp: qs_result_def)
        note comb = qs_result_combine[OF f less.prems(1) m pb below above c(2,3) d(2,3) \<open>m \<noteq> 0\<close>]
        show ?thesis
          using unf split pred succ r1(1) c(1) r2(1) d(1) comb by (simp add: qs_result_def)
      qed
    qed
  qed
qed

lemma QuicksortSplit_min:
  assumes f: "consistent_pred f" and e: "0 < e" "e < length a"
    and min: "\<And>k. k < e \<Longrightarrow> 0 < f (a ! k) (a ! e)"
  shows "\<exists>b. QuicksortSplit f a 0 e = Some (Done (b, 0)) \<and> length b = length a"
proof -
  let ?p = "a ! e"
  have "qs_inv f ?p 0 e a 0 (e - 1)" using e by (auto simp: qs_inv_def min)
  from qs_loop_spec[OF f this] obtain b i where
    run: "qs_loop f ?p a 0 (e - 1) = Some (b, i)" and inv: "qs_inv f ?p 0 e b i i"
    and perm: "perm_on 0 (e - 1) a b" by blast
  have big: "0 < f (b ! k) ?p" if k: "k < e" for k
  proof -
    have "e - 1 < length a" "k \<le> e - 1" using e k by linarith+
    then obtain k' where k': "k' \<le> e - 1" "b ! k = a ! k'"
      using perm_on_inside[OF perm, of k] by blast
    then have "k' < e" using e by linarith
    then show ?thesis using min[of k'] k' by simp
  qed
  have "i = 0"
  proof (rule ccontr)
    assume "i \<noteq> 0"
    then have "f (b ! 0) ?p \<le> 0" using inv by (simp add: qs_inv_def)
    then show False using big[of 0] e by simp
  qed
  then show ?thesis
    using run big[of 0] e perm_on_length[OF perm]
    by (simp add: QuicksortSplit_def swap_ptrs_def)
qed

subsection \<open>Properties\<close>

text \<open>The split of quicksort.  For a consistent comparison callback and a valid range the
  split returns, it only permutes the elements of the range, and it places one of them at the
  returned index so that nothing before it is greater and nothing after it is smaller.\<close>

theorem quicksort_split_partitions:
  assumes "consistent_pred f" "left < right" "right < length a"
  shows "\<exists>a' s. QuicksortSplit f a left right = Some (Done (a', s)) \<and> left \<le> s \<and> s \<le> right
    \<and> mset a' = mset a \<and> (\<forall>k < length a. k < left \<or> right < k \<longrightarrow> a' ! k = a ! k)
    \<and> (\<forall>k. left \<le> k \<and> k < s \<longrightarrow> f (a' ! k) (a' ! s) \<le> 0)
    \<and> (\<forall>k. s < k \<and> k \<le> right \<longrightarrow> f (a' ! s) (a' ! k) \<le> 0)"
  using QuicksortSplit_spec[OF assms] unfolding perm_on_def by blast

theorem quicksort_split_partitions_witness:
  "consistent_pred (\<lambda>x y :: int. x - y) \<and> (\<exists>a' s. QuicksortSplit (\<lambda>x y. x - y) [5, 9, 1, 7 :: int] 0 3
     = Some (Done (a', s)) \<and> mset a' = mset [5, 9, 1, 7])"
proof -
  have c: "consistent_pred (\<lambda>x y :: int. x - y)" by (auto simp: consistent_pred_def)
  show ?thesis using c quicksort_split_partitions[OF c, of 0 3 "[5, 9, 1, 7]"] by auto
qed

text \<open>C21: The whole sort on a range that does not start at index 0.  For a consistent callback
  \<open>NkQuicksortPointers\<close> terminates without leaving the array, permutes only the range, and the
  result is in order for any two elements that are not neighbours (ranges of two elements are
  skipped, so neighbours may stay out of order).\<close>

theorem quicksort_terminates_and_sorts:
  assumes "consistent_pred f" "e < length a" "length a \<le> SIZE_MAX" "0 < s" "s \<le> e"
  shows "\<exists>ec a'. NkQuicksortPointers f a s e = Some (Done (ec, a')) \<and> mset a' = mset a
    \<and> (\<forall>k < length a. k < s \<or> e < k \<longrightarrow> a' ! k = a ! k)
    \<and> (\<forall>i j. s \<le> i \<and> i + 2 \<le> j \<and> j \<le> e \<longrightarrow> f (a' ! i) (a' ! j) \<le> 0)"
proof -
  have "s \<le> SIZE_MAX" using assms by simp
  from NkQuicksort_result[OF assms(1-3) this] show ?thesis
    using assms(4) unfolding qs_result_def perm_on_def near_sorted_def by auto
qed

theorem quicksort_terminates_and_sorts_witness:
  "\<exists>ec a'. NkQuicksortPointers (\<lambda>x y. x - y) [0, 4, 3, 2, 1 :: int] 1 4 = Some (Done (ec, a'))
     \<and> mset a' = mset [0, 4, 3, 2, 1]"
proof -
  have c: "consistent_pred (\<lambda>x y :: int. x - y)" by (auto simp: consistent_pred_def)
  show ?thesis using quicksort_terminates_and_sorts[OF c, of 4 "[0, 4, 3, 2, 1]" 1] by auto
qed

text \<open>A range that starts at index 0 and whose last element is the strict minimum is not
  sorted: the recursive call on the empty left part computes \<open>split - 1\<close> with \<open>split = 0\<close>, which
  wraps to \<open>SIZE_MAX\<close>, and the split then reads outside the array.\<close>

theorem quicksort_minimum_pivot_undefined:
  assumes "consistent_pred f" "2 \<le> e" "e < length a" "length a \<le> SIZE_MAX"
    and "\<forall>k < e. 0 < f (a ! k) (a ! e)"
  shows "NkQuicksortPointers f a 0 e = Some Undef"
proof -
  obtain b where b: "QuicksortSplit f a 0 e = Some (Done (b, 0))" "length b = length a"
    using QuicksortSplit_min[OF assms(1), of e a] assms by auto
  have "NkQuicksortPointers f b 0 (sub64 0 1) = Some Undef"
    using assms(4) b(2) by (intro NkQuicksort_oob) (simp_all add: sub64_def wrap64_def)
  then show ?thesis
    using NkQuicksort_split[of 0 e f a] assms b by simp
qed

theorem quicksort_minimum_pivot_undefined_witness:
  "NkQuicksortPointers (\<lambda>x y. x - y) [3, 2, 1 :: int] 0 2 = Some Undef"
proof -
  have c: "consistent_pred (\<lambda>x y :: int. x - y)" by (auto simp: consistent_pred_def)
  have "\<forall>k < 2. 0 < [3, 2, 1 :: int] ! k - [3, 2, 1] ! 2"
    by (auto simp: less_Suc_eq numeral_2_eq_2)
  then show ?thesis using quicksort_minimum_pivot_undefined[OF c, of 2 "[3, 2, 1]"] by simp
qed

end
