(* ===== verification/NkVector.thy ===== *)
theory NkVector
  imports NkPrelude NkAlloc NkFloat NkSort
begin

section \<open>The vector container (src/Noriko/dstruct/vector.c)\<close>

text \<open>
  A vector is the record of its struct; the heap block behind \<open>mp_dataPtr\<close> is the list of its
  pointer slots, where \<open>None\<close> is a slot that holds no valid pointer (indeterminate or \<open>NULL\<close>).
  A destructor callback has no effect on the vector itself, so \<open>mp_fnDest\<close> records whether one is
  installed and the operations that call it return the list of the elements it was called on.
  Heap requests are answered by the argument \<open>heap\<close>; \<open>poolRes\<close> is the result of the pool
  allocation of the struct itself.
\<close>

record NkVectorProperties =
  m_structSize :: nat
  m_initialCap :: nat
  m_minCap :: nat
  m_maxCap :: nat
  m_growFactor :: rat

record 'a NkVector =
  m_elemCount :: nat
  m_elemCap :: nat
  m_vecProps :: NkVectorProperties
  mp_fnDest :: bool
  mp_dataPtr :: "'a option list"

subsection \<open>Internal helpers\<close>

definition VectorValidateProperties :: "NkVectorProperties \<Rightarrow> bool outcome" where
  "VectorValidateProperties p =
     nk_assert (m_structSize p > 0) NkErr_InParameter
    (nk_assert (m_initialCap p \<ge> m_minCap p \<and> m_initialCap p \<le> m_maxCap p) NkErr_InParameter
    (nk_assert (m_minCap p > 0 \<and> m_minCap p \<le> m_maxCap p) NkErr_InParameter
    (nk_assert (m_maxCap p < SIZE_MAX - 1) NkErr_InParameter
    (nk_assert (m_growFactor p > 1) NkErr_InParameter
    (Done True)))))"

function destroy_loop :: "'a option list \<Rightarrow> nat \<Rightarrow> nat \<Rightarrow> 'a option list outcome" where
  "destroy_loop d i eInd =
     (if i \<le> eInd
      then obind (mem_read d i) (\<lambda>x. obind (destroy_loop d (Suc i) eInd) (\<lambda>xs. Done (x # xs)))
      else Done [])"
  by pat_completeness auto
termination
  by (relation "measure (\<lambda>(d, i, e). Suc e - i)") auto

declare destroy_loop.simps [simp del]

definition VectorTryFreeRange ::
    "'a NkVector \<Rightarrow> nat \<Rightarrow> nat \<Rightarrow> (NkErrorCode \<times> 'a option list) outcome" where
  "VectorTryFreeRange v sInd eInd =
     (if \<not> mp_fnDest v then Done (NkErr_NoOperation, [])
      else obind (destroy_loop (mp_dataPtr v) sInd eInd) (\<lambda>ds. Done (NkErr_Ok, ds)))"

definition VectorResizeBuffer ::
    "heap_answer \<Rightarrow> 'a NkVector \<Rightarrow> nat \<Rightarrow> (NkErrorCode \<times> 'a NkVector) outcome" where
  "VectorResizeBuffer heap v newCap =
     obind (NkGPRealloc heap (wrap64 (newCap * 8))) (\<lambda>ec.
       Done (ec, if ec = NkErr_Ok
                 then v\<lparr>mp_dataPtr := realloc_slots (mp_dataPtr v) (wrap64 (newCap * 8) div 8)\<rparr>
                 else v))"

definition VectorCopyBuffer ::
    "'a option list \<Rightarrow> nat \<Rightarrow> 'a option list \<Rightarrow> nat \<Rightarrow> 'a option list outcome" where
  "VectorCopyBuffer d index elemArray nElems = mem_copy d index elemArray 0 nElems"

subsection \<open>Creation and destruction\<close>

definition NkVectorCreate ::
    "NkErrorCode \<Rightarrow> heap_answer \<Rightarrow> NkVectorProperties \<Rightarrow> bool
     \<Rightarrow> (NkErrorCode \<times> 'a NkVector option) outcome" where
  "NkVectorCreate poolRes heap p fnElemDest =
     obind (VectorValidateProperties p) (\<lambda>_.
       if poolRes \<noteq> NkErr_Ok then Done (poolRes, None)
       else let initCap = wrap64 (8 * m_initialCap p) in
         obind (NkGPAlloc heap initCap 0) (\<lambda>ec.
           if ec \<noteq> NkErr_Ok then Done (ec, None)
           else Done (NkErr_Ok, Some \<lparr>m_elemCount = 0, m_elemCap = m_initialCap p,
                  m_vecProps = p, mp_fnDest = fnElemDest,
                  mp_dataPtr = replicate (initCap div 8) None\<rparr>)))"

definition NkVectorDestroy :: "'a NkVector \<Rightarrow> 'a option list outcome" where
  "NkVectorDestroy v =
     (if m_elemCount v > 0
      then obind (VectorTryFreeRange v 0 (m_elemCount v - 1)) (\<lambda>r. Done (snd r))
      else Done [])"

definition NkVectorClear ::
    "heap_answer \<Rightarrow> 'a NkVector \<Rightarrow> (NkErrorCode \<times> 'a option list \<times> 'a NkVector) outcome" where
  "NkVectorClear heap v =
     obind (VectorTryFreeRange v 0 (m_elemCount v)) (\<lambda>(_, ds).
       let v1 = v\<lparr>m_elemCount := 0, m_elemCap := m_minCap (m_vecProps v)\<rparr> in
       obind (VectorResizeBuffer heap v1 (m_minCap (m_vecProps v))) (\<lambda>(ec, v2).
         Done (ec, ds, v2)))"

subsection \<open>Insertion\<close>

definition capAfterGrowing :: "'a NkVector \<Rightarrow> nat outcome" where
  "capAfterGrowing v =
     f32_to_uint 64 (of_int \<lceil>f32_round (f32_round (of_nat (m_elemCap v))
                                        * m_growFactor (m_vecProps v))\<rceil>)"

definition VectorReserve ::
    "heap_answer \<Rightarrow> 'a NkVector \<Rightarrow> nat \<Rightarrow> (NkErrorCode \<times> 'a NkVector) outcome" where
  "VectorReserve heap v reqSize =
     (if reqSize > m_elemCap v then
        obind (capAfterGrowing v) (\<lambda>cg.
          let newCap = max (m_maxCap (m_vecProps v)) (max reqSize cg) in
          if newCap < reqSize then Done (NkErr_CapLimitExceeded, v)
          else obind (VectorResizeBuffer heap v newCap) (\<lambda>(ec, v1).
                 Done (ec, if ec = NkErr_Ok then v1\<lparr>m_elemCap := newCap\<rparr> else v1)))
      else Done (NkErr_Ok, v))"

definition NkVectorInsertMulti ::
    "heap_answer \<Rightarrow> 'a NkVector \<Rightarrow> nat \<Rightarrow> 'a option list \<Rightarrow> nat
     \<Rightarrow> (NkErrorCode \<times> 'a NkVector) outcome" where
  "NkVectorInsertMulti heap v index elemArray nElems =
     obind (mem_read elemArray 0) (\<lambda>e0.
     nk_assert (e0 \<noteq> None) NkErr_InParameter
    (nk_assert (index \<le> m_elemCount v) NkErr_ArrayElemOutOfBounds
    (let reqSize = wrap64 (m_elemCount v + nElems) in
     if reqSize \<le> m_elemCount v then Done (NkErr_UnsignedWrapAround, v)
     else obind (VectorReserve heap v reqSize) (\<lambda>(ec, v1).
       if ec \<noteq> NkErr_Ok then Done (ec, v1)
       else obind (mem_copy (mp_dataPtr v1) (wrap64 (index + nElems)) elemArray 0
                      (m_elemCount v1 - index)) (\<lambda>d1.
            obind (VectorCopyBuffer d1 index elemArray nElems) (\<lambda>d2.
            Done (NkErr_Ok, v1\<lparr>m_elemCount := wrap64 (m_elemCount v1 + nElems),
                                mp_dataPtr := d2\<rparr>)))))))"

definition NkVectorInsert ::
    "heap_answer \<Rightarrow> 'a NkVector \<Rightarrow> 'a option \<Rightarrow> nat \<Rightarrow> (NkErrorCode \<times> 'a NkVector) outcome" where
  "NkVectorInsert heap v elemPtr index = NkVectorInsertMulti heap v index [elemPtr] 1"

subsection \<open>Removal\<close>

text \<open>The result carries the slots written to the caller's array and the elements destroyed.
  With a destructor installed the code clears \<open>maxN\<close> pointers at the address stored in the
  caller's first slot; \<open>outBytes\<close> is the number of bytes the caller owns there.\<close>

definition NkVectorEraseMulti ::
    "'a NkVector \<Rightarrow> nat \<Rightarrow> nat \<Rightarrow> nat
     \<Rightarrow> (NkErrorCode \<times> 'a option list \<times> 'a option list \<times> 'a NkVector) outcome" where
  "NkVectorEraseMulti v sInd maxN outBytes =
     nk_assert (sInd < m_elemCount v) NkErr_ArrayElemOutOfBounds
    (let lenToDel = min maxN (m_elemCount v - sInd) in
     if lenToDel > 0 then
       obind (VectorTryFreeRange v sInd (sInd + lenToDel)) (\<lambda>(freeState, ds).
       obind (if freeState = NkErr_NoOperation
              then mem_copy (replicate lenToDel None) 0 (mp_dataPtr v) sInd lenToDel
              else Done []) (\<lambda>out.
       obind (mem_copy (mp_dataPtr v) sInd (mp_dataPtr v) (sInd + lenToDel)
                (m_elemCount v - sInd - lenToDel)) (\<lambda>d.
       let v1 = v\<lparr>mp_dataPtr := d, m_elemCount := m_elemCount v - lenToDel\<rparr> in
       if freeState \<noteq> NkErr_NoOperation \<and> outBytes < maxN * 8 then Undef
       else Done (NkErr_Ok, out, ds, v1))))
     else Done (NkErr_NoOperation, [], [], v))"

definition NkVectorErase ::
    "'a NkVector \<Rightarrow> nat \<Rightarrow> nat
     \<Rightarrow> (NkErrorCode \<times> 'a option list \<times> 'a option list \<times> 'a NkVector) outcome" where
  "NkVectorErase v index outBytes = NkVectorEraseMulti v index 1 outBytes"

text \<open>The predicate of \<open>NkVectorEraseIf\<close> is called with the vector itself (\<open>vecPtr\<close>), not with
  the element.\<close>

partial_function (option) erase_if_loop ::
    "('a NkVector \<Rightarrow> nat \<Rightarrow> bool) \<Rightarrow> nat \<Rightarrow> 'a NkVector \<Rightarrow> nat \<Rightarrow> nat \<Rightarrow> 'a option list
     \<Rightarrow> 'a option list \<Rightarrow> ('a option list \<times> 'a option list \<times> 'a NkVector) outcome option" where
  "erase_if_loop fnPred bound v i j out ds =
     (if i < bound then
        lbind (Some (mem_read (mp_dataPtr v) i)) (\<lambda>elemPtr.
        if fnPred v i then
          lbind (Some (if mp_fnDest v then Done out else mem_write out j elemPtr)) (\<lambda>out1.
          lbind (Some (mem_copy (mp_dataPtr v) i (mp_dataPtr v) (i + 1)
                         (sub64 (sub64 (m_elemCount v) i) 1))) (\<lambda>d.
          erase_if_loop fnPred bound
            (v\<lparr>mp_dataPtr := d, m_elemCount := sub64 (m_elemCount v) (j + 1)\<rparr>)
            i (j + 1) out1 (if mp_fnDest v then ds @ [elemPtr] else ds)))
        else erase_if_loop fnPred bound
               (v\<lparr>m_elemCount := sub64 (m_elemCount v) j\<rparr>) (i + 1) j out ds)
      else Some (Done (out, ds, v)))"

definition NkVectorEraseIf ::
    "'a NkVector \<Rightarrow> nat \<Rightarrow> nat \<Rightarrow> ('a NkVector \<Rightarrow> nat \<Rightarrow> bool)
     \<Rightarrow> (NkErrorCode \<times> 'a option list \<times> 'a option list \<times> 'a NkVector) outcome" where
  "NkVectorEraseIf v sInd maxN fnPred =
     (let realCount = min maxN (sub64 (m_elemCount v) sInd) in
      obind (of_loop (erase_if_loop fnPred (wrap64 (sInd + realCount)) v sInd 0
                        (replicate maxN None) []))
        (\<lambda>(out, ds, v1). Done (NkErr_Ok, out, ds, v1)))"

subsection \<open>Search\<close>

text \<open>The loop of \<open>NkVectorFindIf\<close> has no update of its index.\<close>

partial_function (option) find_loop ::
    "('a option \<Rightarrow> nat \<Rightarrow> bool) \<Rightarrow> 'a option list \<Rightarrow> bool \<Rightarrow> nat \<Rightarrow> nat
     \<Rightarrow> 'a option outcome option" where
  "find_loop fnPred d isLeftToRight endIndex i =
     (if (if isLeftToRight then i < endIndex else i > endIndex) then
        lbind (Some (mem_read d i)) (\<lambda>elemPtr.
        if fnPred elemPtr i then Some (Done elemPtr)
        else find_loop fnPred d isLeftToRight endIndex i)
      else Some (Done None))"

definition NkVectorFindIf ::
    "'a NkVector \<Rightarrow> nat \<Rightarrow> nat \<Rightarrow> bool \<Rightarrow> ('a option \<Rightarrow> nat \<Rightarrow> bool) \<Rightarrow> 'a option outcome" where
  "NkVectorFindIf v sInd eInd isLeftToRight fnPred =
     (let startIndex = (if isLeftToRight then sInd else eInd);
          endIndex = (if isLeftToRight then eInd else sInd)
      in of_loop (find_loop fnPred (mp_dataPtr v) isLeftToRight endIndex startIndex))"

definition VectorDefaultPred :: "'a option \<Rightarrow> 'a option \<Rightarrow> nat \<Rightarrow> bool" where
  "VectorDefaultPred extraParam elemPtr currIndex \<longleftrightarrow> elemPtr = extraParam"

definition NkVectorFind ::
    "'a NkVector \<Rightarrow> 'a option \<Rightarrow> nat \<Rightarrow> nat \<Rightarrow> bool \<Rightarrow> 'a option outcome" where
  "NkVectorFind v elemPtr sInd eInd isLeftToRight =
     NkVectorFindIf v sInd eInd isLeftToRight (VectorDefaultPred elemPtr)"

function filter_loop ::
    "('a option \<Rightarrow> nat \<Rightarrow> bool) \<Rightarrow> 'a option list \<Rightarrow> nat \<Rightarrow> nat \<Rightarrow> 'a option list \<Rightarrow> nat
     \<Rightarrow> ('a option list \<times> nat) outcome" where
  "filter_loop fnPred d bound i out outIndex =
     (if i < bound then
        obind (mem_read d i) (\<lambda>elemPtr.
        if fnPred elemPtr i
        then obind (mem_write out outIndex elemPtr) (\<lambda>out1.
               filter_loop fnPred d bound (Suc i) out1 (Suc outIndex))
        else filter_loop fnPred d bound (Suc i) out outIndex)
      else Done (out, outIndex))"
  by pat_completeness auto
termination
  by (relation "measure (\<lambda>(f, d, b, i, out, oi). b - i)") auto

declare filter_loop.simps [simp del]

definition NkVectorFilter ::
    "'a NkVector \<Rightarrow> nat \<Rightarrow> nat \<Rightarrow> 'a option list \<Rightarrow> ('a option \<Rightarrow> nat \<Rightarrow> bool)
     \<Rightarrow> (NkErrorCode \<times> 'a option list) outcome" where
  "NkVectorFilter v sInd maxN subVecArray fnPred =
     nk_assert (sInd < m_elemCount v) NkErr_InParameter
    (obind (filter_loop fnPred (mp_dataPtr v) (min maxN (m_elemCount v)) sInd subVecArray 0)
      (\<lambda>(out, outIndex). Done (NkErr_Ok, take outIndex out @ replicate (maxN - outIndex) None)))"

subsection \<open>Order\<close>

partial_function (option) reverse_loop ::
    "'a option list \<Rightarrow> nat \<Rightarrow> nat \<Rightarrow> 'a option list outcome option" where
  "reverse_loop d i j =
     (if i \<noteq> j then
        lbind (Some (mem_read d i)) (\<lambda>tmpPtr.
        lbind (Some (mem_read d j)) (\<lambda>other.
        reverse_loop (d[i := other, j := tmpPtr]) (wrap64 (i + 1)) (sub64 j 1)))
      else Some (Done d))"

definition NkVectorReverse :: "'a NkVector \<Rightarrow> nat \<Rightarrow> nat \<Rightarrow> 'a NkVector outcome" where
  "NkVectorReverse v sInd eInd =
     nk_assert (sInd \<le> eInd) NkErr_InvalidRange
    (nk_assert (eInd < m_elemCount v) NkErr_ArrayElemOutOfBounds
    (obind (of_loop (reverse_loop (mp_dataPtr v) sInd eInd)) (\<lambda>d. Done (v\<lparr>mp_dataPtr := d\<rparr>))))"

definition NkVectorSort ::
    "'a NkVector \<Rightarrow> nat \<Rightarrow> nat \<Rightarrow> ('a option \<Rightarrow> 'a option \<Rightarrow> int) \<Rightarrow> 'a NkVector outcome" where
  "NkVectorSort v sInd eInd fnPred =
     nk_assert (sInd \<le> eInd) NkErr_InvalidRange
    (nk_assert (eInd < m_elemCount v) NkErr_ArrayElemOutOfBounds
    (obind (of_loop (NkQuicksortPointers fnPred (mp_dataPtr v) sInd eInd)) (\<lambda>r.
       Done (v\<lparr>mp_dataPtr := snd r\<rparr>))))"

subsection \<open>Access\<close>

definition NkVectorGetElementCount :: "'a NkVector \<Rightarrow> nat" where
  "NkVectorGetElementCount v = m_elemCount v"

definition NkVectorGetCapacity :: "'a NkVector \<Rightarrow> nat" where
  "NkVectorGetCapacity v = m_elemCap v"

definition NkVectorAt :: "'a NkVector \<Rightarrow> nat \<Rightarrow> 'a option outcome" where
  "NkVectorAt v index =
     nk_assert (index < m_elemCount v) NkErr_ArrayElemOutOfBounds (mem_read (mp_dataPtr v) index)"

definition NkVectorAtMulti ::
    "'a NkVector \<Rightarrow> nat \<Rightarrow> nat \<Rightarrow> 'a option list \<Rightarrow> (NkErrorCode \<times> 'a option list) outcome" where
  "NkVectorAtMulti v sInd maxN subVecArray =
     nk_assert (sInd < m_elemCount v) NkErr_InParameter
    (obind (mem_copy subVecArray 0 (mp_dataPtr v) sInd (min (m_elemCount v - sInd) maxN)) (\<lambda>out.
       Done (if maxN = 0 then NkErr_NoOperation else NkErr_Ok, out)))"

text \<open>The callback of \<open>NkVectorForEach\<close> may have state of its own, threaded as \<open>'s\<close>.\<close>

function foreach_loop ::
    "('s \<Rightarrow> 'a option \<Rightarrow> nat \<Rightarrow> NkErrorCode \<times> 's) \<Rightarrow> 'a option list \<Rightarrow> nat \<Rightarrow> nat \<Rightarrow> 's
     \<Rightarrow> (NkErrorCode \<times> 's) outcome" where
  "foreach_loop fnCallback d lastInd i s =
     (if i \<le> lastInd then
        obind (mem_read d i) (\<lambda>elemPtr.
        let (ec, s1) = fnCallback s elemPtr i in
        if ec \<noteq> NkErr_Ok then Done (ec, s1) else foreach_loop fnCallback d lastInd (Suc i) s1)
      else Done (NkErr_Ok, s))"
  by pat_completeness auto
termination
  by (relation "measure (\<lambda>(f, d, l, i, s). Suc l - i)") auto

declare foreach_loop.simps [simp del]

definition NkVectorForEach ::
    "'a NkVector \<Rightarrow> nat \<Rightarrow> nat \<Rightarrow> ('s \<Rightarrow> 'a option \<Rightarrow> nat \<Rightarrow> NkErrorCode \<times> 's) \<Rightarrow> 's
     \<Rightarrow> (NkErrorCode \<times> 's) outcome" where
  "NkVectorForEach v sInd maxN fnCallback s =
     nk_assert (sInd < m_elemCount v) NkErr_InvalidRange
    (let realCount = min maxN (m_elemCount v - sInd) in
     foreach_loop fnCallback (mp_dataPtr v) (sInd + realCount) sInd s)"

definition NkVectorGetBuffer :: "'a NkVector \<Rightarrow> nat \<Rightarrow> 'a option list outcome" where
  "NkVectorGetBuffer v sInd =
     nk_assert (sInd < m_elemCap v) NkErr_ArrayOutOfBounds (Done (drop sInd (mp_dataPtr v)))"

definition NkVectorDefaultProperties :: NkVectorProperties where
  "NkVectorDefaultProperties =
     \<lparr>m_structSize = 40, m_initialCap = 16, m_minCap = 8, m_maxCap = SIZE_MAX - 1,
      m_growFactor = 3 / 2\<rparr>"

subsection \<open>Well-formed vectors and their contents\<close>

definition vec_wf :: "'a NkVector \<Rightarrow> bool" where
  "vec_wf v \<longleftrightarrow> m_elemCount v \<le> m_elemCap v \<and> m_elemCap v \<le> length (mp_dataPtr v)
     \<and> length (mp_dataPtr v) < 2 ^ 61
     \<and> list_all (\<lambda>x. x \<noteq> None) (take (m_elemCount v) (mp_dataPtr v))"

definition vlist :: "'a NkVector \<Rightarrow> 'a list" where
  "vlist v = map the (take (m_elemCount v) (mp_dataPtr v))"

lemma vec_wf_count: "vec_wf v \<Longrightarrow> m_elemCount v \<le> length (mp_dataPtr v)"
  by (simp add: vec_wf_def)

lemma length_vlist [simp]: "vec_wf v \<Longrightarrow> length (vlist v) = m_elemCount v"
  using vec_wf_count[of v] by (simp add: vlist_def)

lemma map_Some_vlist: "vec_wf v \<Longrightarrow> map Some (vlist v) = take (m_elemCount v) (mp_dataPtr v)"
  by (auto simp: vlist_def vec_wf_def list_all_iff intro!: map_idI)

lemma vec_slot: "vec_wf v \<Longrightarrow> i < m_elemCount v \<Longrightarrow> mp_dataPtr v ! i = Some (vlist v ! i)"
proof -
  assume wf: "vec_wf v" and i: "i < m_elemCount v"
  have "map Some (vlist v) ! i = take (m_elemCount v) (mp_dataPtr v) ! i"
    by (simp add: map_Some_vlist[OF wf])
  then show ?thesis using i wf by simp
qed

lemma vec_wfI:
  assumes "take n d = map Some xs" "length xs = n" "n \<le> cap" "cap \<le> length d" "length d < 2 ^ 61"
    "m_elemCount v = n" "m_elemCap v = cap" "mp_dataPtr v = d"
  shows "vec_wf v \<and> vlist v = xs"
  using assms by (auto simp: vec_wf_def vlist_def list_all_iff comp_def)

subsection \<open>Insertion\<close>

text \<open>Room for \<open>n\<close> more elements: either the buffer is large enough, or the heap grants the size
  the code computes and that size does not wrap.\<close>

definition vec_room :: "heap_answer \<Rightarrow> 'a NkVector \<Rightarrow> nat \<Rightarrow> bool" where
  "vec_room heap v n \<longleftrightarrow> m_elemCount v + n \<le> m_elemCap v \<or>
     (case capAfterGrowing v of
        Done cg \<Rightarrow> (let newCap = max (m_maxCap (m_vecProps v)) (max (m_elemCount v + n) cg)
                    in newCap < 2 ^ 61 \<and> heap (newCap * 8))
      | _ \<Rightarrow> False)"

lemma VectorReserve_room:
  assumes wf: "vec_wf v" and room: "vec_room heap v n"
  shows "\<exists>v1. VectorReserve heap v (m_elemCount v + n) = Done (NkErr_Ok, v1) \<and> vec_wf v1
    \<and> m_elemCount v1 = m_elemCount v \<and> m_elemCount v + n \<le> m_elemCap v1 \<and> vlist v1 = vlist v
    \<and> mp_fnDest v1 = mp_fnDest v \<and> m_vecProps v1 = m_vecProps v"
proof (cases "m_elemCount v + n \<le> m_elemCap v")
  case True
  then show ?thesis using wf by (auto simp: VectorReserve_def)
next
  case False
  then obtain cg where cg: "capAfterGrowing v = Done cg"
    using room by (auto simp: vec_room_def split: outcome.splits)
  define newCap where "newCap = max (m_maxCap (m_vecProps v)) (max (m_elemCount v + n) cg)"
  have nc: "newCap < 2 ^ 61" "heap (newCap * 8)" and ge: "m_elemCount v + n \<le> newCap"
    using room False cg by (auto simp: vec_room_def newCap_def Let_def)
  have bytes: "wrap64 (newCap * 8) = newCap * 8" using nc by (simp add: wrap64_small)
  have pos: "newCap \<noteq> 0" using ge False by auto
  define v1 where "v1 = v\<lparr>mp_dataPtr := realloc_slots (mp_dataPtr v) newCap, m_elemCap := newCap\<rparr>"
  have "VectorReserve heap v (m_elemCount v + n) = Done (NkErr_Ok, v1)"
    using False cg nc ge pos bytes
    by (simp add: VectorReserve_def VectorResizeBuffer_def NkGPRealloc_def newCap_def[symmetric]
        v1_def Let_def)
  moreover have "vec_wf v1 \<and> vlist v1 = vlist v"
    using wf nc ge map_Some_vlist[OF wf]
    by (intro vec_wfI[where n = "m_elemCount v" and cap = newCap])
      (auto simp: v1_def take_realloc_slots vec_wf_count)
  ultimately show ?thesis using ge by (auto simp: v1_def)
qed

lemma slots_after_insert:
  assumes "length xs = c" "take c d = map Some xs" "i \<le> c" "c - i \<le> n" "c + n \<le> length d"
    "length es = n"
  shows "\<exists>d1 d2. mem_copy d (i + n) (map Some es) 0 (c - i) = Done d1
     \<and> mem_copy d1 i (map Some es) 0 n = Done d2 \<and> length d2 = length d
     \<and> take (c + n) d2 = map Some (take i xs @ es @ take (c - i) es)"
proof -
  define d1 where "d1 = take (i + n) d @ map Some (take (c - i) es) @ drop (c + n) d"
  define d2 where "d2 = take i d @ map Some es @ drop (i + n) d1"
  have e1: "mem_copy d (i + n) (map Some es) 0 (c - i) = Done d1"
  proof -
    have "i + n + (c - i) = c + n" using assms by simp
    then show ?thesis using assms by (simp add: mem_copy_ok d1_def take_map add.commute)
  qed
  have l1: "length d1 = length d" using assms by (simp add: d1_def)
  have t1: "take i d1 = take i d" using assms by (simp add: d1_def min_def)
  have e2: "mem_copy d1 i (map Some es) 0 n = Done d2"
    using assms l1 t1 by (simp add: mem_copy_ok d2_def)
  have "drop (i + n) d1 = map Some (take (c - i) es) @ drop (c + n) d"
    using assms by (simp add: d1_def)
  moreover have "take i d = map Some (take i xs)"
    using assms by (metis min.absorb1 take_map take_take)
  ultimately have d2: "d2 = map Some (take i xs @ es @ take (c - i) es) @ drop (c + n) d"
    by (simp add: d2_def)
  have len: "length (take i xs @ es @ take (c - i) es) = c + n"
    using assms by simp
  have "length d2 = length d" using assms len by (simp add: d2)
  moreover have "take (c + n) d2 = map Some (take i xs @ es @ take (c - i) es)"
    using len by (simp add: d2)
  ultimately show ?thesis using e1 e2 by blast
qed

lemma NkVectorInsertMulti_spec:
  assumes wf: "vec_wf v" and room: "vec_room heap v (length es)" and ne: "es \<noteq> []"
    and small: "length es < 2 ^ 61" and i: "index \<le> m_elemCount v"
    and tail: "m_elemCount v - index \<le> length es"
  shows "\<exists>v'. NkVectorInsertMulti heap v index (map Some es) (length es) = Done (NkErr_Ok, v')
    \<and> vec_wf v' \<and> mp_fnDest v' = mp_fnDest v \<and> m_vecProps v' = m_vecProps v
    \<and> vlist v' = take index (vlist v) @ es @ take (m_elemCount v - index) es"
proof -
  let ?n = "length es" and ?c = "m_elemCount v"
  have c61: "?c < 2 ^ 61" using wf by (simp add: vec_wf_def)
  have req: "wrap64 (?c + ?n) = ?c + ?n" "wrap64 (index + ?n) = index + ?n"
    using c61 small i by (simp_all add: wrap64_small)
  obtain v1 where v1: "VectorReserve heap v (?c + ?n) = Done (NkErr_Ok, v1)" "vec_wf v1"
    "m_elemCount v1 = ?c" "?c + ?n \<le> m_elemCap v1" "vlist v1 = vlist v"
    "mp_fnDest v1 = mp_fnDest v" "m_vecProps v1 = m_vecProps v"
    using VectorReserve_room[OF wf room] by blast
  have room1: "?c + ?n \<le> length (mp_dataPtr v1)" using v1 by (simp add: vec_wf_def)
  have tk: "take ?c (mp_dataPtr v1) = map Some (vlist v)"
    using map_Some_vlist[OF v1(2)] v1(3,5) by simp
  obtain d1 d2 where d: "mem_copy (mp_dataPtr v1) (index + ?n) (map Some es) 0 (?c - index) = Done d1"
    "mem_copy d1 index (map Some es) 0 ?n = Done d2" "length d2 = length (mp_dataPtr v1)"
    "take (?c + ?n) d2 = map Some (take index (vlist v) @ es @ take (?c - index) es)"
    using slots_after_insert[OF _ tk i tail room1, of es] wf by auto
  define v2 where "v2 = v1\<lparr>m_elemCount := ?c + ?n, mp_dataPtr := d2\<rparr>"
  have "0 < ?n" using ne by simp
  then have "NkVectorInsertMulti heap v index (map Some es) ?n = Done (NkErr_Ok, v2)"
    using v1(1,3) d(1,2) req i ne
    by (simp add: NkVectorInsertMulti_def VectorCopyBuffer_def v2_def)
  moreover have "vec_wf v2 \<and> vlist v2 = take index (vlist v) @ es @ take (?c - index) es"
    using v1 d wf i tail
    by (intro vec_wfI[where n = "?c + ?n" and cap = "m_elemCap v1"])
      (auto simp: v2_def vec_wf_def)
  ultimately show ?thesis using v1 by (auto simp: v2_def)
qed

lemma NkVectorInsertMulti_tail_undef:
  assumes wf: "vec_wf v" and room: "vec_room heap v (length es)" and ne: "es \<noteq> []"
    and small: "length es < 2 ^ 61" and i: "index \<le> m_elemCount v"
    and tail: "length es < m_elemCount v - index"
  shows "NkVectorInsertMulti heap v index (map Some es) (length es) = Undef"
proof -
  let ?n = "length es" and ?c = "m_elemCount v"
  have c61: "?c < 2 ^ 61" using wf by (simp add: vec_wf_def)
  have req: "wrap64 (?c + ?n) = ?c + ?n" using c61 small by (simp add: wrap64_small)
  obtain v1 where v1: "VectorReserve heap v (?c + ?n) = Done (NkErr_Ok, v1)"
    "m_elemCount v1 = ?c" using VectorReserve_room[OF wf room] by blast
  have "mem_copy (mp_dataPtr v1) (wrap64 (index + ?n)) (map Some es) 0 (?c - index) = Undef"
    using tail by (intro mem_copy_oob) auto
  then show ?thesis
    using v1 req i ne by (simp add: NkVectorInsertMulti_def)
qed

subsection \<open>Destruction and removal\<close>

lemma destroy_loop_ok: "eInd < length d \<Longrightarrow> destroy_loop d i eInd = Done (take (Suc eInd - i) (drop i d))"
proof (induction d i eInd rule: destroy_loop.induct)
  case (1 d i eInd)
  show ?case
  proof (cases "i \<le> eInd")
    case True
    then have "destroy_loop d (Suc i) eInd = Done (take (Suc eInd - Suc i) (drop (Suc i) d))"
      using "1.IH" "1.prems" by simp
    moreover have "take (Suc eInd - i) (drop i d) = d ! i # take (Suc eInd - Suc i) (drop (Suc i) d)"
      using True "1.prems" by (simp add: Cons_nth_drop_Suc[symmetric] Suc_diff_le)
    ultimately show ?thesis using True "1.prems" by (simp add: destroy_loop.simps[of d i eInd])
  next
    case False
    then show ?thesis by (simp add: destroy_loop.simps[of d i eInd])
  qed
qed

lemma destroy_loop_oob: "i \<le> eInd \<Longrightarrow> length d \<le> eInd \<Longrightarrow> destroy_loop d i eInd = Undef"
proof (induction d i eInd rule: destroy_loop.induct)
  case (1 d i eInd)
  show ?case
  proof (cases "i < length d")
    case True
    then have "destroy_loop d (Suc i) eInd = Undef"
      using "1.IH" "1.prems" by simp
    then show ?thesis using True "1.prems" by (simp add: destroy_loop.simps[of d i eInd])
  next
    case False
    then show ?thesis using "1.prems" by (simp add: destroy_loop.simps[of d i eInd])
  qed
qed

lemma slots_after_erase:
  assumes "length xs = c" "take c d = map Some xs" "s < c" "n \<le> c - s" "c \<le> length d"
  shows "\<exists>d'. mem_copy d s d (s + n) (c - s - n) = Done d' \<and> length d' = length d
    \<and> take (c - n) d' = map Some (take s xs @ drop (s + n) xs)"
proof -
  define d' where "d' = take s d @ take (c - s - n) (drop (s + n) d) @ drop (c - n) d"
  have idx: "s + (c - s - n) = c - n" using assms by simp
  have "mem_copy d s d (s + n) (c - s - n) = Done d'"
    using assms idx by (simp add: mem_copy_ok d'_def)
  moreover have "length d' = length d" using assms by (simp add: d'_def)
  moreover have "take s d = map Some (take s xs)"
    using assms by (metis less_imp_le min.absorb1 take_map take_take)
  moreover have "take (c - s - n) (drop (s + n) d) = map Some (drop (s + n) xs)"
  proof -
    have "take (c - s - n) (drop (s + n) d) = drop (s + n) (take c d)"
      by (simp only: drop_take diff_diff_left)
    then show ?thesis using assms by (simp add: drop_map)
  qed
  ultimately show ?thesis using assms by (simp add: d'_def)
qed

lemma NkVectorEraseMulti_spec:
  assumes wf: "vec_wf v" and nd: "\<not> mp_fnDest v" and s: "sInd < m_elemCount v" and n: "0 < maxN"
  shows "\<exists>v'. NkVectorEraseMulti v sInd maxN ob
      = Done (NkErr_Ok, map Some (take maxN (drop sInd (vlist v))), [], v')
    \<and> vec_wf v' \<and> \<not> mp_fnDest v' \<and> m_vecProps v' = m_vecProps v
    \<and> vlist v' = take sInd (vlist v) @ drop (sInd + maxN) (vlist v)"
proof -
  let ?c = "m_elemCount v"
  define k where "k = min maxN (?c - sInd)"
  have k: "0 < k" "k \<le> ?c - sInd" "k \<le> maxN" using s n by (auto simp: k_def)
  have len: "?c \<le> length (mp_dataPtr v)" using wf by (rule vec_wf_count)
  note tk = map_Some_vlist[OF wf, symmetric]
  obtain d where d: "mem_copy (mp_dataPtr v) sInd (mp_dataPtr v) (sInd + k) (?c - sInd - k) = Done d"
    "length d = length (mp_dataPtr v)"
    "take (?c - k) d = map Some (take sInd (vlist v) @ drop (sInd + k) (vlist v))"
    using slots_after_erase[OF _ tk s k(2) len] wf by auto
  have out: "mem_copy (replicate k None) 0 (mp_dataPtr v) sInd k
      = Done (map Some (take k (drop sInd (vlist v))))"
  proof -
    have "take k (drop sInd (mp_dataPtr v)) = take k (drop sInd (take ?c (mp_dataPtr v)))"
      using k by (simp add: drop_take min_def)
    also have "\<dots> = map Some (take k (drop sInd (vlist v)))"
      by (simp add: tk take_map drop_map)
    finally show ?thesis using k s len by (simp add: mem_copy_ok)
  qed
  have eqk: "take k (drop sInd (vlist v)) = take maxN (drop sInd (vlist v))"
    "drop (sInd + k) (vlist v) = drop (sInd + maxN) (vlist v)"
    using wf by (simp_all add: k_def min_def)
  define v1 where "v1 = v\<lparr>mp_dataPtr := d, m_elemCount := ?c - k\<rparr>"
  have "NkVectorEraseMulti v sInd maxN ob
      = Done (NkErr_Ok, map Some (take maxN (drop sInd (vlist v))), [], v1)"
    using s nd k d(1) out
    by (simp add: NkVectorEraseMulti_def VectorTryFreeRange_def k_def[symmetric] v1_def eqk)
  moreover have "vec_wf v1 \<and> vlist v1 = take sInd (vlist v) @ drop (sInd + k) (vlist v)"
    using wf d k s by (intro vec_wfI[where n = "?c - k" and cap = "m_elemCap v"])
      (auto simp: v1_def vec_wf_def)
  ultimately show ?thesis using nd eqk by (auto simp: v1_def)
qed

text \<open>With a destructor the range handed to it is one element too long.\<close>

lemma EraseMulti_destroys_one_more:
  assumes "mp_fnDest v" "sInd < m_elemCount v" "0 < maxN"
    "NkVectorEraseMulti v sInd maxN ob = Done (ec, out, ds, v')"
  shows "ds = take (Suc (min maxN (m_elemCount v - sInd))) (drop sInd (mp_dataPtr v))
    \<and> m_elemCount v' = m_elemCount v - min maxN (m_elemCount v - sInd)"
proof -
  let ?k = "min maxN (m_elemCount v - sInd)"
  have k: "0 < ?k" using assms by simp
  have "destroy_loop (mp_dataPtr v) sInd (sInd + ?k) \<noteq> Undef"
    using assms k by (auto simp: NkVectorEraseMulti_def VectorTryFreeRange_def Let_def)
  then have lt: "sInd + ?k < length (mp_dataPtr v)"
    using destroy_loop_oob[of sInd "sInd + ?k" "mp_dataPtr v"] by (meson le_add1 not_less)
  then show ?thesis
    using assms k destroy_loop_ok[OF lt, of sInd]
    by (auto simp: NkVectorEraseMulti_def VectorTryFreeRange_def Let_def Suc_diff_le
        nk_outcome split: if_splits)
qed

lemma NkVectorDestroy_spec:
  assumes "vec_wf v"
  shows "NkVectorDestroy v = Done (if mp_fnDest v then map Some (vlist v) else [])"
proof (cases "m_elemCount v > 0 \<and> mp_fnDest v")
  case True
  then have "m_elemCount v - 1 < length (mp_dataPtr v)" using vec_wf_count[OF assms] by linarith
  then show ?thesis
    using True destroy_loop_ok[of "m_elemCount v - 1" "mp_dataPtr v" 0] map_Some_vlist[OF assms]
    by (simp add: NkVectorDestroy_def VectorTryFreeRange_def)
next
  case False
  then show ?thesis
    by (auto simp: NkVectorDestroy_def VectorTryFreeRange_def vlist_def)
qed

subsection \<open>Search\<close>

lemma find_loop_stuck:
  assumes "find_loop fnPred d ltr endIndex i = Some r"
    and "if ltr then i < endIndex else i > endIndex"
    and "i < length d" "\<not> fnPred (d ! i) i"
  shows False
proof -
  have "(if ltr then i < endIndex else i > endIndex) \<and> i < length d \<and> \<not> fnPred (d ! i) i \<longrightarrow> False"
  proof (rule find_loop.raw_induct[where P = "\<lambda>fnPred d ltr endIndex i r.
        (if ltr then i < endIndex else i > endIndex) \<and> i < length d \<and> \<not> fnPred (d ! i) i \<longrightarrow> False",
        OF _ assms(1)])
    fix f :: "('a option \<Rightarrow> nat \<Rightarrow> bool) \<Rightarrow> 'a option list \<Rightarrow> bool \<Rightarrow> nat \<Rightarrow> nat \<Rightarrow> 'a option outcome option"
    fix fnPred d ltr endIndex i r
    assume IH: "\<And>fnPred d ltr endIndex i r. f fnPred d ltr endIndex i = Some r \<Longrightarrow>
        (if ltr then i < endIndex else i > endIndex) \<and> i < length d \<and> \<not> fnPred (d ! i) i \<longrightarrow> False"
      and eq: "(if (if ltr then i < endIndex else i > endIndex) then
         lbind (Some (mem_read d i)) (\<lambda>elemPtr. if fnPred elemPtr i then Some (Done elemPtr)
            else f fnPred d ltr endIndex i) else Some (Done None)) = Some r"
    show "(if ltr then i < endIndex else i > endIndex) \<and> i < length d \<and> \<not> fnPred (d ! i) i \<longrightarrow> False"
    proof (intro impI, elim conjE)
      assume a: "if ltr then i < endIndex else i > endIndex" "i < length d" "\<not> fnPred (d ! i) i"
      with eq have "f fnPred d ltr endIndex i = Some r" by (cases ltr) auto
      with IH a show False by blast
    qed
  qed
  with assms show False by blast
qed

lemma NkVectorFindIf_hangs:
  assumes "if ltr then sInd < eInd else eInd > sInd"
    and "(if ltr then sInd else eInd) < length (mp_dataPtr v)"
    and "\<not> fnPred (mp_dataPtr v ! (if ltr then sInd else eInd)) (if ltr then sInd else eInd)"
  shows "NkVectorFindIf v sInd eInd ltr fnPred = Hang"
proof -
  let ?s = "if ltr then sInd else eInd" and ?e = "if ltr then eInd else sInd"
  have "find_loop fnPred (mp_dataPtr v) ltr ?e ?s = None"
    using find_loop_stuck[of fnPred "mp_dataPtr v" ltr ?e ?s] assms
    by (cases "find_loop fnPred (mp_dataPtr v) ltr ?e ?s") (auto split: if_splits)
  then show ?thesis by (simp add: NkVectorFindIf_def Let_def)
qed

subsection \<open>Filtering and iteration\<close>

text \<open>The elements a filter over the slots \<open>i ..< bound\<close> keeps, in order.\<close>

fun kept :: "('a option \<Rightarrow> nat \<Rightarrow> bool) \<Rightarrow> nat \<Rightarrow> 'a option list \<Rightarrow> 'a option list" where
  "kept f i [] = []"
| "kept f i (x # xs) = (if f x i then x # kept f (Suc i) xs else kept f (Suc i) xs)"

lemma length_kept: "length (kept f i xs) \<le> length xs"
  by (induction f i xs rule: kept.induct) auto

lemma filter_loop_spec:
  assumes "bound \<le> length d" "oi + (bound - i) \<le> length out"
  shows "\<exists>out'. filter_loop f d bound i out oi
        = Done (out', oi + length (kept f i (take (bound - i) (drop i d))))
      \<and> length out' = length out
      \<and> take (oi + length (kept f i (take (bound - i) (drop i d)))) out'
        = take oi out @ kept f i (take (bound - i) (drop i d))"
  using assms
proof (induction "bound - i" arbitrary: i out oi)
  case 0
  then show ?case by (simp add: filter_loop.simps[of f d bound i])
next
  case (Suc m)
  then have i: "i < bound" "i < length d" and m: "m = bound - Suc i" by auto
  have dr: "take (bound - i) (drop i d) = d ! i # take (bound - Suc i) (drop (Suc i) d)"
    using i by (metis Cons_nth_drop_Suc Suc_diff_Suc take_Suc_Cons)
  let ?r = "kept f (Suc i) (take (bound - Suc i) (drop (Suc i) d))"
  show ?case
  proof (cases "f (d ! i) i")
    case True
    have oi: "oi < length out" using Suc.prems i by linarith
    have "Suc oi + (bound - Suc i) \<le> length (out[oi := d ! i])" using Suc.prems i by simp
    from Suc.hyps(1)[OF m Suc.prems(1) this] obtain out' where
      o: "filter_loop f d bound (Suc i) (out[oi := d ! i]) (Suc oi) = Done (out', Suc oi + length ?r)"
      "length out' = length out"
      "take (Suc oi + length ?r) out' = take (Suc oi) (out[oi := d ! i]) @ ?r" by auto
    have "take (Suc oi) (out[oi := d ! i]) = take oi out @ [d ! i]"
      using oi by (simp add: take_Suc_conv_app_nth)
    then show ?thesis
      using True i oi o by (simp add: filter_loop.simps[of f d bound i] dr)
  next
    case False
    have "oi + (bound - Suc i) \<le> length out" using Suc.prems i by linarith
    from Suc.hyps(1)[OF m Suc.prems(1) this] show ?thesis
      using False i by (simp add: filter_loop.simps[of f d bound i] dr)
  qed
qed

lemma foreach_loop_oob:
  assumes "i \<le> lastInd" "length d \<le> lastInd"
    "\<And>s k. k < length d \<Longrightarrow> fst (f s (d ! k) k) = NkErr_Ok"
  shows "foreach_loop f d lastInd i s = Undef"
  using assms
proof (induction "Suc lastInd - i" arbitrary: i s)
  case (Suc m)
  show ?case
  proof (cases "i < length d")
    case True
    obtain s1 where s1: "f s (d ! i) i = (NkErr_Ok, s1)"
      using Suc.prems(3)[OF True, of s] by (metis prod.collapse)
    have "foreach_loop f d lastInd (Suc i) s1 = Undef"
      using Suc True by (intro Suc.hyps(1)) auto
    then show ?thesis using Suc.prems True s1 by (simp add: foreach_loop.simps[of f d lastInd i])
  next
    case False
    then show ?thesis using Suc.prems by (simp add: foreach_loop.simps[of f d lastInd i])
  qed
qed simp

subsection \<open>Reversal\<close>

lemma reverse_loop_step:
  "i \<noteq> j \<Longrightarrow> i < length d \<Longrightarrow> j < length d \<Longrightarrow> length d < 2 ^ 61 \<Longrightarrow>
   reverse_loop d i j = reverse_loop (d[i := d ! j, j := d ! i]) (Suc i) (sub64 j 1)"
  by (simp add: reverse_loop.simps[of d i j] wrap64_small)

lemma reverse_loop_crossed:
  assumes "j < i" "length d < 2 ^ 61" "i < 2 ^ 61"
  shows "reverse_loop d i j = Some Undef"
  using assms
proof (induction j arbitrary: d i)
  case 0
  show ?case
  proof (cases "i < length d")
    case True
    then have "reverse_loop d i 0 = reverse_loop (d[i := d ! 0, 0 := d ! i]) (Suc i) SIZE_MAX"
      using 0 True reverse_loop_step[of i 0 d] by (force simp: sub64_def wrap64_def)
    also have "\<dots> = Some Undef"
      using 0 True by (cases "Suc i < length d")
        (simp_all add: reverse_loop.simps[of _ "Suc i" SIZE_MAX])
    finally show ?thesis .
  next
    case False
    then show ?thesis using 0 by (simp add: reverse_loop.simps[of d i 0])
  qed
next
  case (Suc j)
  show ?case
  proof (cases "i < length d")
    case True
    have sub: "sub64 (Suc j) 1 = j" using Suc.prems by (simp add: sub64_ge)
    have "reverse_loop d i (Suc j) = reverse_loop (d[i := d ! Suc j, Suc j := d ! i]) (Suc i) j"
      using Suc.prems True sub by (simp add: reverse_loop_step)
    also have "\<dots> = Some Undef" using Suc.prems True by (intro Suc.IH) auto
    finally show ?thesis .
  next
    case False
    then show ?thesis using Suc.prems by (simp add: reverse_loop.simps[of d i "Suc j"])
  qed
qed

text \<open>Reversal of the slots \<open>s .. e\<close>, as a list.\<close>

definition reversed_range :: "nat \<Rightarrow> nat \<Rightarrow> 'a list \<Rightarrow> 'a list" where
  "reversed_range s e d = take s d @ rev (take (Suc e - s) (drop s d)) @ drop (Suc e) d"

lemma reversed_range_same: "s < length d \<Longrightarrow> reversed_range s s d = d"
  by (simp add: reversed_range_def take_Suc_conv_app_nth Cons_nth_drop_Suc)

lemma length_reversed_range: "e < length d \<Longrightarrow> s \<le> e \<Longrightarrow> length (reversed_range s e d) = length d"
  by (simp add: reversed_range_def)

lemma nth_reversed_range:
  assumes "s \<le> e" "e < length d" "k < length d"
  shows "reversed_range s e d ! k = (if s \<le> k \<and> k \<le> e then d ! (s + e - k) else d ! k)"
proof -
  consider "k < s" | "s \<le> k" "k \<le> e" | "e < k" by linarith
  then show ?thesis
  proof cases
    case 1
    then show ?thesis using assms by (simp add: reversed_range_def nth_append)
  next
    case 2
    have "Suc e - s - Suc (k - s) = e - k" "s + (e - k) = s + e - k" "k - s < Suc e - s"
      using 2 assms by linarith+
    then show ?thesis using 2 assms by (simp add: reversed_range_def nth_append rev_nth)
  next
    case 3
    then have "k - s - (Suc e - s) = k - Suc e" "\<not> k - s < Suc e - s" using assms by linarith+
    then show ?thesis using 3 assms by (simp add: reversed_range_def nth_append)
  qed
qed

lemma reversed_range_swap:
  assumes "s < e" "e < length d"
  shows "reversed_range (Suc s) (e - 1) (d[s := d ! e, e := d ! s]) = reversed_range s e d"
proof (cases "Suc s \<le> e - 1")
  case True
  show ?thesis
  proof (rule nth_equalityI)
    show "length (reversed_range (Suc s) (e - 1) (d[s := d ! e, e := d ! s]))
        = length (reversed_range s e d)"
      using assms True by (simp add: length_reversed_range)
    fix k assume "k < length (reversed_range (Suc s) (e - 1) (d[s := d ! e, e := d ! s]))"
    then have k: "k < length d" using assms True by (simp add: length_reversed_range)
    consider "k < s \<or> e < k" | "k = s" | "k = e" | "s < k" "k < e" by linarith
    then show "reversed_range (Suc s) (e - 1) (d[s := d ! e, e := d ! s]) ! k
        = reversed_range s e d ! k"
      by cases (use assms True k in \<open>auto simp: nth_reversed_range nth_list_update\<close>)
  qed
next
  case False
  then have e: "e = Suc s" using assms by simp
  show ?thesis
  proof (rule nth_equalityI)
    show "length (reversed_range (Suc s) (e - 1) (d[s := d ! e, e := d ! s]))
        = length (reversed_range s e d)"
      using assms e by (simp add: reversed_range_def)
    fix k assume "k < length (reversed_range (Suc s) (e - 1) (d[s := d ! e, e := d ! s]))"
    then have k: "k < length d" using assms e by (simp add: reversed_range_def)
    have "reversed_range (Suc s) s b = b" for b :: "'a list" by (simp add: reversed_range_def)
    then have "reversed_range (Suc s) (e - 1) (d[s := d ! e, e := d ! s]) = d[s := d ! e, e := d ! s]"
      using e by (metis diff_Suc_1)
    then show "reversed_range (Suc s) (e - 1) (d[s := d ! e, e := d ! s]) ! k
        = reversed_range s e d ! k"
      using assms e k by (auto simp: nth_reversed_range nth_list_update)
  qed
qed

lemma reverse_loop_odd:
  assumes "e = s + 2 * n" "e < length d" "length d < 2 ^ 61"
  shows "reverse_loop d s e = Some (Done (reversed_range s e d))"
  using assms
proof (induction n arbitrary: s e d)
  case 0
  then show ?case by (simp add: reverse_loop.simps[of d s s] reversed_range_same)
next
  case (Suc n)
  let ?d = "d[s := d ! e, e := d ! s]"
  have se: "s < e" using Suc.prems by simp
  have sub: "sub64 e 1 = e - 1" using Suc.prems by (simp add: sub64_ge)
  have "reverse_loop d s e = reverse_loop ?d (Suc s) (e - 1)"
    using Suc.prems se sub by (simp add: reverse_loop_step)
  also have "\<dots> = Some (Done (reversed_range (Suc s) (e - 1) ?d))"
    using Suc.prems by (intro Suc.IH) auto
  also have "reversed_range (Suc s) (e - 1) ?d = reversed_range s e d"
    using se Suc.prems by (intro reversed_range_swap) auto
  finally show ?case .
qed

lemma reverse_loop_even:
  assumes "e = s + 2 * n + 1" "e < length d" "length d < 2 ^ 61"
  shows "reverse_loop d s e = Some Undef"
  using assms
proof (induction n arbitrary: s e d)
  case 0
  have sub: "sub64 e 1 = s" using 0 by (simp add: sub64_ge)
  have "reverse_loop d s e = reverse_loop (d[s := d ! e, e := d ! s]) (Suc s) s"
    using 0 sub by (simp add: reverse_loop_step)
  also have "\<dots> = Some Undef" using 0 by (intro reverse_loop_crossed) auto
  finally show ?case .
next
  case (Suc n)
  have sub: "sub64 e 1 = e - 1" using Suc.prems by (simp add: sub64_ge)
  have "reverse_loop d s e = reverse_loop (d[s := d ! e, e := d ! s]) (Suc s) (e - 1)"
    using Suc.prems sub by (simp add: reverse_loop_step)
  also have "\<dots> = Some Undef" using Suc.prems by (intro Suc.IH) auto
  finally show ?case .
qed

subsection \<open>The sequence contract\<close>

text \<open>
  What the clients of a vector without destructor rely on: a count, indexed access, insertion at
  the end and removal at an index, described by the list of the contents.
\<close>

locale nk_sequence =
  fixes wf :: "'v \<Rightarrow> bool"
    and contents :: "'v \<Rightarrow> 'a list"
    and count :: "'v \<Rightarrow> nat"
    and elem_at :: "'v \<Rightarrow> nat \<Rightarrow> 'a option outcome"
    and room :: "'v \<Rightarrow> bool"
    and push_end :: "'v \<Rightarrow> 'a \<Rightarrow> (NkErrorCode \<times> 'v) outcome"
    and remove_at :: "'v \<Rightarrow> nat \<Rightarrow> (NkErrorCode \<times> 'a option list \<times> 'a option list \<times> 'v) outcome"
  assumes count_contents: "wf v \<Longrightarrow> count v = length (contents v)"
    and at_contents: "wf v \<Longrightarrow> i < length (contents v) \<Longrightarrow> elem_at v i = Done (Some (contents v ! i))"
    and at_outside: "wf v \<Longrightarrow> length (contents v) \<le> i \<Longrightarrow> elem_at v i = Abort NkErr_ArrayElemOutOfBounds"
    and push_end_contents: "wf v \<Longrightarrow> room v \<Longrightarrow>
      \<exists>v'. push_end v x = Done (NkErr_Ok, v') \<and> wf v' \<and> contents v' = contents v @ [x]"
    and remove_at_contents: "wf v \<Longrightarrow> i < length (contents v) \<Longrightarrow>
      \<exists>v'. remove_at v i = Done (NkErr_Ok, [Some (contents v ! i)], [], v') \<and> wf v'
        \<and> contents v' = take i (contents v) @ drop (Suc i) (contents v)"
begin

lemma push_end_count:
  "wf v \<Longrightarrow> room v \<Longrightarrow> push_end v x = Done (ec, v') \<Longrightarrow> ec = NkErr_Ok \<and> wf v' \<and> count v' = Suc (count v)"
  using push_end_contents[of v x] by (auto simp: count_contents)

lemma push_end_keeps_indices:
  assumes "wf v" "room v" "push_end v x = Done (ec, v')" "i < count v"
  shows "elem_at v' i = elem_at v i"
  using push_end_contents[OF assms(1,2), of x] assms
  by (auto simp: at_contents count_contents nth_append)

lemma push_end_remove_at:
  assumes "wf v" "room v" "push_end v x = Done (ec, v')"
  shows "\<exists>v''. remove_at v' (count v) = Done (NkErr_Ok, [Some x], [], v'') \<and> contents v'' = contents v"
  using push_end_contents[OF assms(1,2), of x] assms remove_at_contents[of v' "count v"]
  by (auto simp: count_contents)

lemma remove_at_count:
  "wf v \<Longrightarrow> i < count v \<Longrightarrow> remove_at v i = Done (ec, out, ds, v') \<Longrightarrow> Suc (count v') = count v"
  using remove_at_contents[of v i] by (auto simp: count_contents)

end

lemma NkVectorAt_ok: "vec_wf v \<Longrightarrow> i < m_elemCount v \<Longrightarrow> NkVectorAt v i = Done (Some (vlist v ! i))"
  using vec_wf_count[of v] by (simp add: NkVectorAt_def vec_slot)

lemma NkVectorAt_outside: "m_elemCount v \<le> i \<Longrightarrow> NkVectorAt v i = Abort NkErr_ArrayElemOutOfBounds"
  by (simp add: NkVectorAt_def)

lemma NkVectorInsert_end:
  assumes "vec_wf v" "vec_room heap v 1"
  shows "\<exists>v'. NkVectorInsert heap v (Some x) (m_elemCount v) = Done (NkErr_Ok, v') \<and> vec_wf v'
     \<and> mp_fnDest v' = mp_fnDest v \<and> m_vecProps v' = m_vecProps v \<and> vlist v' = vlist v @ [x]"
  using NkVectorInsertMulti_spec[of v heap "[x]" "m_elemCount v"] assms
  by (auto simp: NkVectorInsert_def)

interpretation vec_seq: nk_sequence
  "\<lambda>v. vec_wf v \<and> \<not> mp_fnDest v" vlist NkVectorGetElementCount NkVectorAt
  "\<lambda>v. vec_room heap v 1" "\<lambda>v x. NkVectorInsert heap v (Some x) (NkVectorGetElementCount v)"
  "\<lambda>v i. NkVectorErase v i outBytes"
  for heap :: heap_answer and outBytes :: nat
proof unfold_locales
  fix v :: "'a NkVector" and i assume v: "vec_wf v \<and> \<not> mp_fnDest v" and i: "i < length (vlist v)"
  then show "\<exists>v'. NkVectorErase v i outBytes = Done (NkErr_Ok, [Some (vlist v ! i)], [], v')
      \<and> (vec_wf v' \<and> \<not> mp_fnDest v') \<and> vlist v' = take i (vlist v) @ drop (Suc i) (vlist v)"
    using NkVectorEraseMulti_spec[of v i 1 outBytes]
    by (auto simp: NkVectorErase_def take_Suc hd_drop_conv_nth)
qed (auto simp: NkVectorGetElementCount_def NkVectorAt_ok NkVectorAt_outside
      dest: NkVectorInsert_end)

subsection \<open>Properties\<close>

text \<open>The vector the witnesses below run on: four slots, the first three in use.\<close>

definition sample_vector :: "bool \<Rightarrow> nat NkVector" where
  "sample_vector dest = \<lparr>m_elemCount = 3, m_elemCap = 5,
     m_vecProps = \<lparr>m_structSize = 40, m_initialCap = 5, m_minCap = 5, m_maxCap = 10, m_growFactor = 2\<rparr>,
     mp_fnDest = dest, mp_dataPtr = [Some 1, Some 2, Some 3, None, None]\<rparr>"

lemma sample_vector_wf [simp]:
  "vec_wf (sample_vector dest)" "vlist (sample_vector dest) = [1, 2, 3]"
  "m_elemCount (sample_vector dest) = 3" "mp_fnDest (sample_vector dest) = dest"
  "mp_dataPtr (sample_vector dest) = [Some 1, Some 2, Some 3, None, None]"
  by (simp_all add: sample_vector_def vec_wf_def vlist_def take_Cons')

lemma sample_vector_room [simp]: "n \<le> 2 \<Longrightarrow> vec_room heap (sample_vector dest) n"
  by (simp add: vec_room_def sample_vector_def)



text \<open>Inserting anywhere else.  The shift reads the caller's array instead of the vector's own
  tail.  If the array is at least as long as the tail, the tail is replaced by a copy of the
  inserted elements; if it is shorter, the call reads outside the array.\<close>

theorem vector_insert_in_the_middle_loses_tail:
  assumes "vec_wf v" "vec_room heap v (length es)" "es \<noteq> []" "length es < 2 ^ 61"
    "index < m_elemCount v"
  shows "if m_elemCount v - index \<le> length es
    then \<exists>v'. NkVectorInsertMulti heap v index (map Some es) (length es) = Done (NkErr_Ok, v')
           \<and> vlist v' = take index (vlist v) @ es @ take (m_elemCount v - index) es
    else NkVectorInsertMulti heap v index (map Some es) (length es) = Undef"
  using NkVectorInsertMulti_spec[of v heap es index] NkVectorInsertMulti_tail_undef[of v heap es index]
    assms by auto

theorem vector_insert_in_the_middle_loses_tail_witness:
  "\<exists>v'. NkVectorInsertMulti (\<lambda>_. True) (sample_vector False) 1 (map Some [8, 9]) 2 = Done (NkErr_Ok, v')
    \<and> vlist v' = [1, 8, 9, 8, 9]"
  using vector_insert_in_the_middle_loses_tail[of "sample_vector False" "\<lambda>_. True" "[8, 9]" 1]
  by (simp flip: numeral_2_eq_2)

text \<open>C23: Erasing without a destructor.  Erasing up to \<open>maxN\<close> elements at a valid index hands
  exactly those elements to the caller in order, closes the gap, destroys nothing and keeps the
  vector well-formed.\<close>

theorem vector_erase_removes_range:
  assumes "vec_wf v" "\<not> mp_fnDest v" "sInd < m_elemCount v" "0 < maxN"
  shows "\<exists>v'. NkVectorEraseMulti v sInd maxN ob
      = Done (NkErr_Ok, map Some (take maxN (drop sInd (vlist v))), [], v')
    \<and> vec_wf v' \<and> vlist v' = take sInd (vlist v) @ drop (sInd + maxN) (vlist v)"
  using NkVectorEraseMulti_spec[OF assms, of ob] by blast

theorem vector_erase_removes_range_witness:
  "\<exists>v'. NkVectorEraseMulti (sample_vector False) 0 2 0 = Done (NkErr_Ok, [Some 1, Some 2], [], v')
    \<and> vec_wf v' \<and> vlist v' = [3]"
  using vector_erase_removes_range[of "sample_vector False" 0 2 0] by (simp add: eval_nat_numeral)

text \<open>Erasing with a destructor.  Whenever the call returns, the destructor has been run on one
  slot more than the vector loses: the slot right behind the erased range.\<close>

theorem vector_erase_destroys_one_too_many:
  assumes "mp_fnDest v" "sInd < m_elemCount v" "0 < maxN"
    "NkVectorEraseMulti v sInd maxN ob = Done (ec, out, ds, v')"
  shows "length ds = Suc (m_elemCount v - m_elemCount v')"
proof -
  let ?k = "min maxN (m_elemCount v - sInd)"
  note r = EraseMulti_destroys_one_more[OF assms]
  have "sInd + ?k < length (mp_dataPtr v)"
  proof (rule ccontr)
    assume "\<not> sInd + ?k < length (mp_dataPtr v)"
    then have "destroy_loop (mp_dataPtr v) sInd (sInd + ?k) = Undef"
      by (intro destroy_loop_oob) auto
    then show False using assms by (auto simp: NkVectorEraseMulti_def VectorTryFreeRange_def Let_def)
  qed
  then show ?thesis using r assms(2) by auto
qed

theorem vector_erase_destroys_one_too_many_witness:
  "\<exists>ec out ds v'. NkVectorEraseMulti (sample_vector True) 0 1 8 = Done (ec, out, ds, v')
    \<and> length ds = Suc (3 - m_elemCount v')"
proof -
  have "case NkVectorEraseMulti (sample_vector True) 0 1 8 of Done r \<Rightarrow> True | _ \<Rightarrow> False"
    by code_simp
  then obtain ec out ds v' where "NkVectorEraseMulti (sample_vector True) 0 1 8 = Done (ec, out, ds, v')"
    by (auto split: outcome.splits)
  with vector_erase_destroys_one_too_many[OF _ _ _ this] show ?thesis by auto
qed

text \<open>Reversal.  A range with an odd number of elements is reversed in place and nothing else
  changes; for a range with an even number of elements the two indices pass each other and the
  loop leaves the buffer.\<close>

theorem vector_reverse_by_parity:
  assumes "vec_wf v" "sInd \<le> eInd" "eInd < m_elemCount v"
  shows "NkVectorReverse v sInd eInd =
    (if even (eInd - sInd)
     then Done (v\<lparr>mp_dataPtr := take sInd (mp_dataPtr v)
            @ rev (take (Suc eInd - sInd) (drop sInd (mp_dataPtr v))) @ drop (Suc eInd) (mp_dataPtr v)\<rparr>)
     else Undef)"
proof -
  have len: "eInd < length (mp_dataPtr v)" "length (mp_dataPtr v) < 2 ^ 61"
    using assms vec_wf_count[of v] by (auto simp: vec_wf_def)
  show ?thesis
  proof (cases "even (eInd - sInd)")
    case True
    then obtain n where "eInd - sInd = 2 * n" by blast
    then have "eInd = sInd + 2 * n" using assms by linarith
    from reverse_loop_odd[OF this len] show ?thesis
      using assms True by (simp add: NkVectorReverse_def reversed_range_def)
  next
    case False
    then obtain n where "eInd - sInd = 2 * n + 1" by (rule oddE)
    then have "eInd = sInd + 2 * n + 1" using assms by linarith
    from reverse_loop_even[OF this len] show ?thesis
      using assms False by (simp add: NkVectorReverse_def)
  qed
qed

theorem vector_reverse_by_parity_witness:
  "NkVectorReverse (sample_vector False) 0 2
     = Done ((sample_vector False)\<lparr>mp_dataPtr := [Some 3, Some 2, Some 1, None, None]\<rparr>)
   \<and> NkVectorReverse (sample_vector False) 1 2 = Undef"
  using vector_reverse_by_parity[of "sample_vector False" 0 2]
    vector_reverse_by_parity[of "sample_vector False" 1 2]
  by (simp add: numeral_2_eq_2 numeral_3_eq_3)

text \<open>Search.  \<open>NkVectorFindIf\<close> never advances its index: unless the range is empty or its
  first candidate already satisfies the predicate, the call does not return.\<close>

theorem vector_find_hangs:
  assumes "vec_wf v" "sInd < eInd" "eInd \<le> m_elemCount v" "\<not> fnPred (mp_dataPtr v ! sInd) sInd"
  shows "NkVectorFindIf v sInd eInd True fnPred = Hang"
  using assms vec_wf_count[of v] by (intro NkVectorFindIf_hangs) auto

theorem vector_find_hangs_witness:
  "NkVectorFindIf (sample_vector False) 0 3 True (\<lambda>e i. e = Some 2) = Hang"
  using vector_find_hangs[of "sample_vector False" 0 3 "\<lambda>e i. e = Some 2"] by simp

text \<open>Filtering from the first element.  \<open>NkVectorFilter\<close> with an output array of \<open>maxN\<close> slots
  fills it with the elements among the first \<open>maxN\<close> that satisfy the predicate, in order, and
  clears the remaining slots.\<close>

theorem vector_filter_collects:
  assumes "vec_wf v" "0 < m_elemCount v" "length out = maxN"
  shows "NkVectorFilter v 0 maxN out fnPred
    = (let ks = kept fnPred 0 (take maxN (map Some (vlist v)))
       in Done (NkErr_Ok, ks @ replicate (maxN - length ks) None))"
proof -
  let ?b = "min maxN (m_elemCount v)"
  have b: "?b \<le> length (mp_dataPtr v)" "0 + (?b - 0) \<le> length out"
    using assms vec_wf_count[of v] by auto
  have eq: "take (?b - 0) (drop 0 (mp_dataPtr v)) = take maxN (map Some (vlist v))"
    using map_Some_vlist[OF assms(1)] by simp
  show ?thesis
    using filter_loop_spec[OF b, of fnPred] assms(2) unfolding eq
    by (auto simp: NkVectorFilter_def Let_def)
qed

theorem vector_filter_collects_witness:
  "NkVectorFilter (sample_vector False) 0 4 (replicate 4 None) (\<lambda>e i. e \<noteq> Some 2)
     = Done (NkErr_Ok, [Some 1, Some 3, None, None])"
  using vector_filter_collects[of "sample_vector False" "replicate 4 None" 4 "\<lambda>e i. e \<noteq> Some 2"]
  by (simp add: eval_nat_numeral)

text \<open>Growth.  Whenever an insertion has to grow the buffer and succeeds, the new capacity is at
  least the configured maximum \<open>m_maxCap\<close>: the limit is applied with \<open>NK_MAX\<close>, so it is a lower
  bound and \<open>NkErr_CapLimitExceeded\<close> is never returned.\<close>

theorem vector_growth_ignores_limit:
  assumes "VectorReserve heap v reqSize = Done (ec, v')" "m_elemCap v < reqSize"
  shows "ec \<noteq> NkErr_CapLimitExceeded \<and>
    (ec = NkErr_Ok \<longrightarrow> m_maxCap (m_vecProps v) \<le> m_elemCap v')"
  using assms
  by (auto simp: VectorReserve_def VectorResizeBuffer_def Let_def nk_outcome split: if_splits)

theorem vector_growth_ignores_limit_witness:
  "\<exists>ec v'. VectorReserve (\<lambda>_. True) (sample_vector False) 6 = Done (ec, v') \<and>
    (ec = NkErr_Ok \<longrightarrow> 10 \<le> m_elemCap v')"
proof -
  have "capAfterGrowing (sample_vector False) = Done 10" by code_simp
  then obtain ec v' where "VectorReserve (\<lambda>_. True) (sample_vector False) 6 = Done (ec, v')"
    by (simp add: VectorReserve_def sample_vector_def VectorResizeBuffer_def NkGPRealloc_def
        wrap64_small)
  with vector_growth_ignores_limit[OF this] show ?thesis by (auto simp: sample_vector_def)
qed

text \<open>The default properties cannot be used: \<open>NkVectorCreate\<close> terminates the process on them,
  because their \<open>m_maxCap\<close> is \<open>SIZE_MAX - 1\<close> and the validation demands less.\<close>

theorem vector_default_properties_rejected:
  "NkVectorCreate poolRes heap NkVectorDefaultProperties fnElemDest = Abort NkErr_InParameter"
  by (simp add: NkVectorCreate_def VectorValidateProperties_def NkVectorDefaultProperties_def)

text \<open>Destruction.  Destroying a well-formed vector runs the installed destructor exactly once
  on every element, in order, and on nothing else.\<close>

theorem vector_destroy_destroys_each_once:
  assumes "vec_wf v"
  shows "NkVectorDestroy v = Done (if mp_fnDest v then map Some (vlist v) else [])"
  using NkVectorDestroy_spec[OF assms] .

theorem vector_destroy_destroys_each_once_witness:
  "NkVectorDestroy (sample_vector True) = Done [Some 1, Some 2, Some 3]"
  using vector_destroy_destroys_each_once[of "sample_vector True"] by simp

end
