(* ===== verification/NkLayer.thy ===== *)
theory NkLayer
  imports NkVector
begin

section \<open>The layer stack (src/Noriko/layer.c)\<close>

text \<open>
  The global layer stack is a vector of layer references without destructor.  The methods of a
  layer are virtual functions supplied by the layers themselves: they are the argument \<open>vt\<close>.  A
  method runs with the lock released, so it may change everything, the stack included; it maps the
  whole state to a result and a new state.  The state \<open>ls_env\<close> stands for everything outside the
  stack, reference counts included.
\<close>

record ('l, 's) layer_state =
  ls_stack :: "'l NkVector option"
  ls_env :: 's

record ('l, 'e, 'st) NkILayer_vt =
  vt_AddRef :: "'l \<Rightarrow> 'st \<Rightarrow> 'st"
  vt_OnPush :: "'l \<Rightarrow> 'l option \<Rightarrow> 'l option \<Rightarrow> nat \<Rightarrow> 'st \<Rightarrow> NkErrorCode \<times> 'st"
  vt_OnEvent :: "'l \<Rightarrow> 'e \<Rightarrow> 'st \<Rightarrow> NkErrorCode \<times> 'st"
  vt_OnUpdate :: "'l \<Rightarrow> rat \<Rightarrow> 'st \<Rightarrow> NkErrorCode \<times> 'st"
  vt_OnRender :: "'l \<Rightarrow> rat \<Rightarrow> 'st \<Rightarrow> NkErrorCode \<times> 'st"

abbreviation NK_AS_NORMAL :: nat where "NK_AS_NORMAL \<equiv> SIZE_MAX"

definition layer_props :: NkVectorProperties where
  "layer_props = \<lparr>m_structSize = 40, m_initialCap = 8, m_minCap = 8, m_maxCap = SIZE_MAX - 2,
     m_growFactor = 3 / 2\<rparr>"

text \<open>The vector behind the stack pointer; using it while the pointer is NULL is undefined.\<close>

definition the_stack :: "('l, 's) layer_state \<Rightarrow> 'l NkVector outcome" where
  "the_stack st = (case ls_stack st of None \<Rightarrow> Undef | Some v \<Rightarrow> Done v)"

subsection \<open>Start-up and shutdown\<close>

text \<open>\<open>lockOk\<close> is the answer of the lock initialisation.\<close>

definition LayerstackStartup ::
    "NkErrorCode \<Rightarrow> heap_answer \<Rightarrow> bool \<Rightarrow> ('l, 's) layer_state \<Rightarrow> (NkErrorCode \<times> ('l, 's) layer_state) outcome" where
  "LayerstackStartup poolRes heap lockOk st =
     nk_assert (ls_stack st = None) NkErr_ComponentState
    (obind (NkVectorCreate poolRes heap layer_props False) (\<lambda>(errCode, v).
       if errCode \<noteq> NkErr_Ok then Done (errCode, st\<lparr>ls_stack := v\<rparr>)
       else if \<not> lockOk then obind (case v of None \<Rightarrow> Done [] | Some v' \<Rightarrow> NkVectorDestroy v') (\<lambda>_.
              Done (NkErr_SynchInit, st\<lparr>ls_stack := None\<rparr>))
       else Done (NkErr_Ok, st\<lparr>ls_stack := v\<rparr>)))"

definition LayerstackShutdown :: "('l, 's) layer_state \<Rightarrow> (NkErrorCode \<times> ('l, 's) layer_state) outcome" where
  "LayerstackShutdown st =
     nk_assert (ls_stack st \<noteq> None) NkErr_ComponentState
    (obind (the_stack st) (\<lambda>v. obind (NkVectorDestroy v) (\<lambda>_.
       Done (NkErr_Ok, st\<lparr>ls_stack := None\<rparr>))))"

subsection \<open>Pushing and popping\<close>

definition NkLayerstackPush ::
    "heap_answer \<Rightarrow> ('l, 'e, ('l, 's) layer_state) NkILayer_vt \<Rightarrow> 'l \<Rightarrow> nat \<Rightarrow> ('l, 's) layer_state
     \<Rightarrow> (NkErrorCode \<times> ('l, 's) layer_state) outcome" where
  "NkLayerstackPush heap vt layerRef whereInd st =
     nk_assert (ls_stack st \<noteq> None) NkErr_ComponentState
    (obind (the_stack st) (\<lambda>v.
     obind (if NkVectorGetElementCount v = 0 \<or> whereInd = 0 then Done None
            else NkVectorAt v (sub64 whereInd 1)) (\<lambda>beforeRef.
     obind (if NkVectorGetElementCount v = 0 \<or> wrap64 (whereInd + 1) \<ge> NkVectorGetElementCount v then Done None
            else NkVectorAt v (wrap64 (whereInd + 1))) (\<lambda>afterRef.
       let (errCode, st1) = vt_OnPush vt layerRef beforeRef afterRef whereInd st in
       if errCode \<noteq> NkErr_Ok then Done (errCode, st1)
       else obind (the_stack st1) (\<lambda>v1.
            obind (NkVectorInsert heap v1 (Some layerRef)
                     (if whereInd \<noteq> NK_AS_NORMAL then whereInd else NkVectorGetElementCount v1)) (\<lambda>(errCode, v2).
              let st2 = st1\<lparr>ls_stack := Some v2\<rparr> in
              Done (errCode, if errCode = NkErr_Ok then vt_AddRef vt layerRef st2 else st2)))))))"

text \<open>\<open>outBytes\<close> is what \<open>NkVectorErase\<close> knows of the caller's output array.  The error code of the
  removal is ignored; the reference is what the removal has written.\<close>

definition NkLayerstackPop ::
    "nat \<Rightarrow> nat \<Rightarrow> ('l, 's) layer_state \<Rightarrow> ('l option list \<times> ('l, 's) layer_state) outcome" where
  "NkLayerstackPop outBytes whereInd st =
     nk_assert (ls_stack st \<noteq> None) NkErr_ComponentState
    (obind (the_stack st) (\<lambda>v.
     obind (NkVectorErase v whereInd outBytes) (\<lambda>(_, layerRef, _, v').
       Done (layerRef, st\<lparr>ls_stack := Some v'\<rparr>))))"

subsection \<open>Dispatch\<close>

text \<open>The layer at an index, read anew in every turn.\<close>

definition layer_at :: "('l, 's) layer_state \<Rightarrow> nat \<Rightarrow> 'l outcome" where
  "layer_at st i = obind (the_stack st) (\<lambda>v. obind (NkVectorAt v i) (\<lambda>l.
     case l of None \<Rightarrow> Abort NkErr_ObjectState | Some currLayer \<Rightarrow> Done currLayer))"

fun on_event_loop ::
    "('l, 'e, ('l, 's) layer_state) NkILayer_vt \<Rightarrow> 'e \<Rightarrow> nat \<Rightarrow> nat \<Rightarrow> ('l, 's) layer_state
     \<Rightarrow> (bool \<times> ('l, 's) layer_state) outcome" where
  "on_event_loop vt ev i 0 st = Done (False, st)"
| "on_event_loop vt ev i (Suc n) st =
     obind (layer_at st i) (\<lambda>currLayer.
       let (ec, st') = vt_OnEvent vt currLayer ev st in
       if ec = NkErr_Ok then Done (True, st') else on_event_loop vt ev (Suc i) n st')"

definition NkLayerstackOnEvent ::
    "('l, 'e, ('l, 's) layer_state) NkILayer_vt \<Rightarrow> 'e \<Rightarrow> ('l, 's) layer_state
     \<Rightarrow> (NkErrorCode \<times> ('l, 's) layer_state) outcome" where
  "NkLayerstackOnEvent vt ev st =
     nk_assert (ls_stack st \<noteq> None) NkErr_ComponentState
    (obind (the_stack st) (\<lambda>v.
     obind (on_event_loop vt ev 0 (NkVectorGetElementCount v) st) (\<lambda>(eventWasHandled, st').
       Done (if eventWasHandled then NkErr_Ok else NkErr_NoOperation, st'))))"

fun on_update_loop ::
    "('l, 'e, ('l, 's) layer_state) NkILayer_vt \<Rightarrow> rat \<Rightarrow> nat \<Rightarrow> nat \<Rightarrow> ('l, 's) layer_state
     \<Rightarrow> ('l, 's) layer_state outcome" where
  "on_update_loop vt updTime i 0 st = Done st"
| "on_update_loop vt updTime i (Suc n) st =
     obind (layer_at st i) (\<lambda>currLayer.
       on_update_loop vt updTime (Suc i) n (snd (vt_OnUpdate vt currLayer updTime st)))"

definition NkLayerstackOnUpdate ::
    "('l, 'e, ('l, 's) layer_state) NkILayer_vt \<Rightarrow> rat \<Rightarrow> ('l, 's) layer_state
     \<Rightarrow> (NkErrorCode \<times> ('l, 's) layer_state) outcome" where
  "NkLayerstackOnUpdate vt updTime st =
     nk_assert (ls_stack st \<noteq> None) NkErr_ComponentState
    (obind (the_stack st) (\<lambda>v.
     obind (on_update_loop vt updTime 0 (NkVectorGetElementCount v) st) (\<lambda>st'. Done (NkErr_Ok, st'))))"

text \<open>The loop from index \<open>n - 1\<close> down to 0.\<close>

fun on_render_loop ::
    "('l, 'e, ('l, 's) layer_state) NkILayer_vt \<Rightarrow> rat \<Rightarrow> nat \<Rightarrow> ('l, 's) layer_state
     \<Rightarrow> ('l, 's) layer_state outcome" where
  "on_render_loop vt aheadBy 0 st = Done st"
| "on_render_loop vt aheadBy (Suc i) st =
     obind (layer_at st i) (\<lambda>currLayer.
       on_render_loop vt aheadBy i (snd (vt_OnRender vt currLayer aheadBy st)))"

definition NkLayerstackOnRender ::
    "('l, 'e, ('l, 's) layer_state) NkILayer_vt \<Rightarrow> rat \<Rightarrow> ('l, 's) layer_state
     \<Rightarrow> (NkErrorCode \<times> ('l, 's) layer_state) outcome" where
  "NkLayerstackOnRender vt aheadBy st =
     nk_assert (ls_stack st \<noteq> None) NkErr_ComponentState
    (obind (the_stack st) (\<lambda>v.
       if NkVectorGetElementCount v = 0 then Done (NkErr_NoOperation, st)
       else obind (on_render_loop vt aheadBy (NkVectorGetElementCount v) st) (\<lambda>st'. Done (NkErr_Ok, st'))))"

fun query_index_loop :: "'l NkVector \<Rightarrow> 'l \<Rightarrow> nat \<Rightarrow> nat \<Rightarrow> nat outcome" where
  "query_index_loop v layerRef i 0 = Done SIZE_MAX"
| "query_index_loop v layerRef i (Suc n) =
     obind (NkVectorAt v i) (\<lambda>l. if l = Some layerRef then Done i else query_index_loop v layerRef (Suc i) n)"

definition NkLayerstackQueryIndex :: "('l, 's) layer_state \<Rightarrow> 'l \<Rightarrow> nat outcome" where
  "NkLayerstackQueryIndex st layerRef =
     obind (the_stack st) (\<lambda>v. query_index_loop v layerRef 0 (NkVectorGetElementCount v))"

subsection \<open>Lemmas\<close>

text \<open>A stack that has been started: a well-formed vector without destructor.\<close>

definition stack_is :: "('l, 's) layer_state \<Rightarrow> 'l NkVector \<Rightarrow> bool" where
  "stack_is st v \<longleftrightarrow> ls_stack st = Some v \<and> vec_wf v \<and> \<not> mp_fnDest v"

lemma layer_at_ok: "stack_is st v \<Longrightarrow> i < length (vlist v) \<Longrightarrow> layer_at st i = Done (vlist v ! i)"
  by (simp add: layer_at_def the_stack_def stack_is_def NkVectorAt_ok)

text \<open>The walks over the layers that the dispatch functions are meant to do.\<close>

fun event_walk :: "('l \<Rightarrow> 'st \<Rightarrow> NkErrorCode \<times> 'st) \<Rightarrow> 'l list \<Rightarrow> 'st \<Rightarrow> bool \<times> 'st" where
  "event_walk h [] st = (False, st)"
| "event_walk h (l # ls) st = (let (ec, st') = h l st in if ec = NkErr_Ok then (True, st') else event_walk h ls st')"

definition call_each :: "('l \<Rightarrow> 'st \<Rightarrow> NkErrorCode \<times> 'st) \<Rightarrow> 'l list \<Rightarrow> 'st \<Rightarrow> 'st" where
  "call_each h ls st = foldl (\<lambda>s l. snd (h l s)) st ls"

text \<open>A method that leaves the stack alone.\<close>

definition keeps_stack :: "('l \<Rightarrow> ('l, 's) layer_state \<Rightarrow> NkErrorCode \<times> ('l, 's) layer_state) \<Rightarrow> bool" where
  "keeps_stack h \<longleftrightarrow> (\<forall>l st. ls_stack (snd (h l st)) = ls_stack st)"

lemma keeps_stackD: "keeps_stack h \<Longrightarrow> stack_is st v \<Longrightarrow> stack_is (snd (h l st)) v"
  by (simp add: keeps_stack_def stack_is_def)

lemma on_event_loop_walk:
  assumes "keeps_stack (\<lambda>l. vt_OnEvent vt l ev)" "stack_is st v" "i + n = length (vlist v)"
  shows "on_event_loop vt ev i n st = Done (event_walk (\<lambda>l. vt_OnEvent vt l ev) (drop i (vlist v)) st)"
  using assms(2,3)
proof (induction n arbitrary: i st)
  case (Suc n)
  have d: "drop i (vlist v) = vlist v ! i # drop (Suc i) (vlist v)" using Suc.prems by (simp add: Cons_nth_drop_Suc)
  obtain ec st' where h: "vt_OnEvent vt (vlist v ! i) ev st = (ec, st')" by fastforce
  then have "stack_is st' v" using keeps_stackD[OF assms(1) Suc.prems(1), of "vlist v ! i"] by simp
  then show ?case using Suc layer_at_ok[of st v i] by (simp add: d h)
qed simp

lemma on_update_loop_each:
  assumes "keeps_stack (\<lambda>l. vt_OnUpdate vt l t)" "stack_is st v" "i + n = length (vlist v)"
  shows "on_update_loop vt t i n st = Done (call_each (\<lambda>l. vt_OnUpdate vt l t) (drop i (vlist v)) st)"
  using assms(2,3)
proof (induction n arbitrary: i st)
  case (Suc n)
  have d: "drop i (vlist v) = vlist v ! i # drop (Suc i) (vlist v)" using Suc.prems by (simp add: Cons_nth_drop_Suc)
  show ?case
    using Suc layer_at_ok[of st v i] keeps_stackD[OF assms(1) Suc.prems(1), of "vlist v ! i"]
    by (simp add: d call_each_def)
qed (simp add: call_each_def)

lemma on_render_loop_each:
  assumes "keeps_stack (\<lambda>l. vt_OnRender vt l t)" "stack_is st v" "i \<le> length (vlist v)"
  shows "on_render_loop vt t i st = Done (call_each (\<lambda>l. vt_OnRender vt l t) (rev (take i (vlist v))) st)"
  using assms(2,3)
proof (induction i arbitrary: st)
  case (Suc i)
  show ?case
    using Suc layer_at_ok[of st v i] keeps_stackD[OF assms(1) Suc.prems(1), of "vlist v ! i"]
    by (simp add: call_each_def take_Suc_conv_app_nth)
qed (simp add: call_each_def)

lemma query_index_first:
  assumes "stack_is st v" "i + n = length (vlist v)"
  shows "query_index_loop v l i n = Done (if l \<in> set (drop i (vlist v))
    then i + length (takeWhile (\<lambda>x. x \<noteq> l) (drop i (vlist v))) else SIZE_MAX)"
  using assms(2)
proof (induction n arbitrary: i)
  case (Suc n)
  have d: "drop i (vlist v) = vlist v ! i # drop (Suc i) (vlist v)" using Suc.prems by (simp add: Cons_nth_drop_Suc)
  have "NkVectorAt v i = Done (Some (vlist v ! i))" using assms(1) Suc.prems by (simp add: stack_is_def NkVectorAt_ok)
  then show ?case using Suc by (auto simp: d)
qed simp

subsection \<open>Properties\<close>

text \<open>The stack the witnesses below run on: two layers, numbered 1 and 2, whose methods log their
  calls; layer 2 handles events.\<close>

definition sample_stack :: "(nat, (string \<times> nat) list) layer_state" where
  "sample_stack = \<lparr>ls_stack = Some \<lparr>m_elemCount = 2, m_elemCap = 8, m_vecProps = layer_props, mp_fnDest = False,
     mp_dataPtr = [Some 1, Some 2, None, None, None, None, None, None]\<rparr>, ls_env = []\<rparr>"

definition log_call :: "string \<Rightarrow> nat \<Rightarrow> (nat, (string \<times> nat) list) layer_state \<Rightarrow> (nat, (string \<times> nat) list) layer_state" where
  "log_call what l st = st\<lparr>ls_env := ls_env st @ [(what, l)]\<rparr>"

definition sample_vt :: "(nat, unit, (nat, (string \<times> nat) list) layer_state) NkILayer_vt" where
  "sample_vt = \<lparr>vt_AddRef = log_call ''AddRef'',
     vt_OnPush = (\<lambda>l b a i st. (NkErr_Ok, log_call ''OnPush'' l st)),
     vt_OnEvent = (\<lambda>l e st. (if l = 2 then NkErr_Ok else NkErr_NoOperation, log_call ''OnEvent'' l st)),
     vt_OnUpdate = (\<lambda>l t st. (NkErr_Ok, log_call ''OnUpdate'' l st)),
     vt_OnRender = (\<lambda>l t st. (NkErr_Ok, log_call ''OnRender'' l st))\<rparr>"

definition sample_layers :: "nat NkVector" where
  "sample_layers = the (ls_stack sample_stack)"

lemma sample_stack_facts [simp]:
  "stack_is sample_stack sample_layers" "vlist sample_layers = [1, 2]" "m_elemCount sample_layers = 2"
  "ls_env sample_stack = []" "vec_room heap sample_layers 1"
  "keeps_stack (\<lambda>l. vt_OnEvent sample_vt l e)" "keeps_stack (\<lambda>l. vt_OnUpdate sample_vt l t)"
  "keeps_stack (\<lambda>l. vt_OnRender sample_vt l t)"
  by (simp_all add: stack_is_def sample_stack_def sample_layers_def vec_wf_def vlist_def vec_room_def
      keeps_stack_def sample_vt_def log_call_def take_Cons' layer_props_def)

text \<open>C24: Dispatch order.  If the methods of the layers leave the stack alone, an event is offered to
  the layers from the first to the last and goes no further than the first one that returns
  \<open>NkErr_Ok\<close>; an update calls every layer from the first to the last; rendering calls every layer
  from the last to the first.\<close>

theorem layerstack_dispatch_order:
  assumes "stack_is st v" "keeps_stack (\<lambda>l. vt_OnEvent vt l ev)" "keeps_stack (\<lambda>l. vt_OnUpdate vt l t)"
    "keeps_stack (\<lambda>l. vt_OnRender vt l t)"
  shows "NkLayerstackOnEvent vt ev st
      = Done (let (h, st') = event_walk (\<lambda>l. vt_OnEvent vt l ev) (vlist v) st in (if h then NkErr_Ok else NkErr_NoOperation, st'))
    \<and> NkLayerstackOnUpdate vt t st = Done (NkErr_Ok, call_each (\<lambda>l. vt_OnUpdate vt l t) (vlist v) st)
    \<and> NkLayerstackOnRender vt t st
      = Done (if vlist v = [] then NkErr_NoOperation else NkErr_Ok, call_each (\<lambda>l. vt_OnRender vt l t) (rev (vlist v)) st)"
proof -
  have s: "ls_stack st = Some v" "NkVectorGetElementCount v = length (vlist v)"
    using assms(1) by (simp_all add: stack_is_def NkVectorGetElementCount_def)
  show ?thesis
    using s on_event_loop_walk[OF assms(2,1), of 0] on_update_loop_each[OF assms(3,1), of 0]
      on_render_loop_each[OF assms(4,1), of "length (vlist v)"]
    by (auto simp: NkLayerstackOnEvent_def NkLayerstackOnUpdate_def NkLayerstackOnRender_def the_stack_def
        call_each_def split: prod.splits)
qed

theorem layerstack_dispatch_order_witness:
  "map_option ls_env (case NkLayerstackOnRender sample_vt 0 sample_stack of Done (_, st) \<Rightarrow> Some st | _ \<Rightarrow> None)
     = Some [(''OnRender'', 2), (''OnRender'', 1)]"
  using layerstack_dispatch_order[of sample_stack sample_layers sample_vt "()" 0]
  by (simp add: call_each_def) (simp add: sample_vt_def log_call_def)

text \<open>Pushing on top and popping.  With room in the vector and an \<open>OnPush\<close> that agrees, pushing at the
  index behind the last layer appends the layer and takes a reference on it; popping that index
  returns the layer and gives the previous stack contents back.\<close>

theorem layerstack_push_pop:
  assumes "stack_is st v" "vec_room heap v 1" "length (vlist v) < 2 ^ 61"
    and "\<forall>b a. fst (vt_OnPush vt l b a (length (vlist v)) st) = NkErr_Ok \<and> ls_stack (snd (vt_OnPush vt l b a (length (vlist v)) st)) = Some v"
    and "\<forall>s. ls_stack (vt_AddRef vt l s) = ls_stack s"
  shows "\<exists>st1 v1. NkLayerstackPush heap vt l (length (vlist v)) st = Done (NkErr_Ok, st1)
    \<and> stack_is st1 v1 \<and> vlist v1 = vlist v @ [l]
    \<and> (\<exists>st2 v2. NkLayerstackPop ob (length (vlist v)) st1 = Done ([Some l], st2) \<and> stack_is st2 v2 \<and> vlist v2 = vlist v)"
proof -
  let ?n = "length (vlist v)"
  have s: "ls_stack st = Some v" "vec_wf v" "\<not> mp_fnDest v" "NkVectorGetElementCount v = ?n"
    using assms(1) by (simp_all add: stack_is_def NkVectorGetElementCount_def)
  have before: "\<exists>b. (if ?n = 0 \<or> ?n = 0 then Done None else NkVectorAt v (sub64 ?n 1)) = Done b"
    using assms(3) s by (auto simp: sub64_ge NkVectorAt_ok)
  then obtain b where b: "(if ?n = 0 \<or> ?n = 0 then Done None else NkVectorAt v (sub64 ?n 1)) = Done b" by blast
  have after: "wrap64 (?n + 1) \<ge> ?n" using assms(3) by (simp add: wrap64_small)
  obtain st1 where op: "vt_OnPush vt l b None ?n st = (NkErr_Ok, st1)" "ls_stack st1 = Some v"
    using assms(4) by (metis prod.collapse)
  obtain v1 where v1: "NkVectorInsert heap v (Some l) ?n = Done (NkErr_Ok, v1)" "vec_wf v1" "\<not> mp_fnDest v1"
    "vlist v1 = vlist v @ [l]"
    using NkVectorInsert_end[OF s(2) assms(2), of l] s by auto
  define st2 where "st2 = vt_AddRef vt l (st1\<lparr>ls_stack := Some v1\<rparr>)"
  have push: "NkLayerstackPush heap vt l ?n st = Done (NkErr_Ok, st2)"
    using s b after op v1(1) assms(3)
    by (cases "m_elemCount v = 0") (simp_all add: NkLayerstackPush_def the_stack_def st2_def)
  have st2: "stack_is st2 v1" using assms(5) v1 by (simp add: stack_is_def st2_def)
  have er: "\<exists>v2. NkVectorErase v1 ?n ob = Done (NkErr_Ok, [Some l], [], v2) \<and> (vec_wf v2 \<and> \<not> mp_fnDest v2) \<and> vlist v2 = vlist v"
    using vec_seq.remove_at_contents[of v1 ?n ob] v1 by auto
  then obtain v2 where "NkLayerstackPop ob ?n st2 = Done ([Some l], st2\<lparr>ls_stack := Some v2\<rparr>)"
    "vec_wf v2" "\<not> mp_fnDest v2" "vlist v2 = vlist v"
    using st2 by (auto simp: NkLayerstackPop_def the_stack_def stack_is_def)
  then show ?thesis using push st2 v1(4) by (force simp: stack_is_def)
qed

theorem layerstack_push_pop_witness:
  "\<exists>st1 v1. NkLayerstackPush (\<lambda>_. False) sample_vt 3 2 sample_stack = Done (NkErr_Ok, st1)
    \<and> stack_is st1 v1 \<and> vlist v1 = [1, 2, 3]"
proof -
  have "\<forall>b a. fst (vt_OnPush sample_vt 3 b a 2 sample_stack) = NkErr_Ok
      \<and> ls_stack (snd (vt_OnPush sample_vt 3 b a 2 sample_stack)) = Some sample_layers"
    "\<forall>s. ls_stack (vt_AddRef sample_vt 3 s) = ls_stack s"
    by (simp_all add: sample_vt_def log_call_def sample_layers_def sample_stack_def)
  moreover have len: "length (vlist sample_layers) = 2" by simp
  ultimately show ?thesis
    using layerstack_push_pop[OF sample_stack_facts(1,5), of sample_vt 3 "\<lambda>_. False" 0, unfolded len]
    by (auto simp: sample_stack_facts(2))
qed

text \<open>Pushing a normal layer.  On a stack that already has a layer, pushing with the documented index
  \<open>NK_AS_NORMAL\<close> terminates the process: the neighbour below is looked up at \<open>SIZE_MAX - 1\<close> before
  the special index is resolved.\<close>

theorem layerstack_push_normal_aborts:
  assumes "stack_is st v" "vlist v \<noteq> []"
  shows "NkLayerstackPush heap vt l NK_AS_NORMAL st = Abort NkErr_ArrayElemOutOfBounds"
proof -
  have s: "ls_stack st = Some v" "vec_wf v" "0 < m_elemCount v"
    using assms by (auto simp: stack_is_def vlist_def)
  have "m_elemCount v < 2 ^ 61" using s(2) by (auto simp: vec_wf_def)
  then have "NkVectorAt v (SIZE_MAX - 1) = Abort NkErr_ArrayElemOutOfBounds"
    by (intro NkVectorAt_outside) simp
  then show ?thesis using s
    by (simp add: NkLayerstackPush_def the_stack_def NkVectorGetElementCount_def sub64_ge)
qed

theorem layerstack_push_normal_aborts_witness:
  "NkLayerstackPush (\<lambda>_. True) sample_vt 3 NK_AS_NORMAL sample_stack = Abort NkErr_ArrayElemOutOfBounds"
  using layerstack_push_normal_aborts[of sample_stack sample_layers "\<lambda>_. True" sample_vt 3] by simp

end
