(* ===== verification/NkTimer.thy ===== *)
theory NkTimer
  imports NkFloat
begin

section \<open>Timers (src/Noriko/timer.c)\<close>

text \<open>
  The tick counter of the platform is the argument \<open>ticks\<close>: it maps the state of the world to a
  reading and the next state.  A timer is the record of its fields; the type is a number, of
  which the enumeration defines only 0.  Results of type \<open>double\<close> are rationals after rounding to
  53 significant bits, or infinite, or not a number.
\<close>

abbreviation (input) NkTiType_Elapsed :: nat where "NkTiType_Elapsed \<equiv> 0"

record NkTimer =
  ti_type :: nat
  ti_isRunning :: bool
  ti_startTime :: "64 word"
  ti_endTime :: "64 word"

record td_context =
  m_timerFrequency :: "64 word"
  m_globalBias :: "64 word"

type_synonym 'w tick_counter = "'w \<Rightarrow> 64 word \<times> 'w"

datatype ieee_double = Finite rat | Infinite bool | NotANumber

definition f64_round :: "rat \<Rightarrow> rat" where
  "f64_round x = (if x = 0 then 0
     else let u = 2 powi (f32_exp x - 52) in of_int (round_half_even (x / u)) * u)"

text \<open>Division of two non-negative finite numbers.\<close>

definition f64_div :: "rat \<Rightarrow> rat \<Rightarrow> ieee_double" where
  "f64_div x y = (if y = 0 then (if x = 0 then NotANumber else Infinite False) else Finite (f64_round (x / y)))"

definition of_double :: "ieee_double \<Rightarrow> rat option" where
  "of_double d = (case d of Finite r \<Rightarrow> Some r | _ \<Rightarrow> None)"

subsection \<open>The global context\<close>

definition NkTimerGetCurrentTicks :: "'w tick_counter \<Rightarrow> 'w \<Rightarrow> 64 word \<times> 'w" where
  "NkTimerGetCurrentTicks ticks w = ticks w"

definition NkTimerGetFrequency :: "('w \<Rightarrow> 64 word) \<Rightarrow> 'w \<Rightarrow> 64 word" where
  "NkTimerGetFrequency freq w = freq w"

fun overhead_loop :: "'w tick_counter \<Rightarrow> nat \<Rightarrow> 64 word \<Rightarrow> 'w \<Rightarrow> 64 word \<times> 'w" where
  "overhead_loop ticks 0 diffSum w = (diffSum, w)"
| "overhead_loop ticks (Suc n) diffSum w =
     (let (startTime, w1) = NkTimerGetCurrentTicks ticks w; (endTime, w2) = NkTimerGetCurrentTicks ticks w1
      in overhead_loop ticks n (diffSum + (endTime - startTime)) w2)"

definition Timer_GetOverhead :: "'w tick_counter \<Rightarrow> 'w \<Rightarrow> 64 word \<times> 'w" where
  "Timer_GetOverhead ticks w = (let (diffSum, w') = overhead_loop ticks 1000 0 w in (diffSum div 1000, w'))"

definition Timer_InitializeStaticContext ::
    "'w tick_counter \<Rightarrow> td_context \<Rightarrow> 'w \<Rightarrow> NkErrorCode \<times> td_context \<times> 'w" where
  "Timer_InitializeStaticContext ticks cx w =
     (let (bias, w') = Timer_GetOverhead ticks w in (NkErr_Ok, cx\<lparr>m_globalBias := bias\<rparr>, w'))"

definition TimingDevCxtStartup :: "'w tick_counter \<Rightarrow> td_context \<Rightarrow> 'w \<Rightarrow> NkErrorCode \<times> td_context \<times> 'w" where
  "TimingDevCxtStartup ticks cx w = Timer_InitializeStaticContext ticks cx w"

definition TimingDevCxtShutdown :: NkErrorCode where
  "TimingDevCxtShutdown = NkErr_Ok"

subsection \<open>Timers\<close>

definition NkTimerStart :: "'w tick_counter \<Rightarrow> NkTimer \<Rightarrow> 'w \<Rightarrow> (NkTimer \<times> 'w) outcome" where
  "NkTimerStart ticks t w =
     nk_assert (\<not> ti_isRunning t) NkErr_ObjectState
    (let (t1, w1) = (if ti_type t = NkTiType_Elapsed
                     then let (now, w') = NkTimerGetCurrentTicks ticks w in (t\<lparr>ti_startTime := now\<rparr>, w') else (t, w))
     in Done (t1\<lparr>ti_isRunning := True\<rparr>, w1))"

definition NkTimerStop :: "'w tick_counter \<Rightarrow> NkTimer \<Rightarrow> 'w \<Rightarrow> (NkTimer \<times> 'w) outcome" where
  "NkTimerStop ticks t w =
     nk_assert (ti_isRunning t) NkErr_ObjectState
    (let (t1, w1) = (if ti_type t = NkTiType_Elapsed
                     then let (now, w') = NkTimerGetCurrentTicks ticks w in (t\<lparr>ti_endTime := now\<rparr>, w') else (t, w))
     in Done (t1\<lparr>ti_isRunning := False\<rparr>, w1))"

definition NkTimerRestart :: "'w tick_counter \<Rightarrow> NkTimer \<Rightarrow> 'w \<Rightarrow> (NkTimer \<times> 'w) outcome" where
  "NkTimerRestart ticks t w =
     nk_assert (ti_isRunning t) NkErr_ObjectState
    (obind (NkTimerStop ticks t w) (\<lambda>(t1, w1). NkTimerStart ticks t1 w1))"

definition NkTimerCreate :: "'w tick_counter \<Rightarrow> nat \<Rightarrow> bool \<Rightarrow> 'w \<Rightarrow> (NkErrorCode \<times> NkTimer \<times> 'w) outcome" where
  "NkTimerCreate ticks tiType isAutoStart w =
     nk_assert (tiType = 0) NkErr_InParameter
    (let t = \<lparr>ti_type = tiType, ti_isRunning = False, ti_startTime = 0, ti_endTime = 0\<rparr> in
     if tiType = NkTiType_Elapsed
     then if isAutoStart then obind (NkTimerStart ticks t w) (\<lambda>(t', w'). Done (NkErr_Ok, t', w')) else Done (NkErr_Ok, t, w)
     else Done (NkErr_NotImplemented, t, w))"

definition NkTimerDestroy :: "'w tick_counter \<Rightarrow> NkTimer option \<Rightarrow> 'w \<Rightarrow> (NkTimer option \<times> 'w) outcome" where
  "NkTimerDestroy ticks ti w =
     (case ti of None \<Rightarrow> Done (None, w)
      | Some t \<Rightarrow> if ti_isRunning t then obind (NkTimerStop ticks t w) (\<lambda>(t', w'). Done (Some t', w')) else Done (Some t, w))"

text \<open>\<open>precId\<close> is the number of units in a second.\<close>

definition NkElapsedTimerGetAs ::
    "'w tick_counter \<Rightarrow> td_context \<Rightarrow> NkTimer \<Rightarrow> nat \<Rightarrow> 'w \<Rightarrow> (ieee_double \<times> 'w) outcome" where
  "NkElapsedTimerGetAs ticks cx t precId w =
     nk_assert (ti_type t = NkTiType_Elapsed) NkErr_ObjectType
    (let (endTime, w1) = (if ti_isRunning t then NkTimerGetCurrentTicks ticks w else (ti_endTime t, w));
         timeDiff = endTime - ti_startTime t - m_globalBias cx;
         unit = f64_div (f64_round (of_nat (unat (m_timerFrequency cx)))) (of_nat precId)
     in Done (case unit of Finite u \<Rightarrow> f64_div (f64_round (of_nat (unat timeDiff))) u | _ \<Rightarrow> NotANumber, w1))"

subsection \<open>Lemmas\<close>

lemma f64_round_0 [simp]: "f64_round 0 = 0"
  by (simp add: f64_round_def)

lemma Startup_keeps_frequency:
  assumes "TimingDevCxtStartup ticks cx w = (ec, cx', w')"
  shows "m_timerFrequency cx' = m_timerFrequency cx"
  using assms by (auto simp: TimingDevCxtStartup_def Timer_InitializeStaticContext_def split: prod.splits)

subsection \<open>Properties\<close>

text \<open>Measuring with a timer.  A timer that is created running, and then stopped, holds the two readings of
  the counter; starting a running timer or stopping a stopped one terminates the process.  The
  elapsed time asked for afterwards is never a finite number: the frequency in the global context
  keeps its initial value 0 through start-up, so the result is infinite, or not a number when
  the difference is 0.\<close>

theorem elapsed_timer_is_never_finite:
  assumes "TimingDevCxtStartup ticks \<lparr>m_timerFrequency = 0, m_globalBias = 0\<rparr> w0 = (NkErr_Ok, cx, w1)" "0 < precId"
  shows "\<exists>t w2 t' w3 r. NkTimerCreate ticks NkTiType_Elapsed True w1 = Done (NkErr_Ok, t, w2)
    \<and> NkTimerStart ticks t w2 = Abort NkErr_ObjectState
    \<and> NkTimerStop ticks t w2 = Done (t', w3) \<and> NkTimerStop ticks t' w3 = Abort NkErr_ObjectState
    \<and> ti_startTime t' = fst (ticks w1) \<and> ti_endTime t' = fst (ticks w2)
    \<and> NkElapsedTimerGetAs ticks cx t' precId w3 = Done (r, w3) \<and> of_double r = None"
proof -
  have f: "m_timerFrequency cx = 0" using Startup_keeps_frequency[OF assms(1)] by simp
  show ?thesis using assms(2)
    by (auto simp: NkTimerCreate_def NkTimerStart_def NkTimerStop_def NkElapsedTimerGetAs_def NkTimerGetCurrentTicks_def
        split_beta Let_def f f64_div_def of_double_def)
qed

theorem elapsed_timer_is_never_finite_witness:
  "\<exists>t w2 t' w3 r. NkTimerCreate (\<lambda>n. (of_nat n, n + 7)) NkTiType_Elapsed True 14000 = Done (NkErr_Ok, t, w2)
    \<and> NkTimerStop (\<lambda>n. (of_nat n, n + 7)) t w2 = Done (t', w3) \<and> ti_startTime t' = 14000 \<and> ti_endTime t' = 14007
    \<and> NkElapsedTimerGetAs (\<lambda>n. (of_nat n, n + 7)) \<lparr>m_timerFrequency = 0, m_globalBias = 7\<rparr> t' 1000 w3 = Done (r, w3)
    \<and> of_double r = None"
proof -
  let ?c = "\<lambda>n :: nat. (of_nat n :: 64 word, n + 7)"
  have step: "overhead_loop ?c n s w = (s + of_nat n * 7, w + 14 * n)" for n s w
    by (induction n arbitrary: s w) (simp_all add: NkTimerGetCurrentTicks_def algebra_simps)
  have "(1000 * 7 :: 64 word) div 1000 = 7" by code_simp
  then have "TimingDevCxtStartup ?c \<lparr>m_timerFrequency = 0, m_globalBias = 0\<rparr> 0
      = (NkErr_Ok, \<lparr>m_timerFrequency = 0, m_globalBias = 7\<rparr>, 14000)"
    by (simp add: TimingDevCxtStartup_def Timer_InitializeStaticContext_def Timer_GetOverhead_def step)
  from elapsed_timer_is_never_finite[OF this, of 1000] show ?thesis
    by (auto simp: NkTimerCreate_def NkTimerStart_def NkTimerGetCurrentTicks_def)
qed

end
