(* ===== verification/NkEvent.thy ===== *)
theory NkEvent
  imports NkLayer NkUtil NkText NkTimer
begin

section \<open>Events (src/Noriko/event.c)\<close>

text \<open>
  Event types and categories are numbers as in the enumerations.  The event data is the union of
  include/Noriko/event.h; window references, key codes and buttons are left as numbers and
  the reserved fields are left out.  Passing
  data of another kind than the event type expects is undefined.
\<close>

record NkWindowEvent =
  mp_wndRef :: nat
  m_wndPos :: NkPoint2D
  m_wndSize :: NkSize2D
  m_totalWndSize :: NkSize2D
  m_wndMode :: nat

record NkKeyboardEvent =
  m_pKeyCode :: int
  m_vNtKeyCode :: int
  m_vKeyCode :: nat

record NkMouseEvent =
  m_curPos :: NkPoint2D
  m_glCurPos :: NkPoint2D
  m_mouseBtn :: nat

datatype event_data = NoEventData | m_wndEvent NkWindowEvent | m_kbEvent NkKeyboardEvent | m_mouseEvent NkMouseEvent

fun data_size :: "event_data \<Rightarrow> nat" where
  "data_size NoEventData = 0"
| "data_size (m_wndEvent _) = 64"
| "data_size (m_kbEvent _) = 16"
| "data_size (m_mouseEvent _) = 40"

record NkEvent =
  m_evType :: nat
  m_evCat :: nat
  m_timestamp :: "64 word"
  m_evData :: event_data

abbreviation (input) NkEvCat_Window :: nat where "NkEvCat_Window \<equiv> 2"
abbreviation (input) NkEvCat_Input :: nat where "NkEvCat_Input \<equiv> 4"
abbreviation (input) NkEvCat_Keyboard :: nat where "NkEvCat_Keyboard \<equiv> 8"
abbreviation (input) NkEvCat_Mouse :: nat where "NkEvCat_Mouse \<equiv> 16"

definition NkEv_Count :: nat where
  "NkEv_Count = 21"

definition NkEvCat_Count :: nat where
  "NkEvCat_Count = 33"

text \<open>The type table: type, categories, size of the data, whether data is expected.  The categories of
  the keyboard and mouse events are the disjunctions \<open>Input | Keyboard\<close> and \<open>Input | Mouse\<close>.\<close>

definition gl_c_EvTypeTbl :: "(nat \<times> nat \<times> nat \<times> bool) list" where
  "gl_c_EvTypeTbl = [(0, 0, 0, False),
     (1, 2, 64, True), (2, 2, 64, True), (3, 2, 64, True), (4, 2, 64, True), (5, 2, 64, True), (6, 2, 64, True),
     (7, 2, 64, True), (8, 2, 64, True), (9, 2, 64, True), (10, 2, 64, True), (11, 2, 64, True), (12, 2, 64, True),
     (13, 12, 16, True), (14, 12, 16, True), (15, 12, 16, True),
     (16, 20, 40, True), (17, 20, 40, True), (18, 20, 40, True), (19, 20, 40, True), (20, 20, 40, True)]"

subsection \<open>Dispatch\<close>

text \<open>\<open>ticks\<close> is the tick counter; it may only change what lies outside the layer stack.\<close>

definition NkEventDispatch ::
    "('l, NkEvent, ('l, 's) layer_state) NkILayer_vt \<Rightarrow> ('l, 's) layer_state tick_counter \<Rightarrow> nat \<Rightarrow> event_data
     \<Rightarrow> ('l, 's) layer_state \<Rightarrow> (NkErrorCode \<times> ('l, 's) layer_state) outcome" where
  "NkEventDispatch vt ticks evType arg st =
     nk_assert (0 < evType \<and> evType < NkEv_Count) NkErr_InParameter
    (let (_, evCat, dataSize, expectData) = gl_c_EvTypeTbl ! evType;
         (now, st1) = NkTimerGetCurrentTicks ticks st;
         specEvent = \<lparr>m_evType = evType, m_evCat = evCat, m_timestamp = now, m_evData = NoEventData\<rparr>
     in if expectData
        then if data_size arg = dataSize then NkLayerstackOnEvent vt (specEvent\<lparr>m_evData := arg\<rparr>) st1 else Undef
        else NkLayerstackOnEvent vt specEvent st1)"

definition NkEventCopy :: "NkEvent \<Rightarrow> NkEvent" where
  "NkEventCopy src = \<lparr>m_evType = m_evType src, m_evCat = m_evCat src, m_timestamp = m_timestamp src, m_evData = m_evData src\<rparr>"

definition gl_c_EventTypeStrings :: "string list" where
  "gl_c_EventTypeStrings = [''NkEv_None'', ''NkEv_WindowOpened'', ''NkEv_WindowClosed'', ''NkEv_WindowGotFocus'',
     ''NkEv_WindowLostFocus'', ''NkEv_WindowResized'', ''NkEv_WindowMinimized'', ''NkEv_WindowMaximized'',
     ''NkEv_WindowRestored'', ''NkEv_WindowMoved'', ''NkEv_WindowFullscreen'', ''NkEv_WindowShown'', ''NkEv_WindowHidden'',
     ''NkEv_KeyboardKeyDown'', ''NkEv_KeyboardKeyUp'', ''NkEv_KeyboardKeyRepeated'',
     ''NkEv_MouseButtonDown'', ''NkEv_MouseButtonUp'', ''NkEv_MouseMoved'', ''NkEv_MouseScrollUp'', ''NkEv_MouseScrollDown'']"

definition NkEventQueryTypeString :: "nat \<Rightarrow> string outcome" where
  "NkEventQueryTypeString evType = mem_read gl_c_EventTypeStrings evType"

text \<open>The sparse table; entries between the categories are empty.\<close>

definition gl_c_EventCategoryStrings :: "nat \<Rightarrow> string" where
  "gl_c_EventCategoryStrings = (\<lambda>_. [])(0 := ''NkEvCat_None'', 1 := ''NkEvCat_Application'', 2 := ''NkEvCat_Window'',
     4 := ''NkEvCat_Input'', 8 := ''NkEvCat_Keyboard'', 16 := ''NkEvCat_Mouse'', 32 := ''NkEvCat_User'')"

definition NkEventQueryCategoryString :: "int \<Rightarrow> string outcome" where
  "NkEventQueryCategoryString evCat =
     nk_assert (0 \<le> evCat \<and> and evCat (evCat - 1) = 0 \<and> evCat < int NkEvCat_Count) NkErr_InParameter
       (Done (gl_c_EventCategoryStrings (nat evCat)))"

definition NkEventQueryCategories :: "nat \<Rightarrow> nat outcome" where
  "NkEventQueryCategories evType =
     nk_assert (0 < evType \<and> evType < NkEv_Count) NkErr_InParameter (Done (fst (snd (gl_c_EvTypeTbl ! evType))))"

subsection \<open>Properties\<close>

text \<open>The kind of data the documentation asks for, and the categories of an event type.\<close>

definition event_kind_ok :: "nat \<Rightarrow> event_data \<Rightarrow> bool" where
  "event_kind_ok evType d \<longleftrightarrow> (case d of NoEventData \<Rightarrow> False | m_wndEvent _ \<Rightarrow> evType \<in> {1..12}
     | m_kbEvent _ \<Rightarrow> evType \<in> {13..15} | m_mouseEvent _ \<Rightarrow> evType \<in> {16..20})"

definition event_categories :: "event_data \<Rightarrow> nat" where
  "event_categories d = (case d of NoEventData \<Rightarrow> 0 | m_wndEvent _ \<Rightarrow> NkEvCat_Window
     | m_kbEvent _ \<Rightarrow> or NkEvCat_Input NkEvCat_Keyboard | m_mouseEvent _ \<Rightarrow> or NkEvCat_Input NkEvCat_Mouse)"

definition event_for :: "'st tick_counter \<Rightarrow> nat \<Rightarrow> event_data \<Rightarrow> 'st \<Rightarrow> NkEvent" where
  "event_for ticks evType arg st =
     \<lparr>m_evType = evType, m_evCat = event_categories arg, m_timestamp = fst (ticks st), m_evData = arg\<rparr>"

lemma type_table:
  assumes "event_kind_ok evType d"
  shows "gl_c_EvTypeTbl ! evType = (evType, event_categories d, data_size d, True)" "0 < evType" "evType < NkEv_Count"
proof -
  have all: "\<forall>t \<in> set [1..<21]. gl_c_EvTypeTbl ! t
      = (t, if t \<le> 12 then 2 else if t \<le> 15 then 12 else 20, if t \<le> 12 then 64 else if t \<le> 15 then 16 else 40, True)"
    by code_simp
  show "0 < evType" "evType < NkEv_Count"
    using assms by (auto simp: event_kind_ok_def NkEv_Count_def split: event_data.splits)
  then have "evType \<in> set [1..<21]" by (auto simp: NkEv_Count_def)
  from bspec[OF all this] show "gl_c_EvTypeTbl ! evType = (evType, event_categories d, data_size d, True)"
    using assms by (auto simp: event_kind_ok_def event_categories_def split: event_data.splits)
qed

text \<open>C25: Event dispatch.  Dispatching an event with the data its type asks for hands the layers, from the
  first on, an event with that type, the categories of its kind, the current tick count and a copy
  of the data, until one of them handles it.\<close>

theorem event_dispatch_reaches_layers:
  assumes "event_kind_ok evType arg" "stack_is st v" "ls_stack (snd (ticks st)) = ls_stack st"
    "keeps_stack (\<lambda>l. vt_OnEvent vt l (event_for ticks evType arg st))"
  shows "NkEventDispatch vt ticks evType arg st
    = Done (let (h, st') = event_walk (\<lambda>l. vt_OnEvent vt l (event_for ticks evType arg st)) (vlist v) (snd (ticks st))
            in (if h then NkErr_Ok else NkErr_NoOperation, st'))"
proof -
  have st1: "stack_is (snd (ticks st)) v" using assms(2,3) by (simp add: stack_is_def)
  then have s: "ls_stack (snd (ticks st)) = Some v" "NkVectorGetElementCount v = length (vlist v)"
    by (simp_all add: stack_is_def NkVectorGetElementCount_def)
  have "NkEventDispatch vt ticks evType arg st = NkLayerstackOnEvent vt (event_for ticks evType arg st) (snd (ticks st))"
    using type_table[OF assms(1)] by (simp add: NkEventDispatch_def NkTimerGetCurrentTicks_def split_beta event_for_def)
  also have "\<dots> = Done (let (h, st') = event_walk (\<lambda>l. vt_OnEvent vt l (event_for ticks evType arg st)) (vlist v) (snd (ticks st))
            in (if h then NkErr_Ok else NkErr_NoOperation, st'))"
    using s on_event_loop_walk[OF assms(4) st1, of 0]
    by (auto simp: NkLayerstackOnEvent_def the_stack_def split: prod.splits)
  finally show ?thesis .
qed


text \<open>The witness dispatches a key event to the two layers of the sample stack, of which the second one
  handles it.\<close>

definition sample_event_vt :: "(nat, NkEvent, (nat, (string \<times> nat) list) layer_state) NkILayer_vt" where
  "sample_event_vt = \<lparr>vt_AddRef = log_call ''AddRef'', vt_OnPush = (\<lambda>l b a i st. (NkErr_Ok, st)),
     vt_OnEvent = (\<lambda>l e st. (if l = 2 then NkErr_Ok else NkErr_NoOperation, log_call ''OnEvent'' (m_evCat e) st)),
     vt_OnUpdate = (\<lambda>l t st. (NkErr_Ok, st)), vt_OnRender = (\<lambda>l t st. (NkErr_Ok, st))\<rparr>"

definition sample_key :: event_data where
  "sample_key = m_kbEvent \<lparr>m_pKeyCode = 30, m_vNtKeyCode = 65, m_vKeyCode = 1\<rparr>"

theorem event_dispatch_reaches_layers_witness:
  "\<exists>st'. NkEventDispatch sample_event_vt (\<lambda>st. (42, st)) 13 sample_key sample_stack = Done (NkErr_Ok, st')
    \<and> ls_env st' = [(''OnEvent'', 12), (''OnEvent'', 12)]"
proof -
  have k: "event_kind_ok 13 sample_key" "event_categories sample_key = 12"
    by (simp_all add: event_kind_ok_def sample_key_def event_categories_def)
  have "keeps_stack (\<lambda>l. vt_OnEvent sample_event_vt l (event_for (\<lambda>st. (42, st)) 13 sample_key sample_stack))"
    by (simp add: keeps_stack_def sample_event_vt_def log_call_def)
  from event_dispatch_reaches_layers[OF k(1) sample_stack_facts(1) _ this] show ?thesis
    by (simp add: sample_event_vt_def event_for_def k(2) log_call_def)
qed

end
