(* ===== verification/NkEnv.thy ===== *)
theory NkEnv
  imports NkHashtable
begin

section \<open>Command line and environment options (src/Noriko/env.c)\<close>

text \<open>
  The store is a hash table keyed by string views.  A value is modelled by the variant it points
  to, restricted to the three types the parser writes.  \<open>strtod\<close> is the conversion of the C library.
  \<open>pool\<close> gives the results of the two pool allocations made for the option at an index: first the key,
  then the value.  Log output is left out.
\<close>

datatype 'd env_variant = EnvBoolean bool | EnvDouble 'd | EnvStringView NkStringView

type_synonym 'd env_store = "'d env_variant NkHashtable"

definition isdigit :: "char \<Rightarrow> bool" where
  "isdigit c \<longleftrightarrow> c \<in> set ''0123456789''"

lemma hd0_hd: "s \<noteq> [] \<Longrightarrow> hd0 s = hd s"
  by (cases s) simp_all

lemma isdigit_hd0: "isdigit (hd0 s) \<Longrightarrow> s \<noteq> []"
  by (auto simp: isdigit_def)

subsection \<open>Parsing\<close>

text \<open>The character pointer is the rest of the string.\<close>

definition EnvExpectChars :: "string \<Rightarrow> string \<Rightarrow> NkErrorCode \<times> string" where
  "EnvExpectChars expPtr ch =
     (if strpbrk ch expPtr \<noteq> Some 0 then (NkErr_UnexpectedCharacter, ch) else (NkErr_Ok, tl ch))"

text \<open>The idiom \<open>test && --charsToGo && ++decPtr\<close>: the counter is decremented, with wrap-around, and
  the pointer only moves when the counter has not become zero.\<close>

definition num_step :: "bool \<Rightarrow> nat \<Rightarrow> string \<Rightarrow> bool \<times> nat \<times> string" where
  "num_step test charsToGo dec =
     (if test then let n = sub64 charsToGo 1 in if n \<noteq> 0 then (True, n, tl dec) else (False, n, dec)
      else (False, charsToGo, dec))"

function num_digits :: "nat \<Rightarrow> string \<Rightarrow> nat \<times> string" where
  "num_digits charsToGo dec =
     (case num_step (isdigit (hd0 dec)) charsToGo dec of
        (True, n, dec') \<Rightarrow> num_digits n dec' | (False, n, dec') \<Rightarrow> (n, dec'))"
  by auto
termination
  by (relation "measure (\<lambda>(n, dec). length dec)")
    (auto simp: num_step_def Let_def dest!: isdigit_hd0 split: if_splits)

declare num_digits.simps [simp del]

definition EnvParseNumber :: "(string \<Rightarrow> 'd) \<Rightarrow> NkStringView \<Rightarrow> NkErrorCode \<times> 'd env_variant option" where
  "EnvParseNumber strtod rawVal =
     (let charsToGo = sv_sizeInBytes rawVal; dec = sv_dataPtr rawVal;
          (_, charsToGo, dec) = num_step (hd0 dec = CHR ''+'' \<or> hd0 dec = CHR ''-'') charsToGo dec;
          (charsToGo, dec) = num_digits charsToGo dec;
          (_, charsToGo, dec) = num_step (hd0 dec = CHR ''.'') charsToGo dec;
          (charsToGo, dec) = num_digits charsToGo dec
      in if 0 < charsToGo \<and> \<not> isdigit (hd0 dec) \<and> hd0 dec \<noteq> NUL then (NkErr_UnexpectedCharacter, None)
         else (NkErr_Ok, Some (EnvDouble (strtod (sv_dataPtr rawVal)))))"

definition gl_BoolMappings :: "(NkStringView \<times> bool) list" where
  "gl_BoolMappings = [(NkStringViewSet ''true'', True), (NkStringViewSet ''yes'', True),
     (NkStringViewSet ''false'', False), (NkStringViewSet ''no'', False),
     (NkStringViewSet ''on'', True), (NkStringViewSet ''off'', False)]"

fun bool_loop :: "(NkStringView \<times> bool) list \<Rightarrow> NkStringView \<Rightarrow> 'd env_variant option \<Rightarrow> 'd env_variant option" where
  "bool_loop [] sv tmpResult = tmpResult"
| "bool_loop ((s, b) # ms) sv tmpResult =
     (if NkStringViewCompare s sv = 0 then Some (EnvBoolean b) else bool_loop ms sv tmpResult)"

text \<open>The \<open>switch\<close> on the first character of the value; None is an uninitialised variant.\<close>

definition env_value :: "(string \<Rightarrow> 'd) \<Rightarrow> NkStringView \<Rightarrow> (NkErrorCode \<times> 'd env_variant option) outcome" where
  "env_value strtod val =
     (let c = hd0 (sv_dataPtr val); n = sv_sizeInBytes val in
      if isdigit c \<or> c = CHR ''+'' \<or> c = CHR ''-'' then Done (EnvParseNumber strtod val)
      else if c = CHR 0x22
      then obind (char_at (sv_dataPtr val) (sub64 n 1)) (\<lambda>l.
             if c = l then Done (NkErr_Ok, Some (EnvStringView \<lparr>sv_dataPtr = tl (sv_dataPtr val), sv_sizeInBytes = sub64 n 2\<rparr>))
             else Done (NkErr_Ok, Some (EnvStringView val)))
      else let tmpResult = bool_loop gl_BoolMappings val (None :: 'd env_variant option);
               tmpResult = Some (EnvStringView val)
           in Done (NkErr_Ok, tmpResult))"

text \<open>A view at an offset of a string.\<close>

definition sub_view :: "string \<Rightarrow> nat \<times> nat \<Rightarrow> NkStringView" where
  "sub_view s r = \<lparr>sv_dataPtr = drop (fst r) s, sv_sizeInBytes = snd r\<rparr>"

definition env_trim :: "NkStringView \<Rightarrow> NkStringView outcome" where
  "env_trim sv = obind (NkRawStringTrim (sv_dataPtr sv) (sv_sizeInBytes sv) '' '') (\<lambda>r. Done (sub_view (sv_dataPtr sv) r))"

definition EnvParsePair ::
    "(string \<Rightarrow> 'd) \<Rightarrow> NkErrorCode \<times> NkErrorCode \<Rightarrow> string \<Rightarrow> bool
     \<Rightarrow> (NkErrorCode \<times> NkStringView option \<times> 'd env_variant option) outcome" where
  "EnvParsePair strtod alloc optStr expectPrefix =
     (let (errorCode, startPtr) = (if expectPrefix then EnvExpectChars ''$/-#'' optStr else (NkErr_Ok, optStr)) in
      if errorCode \<noteq> NkErr_Ok then Done (errorCode, None, None)
      else let (paramNameStr, paramValStr) = NkRawStringSplit startPtr ''=:'' in
        obind (env_trim (sub_view startPtr paramNameStr)) (\<lambda>trimmedNameStr.
        obind (env_trim (sub_view startPtr paramValStr)) (\<lambda>trimmedValStr.
        obind (if sv_sizeInBytes trimmedValStr = 0 then Done (NkErr_Ok, None) else env_value strtod trimmedValStr)
          (\<lambda>(errorCode, tmpResult).
          if errorCode \<noteq> NkErr_Ok then Done (errorCode, None, None)
          else if fst alloc \<noteq> NkErr_Ok then Done (fst alloc, None, None)
          else if sv_sizeInBytes trimmedValStr \<noteq> 0 \<and> snd alloc \<noteq> NkErr_Ok then Done (snd alloc, None, None)
          else Done (NkErr_Ok, Some (NkStringViewCopy trimmedNameStr),
                     if sv_sizeInBytes trimmedValStr \<noteq> 0 then tmpResult else None)))))"

subsection \<open>The store\<close>

text \<open>The pairs that are thrown away, because the key exists or the insertion failed, are logged.\<close>

fun option_loop ::
    "'d env_variant ht_context \<Rightarrow> heap_answer \<Rightarrow> byte list \<Rightarrow> (string \<Rightarrow> 'd) \<Rightarrow> (nat \<Rightarrow> NkErrorCode \<times> NkErrorCode) \<Rightarrow> bool
     \<Rightarrow> nat \<Rightarrow> nat \<Rightarrow> string option list \<Rightarrow> 'd env_store
     \<Rightarrow> ((NkStringView \<times> 'd env_variant option) list \<times> 'd env_store) outcome" where
  "option_loop cx heap behind strtod pool hasPrefix i 0 optArray st = Done ([], st)"
| "option_loop cx heap behind strtod pool hasPrefix i (Suc n) (Some opt # optArray) st =
     obind (EnvParsePair strtod (pool i) opt hasPrefix) (\<lambda>(errCode, keyPtr, varPtr).
       case keyPtr of
         None \<Rightarrow> if errCode \<noteq> NkErr_Ok then option_loop cx heap behind strtod pool hasPrefix (Suc i) n optArray st else Undef
       | Some key \<Rightarrow>
           obind (NkHashtableContains cx st behind (mp_svKey key)) (\<lambda>doesExist.
           obind (if doesExist then Done (False, st)
                  else obind (NkHashtableInsert cx heap st \<lparr>m_keyVal = mp_svKey key, mp_valuePtr = varPtr\<rparr>)
                         (\<lambda>(errCode, st1). Done (errCode = NkErr_Ok, st1))) (\<lambda>(added, st1).
           obind (option_loop cx heap behind strtod pool hasPrefix (Suc i) n optArray st1) (\<lambda>(freed, st2).
             Done (if added then freed else (key, varPtr) # freed, st2)))))"
| "option_loop cx heap behind strtod pool hasPrefix i (Suc n) _ st = Undef"

definition EnvParseOptionArray ::
    "'d env_variant ht_context \<Rightarrow> heap_answer \<Rightarrow> byte list \<Rightarrow> (string \<Rightarrow> 'd) \<Rightarrow> (nat \<Rightarrow> NkErrorCode \<times> NkErrorCode)
     \<Rightarrow> nat \<Rightarrow> string option list option \<Rightarrow> bool \<Rightarrow> 'd env_store
     \<Rightarrow> ((NkStringView \<times> 'd env_variant option) list \<times> 'd env_store) outcome" where
  "EnvParseOptionArray cx heap behind strtod pool optCount optArray hasPrefix st =
     (case optArray of None \<Rightarrow> Done ([], st)
      | Some arr \<Rightarrow> option_loop cx heap behind strtod pool hasPrefix 0 optCount arr st)"

definition env_props :: NkHashtableProperties where
  "env_props = \<lparr>ht_structSize = 32, ht_initCap = 16, ht_minCap = 16, ht_maxCap = UINT32_MAX,
     ht_keyType = NkHtKeyTy_StringView, ht_fnElemFree = True\<rparr>"

text \<open>\<open>argc\<close>, \<open>argv\<close> and \<open>envp\<close> come from the application specification.\<close>

definition EnvStartup ::
    "'d env_variant ht_context \<Rightarrow> RandContext \<Rightarrow> NkErrorCode \<Rightarrow> heap_answer \<Rightarrow> byte list \<Rightarrow> (string \<Rightarrow> 'd)
     \<Rightarrow> (bool \<Rightarrow> nat \<Rightarrow> NkErrorCode \<times> NkErrorCode) \<Rightarrow> nat \<Rightarrow> string option list \<Rightarrow> string option list option
     \<Rightarrow> 'd env_store option \<Rightarrow> (NkErrorCode \<times> 'd env_store option) outcome" where
  "EnvStartup cx rnd poolRes heap behind strtod pool argc argv envp gl_EnvStore =
     nk_assert (gl_EnvStore = None) NkErr_ComponentState
    (obind (NkHashtableCreate cx rnd poolRes heap env_props) (\<lambda>(errCode, store, cx', _).
       case store of None \<Rightarrow> Done (errCode, None)
       | Some st \<Rightarrow>
           obind (NkArrayGetDynCount envp) (\<lambda>envCount.
           obind (EnvParseOptionArray cx' heap behind strtod (pool False) (wrap32 envCount) envp False st) (\<lambda>(_, st1).
           obind (EnvParseOptionArray cx' heap behind strtod (pool True) (sub32 argc 1) (Some (tl argv)) True st1) (\<lambda>(_, st2).
             Done (NkErr_Ok, Some st2))))))"

text \<open>The blocks that are given back to the pool: a key and a value, which may be NULL.\<close>

definition EnvFreeElem :: "NkHashtableKey option \<times> 'd env_variant option \<Rightarrow> (NkStringView \<times> 'd env_variant option) outcome" where
  "EnvFreeElem kv = (case fst kv of Some (mp_svKey k) \<Rightarrow> Done (k, snd kv) | _ \<Rightarrow> Undef)"

fun free_all :: "'d env_variant free_log \<Rightarrow> (NkStringView \<times> 'd env_variant option) list outcome" where
  "free_all [] = Done []"
| "free_all (kv # kvs) = obind (EnvFreeElem kv) (\<lambda>f. obind (free_all kvs) (\<lambda>fs. Done (f # fs)))"

definition EnvShutdown ::
    "'d env_store option \<Rightarrow> ((NkStringView \<times> 'd env_variant option) list \<times> NkErrorCode \<times> 'd env_store option) outcome" where
  "EnvShutdown gl_EnvStore =
     obind (free_all (NkHashtableDestroy gl_EnvStore)) (\<lambda>freed. Done (freed, NkErr_Ok, None))"

text \<open>The copy asserts that its source is not NULL.\<close>

definition NkEnvGetValue ::
    "'d env_variant ht_context \<Rightarrow> byte list \<Rightarrow> string \<Rightarrow> 'd env_store option
     \<Rightarrow> (NkErrorCode \<times> 'd env_variant option) outcome" where
  "NkEnvGetValue cx behind keyStr gl_EnvStore =
     (case gl_EnvStore of None \<Rightarrow> Abort NkErr_InParameter
      | Some st \<Rightarrow>
          obind (NkHashtableAt cx st behind (mp_svKey (NkStringViewSet keyStr))) (\<lambda>(errCode, varPtr).
            if errCode \<noteq> NkErr_Ok then Done (errCode, None)
            else nk_assert (varPtr \<noteq> None) NkErr_InParameter (Done (NkErr_Ok, varPtr))))"


subsection \<open>Numbers\<close>

text \<open>An optional sign, digits, an optional point, digits.\<close>

definition skip1 :: "(char \<Rightarrow> bool) \<Rightarrow> string \<Rightarrow> string" where
  "skip1 T s = (if s \<noteq> [] \<and> T (hd s) then tl s else s)"

definition number_text :: "string \<Rightarrow> bool" where
  "number_text s \<longleftrightarrow> dropWhile isdigit (skip1 (\<lambda>c. c = CHR ''.'')
     (dropWhile isdigit (skip1 (\<lambda>c. c = CHR ''+'' \<or> c = CHR ''-'') s))) = []"

lemma skip1_mem: "c \<in> set (skip1 T s) \<Longrightarrow> c \<in> set s"
  by (cases s) (auto simp: skip1_def split: if_splits)

text \<open>The counter and the pointer while \<open>rest\<close> is still to be read.  When everything has been read, the
  pointer rests on the last character, of which \<open>P\<close> is known, or on the terminator.\<close>

definition num_state :: "(char \<Rightarrow> bool) \<Rightarrow> nat \<Rightarrow> string \<Rightarrow> string \<Rightarrow> bool" where
  "num_state P n dec rest \<longleftrightarrow> (if rest = [] then n = 0 \<and> (\<exists>c. dec = [c] \<and> P c) \<or> n \<noteq> 0 \<and> dec = []
     else dec = rest \<and> n = length rest \<and> length rest < 2 ^ 63)"

lemma sub64_1: "0 < n \<Longrightarrow> n < 2 ^ 63 \<Longrightarrow> sub64 n 1 = n - 1"
  by (simp add: sub64_ge)

lemma num_step_state:
  assumes "num_state P n dec rest" "\<not> T NUL" "\<And>c. P c \<Longrightarrow> \<not> T c" "num_step (T (hd0 dec)) n dec = (b, n', dec')"
  shows "num_state (\<lambda>c. P c \<or> T c) n' dec' (skip1 T rest)"
proof (cases rest)
  case Nil
  then show ?thesis using assms by (auto simp: num_state_def num_step_def skip1_def Let_def split: if_splits)
next
  case (Cons c cs)
  then show ?thesis using assms sub64_1[of n]
    by (cases cs) (auto simp: num_state_def num_step_def skip1_def Let_def split: if_splits)
qed

lemma num_digits_Nil: "num_digits n [] = (n, [])"
  by (subst num_digits.simps) (simp add: num_step_def isdigit_def)

lemma num_digits_last: "num_digits 0 [c] = (if isdigit c then (SIZE_MAX, []) else (0, [c]))"
  by (subst num_digits.simps) (simp add: num_step_def num_digits_Nil sub64_def wrap64_def Let_def)

lemma num_digits_end:
  assumes "n = 0 \<and> (\<exists>c. dec = [c] \<and> P c) \<or> n \<noteq> 0 \<and> dec = []" "num_digits n dec = (n', dec')"
  shows "n' = 0 \<and> (\<exists>c. dec' = [c] \<and> P c) \<or> n' \<noteq> 0 \<and> dec' = []"
  using assms by (auto simp: num_digits_Nil num_digits_last split: if_splits)

lemma num_digits_state:
  assumes "num_state P n dec rest" "num_digits n dec = (n', dec')"
  shows "num_state (\<lambda>c. P c \<or> isdigit c) n' dec' (dropWhile isdigit rest)"
  using assms
proof (induction rest arbitrary: n dec)
  case Nil
  then show ?case using num_digits_end[of n dec P n' dec'] by (auto simp: num_state_def)
next
  case (Cons c cs)
  then have d: "dec = c # cs" "n = Suc (length cs)" "Suc (length cs) < 2 ^ 63" by (auto simp: num_state_def)
  show ?case
  proof (cases "isdigit c \<and> cs \<noteq> []")
    case True
    then have "num_digits (length cs) cs = (n', dec')"
      using Cons.prems(2) d sub64_1[of n] by (subst (asm) num_digits.simps) (simp add: num_step_def)
    then show ?thesis using Cons.IH[of "length cs" cs] True d by (auto simp: num_state_def)
  next
    case False
    then show ?thesis
      using Cons.prems(2) d sub64_1[of n]
      by (subst (asm) num_digits.simps) (auto simp: num_step_def num_state_def split: if_splits)
  qed
qed

lemma EnvParseNumber_spec:
  assumes "s \<noteq> []" "NUL \<notin> set s" "length s < 2 ^ 63"
  shows "EnvParseNumber strtod \<lparr>sv_dataPtr = s, sv_sizeInBytes = length s\<rparr>
    = (if number_text s then (NkErr_Ok, Some (EnvDouble (strtod s))) else (NkErr_UnexpectedCharacter, None))"
proof -
  let ?sg = "\<lambda>c. c = CHR ''+'' \<or> c = CHR ''-''" and ?dt = "\<lambda>c. c = CHR ''.''"
  have st0: "num_state (\<lambda>c. False) (length s) s s" using assms by (simp add: num_state_def)
  obtain b1 n1 d1 where 1: "num_step (?sg (hd0 s)) (length s) s = (b1, n1, d1)" by (metis prod_cases3)
  have st1: "num_state (\<lambda>c. ?sg c) n1 d1 (skip1 ?sg s)"
    using num_step_state[where T = ?sg, OF st0 _ _ 1] by simp
  obtain n2 d2 where 2: "num_digits n1 d1 = (n2, d2)" by fastforce
  note st2 = num_digits_state[OF st1 2]
  obtain b3 n3 d3 where 3: "num_step (?dt (hd0 d2)) n2 d2 = (b3, n3, d3)" by (metis prod_cases3)
  have st3: "num_state (\<lambda>c. (?sg c \<or> isdigit c) \<or> ?dt c) n3 d3 (skip1 ?dt (dropWhile isdigit (skip1 ?sg s)))"
    using num_step_state[where T = ?dt, OF st2 _ _ 3] by (auto simp: isdigit_def)
  obtain n4 d4 where 4: "num_digits n3 d3 = (n4, d4)" by fastforce
  note st4 = num_digits_state[OF st3 4]
  let ?r = "dropWhile isdigit (skip1 ?dt (dropWhile isdigit (skip1 ?sg s)))"
  have sub: "set ?r \<subseteq> set s"
    by (auto dest!: set_dropWhileD skip1_mem)
  have "(0 < n4 \<and> \<not> isdigit (hd0 d4) \<and> hd0 d4 \<noteq> NUL) \<longleftrightarrow> ?r \<noteq> []"
  proof (cases "?r = []")
    case True
    then show ?thesis using st4 by (auto simp: num_state_def)
  next
    case False
    moreover have "\<not> isdigit (hd ?r)" using False by (rule hd_dropWhile)
    moreover have "hd ?r \<noteq> NUL" using subsetD[OF sub hd_in_set[OF False]] assms(2) by (intro notI) simp
    moreover have "d4 = ?r" "n4 = length ?r" using st4 False by (simp_all add: num_state_def)
    ultimately show ?thesis by (simp add: hd0_hd)
  qed
  then show ?thesis
    using 1 2 3 4 by (simp add: EnvParseNumber_def number_text_def)
qed


subsection \<open>Options\<close>

text \<open>What an option string means, on the level of texts: None is an option that is not accepted.\<close>

definition env_pair :: "(string \<Rightarrow> 'd) \<Rightarrow> bool \<Rightarrow> string \<Rightarrow> (string \<times> 'd env_variant option) option" where
  "env_pair strtod prefix opt =
     (if prefix \<and> (opt = [] \<or> hd opt \<notin> set ''$/-#'') then None
      else let s = (if prefix then tl opt else opt);
               name = dropWhile (\<lambda>c. c = CHR '' '') (takeWhile (\<lambda>c. c \<notin> set ''=:'') s);
               val = dropWhile (\<lambda>c. c = CHR '' '') (tl (dropWhile (\<lambda>c. c \<notin> set ''=:'') s))
      in if val = [] then Some (name, None)
         else if isdigit (hd val) \<or> hd val = CHR ''+'' \<or> hd val = CHR ''-''
         then if number_text val then Some (name, Some (EnvDouble (strtod val))) else None
         else if hd val = CHR 0x22 \<and> last val = CHR 0x22
         then Some (name, Some (EnvStringView \<lparr>sv_dataPtr = tl val, sv_sizeInBytes = sub64 (length val) 2\<rparr>))
         else Some (name, Some (EnvStringView \<lparr>sv_dataPtr = val, sv_sizeInBytes = length val\<rparr>)))"

lemma trim_tail_stop:
  assumes "p \<le> e" "e \<le> length s" "NUL \<notin> set key" "e < length s \<Longrightarrow> s ! e \<notin> set key"
  shows "trim_tail s key p (int e) = Done (int e)"
  using assms by (subst trim_tail.simps) (auto simp: char_at_def)

lemma takeWhile_take_le: "length (takeWhile P s) \<le> k \<Longrightarrow> takeWhile P (take k s) = takeWhile P s"
proof (induction s arbitrary: k)
  case (Cons c s)
  then show ?case by (cases k) auto
qed simp

lemma env_trim_spec:
  assumes "k \<le> length s" "k < length s \<Longrightarrow> s ! k \<noteq> CHR '' ''"
  defines "d \<equiv> dropWhile (\<lambda>c. c = CHR '' '') s"
  shows "\<exists>n. env_trim \<lparr>sv_dataPtr = s, sv_sizeInBytes = k\<rparr> = Done \<lparr>sv_dataPtr = d, sv_sizeInBytes = n\<rparr>
    \<and> take n d = dropWhile (\<lambda>c. c = CHR '' '') (take k s) \<and> n \<le> length d \<and> (k = length s \<longrightarrow> n = length d)"
proof -
  let ?sp = "\<lambda>c. c = CHR '' ''" and ?l = "length (takeWhile (\<lambda>c. c = CHR '' '') s)"
  have le: "?l \<le> k"
  proof (rule ccontr)
    assume "\<not> ?l \<le> k"
    then have k: "k < ?l" by simp
    then have "takeWhile ?sp s ! k = s ! k" by (rule takeWhile_nth)
    then have "?sp (s ! k)" using nth_mem[OF k] set_takeWhileD by metis
    moreover have "k < length s" using k length_takeWhile_le[of ?sp s] by simp
    ultimately show False using assms(2) by simp
  qed
  have "trim_lead s '' '' 0 = ?l" using trim_lead_spec[of 0 s "'' ''"] by simp
  then have "NkRawStringTrim s k '' '' = Done (?l, k - ?l)"
    using trim_tail_stop[OF le, of s "'' ''"] assms le by (simp add: NkRawStringTrim_def Let_def min_def nat_minus_as_int)
  then have t: "env_trim \<lparr>sv_dataPtr = s, sv_sizeInBytes = k\<rparr> = Done \<lparr>sv_dataPtr = d, sv_sizeInBytes = k - ?l\<rparr>"
    by (simp add: env_trim_def sub_view_def d_def dropWhile_eq_drop)
  have "takeWhile ?sp (take k s) = takeWhile ?sp s"
    using le by (rule takeWhile_take_le)
  then have "take (k - ?l) d = dropWhile ?sp (take k s)"
    using le by (simp add: d_def dropWhile_eq_drop take_drop)
  then show ?thesis using t le assms(1) by (auto simp: d_def dropWhile_eq_drop)
qed


lemma env_value_spec:
  assumes "v \<noteq> []" "NUL \<notin> set v" "length v < 2 ^ 63"
  shows "env_value strtod \<lparr>sv_dataPtr = v, sv_sizeInBytes = length v\<rparr> = Done
    (if isdigit (hd v) \<or> hd v = CHR ''+'' \<or> hd v = CHR ''-''
     then if number_text v then (NkErr_Ok, Some (EnvDouble (strtod v))) else (NkErr_UnexpectedCharacter, None)
     else if hd v = CHR 0x22 \<and> last v = CHR 0x22
     then (NkErr_Ok, Some (EnvStringView \<lparr>sv_dataPtr = tl v, sv_sizeInBytes = sub64 (length v) 2\<rparr>))
     else (NkErr_Ok, Some (EnvStringView \<lparr>sv_dataPtr = v, sv_sizeInBytes = length v\<rparr>)))"
proof -
  have "char_at v (sub64 (length v) 1) = Done (last v)"
    using assms by (simp add: sub64_1[of "length v", simplified] char_at_def last_conv_nth)
  then show ?thesis
    using EnvParseNumber_spec[OF assms, of strtod] assms(1) by (auto simp: env_value_def hd0_hd Let_def)
qed

lemma split_texts:
  fixes s ctrl defines "t \<equiv> takeWhile (\<lambda>c. c \<notin> set ctrl) s"
  obtains o2 where "NkRawStringSplit s ctrl = ((0, length t), (o2, length s - o2))" "o2 \<le> length s"
    "drop o2 s = tl (dropWhile (\<lambda>c. c \<notin> set ctrl) s)"
proof -
  have le: "length t \<le> length s" unfolding t_def by (rule length_takeWhile_le)
  then have "NkRawStringSplit s ctrl = ((0, length t), (min (length t + 1) (length s), length s - min (length t + 1) (length s)))"
    by (auto simp: NkRawStringSplit_def strpbrk_def Let_def t_def)
  moreover have "drop (min (length t + 1) (length s)) s = tl (dropWhile (\<lambda>c. c \<notin> set ctrl) s)"
    by (simp add: dropWhile_eq_drop t_def[symmetric] tl_drop min_def drop_Suc)
  ultimately show thesis using that by simp
qed

lemma takeWhile_delim: "length (takeWhile P s) < length s \<Longrightarrow> \<not> P (s ! length (takeWhile P s))"
  by (rule nth_length_takeWhile)

lemma ParsePair_spec:
  assumes "NUL \<notin> set opt" "length opt < 2 ^ 63"
  shows "case env_pair strtod prefix opt of
      None \<Rightarrow> \<exists>ec. ec \<noteq> NkErr_Ok \<and> EnvParsePair strtod (NkErr_Ok, NkErr_Ok) opt prefix = Done (ec, None, None)
    | Some (name, v) \<Rightarrow> \<exists>key. EnvParsePair strtod (NkErr_Ok, NkErr_Ok) opt prefix = Done (NkErr_Ok, Some key, v)
        \<and> sv_wf key \<and> sv_text key = name"
proof (cases "prefix \<and> (opt = [] \<or> hd opt \<notin> set ''$/-#'')")
  case True
  then have "strpbrk opt ''$/-#'' \<noteq> Some 0" unfolding strpbrk_0 using hd0_hd by metis
  moreover have "env_pair strtod prefix opt = None" unfolding env_pair_def if_P[OF True] ..
  ultimately show ?thesis using True by (simp add: EnvParsePair_def EnvExpectChars_def)
next
  case False
  define s where "s = (if prefix then tl opt else opt)"
  have s: "NUL \<notin> set s" "length s < 2 ^ 63" using assms by (cases opt; simp add: s_def)+
  let ?dl = "\<lambda>c. c \<notin> set ''=:''" and ?sp = "\<lambda>c. c = CHR '' ''"
  let ?nm = "takeWhile ?dl s" and ?vl = "tl (dropWhile ?dl s)"
  obtain o2 where sp: "NkRawStringSplit s ''=:'' = ((0, length ?nm), (o2, length s - o2))" "o2 \<le> length s" "drop o2 s = ?vl"
    by (rule split_texts[of s "''=:''"])
  have vl: "length s - o2 = length ?vl" using sp(3) by (metis length_drop)
  have "length ?nm < length s \<Longrightarrow> s ! length ?nm \<noteq> CHR '' ''" using takeWhile_delim[of ?dl s] by auto
  then obtain n where n: "env_trim \<lparr>sv_dataPtr = s, sv_sizeInBytes = length ?nm\<rparr>
      = Done \<lparr>sv_dataPtr = dropWhile ?sp s, sv_sizeInBytes = n\<rparr>"
    "take n (dropWhile ?sp s) = dropWhile ?sp ?nm" "n \<le> length (dropWhile ?sp s)"
    using env_trim_spec[of "length ?nm" s] length_takeWhile_le[of ?dl s] by (auto simp: takeWhile_eq_take[symmetric])
  have v: "env_trim \<lparr>sv_dataPtr = ?vl, sv_sizeInBytes = length ?vl\<rparr>
      = Done \<lparr>sv_dataPtr = dropWhile ?sp ?vl, sv_sizeInBytes = length (dropWhile ?sp ?vl)\<rparr>"
    using env_trim_spec[of "length ?vl" ?vl] by auto
  let ?v = "dropWhile ?sp ?vl"
  let ?key = "\<lparr>sv_dataPtr = dropWhile ?sp s, sv_sizeInBytes = n\<rparr>"
  have "set ?vl \<subseteq> set s" by (metis sp(3) set_drop_subset)
  then have vn: "NUL \<notin> set ?v" using s(1) by (auto dest!: set_dropWhileD)
  have vlen: "length ?v < 2 ^ 63" using s(2) vl length_dropWhile_le[of ?sp ?vl] by simp
  have key: "sv_wf ?key" "sv_text ?key = dropWhile ?sp ?nm"
    using n s(1) by (auto simp: sv_wf_def sv_text_def dest: set_dropWhileD)
  have pre: "(if prefix then EnvExpectChars ''$/-#'' opt else (NkErr_Ok, opt)) = (NkErr_Ok, s)"
  proof (cases prefix)
    case True
    then have "strpbrk opt ''$/-#'' = Some 0" unfolding strpbrk_0 using False hd0_hd by metis
    then show ?thesis using True by (simp add: EnvExpectChars_def s_def)
  qed (simp add: s_def)
  have p: "EnvParsePair strtod (NkErr_Ok, NkErr_Ok) opt prefix
    = obind (if ?v = [] then Done (NkErr_Ok, None) else env_value strtod \<lparr>sv_dataPtr = ?v, sv_sizeInBytes = length ?v\<rparr>)
       (\<lambda>(ec, r). if ec \<noteq> NkErr_Ok then Done (ec, None, None) else Done (NkErr_Ok, Some ?key, if ?v \<noteq> [] then r else None))"
    unfolding EnvParsePair_def pre using sp n(1) v vl by (simp add: sub_view_def NkStringViewCopy_def cong: if_cong)
  show ?thesis
  proof (cases "?v = []")
    case True
    have "env_pair strtod prefix opt = Some (dropWhile ?sp ?nm, None)"
      unfolding env_pair_def if_not_P[OF False] Let_def s_def[symmetric] if_P[OF True] by (rule refl)
    then show ?thesis using key p True by simp
  next
    case v0: False
    note e = env_value_spec[OF v0 vn vlen, of strtod]
    show ?thesis unfolding p e env_pair_def if_not_P[OF False] Let_def s_def[symmetric] if_not_P[OF v0]
      using key v0 by (simp split del: if_split) (simp split: if_split)
  qed
qed


text \<open>The options as a map in which the first definition of a name wins.\<close>

definition env_add :: "(string \<Rightarrow> 'd) \<Rightarrow> bool \<Rightarrow> (key_ident \<rightharpoonup> 'd env_variant option) \<Rightarrow> string \<Rightarrow> key_ident \<rightharpoonup> 'd env_variant option" where
  "env_add strtod prefix m opt = (case env_pair strtod prefix opt of None \<Rightarrow> m
     | Some (name, v) \<Rightarrow> if IdText name \<in> dom m then m else m(IdText name \<mapsto> v))"

definition env_options :: "(string \<Rightarrow> 'd) \<Rightarrow> string list \<Rightarrow> string list \<Rightarrow> key_ident \<rightharpoonup> 'd env_variant option" where
  "env_options strtod envs args = foldl (env_add strtod True) (foldl (env_add strtod False) Map.empty envs) args"

definition env_string :: "string \<Rightarrow> bool" where
  "env_string s \<longleftrightarrow> NUL \<notin> set s \<and> length s < 2 ^ 63"

definition store_ok :: "'d env_store \<Rightarrow> bool" where
  "store_ok st \<longleftrightarrow> ht_wf st \<and> ht_limits st \<and> ht_htProps st = env_props"

lemma store_okD:
  assumes "store_ok st"
  shows "ht_wf st" "ht_limits st" "ht_keyType (ht_htProps st) = NkHtKeyTy_StringView" "ht_maxCap (ht_htProps st) = UINT32_MAX"
  using assms by (simp_all add: store_ok_def env_props_def)

lemma option_loop_spec:
  assumes "cx_ok cx" "length behind = 8" "store_ok st" "list_all env_string opts" "ht_elemCount st + length opts \<le> 2 ^ 30"
  shows "\<exists>fr st'. option_loop cx (\<lambda>_. True) behind strtod (\<lambda>_. (NkErr_Ok, NkErr_Ok)) prefix i (length opts)
      (map Some opts @ rest) st = Done (fr, st')
    \<and> store_ok st' \<and> ht_map st' = foldl (env_add strtod prefix) (ht_map st) opts \<and> ht_elemCount st' \<le> ht_elemCount st + length opts"
  using assms(3-5)
proof (induction opts arbitrary: st i)
  case (Cons opt opts)
  note st = store_okD[OF Cons.prems(1)]
  have opt: "NUL \<notin> set opt" "length opt < 2 ^ 63" using Cons.prems(2) by (simp_all add: env_string_def)
  note pp = ParsePair_spec[OF opt, of strtod prefix]
  show ?case
  proof (cases "env_pair strtod prefix opt")
    case None
    then obtain ec where "ec \<noteq> NkErr_Ok" "EnvParsePair strtod (NkErr_Ok, NkErr_Ok) opt prefix = Done (ec, None, None)"
      using pp by auto
    then show ?thesis using Cons.IH[OF Cons.prems(1), of "Suc i"] Cons.prems(2,3) None by (auto simp: env_add_def)
  next
    case (Some p)
    obtain name v where p: "p = (name, v)" by fastforce
    obtain key where k: "EnvParsePair strtod (NkErr_Ok, NkErr_Ok) opt prefix = Done (NkErr_Ok, Some key, v)"
      "sv_wf key" "sv_text key = name"
      using pp Some p by auto
    have kv: "key_valid (ht_keyType (ht_htProps st)) (mp_svKey key)" using st k(2) by simp
    have c: "NkHashtableContains cx st behind (mp_svKey key) = Done (IdText name \<in> dom (ht_map st))"
      using NkHashtableContains_spec[OF st(1) kv assms(2), of cx] k(3) by auto
    have "ht_room (\<lambda>_. True) st (Suc (ht_elemCount st))"
      using Cons.prems(3) st(4) by (intro ht_room_granted) auto
    then obtain st1 where ins: "NkHashtableInsert cx (\<lambda>_. True) st \<lparr>m_keyVal = mp_svKey key, mp_valuePtr = v\<rparr> = Done (NkErr_Ok, st1)"
      "ht_wf st1" "ht_htProps st1 = ht_htProps st" "ht_elemCount st1 \<le> Suc (ht_elemCount st)"
      "ht_map st1 = (if IdText name \<in> dom (ht_map st) then ht_map st else (ht_map st)(IdText name \<mapsto> v))"
      using NkHashtableInsert_spec[OF st(1) assms(1) st(2), of "\<lambda>_. True" "\<lparr>m_keyVal = mp_svKey key, mp_valuePtr = v\<rparr>"] kv k(3)
      by auto
    define st2 where "st2 = (if IdText name \<in> dom (ht_map st) then st else st1)"
    have st2: "store_ok st2" "ht_map st2 = env_add strtod prefix (ht_map st) opt" "ht_elemCount st2 \<le> Suc (ht_elemCount st)"
      using ins Cons.prems(1) Some p by (auto simp: st2_def store_ok_def ht_limits_def env_add_def)
    then obtain fr st' where r: "option_loop cx (\<lambda>_. True) behind strtod (\<lambda>_. (NkErr_Ok, NkErr_Ok)) prefix (Suc i) (length opts)
        (map Some opts @ rest) st2 = Done (fr, st')" "store_ok st'"
      "ht_map st' = foldl (env_add strtod prefix) (ht_map st2) opts" "ht_elemCount st' \<le> ht_elemCount st2 + length opts"
      using Cons.IH[OF st2(1), of "Suc i"] Cons.prems(2,3) by auto
    then show ?thesis using k(1) c ins(1) st2 by (cases "IdText name \<in> dom (ht_map st)") (auto simp: st2_def)
  qed
qed auto

lemma dyn_count_strings: "dyn_count_loop (map Some xs @ None # r) n = Done (n + length xs)"
  by (induction xs arbitrary: n) auto

lemma Create_store:
  assumes "cx_ok cx"
  obtains st cx' rnd' where "NkHashtableCreate cx rnd NkErr_Ok (\<lambda>_. True) env_props = Done (NkErr_Ok, Some st, cx', rnd')"
    "store_ok st" "ht_map st = Map.empty" "ht_elemCount st = 0" "cx_ok cx'"
proof -
  obtain cx' rnd' where c: "HashtableInitContext cx rnd = (cx', rnd')" by fastforce
  have cx': "cx_ok cx'" using assms c by (auto simp: HashtableInitContext_def cx_ok_def split: prod.splits if_splits)
  let ?st = "\<lparr>ht_elemCount = 0, ht_currCap = 16, ht_htProps = env_props, ht_elemArray = replicate 16 zero_slot\<rparr>"
  have "NkGPAlloc (\<lambda>_. True) (sizeof_ext_pair * 16) 0 = Done NkErr_Ok" by (simp add: NkGPAlloc_def sizeof_ext_pair_def)
  then have "NkHashtableCreate cx rnd NkErr_Ok (\<lambda>_. True) env_props = Done (NkErr_Ok, Some ?st, cx', rnd')"
    by (simp add: NkHashtableCreate_def c env_props_def)
  moreover have "store_ok ?st" "ht_map ?st = Map.empty"
    by (simp_all add: store_ok_def ht_wf_def ht_limits_def ht_pairs_def ht_map_def env_props_def)
  ultimately show thesis using that cx' by simp
qed


lemma number_text_grammar:
  "number_text s \<longleftrightarrow> (\<exists>sg a dot b. s = sg @ a @ dot @ b \<and> sg \<in> {[], ''+'', ''-''} \<and> list_all isdigit a
     \<and> dot \<in> {[], ''.''} \<and> list_all isdigit b)"
proof
  let ?sg = "\<lambda>c. c = CHR ''+'' \<or> c = CHR ''-''" and ?dt = "\<lambda>c. c = CHR ''.''"
  assume n: "number_text s"
  have skip: "\<exists>x. r = x @ skip1 T r \<and> (x = [] \<or> (\<exists>c. x = [c] \<and> T c))" for T and r :: string
    by (cases r) (auto simp: skip1_def)
  define s1 where "s1 = skip1 ?sg s"
  define s2 where "s2 = dropWhile isdigit s1"
  obtain sg where sg: "s = sg @ s1" "sg \<in> {[], ''+'', ''-''}" using skip[of s ?sg] by (auto simp: s1_def)
  have a: "s1 = takeWhile isdigit s1 @ s2" "list_all isdigit (takeWhile isdigit s1)"
    by (auto simp: s2_def list_all_iff dest: set_takeWhileD)
  obtain dot where dot: "s2 = dot @ skip1 ?dt s2" "dot \<in> {[], ''.''}" using skip[of s2 ?dt] by auto
  have b: "list_all isdigit (skip1 ?dt s2)" using n by (auto simp: number_text_def s1_def s2_def list_all_iff)
  have "s = sg @ takeWhile isdigit s1 @ dot @ skip1 ?dt s2" using sg(1) a(1) dot(1) by metis
  then show "\<exists>sg a dot b. s = sg @ a @ dot @ b \<and> sg \<in> {[], ''+'', ''-''} \<and> list_all isdigit a
     \<and> dot \<in> {[], ''.''} \<and> list_all isdigit b" using sg(2) a(2) dot(2) b by blast
next
  assume "\<exists>sg a dot b. s = sg @ a @ dot @ b \<and> sg \<in> {[], ''+'', ''-''} \<and> list_all isdigit a
     \<and> dot \<in> {[], ''.''} \<and> list_all isdigit b"
  then obtain sg a dot b where s: "s = sg @ a @ dot @ b" "sg \<in> {[], ''+'', ''-''}" "list_all isdigit a"
    "dot \<in> {[], ''.''}" "list_all isdigit b" by blast
  have nd: "\<not> isdigit (CHR ''+'')" "\<not> isdigit (CHR ''-'')" "\<not> isdigit (CHR ''.'')" by (simp_all add: isdigit_def)
  have s1: "skip1 (\<lambda>c. c = CHR ''+'' \<or> c = CHR ''-'') s = a @ dot @ b"
    using s nd by (cases a; cases b) (auto simp: skip1_def)
  have "dropWhile isdigit (a @ dot @ b) = (if dot = [] then [] else dot @ b)"
    using s(3-5) nd by (auto simp: list_all_iff dropWhile_append)
  then show "number_text s" using s1 s(4,5) by (auto simp: number_text_def skip1_def list_all_iff)
qed

lemma EnvStartup_store:
  assumes "cx_ok cx" "length behind = 8" "list_all env_string envs" "list_all env_string args"
    "length envs + length args \<le> 2 ^ 30"
  shows "\<exists>st. EnvStartup cx rnd NkErr_Ok (\<lambda>_. True) behind strtod (\<lambda>_ _. (NkErr_Ok, NkErr_Ok))
      (Suc (length args)) (prog # map Some args) (Some (map Some envs @ [None])) None = Done (NkErr_Ok, Some st)
    \<and> store_ok st \<and> ht_map st = env_options strtod envs args"
proof -
  obtain st cx' rnd' where c: "NkHashtableCreate cx rnd NkErr_Ok (\<lambda>_. True) env_props = Done (NkErr_Ok, Some st, cx', rnd')"
    "store_ok st" "ht_map st = Map.empty" "ht_elemCount st = 0" "cx_ok cx'"
    using Create_store[OF assms(1), of rnd] by blast
  obtain f1 st1 where 1: "option_loop cx' (\<lambda>_. True) behind strtod (\<lambda>_. (NkErr_Ok, NkErr_Ok)) False 0 (length envs)
      (map Some envs @ [None]) st = Done (f1, st1)" "store_ok st1" "ht_map st1 = foldl (env_add strtod False) Map.empty envs"
      "ht_elemCount st1 \<le> length envs"
    using option_loop_spec[OF c(5) assms(2) c(2) assms(3), of strtod False 0 "[None]"] assms(5) c(3,4) by auto
  obtain f2 st2 where 2: "option_loop cx' (\<lambda>_. True) behind strtod (\<lambda>_. (NkErr_Ok, NkErr_Ok)) True 0 (length args)
      (map Some args @ []) st1 = Done (f2, st2)" "store_ok st2" "ht_map st2 = env_options strtod envs args"
    using option_loop_spec[OF c(5) assms(2) 1(2) assms(4), of strtod True 0 "[]"] assms(5) 1(3,4) by (auto simp: env_options_def)
  have n: "wrap32 (length envs) = length envs" "sub32 (Suc (length args)) 1 = length args"
    using assms(5) by (simp_all add: wrap32_small sub32_ge)
  show ?thesis
    using c(1) 1(1) 2 n by (simp add: EnvStartup_def NkArrayGetDynCount_def dyn_count_strings EnvParseOptionArray_def)
qed

lemma EnvGetValue_spec:
  assumes "store_ok st" "length behind = 8" "NUL \<notin> set name"
  shows "NkEnvGetValue cx behind name (Some st) = (case ht_map st (IdText name) of
      None \<Rightarrow> Done (NkErr_ItemNotFound, None) | Some None \<Rightarrow> Abort NkErr_InParameter | Some (Some v) \<Rightarrow> Done (NkErr_Ok, Some v))"
  using NkHashtableAt_spec[OF store_okD(1)[OF assms(1)] _ assms(2), of "mp_svKey (NkStringViewSet name)" cx] assms(3)
    store_okD(3)[OF assms(1)]
  by (auto simp: NkEnvGetValue_def NkStringViewSet_def sv_wf_def sv_text_def split: option.splits)

definition sample_env_cx :: "nat env_variant ht_context" where
  "sample_env_cx = \<lparr>m_hashSeed = 1, ptr_bytes = (\<lambda>_. replicate 8 0)\<rparr>"

subsection \<open>Properties\<close>

text \<open>C18: The option store.  When memory is granted, start-up parses the environment variables and then
  the command line without the program name, and a query afterwards returns the value of the
  first accepted option with that name: environment variables win over the command line and
  options that cannot be parsed are skipped.  A query for an option that was given without a value
  terminates the process.\<close>

theorem env_first_definition_wins:
  assumes "cx_ok cx" "length behind = 8" "list_all env_string envs" "list_all env_string args"
    "length envs + length args \<le> 2 ^ 30"
  shows "\<exists>st. EnvStartup cx rnd NkErr_Ok (\<lambda>_. True) behind strtod (\<lambda>_ _. (NkErr_Ok, NkErr_Ok))
      (Suc (length args)) (prog # map Some args) (Some (map Some envs @ [None])) None = Done (NkErr_Ok, Some st)
    \<and> (NUL \<notin> set name \<longrightarrow> NkEnvGetValue cx2 behind name (Some st) = (case env_options strtod envs args (IdText name) of
         None \<Rightarrow> Done (NkErr_ItemNotFound, None) | Some None \<Rightarrow> Abort NkErr_InParameter
       | Some (Some v) \<Rightarrow> Done (NkErr_Ok, Some v)))"
proof -
  obtain st where "EnvStartup cx rnd NkErr_Ok (\<lambda>_. True) behind strtod (\<lambda>_ _. (NkErr_Ok, NkErr_Ok))
      (Suc (length args)) (prog # map Some args) (Some (map Some envs @ [None])) None = Done (NkErr_Ok, Some st)"
    "store_ok st" "ht_map st = env_options strtod envs args"
    using EnvStartup_store[OF assms] by blast
  then show ?thesis using EnvGetValue_spec[of st behind name cx2] assms(2) by auto
qed

theorem env_first_definition_wins_witness:
  "\<exists>st. EnvStartup sample_env_cx \<lparr>s0 = 1, s1 = 2, s2 = 3, s3 = 4\<rparr> NkErr_Ok (\<lambda>_. True) (replicate 8 0) length (\<lambda>_ _. (NkErr_Ok, NkErr_Ok))
      3 [Some ''rt'', Some ''-home=42'', Some ''/n:1x''] (Some [Some ''home=dir'', None]) None = Done (NkErr_Ok, Some st)
    \<and> NkEnvGetValue sample_env_cx (replicate 8 0) ''home'' (Some st)
      = Done (NkErr_Ok, Some (EnvStringView \<lparr>sv_dataPtr = ''dir'', sv_sizeInBytes = 3\<rparr>))"
  using env_first_definition_wins[of sample_env_cx "replicate 8 0" "[''home=dir'']" "[''-home=42'', ''/n:1x'']"
      "\<lparr>s0 = 1, s1 = 2, s2 = 3, s3 = 4\<rparr>" length "Some ''rt''" "''home''" sample_env_cx]
  by (simp add: sample_env_cx_def cx_ok_def env_string_def env_options_def env_add_def env_pair_def isdigit_def number_text_def skip1_def
      numeral_3_eq_3)

text \<open>Numbers.  A value that reaches to the end of its string is accepted as a number exactly if it is
  an optional sign, digits, an optional decimal point and digits, although the counter of the
  scanner wraps around when the value ends with a digit; then the whole value is handed to \<open>strtod\<close>.\<close>

theorem env_number_syntax:
  assumes "s \<noteq> []" "NUL \<notin> set s" "length s < 2 ^ 63"
  shows "EnvParseNumber strtod (NkStringViewSet s)
    = (if \<exists>sg a dot b. s = sg @ a @ dot @ b \<and> sg \<in> {[], ''+'', ''-''} \<and> list_all isdigit a
         \<and> dot \<in> {[], ''.''} \<and> list_all isdigit b
       then (NkErr_Ok, Some (EnvDouble (strtod s))) else (NkErr_UnexpectedCharacter, None))"
  unfolding NkStringViewSet_def EnvParseNumber_spec[OF assms, of strtod] number_text_grammar[of s] by (rule refl)

theorem env_number_syntax_witness:
  "EnvParseNumber length (NkStringViewSet ''-12.50'') = (NkErr_Ok, Some (EnvDouble 6))"
proof -
  have "''-12.50'' = ''-'' @ ''12'' @ ''.'' @ ''50'' \<and> ''-'' \<in> {[], ''+'', ''-''} \<and> list_all isdigit ''12''
         \<and> ''.'' \<in> {[], ''.''} \<and> list_all isdigit ''50''" by (simp add: isdigit_def)
  then have "\<exists>sg a dot b. ''-12.50'' = sg @ a @ dot @ b \<and> sg \<in> {[], ''+'', ''-''} \<and> list_all isdigit a
         \<and> dot \<in> {[], ''.''} \<and> list_all isdigit b" by (intro exI)
  note c = if_P[OF this, where x = "(NkErr_Ok, Some (EnvDouble (length ''-12.50'')))" and y = "(NkErr_UnexpectedCharacter, None)"]
  have "EnvParseNumber length (NkStringViewSet ''-12.50'') = (NkErr_Ok, Some (EnvDouble (length ''-12.50'')))"
    by (rule trans[OF env_number_syntax[of "''-12.50''" length] c]) simp_all
  then show ?thesis by simp
qed

text \<open>Boolean values.  Whatever the option string is, the parser never produces a boolean: the value
  found in the table of boolean words is overwritten by the text right after the loop.\<close>

theorem env_booleans_are_lost:
  assumes "EnvParsePair strtod alloc opt prefix = Done (ec, key, Some v)"
  shows "v \<noteq> EnvBoolean b"
  using assms
  by (auto simp: EnvParsePair_def env_value_def EnvParseNumber_def Let_def nk_outcome split: if_splits prod.splits)

theorem env_booleans_are_lost_witness:
  "\<exists>key v. EnvParsePair length (NkErr_Ok, NkErr_Ok) ''vsync=true'' False = Done (NkErr_Ok, Some key, Some v)
    \<and> v \<noteq> EnvBoolean True"
proof -
  obtain key where k: "EnvParsePair length (NkErr_Ok, NkErr_Ok) ''vsync=true'' False
      = Done (NkErr_Ok, Some key, Some (EnvStringView \<lparr>sv_dataPtr = ''true'', sv_sizeInBytes = 4\<rparr>))"
    using ParsePair_spec[of "''vsync=true''" length False] by (auto simp: env_pair_def isdigit_def)
  show ?thesis using k env_booleans_are_lost[OF k] by blast
qed

end
