(* ===== verification/NkApplication.thy ===== *)
theory NkApplication
  imports NkOM NkEnv NkLayer NkTimer
begin

section \<open>Application start-up, shutdown and main loop (src/Noriko/application.c)\<close>

text \<open>
  The callbacks of the components change everything but the private start-up record of the
  application: they are functions on the record \<open>app_core\<close>, which holds the instance registry, the
  mode flag, the globals of the hash table module and everything else as \<open>ac_world\<close>.  Start-up and
  shutdown are defined for an arbitrary component table; \<open>gl_c_CompInitTable\<close> is the table of the
  source.  Log output is left out.

  The record \<open>m_compSucc\<close> has three entries, but the shutdown callbacks write entries 3 to 5.  On the
  supported platform these lie in the padding that follows the array, so the array is modelled with
  its five padding bytes.
\<close>

record ('o, 'w) app_core =
  ac_compReg :: "'o NkHashtable option"
  ac_isStandalone :: bool
  ac_htctx :: "'o ht_context"
  ac_rnd :: RandContext
  ac_world :: 'w

record ('o, 'w) app_state =
  as_core :: "('o, 'w) app_core"
  m_compIndex :: nat
  m_compSucc :: "bool list"

type_synonym 'c callback = "'c \<Rightarrow> (NkErrorCode \<times> 'c) outcome"

text \<open>A class identifier is its address and the UUID found there.\<close>

record ('o, 'c) comp_info =
  mp_fnStartup :: "'c callback option"
  mp_fnShutdown :: "'c callback option"
  m_isNkOM :: bool
  mp_clsId :: "64 word \<times> NkUuid"
  mp_fnQueryInst :: "'c \<Rightarrow> 'o option \<times> 'c"

record ('o, 'c) ext_component =
  mp_compInfo :: "('o, 'c) comp_info"
  mp_preStFn :: "'c callback option"
  mp_postStFn :: "'c callback option"
  mp_preShFn :: "'c callback option"
  mp_postShFn :: "'c callback option"

type_synonym ('o, 'w) app_comp = "('o, ('o, 'w) app_core) ext_component"

text \<open>What the functions below need from outside: the answers of the heap, the bytes behind a key on the
  stack and the methods of the registered instances.\<close>

record ('o, 'p, 'w) app_fns =
  af_heap :: heap_answer
  af_behind :: "byte list"
  af_vt :: "('o, 'p, ('o, 'w) app_core) nkom_vt"

datatype cb_index = NkCompCb_PreStartup | NkCompCb_Startup | NkCompCb_PostStartup
  | NkCompCb_PreShutdown | NkCompCb_Shutdown | NkCompCb_PostShutdown

fun cb_nat :: "cb_index \<Rightarrow> nat" where
  "cb_nat NkCompCb_PreStartup = 0" | "cb_nat NkCompCb_Startup = 1" | "cb_nat NkCompCb_PostStartup = 2"
| "cb_nat NkCompCb_PreShutdown = 3" | "cb_nat NkCompCb_Shutdown = 4" | "cb_nat NkCompCb_PostShutdown = 5"

subsection \<open>Invoking callbacks\<close>

fun QueryCompCallback :: "('o, 'c) ext_component \<Rightarrow> cb_index \<Rightarrow> 'c callback option" where
  "QueryCompCallback cmp NkCompCb_PreStartup = mp_preStFn cmp"
| "QueryCompCallback cmp NkCompCb_Startup = mp_fnStartup (mp_compInfo cmp)"
| "QueryCompCallback cmp NkCompCb_PostStartup = mp_postStFn cmp"
| "QueryCompCallback cmp NkCompCb_PreShutdown = mp_preShFn cmp"
| "QueryCompCallback cmp NkCompCb_Shutdown = mp_fnShutdown (mp_compInfo cmp)"
| "QueryCompCallback cmp NkCompCb_PostShutdown = mp_postShFn cmp"

fun QueryOppositeCbIndex :: "cb_index \<Rightarrow> cb_index" where
  "QueryOppositeCbIndex NkCompCb_PreStartup = NkCompCb_PostShutdown"
| "QueryOppositeCbIndex NkCompCb_Startup = NkCompCb_Shutdown"
| "QueryOppositeCbIndex NkCompCb_PostStartup = NkCompCb_PreShutdown"
| "QueryOppositeCbIndex NkCompCb_PreShutdown = NkCompCb_PostStartup"
| "QueryOppositeCbIndex NkCompCb_Shutdown = NkCompCb_Startup"
| "QueryOppositeCbIndex NkCompCb_PostShutdown = NkCompCb_PreStartup"

definition InvokeCompCallback ::
    "('o, 'w) app_comp \<Rightarrow> nat \<Rightarrow> cb_index \<Rightarrow> ('o, 'w) app_state \<Rightarrow> (NkErrorCode \<times> ('o, 'w) app_state) outcome" where
  "InvokeCompCallback cmp index cb st =
     obind (case QueryCompCallback cmp cb of None \<Rightarrow> Done (NkErr_Ok, as_core st) | Some f \<Rightarrow> f (as_core st)) (\<lambda>(errCode, c).
       Done (errCode, \<lparr>as_core = c, m_compIndex = index, m_compSucc = (m_compSucc st)[cb_nat cb := (errCode = NkErr_Ok)]\<rparr>))"

subsection \<open>The instance registry\<close>

text \<open>The hash table functions assert that the table exists.\<close>

definition app_reg :: "NkErrorCode \<Rightarrow> ('o, 'w) app_core \<Rightarrow> 'o NkHashtable outcome" where
  "app_reg ec c = (case ac_compReg c of None \<Rightarrow> Abort ec | Some ht \<Rightarrow> Done ht)"

definition CompRegDestFn ::
    "('o, 'p, ('o, 'w) app_core) nkom_vt \<Rightarrow> NkHashtableKey option \<times> 'o option \<Rightarrow> ('o, 'w) app_core \<Rightarrow> ('o, 'w) app_core outcome" where
  "CompRegDestFn vt kv c =
     nk_assert (fst kv \<noteq> None) NkErr_InOutParameter
       (Done (case snd kv of None \<Rightarrow> c | Some r \<Rightarrow> om_Release vt r c))"

fun dest_all ::
    "('o, 'p, ('o, 'w) app_core) nkom_vt \<Rightarrow> 'o free_log \<Rightarrow> ('o, 'w) app_core \<Rightarrow> ('o, 'w) app_core outcome" where
  "dest_all vt [] c = Done c"
| "dest_all vt (kv # kvs) c = obind (CompRegDestFn vt kv c) (dest_all vt kvs)"

definition NkApplicationQueryInstance ::
    "('o, 'p, 'w) app_fns \<Rightarrow> 64 word \<times> NkUuid \<Rightarrow> ('o, 'w) app_core \<Rightarrow> ('o option \<times> ('o, 'w) app_core) outcome" where
  "NkApplicationQueryInstance fns clsId c =
     obind (app_reg NkErr_InParameter c) (\<lambda>ht.
     obind (NkHashtableAt (ac_htctx c) ht (af_behind fns) (mp_uuidKey (fst clsId) (snd clsId))) (\<lambda>(errCode, res).
       if errCode \<noteq> NkErr_Ok then Done (None, c)
       else case res of None \<Rightarrow> Undef | Some r \<Rightarrow> Done (Some r, om_AddRef (af_vt fns) r c)))"

definition NkApplicationReplaceInstance ::
    "('o, 'p, 'w) app_fns \<Rightarrow> 64 word \<times> NkUuid \<Rightarrow> 'o option \<Rightarrow> ('o, 'w) app_core \<Rightarrow> ('o, 'w) app_core outcome" where
  "NkApplicationReplaceInstance fns clsId newCompRef c =
     obind (app_reg NkErr_InOutParameter c) (\<lambda>ht.
     obind (NkHashtableErase (ac_htctx c) ht (af_behind fns) (mp_uuidKey (fst clsId) (snd clsId))) (\<lambda>(_, freed, ht1).
     obind (dest_all (af_vt fns) freed (c\<lparr>ac_compReg := Some ht1\<rparr>)) (\<lambda>c1.
       case newCompRef of None \<Rightarrow> Done c1
       | Some r \<Rightarrow>
           obind (app_reg NkErr_InOutParameter c1) (\<lambda>ht1.
           obind (NkHashtableInsert (ac_htctx c1) (af_heap fns) ht1
                    \<lparr>m_keyVal = mp_uuidKey (fst clsId) (snd clsId), mp_valuePtr = Some r\<rparr>) (\<lambda>(_, ht2).
             Done (om_AddRef (af_vt fns) r (c1\<lparr>ac_compReg := Some ht2\<rparr>)))))))"

definition NkApplicationIsStandalone :: "('o, 'w) app_core \<Rightarrow> bool" where
  "NkApplicationIsStandalone c = ac_isStandalone c"

text \<open>The callbacks the application adds to two components.  \<open>getEnv\<close> is the query of the environment
  component.  The iteration of \<open>NkOM_PreShutdown\<close> logs the instances that are still registered, but it
  takes each of them for an entry of the component table: with an instance in the registry it is
  undefined.\<close>

definition Env_PostStartup ::
    "(string \<Rightarrow> ('o, 'w) app_core \<Rightarrow> NkErrorCode outcome) \<Rightarrow> ('o, 'w) app_core callback" where
  "Env_PostStartup getEnv c =
     obind (getEnv ''attached'' c) (\<lambda>ec. Done (NkErr_Ok, c\<lparr>ac_isStandalone := (ec \<noteq> NkErr_Ok)\<rparr>))"

definition comp_reg_props :: NkHashtableProperties where
  "comp_reg_props = \<lparr>ht_structSize = 32, ht_initCap = 16, ht_minCap = 16, ht_maxCap = 1024,
     ht_keyType = NkHtKeyTy_Uuid, ht_fnElemFree = True\<rparr>"

definition NkOM_PostStartup :: "NkErrorCode \<Rightarrow> heap_answer \<Rightarrow> ('o, 'w) app_core callback" where
  "NkOM_PostStartup poolRes heap c =
     obind (NkHashtableCreate (ac_htctx c) (ac_rnd c) poolRes heap comp_reg_props) (\<lambda>(errCode, ht, cx, rnd).
       Done (errCode, c\<lparr>ac_compReg := ht, ac_htctx := cx, ac_rnd := rnd\<rparr>))"

definition NkOM_PreShutdown :: "('o, 'p, ('o, 'w) app_core) nkom_vt \<Rightarrow> ('o, 'w) app_core callback" where
  "NkOM_PreShutdown vt c =
     obind (app_reg NkErr_InParameter c) (\<lambda>ht.
     if NkHashtableCount ht \<noteq> 0 then Undef
     else obind (dest_all vt (NkHashtableDestroy (Some ht)) (c\<lparr>ac_compReg := None\<rparr>)) (\<lambda>c1. Done (NkErr_Ok, c1)))"

subsection \<open>Start-up and shutdown\<close>

text \<open>The part of the specification that is validated; later failures win.\<close>

record app_specs =
  sp_argc :: int
  sp_argv :: "string option list option"
  sp_allowedWndModes :: nat

definition ValidateAppSpecification :: "app_specs \<Rightarrow> NkErrorCode" where
  "ValidateAppSpecification specs =
     (let errCode = NkErr_Ok;
          errCode = (if \<not> 0 < sp_argc specs then NkErr_InParameter else errCode);
          errCode = (if sp_argv specs = None then NkErr_InptrParameter else errCode);
          errCode = (if and (sp_allowedWndModes specs) 8 = 0 then NkErr_InParameter else errCode)
      in errCode)"

definition run_stages :: "('o, 'w) app_comp \<Rightarrow> nat \<Rightarrow> ('o, 'w) app_state \<Rightarrow> (NkErrorCode \<times> ('o, 'w) app_state) outcome" where
  "run_stages cmp i st =
     obind (InvokeCompCallback cmp i NkCompCb_PreStartup st) (\<lambda>(ec, st).
       if ec \<noteq> NkErr_Ok then Done (ec, st)
       else obind (InvokeCompCallback cmp i NkCompCb_Startup st) (\<lambda>(ec, st).
         if ec \<noteq> NkErr_Ok then Done (ec, st)
         else InvokeCompCallback cmp i NkCompCb_PostStartup st))"

fun startup_loop :: "('o, 'p, 'w) app_fns \<Rightarrow> nat \<Rightarrow> ('o, 'w) app_comp list \<Rightarrow> ('o, 'w) app_state \<Rightarrow> (NkErrorCode \<times> ('o, 'w) app_state) outcome" where
  "startup_loop fns i [] st = Done (NkErr_Ok, st)"
| "startup_loop fns i (cmp # comps) st =
     obind (run_stages cmp i st) (\<lambda>(errCode, st).
       if errCode \<noteq> NkErr_Ok then Done (errCode, st)
       else obind (if m_isNkOM (mp_compInfo cmp)
                   then let (inst, c) = mp_fnQueryInst (mp_compInfo cmp) (as_core st)
                        in NkApplicationReplaceInstance fns (mp_clsId (mp_compInfo cmp)) inst c
                   else Done (as_core st)) (\<lambda>c.
         startup_loop fns (Suc i) comps (st\<lparr>as_core := c\<rparr>)))"

definition NkApplicationStartup ::
    "('o, 'p, 'w) app_fns \<Rightarrow> ('o, 'w) app_comp list \<Rightarrow> app_specs \<Rightarrow> ('o, 'w) app_state \<Rightarrow> (NkErrorCode \<times> ('o, 'w) app_state) outcome" where
  "NkApplicationStartup fns table specs st =
     (let errCode = ValidateAppSpecification specs in
      if errCode \<noteq> NkErr_Ok then Done (errCode, st)
      else startup_loop fns 0 table \<lparr>as_core = (as_core st)\<lparr>ac_compReg := None, ac_isStandalone := False\<rparr>, m_compIndex = 0, m_compSucc = replicate 8 False\<rparr>)"

text \<open>The stages from \<open>j - 1\<close> down to 0.\<close>

definition stage :: "nat \<Rightarrow> cb_index" where
  "stage j = (if j = 0 then NkCompCb_PreStartup else if j = 1 then NkCompCb_Startup else NkCompCb_PostStartup)"

fun shutdown_stages :: "('o, 'w) app_comp \<Rightarrow> nat \<Rightarrow> nat \<Rightarrow> ('o, 'w) app_state \<Rightarrow> (NkErrorCode \<times> ('o, 'w) app_state) outcome" where
  "shutdown_stages cmp i 0 st = Done (NkErr_Ok, st)"
| "shutdown_stages cmp i (Suc j) st =
     (if \<not> m_compSucc st ! j then shutdown_stages cmp i j st
      else obind (InvokeCompCallback cmp i (QueryOppositeCbIndex (stage j)) st) (\<lambda>(errCode, st).
             if errCode \<noteq> NkErr_Ok then Done (errCode, st) else shutdown_stages cmp i j st))"

text \<open>The components from index \<open>n - 1\<close> down to 0.\<close>

fun app_shutdown_loop :: "('o, 'p, 'w) app_fns \<Rightarrow> ('o, 'w) app_comp list \<Rightarrow> nat \<Rightarrow> ('o, 'w) app_state \<Rightarrow> (NkErrorCode \<times> ('o, 'w) app_state) outcome" where
  "app_shutdown_loop fns table 0 st = Done (NkErr_Ok, st)"
| "app_shutdown_loop fns table (Suc i) st =
     (let cmp = table ! i in
      obind (if m_isNkOM (mp_compInfo cmp)
             then NkApplicationReplaceInstance fns (mp_clsId (mp_compInfo cmp)) None (as_core st) else Done (as_core st)) (\<lambda>c.
      obind (shutdown_stages cmp i 3 (st\<lparr>as_core := c\<rparr>)) (\<lambda>(errCode, st).
        if errCode \<noteq> NkErr_Ok then Done (errCode, st) else app_shutdown_loop fns table i st)))"

definition NkApplicationShutdown :: "('o, 'p, 'w) app_fns \<Rightarrow> ('o, 'w) app_comp list \<Rightarrow> ('o, 'w) app_state \<Rightarrow> (NkErrorCode \<times> ('o, 'w) app_state) outcome" where
  "NkApplicationShutdown fns table st =
     (if m_compIndex st = 0 then Done (NkErr_Ok, st) else app_shutdown_loop fns table (Suc (m_compIndex st)) st)"


text \<open>The component table of the source.\<close>

datatype comp_name = Logging | Allocators | PRNG | TimingDevCxt | Env | NkOM | PathSrv | IoSrv | IAL | RdFactory
  | Layerstack | Window | DbSrv | AssetManager | WorldLayer

definition comp_entry :: "('o, 'c) comp_info \<Rightarrow> ('o, 'c) ext_component" where
  "comp_entry info = \<lparr>mp_compInfo = info, mp_preStFn = None, mp_postStFn = None, mp_preShFn = None, mp_postShFn = None\<rparr>"

definition gl_c_CompInitTable ::
    "(comp_name \<Rightarrow> ('o, ('o, 'w) app_core) comp_info) \<Rightarrow> (string \<Rightarrow> ('o, 'w) app_core \<Rightarrow> NkErrorCode outcome)
     \<Rightarrow> NkErrorCode \<Rightarrow> ('o, 'p, 'w) app_fns \<Rightarrow> ('o, 'w) app_comp list" where
  "gl_c_CompInitTable info getEnv poolRes fns =
     [comp_entry (info Logging), comp_entry (info Allocators), comp_entry (info PRNG), comp_entry (info TimingDevCxt),
      (comp_entry (info Env))\<lparr>mp_postStFn := Some (Env_PostStartup getEnv)\<rparr>,
      (comp_entry (info NkOM))\<lparr>mp_postStFn := Some (NkOM_PostStartup poolRes (af_heap fns)),
                               mp_preShFn := Some (NkOM_PreShutdown (af_vt fns))\<rparr>,
      comp_entry (info PathSrv), comp_entry (info IoSrv), comp_entry (info IAL), comp_entry (info RdFactory),
      comp_entry (info Layerstack), comp_entry (info Window), comp_entry (info DbSrv), comp_entry (info AssetManager),
      comp_entry (info WorldLayer)]"

subsection \<open>Start-up and shutdown as scripts\<close>

text \<open>The calls that reach the components, in order; a script stops at the first call that fails.\<close>

fun run_script :: "'c callback list \<Rightarrow> 'c callback" where
  "run_script [] c = Done (NkErr_Ok, c)"
| "run_script (f # fs) c = obind (f c) (\<lambda>(ec, c). if ec \<noteq> NkErr_Ok then Done (ec, c) else run_script fs c)"

definition cb :: "'c callback option \<Rightarrow> 'c callback" where
  "cb f c = (case f of None \<Rightarrow> Done (NkErr_Ok, c) | Some g \<Rightarrow> g c)"

definition stage_cb :: "('o, 'c) ext_component \<Rightarrow> nat \<Rightarrow> 'c callback" where
  "stage_cb cmp j = cb ([mp_preStFn cmp, mp_fnStartup (mp_compInfo cmp), mp_postStFn cmp] ! j)"

definition undo_cb :: "('o, 'c) ext_component \<Rightarrow> nat \<Rightarrow> 'c callback" where
  "undo_cb cmp j = cb ([mp_postShFn cmp, mp_fnShutdown (mp_compInfo cmp), mp_preShFn cmp] ! j)"

definition register :: "('o, 'p, 'w) app_fns \<Rightarrow> ('o, 'w) app_comp \<Rightarrow> ('o, 'w) app_core callback" where
  "register fns cmp c =
     (if m_isNkOM (mp_compInfo cmp)
      then let (inst, c) = mp_fnQueryInst (mp_compInfo cmp) c
           in obind (NkApplicationReplaceInstance fns (mp_clsId (mp_compInfo cmp)) inst c) (\<lambda>c. Done (NkErr_Ok, c))
      else Done (NkErr_Ok, c))"

definition unregister :: "('o, 'p, 'w) app_fns \<Rightarrow> ('o, 'w) app_comp \<Rightarrow> ('o, 'w) app_core callback" where
  "unregister fns cmp c =
     (if m_isNkOM (mp_compInfo cmp)
      then obind (NkApplicationReplaceInstance fns (mp_clsId (mp_compInfo cmp)) None c) (\<lambda>c. Done (NkErr_Ok, c))
      else Done (NkErr_Ok, c))"

definition startup_script :: "('o, 'p, 'w) app_fns \<Rightarrow> ('o, 'w) app_comp \<Rightarrow> ('o, 'w) app_core callback list" where
  "startup_script fns cmp = [stage_cb cmp 0, stage_cb cmp 1, stage_cb cmp 2, register fns cmp]"

text \<open>The mirror image of the stages whose flag is set.\<close>

definition shutdown_script ::
    "('o, 'p, 'w) app_fns \<Rightarrow> bool list \<Rightarrow> ('o, 'w) app_comp \<Rightarrow> ('o, 'w) app_core callback list" where
  "shutdown_script fns flags cmp = unregister fns cmp # map (undo_cb cmp) (filter (\<lambda>j. flags ! j) [2, 1, 0])"

text \<open>Running a function of the application and looking at the part the components see.\<close>

definition core_of :: "(NkErrorCode \<times> ('o, 'w) app_state) outcome \<Rightarrow> (NkErrorCode \<times> ('o, 'w) app_core) outcome" where
  "core_of r = obind r (\<lambda>(ec, st). Done (ec, as_core st))"

lemma core_of_simps [simp]: "core_of (Done (ec, st)) = Done (ec, as_core st)" "core_of (Abort e) = Abort e"
  "core_of Undef = Undef" "core_of Hang = Hang"
  by (simp_all add: core_of_def)

lemma run_script_append:
  "run_script (xs @ ys) c = obind (run_script xs c) (\<lambda>(ec, c). if ec \<noteq> NkErr_Ok then Done (ec, c) else run_script ys c)"
proof (induction xs arbitrary: c)
  case (Cons f xs)
  then show ?case by (cases "f c") auto
qed simp

lemma Invoke_cb:
  "InvokeCompCallback cmp i k st = obind (cb (QueryCompCallback cmp k) (as_core st)) (\<lambda>(ec, c).
     Done (ec, \<lparr>as_core = c, m_compIndex = i, m_compSucc = (m_compSucc st)[cb_nat k := (ec = NkErr_Ok)]\<rparr>))"
  by (simp add: InvokeCompCallback_def cb_def)


text \<open>The flags of the three start-up stages.\<close>

definition flags_are :: "(nat \<Rightarrow> bool) \<Rightarrow> ('o, 'w) app_state \<Rightarrow> bool" where
  "flags_are fl st \<longleftrightarrow> length (m_compSucc st) = 8 \<and> (\<forall>j < 3. m_compSucc st ! j = fl j)"

lemma stage_nat: "j < 3 \<Longrightarrow> cb_nat (stage j) = j" "j < 3 \<Longrightarrow> cb_nat (QueryOppositeCbIndex (stage j)) = 5 - j"
  by (auto simp: stage_def)

lemma stage_cb_eq: "j < 3 \<Longrightarrow> stage_cb cmp j = cb (QueryCompCallback cmp (stage j))"
  by (auto simp: stage_cb_def stage_def less_Suc_eq numeral_3_eq_3)

lemma undo_cb_eq: "j < 3 \<Longrightarrow> undo_cb cmp j = cb (QueryCompCallback cmp (QueryOppositeCbIndex (stage j)))"
  by (auto simp: undo_cb_def stage_def less_Suc_eq numeral_3_eq_3)

lemma run_stages_eq:
  "run_stages cmp i st = obind (InvokeCompCallback cmp i (stage 0) st) (\<lambda>(ec, st).
     if ec \<noteq> NkErr_Ok then Done (ec, st) else obind (InvokeCompCallback cmp i (stage 1) st) (\<lambda>(ec, st).
       if ec \<noteq> NkErr_Ok then Done (ec, st) else InvokeCompCallback cmp i (stage 2) st))"
  by (simp add: run_stages_def stage_def cong: if_cong)

lemma Invoke_stage:
  "j < 3 \<Longrightarrow> core_of (InvokeCompCallback cmp i (stage j) st) = stage_cb cmp j (as_core st)"
  by (cases "stage_cb cmp j (as_core st)") (auto simp: Invoke_cb stage_cb_eq)

lemma run_stages_script:
  "core_of (run_stages cmp i st) = run_script [stage_cb cmp 0, stage_cb cmp 1, stage_cb cmp 2] (as_core st)"
proof -
  have step: "core_of (obind (InvokeCompCallback cmp i (stage j) st) (\<lambda>(ec, st). if ec \<noteq> NkErr_Ok then Done (ec, st) else K st))
      = obind (stage_cb cmp j (as_core st)) (\<lambda>(ec, c). if ec \<noteq> NkErr_Ok then Done (ec, c) else F c)"
    if "\<And>st. core_of (K st) = F (as_core st)" "j < 3" for j st K F
    by (cases "stage_cb cmp j (as_core st)") (auto simp: Invoke_cb stage_cb_eq that)
  have last: "core_of (InvokeCompCallback cmp i (stage 2) st) = run_script [stage_cb cmp 2] (as_core st)" for st
    by (cases "stage_cb cmp 2 (as_core st)") (auto simp: Invoke_stage)
  show ?thesis
    unfolding run_stages_eq by (subst step, subst step) (simp_all add: last[simplified])
qed

lemma Invoke_flags:
  assumes "InvokeCompCallback cmp i (stage j) st = Done (ec, st')" "j < 3"
  shows "m_compIndex st' = i" "m_compSucc st' = (m_compSucc st)[j := (ec = NkErr_Ok)]"
  using assms by (auto simp: Invoke_cb nk_outcome stage_nat)

lemma three_flags:
  "flags_are fl st \<longleftrightarrow> length (m_compSucc st) = 8 \<and> m_compSucc st ! 0 = fl 0 \<and> m_compSucc st ! 1 = fl 1 \<and> m_compSucc st ! 2 = fl 2"
  by (auto simp: flags_are_def numeral_3_eq_3 numeral_2_eq_2 All_less_Suc)

lemma run_stages_flags:
  assumes "run_stages cmp i st = Done (ec, st')" "length (m_compSucc st) = 8"
  shows "m_compIndex st' = i \<and> length (m_compSucc st') = 8 \<and> (ec = NkErr_Ok \<longrightarrow> flags_are (\<lambda>_. True) st')
    \<and> (ec \<noteq> NkErr_Ok \<and> flags_are (\<lambda>_. True) st \<longrightarrow> (\<exists>s < 3. flags_are (\<lambda>j. j \<noteq> s) st'))"
proof -
  obtain e0 s0 where 0: "InvokeCompCallback cmp i (stage 0) st = Done (e0, s0)"
    using assms(1) by (auto simp: run_stages_eq nk_outcome)
  note f0 = Invoke_flags[OF 0, simplified]
  show ?thesis
  proof (cases "e0 = NkErr_Ok")
    case False
    then have "ec = e0" "st' = s0" using assms(1) 0 by (auto simp: run_stages_eq)
    then show ?thesis using False f0 assms(2) by (auto simp: three_flags intro!: exI[of _ 0])
  next
    case ok0: True
    obtain e1 s1 where 1: "InvokeCompCallback cmp i (stage 1) s0 = Done (e1, s1)"
      using assms(1) 0 ok0 by (auto simp: run_stages_eq nk_outcome)
    note f1 = Invoke_flags[OF 1, simplified]
    show ?thesis
    proof (cases "e1 = NkErr_Ok")
      case False
      then have "ec = e1" "st' = s1" using assms(1) 0 1 ok0 by (auto simp: run_stages_eq)
      then show ?thesis using False f0 f1 assms(2) ok0 by (auto simp: three_flags intro!: exI[of _ 1])
    next
      case True
      then have 2: "InvokeCompCallback cmp i (stage 2) s1 = Done (ec, st')"
        using assms(1) 0 1 ok0 by (auto simp: run_stages_eq)
      show ?thesis using Invoke_flags[OF 2] f0 f1 assms(2) ok0 True by (auto simp: three_flags intro!: exI[of _ 2])
    qed
  qed
qed

lemma startup_loop_script:
  "core_of (startup_loop fns i comps st) = run_script (concat (map (startup_script fns) comps)) (as_core st)"
proof (induction comps arbitrary: i st)
  case (Cons cmp comps)
  let ?R = "run_script [stage_cb cmp 0, stage_cb cmp 1, stage_cb cmp 2] (as_core st)"
  have split: "run_script (concat (map (startup_script fns) (cmp # comps))) (as_core st)
      = obind ?R (\<lambda>(ec, c). if ec \<noteq> NkErr_Ok then Done (ec, c)
          else run_script (register fns cmp # concat (map (startup_script fns) comps)) c)"
    using run_script_append[of "[stage_cb cmp 0, stage_cb cmp 1, stage_cb cmp 2]"
        "register fns cmp # concat (map (startup_script fns) comps)"]
    by (simp add: startup_script_def)
  show ?case
  proof (cases "run_stages cmp i st")
    case (Done r)
    obtain ec st1 where r: "r = (ec, st1)" by fastforce
    have R: "?R = Done (ec, as_core st1)" using run_stages_script[of cmp i st] Done r by simp
    show ?thesis
    proof (cases "ec = NkErr_Ok")
      case True
      have "core_of (startup_loop fns i (cmp # comps) st)
          = obind (register fns cmp (as_core st1)) (\<lambda>(ec, c). run_script (concat (map (startup_script fns) comps)) c)"
      proof (cases "m_isNkOM (mp_compInfo cmp)")
        case nk: True
        obtain inst c where q: "mp_fnQueryInst (mp_compInfo cmp) (as_core st1) = (inst, c)" by fastforce
        show ?thesis
          by (cases "NkApplicationReplaceInstance fns (mp_clsId (mp_compInfo cmp)) inst c")
            (simp_all add: Done r True nk q register_def Cons.IH)
      qed (simp add: Done r True register_def Cons.IH)
      also have "\<dots> = run_script (register fns cmp # concat (map (startup_script fns) comps)) (as_core st1)"
        by (cases "register fns cmp (as_core st1)")
          (auto simp: register_def nk_outcome split: if_splits prod.splits)
      finally show ?thesis unfolding split R using True by simp
    next
      case False
      then show ?thesis unfolding split R using Done r by simp
    qed
  qed (unfold split, unfold run_stages_script[of cmp i st, symmetric], simp_all)
qed simp


lemma startup_loop_flags:
  assumes "startup_loop fns i comps st = Done (ec, st')" "length (m_compSucc st) = 8" "comps \<noteq> []"
  shows "m_compIndex st' < i + length comps \<and> i \<le> m_compIndex st'
    \<and> (ec = NkErr_Ok \<longrightarrow> flags_are (\<lambda>_. True) st' \<and> Suc (m_compIndex st') = i + length comps)
    \<and> (ec \<noteq> NkErr_Ok \<and> (flags_are (\<lambda>_. True) st \<or> i < m_compIndex st') \<longrightarrow> (\<exists>s < 3. flags_are (\<lambda>j. j \<noteq> s) st'))"
  using assms
proof (induction comps arbitrary: i st)
  case (Cons cmp comps)
  obtain e1 st1 where 1: "run_stages cmp i st = Done (e1, st1)"
    using Cons.prems(1) by (auto simp: nk_outcome)
  note f = run_stages_flags[OF 1 Cons.prems(2)]
  show ?case
  proof (cases "e1 = NkErr_Ok")
    case False
    then have "ec = e1" "st' = st1" using Cons.prems(1) 1 by auto
    then show ?thesis using f False by auto
  next
    case True
    have "\<exists>c. startup_loop fns (Suc i) comps (st1\<lparr>as_core := c\<rparr>) = Done (ec, st')"
    proof (cases "m_isNkOM (mp_compInfo cmp)")
      case nk: True
      then show ?thesis using Cons.prems(1) 1 True by (auto simp: nk_outcome split: prod.splits)
    next
      case False
      then show ?thesis using Cons.prems(1) 1 True by (intro exI[of _ "as_core st1"]) simp
    qed
    then obtain c where 2: "startup_loop fns (Suc i) comps (st1\<lparr>as_core := c\<rparr>) = Done (ec, st')" by blast
    have fl: "flags_are (\<lambda>_. True) (st1\<lparr>as_core := c\<rparr>)" using f True by (simp add: flags_are_def)
    show ?thesis
    proof (cases "comps = []")
      case True
      then show ?thesis using 2 f fl \<open>e1 = NkErr_Ok\<close> by (auto simp: flags_are_def)
    next
      case False
      then show ?thesis using Cons.IH[OF 2] f fl by auto
    qed
  qed
qed simp

lemma undo_invoke:
  assumes "flags_are fl st" "j < 3"
  shows "InvokeCompCallback cmp i (QueryOppositeCbIndex (stage j)) st
    = obind (undo_cb cmp j (as_core st)) (\<lambda>(ec, c). Done (ec, \<lparr>as_core = c, m_compIndex = i,
        m_compSucc = (m_compSucc st)[5 - j := (ec = NkErr_Ok)]\<rparr>))"
  using assms(2) by (simp add: Invoke_cb undo_cb_eq stage_nat)

lemma flags_are_undo: "flags_are fl st \<Longrightarrow> j < 3 \<Longrightarrow> flags_are fl \<lparr>as_core = c, m_compIndex = i, m_compSucc = (m_compSucc st)[5 - j := b]\<rparr>"
  by (auto simp: flags_are_def)

lemma shutdown_stages_script:
  assumes "flags_are fl st" "j \<le> 3"
  shows "core_of (shutdown_stages cmp i j st) = run_script (map (undo_cb cmp) (filter fl (rev [0..<j]))) (as_core st)
    \<and> (\<forall>ec st'. shutdown_stages cmp i j st = Done (ec, st') \<longrightarrow> flags_are fl st')"
  using assms
proof (induction j arbitrary: st)
  case (Suc j)
  have fj: "m_compSucc st ! j = fl j" using Suc.prems by (simp add: flags_are_def)
  show ?case
  proof (cases "fl j")
    case True
    have "j < 3" using Suc.prems(2) by simp
    note u = undo_invoke[OF Suc.prems(1) this, of cmp i]
    show ?thesis
    proof (cases "undo_cb cmp j (as_core st)")
      case (Done r)
      obtain ec c where r: "r = (ec, c)" by fastforce
      have "flags_are fl \<lparr>as_core = c, m_compIndex = i, m_compSucc = (m_compSucc st)[5 - j := (ec = NkErr_Ok)]\<rparr>"
        using flags_are_undo[OF Suc.prems(1) \<open>j < 3\<close>] .
      then show ?thesis using Suc.IH Suc.prems(2) u True fj Done r by auto
    qed (use u True fj in auto)
  qed (use Suc fj in auto)
qed simp

lemma unregister_done: "unregister fns cmp c = Done (ec, c') \<Longrightarrow> ec = NkErr_Ok"
  by (auto simp: unregister_def nk_outcome split: if_splits)

lemma app_shutdown_loop_Suc:
  "app_shutdown_loop fns table (Suc i) st = obind (unregister fns (table ! i) (as_core st)) (\<lambda>(_, c).
     obind (shutdown_stages (table ! i) i 3 (st\<lparr>as_core := c\<rparr>)) (\<lambda>(errCode, st).
       if errCode \<noteq> NkErr_Ok then Done (errCode, st) else app_shutdown_loop fns table i st))"
  by (simp add: unregister_def obind_assoc Let_def)

lemma app_shutdown_loop_script:
  assumes "flags_are (\<lambda>j. fl ! j) st" "n \<le> length table"
  shows "core_of (app_shutdown_loop fns table n st)
    = run_script (concat (map (shutdown_script fns fl) (rev (take n table)))) (as_core st)"
  using assms
proof (induction n arbitrary: st)
  case (Suc i)
  let ?c = "table ! i"
  let ?rest = "concat (map (shutdown_script fns fl) (rev (take i table)))"
  have tk: "rev (take (Suc i) table) = ?c # rev (take i table)" using Suc.prems(2) by (simp add: take_Suc_conv_app_nth)
  have rv: "rev [0..<3] = [2, 1, 0 :: nat]" by (simp add: upt_rec)
  show ?case
  proof (cases "unregister fns ?c (as_core st)")
    case (Done r)
    then obtain c where r: "r = (NkErr_Ok, c)" using unregister_done by (metis surj_pair)
    let ?us = "map (undo_cb ?c) (filter (\<lambda>j. fl ! j) [2, 1, 0])"
    have "flags_are (\<lambda>j. fl ! j) (st\<lparr>as_core := c\<rparr>)" using Suc.prems(1) by (simp add: flags_are_def)
    note ss = shutdown_stages_script[OF this order_refl, of ?c i, unfolded rv]
    have "as_core (st\<lparr>as_core := c\<rparr>) = c" by simp
    note us = ss[THEN conjunct1, unfolded this, symmetric]
    have scr: "run_script (concat (map (shutdown_script fns fl) (rev (take (Suc i) table)))) (as_core st)
        = obind (run_script ?us c) (\<lambda>(ec, c). if ec \<noteq> NkErr_Ok then Done (ec, c) else run_script ?rest c)"
      unfolding tk using Done r run_script_append[of ?us ?rest c] by (simp add: shutdown_script_def)
    note scr' = scr[unfolded us]
    show ?thesis
    proof (cases "shutdown_stages ?c i 3 (st\<lparr>as_core := c\<rparr>)")
      case d: (Done r2)
      obtain ec st2 where r2: "r2 = (ec, st2)" by fastforce
      have "flags_are (\<lambda>j. fl ! j) st2" using ss[THEN conjunct2] d r2 by blast
      then show ?thesis unfolding scr' app_shutdown_loop_Suc using Suc.IH[of st2] Suc.prems(2) Done r d r2 by auto
    qed (unfold scr' app_shutdown_loop_Suc, simp_all add: Done r)
  qed (simp_all add: tk shutdown_script_def app_shutdown_loop_Suc del: app_shutdown_loop.simps)
qed simp


subsection \<open>The registry\<close>

text \<open>\<open>AddRef\<close> and \<open>Release\<close> of the registered instances change their count of references by one and
  nothing of the application.\<close>

definition counts_refs :: "('o, 'p, ('o, 'w) app_core) nkom_vt \<Rightarrow> ('w \<Rightarrow> 'o \<Rightarrow> int) \<Rightarrow> bool" where
  "counts_refs vt cnt \<longleftrightarrow>
     (\<forall>r c. \<exists>w. om_AddRef vt r c = c\<lparr>ac_world := w\<rparr> \<and> cnt w = (cnt (ac_world c))(r := cnt (ac_world c) r + 1))
   \<and> (\<forall>r c. \<exists>w. om_Release vt r c = c\<lparr>ac_world := w\<rparr> \<and> cnt w = (cnt (ac_world c))(r := cnt (ac_world c) r - 1))"

definition app_reg_ok :: "('o, 'w) app_core \<Rightarrow> 'o NkHashtable \<Rightarrow> bool" where
  "app_reg_ok c ht \<longleftrightarrow> ac_compReg c = Some ht \<and> ht_wf ht \<and> cx_ok (ac_htctx c) \<and> ht_limits ht
     \<and> ht_keyType (ht_htProps ht) = NkHtKeyTy_Uuid \<and> ht_fnElemFree (ht_htProps ht)"

definition release_old :: "'o option option \<Rightarrow> ('o \<Rightarrow> int) \<Rightarrow> 'o \<Rightarrow> int" where
  "release_old old m = (case old of Some (Some r) \<Rightarrow> m(r := m r - 1) | _ \<Rightarrow> m)"

lemma Erase_keys:
  assumes "NkHashtableErase cx ht behind key = Done (ec, lg, ht')" "ht_keyType (ht_htProps ht) = NkHtKeyTy_Uuid"
  shows "list_all (\<lambda>kv. fst kv \<noteq> None) lg"
  using assms by (auto simp: NkHashtableErase_def nk_outcome Let_def key_owned_def split: option.splits if_splits)

lemma dest_all_one:
  assumes "counts_refs vt cnt" "list_all (\<lambda>kv. fst kv \<noteq> None) lg" "map snd lg = (case old of None \<Rightarrow> [] | Some v \<Rightarrow> [v])"
  shows "\<exists>w. dest_all vt lg c = Done (c\<lparr>ac_world := w\<rparr>) \<and> cnt w = release_old old (cnt (ac_world c))"
proof (cases old)
  case None
  then show ?thesis using assms by (intro exI[of _ "ac_world c"]) (simp add: release_old_def)
next
  case (Some v)
  then obtain k where "lg = [(k, v)]" "k \<noteq> None" using assms(2,3) by (cases lg) auto
  moreover have "\<exists>w. om_Release vt r c = c\<lparr>ac_world := w\<rparr> \<and> cnt w = (cnt (ac_world c))(r := cnt (ac_world c) r - 1)" for r
    using assms(1) by (simp add: counts_refs_def)
  ultimately show ?thesis using Some
    by (cases v) (auto simp: CompRegDestFn_def release_old_def intro: exI[of _ "ac_world c"])
qed

subsection \<open>Properties\<close>

text \<open>The components the witnesses below run on log their calls; the start-up of a component gives the
  error code it is made with.\<close>

definition log_cb :: "string \<Rightarrow> nat \<Rightarrow> NkErrorCode \<Rightarrow> (unit, (string \<times> nat) list) app_core callback" where
  "log_cb what n ec c = Done (ec, c\<lparr>ac_world := ac_world c @ [(what, n)]\<rparr>)"

definition sample_comp :: "nat \<Rightarrow> NkErrorCode \<Rightarrow> (unit, (string \<times> nat) list) app_comp" where
  "sample_comp n ec = comp_entry \<lparr>mp_fnStartup = Some (log_cb ''start'' n ec), mp_fnShutdown = Some (log_cb ''stop'' n NkErr_Ok),
     m_isNkOM = False, mp_clsId = (0, []), mp_fnQueryInst = (\<lambda>c. (None, c))\<rparr>"

definition sample_core :: "(unit, (string \<times> nat) list) app_core" where
  "sample_core = \<lparr>ac_compReg = None, ac_isStandalone = False, ac_htctx = \<lparr>m_hashSeed = 1, ptr_bytes = (\<lambda>_. replicate 8 0)\<rparr>,
     ac_rnd = \<lparr>s0 = 1, s1 = 2, s2 = 3, s3 = 4\<rparr>, ac_world = []\<rparr>"

definition sample_app :: "(unit, (string \<times> nat) list) app_state" where
  "sample_app = \<lparr>as_core = sample_core, m_compIndex = 0, m_compSucc = replicate 8 False\<rparr>"

definition sample_specs :: app_specs where
  "sample_specs = \<lparr>sp_argc = 1, sp_argv = Some [Some ''rt''], sp_allowedWndModes = 8\<rparr>"

definition sample_fns :: "(unit, unit, (string \<times> nat) list) app_fns" where
  "sample_fns = \<lparr>af_heap = (\<lambda>_. True), af_behind = replicate 8 0,
     af_vt = \<lparr>om_QueryInterface = (\<lambda>r iid c. (NkErr_Ok, Some r, c)), om_AddRef = (\<lambda>r c. c), om_Release = (\<lambda>r c. c),
       om_Initialize = (\<lambda>r p c. (NkErr_Ok, c)), om_QueryInstantiableClasses = (\<lambda>r c. ([], c)),
       om_CreateInstance = (\<lambda>r u o1 c. (NkErr_Ok, None, c))\<rparr>\<rparr>"

lemma sample_valid [simp]: "ValidateAppSpecification sample_specs = NkErr_Ok"
  by (simp add: ValidateAppSpecification_def sample_specs_def)

lemmas sample_app_simps = sample_comp_def comp_entry_def log_cb_def cb_def stage_cb_def undo_cb_def stage_def register_def unregister_def

lemma Startup_loop:
  assumes "NkApplicationStartup fns table specs st0 = Done (ec, st)" "ValidateAppSpecification specs = NkErr_Ok"
  shows "startup_loop fns 0 table \<lparr>as_core = (as_core st0)\<lparr>ac_compReg := None, ac_isStandalone := False\<rparr>,
    m_compIndex = 0, m_compSucc = replicate 8 False\<rparr> = Done (ec, st)"
  using assms by (simp add: NkApplicationStartup_def)

text \<open>C3: Start-up order.  Start-up with a valid specification runs the three stages of the components in the
  order of the table, each NkOM component being registered after its stages, and stops at the
  first call that fails; nothing else happens to the components.\<close>

theorem app_startup_is_script:
  assumes "ValidateAppSpecification specs = NkErr_Ok"
  shows "core_of (NkApplicationStartup fns table specs st)
    = run_script (concat (map (startup_script fns) table)) ((as_core st)\<lparr>ac_compReg := None, ac_isStandalone := False\<rparr>)"
  using assms by (simp add: NkApplicationStartup_def startup_loop_script)

theorem app_startup_is_script_witness:
  "\<exists>c. core_of (NkApplicationStartup sample_fns [sample_comp 1 NkErr_Ok, sample_comp 2 NkErr_Unknown, sample_comp 3 NkErr_Ok]
      sample_specs sample_app) = Done (NkErr_Unknown, c) \<and> ac_world c = [(''start'', 1), (''start'', 2)]"
  using app_startup_is_script[of sample_specs sample_fns "[sample_comp 1 NkErr_Ok, sample_comp 2 NkErr_Unknown, sample_comp 3 NkErr_Ok]" sample_app]
  by (simp add: sample_app_simps startup_script_def sample_app_def sample_core_def)



text \<open>Shutdown after a failed start-up.  When a stage of a component other than the first one fails, there
  is one stage whose counterpart is then run for no component at all, also not for the components
  that had started completely, while the counterparts of the other two stages are run for all of
  them, the failed one included.\<close>

theorem app_shutdown_after_failure_skips_stage:
  assumes "NkApplicationStartup fns table specs st0 = Done (ec, st)" "ValidateAppSpecification specs = NkErr_Ok"
    "ec \<noteq> NkErr_Ok" "0 < m_compIndex st"
  shows "\<exists>s < 3. core_of (NkApplicationShutdown fns table st)
    = run_script (concat (map (shutdown_script fns ([True, True, True][s := False])) (rev (take (Suc (m_compIndex st)) table)))) (as_core st)"
proof -
  have ne: "table \<noteq> []" using assms by (auto simp: NkApplicationStartup_def)
  obtain s where s: "s < 3" "flags_are (\<lambda>j. j \<noteq> s) st" "m_compIndex st < length table"
    using startup_loop_flags[OF Startup_loop[OF assms(1,2)]] assms(3,4) ne by auto
  have "flags_are (\<lambda>j. [True, True, True][s := False] ! j) st"
    using s(1,2) by (auto simp: three_flags nth_list_update)
  then show ?thesis
    using s app_shutdown_loop_script[of "[True, True, True][s := False]" st "Suc (m_compIndex st)" table fns] assms(4)
    by (auto simp: NkApplicationShutdown_def simp del: app_shutdown_loop.simps)
qed


theorem app_shutdown_after_failure_skips_stage_witness:
  "\<exists>st. NkApplicationStartup sample_fns [sample_comp 1 NkErr_Ok, sample_comp 2 NkErr_Unknown] sample_specs sample_app = Done (NkErr_Unknown, st)
    \<and> (\<exists>s < 3. core_of (NkApplicationShutdown sample_fns [sample_comp 1 NkErr_Ok, sample_comp 2 NkErr_Unknown] st)
      = run_script (concat (map (shutdown_script sample_fns ([True, True, True][s := False]))
          [sample_comp 2 NkErr_Unknown, sample_comp 1 NkErr_Ok])) (as_core st))"
proof -
  let ?t = "[sample_comp 1 NkErr_Ok, sample_comp 2 NkErr_Unknown]"
  obtain st where st: "NkApplicationStartup sample_fns ?t sample_specs sample_app = Done (NkErr_Unknown, st)" "m_compIndex st = 1"
    by (simp add: NkApplicationStartup_def run_stages_def InvokeCompCallback_def sample_app_simps)
  have "rev (take (Suc (m_compIndex st)) ?t) = [sample_comp 2 NkErr_Unknown, sample_comp 1 NkErr_Ok]" using st(2) by simp
  then show ?thesis
    using st app_shutdown_after_failure_skips_stage[OF st(1) sample_valid] by auto
qed


text \<open>Replacing a registered instance.  The instance registered before under the class loses one reference,
  the new one gets one, and a query for the class then returns the new instance with another
  reference; instances of other classes are found as before.\<close>

theorem app_replace_then_query:
  assumes "counts_refs (af_vt fns) cnt" "app_reg_ok c ht" "length (snd clsId) = 16" "length (af_behind fns) = 8"
    "ht_elemCount ht < min (ht_maxCap (ht_htProps ht)) (2 ^ 30)" "af_heap fns = (\<lambda>_. True)" "length (snd other) = 16"
  shows "\<exists>c'. NkApplicationReplaceInstance fns clsId (Some r) c = Done c'
    \<and> cnt (ac_world c') = (let m = release_old (ht_map ht (IdUuid (snd clsId))) (cnt (ac_world c)) in m(r := m r + 1))
    \<and> NkApplicationQueryInstance fns clsId c' = Done (Some r, om_AddRef (af_vt fns) r c')
    \<and> (snd other \<noteq> snd clsId \<longrightarrow> NkApplicationQueryInstance fns other c'
         = (case ht_map ht (IdUuid (snd other)) of None \<Rightarrow> Done (None, c') | Some None \<Rightarrow> Undef
            | Some (Some q) \<Rightarrow> Done (Some q, om_AddRef (af_vt fns) q c')))"
proof -
  obtain p u where cl: "clsId = (p, u)" by fastforce
  let ?k = "mp_uuidKey p u"
  have c: "ac_compReg c = Some ht" and pre: "(ht_wf ht \<and> cx_ok (ac_htctx c) \<and> ht_limits ht \<and> length (af_behind fns) = 8) \<and> ht_fnElemFree (ht_htProps ht)"
    "key_valid (ht_keyType (ht_htProps ht)) ?k"
    using assms(2-4) cl by (auto simp: app_reg_ok_def)
  obtain ec lg ht1 where e: "NkHashtableErase (ac_htctx c) ht (af_behind fns) ?k = Done (ec, lg, ht1)" "ht_wf ht1"
    "ht_htProps ht1 = ht_htProps ht" "ht_map ht1 = (ht_map ht)(IdUuid u := None)" "ht_elemCount ht1 \<le> ht_elemCount ht"
    using NkHashtableErase_spec[of ht ?k "af_behind fns" "ac_htctx c"] pre by auto
  obtain w where d: "dest_all (af_vt fns) lg (c\<lparr>ac_compReg := Some ht1\<rparr>) = Done (c\<lparr>ac_compReg := Some ht1, ac_world := w\<rparr>)"
    "cnt w = release_old (ht_map ht (IdUuid u)) (cnt (ac_world c))"
    using dest_all_one[OF assms(1) Erase_keys[OF e(1)] ht_owner.erase_frees[OF pre e(1)], of "c\<lparr>ac_compReg := Some ht1\<rparr>"] assms(2)
    by (auto simp: app_reg_ok_def)
  have room: "ht_room (\<lambda>_. True) ht1 (Suc (ht_elemCount ht1))" using assms(5) e(3,5) by (intro ht_room_granted) auto
  obtain ht2 where i: "NkHashtableInsert (ac_htctx c) (\<lambda>_. True) ht1 \<lparr>m_keyVal = ?k, mp_valuePtr = Some r\<rparr> = Done (NkErr_Ok, ht2)"
    "ht_wf ht2" "ht_htProps ht2 = ht_htProps ht" "ht_map ht2 = (ht_map ht)(IdUuid u \<mapsto> Some r)"
    using NkHashtableInsert_spec[of ht1 "ac_htctx c" "\<lambda>_. True" "\<lparr>m_keyVal = ?k, mp_valuePtr = Some r\<rparr>"] room e pre
    by (auto simp: ht_limits_def)
  let ?c2 = "c\<lparr>ac_compReg := Some ht2, ac_world := w\<rparr>"
  obtain w2 where a: "om_AddRef (af_vt fns) r ?c2 = c\<lparr>ac_compReg := Some ht2, ac_world := w2\<rparr>" "cnt w2 = (cnt w)(r := cnt w r + 1)"
    using assms(1) unfolding counts_refs_def by (elim conjE allE[of _ r] allE[of _ ?c2]) auto
  let ?c' = "c\<lparr>ac_compReg := Some ht2, ac_world := w2\<rparr>"
  have sw: "c\<lparr>ac_world := w, ac_compReg := Some ht2\<rparr> = ?c2" by simp
  have rep: "NkApplicationReplaceInstance fns clsId (Some r) c = Done ?c'"
    using c e(1) d(1) i(1) a(1) assms(6) by (simp add: NkApplicationReplaceInstance_def app_reg_def cl sw)
  have q: "NkApplicationQueryInstance fns x ?c' = (case ht_map ht2 (IdUuid (snd x)) of None \<Rightarrow> Done (None, ?c')
      | Some None \<Rightarrow> Undef | Some (Some q) \<Rightarrow> Done (Some q, om_AddRef (af_vt fns) q ?c'))" if "length (snd x) = 16" for x
    using NkHashtableAt_spec[of ht2 "mp_uuidKey (fst x) (snd x)" "af_behind fns" "ac_htctx c"] that i(2,3) pre assms(2,4)
    by (auto simp: NkApplicationQueryInstance_def app_reg_def app_reg_ok_def split: option.splits)
  show ?thesis
    by (intro exI[of _ ?c'] conjI impI)
      (use rep a(2) d(2) q[OF assms(3)] q[OF assms(7)] i(4) cl in \<open>auto simp: Let_def\<close>)
qed

definition count_vt :: "(nat, unit, (nat, nat \<Rightarrow> int) app_core) nkom_vt" where
  "count_vt = \<lparr>om_QueryInterface = (\<lambda>r iid c. (NkErr_Ok, Some r, c)),
     om_AddRef = (\<lambda>r c. c\<lparr>ac_world := (ac_world c)(r := ac_world c r + 1)\<rparr>),
     om_Release = (\<lambda>r c. c\<lparr>ac_world := (ac_world c)(r := ac_world c r - 1)\<rparr>),
     om_Initialize = (\<lambda>r p c. (NkErr_Ok, c)), om_QueryInstantiableClasses = (\<lambda>r c. ([], c)),
     om_CreateInstance = (\<lambda>r u o1 c. (NkErr_Ok, None, c))\<rparr>"

definition count_reg :: "nat NkHashtable" where
  "count_reg = \<lparr>ht_elemCount = 1, ht_currCap = 16, ht_htProps = comp_reg_props, ht_elemArray = replicate 3 zero_slot @
     \<lparr>m_regPair = \<lparr>m_keyVal = mp_uuidKey 4096 (replicate 16 7), mp_valuePtr = Some 1\<rparr>, m_isUsed = True, m_offset = 0\<rparr> # replicate 12 zero_slot\<rparr>"

definition count_core :: "(nat, nat \<Rightarrow> int) app_core" where
  "count_core = \<lparr>ac_compReg = Some count_reg, ac_isStandalone = True, ac_htctx = \<lparr>m_hashSeed = 1, ptr_bytes = (\<lambda>_. replicate 8 0)\<rparr>,
     ac_rnd = \<lparr>s0 = 1, s1 = 2, s2 = 3, s3 = 4\<rparr>, ac_world = (\<lambda>_. 1)\<rparr>"

definition count_fns :: "(nat, unit, nat \<Rightarrow> int) app_fns" where
  "count_fns = \<lparr>af_heap = (\<lambda>_. True), af_behind = replicate 8 0, af_vt = count_vt\<rparr>"

lemma count_facts [simp]:
  "counts_refs (af_vt count_fns) (\<lambda>w. w)" "app_reg_ok count_core count_reg" "ac_world count_core = (\<lambda>_. 1)"
  "af_heap count_fns = (\<lambda>_. True)" "af_behind count_fns = replicate 8 0" "ht_map count_reg = [IdUuid (replicate 16 7) \<mapsto> Some 1]"
  "ht_elemCount count_reg = 1" "ht_htProps count_reg = comp_reg_props" "ht_maxCap comp_reg_props = 1024" "af_vt count_fns = count_vt"
  by (auto simp: counts_refs_def count_vt_def count_fns_def count_core_def count_reg_def app_reg_ok_def comp_reg_props_def ht_wf_def
      ht_pairs_def cx_ok_def ht_limits_def ht_map_def pair_kv_def)

theorem app_replace_then_query_witness:
  "\<exists>c'. NkApplicationReplaceInstance count_fns (8192, replicate 16 7) (Some 2) count_core = Done c'
    \<and> ac_world c' 1 = 0 \<and> ac_world c' 2 = 2
    \<and> NkApplicationQueryInstance count_fns (8192, replicate 16 7) c' = Done (Some 2, om_AddRef count_vt 2 c')
    \<and> NkApplicationQueryInstance count_fns (0, replicate 16 9) c' = Done (None, c')"
  using app_replace_then_query[of count_fns "\<lambda>w. w" count_core count_reg "(8192, replicate 16 7)" "(0, replicate 16 9)" 2] count_facts(1)
  by (auto simp: release_old_def)

end
