(* ===== verification/NkMainLoop.thy ===== *)
theory NkMainLoop
  imports NkApplication
begin

section \<open>The main loop (src/Noriko/application.c, platform/windows/winloop.c)\<close>

text \<open>
  \<open>NkApplicationRun\<close> updates the layers at a fixed rate and renders as often as it can.  The state
  is the layer stack with the application behind it; the tick counter, the message queue, the
  renderer and the methods of the layers are arguments.  Times are in ticks of the counter, as
  naturals below \<open>2 ^ 64\<close>; the values of type \<open>float\<close> are those of \<open>NkFloat\<close>.  A counter frequency of 0,
  which the platform never reports, gives values that are not numbers and is not covered.
\<close>

subsection \<open>The message pump\<close>

text \<open>A message is the request to quit with the code posted by \<open>NkApplicationExit\<close>, or anything else.\<close>

datatype 'm win_msg = WM_QUIT NkErrorCode | OtherMsg 'm

partial_function (option) platform_loop ::
    "('w \<Rightarrow> 'm win_msg option \<times> 'w) \<Rightarrow> ('m \<Rightarrow> 'w \<Rightarrow> 'w) \<Rightarrow> 'w \<Rightarrow> (NkErrorCode \<times> bool \<times> 'w) outcome option" where
  "platform_loop peek dispatch w =
     (case peek w of
        (None, w') \<Rightarrow> Some (Done (NkErr_Ok, False, w'))
      | (Some (WM_QUIT ec), w') \<Rightarrow> Some (Done (ec, True, w'))
      | (Some (OtherMsg m), w') \<Rightarrow> platform_loop peek dispatch (dispatch m w'))"

definition Application_PlatformLoop ::
    "('w \<Rightarrow> 'm win_msg option \<times> 'w) \<Rightarrow> ('m \<Rightarrow> 'w \<Rightarrow> 'w) \<Rightarrow> 'w \<Rightarrow> (NkErrorCode \<times> bool \<times> 'w) outcome" where
  "Application_PlatformLoop peek dispatch w = of_loop (platform_loop peek dispatch w)"

definition NkApplicationExit :: "(NkErrorCode \<Rightarrow> 'w \<Rightarrow> 'w) \<Rightarrow> NkErrorCode \<Rightarrow> 'w \<Rightarrow> 'w" where
  "NkApplicationExit post errCode w = post errCode w"

subsection \<open>Frames\<close>

type_synonym ('l, 'o, 'w) run_state = "('l, ('o, 'w) app_core) layer_state"

record ('l, 'e, 'o, 'r, 'w) run_fns =
  rf_freq :: "('l, 'o, 'w) run_state \<Rightarrow> 64 word"
  rf_ticks :: "('l, 'o, 'w) run_state tick_counter"
  rf_platform :: "('l, 'o, 'w) run_state \<Rightarrow> (NkErrorCode \<times> bool \<times> ('l, 'o, 'w) run_state) outcome"
  rf_layers :: "('l, 'e, ('l, 'o, 'w) run_state) NkILayer_vt"
  rf_GetRenderer :: "'o \<Rightarrow> ('l, 'o, 'w) run_state \<Rightarrow> 'r \<times> ('l, 'o, 'w) run_state"
  rf_BeginDraw :: "'r \<Rightarrow> ('l, 'o, 'w) run_state \<Rightarrow> ('l, 'o, 'w) run_state"
  rf_EndDraw :: "'r \<Rightarrow> ('l, 'o, 'w) run_state \<Rightarrow> ('l, 'o, 'w) run_state"
  rf_RdRelease :: "'r \<Rightarrow> ('l, 'o, 'w) run_state \<Rightarrow> ('l, 'o, 'w) run_state"

text \<open>The constants of the loop, from the frequency \<open>tiFreq\<close> of type \<open>float\<close>.  The quotient of the
  literals is computed in \<open>float\<close>.\<close>

definition ticksPerUpdate :: "rat \<Rightarrow> rat" where
  "ticksPerUpdate tiFreq = f32_round (f32_round (f32_round (8333 / 1000) / 1000) * tiFreq)"

definition maxElapsed :: "rat \<Rightarrow> nat outcome" where
  "maxElapsed tiFreq = f32_to_uint 64 (f32_round (f32_round (16 / 1000) * tiFreq))"

text \<open>The loop that catches up.  It compares the lag as a \<open>float\<close>.\<close>

partial_function (option) catch_up ::
    "('l, 'e, 'o, 'r, 'w) run_fns \<Rightarrow> rat \<Rightarrow> nat \<Rightarrow> ('l, 'o, 'w) run_state
     \<Rightarrow> (nat \<times> ('l, 'o, 'w) run_state) outcome option" where
  "catch_up R tiFreq currLag st =
     (let tpu = ticksPerUpdate tiFreq in
      if \<not> tpu < f32_round (of_nat currLag) then Some (Done (currLag, st))
      else lbind (Some (obind (NkLayerstackOnUpdate (rf_layers R) (f32_round (tpu / tiFreq)) st) (\<lambda>(_, st').
                        obind (f32_to_uint 64 tpu) (\<lambda>step. Done (sub64 currLag step, st')))))
             (\<lambda>(currLag', st'). catch_up R tiFreq currLag' st'))"

text \<open>One turn of the outer loop: \<open>Inl\<close> when it is left.\<close>

definition run_frame ::
    "('l, 'e, 'o, 'r, 'w) run_fns \<Rightarrow> 'r \<Rightarrow> rat \<Rightarrow> nat \<Rightarrow> 64 word \<times> nat \<times> ('l, 'o, 'w) run_state
     \<Rightarrow> ((NkErrorCode \<times> ('l, 'o, 'w) run_state) + (64 word \<times> nat \<times> ('l, 'o, 'w) run_state)) outcome" where
  "run_frame R rd tiFreq maxEl = (\<lambda>(prevTime, currLag, st).
     let (currTime, st1) = NkTimerGetCurrentTicks (rf_ticks R) st;
         elapsedTime = min (unat (currTime - prevTime)) maxEl;
         currLag = wrap64 (currLag + elapsedTime)
     in obind (rf_platform R st1) (\<lambda>(errCode, isLeave, st2).
          if isLeave then Done (Inl (errCode, st2))
          else obind (of_loop (catch_up R tiFreq currLag st2)) (\<lambda>(currLag, st3).
               obind (NkLayerstackOnRender (rf_layers R)
                        (f32_round (f32_round (of_nat currLag) / ticksPerUpdate tiFreq)) (rf_BeginDraw R rd st3)) (\<lambda>(_, st4).
                 Done (Inr (currTime, currLag, rf_EndDraw R rd st4))))))"

partial_function (option) run_loop ::
    "('l, 'e, 'o, 'r, 'w) run_fns \<Rightarrow> 'r \<Rightarrow> rat \<Rightarrow> nat \<Rightarrow> 64 word \<times> nat \<times> ('l, 'o, 'w) run_state
     \<Rightarrow> (NkErrorCode \<times> ('l, 'o, 'w) run_state) outcome option" where
  "run_loop R rd tiFreq maxEl x =
     lbind (Some (run_frame R rd tiFreq maxEl x)) (\<lambda>r.
       case r of Inl res \<Rightarrow> Some (Done res) | Inr x' \<Rightarrow> run_loop R rd tiFreq maxEl x')"

definition NkIWindow_CLSID :: NkUuid where
  "NkIWindow_CLSID = [0x3b, 0xf1, 0xbe, 0x48, 0xe9, 0x9d, 0x23, 0x4b, 0x1b, 0x43, 0x81, 0x6a, 0xad, 0xb6, 0xec, 0xa5]"

text \<open>\<open>wndId\<close> is the address of the class identifier.\<close>

definition NkApplicationRun ::
    "('o, 'p, 'w) app_fns \<Rightarrow> ('l, 'e, 'o, 'r, 'w) run_fns \<Rightarrow> 64 word \<Rightarrow> ('l, 'o, 'w) run_state
     \<Rightarrow> (NkErrorCode \<times> ('l, 'o, 'w) run_state) outcome" where
  "NkApplicationRun fns R wndId st =
     (let tiFreq = f32_round (of_nat (unat (NkTimerGetFrequency (rf_freq R) st))) in
      obind (NkApplicationQueryInstance fns (wndId, NkIWindow_CLSID) (ls_env st)) (\<lambda>(mainWnd, c).
        case mainWnd of None \<Rightarrow> Undef
        | Some wnd \<Rightarrow>
            (let (mainWndRd, st1) = rf_GetRenderer R wnd (st\<lparr>ls_env := c\<rparr>);
                 (prevTime, st2) = NkTimerGetCurrentTicks (rf_ticks R) st1
             in obind (maxElapsed tiFreq) (\<lambda>maxEl.
                obind (of_loop (run_loop R mainWndRd tiFreq maxEl (prevTime, 0, st2))) (\<lambda>(errCode, st3).
                  let st4 = rf_RdRelease R mainWndRd st3
                  in Done (errCode, st4\<lparr>ls_env := om_Release (af_vt fns) wnd (ls_env st4)\<rparr>))))))"

subsection \<open>Lemmas\<close>

text \<open>Bounds of the constants and of the comparison, for a frequency of at least 10 kHz.\<close>

lemma f32_close: "0 \<le> x \<Longrightarrow> x * (1 - 1 / 2 ^ 24) \<le> f32_round x \<and> f32_round x \<le> x * (1 + 1 / 2 ^ 24)"
  using f32_round_bounds[of x] by (simp add: algebra_simps)

lemma ticksPerUpdate_bounds:
  assumes "0 \<le> F"
  shows "8332 / 1000000 * F \<le> ticksPerUpdate F" "ticksPerUpdate F \<le> 8334 / 1000000 * F"
proof -
  define a where "a = f32_round (8333 / 1000)"
  define b where "b = f32_round (a / 1000)"
  have a: "83329 / 10000 \<le> a" "a \<le> 83331 / 10000" using f32_close[of "8333 / 1000"] by (auto simp: a_def)
  have b: "83328 / 10000000 \<le> b" "b \<le> 83332 / 10000000" using f32_close[of "a / 1000"] a by (auto simp: b_def)
  have bF: "83328 / 10000000 * F \<le> b * F" "b * F \<le> 83332 / 10000000 * F" 
    by (rule mult_right_mono[OF b(1) assms], rule mult_right_mono[OF b(2) assms])
  have t: "ticksPerUpdate F = f32_round (b * F)" by (simp add: ticksPerUpdate_def a_def b_def)
  show "8332 / 1000000 * F \<le> ticksPerUpdate F" "ticksPerUpdate F \<le> 8334 / 1000000 * F"
    unfolding t using f32_close[of "b * F"] bF assms by auto
qed

lemma maxElapsed_bounds:
  assumes "0 \<le> F" "F \<le> 2 ^ 64"
  shows "\<exists>m. maxElapsed F = Done m \<and> of_nat m \<le> 16001 / 1000000 * F \<and> 15999 / 1000000 * F - 1 \<le> of_nat m"
proof -
  define a where "a = f32_round (16 / 1000)"
  have a: "159999 / 10000000 \<le> a" "a \<le> 160001 / 10000000" using f32_close[of "16 / 1000"] by (auto simp: a_def)
  have aF: "159999 / 10000000 * F \<le> a * F" "a * F \<le> 160001 / 10000000 * F"
    by (rule mult_right_mono[OF a(1) assms(1)], rule mult_right_mono[OF a(2) assms(1)])
  then have "0 \<le> a * F" using assms(1) by auto
  then have r: "0 \<le> f32_round (a * F)" "f32_round (a * F) \<le> 16001 / 1000000 * F" "15999 / 1000000 * F \<le> f32_round (a * F)"
    using f32_close[of "a * F"] aF f32_round_nonneg[of "a * F"] assms(1) by auto
  then have "f32_round (a * F) < 2 ^ 64" using assms by simp
  then have "maxElapsed F = Done (nat \<lfloor>f32_round (a * F)\<rfloor>)"
    unfolding maxElapsed_def a_def[symmetric] f32_to_uint_def using r(1) by simp
  moreover have "of_nat (nat \<lfloor>f32_round (a * F)\<rfloor>) \<le> f32_round (a * F)" "f32_round (a * F) - 1 \<le> of_nat (nat \<lfloor>f32_round (a * F)\<rfloor>)"
    using r(1) by (simp_all add: of_nat_nat) linarith
  ultimately show ?thesis using r(2,3) by (intro exI[of _ "nat \<lfloor>f32_round (a * F)\<rfloor>"]) linarith
qed


lemma lag_bound:
  assumes "f32_round (of_nat lag) \<le> ticksPerUpdate F" "0 \<le> F"
  shows "of_nat lag \<le> 8335 / 1000000 * F"
  using f32_close[of "of_nat lag"] ticksPerUpdate_bounds[OF assms(2)] assms by auto

lemma step_bounds:
  assumes "10 ^ 4 \<le> F" "F \<le> 10 ^ 9"
  shows "\<exists>s. f32_to_uint 64 (ticksPerUpdate F) = Done s \<and> s = nat \<lfloor>ticksPerUpdate F\<rfloor>
    \<and> of_nat s \<le> ticksPerUpdate F \<and> ticksPerUpdate F < of_nat s + 1"
proof -
  have b: "0 \<le> ticksPerUpdate F" "ticksPerUpdate F < 2 ^ 64" using ticksPerUpdate_bounds[of F] assms by auto
  then show ?thesis by (simp add: f32_to_uint_def of_nat_nat) linarith
qed

lemma step_le_lag:
  assumes "ticksPerUpdate F < f32_round (of_nat lag)" "of_nat s \<le> ticksPerUpdate F" "10 ^ 4 \<le> F" "F \<le> 10 ^ 9"
  shows "s \<le> lag"
proof (rule ccontr)
  assume "\<not> s \<le> lag"
  then have l: "of_nat lag + 1 \<le> (of_nat s :: rat)" by (metis not_less_eq_eq of_nat_Suc of_nat_le_iff add.commute)
  moreover have "of_nat lag < (2 :: rat) ^ 24" using l assms(2,4) ticksPerUpdate_bounds(2)[of F] assms(3) by auto
  moreover have "f32_round (of_nat lag) \<le> of_nat lag + of_nat lag / 2 ^ 24" using f32_close[of "of_nat lag"] by (simp add: algebra_simps)
  ultimately show False using assms(1,2) by auto
qed

definition update_all ::
    "('l, 'e, 'o, 'r, 'w) run_fns \<Rightarrow> rat \<Rightarrow> 'l list \<Rightarrow> ('l, 'o, 'w) run_state \<Rightarrow> ('l, 'o, 'w) run_state" where
  "update_all R F ls = call_each (\<lambda>l. vt_OnUpdate (rf_layers R) l (f32_round (ticksPerUpdate F / F))) ls"

definition updates_keep_stack :: "('l, 'e, 'o, 'r, 'w) run_fns \<Rightarrow> rat \<Rightarrow> bool" where
  "updates_keep_stack R F \<longleftrightarrow> keeps_stack (\<lambda>l. vt_OnUpdate (rf_layers R) l (f32_round (ticksPerUpdate F / F)))"

lemma call_each_keeps: "keeps_stack h \<Longrightarrow> stack_is st v \<Longrightarrow> stack_is (call_each h ls st) v"
  by (induction ls arbitrary: st) (simp_all add: call_each_def keeps_stackD)

lemma catch_up_done: "f32_round (of_nat lag) \<le> ticksPerUpdate F \<Longrightarrow> catch_up R F lag st = Some (Done (lag, st))"
  by (subst catch_up.simps) (simp add: Let_def)

lemma catch_up_update:
  assumes "ticksPerUpdate F < f32_round (of_nat lag)" "10 ^ 4 \<le> F" "F \<le> 10 ^ 9" "stack_is st v" "updates_keep_stack R F"
    "lag \<le> SIZE_MAX"
  shows "catch_up R F lag st = catch_up R F (lag - nat \<lfloor>ticksPerUpdate F\<rfloor>) (update_all R F (vlist v) st)"
proof -
  obtain s where s: "f32_to_uint 64 (ticksPerUpdate F) = Done s" "s = nat \<lfloor>ticksPerUpdate F\<rfloor>" "of_nat s \<le> ticksPerUpdate F"
    using step_bounds[OF assms(2,3)] by auto
  have v: "ls_stack st = Some v" "NkVectorGetElementCount v = length (vlist v)"
    using assms(4) by (simp_all add: stack_is_def NkVectorGetElementCount_def)
  have u: "NkLayerstackOnUpdate (rf_layers R) (f32_round (ticksPerUpdate F / F)) st = Done (NkErr_Ok, update_all R F (vlist v) st)"
    using on_update_loop_each[OF assms(5)[unfolded updates_keep_stack_def] assms(4), of 0] v
    by (simp add: NkLayerstackOnUpdate_def the_stack_def update_all_def)
  have "sub64 lag s = lag - s" using step_le_lag[OF assms(1) s(3) assms(2,3)] assms(6) by (simp add: sub64_ge)
  then show ?thesis using assms(1) u s(1) by (subst catch_up.simps) (simp add: Let_def s(2))
qed

lemma catches_up:
  assumes "10 ^ 4 \<le> F" "F \<le> 10 ^ 9" "of_nat lag \<le> 24336 / 1000000 * F" "stack_is st v" "updates_keep_stack R F"
  shows "\<exists>n \<le> 2. \<exists>lag'. lag = lag' + n * nat \<lfloor>ticksPerUpdate F\<rfloor> \<and> f32_round (of_nat lag') \<le> ticksPerUpdate F
    \<and> catch_up R F lag st = Some (Done (lag', (update_all R F (vlist v) ^^ n) st))"
proof -
  let ?T = "ticksPerUpdate F"
  obtain s where s: "s = nat \<lfloor>?T\<rfloor>" "of_nat s \<le> ?T" "?T < of_nat s + 1" using step_bounds[OF assms(1,2)] by auto
  have T: "8332 / 1000000 * F \<le> ?T" using ticksPerUpdate_bounds(1) assms(1) by auto
  have lim: "l \<le> SIZE_MAX" if "l \<le> lag" for l
  proof -
    have "(of_nat l :: rat) \<le> of_nat lag" using that by simp
    then have "(of_nat l :: rat) \<le> of_nat SIZE_MAX" using assms(2,3) by simp
    then show ?thesis using of_nat_le_iff by blast
  qed
  note step = catch_up_update[OF _ assms(1,2) _ assms(5), folded s(1)]
  let ?u = "update_all R F (vlist v)"
  have st1: "stack_is (?u st) v" using assms(4,5) by (simp add: update_all_def updates_keep_stack_def call_each_keeps)
  consider "f32_round (of_nat lag) \<le> ?T" | "?T < f32_round (of_nat lag)" "f32_round (of_nat (lag - s)) \<le> ?T"
    | "?T < f32_round (of_nat lag)" "?T < f32_round (of_nat (lag - s))" by linarith
  then show ?thesis
  proof cases
    case 1
    then show ?thesis by (intro exI[of _ 0]) (simp add: catch_up_done)
  next
    case 2
    have "s \<le> lag" using step_le_lag[OF 2(1) s(2) assms(1,2)] .
    then show ?thesis using 2 step[OF 2(1) assms(4) lim] s(1)
      by (intro exI[of _ 1]) (simp add: catch_up_done exI[of _ "lag - s"])
  next
    case 3
    have le: "s \<le> lag" "s \<le> lag - s" using step_le_lag[OF _ s(2) assms(1,2)] 3 by auto
    let ?l = "lag - s - s"
    have "(of_nat ?l :: rat) = of_nat lag - 2 * of_nat s" using le by (simp add: of_nat_diff)
    then have l: "of_nat ?l \<le> 7672 / 1000000 * F + 2" using s(3) T assms(3) by linarith
    have "f32_round (of_nat ?l) \<le> ?T" using f32_close[of "of_nat ?l"] l T assms(1) by auto
    then show ?thesis using 3 step[OF 3(1) assms(4) lim] step[OF 3(2) st1 lim] s(1) le
      by (intro exI[of _ 2]) (auto simp: catch_up_done numeral_2_eq_2 intro!: exI[of _ ?l])
  qed
qed


subsection \<open>Frames that end\<close>

text \<open>What the rest of the engine does during a frame, seen through \<open>obs\<close>: it leaves the layer stack and
  the observed values alone.\<close>

definition inert :: "(('l, 'o, 'w) run_state \<Rightarrow> 'a) \<Rightarrow> (('l, 'o, 'w) run_state \<Rightarrow> ('l, 'o, 'w) run_state) \<Rightarrow> bool" where
  "inert obs f \<longleftrightarrow> (\<forall>st. ls_stack (f st) = ls_stack st \<and> obs (f st) = obs st)"

text \<open>\<open>pending st\<close> is the number of turns the message pump makes before it delivers the request to quit
  with \<open>code\<close>; \<open>frames st\<close> counts the frames that have been presented.\<close>

definition quits_after ::
    "('l, 'e, 'o, 'r, 'w) run_fns \<Rightarrow> (('l, 'o, 'w) run_state \<Rightarrow> nat) \<Rightarrow> (('l, 'o, 'w) run_state \<Rightarrow> nat) \<Rightarrow> NkErrorCode \<Rightarrow> bool" where
  "quits_after R pending frames code \<longleftrightarrow>
     (\<forall>st. case pending st of
        0 \<Rightarrow> \<exists>st'. rf_platform R st = Done (code, True, st') \<and> frames st' = frames st
      | Suc n \<Rightarrow> \<exists>st'. rf_platform R st = Done (NkErr_Ok, False, st') \<and> pending st' = n \<and> frames st' = frames st
          \<and> ls_stack st' = ls_stack st)
   \<and> (let obs = \<lambda>st. (pending st, frames st) in
        inert obs (\<lambda>st. snd (rf_ticks R st)) \<and> (\<forall>rd. inert obs (rf_BeginDraw R rd))
      \<and> (\<forall>l t. inert obs (\<lambda>st. snd (vt_OnUpdate (rf_layers R) l t st))) \<and> (\<forall>l t. inert obs (\<lambda>st. snd (vt_OnRender (rf_layers R) l t st))))
   \<and> (\<forall>rd st. ls_stack (rf_EndDraw R rd st) = ls_stack st \<and> pending (rf_EndDraw R rd st) = pending st
        \<and> frames (rf_EndDraw R rd st) = Suc (frames st))"

lemma inertD: "inert obs f \<Longrightarrow> ls_stack (f st) = ls_stack st" "inert obs f \<Longrightarrow> obs (f st) = obs st"
  by (simp_all add: inert_def)

lemma inert_keeps: "\<forall>l. inert obs (\<lambda>st. snd (h l st)) \<Longrightarrow> keeps_stack h"
  by (simp add: inert_def keeps_stack_def)

lemma call_each_inert: "\<forall>l. inert obs (\<lambda>st. snd (h l st)) \<Longrightarrow> obs (call_each h ls st) = obs st"
  by (induction ls arbitrary: st) (simp_all add: call_each_def inert_def)

lemma update_all_inert:
  assumes "\<forall>l t. inert obs (\<lambda>st. snd (vt_OnUpdate (rf_layers R) l t st))"
  shows "inert obs (update_all R F ls ^^ n)"
proof -
  have one: "obs (update_all R F ls st) = obs st" "ls_stack (update_all R F ls st) = ls_stack st" for st
    using assms call_each_inert[of obs "\<lambda>l. vt_OnUpdate (rf_layers R) l (f32_round (ticksPerUpdate F / F))" ls]
      call_each_inert[of ls_stack "\<lambda>l. vt_OnUpdate (rf_layers R) l (f32_round (ticksPerUpdate F / F))" ls]
    by (simp_all add: update_all_def inert_def)
  have "obs ((update_all R F ls ^^ n) st) = obs st \<and> ls_stack ((update_all R F ls ^^ n) st) = ls_stack st" for st
    by (induction n) (simp_all add: one)
  then show ?thesis by (simp add: inert_def)
qed

lemma OnRender_each:
  assumes "stack_is st v" "keeps_stack (\<lambda>l. vt_OnRender vt l t)"
  shows "\<exists>ec. NkLayerstackOnRender vt t st = Done (ec, call_each (\<lambda>l. vt_OnRender vt l t) (rev (vlist v)) st)"
  using on_render_loop_each[OF assms(2,1), of "length (vlist v)"] assms(1)
  by (auto simp: NkLayerstackOnRender_def the_stack_def stack_is_def NkVectorGetElementCount_def call_each_def)

lemma quits_now:
  assumes "quits_after R pending frames code" "pending st = 0"
  shows "\<exists>st'. rf_platform R st = Done (code, True, st') \<and> frames st' = frames st"
  using conjunct1[OF assms(1)[unfolded quits_after_def], THEN spec, of st] assms(2) by simp

lemma quits_later:
  assumes "quits_after R pending frames code" "pending st = Suc n"
  shows "\<exists>st'. rf_platform R st = Done (NkErr_Ok, False, st') \<and> pending st' = n \<and> frames st' = frames st \<and> ls_stack st' = ls_stack st"
  using conjunct1[OF assms(1)[unfolded quits_after_def], THEN spec, of st] assms(2) by simp

lemma run_frame_quit:
  assumes "quits_after R pending frames code" "pending st = 0"
  shows "\<exists>st'. run_frame R rd F m (prev, lag, st) = Done (Inl (code, st')) \<and> frames st' = frames st"
proof -
  let ?s = "snd (rf_ticks R st)"
  have "pending ?s = 0" "frames ?s = frames st" using assms by (auto simp: quits_after_def inert_def Let_def)
  moreover obtain st' where "rf_platform R ?s = Done (code, True, st')" "frames st' = frames ?s"
    using quits_now[OF assms(1) \<open>pending ?s = 0\<close>] by blast
  ultimately show ?thesis by (simp add: run_frame_def NkTimerGetCurrentTicks_def Let_def split_beta)
qed

lemma run_frame_next:
  assumes "quits_after R pending frames code" "pending st = Suc n" "stack_is st v" "10 ^ 4 \<le> F" "F \<le> 10 ^ 9"
    "f32_round (of_nat lag) \<le> ticksPerUpdate F" "of_nat m \<le> 16001 / 1000000 * F"
  shows "\<exists>now lag' st'. run_frame R rd F m (prev, lag, st) = Done (Inr (now, lag', st')) \<and> stack_is st' v
    \<and> pending st' = n \<and> frames st' = Suc (frames st) \<and> f32_round (of_nat lag') \<le> ticksPerUpdate F"
proof -
  let ?obs = "\<lambda>st. (pending st, frames st)"
  let ?s = "snd (rf_ticks R st)" and ?now = "fst (rf_ticks R st)"
  let ?e = "min (unat (?now - prev)) m"
  have q: "inert ?obs (\<lambda>st. snd (rf_ticks R st))" "inert ?obs (rf_BeginDraw R rd)"
    "\<forall>l t. inert ?obs (\<lambda>st. snd (vt_OnUpdate (rf_layers R) l t st))" "\<forall>l t. inert ?obs (\<lambda>st. snd (vt_OnRender (rf_layers R) l t st))"
    using assms(1) by (auto simp: quits_after_def Let_def)
  have s: "pending ?s = Suc n" "frames ?s = frames st" "ls_stack ?s = Some v"
    using inertD[OF q(1), of st] assms(2,3) by (auto simp: stack_is_def)
  obtain s2 where p: "rf_platform R ?s = Done (NkErr_Ok, False, s2)" "pending s2 = n" "frames s2 = frames ?s" "ls_stack s2 = ls_stack ?s"
    using quits_later[OF assms(1) s(1)] by blast
  have s2: "stack_is s2 v" using p(4) s(3) assms(3) by (simp add: stack_is_def)
  have "(of_nat (lag + ?e) :: rat) \<le> of_nat lag + of_nat m" by simp
  also have "\<dots> \<le> 24336 / 1000000 * F" using lag_bound[OF assms(6)] assms(4,7) by auto
  finally have L: "of_nat (lag + ?e) \<le> 24336 / 1000000 * F" .
  then have "(of_nat (lag + ?e) :: rat) \<le> of_nat SIZE_MAX" using assms(5) by simp
  then have "lag + ?e \<le> SIZE_MAX" using of_nat_le_iff by blast
  then have w: "wrap64 (lag + ?e) = lag + ?e" by (rule wrap64_small)
  have uk: "updates_keep_stack R F" unfolding updates_keep_stack_def by (rule inert_keeps) (use q(3) in blast)
  obtain k lag' where c: "f32_round (of_nat lag') \<le> ticksPerUpdate F"
    "catch_up R F (lag + ?e) s2 = Some (Done (lag', (update_all R F (vlist v) ^^ k) s2))"
    using catches_up[OF assms(4,5) L s2 uk] by blast
  let ?s3 = "rf_BeginDraw R rd ((update_all R F (vlist v) ^^ k) s2)"
  have s3: "?obs ?s3 = (n, frames st)" "stack_is ?s3 v"
    using inertD[OF update_all_inert[OF q(3), where F = F and ls = "vlist v" and n = k], of s2] inertD[OF q(2)] p(2,3) s(2) s2 by (auto simp: stack_is_def)
  let ?t = "f32_round (f32_round (of_nat lag') / ticksPerUpdate F)"
  let ?h = "\<lambda>l. vt_OnRender (rf_layers R) l ?t"
  have kr: "keeps_stack ?h" by (rule inert_keeps) (use q(4) in blast)
  let ?s4 = "call_each ?h (rev (vlist v)) ?s3"
  obtain ec where r: "NkLayerstackOnRender (rf_layers R) ?t ?s3 = Done (ec, ?s4)" using OnRender_each[OF s3(2) kr] by blast
  have s4: "?obs ?s4 = (n, frames st)" "stack_is ?s4 v"
    using call_each_inert[of ?obs ?h] call_each_keeps[OF kr s3(2)] s3(1) q(4) by auto
  have "run_frame R rd F m (prev, lag, st) = Done (Inr (?now, lag', rf_EndDraw R rd ?s4))"
    using p(1) w c(2) r by (simp add: run_frame_def NkTimerGetCurrentTicks_def Let_def split_beta)
  moreover have "ls_stack (rf_EndDraw R rd ?s4) = ls_stack ?s4" "pending (rf_EndDraw R rd ?s4) = n" "frames (rf_EndDraw R rd ?s4) = Suc (frames st)"
    using assms(1) s4(1) by (auto simp: quits_after_def)
  ultimately show ?thesis using s4(2) c(1) by (auto simp: stack_is_def)
qed

lemma run_loop_quits:
  assumes "quits_after R pending frames code" "10 ^ 4 \<le> F" "F \<le> 10 ^ 9" "of_nat m \<le> 16001 / 1000000 * F"
    "stack_is st v" "f32_round (of_nat lag) \<le> ticksPerUpdate F"
  shows "\<exists>st'. run_loop R rd F m (prev, lag, st) = Some (Done (code, st')) \<and> frames st' = frames st + pending st"
  using assms(5,6)
proof (induction "pending st" arbitrary: prev lag st)
  case 0
  then show ?case using run_frame_quit[OF assms(1), of st rd F m prev lag] by (subst run_loop.simps) auto
next
  case (Suc n)
  obtain now lag' st1 where f: "run_frame R rd F m (prev, lag, st) = Done (Inr (now, lag', st1))" "stack_is st1 v" "pending st1 = n"
    "frames st1 = Suc (frames st)" "f32_round (of_nat lag') \<le> ticksPerUpdate F"
    using run_frame_next[OF assms(1) Suc.hyps(2)[symmetric] Suc.prems(1) assms(2,3) Suc.prems(2) assms(4)] by blast
  then show ?case using Suc.hyps(1)[of st1 lag' now] Suc.hyps(2) by (subst run_loop.simps) auto
qed


subsection \<open>Properties\<close>

text \<open>The engine the witnesses below run on: two layers that log nothing, a world that holds the turns
  until the request to quit, the frames presented and the ticks of the counter.\<close>

definition set_world :: "'w \<Rightarrow> ('l, 'o, 'w) run_state \<Rightarrow> ('l, 'o, 'w) run_state" where
  "set_world w st = st\<lparr>ls_env := (ls_env st)\<lparr>ac_world := w\<rparr>\<rparr>"

record run_world =
  rw_turns :: nat
  rw_frames :: nat
  rw_updates :: nat
  rw_now :: nat

definition on_world :: "(run_world \<Rightarrow> run_world) \<Rightarrow> (nat, nat, run_world) run_state \<Rightarrow> (nat, nat, run_world) run_state" where
  "on_world f st = set_world (f (ac_world (ls_env st))) st"

definition world :: "(nat, nat, run_world) run_state \<Rightarrow> run_world" where
  "world st = ac_world (ls_env st)"

definition sample_peek :: "(nat, nat, run_world) run_state \<Rightarrow> unit win_msg option \<times> (nat, nat, run_world) run_state" where
  "sample_peek st = (if rw_turns (world st) = 0 then (Some (WM_QUIT NkErr_ManuallyAborted), st)
     else (None, on_world (\<lambda>w. w\<lparr>rw_turns := rw_turns w - 1\<rparr>) st))"

definition sample_run :: "(nat, unit, nat, unit, run_world) run_fns" where
  "sample_run = \<lparr>rf_freq = (\<lambda>_. 10000000), rf_ticks = (\<lambda>st. (of_nat (rw_now (world st)), on_world (\<lambda>w. w\<lparr>rw_now := rw_now w + 200000\<rparr>) st)),
     rf_platform = Application_PlatformLoop sample_peek (\<lambda>_ st. st),
     rf_layers = \<lparr>vt_AddRef = (\<lambda>_ st. st), vt_OnPush = (\<lambda>_ _ _ _ st. (NkErr_Ok, st)), vt_OnEvent = (\<lambda>_ _ st. (NkErr_Ok, st)),
       vt_OnUpdate = (\<lambda>_ _ st. (NkErr_Ok, on_world (\<lambda>w. w\<lparr>rw_updates := Suc (rw_updates w)\<rparr>) st)), vt_OnRender = (\<lambda>_ _ st. (NkErr_Ok, st))\<rparr>,
     rf_GetRenderer = (\<lambda>_ st. ((), st)), rf_BeginDraw = (\<lambda>_ st. st),
     rf_EndDraw = (\<lambda>_. on_world (\<lambda>w. w\<lparr>rw_frames := Suc (rw_frames w)\<rparr>)), rf_RdRelease = (\<lambda>_ st. st)\<rparr>"

definition wnd_vt :: "(nat, unit, (nat, run_world) app_core) nkom_vt" where
  "wnd_vt = \<lparr>om_QueryInterface = (\<lambda>r iid c. (NkErr_Ok, Some r, c)), om_AddRef = (\<lambda>_ c. c), om_Release = (\<lambda>_ c. c),
     om_Initialize = (\<lambda>r p c. (NkErr_Ok, c)), om_QueryInstantiableClasses = (\<lambda>r c. ([], c)),
     om_CreateInstance = (\<lambda>r u o1 c. (NkErr_Ok, None, c))\<rparr>"

definition wnd_reg :: "nat NkHashtable" where
  "wnd_reg = \<lparr>ht_elemCount = 1, ht_currCap = 16, ht_htProps = comp_reg_props, ht_elemArray = replicate 3 zero_slot @
     \<lparr>m_regPair = \<lparr>m_keyVal = mp_uuidKey 4096 NkIWindow_CLSID, mp_valuePtr = Some 1\<rparr>, m_isUsed = True, m_offset = 0\<rparr> # replicate 12 zero_slot\<rparr>"

definition sample_state :: "nat \<Rightarrow> (nat, nat, run_world) run_state" where
  "sample_state n = \<lparr>ls_stack = Some sample_layers, ls_env = \<lparr>ac_compReg = Some wnd_reg, ac_isStandalone = True,
     ac_htctx = \<lparr>m_hashSeed = 1, ptr_bytes = (\<lambda>_. replicate 8 0)\<rparr>, ac_rnd = \<lparr>s0 = 1, s1 = 2, s2 = 3, s3 = 4\<rparr>,
     ac_world = \<lparr>rw_turns = n, rw_frames = 0, rw_updates = 0, rw_now = 0\<rparr>\<rparr>\<rparr>"

definition wnd_fns :: "(nat, unit, run_world) app_fns" where
  "wnd_fns = \<lparr>af_heap = (\<lambda>_. True), af_behind = replicate 8 0, af_vt = wnd_vt\<rparr>"

lemma sample_platform:
  "Application_PlatformLoop sample_peek d st = Done (if rw_turns (world st) = 0 then (NkErr_ManuallyAborted, True, st)
     else (NkErr_Ok, False, on_world (\<lambda>w. w\<lparr>rw_turns := rw_turns w - 1\<rparr>) st))"
  by (simp add: Application_PlatformLoop_def sample_peek_def platform_loop.simps[of sample_peek])

lemma world_on [simp]: "world (on_world f st) = f (world st)" "ls_stack (on_world f st) = ls_stack st"
  by (simp_all add: world_def on_world_def set_world_def)

lemma sample_quits: "quits_after sample_run (\<lambda>st. rw_turns (world st)) (\<lambda>st. rw_frames (world st)) NkErr_ManuallyAborted"
  by (auto simp: quits_after_def sample_run_def inert_def sample_platform split: nat.splits)

lemma sample_state_facts [simp]:
  "stack_is (sample_state n) sample_layers" "rw_turns (world (sample_state n)) = n" "rw_frames (world (sample_state n)) = 0"
  by (auto simp: stack_is_def sample_state_def world_def sample_layers_def sample_stack_def vec_wf_def layer_props_def)

lemma sample_window:
  "NkApplicationQueryInstance wnd_fns (4096, NkIWindow_CLSID) (ls_env (sample_state n)) = Done (Some 1, ls_env (sample_state n))"
proof -
  have "ht_wf wnd_reg" "ht_map wnd_reg = [IdUuid NkIWindow_CLSID \<mapsto> Some 1]" "ht_htProps wnd_reg = comp_reg_props"
    by (auto simp: wnd_reg_def comp_reg_props_def ht_wf_def ht_pairs_def ht_map_def pair_kv_def NkIWindow_CLSID_def)
  then show ?thesis
    using NkHashtableAt_spec[of wnd_reg "mp_uuidKey 4096 NkIWindow_CLSID" "replicate 8 0" "\<lparr>m_hashSeed = 1, ptr_bytes = (\<lambda>_. replicate 8 0)\<rparr>"]
    by (auto simp: NkApplicationQueryInstance_def app_reg_def sample_state_def wnd_fns_def wnd_vt_def cx_ok_def comp_reg_props_def
        NkIWindow_CLSID_def)
qed



text \<open>C5: The main loop ends.  When the message pump delivers the request to quit after some number of turns,
  and nothing else touches the layer stack, the main loop presents exactly that number of frames,
  then releases the renderer and the window and returns the code of the request.\<close>

theorem main_loop_returns_on_quit:
  assumes "quits_after R pending frames code" "stack_is st v"
    "10 ^ 4 \<le> f32_round (of_nat (unat (rf_freq R st)))" "f32_round (of_nat (unat (rf_freq R st))) \<le> 10 ^ 9"
    "NkApplicationQueryInstance fns (wndId, NkIWindow_CLSID) (ls_env st) = Done (Some wnd, c)"
    "rf_GetRenderer R wnd (st\<lparr>ls_env := c\<rparr>) = (rd, st1)" "stack_is st1 v"
  shows "\<exists>st2 st3. NkApplicationRun fns R wndId st = Done (code, st3) \<and> frames st2 = frames st1 + pending st1
    \<and> st3 = (let s = rf_RdRelease R rd st2 in s\<lparr>ls_env := om_Release (af_vt fns) wnd (ls_env s)\<rparr>)"
proof -
  let ?F = "f32_round (of_nat (unat (rf_freq R st)))"
  obtain m where m: "maxElapsed ?F = Done m" "of_nat m \<le> 16001 / 1000000 * ?F"
    using maxElapsed_bounds[of ?F] assms(3,4) by auto
  obtain now st1' where t: "rf_ticks R st1 = (now, st1')" by fastforce
  have i: "inert (\<lambda>st. (pending st, frames st)) (\<lambda>st. snd (rf_ticks R st))" using assms(1) by (simp add: quits_after_def Let_def)
  have s: "stack_is st1' v" "pending st1' = pending st1" "frames st1' = frames st1"
    using inertD[OF i, of st1] t assms(7) by (auto simp: stack_is_def)
  have "f32_round (of_nat 0) \<le> ticksPerUpdate ?F" using ticksPerUpdate_bounds(1)[of ?F] assms(3) by (simp add: f32_round_def)
  from run_loop_quits[OF assms(1,3,4) m(2) s(1) this, of rd now] obtain st2
    where "run_loop R rd ?F m (now, 0, st1') = Some (Done (code, st2))" "frames st2 = frames st1 + pending st1"
    using s by auto
  then show ?thesis using assms(5,6) m(1) t
    by (auto simp: NkApplicationRun_def NkTimerGetFrequency_def NkTimerGetCurrentTicks_def Let_def)
qed

theorem main_loop_returns_on_quit_witness:
  "\<exists>st. NkApplicationRun wnd_fns sample_run 4096 (sample_state 3) = Done (NkErr_ManuallyAborted, st) \<and> rw_frames (world st) = 3"
proof -
  have f: "f32_round (of_nat (unat (rf_freq sample_run (sample_state 3)))) = 10 ^ 7"
    unfolding sample_run_def by simp code_simp
  have g: "rf_GetRenderer sample_run 1 (sample_state 3\<lparr>ls_env := ls_env (sample_state 3)\<rparr>) = ((), sample_state 3)"
    by (simp add: sample_run_def)
  show ?thesis
    using main_loop_returns_on_quit[OF sample_quits sample_state_facts(1) _ _ sample_window g sample_state_facts(1), unfolded f]
    by (auto simp: Let_def) (auto simp: sample_run_def wnd_fns_def wnd_vt_def)
qed

end
