(* ===== verification/NkBitmap.thy ===== *)
theory NkBitmap
  imports NkAlloc NkUtil
begin

unbundle bit_operations_syntax

section \<open>Device-independent bitmaps (src/Noriko/bmp.c)\<close>

text \<open>
  Unsigned members are naturals below their range, signed ones integers.  A pixel array is the list
  of its bytes, \<open>None\<close> where the contents are indeterminate.  A file is the list of its bytes; opening it
  is answered by an option.  Reading a structure of which the file does not hold all bytes leaves it
  indeterminate, and using it then counts as undefined behaviour.
\<close>

abbreviation (input) NkBmpFlag_Flipped :: nat where "NkBmpFlag_Flipped \<equiv> 1"
abbreviation (input) NkBmpFlag_UseBitmasks :: nat where "NkBmpFlag_UseBitmasks \<equiv> 2"
abbreviation (input) NkBmpFlag_SuppAlpha :: nat where "NkBmpFlag_SuppAlpha \<equiv> 3"

record NkBitmapSpecification =
  bs_structSize :: nat
  m_bmpWidth :: int
  m_bmpHeight :: int
  m_bmpStride :: nat
  m_bitsPerPx :: nat
  m_bmpFlags :: nat
  m_redMask :: nat
  m_greenMask :: nat
  m_blueMask :: nat
  m_alphaMask :: nat

record NkDIBitmap =
  m_bSpec :: NkBitmapSpecification
  mp_pxArray :: "byte option list"

record NkRgbaColor =
  m_rVal :: nat
  m_gVal :: nat
  m_bVal :: nat
  m_aVal :: nat

subsection \<open>Sizes\<close>

text \<open>A signed 32-bit value as an unsigned one and back.\<close>

definition u32 :: "int \<Rightarrow> nat" where
  "u32 x = nat (x mod 2 ^ 32)"

definition i32 :: "nat \<Rightarrow> int" where
  "i32 n = (if n mod 2 ^ 32 < 2 ^ 31 then int (n mod 2 ^ 32) else int (n mod 2 ^ 32) - 2 ^ 32)"

definition CalculateStride :: "int \<Rightarrow> nat \<Rightarrow> nat" where
  "CalculateStride bmpWidth bitsPerPx = drop_bit 3 (wrap32 (u32 bmpWidth * bitsPerPx + 31) AND 0xFFFFFFE0)"

definition GetAdjustedHeight :: "nat \<Rightarrow> nat \<Rightarrow> int" where
  "GetAdjustedHeight bmpHeight bmpFlags =
     i32 (wrap32 (bmpHeight * (if bmpFlags AND (0xFFFFFFFF - NkBmpFlag_Flipped) \<noteq> 0 then 0xFFFFFFFF else 1)))"

abbreviation (input) BI_RGB :: nat where "BI_RGB \<equiv> 0"
abbreviation (input) BI_BITFIELDS :: nat where "BI_BITFIELDS \<equiv> 3"

definition MapToCompressionMethod :: "nat \<Rightarrow> nat" where
  "MapToCompressionMethod bmpFlags = (if bmpFlags AND NkBmpFlag_UseBitmasks \<noteq> 0 then BI_BITFIELDS else BI_RGB)"

definition CalculateRawArraySize :: "int \<Rightarrow> int \<Rightarrow> nat \<Rightarrow> nat" where
  "CalculateRawArraySize bmpWidth bmpHeight bitsPerPx = wrap32 (CalculateStride bmpWidth bitsPerPx * u32 bmpHeight)"

subsection \<open>Filling\<close>

text \<open>Shifting a byte into the sign bit of an \<open>int\<close> is what the compiler makes of it, the unsigned shift.\<close>

definition byte_pattern :: "nat \<Rightarrow> nat" where
  "byte_pattern v = push_bit 24 v OR push_bit 16 v OR push_bit 8 v OR v"

definition CvtColor :: "NkRgbaColor \<Rightarrow> NkBitmapSpecification \<Rightarrow> nat" where
  "CvtColor cCol bmpSpecs =
     (let rPat = byte_pattern (m_rVal cCol); gPat = byte_pattern (m_gVal cCol);
          bPat = byte_pattern (m_bVal cCol); aPat = byte_pattern (m_aVal cCol);
          resCol = (if m_bmpFlags bmpSpecs AND NkBmpFlag_UseBitmasks \<noteq> 0
                    then (rPat AND m_redMask bmpSpecs) OR (gPat AND m_greenMask bmpSpecs) OR (bPat AND m_blueMask bmpSpecs)
                    else 0xFF000000 OR push_bit 16 (m_rVal cCol) OR push_bit 8 (m_gVal cCol) OR m_bVal cCol)
      in resCol OR (if m_bmpFlags bmpSpecs AND NkBmpFlag_SuppAlpha \<noteq> 0 then aPat AND m_alphaMask bmpSpecs else 0))"

text \<open>Little-endian bytes.\<close>

definition le_put :: "nat \<Rightarrow> nat \<Rightarrow> byte list" where
  "le_put n x = map (\<lambda>i. of_nat (x div 256 ^ i)) [0..<n]"

fun le_get :: "byte list \<Rightarrow> nat" where
  "le_get [] = 0"
| "le_get (b # bs) = unat b + 256 * le_get bs"

partial_function (option) fill_row :: "nat \<Rightarrow> nat \<Rightarrow> byte option list \<Rightarrow> byte option list outcome option" where
  "fill_row rowSize i px =
     (if i < rowSize
      then lbind (Some (mem_copy px i px 0 (min (rowSize - i) i))) (\<lambda>px. fill_row rowSize (wrap32 (i + i)) px)
      else Some (Done px))"

text \<open>Doubling the signed row index must not overflow.\<close>

partial_function (option) fill_rows :: "int \<Rightarrow> nat \<Rightarrow> int \<Rightarrow> byte option list \<Rightarrow> byte option list outcome option" where
  "fill_rows bmpHeight rowSize i px =
     (if i < bmpHeight
      then lbind (Some (mem_copy px (wrap32 (u32 i * rowSize)) px 0 (wrap32 (rowSize * u32 (min (bmpHeight - i) i))))) (\<lambda>px.
             if 2 ^ 31 \<le> i + i then Some Undef else fill_rows bmpHeight rowSize (i + i) px)
      else Some (Done px))"

definition DIBitmap_Fill ::
    "NkBitmapSpecification \<Rightarrow> nat \<Rightarrow> NkRgbaColor \<Rightarrow> byte option list \<Rightarrow> byte option list outcome" where
  "DIBitmap_Fill bmpSpecs rowSize clearCol px =
     (let pixelWidth = drop_bit 3 (m_bitsPerPx bmpSpecs);
          cvtClearCol = CvtColor clearCol bmpSpecs
      in obind (mem_copy px 0 (map Some (le_put 4 cvtClearCol)) 0 pixelWidth) (\<lambda>px.
         obind (of_loop (fill_row rowSize pixelWidth px)) (\<lambda>px.
           of_loop (fill_rows (m_bmpHeight bmpSpecs) rowSize 1 px))))"

subsection \<open>Creating\<close>

definition ValidateSpecification :: "NkBitmapSpecification \<Rightarrow> NkErrorCode" where
  "ValidateSpecification bmSpecs =
     (let errCode = NkErr_Ok;
          errCode = (if \<not> 0 < m_bmpWidth bmSpecs then NkErr_InvImageDimensions else errCode);
          errCode = (if \<not> 0 < m_bmpHeight bmSpecs then NkErr_InvImageDimensions else errCode);
          errCode = (if \<not> (m_bitsPerPx bmSpecs = 24 \<or> m_bitsPerPx bmSpecs = 32) then NkErr_InvBitDepth else errCode)
      in errCode)"

definition NkDIBitmapCreate ::
    "heap_answer \<Rightarrow> NkBitmapSpecification \<Rightarrow> NkRgbaColor option \<Rightarrow> (NkErrorCode \<times> NkDIBitmap option) outcome" where
  "NkDIBitmapCreate heap bmpSpecs clearCol =
     (let errCode = ValidateSpecification bmpSpecs in
      if errCode \<noteq> NkErr_Ok then Done (errCode, None)
      else let rowSize = CalculateStride (m_bmpWidth bmpSpecs) (m_bitsPerPx bmpSpecs);
               size = wrap64 (nat (m_bmpHeight bmpSpecs) * rowSize) in
        obind (NkGPAlloc heap size 0) (\<lambda>errCode.
          if errCode \<noteq> NkErr_Ok then Done (errCode, None)
          else obind (case clearCol of None \<Rightarrow> Done (replicate size None)
                      | Some col \<Rightarrow> DIBitmap_Fill bmpSpecs rowSize col (replicate size None)) (\<lambda>px.
                 Done (NkErr_Ok, Some \<lparr>m_bSpec = bmpSpecs\<lparr>m_bmpStride := rowSize\<rparr>, mp_pxArray = px\<rparr>))))"

definition NkDIBitmapGetSpecification :: "NkDIBitmap \<Rightarrow> NkBitmapSpecification" where
  "NkDIBitmapGetSpecification bmp = m_bSpec bmp"

definition NkDIBitmapGetPixels :: "NkDIBitmap \<Rightarrow> byte option list \<times> nat" where
  "NkDIBitmapGetPixels bmp = (mp_pxArray bmp, wrap32 (m_bmpStride (m_bSpec bmp) * u32 (m_bmpHeight (m_bSpec bmp))))"

subsection \<open>Files\<close>

record BitmapFileHeader =
  m_bfType :: nat
  m_bfSize :: nat
  m_bfReserved :: nat
  m_bfOffBytes :: nat

text \<open>The members of the version 4 header that are read or written with a value other than zero, and the
  planes.\<close>

record BitmapV4InfoHeader =
  m_biSize :: nat
  m_biWidth :: int
  m_biHeight :: int
  m_biPlanes :: nat
  m_biBitCount :: nat
  m_biCompression :: nat
  m_biSizeImage :: nat
  bi_redMask :: nat
  bi_greenMask :: nat
  bi_blueMask :: nat
  bi_alphaMask :: nat
  m_csType :: nat

definition put_file_header :: "BitmapFileHeader \<Rightarrow> byte list" where
  "put_file_header h = le_put 2 (m_bfType h) @ le_put 4 (m_bfSize h) @ le_put 4 (m_bfReserved h) @ le_put 4 (m_bfOffBytes h)"

definition put_info_header :: "BitmapV4InfoHeader \<Rightarrow> byte list" where
  "put_info_header h = le_put 4 (m_biSize h) @ le_put 4 (u32 (m_biWidth h)) @ le_put 4 (u32 (m_biHeight h))
     @ le_put 2 (m_biPlanes h) @ le_put 2 (m_biBitCount h) @ le_put 4 (m_biCompression h) @ le_put 4 (m_biSizeImage h)
     @ replicate 16 0 @ le_put 4 (bi_redMask h) @ le_put 4 (bi_greenMask h) @ le_put 4 (bi_blueMask h)
     @ le_put 4 (bi_alphaMask h) @ le_put 4 (m_csType h) @ replicate 48 0"

text \<open>The field of \<open>n\<close> bytes at an offset.\<close>

definition field :: "byte list \<Rightarrow> nat \<Rightarrow> nat \<Rightarrow> nat" where
  "field bs off n = le_get (take n (drop off bs))"

definition get_info_header :: "byte list \<Rightarrow> BitmapV4InfoHeader" where
  "get_info_header bs = \<lparr>m_biSize = field bs 0 4, m_biWidth = i32 (field bs 4 4), m_biHeight = i32 (field bs 8 4),
     m_biPlanes = field bs 12 2, m_biBitCount = field bs 14 2, m_biCompression = field bs 16 4,
     m_biSizeImage = field bs 20 4, bi_redMask = field bs 40 4, bi_greenMask = field bs 44 4, bi_blueMask = field bs 48 4,
     bi_alphaMask = field bs 52 4, m_csType = field bs 56 4\<rparr>"

text \<open>Reading \<open>n\<close> bytes at a position.\<close>

definition fread :: "byte list \<Rightarrow> nat \<Rightarrow> nat \<Rightarrow> byte list outcome" where
  "fread file pos n = (if pos + n \<le> length file then Done (take n (drop pos file)) else Undef)"

text \<open>\<open>fseek\<close> takes a 32-bit \<open>long\<close>; it fails on a negative one, and the position stays.\<close>

definition NkDIBitmapLoad :: "heap_answer \<Rightarrow> byte list option \<Rightarrow> (NkErrorCode \<times> NkDIBitmap option) outcome" where
  "NkDIBitmapLoad heap fStream =
     (case fStream of None \<Rightarrow> Done (NkErr_OpenFile, None)
      | Some file \<Rightarrow>
          obind (fread file 0 14) (\<lambda>fh. obind (fread file 14 4) (\<lambda>sz.
            if le_get sz = 40 \<or> le_get sz = 108
            then obind (fread file 14 108) (\<lambda>ih.
              let bfOffBytes = field fh 10 4; dibHead = get_info_header ih;
                  pos = (if bfOffBytes < 2 ^ 31 then bfOffBytes else 14 + 108);
                  pxBufSize = (if m_biSizeImage dibHead \<noteq> 0 then m_biSizeImage dibHead
                    else CalculateRawArraySize (m_biWidth dibHead) (m_biHeight dibHead) (m_biBitCount dibHead))
              in obind (NkGPAlloc heap pxBufSize 0) (\<lambda>errCode.
                   if errCode \<noteq> NkErr_Ok then Done (errCode, None)
                   else let px = (if pos + pxBufSize \<le> length file then map Some (take pxBufSize (drop pos file))
                                  else replicate pxBufSize None);
                            spec = \<lparr>bs_structSize = 40, m_bmpWidth = m_biWidth dibHead, m_bmpHeight = m_biHeight dibHead,
                              m_bmpStride = CalculateStride (m_biWidth dibHead) (m_biBitCount dibHead),
                              m_bitsPerPx = m_biBitCount dibHead, m_bmpFlags = 0,
                              m_redMask = 0, m_greenMask = 0, m_blueMask = 0, m_alphaMask = 0\<rparr>;
                            spec = (if m_biCompression dibHead = BI_BITFIELDS
                              then let spec = spec\<lparr>m_redMask := bi_redMask dibHead\<rparr>
                                   in if m_biSize dibHead = 108 then spec\<lparr>m_alphaMask := bi_alphaMask dibHead\<rparr> else spec
                              else spec)
                        in Done (NkErr_Ok, Some \<lparr>m_bSpec = spec, mp_pxArray = px\<rparr>)))
            else Done (NkErr_UnsupportedFileFormat, None))))"

text \<open>The result is the new contents of the file.  \<open>junk\<close> is written for indeterminate bytes.\<close>

definition NkDIBitmapSave :: "byte \<Rightarrow> bool \<Rightarrow> NkDIBitmap \<Rightarrow> (NkErrorCode \<times> byte list option) outcome" where
  "NkDIBitmapSave junk canOpen bmp =
     (let spec = m_bSpec bmp;
          arrSize = CalculateRawArraySize (m_bmpWidth spec) (m_bmpHeight spec) (m_bitsPerPx spec);
          fileHead = \<lparr>m_bfType = 0x4D42, m_bfSize = wrap32 (14 + 108 + arrSize), m_bfReserved = 0, m_bfOffBytes = 14 + 108\<rparr>;
          infoHead = \<lparr>m_biSize = 108, m_biWidth = m_bmpWidth spec,
            m_biHeight = GetAdjustedHeight (u32 (m_bmpHeight spec)) (m_bmpFlags spec), m_biPlanes = 1,
            m_biBitCount = m_bitsPerPx spec, m_biCompression = MapToCompressionMethod (m_bmpFlags spec),
            m_biSizeImage = arrSize, bi_redMask = m_redMask spec, bi_greenMask = m_greenMask spec,
            bi_blueMask = m_blueMask spec, bi_alphaMask = m_alphaMask spec, m_csType = UINT32_MAX\<rparr>
      in if \<not> canOpen then Done (NkErr_OpenFile, None)
         else if length (mp_pxArray bmp) < arrSize then Undef
         else Done (NkErr_Ok, Some (put_file_header fileHead @ put_info_header infoHead
                @ map (case_option junk (\<lambda>b. b)) (take arrSize (mp_pxArray bmp)))))"

text \<open>The block that is freed.\<close>

definition NkDIBitmapDestroy :: "NkDIBitmap option \<Rightarrow> byte option list list" where
  "NkDIBitmapDestroy bmp = (case bmp of None \<Rightarrow> [] | Some b \<Rightarrow> [mp_pxArray b])"

subsection \<open>Lemmas\<close>

lemma length_le_put [simp]: "length (le_put n x) = n"
  by (simp add: le_put_def)

lemma le_put_Suc: "le_put (Suc n) x = of_nat x # le_put n (x div 256)"
  by (simp add: le_put_def upt_conv_Cons map_Suc_upt[symmetric] div_mult2_eq comp_def del: upt_Suc)

lemma le_get_put: "le_get (le_put n x) = x mod 256 ^ n"
proof (induction n arbitrary: x)
  case 0
  then show ?case by (simp add: le_put_def)
next
  case (Suc n)
  then show ?case by (simp add: le_put_Suc unat_of_nat mod_mult2_eq add.commute)
qed

lemma and_high_mask: "n < 2 ^ w \<Longrightarrow> n AND push_bit j (mask (w - j)) = n div 2 ^ j * (2 :: nat) ^ j"
proof -
  assume "n < 2 ^ w"
  then have "take_bit w n = n" by (simp add: take_bit_nat_eq_self)
  then have hi: "bit n k \<Longrightarrow> k < w" for k by (metis bit_take_bit_iff)
  have "n AND push_bit j (mask (w - j)) = push_bit j (drop_bit j n)"
    by (rule bit_eqI) (auto simp: bit_and_iff bit_push_bit_iff bit_mask_iff bit_drop_bit_eq dest: hi)
  then show ?thesis by (simp add: push_bit_eq_mult drop_bit_eq_div)
qed

lemma and_stride_mask: "n < 2 ^ 32 \<Longrightarrow> n AND 0xFFFFFFE0 = n div 32 * (32 :: nat)"
  using and_high_mask[of n 32 5] by (simp add: push_bit_eq_mult mask_eq_exp_minus_1)

lemma u32_nonneg: "0 \<le> x \<Longrightarrow> x < 2 ^ 32 \<Longrightarrow> u32 x = nat x"
  by (simp add: u32_def)

lemma u32_lt: "u32 x < 2 ^ 32"
  by (simp add: u32_def nat_less_iff)

lemma i32_u32: "- (2 ^ 31) \<le> x \<Longrightarrow> x < 2 ^ 31 \<Longrightarrow> i32 (u32 x) = x"
proof -
  assume a: "- (2 ^ 31) \<le> x" "x < 2 ^ 31"
  have m: "u32 x mod 2 ^ 32 = u32 x" using u32_lt[of x] by (rule mod_less)
  show ?thesis
  proof (cases "0 \<le> x")
    case True
    then show ?thesis using a m by (simp add: i32_def u32_nonneg)
  next
    case False
    have "x mod 2 ^ 32 = (x + 2 ^ 32) mod 2 ^ 32" by simp
    also have "\<dots> = x + 2 ^ 32" using a False by (intro mod_pos_pos_trivial) auto
    finally have "x mod 2 ^ 32 = x + 2 ^ 32" .
    then have "u32 x = nat (x + 2 ^ 32)" by (simp add: u32_def)
    then show ?thesis using a False m by (simp add: i32_def)
  qed
qed

text \<open>Dimensions for which nothing wraps around.\<close>

definition bmp_dims_ok :: "NkBitmapSpecification \<Rightarrow> bool" where
  "bmp_dims_ok s \<longleftrightarrow> 0 < m_bmpWidth s \<and> 0 < m_bmpHeight s \<and> m_bitsPerPx s \<in> {24, 32}
     \<and> nat (m_bmpHeight s) * (4 * ((nat (m_bmpWidth s) * m_bitsPerPx s + 31) div 32)) < 2 ^ 29"

lemma dims_bounds:
  assumes "bmp_dims_ok s"
  defines "r \<equiv> 4 * ((nat (m_bmpWidth s) * m_bitsPerPx s + 31) div 32)"
  shows "CalculateStride (m_bmpWidth s) (m_bitsPerPx s) = r" "4 \<le> r" "r < 2 ^ 29" "m_bmpHeight s < 2 ^ 29"
    "nat (m_bmpHeight s) * r < 2 ^ 29" "m_bmpWidth s < 2 ^ 31" "0 < m_bmpHeight s" "0 < m_bmpWidth s"
proof -
  have s: "0 < m_bmpWidth s" "0 < m_bmpHeight s" "m_bitsPerPx s = 24 \<or> m_bitsPerPx s = 32" "nat (m_bmpHeight s) * r < 2 ^ 29"
    using assms(1) by (auto simp: bmp_dims_ok_def r_def)
  define n where "n = nat (m_bmpWidth s) * m_bitsPerPx s + 31"
  have rn: "r = 4 * (n div 32)" by (simp add: r_def n_def)
  have "32 \<le> n" using s(1,3) by (auto simp: n_def)
  then have q: "1 \<le> n div 32" by simp
  then show r4: "4 \<le> r" by (simp add: rn)
  have "1 * r \<le> nat (m_bmpHeight s) * r" using s(2) by (intro mult_right_mono) auto
  then show r: "r < 2 ^ 29" using s(4) by linarith
  have "nat (m_bmpHeight s) * 4 \<le> nat (m_bmpHeight s) * r" using r4 by simp
  then have "nat (m_bmpHeight s) < 2 ^ 29" using s(4) by linarith
  then show "m_bmpHeight s < 2 ^ 29" by simp
  have n32: "n < 2 ^ 32" using r unfolding rn by simp
  have "nat (m_bmpWidth s) * 24 \<le> n" using s(3) by (auto simp: n_def)
  then have "nat (m_bmpWidth s) * 24 < 4294967296" using n32 by simp
  then have "nat (m_bmpWidth s) < 2147483648" by linarith
  then show w: "m_bmpWidth s < 2 ^ 31" by simp
  have "u32 (m_bmpWidth s) * m_bitsPerPx s + 31 = n" using s(1) w by (simp add: u32_nonneg n_def)
  then show "CalculateStride (m_bmpWidth s) (m_bitsPerPx s) = r"
    using n32 by (simp add: CalculateStride_def and_stride_mask wrap32_def drop_bit_eq_div rn)
qed (use assms in \<open>auto simp: bmp_dims_ok_def\<close>)

text \<open>The first \<open>n\<close> slots hold the values of a function; copying them behind themselves extends a periodic
  prefix.\<close>

definition prefix_is :: "(nat \<Rightarrow> 'a) \<Rightarrow> nat \<Rightarrow> 'a list \<Rightarrow> bool" where
  "prefix_is f n xs \<longleftrightarrow> n \<le> length xs \<and> (\<forall>k < n. xs ! k = f k)"

lemma copy_double:
  assumes "prefix_is f i px" "m \<le> i" "i + m \<le> length px" "\<And>k. k < m \<Longrightarrow> f (i + k) = f k"
  shows "\<exists>px'. mem_copy px i px 0 m = Done px' \<and> prefix_is f (i + m) px' \<and> length px' = length px"
proof -
  let ?px = "take i px @ take m px @ drop (i + m) px"
  have c: "mem_copy px i px 0 m = Done ?px" using assms by (auto simp: mem_copy_def)
  have "?px ! k = f k" if "k < i + m" for k
    using that assms by (cases "k < i") (auto simp: nth_append prefix_is_def dest: assms(4)[of "k - i"])
  then show ?thesis using c assms by (auto simp: prefix_is_def)
qed

lemma fill_row_spec:
  assumes "prefix_is f i px" "0 < i" "i \<le> rowSize" "rowSize \<le> length px" "rowSize < 2 ^ 29"
    and "\<And>k. f (k + p) = f k" "p dvd i"
  shows "\<exists>px'. fill_row rowSize i px = Some (Done px') \<and> prefix_is f rowSize px' \<and> length px' = length px"
  using assms(1-4,7)
proof (induction "rowSize - i" arbitrary: i px rule: less_induct)
  case less
  have shift: "f (k + p * j) = f k" for k j
    by (induction j) (simp_all add: assms(6) add.assoc[symmetric] add.commute[of p])
  show ?case
  proof (cases "i < rowSize")
    case False
    then show ?thesis using less.prems by (subst fill_row.simps) (auto simp: prefix_is_def)
  next
    case True
    let ?m = "min (rowSize - i) i"
    have per: "f (i + k) = f k" for k using shift[of k "i div p"] less.prems(5) by (simp add: add.commute)
    have "i + ?m \<le> length px" using less.prems(4) True by linarith
    from copy_double[OF less.prems(1) min.cobounded2 this per] obtain px1 where c: "mem_copy px i px 0 ?m = Done px1" "prefix_is f (i + ?m) px1" "length px1 = length px" by blast
    have w: "wrap32 (i + i) = i + i" using True assms(5) by (simp add: wrap32_small)
    show ?thesis
    proof (cases "i + i < rowSize")
      case lt: True
      then have "i + ?m = i + i" by simp
      then show ?thesis
        using less.hyps[of "i + i" px1] less.prems c lt w True by (subst fill_row.simps) auto
    next
      case False
      then have "i + ?m = rowSize" using True by simp
      moreover have "fill_row rowSize (i + i) px1 = Some (Done px1)" using False by (subst fill_row.simps) simp
      ultimately show ?thesis using c w True by (subst fill_row.simps) auto
    qed
  qed
qed

lemma fill_rows_spec:
  assumes "prefix_is f (nat i * r) px" "0 < i" "i \<le> h" "nat h * r \<le> length px" "h < 2 ^ 29" "nat h * r < 2 ^ 29" "0 < r"
    and "\<And>k. f (k + r) = f k"
  shows "\<exists>px'. fill_rows h r i px = Some (Done px') \<and> prefix_is f (nat h * r) px' \<and> length px' = length px"
  using assms(1-4)
proof (induction "nat (h - i)" arbitrary: i px rule: less_induct)
  case less
  have shift: "f (k + r * j) = f k" for k j
    by (induction j) (simp_all add: assms(8) add.assoc[symmetric] add.commute[of r])
  show ?case
  proof (cases "i < h")
    case False
    then have "i = h" using less.prems(3) by simp
    then show ?thesis using less.prems(1) by (subst fill_rows.simps) auto
  next
    case True
    let ?m = "min (h - i) i"
    have le: "nat i * r \<le> nat h * r" "r * nat ?m \<le> nat h * r" "nat i * r + r * nat ?m \<le> nat h * r" "r * nat ?m \<le> nat i * r"
      using True less.prems(2) by (auto simp: add_mult_distrib[symmetric] mult.commute[of r] nat_add_distrib[symmetric] min_def intro!: mult_right_mono)
    have u: "u32 i = nat i" "u32 ?m = nat ?m" using True less.prems(2) assms(5) by (auto simp: u32_nonneg)
    have w: "wrap32 (u32 i * r) = nat i * r" "wrap32 (r * u32 ?m) = r * nat ?m"
      using le assms(6) unfolding u by (auto intro!: wrap32_small)
    have per: "f (nat i * r + k) = f k" for k using shift[of k "nat i"] by (simp add: ac_simps)
    from copy_double[OF less.prems(1) le(4) order_trans[OF le(3) less.prems(4)] per] obtain px1 where c: "mem_copy px (nat i * r) px 0 (r * nat ?m) = Done px1"
      "prefix_is f (nat i * r + r * nat ?m) px1" "length px1 = length px" by blast
    have ov: "\<not> 2 ^ 31 \<le> i + i" using True assms(5) by simp
    show ?thesis
    proof (cases "i + i < h")
      case lt: True
      have "nat (i + i) = nat i + nat i" using less.prems(2) by (simp add: nat_add_distrib)
      then have "nat i * r + r * nat ?m = nat (i + i) * r" using lt by (simp add: algebra_simps)
      then show ?thesis
        using less.hyps[of "i + i" px1] less.prems c lt w True ov by (subst fill_rows.simps) auto
    next
      case False
      have "nat h = nat i + nat (h - i)" using less.prems(2) True by (simp add: nat_add_distrib[symmetric])
      then have "nat i * r + r * nat ?m = nat h * r" using False by (simp add: algebra_simps min_def)
      moreover have "fill_rows h r (i + i) px1 = Some (Done px1)" using False by (subst fill_rows.simps) simp
      ultimately show ?thesis using c w True ov by (subst fill_rows.simps) auto
    qed
  qed
qed


text \<open>The pixel bytes a filled bitmap repeats.\<close>

definition px_pattern :: "NkBitmapSpecification \<Rightarrow> NkRgbaColor \<Rightarrow> nat \<Rightarrow> byte option" where
  "px_pattern s col x = Some (le_put 4 (CvtColor col s) ! (x mod (m_bitsPerPx s div 8)))"

lemma Fill_spec:
  assumes "bmp_dims_ok s" "r = CalculateStride (m_bmpWidth s) (m_bitsPerPx s)" "length px = nat (m_bmpHeight s) * r"
  shows "\<exists>px'. DIBitmap_Fill s r col px = Done px' \<and> length px' = length px
    \<and> (\<forall>k < length px. px' ! k = px_pattern s col (k mod r))"
proof -
  note b = dims_bounds[OF assms(1), folded assms(2)]
  have r: "4 \<le> r" "r < 2 ^ 29" "nat (m_bmpHeight s) * r < 2 ^ 29" using b assms(2) by simp_all
  let ?p = "m_bitsPerPx s div 8" and ?h = "nat (m_bmpHeight s)"
  have p: "?p = 3 \<or> ?p = 4" using assms(1) by (auto simp: bmp_dims_ok_def)
  have rl: "r \<le> length px"
    using b(7) unfolding assms(3) by (simp add: Suc_le_eq)
  let ?f = "px_pattern s col"
  let ?c = "map Some (le_put 4 (CvtColor col s))"
  let ?px0 = "take ?p ?c @ drop ?p px"
  have c0: "mem_copy px 0 ?c 0 ?p = Done ?px0" using p r(1) rl by (auto simp: mem_copy_def)
  have "?px0 ! k = ?f k" if "k < ?p" for k using that p by (auto simp: nth_append px_pattern_def)
  moreover have l0: "length ?px0 = length px" using p r(1) rl by auto
  ultimately have p0: "prefix_is ?f ?p ?px0" using p r(1) rl by (auto simp: prefix_is_def)
  have "?f (k + ?p) = ?f k" for k by (simp add: px_pattern_def)
  from fill_row_spec[OF p0 _ _ _ r(2) this dvd_refl] obtain px1
    where 1: "fill_row r ?p ?px0 = Some (Done px1)" "prefix_is ?f r px1" "length px1 = length px"
    using p r(1) rl l0 by auto
  let ?g = "\<lambda>k. ?f (k mod r)"
  have "prefix_is ?g (nat 1 * r) px1" using 1(2) by (simp add: prefix_is_def)
  from fill_rows_spec[OF this, of "m_bmpHeight s"] obtain px2
    where 2: "fill_rows (m_bmpHeight s) r 1 px1 = Some (Done px2)" "prefix_is ?g (?h * r) px2" "length px2 = length px"
    using b(4,7) r assms(3) 1(3) by auto
  have "drop_bit 3 (m_bitsPerPx s) = ?p" by (simp add: drop_bit_eq_div)
  then have "DIBitmap_Fill s r col px = Done px2" using c0 1(1) 2(1) by (simp add: DIBitmap_Fill_def)
  then show ?thesis using 2 assms(3) by (auto simp: prefix_is_def)
qed

lemma field_put:
  "off = length pre \<Longrightarrow> field (pre @ le_put n x @ rest) off n = x mod 256 ^ n"
  by (simp add: field_def le_get_put)

lemma get_put_info_header:
  assumes "m_biSize h < 2 ^ 32" "- (2 ^ 31) \<le> m_biWidth h" "m_biWidth h < 2 ^ 31" "- (2 ^ 31) \<le> m_biHeight h" "m_biHeight h < 2 ^ 31"
    "m_biPlanes h < 2 ^ 16" "m_biBitCount h < 2 ^ 16" "m_biCompression h < 2 ^ 32" "m_biSizeImage h < 2 ^ 32"
    "bi_redMask h < 2 ^ 32" "bi_greenMask h < 2 ^ 32" "bi_blueMask h < 2 ^ 32" "bi_alphaMask h < 2 ^ 32" "m_csType h < 2 ^ 32"
  shows "get_info_header (put_info_header h) = h"
  using assms u32_lt[of "m_biWidth h"] u32_lt[of "m_biHeight h"]
  by (simp add: get_info_header_def put_info_header_def field_def le_get_put i32_u32)


lemma raw_size:
  assumes "bmp_dims_ok s"
  shows "CalculateRawArraySize (m_bmpWidth s) (m_bmpHeight s) (m_bitsPerPx s)
      = nat (m_bmpHeight s) * CalculateStride (m_bmpWidth s) (m_bitsPerPx s)"
    "0 < nat (m_bmpHeight s) * CalculateStride (m_bmpWidth s) (m_bitsPerPx s)"
    "nat (m_bmpHeight s) * CalculateStride (m_bmpWidth s) (m_bitsPerPx s) < 2 ^ 29"
proof -
  note b = dims_bounds[OF assms]
  show l: "nat (m_bmpHeight s) * CalculateStride (m_bmpWidth s) (m_bitsPerPx s) < 2 ^ 29" using b(1,5) by simp
  show "0 < nat (m_bmpHeight s) * CalculateStride (m_bmpWidth s) (m_bitsPerPx s)" using b(1,2,7) by auto
  have "u32 (m_bmpHeight s) = nat (m_bmpHeight s)" using b(4,7) by (simp add: u32_nonneg)
  then show "CalculateRawArraySize (m_bmpWidth s) (m_bmpHeight s) (m_bitsPerPx s)
      = nat (m_bmpHeight s) * CalculateStride (m_bmpWidth s) (m_bitsPerPx s)"
    using l by (simp add: CalculateRawArraySize_def wrap32_small mult.commute)
qed

lemma adjusted_height:
  assumes "0 < h" "h < 2 ^ 29" "f < 2 ^ 16"
  shows "GetAdjustedHeight (u32 h) f = (if f div 2 \<noteq> 0 then - h else h)"
proof -
  have u: "u32 h = nat h" using assms by (simp add: u32_nonneg)
  have "f AND 0xFFFFFFFE = f div 2 * 2"
    using and_high_mask[of f 32 1] assms(3) by (simp add: push_bit_eq_mult mask_eq_exp_minus_1)
  moreover have "i32 (wrap32 (nat h * 4294967295)) = - h"
  proof -
    have "int (nat h * 4294967295) = h * 4294967295" using assms(1) by simp
    then have "int (wrap32 (nat h * 4294967295)) = (h * 4294967295) mod 2 ^ 32" by (simp add: wrap32_def zmod_int)
    also have "h * 4294967295 = - h + h * 2 ^ 32" by simp
    also have "\<dots> mod 2 ^ 32 = (- h) mod 2 ^ 32" by (rule mod_mult_self1)
    finally have "wrap32 (nat h * 4294967295) = u32 (- h)" by (simp add: u32_def)
    then show ?thesis using i32_u32[of "- h"] assms by simp
  qed
  moreover have "i32 (wrap32 (nat h)) = h" using i32_u32[of h] assms u by (simp add: wrap32_small)
  ultimately show ?thesis by (simp add: GetAdjustedHeight_def u)
qed

lemma Load_parts:
  assumes "length fh = 14" "length ih = 108" "take 4 ih = le_put 4 108" "field fh 10 4 = 122" "get_info_header ih = H"
    "m_biSize H = 108" "m_biSizeImage H = length px" "px \<noteq> []"
  shows "NkDIBitmapLoad (\<lambda>_. True) (Some (fh @ ih @ px)) = Done (NkErr_Ok, Some \<lparr>m_bSpec =
      \<lparr>bs_structSize = 40, m_bmpWidth = m_biWidth H, m_bmpHeight = m_biHeight H,
       m_bmpStride = CalculateStride (m_biWidth H) (m_biBitCount H), m_bitsPerPx = m_biBitCount H, m_bmpFlags = 0,
       m_redMask = (if m_biCompression H = BI_BITFIELDS then bi_redMask H else 0), m_greenMask = 0, m_blueMask = 0,
       m_alphaMask = (if m_biCompression H = BI_BITFIELDS then bi_alphaMask H else 0)\<rparr>, mp_pxArray = map Some px\<rparr>)"
  using assms by (simp add: NkDIBitmapLoad_def fread_def le_get_put NkGPAlloc_def Let_def)

subsection \<open>Properties\<close>

text \<open>Creating a filled bitmap.  For 24 or 32 bits per pixel and a size below 512 MB, creating a bitmap with
  a clear colour succeeds when memory is granted: rows are padded to the next multiple of four bytes,
  and every row repeats the bytes of the converted colour, padding included.  The two loops, which
  copy chunks of doubling size, terminate and stay inside the pixel array.\<close>

theorem bitmap_create_filled:
  assumes "bmp_dims_ok s"
  shows "\<exists>px. NkDIBitmapCreate (\<lambda>_. True) s (Some col)
      = Done (NkErr_Ok, Some \<lparr>m_bSpec = s\<lparr>m_bmpStride := 4 * ((nat (m_bmpWidth s) * m_bitsPerPx s + 31) div 32)\<rparr>, mp_pxArray = px\<rparr>)
    \<and> length px = nat (m_bmpHeight s) * (4 * ((nat (m_bmpWidth s) * m_bitsPerPx s + 31) div 32))
    \<and> (\<forall>k < length px. px ! k = Some (le_put 4 (CvtColor col s)
          ! (k mod (4 * ((nat (m_bmpWidth s) * m_bitsPerPx s + 31) div 32)) mod (m_bitsPerPx s div 8))))"
proof -
  let ?r = "CalculateStride (m_bmpWidth s) (m_bitsPerPx s)" and ?n = "nat (m_bmpHeight s)"
  have sz: "wrap64 (?n * ?r) = ?n * ?r" "0 < ?n * ?r" using raw_size[OF assms] by (simp_all add: wrap64_small)
  have v: "ValidateSpecification s = NkErr_Ok" using assms by (auto simp: bmp_dims_ok_def ValidateSpecification_def)
  obtain px where px: "DIBitmap_Fill s ?r col (replicate (?n * ?r) None) = Done px" "length px = ?n * ?r"
    "\<forall>k < ?n * ?r. px ! k = px_pattern s col (k mod ?r)"
    using Fill_spec[OF assms refl, of "replicate (?n * ?r) None" col] by auto
  have "NkDIBitmapCreate (\<lambda>_. True) s (Some col) = Done (NkErr_Ok, Some \<lparr>m_bSpec = s\<lparr>m_bmpStride := ?r\<rparr>, mp_pxArray = px\<rparr>)"
    using v sz px(1) by (simp add: NkDIBitmapCreate_def NkGPAlloc_def)
  then show ?thesis using px(2,3) unfolding dims_bounds(1)[OF assms] px_pattern_def by auto
qed

text \<open>C40: Saving and loading.  Loading the file written for a bitmap gives its width, bit depth, row size and
  pixels back.  The height comes back negated as soon as a flag other than the one for flipped rows
  is set, the flags are lost, and of the masks only those of the red and the alpha channel come
  back, and only with bit masks in use.\<close>

theorem bitmap_save_load:
  assumes "bmp_dims_ok s" "m_bmpStride s = CalculateStride (m_bmpWidth s) (m_bitsPerPx s)"
    "length px = nat (m_bmpHeight s) * m_bmpStride s" "m_bmpFlags s < 2 ^ 16"
    "m_redMask s < 2 ^ 32" "m_greenMask s < 2 ^ 32" "m_blueMask s < 2 ^ 32" "m_alphaMask s < 2 ^ 32"
  shows "\<exists>file. NkDIBitmapSave junk True \<lparr>m_bSpec = s, mp_pxArray = map Some px\<rparr> = Done (NkErr_Ok, Some file)
    \<and> NkDIBitmapLoad (\<lambda>_. True) (Some file) = Done (NkErr_Ok, Some \<lparr>m_bSpec =
        \<lparr>bs_structSize = 40, m_bmpWidth = m_bmpWidth s,
         m_bmpHeight = (if m_bmpFlags s div 2 \<noteq> 0 then - m_bmpHeight s else m_bmpHeight s), m_bmpStride = m_bmpStride s,
         m_bitsPerPx = m_bitsPerPx s, m_bmpFlags = 0,
         m_redMask = (if m_bmpFlags s AND 2 \<noteq> 0 then m_redMask s else 0), m_greenMask = 0, m_blueMask = 0,
         m_alphaMask = (if m_bmpFlags s AND 2 \<noteq> 0 then m_alphaMask s else 0)\<rparr>, mp_pxArray = map Some px\<rparr>)"
proof -
  note b = dims_bounds[OF assms(1)] and z = raw_size[OF assms(1)]
  let ?n = "nat (m_bmpHeight s) * CalculateStride (m_bmpWidth s) (m_bitsPerPx s)"
  have len: "length px = ?n" using assms(2,3) by simp
  have ne: "px \<noteq> []" using z(2) unfolding len[symmetric] by simp
  let ?h = "if m_bmpFlags s div 2 \<noteq> 0 then - m_bmpHeight s else m_bmpHeight s"
  let ?ih = "\<lparr>m_biSize = 108, m_biWidth = m_bmpWidth s, m_biHeight = ?h, m_biPlanes = 1, m_biBitCount = m_bitsPerPx s,
    m_biCompression = MapToCompressionMethod (m_bmpFlags s), m_biSizeImage = ?n, bi_redMask = m_redMask s,
    bi_greenMask = m_greenMask s, bi_blueMask = m_blueMask s, bi_alphaMask = m_alphaMask s, m_csType = UINT32_MAX\<rparr>"
  let ?fh = "put_file_header \<lparr>m_bfType = 0x4D42, m_bfSize = wrap32 (14 + 108 + ?n), m_bfReserved = 0, m_bfOffBytes = 14 + 108\<rparr>"
  have adj: "GetAdjustedHeight (u32 (m_bmpHeight s)) (m_bmpFlags s) = ?h" using adjusted_height b(4,7) assms(4) by simp
  have save: "NkDIBitmapSave junk True \<lparr>m_bSpec = s, mp_pxArray = map Some px\<rparr>
      = Done (NkErr_Ok, Some (?fh @ put_info_header ?ih @ px))"
    using z(1) len adj by (simp add: NkDIBitmapSave_def comp_def Let_def)
  have fh: "length ?fh = 14" "field ?fh 10 4 = 122" by (simp_all add: put_file_header_def field_def le_get_put)
  have ih: "length (put_info_header ?ih) = 108" "take 4 (put_info_header ?ih) = le_put 4 108" by (simp_all add: put_info_header_def)
  have get: "get_info_header (put_info_header ?ih) = ?ih"
    by (rule get_put_info_header) (use b(4,6-8) z(3) assms in \<open>auto simp: MapToCompressionMethod_def bmp_dims_ok_def\<close>)
  have "NkDIBitmapLoad (\<lambda>_. True) (Some (?fh @ put_info_header ?ih @ px)) = Done (NkErr_Ok, Some \<lparr>m_bSpec =
        \<lparr>bs_structSize = 40, m_bmpWidth = m_bmpWidth s, m_bmpHeight = ?h, m_bmpStride = m_bmpStride s,
         m_bitsPerPx = m_bitsPerPx s, m_bmpFlags = 0,
         m_redMask = (if m_bmpFlags s AND 2 \<noteq> 0 then m_redMask s else 0), m_greenMask = 0, m_blueMask = 0,
         m_alphaMask = (if m_bmpFlags s AND 2 \<noteq> 0 then m_alphaMask s else 0)\<rparr>, mp_pxArray = map Some px\<rparr>)"
    using Load_parts[OF fh(1) ih fh(2) get, of px] ne len assms(2) by (simp add: MapToCompressionMethod_def)
  then show ?thesis using save by blast
qed

definition sample_bmp :: "nat \<Rightarrow> NkBitmapSpecification" where
  "sample_bmp flags = \<lparr>bs_structSize = 40, m_bmpWidth = 3, m_bmpHeight = 2, m_bmpStride = 12, m_bitsPerPx = 24, m_bmpFlags = flags,
     m_redMask = 0, m_greenMask = 0, m_blueMask = 0, m_alphaMask = 0\<rparr>"

theorem bitmap_create_filled_witness:
  "\<exists>px. NkDIBitmapCreate (\<lambda>_. True) (sample_bmp 0) (Some \<lparr>m_rVal = 1, m_gVal = 2, m_bVal = 3, m_aVal = 4\<rparr>)
      = Done (NkErr_Ok, Some \<lparr>m_bSpec = sample_bmp 0, mp_pxArray = px\<rparr>) \<and> length px = 24 \<and> px ! 13 = Some 2"
proof -
  let ?c = "\<lparr>m_rVal = 1, m_gVal = 2, m_bVal = 3, m_aVal = 4\<rparr>"
  have ok: "bmp_dims_ok (sample_bmp 0)" by (simp add: bmp_dims_ok_def sample_bmp_def)
  have "le_put 4 (CvtColor ?c (sample_bmp 0)) ! 1 = 2" by (simp add: CvtColor_def sample_bmp_def le_put_def)
  then show ?thesis using bitmap_create_filled[OF ok, of ?c] by (auto simp: sample_bmp_def)
qed

theorem bitmap_save_load_witness:
  "\<exists>file. NkDIBitmapSave 0 True \<lparr>m_bSpec = sample_bmp 1, mp_pxArray = map Some (replicate 24 7)\<rparr> = Done (NkErr_Ok, Some file)
    \<and> NkDIBitmapLoad (\<lambda>_. True) (Some file) = Done (NkErr_Ok, Some \<lparr>m_bSpec = sample_bmp 0, mp_pxArray = map Some (replicate 24 7)\<rparr>)"
proof -
  have ok: "bmp_dims_ok (sample_bmp 1)" by (simp add: bmp_dims_ok_def sample_bmp_def)
  have "CalculateStride 3 24 = 12" using dims_bounds(1)[OF ok] by (simp add: sample_bmp_def)
  then show ?thesis using bitmap_save_load[OF ok, of "replicate 24 7" 0] by (simp add: sample_bmp_def and_nat_numerals)
qed

end
