(* ===== verification/NkWorld.thy ===== *)
theory NkWorld
  imports NkOM NkEvent NkMainLoop NkBitmap
begin

unbundle bit_operations_syntax

section \<open>The world layer (src/Noriko/world.c)\<close>

text \<open>
  Positions are pairs of \<open>float\<close> values, as rationals after rounding.  The keys that are held down, the
  dimensions of the window, the tick counter and the square root of the C library are arguments.
  Drawing gives the list of the calls that reach the renderer.
\<close>

subsection \<open>The test maps\<close>

definition N :: "nat \<Rightarrow> nat \<Rightarrow> nat" where
  "N x y = (x AND 0xFFFF) OR push_bit 16 (y AND 0xFFFF)"

definition gl_TestMap1 :: "nat list" where
  "gl_TestMap1 = [
     N 2 0, N 2 0, N 2 0, N 2 0, N 2 0, N 2 0, N 2 0, N 2 0, N 2 0, N 2 0, N 2 0, N 2 0, N 2 0, N 2 0, N 2 0, N 2 0,
     N 2 0, N 2 0, N 2 0, N 2 0, N 2 0, N 2 0, N 2 0, N 2 0, N 2 0, N 2 0, N 2 0, N 2 0, N 2 0, N 2 0, N 2 0, N 5 0,
     N 2 0, N 2 0, N 2 0, N 2 0, N 2 0, N 2 0, N 2 0, N 2 0, N 2 0, N 2 0, N 2 0, N 2 0, N 2 0, N 2 0, N 0 0, N 2 0,
     N 2 0, N 2 0, N 2 0, N 2 0, N 2 0, N 2 0, N 2 0, N 2 0, N 2 0, N 2 0, N 2 0, N 2 0, N 2 0, N 2 0, N 2 0, N 0 0,
     N 2 0, N 2 0, N 2 0, N 2 0, N 2 0, N 2 0, N 2 0, N 2 0, N 2 0, N 2 0, N 2 0, N 2 0, N 2 0, N 2 0, N 2 0, N 2 0,
     N 2 0, N 2 0, N 2 0, N 2 0, N 2 0, N 2 0, N 2 0, N 2 0, N 2 0, N 2 0, N 2 0, N 2 0, N 2 0, N 2 0, N 2 0, N 2 0,
     N 2 0, N 2 0, N 2 0, N 2 0, N 2 0, N 2 0, N 2 0, N 2 0, N 2 0, N 2 0, N 2 0, N 2 0, N 2 0, N 2 0, N 2 0, N 2 0,
     N 2 0, N 2 0, N 2 0, N 2 0, N 2 0, N 2 0, N 2 0, N 5 0, N 2 0, N 2 0, N 2 0, N 2 0, N 2 0, N 2 0, N 2 0, N 2 0,
     N 2 0, N 2 0, N 2 0, N 2 0, N 2 0, N 2 0, N 2 0, N 2 0, N 5 0, N 2 0, N 5 0, N 2 0, N 6 3, N 7 3, N 7 3, N 7 3,
     N 2 0, N 2 0, N 2 0, N 2 0, N 2 0, N 2 0, N 2 0, N 2 0, N 2 0, N 5 0, N 2 0, N 2 0, N 6 4, N 7 4, N 7 4, N 7 4,
     N 2 0, N 2 0, N 2 0, N 2 0, N 2 0, N 2 0, N 2 0, N 2 0, N 6 3, N 7 3, N 7 3, N 7 3, N 8 2, N 7 6, N 7 4, N 7 4,
     N 2 0, N 2 0, N 2 0, N 2 0, N 2 0, N 2 0, N 2 0, N 2 0, N 6 4, N 7 4, N 7 4, N 7 4, N 7 4, N 7 4, N 7 4, N 7 4,
     N 2 0, N 2 0, N 2 0, N 2 0, N 2 0, N 2 0, N 2 0, N 2 0, N 6 4, N 7 4, N 7 4, N 7 4, N 7 4, N 5 6, N 7 4, N 7 4,
     N 2 0, N 2 0, N 2 0, N 2 0, N 2 0, N 2 0, N 2 0, N 2 0, N 6 5, N 7 5, N 7 5, N 8 1, N 7 4, N 7 4, N 7 6, N 7 4,
     N 2 0, N 2 0, N 2 0, N 2 0, N 2 0, N 2 0, N 2 0, N 2 0, N 2 0, N 2 0, N 2 0, N 6 4, N 7 4, N 6 6, N 7 4, N 7 4,
     N 2 0, N 2 0, N 2 0, N 2 0, N 2 0, N 2 0, N 2 0, N 2 0, N 2 0, N 2 0, N 2 0, N 6 4, N 7 4, N 7 4, N 7 4, N 7 4]"

definition gl_TestMap3 :: "nat list" where
  "gl_TestMap3 = [
     N 2 0, N 2 0, N 2 0, N 2 0, N 2 0, N 2 0, N 2 0, N 2 0, N 2 0, N 2 0, N 2 0, N 6 4, N 7 4, N 7 4, N 7 4, N 7 4,
     N 2 0, N 2 0, N 2 0, N 2 0, N 2 0, N 2 0, N 2 0, N 2 0, N 2 0, N 2 0, N 2 0, N 6 4, N 7 4, N 7 4, N 7 4, N 7 4,
     N 2 0, N 2 0, N 2 0, N 2 0, N 2 0, N 2 0, N 2 0, N 2 0, N 2 0, N 2 0, N 2 0, N 6 4, N 7 4, N 7 4, N 7 4, N 7 4,
     N 2 0, N 2 0, N 2 0, N 2 0, N 2 0, N 2 0, N 2 0, N 2 0, N 2 0, N 2 0, N 2 0, N 6 5, N 7 5, N 7 5, N 8 1, N 7 4,
     N 2 0, N 2 0, N 2 0, N 5 0, N 2 0, N 2 0, N 2 0, N 2 0, N 2 0, N 2 0, N 2 0, N 2 0, N 2 0, N 2 0, N 6 4, N 7 4,
     N 2 0, N 2 0, N 2 0, N 2 0, N 2 0, N 2 0, N 2 0, N 2 0, N 2 0, N 2 0, N 2 0, N 2 0, N 2 0, N 2 0, N 6 4, N 7 4,
     N 2 0, N 2 0, N 2 0, N 2 0, N 2 0, N 2 0, N 2 0, N 2 0, N 2 0, N 2 0, N 2 0, N 2 0, N 2 0, N 2 0, N 6 4, N 7 4,
     N 2 0, N 2 0, N 2 0, N 2 0, N 2 0, N 2 0, N 2 0, N 5 0, N 2 0, N 2 0, N 2 0, N 2 0, N 2 0, N 2 0, N 6 4, N 7 4,
     N 2 0, N 2 0, N 2 0, N 2 0, N 2 0, N 2 0, N 2 0, N 2 0, N 2 0, N 2 0, N 2 0, N 2 0, N 2 0, N 2 0, N 6 5, N 7 5,
     N 2 0, N 2 0, N 2 0, N 2 0, N 2 0, N 2 0, N 2 0, N 2 0, N 2 0, N 2 0, N 2 0, N 2 0, N 2 0, N 2 0, N 2 0, N 2 0,
     N 2 0, N 2 0, N 2 0, N 2 0, N 2 0, N 2 0, N 2 0, N 2 0, N 2 0, N 2 0, N 2 0, N 2 0, N 2 0, N 2 0, N 2 0, N 2 0,
     N 2 0, N 2 0, N 2 0, N 2 0, N 5 0, N 2 0, N 2 0, N 2 0, N 5 0, N 5 0, N 2 0, N 2 0, N 2 0, N 2 0, N 2 0, N 2 0,
     N 2 0, N 2 0, N 2 0, N 5 0, N 5 0, N 2 0, N 2 0, N 2 0, N 2 0, N 2 0, N 2 0, N 2 0, N 2 0, N 2 0, N 2 0, N 2 0,
     N 2 0, N 2 0, N 2 0, N 2 0, N 2 0, N 2 0, N 2 0, N 2 0, N 2 0, N 2 0, N 2 0, N 2 0, N 2 0, N 2 0, N 2 0, N 2 0,
     N 2 0, N 2 0, N 2 0, N 2 0, N 2 0, N 2 0, N 2 0, N 2 0, N 2 0, N 2 0, N 2 0, N 2 0, N 2 0, N 2 0, N 5 0, N 2 0,
     N 2 0, N 2 0, N 2 0, N 2 0, N 2 0, N 2 0, N 2 0, N 2 0, N 2 0, N 2 0, N 2 0, N 2 0, N 2 0, N 2 0, N 2 0, N 2 0]"

definition gl_TestMap2 :: "nat list" where
  "gl_TestMap2 = [
     N 2 0, N 2 0, N 2 0, N 2 0, N 2 0, N 2 0, N 2 0, N 2 0, N 2 0, N 2 0, N 2 0, N 2 0, N 2 0, N 2 0, N 2 0, N 2 0,
     N 2 0, N 2 0, N 2 0, N 2 0, N 2 0, N 2 0, N 2 0, N 2 0, N 2 0, N 2 0, N 2 0, N 2 0, N 2 0, N 2 0, N 2 0, N 2 0,
     N 2 0, N 2 0, N 2 0, N 2 0, N 2 0, N 2 0, N 2 0, N 2 0, N 2 0, N 2 0, N 2 0, N 2 0, N 2 0, N 2 0, N 2 0, N 2 0,
     N 2 0, N 2 0, N 2 0, N 2 0, N 2 0, N 2 0, N 2 0, N 2 0, N 2 0, N 2 0, N 2 0, N 2 0, N 2 0, N 2 0, N 2 0, N 2 0,
     N 2 0, N 2 0, N 2 0, N 2 0, N 2 0, N 6 3, N 7 3, N 7 3, N 7 3, N 7 3, N 7 3, N 8 3, N 2 0, N 2 0, N 2 0, N 2 0,
     N 2 0, N 2 0, N 6 1, N 2 0, N 2 0, N 6 4, N 7 4, N 7 4, N 7 4, N 7 4, N 7 4, N 8 4, N 2 0, N 2 0, N 2 0, N 2 0,
     N 2 0, N 2 0, N 2 0, N 2 0, N 2 0, N 6 4, N 7 4, N 7 4, N 7 4, N 7 4, N 7 4, N 8 4, N 2 0, N 2 0, N 2 0, N 2 0,
     N 2 0, N 2 0, N 2 0, N 2 0, N 2 0, N 6 4, N 7 4, N 7 4, N 7 4, N 7 4, N 7 4, N 8 4, N 2 0, N 2 0, N 2 0, N 2 0,
     N 7 3, N 7 3, N 7 3, N 7 3, N 7 3, N 8 2, N 7 4, N 7 4, N 7 4, N 7 4, N 7 4, N 8 4, N 2 0, N 2 0, N 2 0, N 2 0,
     N 7 4, N 7 4, N 7 4, N 7 4, N 7 4, N 7 4, N 7 4, N 7 4, N 7 4, N 7 4, N 7 4, N 8 4, N 2 0, N 2 0, N 2 0, N 2 0,
     N 7 4, N 7 4, N 7 4, N 7 4, N 7 4, N 7 4, N 7 4, N 7 4, N 7 4, N 7 1, N 7 5, N 8 5, N 2 0, N 2 0, N 2 0, N 2 0,
     N 7 4, N 7 4, N 7 4, N 7 4, N 7 4, N 7 4, N 7 4, N 7 4, N 7 4, N 8 4, N 2 0, N 2 0, N 0 0, N 2 0, N 2 0, N 2 0,
     N 7 4, N 7 4, N 7 4, N 7 4, N 7 4, N 5 6, N 7 4, N 7 4, N 7 4, N 8 4, N 2 0, N 0 0, N 5 0, N 2 0, N 2 0, N 2 0,
     N 7 4, N 7 4, N 7 4, N 7 4, N 7 4, N 7 4, N 7 4, N 7 4, N 7 4, N 8 4, N 2 0, N 2 0, N 2 0, N 2 0, N 2 0, N 2 0,
     N 7 4, N 7 4, N 7 4, N 7 4, N 7 4, N 7 4, N 7 4, N 7 4, N 7 4, N 8 4, N 2 0, N 2 0, N 2 0, N 2 0, N 2 0, N 2 0,
     N 7 4, N 7 4, N 7 4, N 3 6, N 7 4, N 7 4, N 7 4, N 7 4, N 7 4, N 8 4, N 2 0, N 2 0, N 2 0, N 2 0, N 2 0, N 2 0]"

definition gl_TestMap4 :: "nat list" where
  "gl_TestMap4 = [
     N 7 4, N 7 4, N 7 4, N 7 4, N 7 1, N 7 5, N 7 5, N 7 5, N 7 5, N 8 5, N 2 0, N 2 0, N 2 0, N 2 0, N 2 0, N 2 0,
     N 7 4, N 7 4, N 7 4, N 7 4, N 8 4, N 2 0, N 2 0, N 2 0, N 2 0, N 2 0, N 2 0, N 2 0, N 2 0, N 2 0, N 2 0, N 2 0,
     N 7 4, N 7 4, N 7 4, N 7 4, N 8 4, N 2 0, N 2 0, N 2 0, N 2 0, N 2 0, N 2 0, N 2 0, N 2 0, N 2 0, N 2 0, N 2 0,
     N 7 4, N 7 4, N 7 4, N 7 4, N 8 4, N 2 0, N 2 0, N 2 0, N 2 0, N 2 0, N 2 0, N 2 0, N 2 0, N 2 0, N 2 0, N 2 0,
     N 7 4, N 7 4, N 7 4, N 7 4, N 8 4, N 2 0, N 2 0, N 2 0, N 2 0, N 2 0, N 2 0, N 2 0, N 2 0, N 2 0, N 2 0, N 2 0,
     N 7 4, N 7 4, N 7 4, N 7 4, N 8 4, N 2 0, N 2 0, N 2 0, N 2 0, N 2 0, N 2 0, N 2 0, N 2 0, N 2 0, N 2 0, N 2 0,
     N 7 4, N 7 4, N 7 4, N 7 4, N 8 4, N 2 0, N 2 0, N 2 0, N 2 0, N 2 0, N 2 0, N 2 0, N 2 0, N 2 0, N 2 0, N 2 0,
     N 7 4, N 7 4, N 7 4, N 7 4, N 8 4, N 2 0, N 2 0, N 5 0, N 2 0, N 2 0, N 2 0, N 2 0, N 2 0, N 2 0, N 2 0, N 2 0,
     N 7 5, N 7 5, N 7 5, N 7 5, N 8 5, N 2 0, N 2 0, N 2 0, N 5 0, N 2 0, N 5 0, N 2 0, N 6 3, N 7 3, N 7 3, N 7 3,
     N 2 0, N 2 0, N 2 0, N 2 0, N 2 0, N 2 0, N 2 0, N 2 0, N 2 0, N 5 0, N 2 0, N 2 0, N 6 4, N 7 4, N 7 4, N 7 4,
     N 2 0, N 2 0, N 2 0, N 2 0, N 2 0, N 2 0, N 2 0, N 2 0, N 6 3, N 7 3, N 7 3, N 7 3, N 8 2, N 7 6, N 7 4, N 7 4,
     N 2 0, N 2 0, N 2 0, N 2 0, N 2 0, N 2 0, N 2 0, N 2 0, N 6 4, N 7 4, N 7 4, N 7 4, N 7 4, N 7 4, N 7 4, N 7 4,
     N 2 0, N 2 0, N 2 0, N 2 0, N 2 0, N 2 0, N 2 0, N 2 0, N 6 4, N 7 4, N 7 4, N 7 4, N 7 4, N 7 4, N 7 4, N 7 4,
     N 2 0, N 2 0, N 2 0, N 2 0, N 2 0, N 2 0, N 2 0, N 2 0, N 6 5, N 7 5, N 7 5, N 8 1, N 7 4, N 7 4, N 7 6, N 7 4,
     N 2 0, N 2 0, N 2 0, N 6 2, N 2 0, N 2 0, N 2 0, N 2 0, N 2 0, N 2 0, N 2 0, N 6 4, N 7 4, N 6 6, N 7 4, N 7 4,
     N 2 0, N 2 0, N 2 0, N 2 0, N 2 0, N 2 0, N 2 0, N 2 0, N 2 0, N 2 0, N 2 0, N 6 4, N 7 4, N 7 4, N 7 4, N 7 4]"

text \<open>Conversion to \<open>int\<close>, towards zero.  Values within 1024 of the limits of the type, for which the
  computations on pixel positions overflow, are excluded here.\<close>

definition f32_to_int :: "rat \<Rightarrow> int outcome" where
  "f32_to_int x = (let n = (if x < 0 then - \<lfloor>- x\<rfloor> else \<lfloor>x\<rfloor>) in if 1024 - 2 ^ 31 \<le> n \<and> n < 2 ^ 31 - 1024 then Done n else Undef)"

text \<open>Division and remainder of the language, towards zero, by 32 and by 16.\<close>

definition cdiv :: "int \<Rightarrow> int \<Rightarrow> int" where
  "cdiv a b = (if a < 0 then - ((- a) div b) else a div b)"

definition cmod :: "int \<Rightarrow> int \<Rightarrow> int" where
  "cmod a b = (if a < 0 then - ((- a) mod b) else a mod b)"

subsection \<open>The layer\<close>

record world_layer =
  m_prevPos :: "rat \<times> rat"
  m_playerPos :: "rat \<times> rat"
  m_targetPos :: "rat \<times> rat"
  m_isMoving :: bool
  m_vel :: "rat \<times> rat"
  m_dir :: int
  m_moveSpeed :: rat
  wl_t :: NkTimer

datatype world_key = NkKey_LShift | NkKey_AlnumA | NkKey_AlnumD | NkKey_AlnumW | NkKey_AlnumS

definition start_move ::
    "'w tick_counter \<Rightarrow> (world_key \<Rightarrow> bool) \<Rightarrow> world_layer \<Rightarrow> 'w \<Rightarrow> (world_layer \<times> 'w) outcome" where
  "start_move ticks IsKeyPressed wl w =
     (let axisX = (if IsKeyPressed NkKey_AlnumA then - 1 else if IsKeyPressed NkKey_AlnumD then 1 else 0 :: rat);
          axisY = (if IsKeyPressed NkKey_AlnumW then - 1 else if IsKeyPressed NkKey_AlnumS then 1 else 0 :: rat);
          axisY = (if axisX \<noteq> 0 then 0 else axisY);
          wl = (if fst (m_vel wl) \<noteq> axisX \<or> snd (m_vel wl) \<noteq> axisY then wl\<lparr>m_vel := (axisX, axisY)\<rparr> else wl)
      in if fst (m_vel wl) \<noteq> 0 \<or> snd (m_vel wl) \<noteq> 0
         then let wl = wl\<lparr>m_dir := (if fst (m_vel wl) = 1 then 2 else if fst (m_vel wl) = - 1 then 1
                        else if snd (m_vel wl) = 1 then 0 else if snd (m_vel wl) = - 1 then 3 else m_dir wl)\<rparr>;
                  wl = wl\<lparr>m_targetPos := (f32 (fst (m_playerPos wl) + f32 (axisX * 32)), f32 (snd (m_playerPos wl) + f32 (axisY * 32))),
                          m_isMoving := True\<rparr>
              in obind (NkTimerRestart ticks (wl_t wl) w) (\<lambda>(t, w). Done (wl\<lparr>wl_t := t\<rparr>, w))
         else Done (wl, w))"

definition advance :: "(rat \<Rightarrow> rat) \<Rightarrow> rat \<Rightarrow> world_layer \<Rightarrow> world_layer" where
  "advance sqrtf updTime wl =
     (let diffX = f32 (fst (m_targetPos wl) - fst (m_playerPos wl)); diffY = f32 (snd (m_targetPos wl) - snd (m_playerPos wl));
          sq = f32 (f32 (diffX * diffX) + f32 (diffY * diffY));
          mag = sqrtf sq;
          step = f32 (m_moveSpeed wl * updTime)
      in if f64_round (1 / 1000) < sq \<and> \<not> (mag < step \<or> mag = 0)
         then wl\<lparr>m_prevPos := m_playerPos wl,
                 m_playerPos := (f32 (fst (m_playerPos wl) + f32 (f32 (diffX / mag) * step)),
                                 f32 (snd (m_playerPos wl) + f32 (f32 (diffY / mag) * step)))\<rparr>
         else wl\<lparr>m_playerPos := m_targetPos wl, m_isMoving := False\<rparr>)"

definition WorldLayer_OnUpdate ::
    "'w tick_counter \<Rightarrow> (rat \<Rightarrow> rat) \<Rightarrow> (world_key \<Rightarrow> bool) \<Rightarrow> rat \<Rightarrow> world_layer \<Rightarrow> 'w \<Rightarrow> (NkErrorCode \<times> world_layer \<times> 'w) outcome" where
  "WorldLayer_OnUpdate ticks sqrtf IsKeyPressed updTime wl w =
     (let wl = wl\<lparr>m_moveSpeed := (if IsKeyPressed NkKey_LShift then 8 * 32 else 4 * 32)\<rparr> in
      obind (if \<not> m_isMoving wl then start_move ticks IsKeyPressed wl w else Done (wl, w)) (\<lambda>(wl, w).
        Done (NkErr_Ok, if m_isMoving wl then advance sqrtf updTime wl else wl, w)))"

definition WorldLayer_GetAnimPos :: "world_layer \<Rightarrow> rat \<times> rat" where
  "WorldLayer_GetAnimPos wl = (1, of_int (m_dir wl))"

subsection \<open>Events, start-up and shutdown\<close>

text \<open>The calls on other objects that change nothing in the layer.\<close>

datatype world_call = Renderer_DeleteResource nat | Input_Release | Renderer_Release | Window_Release
  | Bitmap_Destroy NkDIBitmap | Screenshot_File "byte list" | Application_Exit NkErrorCode

definition WorldLayer_DeleteResources :: "world_call list" where
  "WorldLayer_DeleteResources = map Renderer_DeleteResource [0..<4] @ [Input_Release, Renderer_Release, Window_Release]"

text \<open>\<open>grab\<close> is what the renderer answers and has written; a bitmap that has not been written must not be
  destroyed.\<close>

definition WorldLayer_ActionScreenshot ::
    "byte \<Rightarrow> bool \<Rightarrow> NkErrorCode \<times> NkDIBitmap option \<Rightarrow> world_call list outcome" where
  "WorldLayer_ActionScreenshot junk canOpen grab =
     (case snd grab of None \<Rightarrow> Undef
      | Some newScreenshot \<Rightarrow>
          if fst grab \<noteq> NkErr_Ok then Done [Bitmap_Destroy newScreenshot]
          else obind (NkDIBitmapSave junk canOpen newScreenshot) (\<lambda>(_, file).
                 Done (map Screenshot_File (case file of None \<Rightarrow> [] | Some f \<Rightarrow> [f]) @ [Bitmap_Destroy newScreenshot])))"

abbreviation (input) NkEv_KeyboardKeyDown :: nat where "NkEv_KeyboardKeyDown \<equiv> 13"
abbreviation (input) NkKey_F4 :: nat where "NkKey_F4 \<equiv> 18"
abbreviation (input) NkKey_F11 :: nat where "NkKey_F11 \<equiv> 25"

definition WorldLayer_OnEvent ::
    "byte \<Rightarrow> bool \<Rightarrow> NkErrorCode \<times> NkDIBitmap option \<Rightarrow> NkEvent \<Rightarrow> (NkErrorCode \<times> world_call list) outcome" where
  "WorldLayer_OnEvent junk canOpen grab ev =
     (if m_evType ev = NkEv_KeyboardKeyDown
      then case m_evData ev of
          m_kbEvent kb \<Rightarrow>
            if m_vKeyCode kb = NkKey_F11
            then obind (WorldLayer_ActionScreenshot junk canOpen grab) (\<lambda>cs. Done (NkErr_Ok, cs))
            else if m_vKeyCode kb = NkKey_F4 then Done (NkErr_Ok, [Application_Exit NkErr_Ok])
            else Done (NkErr_NoOperation, [])
        | _ \<Rightarrow> Undef
      else Done (NkErr_NoOperation, []))"

definition WorldLayer_AddRef :: nat where
  "WorldLayer_AddRef = 1"

definition WorldLayer_Release :: nat where
  "WorldLayer_Release = 1"

definition WorldLayer_QueryInterface :: "NkUuid \<Rightarrow> NkUuid \<Rightarrow> 'l \<Rightarrow> NkUuid \<Rightarrow> NkErrorCode \<times> 'l option" where
  "WorldLayer_QueryInterface iidBase iidLayer self iId =
     (if NkOMQueryImplementationIndex [iidBase, iidLayer] iId \<noteq> SIZE_MAX then (NkErr_Ok, Some self)
      else (NkErr_InterfaceNotImpl, None))"

text \<open>The two files and the answers of the renderer for the textures are arguments.  Only the first file and
  the first texture are checked.\<close>

definition WorldLayer_OnPush ::
    "'w tick_counter \<Rightarrow> heap_answer \<Rightarrow> byte list option \<Rightarrow> byte list option \<Rightarrow> (NkDIBitmap \<Rightarrow> NkErrorCode) \<Rightarrow> world_layer \<Rightarrow> 'w
     \<Rightarrow> (NkErrorCode \<times> world_call list \<times> world_layer \<times> 'w) outcome" where
  "WorldLayer_OnPush ticks heap tsMain tsPlayer CreateTexture wl w =
     obind (NkDIBitmapLoad heap tsMain) (\<lambda>(errCode, mainTs).
       if errCode \<noteq> NkErr_Ok then Done (errCode, [Renderer_Release, Window_Release], wl, w)
       else case mainTs of
         None \<Rightarrow> Undef
       | Some ts \<Rightarrow>
           if CreateTexture ts \<noteq> NkErr_Ok
           then Done (CreateTexture ts, [Bitmap_Destroy ts, Renderer_Release, Window_Release], wl, w)
           else obind (NkDIBitmapLoad heap tsPlayer) (\<lambda>(_, atlasTs).
             case atlasTs of
               None \<Rightarrow> Undef
             | Some ats \<Rightarrow>
                 obind (NkTimerCreate ticks NkTiType_Elapsed True w) (\<lambda>(_, t, w1).
                 obind (NkTimerCreate ticks NkTiType_Elapsed True w1) (\<lambda>(_, t2, w2).
                   Done (NkErr_Ok, [Bitmap_Destroy ts, Bitmap_Destroy ats],
                     \<lparr>m_prevPos = (11 * 32, 9 * 32), m_playerPos = (11 * 32, 9 * 32), m_targetPos = (11 * 32, 9 * 32),
                      m_isMoving = False, m_vel = (0, 1), m_dir = 0, m_moveSpeed = 3 * 32, wl_t = t\<rparr>, w2)))))"

definition WorldLayer_OnPop :: NkErrorCode where
  "WorldLayer_OnPop = NkErr_Ok"

definition WorldLayerStartup ::
    "heap_answer \<Rightarrow> ('l, 'e, ('l, 's) layer_state) NkILayer_vt \<Rightarrow> 'l \<Rightarrow> ('l, 's) layer_state
     \<Rightarrow> (NkErrorCode \<times> ('l, 's) layer_state) outcome" where
  "WorldLayerStartup heap vt gl_WorldLayer st = NkLayerstackPush heap vt gl_WorldLayer NK_AS_NORMAL st"

definition WorldLayerShutdown ::
    "nat \<Rightarrow> 'l \<Rightarrow> ('l, 's) layer_state \<Rightarrow> (NkErrorCode \<times> world_call list \<times> ('l, 's) layer_state) outcome" where
  "WorldLayerShutdown outBytes gl_WorldLayer st =
     obind (NkLayerstackQueryIndex st gl_WorldLayer) (\<lambda>worldLayerIndex.
       if worldLayerIndex = SIZE_MAX then Done (NkErr_ArrayElemOutOfBounds, [], st)
       else obind (NkLayerstackPop outBytes worldLayerIndex st) (\<lambda>(l, st').
              if l = [Some gl_WorldLayer] then Done (NkErr_Ok, WorldLayer_DeleteResources, st') else Undef))"

subsection \<open>Rendering\<close>

text \<open>A call draws the square of 32 pixels at a position of the main atlas to a position of the window, or
  a frame of the player atlas.\<close>

datatype world_draw = DrawTexture "int \<times> int" "nat \<times> nat" | DrawMaskedTexture "rat \<times> rat"

text \<open>The chunk and the tile in it for a position in the world, in pixels.\<close>

definition tile_at :: "int \<Rightarrow> int \<Rightarrow> nat outcome" where
  "tile_at tsx tsy =
     (let ix = cdiv (cdiv tsx 32) 16; iy = cdiv (cdiv tsy 32) 16;
          c = (if ix = 0 then (if iy = 0 then gl_TestMap1 else gl_TestMap3) else (if iy = 0 then gl_TestMap2 else gl_TestMap4));
          i = 16 * cmod (cdiv tsy 32) 16 + cmod (cdiv tsx 32) 16
      in if 0 \<le> i then mem_read c (nat i) else Undef)"

function draw_column :: "int \<Rightarrow> int \<Rightarrow> int \<Rightarrow> int \<Rightarrow> int \<Rightarrow> world_draw list outcome" where
  "draw_column x tsx y tsy ydim =
     (if y < ydim
      then obind (if tsx < 0 \<or> tsx > 31 * 32 \<or> tsy < 0 \<or> tsy > 31 * 32 then Done []
                  else obind (tile_at tsx tsy) (\<lambda>v. Done [DrawTexture (x + 8 * 32, y + 8 * 32) (32 * (v AND 0xFFFF), 32 * drop_bit 16 v)]))
             (\<lambda>d. obind (draw_column x tsx (y + 32) (tsy + 32) ydim) (\<lambda>ds. Done (d @ ds)))
      else Done [])"
  by auto
termination by (relation "measure (\<lambda>(x, tsx, y, tsy, ydim). nat (ydim - y))") auto

function draw_columns :: "int \<Rightarrow> int \<Rightarrow> int \<Rightarrow> int \<Rightarrow> int \<Rightarrow> int \<Rightarrow> world_draw list outcome" where
  "draw_columns x tsx oriy tsy0 xdim ydim =
     (if x < xdim
      then obind (draw_column x tsx oriy tsy0 ydim) (\<lambda>d.
           obind (draw_columns (x + 32) (tsx + 32) oriy tsy0 xdim ydim) (\<lambda>ds. Done (d @ ds)))
      else Done [])"
  by auto
termination by (relation "measure (\<lambda>(x, tsx, oriy, tsy0, xdim, ydim). nat (xdim - x))") auto

declare draw_column.simps [simp del] draw_columns.simps [simp del]

text \<open>The dimensions of the window are unsigned 64-bit numbers; the difference is converted to \<open>int\<close>.\<close>

definition view_end :: "nat \<Rightarrow> int" where
  "view_end d = int (min (16 * 32) d) - 8 * 32"

definition WorldLayer_OnRender :: "nat \<times> nat \<Rightarrow> world_layer \<Rightarrow> (NkErrorCode \<times> world_draw list) outcome" where
  "WorldLayer_OnRender vpDim wl =
     obind (f32_to_int (fst (m_playerPos wl))) (\<lambda>px.
     obind (f32_to_int (snd (m_playerPos wl))) (\<lambda>py.
     let orix = cmod (- px) 32 - 8 * 32; oriy = cmod (- py) 32 - 8 * 32;
         xdim = view_end (fst vpDim); ydim = view_end (snd vpDim)
     in obind (draw_columns orix (cdiv px 32 * 32 - 8 * 32) oriy (cdiv py 32 * 32 - 8 * 32) xdim ydim) (\<lambda>ds.
          let charFrame = WorldLayer_GetAnimPos wl
          in Done (NkErr_Ok, ds @ [DrawMaskedTexture (f32 (fst charFrame * 32), f32 (snd charFrame * 32))]))))"

subsection \<open>What is drawn\<close>

text \<open>The map as a whole: 32 by 32 tiles in four chunks.\<close>

definition world_tile :: "nat \<Rightarrow> nat \<Rightarrow> nat" where
  "world_tile tx ty =
     (if tx < 16 then (if ty < 16 then gl_TestMap1 else gl_TestMap3) else (if ty < 16 then gl_TestMap2 else gl_TestMap4))
     ! (16 * (ty mod 16) + tx mod 16)"

lemma length_maps [simp]: "length gl_TestMap1 = 256" "length gl_TestMap2 = 256" "length gl_TestMap3 = 256" "length gl_TestMap4 = 256"
  by (simp_all add: gl_TestMap1_def gl_TestMap2_def gl_TestMap3_def gl_TestMap4_def)

lemma tile_at_ok:
  assumes "0 \<le> tsx" "tsx \<le> 31 * 32" "0 \<le> tsy" "tsy \<le> 31 * 32"
  shows "tile_at tsx tsy = Done (world_tile (nat (tsx div 32)) (nat (tsy div 32)))"
proof -
  define a b where "a = nat (tsx div 32)" and "b = nat (tsy div 32)"
  have ab: "tsx div 32 = int a" "tsy div 32 = int b" "a < 32" "b < 32"
    using assms by (simp_all add: a_def b_def pos_imp_zdiv_nonneg_iff nat_less_iff)
  have i: "16 * (int b mod 16) + int a mod 16 = int (16 * (b mod 16) + a mod 16)" by (simp add: zmod_int)
  have lt: "16 * (b mod 16) + a mod 16 < 256" using mod_less_divisor[of 16 a] mod_less_divisor[of 16 b] by linarith
  have d: "int a div 16 = 0 \<longleftrightarrow> a < 16" "int b div 16 = 0 \<longleftrightarrow> b < 16" by auto
  show ?thesis
    using assms(1,3) lt unfolding tile_at_def world_tile_def cdiv_def cmod_def Let_def
    by (simp add: ab(1,2) i d nat_add_distrib nat_mult_distrib)
qed

text \<open>The number of turns of a loop that goes from \<open>y\<close> to below \<open>d\<close> in steps of 32.\<close>

definition turns :: "int \<Rightarrow> int \<Rightarrow> nat" where
  "turns y d = nat ((d - y + 31) div 32)"

lemma turns_Suc: "y < d \<Longrightarrow> turns y d = Suc (turns (y + 32) d)"
proof -
  assume "y < d"
  have "(d - y + 31) div 32 = (d - (y + 32) + 31) div 32 + 1" using div_add_self2[of 32 "d - (y + 32) + 31"] by simp
  moreover have "0 \<le> (d - (y + 32) + 31) div 32" using \<open>y < d\<close> by (simp add: pos_imp_zdiv_nonneg_iff)
  ultimately show ?thesis by (simp add: turns_def nat_add_distrib)
qed

lemma turns_0: "d \<le> y \<Longrightarrow> turns y d = 0"
  by (simp add: turns_def)

lemma less_turns: "k < turns y d \<longleftrightarrow> y + 32 * int k < d"
proof (induction k arbitrary: y)
  case 0
  then show ?case using turns_Suc[of y d] turns_0[of d y] by (cases "y < d") auto
next
  case (Suc k)
  show ?case
  proof (cases "y < d")
    case True
    then show ?thesis using turns_Suc[OF True] Suc[of "y + 32"] by (simp add: algebra_simps)
  next
    case False
    then show ?thesis using turns_0[of d y] by simp
  qed
qed

text \<open>The cell of the view in column \<open>k\<close> and row \<open>l\<close>.\<close>

definition on_map :: "int \<Rightarrow> bool" where
  "on_map t \<longleftrightarrow> 0 \<le> t \<and> t \<le> 31 * 32"

definition cell_draw :: "int \<Rightarrow> int \<Rightarrow> int \<Rightarrow> int \<Rightarrow> world_draw" where
  "cell_draw x tsx y tsy = (let v = world_tile (nat (tsx div 32)) (nat (tsy div 32))
     in DrawTexture (x + 256, y + 256) (32 * (v AND 0xFFFF), 32 * drop_bit 16 v))"

definition cell :: "int \<Rightarrow> int \<Rightarrow> int \<Rightarrow> int \<Rightarrow> world_draw list" where
  "cell x tsx y tsy = (if on_map tsx \<and> on_map tsy then [cell_draw x tsx y tsy] else [])"

lemma concat_upt_Suc: "concat (map f [0..<Suc n]) = f 0 @ concat (map (\<lambda>l. f (Suc l)) [0..<n])"
  by (simp add: upt_conv_Cons map_Suc_upt[symmetric] comp_def del: upt_Suc)

lemma draw_column_step:
  assumes "y < ydim"
  shows "draw_column x tsx y tsy ydim = obind (draw_column x tsx (y + 32) (tsy + 32) ydim) (\<lambda>ds. Done (cell x tsx y tsy @ ds))"
proof (cases "on_map tsx \<and> on_map tsy")
  case True
  then have "tile_at tsx tsy = Done (world_tile (nat (tsx div 32)) (nat (tsy div 32)))" by (intro tile_at_ok) (auto simp: on_map_def)
  then show ?thesis using True assms by (subst draw_column.simps) (simp add: on_map_def cell_def cell_draw_def Let_def)
next
  case False
  then have "tsx < 0 \<or> tsx > 31 * 32 \<or> tsy < 0 \<or> tsy > 31 * 32" by (auto simp: on_map_def)
  then show ?thesis using False assms by (subst draw_column.simps) (auto simp: cell_def)
qed

lemma shift32: "a + 32 + 32 * int l = a + 32 * int (Suc l)"
  by simp

lemma draw_column_spec:
  "draw_column x tsx y tsy ydim = Done (concat (map (\<lambda>l. cell x tsx (y + 32 * int l) (tsy + 32 * int l)) [0..<turns y ydim]))"
proof (induction "turns y ydim" arbitrary: y tsy)
  case 0
  then have "\<not> y < ydim" using turns_Suc[of y ydim] by auto
  then show ?case using 0 by (subst draw_column.simps) simp
next
  case (Suc n)
  then have lt: "y < ydim" using turns_0[of ydim y] by (cases "y < ydim") auto
  have n: "turns (y + 32) ydim = n" "turns y ydim = Suc n" using Suc.hyps(2) turns_Suc[OF lt] by simp_all
  show ?case
    unfolding draw_column_step[OF lt] Suc.hyps(1)[of "y + 32" "tsy + 32", unfolded n(1), OF refl] n(2) concat_upt_Suc shift32
    by simp
qed

lemma draw_columns_spec:
  "draw_columns x tsx y tsy xdim ydim = Done (concat (map (\<lambda>k. concat (map (\<lambda>l.
     cell (x + 32 * int k) (tsx + 32 * int k) (y + 32 * int l) (tsy + 32 * int l)) [0..<turns y ydim])) [0..<turns x xdim]))"
proof (induction "turns x xdim" arbitrary: x tsx)
  case 0
  then have "\<not> x < xdim" using turns_Suc[of x xdim] by auto
  then show ?case using 0 by (subst draw_columns.simps) simp
next
  case (Suc n)
  then have lt: "x < xdim" using turns_0[of xdim x] by (cases "x < xdim") auto
  have n: "turns (x + 32) xdim = n" "turns x xdim = Suc n" using Suc.hyps(2) turns_Suc[OF lt] by simp_all
  have "draw_columns x tsx y tsy xdim ydim = obind (draw_columns (x + 32) (tsx + 32) y tsy xdim ydim) (\<lambda>ds.
      Done (concat (map (\<lambda>l. cell x tsx (y + 32 * int l) (tsy + 32 * int l)) [0..<turns y ydim]) @ ds))"
    using lt by (subst draw_columns.simps) (simp add: draw_column_spec)
  then show ?case
    unfolding Suc.hyps(1)[of "x + 32" "tsx + 32", unfolded n(1), OF refl] n(2) concat_upt_Suc shift32 by simp
qed

text \<open>The same list as a selection from all cells of the view.\<close>

lemma concat_product: "concat (map (\<lambda>k. concat (map (g k) ls)) ks) = concat (map (\<lambda>(k, l). g k l) (List.product ks ls))"
  by (induction ks) (simp_all add: comp_def)

lemma concat_select: "concat (map (\<lambda>x. if P x then [f x] else []) xs) = map f (filter P xs)"
  by (induction xs) simp_all

lemma draw_columns_select:
  "draw_columns x tsx y tsy xdim ydim = Done (map (\<lambda>(k, l). cell_draw (x + 32 * int k) (tsx + 32 * int k) (y + 32 * int l) (tsy + 32 * int l))
     (filter (\<lambda>(k, l). on_map (tsx + 32 * int k) \<and> on_map (tsy + 32 * int l)) (List.product [0..<turns x xdim] [0..<turns y ydim])))"
  unfolding draw_columns_spec concat_product cell_def
  by (simp only: case_prod_unfold concat_select)

lemma render_origin:
  assumes "0 \<le> X"
  shows "cmod (- X) 32 - 8 * 32 = cdiv X 32 * 32 - 8 * 32 - X" "cdiv X 32 * 32 - 8 * 32 - X = - (X mod 32) - 256"
  using assms div_mult_mod_eq[of X 32] by (cases "X = 0"; simp add: cmod_def cdiv_def; linarith)+

text \<open>One coordinate: the cells of the view that lie on the map are the tiles whose place is in the view.\<close>

lemma cells_1d:
  assumes "0 \<le> X" "x = - (X mod 32) - 256" "x + X = cdiv X 32 * 32 - 8 * 32"
  shows "(\<exists>k < turns x (view_end W). on_map (x + X + 32 * int k) \<and> sx = x + 32 * int k + 256 \<and> t = x + X + 32 * int k)
    \<longleftrightarrow> (\<exists>tx < 32. t = 32 * int tx \<and> sx = 32 * int tx - X + 256 \<and> - 32 < sx \<and> sx < int (min 512 W))" (is "?A \<longleftrightarrow> ?B")
proof
  define q where "q = X div 32"
  have X: "X = 32 * q + X mod 32" "0 \<le> X mod 32" "X mod 32 < 32" "0 \<le> q" using assms(1) by (auto simp: q_def pos_imp_zdiv_nonneg_iff)
  have xX: "x + X = 32 * q - 256" using assms(1,3) by (simp add: cdiv_def q_def)
  have ve: "k < turns x (view_end W) \<longleftrightarrow> x + 32 * int k + 256 < int (min 512 W)" for k by (auto simp: less_turns view_end_def)
  {
    assume ?A
    then obtain k where k: "x + 32 * int k + 256 < int (min 512 W)" "on_map (x + X + 32 * int k)" "sx = x + 32 * int k + 256" "t = x + X + 32 * int k"
      using ve by blast
    have t: "t = 32 * (q - 8 + int k)" using k(4) xX by simp
    then have "0 \<le> q - 8 + int k" "q - 8 + int k < 32" using k(2,4) by (auto simp: on_map_def)
    then show ?B using k t xX assms(2) X(2,3) by (intro exI[of _ "nat (q - 8 + int k)"]) auto
  next
    assume ?B
    then obtain tx where tx: "tx < 32" "t = 32 * int tx" "sx = 32 * int tx - X + 256" "- 32 < sx" "sx < int (min 512 W)" by blast
    have k: "0 \<le> int tx - q + 8" using tx(3,4) X by linarith
    show ?A using tx k xX ve[of "nat (int tx - q + 8)"]
      by (intro exI[of _ "nat (int tx - q + 8)"]) (auto simp: on_map_def)
  }
qed

lemma cell_inj:
  assumes "cell_draw (a + 32 * int k) (b + 32 * int k) (c + 32 * int l) (d + 32 * int l)
    = cell_draw (a + 32 * int k') (b + 32 * int k') (c + 32 * int l') (d + 32 * int l')"
  shows "k = k' \<and> l = l'"
  using assms by (simp add: cell_draw_def Let_def)

subsection \<open>Properties\<close>

text \<open>C39: What is seen of the map.  With the player at non-negative pixel coordinates (X, Y), rendering draws
  exactly those tiles of the 32 by 32 map whose square, placed so that the player stands at
  (256, 256), begins right of and below (-32, -32) and left of and above the end of the window or of the
  512 by 512 pixels of the view; each of them is drawn once, at its place and with its texture, and the
  player last.  No access to the maps is out of bounds.\<close>

theorem world_render_shows_map:
  assumes "f32_to_int (fst (m_playerPos wl)) = Done X" "f32_to_int (snd (m_playerPos wl)) = Done Y" "0 \<le> X" "0 \<le> Y"
  shows "\<exists>ds. WorldLayer_OnRender (W, H) wl = Done (NkErr_Ok, ds @ [DrawMaskedTexture (f32 32, f32 (of_int (m_dir wl) * 32))])
    \<and> distinct ds
    \<and> set ds = {DrawTexture (sx, sy) (32 * (world_tile tx ty AND 0xFFFF), 32 * drop_bit 16 (world_tile tx ty)) | sx sy tx ty.
        tx < 32 \<and> ty < 32 \<and> sx = 32 * int tx - X + 256 \<and> sy = 32 * int ty - Y + 256
        \<and> - 32 < sx \<and> sx < int (min 512 W) \<and> - 32 < sy \<and> sy < int (min 512 H)}"
proof -
  define x where "x = cdiv X 32 * 32 - 8 * 32 - X"
  define y where "y = cdiv Y 32 * 32 - 8 * 32 - Y"
  let ?P = "\<lambda>(k, l). on_map (x + X + 32 * int k) \<and> on_map (y + Y + 32 * int l)"
  let ?f = "\<lambda>(k, l). cell_draw (x + 32 * int k) (x + X + 32 * int k) (y + 32 * int l) (y + Y + 32 * int l)"
  let ?L = "filter ?P (List.product [0..<turns x (view_end W)] [0..<turns y (view_end H)])"
  have x: "x = - (X mod 32) - 256" "x + X = cdiv X 32 * 32 - 8 * 32" and y: "y = - (Y mod 32) - 256" "y + Y = cdiv Y 32 * 32 - 8 * 32"
    using render_origin(2)[OF assms(3)] render_origin(2)[OF assms(4)] by (auto simp: x_def y_def)
  have r: "WorldLayer_OnRender (W, H) wl = Done (NkErr_Ok, map ?f ?L @ [DrawMaskedTexture (f32 32, f32 (of_int (m_dir wl) * 32))])"
    using assms(1,2) render_origin(1)[OF assms(3), folded x_def] render_origin(1)[OF assms(4), folded y_def]
      draw_columns_select[of x "x + X" y "y + Y" "view_end W" "view_end H"] x(2) y(2)
    by (simp add: WorldLayer_OnRender_def WorldLayer_GetAnimPos_def)
  have "distinct (map ?f ?L)"
    by (auto simp: distinct_map distinct_product inj_on_def dest: cell_inj)
  moreover have "set (map ?f ?L) = {DrawTexture (sx, sy) (32 * (world_tile tx ty AND 0xFFFF), 32 * drop_bit 16 (world_tile tx ty)) | sx sy tx ty.
        tx < 32 \<and> ty < 32 \<and> sx = 32 * int tx - X + 256 \<and> sy = 32 * int ty - Y + 256
        \<and> - 32 < sx \<and> sx < int (min 512 W) \<and> - 32 < sy \<and> sy < int (min 512 H)}"
  proof -
    note c = cells_1d[OF assms(3) x, of W] and c' = cells_1d[OF assms(4) y, of H]
    have "d \<in> set (map ?f ?L) \<longleftrightarrow> (\<exists>sx t sy t'.
        (\<exists>k < turns x (view_end W). on_map (x + X + 32 * int k) \<and> sx = x + 32 * int k + 256 \<and> t = x + X + 32 * int k)
      \<and> (\<exists>l < turns y (view_end H). on_map (y + Y + 32 * int l) \<and> sy = y + 32 * int l + 256 \<and> t' = y + Y + 32 * int l)
      \<and> d = DrawTexture (sx, sy) (32 * (world_tile (nat (t div 32)) (nat (t' div 32)) AND 0xFFFF),
          32 * drop_bit 16 (world_tile (nat (t div 32)) (nat (t' div 32)))))" for d
      by (auto simp: cell_draw_def Let_def image_iff)
    then show ?thesis unfolding c c' by fastforce
  qed
  ultimately show ?thesis using r by blast
qed

definition sample_world :: "rat \<times> rat \<Rightarrow> rat \<times> rat \<Rightarrow> bool \<Rightarrow> world_layer" where
  "sample_world pos target moving = \<lparr>m_prevPos = pos, m_playerPos = pos, m_targetPos = target, m_isMoving = moving, m_vel = (0, 1), m_dir = 0,
     m_moveSpeed = 96, wl_t = \<lparr>ti_type = 0, ti_isRunning = True, ti_startTime = 0, ti_endTime = 0\<rparr>\<rparr>"

theorem world_render_shows_map_witness:
  "\<exists>ds. WorldLayer_OnRender (640, 480) (sample_world (352, 288) (352, 288) False) = Done (NkErr_Ok, ds)
    \<and> DrawTexture (0, 480 - 32) (64, 0) \<in> set ds"
proof -
  let ?w = "sample_world (352, 288) (352, 288) False"
  have p: "f32_to_int (fst (m_playerPos ?w)) = Done 352" "f32_to_int (snd (m_playerPos ?w)) = Done 288"
    by (simp_all add: f32_to_int_def sample_world_def)
  have t: "32 * (world_tile 3 15 AND 65535) = 64" "32 * drop_bit 16 (world_tile 3 15) = 0"
    by (simp_all add: world_tile_def gl_TestMap1_def N_def)
  show ?thesis
    using world_render_shows_map[OF p, of 640 480] t by (auto intro!: exI[of _ 3] exI[of _ 15])
qed

subsection \<open>Moving\<close>

lemma f32_0 [simp]: "f32 0 = 0"
  by (simp add: f32_def f32_round_def)

lemma f32_err: "\<bar>f32 x - x\<bar> \<le> \<bar>x\<bar> / 2 ^ 24"
proof -
  consider "x = 0" | "0 < x" | "x < 0" by linarith
  then show ?thesis
    using f32_round_err[of x] f32_round_err[of "- x"] by cases (simp_all add: f32_def f32_round_def abs_minus_commute)
qed

text \<open>What is used of the square root of the C library: it is accurate to a few units in the last place.\<close>

definition sqrt_ok :: "(rat \<Rightarrow> rat) \<Rightarrow> bool" where
  "sqrt_ok sqrtf \<longleftrightarrow> (\<forall>y \<ge> 0. 0 \<le> sqrtf y \<and> \<bar>sqrtf y * sqrtf y - y\<bar> \<le> y / 2 ^ 22)"

lemma root_close:
  fixes m a e :: rat
  assumes "0 \<le> m" "0 < a" "\<bar>m * m - a * a\<bar> \<le> a * a * e"
  shows "\<bar>m - a\<bar> \<le> a * e"
proof -
  have "\<bar>m - a\<bar> * a \<le> \<bar>m - a\<bar> * (m + a)" using assms(1) by (intro mult_left_mono) auto
  also have "\<dots> = \<bar>(m - a) * (m + a)\<bar>" using assms(1,2) by (simp add: abs_mult)
  also have "\<dots> = \<bar>m * m - a * a\<bar>" by (simp add: algebra_simps)
  finally have "\<bar>m - a\<bar> * a \<le> (a * e) * a" using assms(3) by (simp add: ac_simps)
  then show ?thesis using assms(2) by (simp add: mult_le_cancel_right)
qed

lemma ratio_close:
  fixes m a :: rat
  assumes "0 < m" "0 < a" "\<bar>m - a\<bar> \<le> a / 2 ^ 20"
  shows "\<bar>a / m - 1\<bar> \<le> 1 / 2 ^ 19"
proof -
  have "a \<le> 2 * m" using assms unfolding abs_le_iff by simp
  then have "\<bar>a - m\<bar> \<le> 1 / 2 ^ 19 * m" using assms(3) unfolding abs_le_iff by simp
  moreover have "a / m - 1 = (a - m) / m" using assms(1) by (simp add: field_simps)
  ultimately show ?thesis using assms(1) by (simp add: abs_divide pos_divide_le_eq)
qed

lemma mag_close:
  assumes "sqrt_ok sqrtf" "d \<noteq> 0"
  shows "\<bar>sqrtf (f32 (f32 (d * d))) - \<bar>d\<bar>\<bar> \<le> \<bar>d\<bar> / 2 ^ 20"
proof -
  define q where "q = d * d"
  have q: "0 < q" using assms(2) by (auto simp: q_def zero_less_mult_iff)
  define r where "r = f32 (f32 q)"
  have "\<bar>f32 q - q\<bar> \<le> q / 2 ^ 24" "\<bar>r - f32 q\<bar> \<le> \<bar>f32 q\<bar> / 2 ^ 24"
    using f32_err[of q] f32_err[of "f32 q"] q by (simp_all add: r_def)
  then have r: "0 \<le> r" "\<bar>r - q\<bar> \<le> q / 2 ^ 22" using q by (auto simp: abs_if field_simps split: if_splits)
  then have m: "0 \<le> sqrtf r" "\<bar>sqrtf r * sqrtf r - r\<bar> \<le> r / 2 ^ 22" using assms(1) by (auto simp: sqrt_ok_def)
  have "\<bar>sqrtf r * sqrtf r - q\<bar> \<le> q * (1 / 2 ^ 20)" using m(2) r(2) q by (auto simp: abs_if field_simps split: if_splits)
  then have "\<bar>sqrtf r * sqrtf r - \<bar>d\<bar> * \<bar>d\<bar>\<bar> \<le> \<bar>d\<bar> * \<bar>d\<bar> * (1 / 2 ^ 20)" by (simp add: q_def)
  from root_close[OF m(1) _ this] assms(2) show ?thesis by (simp add: r_def q_def)
qed

text \<open>The step towards the target: the direction times the length of the step, up to a small error.\<close>

lemma unit_close:
  assumes "sqrt_ok sqrtf" "d \<noteq> 0" "sqrtf (f32 (f32 (d * d))) \<noteq> 0"
  shows "\<bar>f32 (d / sqrtf (f32 (f32 (d * d)))) - sgn d\<bar> \<le> 1 / 2 ^ 18"
proof -
  define m where "m = sqrtf (f32 (f32 (d * d)))"
  define u where "u = d / m"
  have c: "\<bar>m - \<bar>d\<bar>\<bar> \<le> \<bar>d\<bar> / 2 ^ 20" using mag_close[OF assms(1,2)] by (simp add: m_def)
  then have m: "0 < m" using assms(2) by (auto simp: abs_if field_simps split: if_splits)
  have "\<bar>\<bar>d\<bar> / m - 1\<bar> \<le> 1 / 2 ^ 19" using ratio_close[OF m _ c] assms(2) by simp
  moreover have "u - sgn d = sgn d * (\<bar>d\<bar> / m - 1)" by (simp add: u_def algebra_simps sgn_if abs_if)
  ultimately have "\<bar>u - sgn d\<bar> \<le> 1 / 2 ^ 19" using assms(2) by (simp add: abs_mult abs_sgn_eq)
  then show ?thesis using f32_err[of u] assms(2)
    by (simp add: u_def[symmetric] m_def[symmetric] sgn_if abs_if field_simps split: if_splits)
qed

lemma step_close:
  fixes s x :: rat
  assumes u: "\<bar>u - g\<bar> \<le> 1 / 2 ^ 18" and g: "\<bar>g\<bar> \<le> 1" and s: "1 / 4 \<le> s" "s \<le> 16" and x: "\<bar>x\<bar> \<le> 2 ^ 15"
  shows "\<bar>f32 (x + f32 (u * s)) - (x + g * s)\<bar> \<le> s / 32"
proof -
  define v where "v = u * s"
  define h where "h = g * s"
  have "\<bar>v - h\<bar> = \<bar>u - g\<bar> * s" using s(1) by (simp add: v_def h_def abs_mult flip: left_diff_distrib)
  also have "\<dots> \<le> 1 / 2 ^ 18 * s" using u s(1) by (intro mult_right_mono) auto
  finally have v: "\<bar>v - h\<bar> \<le> s / 2 ^ 18" by simp
  have h: "\<bar>h\<bar> \<le> s" using g s(1) by (simp add: h_def abs_mult mult_left_le_one_le)
  have p: "\<bar>f32 v - h\<bar> \<le> s / 2 ^ 17" using v h s(1) f32_err[of v] by (auto simp: abs_if split: if_splits)
  have "\<bar>x + f32 v\<bar> \<le> 2 ^ 16" using p h x s by (auto simp: abs_if split: if_splits)
  then have "\<bar>f32 (x + f32 v) - (x + f32 v)\<bar> \<le> 1 / 2 ^ 8" using f32_err[of "x + f32 v"] by simp
  then show ?thesis using p s(1) unfolding v_def[symmetric] h_def[symmetric] by (auto simp: abs_if split: if_splits)
qed

lemma advance_num:
  fixes s x T :: rat and sqrtf :: "rat \<Rightarrow> rat"
  defines "d \<equiv> f32 (T - x)" defines "m \<equiv> sqrtf (f32 (f32 (d * d)))"
  assumes sq: "sqrt_ok sqrtf" and d: "d \<noteq> 0" and m: "m \<noteq> 0" "s \<le> m"
    and s: "1 / 4 \<le> s" "s \<le> 16" and x: "\<bar>x\<bar> \<le> 2 ^ 15"
  shows "\<bar>T - f32 (x + f32 (f32 (d / m) * s))\<bar> \<le> \<bar>T - x\<bar> - s / 2"
proof -
  have D: "T \<noteq> x" using d by (auto simp: d_def)
  have e: "\<bar>d - (T - x)\<bar> \<le> \<bar>T - x\<bar> / 2 ^ 24" unfolding d_def by (rule f32_err)
  have sg: "sgn d = sgn (T - x)" using e D by (auto simp: sgn_if abs_if field_simps split: if_splits)
  have "\<bar>f32 (d / m) - sgn d\<bar> \<le> 1 / 2 ^ 18" using unit_close[OF sq d] m by (simp add: m_def)
  then have st: "\<bar>f32 (x + f32 (f32 (d / m) * s)) - (x + sgn d * s)\<bar> \<le> s / 32"
    by (rule step_close) (use s x in \<open>auto simp: sgn_if\<close>)
  have "\<bar>m - \<bar>d\<bar>\<bar> \<le> \<bar>d\<bar> / 2 ^ 20" using mag_close[OF sq d] by (simp add: m_def)
  then have sD: "s \<le> \<bar>T - x\<bar> * (1 + 1 / 2 ^ 18)" using m(2) e by (auto simp: abs_if split: if_splits)
  define z where "z = f32 (x + f32 (f32 (d / m) * s))"
  consider "x < T" "sgn d = 1" | "T < x" "sgn d = - 1" using sg D by (cases x T rule: linorder_cases) auto
  then show ?thesis
    using st sD s(1) unfolding z_def[symmetric] by cases (auto simp: abs_if split: if_splits)
qed

text \<open>The player is on the way along one axis, at most \<open>b\<close> pixels from the target.\<close>

definition on_axis :: "rat \<Rightarrow> rat \<Rightarrow> rat \<Rightarrow> rat \<Rightarrow> rat \<Rightarrow> bool" where
  "on_axis b x y tx ty \<longleftrightarrow> y = ty \<and> f32 ty = ty \<and> \<bar>tx\<bar> \<le> 2 ^ 14 \<and> \<bar>tx - x\<bar> \<le> b"

definition route :: "rat \<Rightarrow> world_layer \<Rightarrow> bool" where
  "route b wl \<longleftrightarrow> m_isMoving wl \<and>
     (on_axis b (fst (m_playerPos wl)) (snd (m_playerPos wl)) (fst (m_targetPos wl)) (snd (m_targetPos wl)) \<or>
      on_axis b (snd (m_playerPos wl)) (fst (m_playerPos wl)) (snd (m_targetPos wl)) (fst (m_targetPos wl)))"

lemma on_axis_step:
  fixes s x T :: rat and sqrtf :: "rat \<Rightarrow> rat"
  defines "d \<equiv> f32 (T - x)" defines "m \<equiv> sqrtf (f32 (f32 (d * d)))"
  assumes "sqrt_ok sqrtf" "on_axis b x y T ty" "b \<le> 64" "m \<noteq> 0" "s \<le> m" "1 / 4 \<le> s" "s \<le> 16" "d \<noteq> 0"
  shows "on_axis (b - s / 2) (f32 (x + f32 (f32 (d / m) * s))) y T ty"
proof -
  have "\<bar>x\<bar> \<le> 2 ^ 15" using assms(4,5) unfolding on_axis_def by (auto simp: abs_if split: if_splits)
  from advance_num[OF assms(3) _ _ _ assms(8,9) this, of T] assms(4,6,7,10)
  show ?thesis by (simp add: on_axis_def d_def m_def)
qed

lemma f64_small_pos: "0 \<le> f64_round (1 / 1000)"
  by code_simp

lemma sq_nz: "f64_round (1 / 1000) < f32 (f32 (d * d)) \<Longrightarrow> d \<noteq> 0"
  using f64_small_pos by auto

lemma advance_route:
  assumes "sqrt_ok sqrtf" "route b wl" "b \<le> 64" "1 / 4 \<le> s" "s \<le> 16" "s = f32 (m_moveSpeed wl * dt)"
  shows "advance sqrtf dt wl = wl\<lparr>m_playerPos := m_targetPos wl, m_isMoving := False\<rparr> \<or>
    (\<exists>p. advance sqrtf dt wl = wl\<lparr>m_prevPos := m_playerPos wl, m_playerPos := p\<rparr> \<and> route (b - s / 2) (advance sqrtf dt wl))"
proof -
  obtain x y where P: "m_playerPos wl = (x, y)" by (cases "m_playerPos wl")
  obtain tx ty where T: "m_targetPos wl = (tx, ty)" by (cases "m_targetPos wl")
  consider "on_axis b x y tx ty" | "on_axis b y x ty tx" using assms(2) by (auto simp: route_def P T)
  then show ?thesis
  proof cases
    case 1
    then have y: "y = ty" "f32 ty = ty" by (auto simp: on_axis_def)
    show ?thesis
      using on_axis_step[OF assms(1) 1 assms(3) _ _ assms(4,5)] assms(2) sq_nz
      by (auto simp: advance_def P T y Let_def assms(6)[symmetric] route_def not_less)
  next
    case 2
    then have x: "x = tx" "f32 tx = tx" by (auto simp: on_axis_def)
    show ?thesis
      using on_axis_step[OF assms(1) 2 assms(3) _ _ assms(4,5)] assms(2) sq_nz
      by (auto simp: advance_def P T x Let_def assms(6)[symmetric] route_def not_less)
  qed
qed

text \<open>A sequence of updates, each with the keys held down and the time that passed.\<close>

fun world_updates ::
    "'w tick_counter \<Rightarrow> (rat \<Rightarrow> rat) \<Rightarrow> ((world_key \<Rightarrow> bool) \<times> rat) list \<Rightarrow> world_layer \<Rightarrow> 'w \<Rightarrow> (world_layer \<times> 'w) outcome" where
  "world_updates ticks sqrtf [] wl w = Done (wl, w)"
| "world_updates ticks sqrtf ((k, dt) # ks) wl w =
     obind (WorldLayer_OnUpdate ticks sqrtf k dt wl w) (\<lambda>(_, wl, w). world_updates ticks sqrtf ks wl w)"

definition frame_time :: "rat \<Rightarrow> bool" where
  "frame_time dt \<longleftrightarrow> 1 / 240 \<le> dt \<and> dt \<le> 1 / 60"

lemma world_step_bounds:
  assumes "frame_time dt" "v = 4 * 32 \<or> v = 8 * 32"
  shows "1 / 2 \<le> f32 (v * dt)" "f32 (v * dt) \<le> 16"
proof -
  define z where "z = v * dt"
  have "8 / 15 \<le> z" "z \<le> 5" using assms by (auto simp: frame_time_def z_def)
  then show "1 / 2 \<le> f32 (v * dt)" "f32 (v * dt) \<le> 16"
    using f32_err[of z] unfolding z_def[symmetric] by (auto simp: abs_if split: if_splits)
qed

lemma OnUpdate_moving:
  assumes "sqrt_ok sqrtf" "route b wl" "b \<le> 64" "frame_time dt"
  shows "\<exists>wl'. WorldLayer_OnUpdate ticks sqrtf k dt wl w = Done (NkErr_Ok, wl', w) \<and>
    m_targetPos wl' = m_targetPos wl \<and> m_dir wl' = m_dir wl \<and>
    (\<not> m_isMoving wl' \<and> m_playerPos wl' = m_targetPos wl \<or> route (b - 1 / 4) wl')"
proof -
  let ?v = "if k NkKey_LShift then 8 * 32 else 4 * 32 :: rat"
  let ?wl = "wl\<lparr>m_moveSpeed := ?v\<rparr>"
  have s: "1 / 2 \<le> f32 (?v * dt)" "f32 (?v * dt) \<le> 16" using world_step_bounds[OF assms(4), of ?v] by simp_all
  have r: "route b ?wl" "m_isMoving ?wl" using assms(2) by (simp_all add: route_def)
  have w: "route c x \<Longrightarrow> c \<le> c' \<Longrightarrow> route c' x" for c c' x by (auto simp: route_def on_axis_def)
  have u: "WorldLayer_OnUpdate ticks sqrtf k dt wl w = Done (NkErr_Ok, advance sqrtf dt ?wl, w)"
    using r(2) by (simp add: WorldLayer_OnUpdate_def)
  have "1 / 4 \<le> f32 (?v * dt)" using s(1) by linarith
  then consider "advance sqrtf dt ?wl = ?wl\<lparr>m_playerPos := m_targetPos ?wl, m_isMoving := False\<rparr>"
    | p where "advance sqrtf dt ?wl = ?wl\<lparr>m_prevPos := m_playerPos ?wl, m_playerPos := p\<rparr>"
        "route (b - f32 (?v * dt) / 2) (advance sqrtf dt ?wl)"
    using advance_route[OF assms(1) r(1) assms(3) _ s(2), of dt] by fastforce
  then show ?thesis
  proof cases
    case 1
    then show ?thesis by (simp add: u)
  next
    case 2
    then have "route (b - 1 / 4) (advance sqrtf dt ?wl)" using s(1) by (intro w[OF 2(2)]) linarith
    then show ?thesis using 2(1) by (simp add: u)
  qed
qed

lemma moving_completes:
  assumes "sqrt_ok sqrtf" "route (of_nat m / 4) wl" "m \<le> 256" "\<forall>(k, dt) \<in> set ks. frame_time dt" "m < length ks"
  shows "\<exists>n \<le> Suc m. \<exists>wl'. world_updates ticks sqrtf (take n ks) wl w = Done (wl', w) \<and>
    \<not> m_isMoving wl' \<and> m_playerPos wl' = m_targetPos wl \<and> m_dir wl' = m_dir wl"
  using assms
proof (induction m arbitrary: ks wl)
  case (Suc m)
  then obtain k dt ks' where ks: "ks = (k, dt) # ks'" by (cases ks) auto
  obtain wl1 where w1: "WorldLayer_OnUpdate ticks sqrtf k dt wl w = Done (NkErr_Ok, wl1, w)"
    "m_targetPos wl1 = m_targetPos wl" "m_dir wl1 = m_dir wl"
    and r: "\<not> m_isMoving wl1 \<and> m_playerPos wl1 = m_targetPos wl \<or> route (of_nat (Suc m) / 4 - 1 / 4) wl1"
    using OnUpdate_moving[OF Suc.prems(1,2), of dt] Suc.prems(3,4) ks by fastforce
  from r show ?case
  proof
    assume "\<not> m_isMoving wl1 \<and> m_playerPos wl1 = m_targetPos wl"
    then show ?thesis using w1 ks by (intro exI[of _ 1] conjI exI[of _ wl1]) auto
  next
    assume "route (of_nat (Suc m) / 4 - 1 / 4) wl1"
    then have "route (of_nat m / 4) wl1" by (simp add: add_divide_distrib)
    from Suc.IH[OF Suc.prems(1) this, of ks'] Suc.prems(3-5) ks obtain n wl' where
      "n \<le> Suc m" "world_updates ticks sqrtf (take n ks') wl1 w = Done (wl', w)" "\<not> m_isMoving wl'"
      "m_playerPos wl' = m_targetPos wl1" "m_dir wl' = m_dir wl1" by auto
    then show ?thesis using w1 ks by (intro exI[of _ "Suc n"] conjI exI[of _ wl']) auto
  qed
next
  case 0
  then obtain k dt ks' where ks: "ks = (k, dt) # ks'" by (cases ks) auto
  obtain wl1 where w1: "WorldLayer_OnUpdate ticks sqrtf k dt wl w = Done (NkErr_Ok, wl1, w)"
    "m_targetPos wl1 = m_targetPos wl" "m_dir wl1 = m_dir wl"
    and r: "\<not> m_isMoving wl1 \<and> m_playerPos wl1 = m_targetPos wl \<or> route (0 - 1 / 4) wl1"
    using OnUpdate_moving[OF 0(1), of 0] 0(2,4) ks by fastforce
  moreover have "\<not> route (0 - 1 / 4) wl1" by (auto simp: route_def on_axis_def)
  ultimately show ?case using ks by (intro exI[of _ 1] conjI exI[of _ wl1]) auto
qed

text \<open>The tile a key press leads to, and the row of the player atlas.\<close>

definition world_axis :: "(world_key \<Rightarrow> bool) \<Rightarrow> int \<times> int" where
  "world_axis k = (if k NkKey_AlnumA then (- 1, 0) else if k NkKey_AlnumD then (1, 0)
     else if k NkKey_AlnumW then (0, - 1) else if k NkKey_AlnumS then (0, 1) else (0, 0))"

definition facing :: "int \<times> int \<Rightarrow> int" where
  "facing a = (if fst a = 1 then 2 else if fst a = - 1 then 1 else if snd a = 1 then 0 else 3)"

lemma f32_tile: "\<bar>i\<bar> \<le> 502 \<Longrightarrow> f32 (32 * of_int i) = 32 * of_int i"
  using f32_int[of "32 * i"] by simp

lemma f32_axis [simp]: "f32 32 = 32" "f32 (- 32) = - 32"
  using f32_tile[of 1] f32_tile[of "- 1"] by simp_all

lemma NkTimerRestart_running:
  "ti_isRunning t \<Longrightarrow> \<exists>t' w'. NkTimerRestart ticks t w = Done (t', w')"
  by (auto simp: NkTimerRestart_def NkTimerStop_def NkTimerStart_def nk_assert_def split: prod.splits if_splits)

lemma set_vel: "(if fst (m_vel wl) \<noteq> x \<or> snd (m_vel wl) \<noteq> y then wl\<lparr>m_vel := (x, y)\<rparr> else wl) = wl\<lparr>m_vel := (x, y)\<rparr>"
  by (cases wl) (auto simp: prod_eq_iff)

lemma start_move_eq:
  assumes "world_axis k = (ax, ay)" "(ax, ay) \<noteq> (0, 0)"
  shows "start_move ticks k wl w =
    obind (NkTimerRestart ticks (wl_t wl) w) (\<lambda>(t, w'). Done (wl\<lparr>m_vel := (of_int ax, of_int ay), m_dir := facing (ax, ay),
      m_targetPos := (f32 (fst (m_playerPos wl) + 32 * of_int ax), f32 (snd (m_playerPos wl) + 32 * of_int ay)),
      m_isMoving := True, wl_t := t\<rparr>, w'))"
  using assms unfolding world_axis_def start_move_def Let_def set_vel
  by (auto simp: facing_def split: if_splits)

lemma start_move_tile:
  assumes wl: "ti_isRunning (wl_t wl)" "m_playerPos wl = (32 * of_int i, 32 * of_int j)"
    and b: "\<bar>i\<bar> \<le> 500" "\<bar>j\<bar> \<le> 500" and a: "world_axis k = (ax, ay)" "(ax, ay) \<noteq> (0, 0)"
  shows "\<exists>wl' w'. start_move ticks k wl w = Done (wl', w') \<and> route 32 wl' \<and> m_moveSpeed wl' = m_moveSpeed wl \<and>
    m_targetPos wl' = (32 * of_int (i + ax), 32 * of_int (j + ay)) \<and> m_dir wl' = facing (ax, ay)"
proof -
  obtain t' w' where t: "NkTimerRestart ticks (wl_t wl) w = Done (t', w')" using NkTimerRestart_running[OF wl(1), of ticks w] by blast
  have ax: "\<bar>ax\<bar> \<le> 1" "\<bar>ay\<bar> \<le> 1" "ax = 0 \<or> ay = 0" using a(1) by (auto simp: world_axis_def split: if_splits)
  then have f: "f32 (32 * of_int i + 32 * of_int ax) = 32 * of_int (i + ax)" "f32 (32 * of_int j + 32 * of_int ay) = 32 * of_int (j + ay)"
    using b f32_tile[of "i + ax"] f32_tile[of "j + ay"] by (simp_all add: distrib_left)
  have g: "f32 (32 * of_int (i + ax)) = 32 * of_int (i + ax)" "f32 (32 * of_int (j + ay)) = 32 * of_int (j + ay)"
    using b ax f32_tile[of "i + ax"] f32_tile[of "j + ay"] by simp_all
  have "\<bar>rat_of_int (i + ax)\<bar> \<le> 512" "\<bar>rat_of_int (j + ay)\<bar> \<le> 512" "\<bar>rat_of_int ax\<bar> \<le> 1" "\<bar>rat_of_int ay\<bar> \<le> 1"
    using b ax by (simp_all flip: of_int_abs)
  then have "on_axis 32 (32 * of_int i) (32 * of_int j) (32 * of_int (i + ax)) (32 * of_int (j + ay)) \<or>
      on_axis 32 (32 * of_int j) (32 * of_int i) (32 * of_int (j + ay)) (32 * of_int (i + ax))"
    using ax(3) g by (auto simp: on_axis_def abs_mult algebra_simps)
  then show ?thesis by (simp add: start_move_eq[OF a] t wl(2) f route_def)
qed

text \<open>C38: A key press moves the player by exactly one tile.  A player that stands on a tile, with the
  timer of the layer running, and a direction key held down in the first update: whatever keys are held
  down later and however the frame times vary between 1/240 s and 1/60 s, after at most 129 updates the
  player stands, without any rounding error, on the neighbouring tile and faces the direction of the
  key; A wins over D, and the horizontal keys over W, which wins over S.\<close>

theorem world_key_moves_one_tile:
  assumes "sqrt_ok sqrtf" "\<not> m_isMoving wl" "ti_isRunning (wl_t wl)"
    "m_playerPos wl = (32 * of_int i, 32 * of_int j)" "\<bar>i\<bar> \<le> 500" "\<bar>j\<bar> \<le> 500"
    "world_axis (fst (hd ks)) \<noteq> (0, 0)" "\<forall>(k, dt) \<in> set ks. frame_time dt" "129 \<le> length ks"
  shows "\<exists>n \<le> 129. \<exists>wl' w'. world_updates ticks sqrtf (take n ks) wl w = Done (wl', w') \<and> \<not> m_isMoving wl' \<and>
    m_playerPos wl' = (32 * of_int (i + fst (world_axis (fst (hd ks)))), 32 * of_int (j + snd (world_axis (fst (hd ks))))) \<and>
    m_dir wl' = facing (world_axis (fst (hd ks)))"
proof -
  obtain k dt ks' where ks: "ks = (k, dt) # ks'" using assms(9) by (cases ks) auto
  let ?wl = "wl\<lparr>m_moveSpeed := (if k NkKey_LShift then 8 * 32 else 4 * 32)\<rparr>"
  obtain wl1 w1 where s: "start_move ticks k ?wl w = Done (wl1, w1)" "route 32 wl1" "m_moveSpeed wl1 = m_moveSpeed ?wl"
    "m_targetPos wl1 = (32 * of_int (i + fst (world_axis k)), 32 * of_int (j + snd (world_axis k)))" "m_dir wl1 = facing (world_axis k)"
    using start_move_tile[of ?wl i j k "fst (world_axis k)" "snd (world_axis k)" ticks w] assms(3-7) ks by auto
  have "wl1\<lparr>m_moveSpeed := (if k NkKey_LShift then 8 * 32 else 4 * 32)\<rparr> = wl1" using s(3) by simp
  then have "WorldLayer_OnUpdate ticks sqrtf k dt wl w = WorldLayer_OnUpdate ticks sqrtf k dt wl1 w1"
    using s(1,2) assms(2) by (simp add: WorldLayer_OnUpdate_def route_def)
  then have u: "world_updates ticks sqrtf (take (Suc n) ks) wl w = world_updates ticks sqrtf (take (Suc n) ks) wl1 w1" for n
    by (simp add: ks)
  obtain n wl' where n: "n \<le> Suc 128" "world_updates ticks sqrtf (take n ks) wl1 w1 = Done (wl', w1)" "\<not> m_isMoving wl'"
    "m_playerPos wl' = m_targetPos wl1" "m_dir wl' = m_dir wl1"
    using moving_completes[of sqrtf 128 wl1 ks ticks w1] assms(1,8,9) s(2) by auto
  then obtain n' where "n = Suc n'" using s(2) by (cases n) (auto simp: route_def)
  then show ?thesis using n u s(4,5) ks by (intro exI[of _ n] conjI exI[of _ wl'] exI[of _ w1]) auto
qed

text \<open>A square root on the rationals that is accurate enough.\<close>

definition rat_sqrt :: "rat \<Rightarrow> rat" where
  "rat_sqrt y = (let (p, q) = quotient_of y in of_int \<lfloor>sqrt (of_int (p * q * 2 ^ 60))\<rfloor> / (of_int q * 2 ^ 30))"

lemma floor_sqrt_close:
  assumes "2 ^ 60 \<le> M"
  shows "\<bar>\<lfloor>sqrt (of_int M)\<rfloor> * \<lfloor>sqrt (of_int M)\<rfloor> - M\<bar> * 2 ^ 22 \<le> M"
proof -
  define z where "z = sqrt (of_int M)"
  define f where "f = \<lfloor>z\<rfloor>"
  have M: "real_of_int M = z * z" using assms by (simp add: z_def)
  have "sqrt (2 ^ 60) \<le> z" using assms unfolding z_def by (intro real_sqrt_le_mono) (metis of_int_le_iff of_int_numeral of_int_power)
  then have z: "2 ^ 30 \<le> z" using real_sqrt_power_even[of 60 2] by (simp add: real_sqrt_power[symmetric])
  have f: "of_int f \<le> z" "z < of_int f + 1" "0 \<le> f" using z by (auto simp: f_def)
  have "(z - of_int f) * (z + of_int f) \<le> 1 * (2 * z)" using f z by (intro mult_mono) auto
  then have "(z * z - of_int f * of_int f) * 2 ^ 22 \<le> 2 ^ 23 * z" by (simp add: algebra_simps)
  also have "\<dots> \<le> z * z" using z by (intro mult_right_mono) auto
  finally have "real_of_int ((M - f * f) * 2 ^ 22) \<le> real_of_int M" by (simp add: M)
  moreover have "real_of_int (f * f) \<le> real_of_int M" using f M by (simp add: mult_mono)
  ultimately show ?thesis unfolding of_int_le_iff f_def[symmetric] z_def[symmetric] by simp
qed

lemma rat_sqrt_ok: "sqrt_ok rat_sqrt"
proof -
  have "0 \<le> rat_sqrt y \<and> \<bar>rat_sqrt y * rat_sqrt y - y\<bar> \<le> y / 2 ^ 22" if y: "0 \<le> y" for y
  proof (cases "y = 0")
    case False
    obtain p q where pq: "quotient_of y = (p, q)" by (cases "quotient_of y")
    have q: "0 < q" using quotient_of_denom_pos[OF pq] .
    have yq: "y = of_int p / of_int q" using quotient_of_div[OF pq] .
    have p: "0 < p" using y False yq q by (simp add: zero_le_divide_iff less_le)
    define M where "M = p * q * 2 ^ 60"
    define f where "f = \<lfloor>sqrt (of_int M)\<rfloor>"
    have "1 \<le> p * q" using mult_pos_pos[OF p q] by linarith
    then have "\<bar>f * f - M\<bar> * 2 ^ 22 \<le> M" unfolding f_def by (intro floor_sqrt_close) (simp add: M_def)
    then have "rat_of_int (\<bar>f * f - M\<bar> * 2 ^ 22) \<le> rat_of_int M" unfolding of_int_le_iff .
    then have c: "\<bar>of_int (f * f) - rat_of_int M\<bar> * 2 ^ 22 \<le> rat_of_int M" by simp
    define D :: rat where "D = of_int q * 2 ^ 30"
    have D: "0 < D * D" using q by (simp add: D_def)
    have r: "rat_sqrt y = of_int f / D" by (simp add: rat_sqrt_def pq f_def M_def D_def)
    have yM: "y = of_int M / (D * D)" using q by (simp add: yq M_def D_def field_simps)
    have "rat_sqrt y * rat_sqrt y - y = (of_int (f * f) - of_int M) / (D * D)" unfolding r by (simp add: yM diff_divide_distrib)
    then have "\<bar>rat_sqrt y * rat_sqrt y - y\<bar> = \<bar>of_int (f * f) - of_int M\<bar> / (D * D)" by (simp add: abs_divide abs_mult)
    also have "\<dots> \<le> (of_int M / 2 ^ 22) / (D * D)" using c D by (intro divide_right_mono) auto
    also have "\<dots> = y / 2 ^ 22" by (simp add: yM)
    finally have "\<bar>rat_sqrt y * rat_sqrt y - y\<bar> \<le> y / 2 ^ 22" .
    moreover have "0 \<le> f" using p q by (simp add: f_def M_def)
    ultimately show ?thesis using q by (simp add: r D_def)
  qed (simp add: rat_sqrt_def)
  then show ?thesis by (simp add: sqrt_ok_def)
qed

definition at_start :: world_layer where
  "at_start = \<lparr>m_prevPos = (352, 288), m_playerPos = (352, 288), m_targetPos = (352, 288), m_isMoving = False,
     m_vel = (0, 1), m_dir = 0, m_moveSpeed = 96, wl_t = \<lparr>ti_type = 0, ti_isRunning = True, ti_startTime = 0, ti_endTime = 0\<rparr>\<rparr>"

definition hold_right :: "((world_key \<Rightarrow> bool) \<times> rat) list" where
  "hold_right = replicate 129 (\<lambda>k. k = NkKey_AlnumD, 1 / 60)"

lemma hold_right_simps: "hd hold_right = (\<lambda>k. k = NkKey_AlnumD, 1 / 60)"
    "set hold_right = {(\<lambda>k. k = NkKey_AlnumD, 1 / 60)}" "length hold_right = 129"
  by (simp_all only: hold_right_def hd_replicate set_replicate length_replicate if_False zero_neq_numeral[symmetric] numeral_eq_iff not_False_eq_True)

theorem world_key_moves_one_tile_witness:
  "\<exists>n \<le> 129. \<exists>wl' w'. world_updates (\<lambda>w. (w, w + 1)) rat_sqrt (take n hold_right) at_start 0 = Done (wl', w') \<and>
    \<not> m_isMoving wl' \<and> m_playerPos wl' = (384, 288) \<and> m_dir wl' = 2"
  using world_key_moves_one_tile[OF rat_sqrt_ok, of at_start 11 9 hold_right "\<lambda>w. (w, w + 1)" 0]
  by (simp add: at_start_def world_axis_def frame_time_def facing_def hold_right_simps)

end
