(* ===== verification/NkError.thy ===== *)
theory NkError
  imports NkText
begin

section \<open>Error strings and fatal termination (src/Noriko/error.c)\<close>

text \<open>
  An error code arrives as an integer of the enumeration's type.  The message buffer is the text
  that \<open>snprintf\<close> leaves in it.  Terminating the process is modelled by the message shown and
  the exit status.
\<close>

definition int32_ok :: "int \<Rightarrow> bool" where
  "int32_ok n \<longleftrightarrow> - (2 ^ 31) \<le> n \<and> n < 2 ^ 31"

text \<open>The range macro multiplies the two distances; a signed overflow is undefined.\<close>

definition NK_INRANGE_INCL :: "int \<Rightarrow> int \<Rightarrow> int \<Rightarrow> bool outcome" where
  "NK_INRANGE_INCL x lo hi =
     (if int32_ok (hi - x) \<and> int32_ok (x - lo) \<and> int32_ok ((hi - x) * (x - lo))
      then Done (0 \<le> (hi - x) * (x - lo)) else Undef)"

definition NkErr_Count :: int where
  "NkErr_Count = 61"

definition gl_c_ErrorCodeStringTable :: "string list" where
  "gl_c_ErrorCodeStringTable = [
     ''NkErr_Ok'', ''NkErr_Unknown'', ''NkErr_NoOperation'', ''NkErr_ManuallyAborted'',
     ''NkErr_AccessDenied'', ''NkErr_NotImplemented'', ''NkErr_InParameter'', ''NkErr_OutParameter'',
     ''NkErr_InOutParameter'', ''NkErr_InptrParameter'', ''NkErr_OutptrParameter'',
     ''NkErr_CallbackParameter'', ''NkErr_MemoryAlignment'', ''NkErr_MemoryAllocation'',
     ''NkErr_MemoryReallocation'', ''NkErr_ItemNotFound'', ''NkErr_ArrayOutOfBounds'',
     ''NkErr_ArrayElemOutOfBounds'', ''NkErr_InvalidRange'', ''NkErr_UnsignedWrapAround'',
     ''NkErr_CapLimitExceeded'', ''NkErr_ComponentState'', ''NkErr_ObjectType'', ''NkErr_ObjectState'',
     ''NkErr_SynchInit'', ''NkErr_UnexpectedCharacter'', ''NkErr_InvalidIdentifier'',
     ''NkErr_ClosingTokenNotFound'', ''NkErr_InterfacePureVirtual'', ''NkErr_InterfaceNotImpl'',
     ''NkErr_UnknownClass'', ''NkErr_AggregationNotSupp'', ''NkErr_ClassAlreadyReg'', ''NkErr_ClassNotReg'',
     ''NkErr_RegWindowClass'', ''NkErr_CreateNativeWindow'', ''NkErr_WndModeNotSupported'',
     ''NkErr_AdjustClientArea'', ''NkErr_CreateMemDC'', ''NkErr_CreateCompBitmap'', ''NkErr_CreateBrush'',
     ''NkErr_OpenFile'', ''NkErr_ErrorDuringDiskIO'', ''NkErr_UnsupportedFileFormat'',
     ''NkErr_InvImageDimensions'', ''NkErr_InvBitDepth'', ''NkErr_CreateDDBFromDIB'',
     ''NkErr_CopyDDBPixels'', ''NkErr_QueryStdLocation'', ''NkErr_DatabaseOpen'', ''NkErr_SetDatabaseProps'',
     ''NkErr_DatabaseClose'', ''NkErr_CompileSqlStatement'', ''NkErr_DatabaseApplySchema'',
     ''NkErr_InvalidStreamType'', ''NkErr_CreateDirectory'', ''NkErr_FindFileOrDir'',
     ''NkErr_InvStreamMode'', ''NkErr_InvSeekOrigin'', ''NkErr_StreamSeek'', ''NkErr_StreamFlush'']"

definition gl_c_ErrorCodeDescriptionTable :: "string list" where
  "gl_c_ErrorCodeDescriptionTable = [
     ''not an error'', ''unknown error code or totally unexpected error condition'',
     ''no operation was carried out'', ''operation was manually aborted by user or callback'',
     ''cannot access resource'', ''requested feature is not (yet) implemented'',
     ''at least one erroneous input (read-only) parameter (e.g., int, char *)'',
     ''at least one erroneous output (write-only) parameter (e.g., void *)'',
     ''at least one erroneous input/output parameter (e.g., void *)'',
     ''at least one erroneous input pointer parameter (e.g., void **)'',
     ''at least one erroneous output pointer parameter (e.g., void **)'',
     ''invalid callback function pointer passed (must be non-NULL)'',
     ''invalid memory alignment (must be a power of two)'',
     ''could not allocate memory block (likely out of memory or too much fragmentation)'',
     ''could not reallocate memory block (likely out of memory or too much fragmentation)'',
     ''could not find requested item'', ''array index out of (buffer) bounds'',
     ''array index out of (element) bounds'', ''erroneous array interval [x, y]'',
     ''operation caused unsigned integer wrap-around (values passed too big?)'',
     ''exceeded container capacity limit'',
     ''invalid component state (not yet initialized/already uninitialized?)'',
     ''invalid internal object type'',
     ''invalid object state (likely due to function pre-condition being not satisfied)'',
     ''error while initializing synchronization object (mtx, ...)'',
     ''unexpected character during string parsing'', ''invalid/empty identifier during string parsing'',
     ''closing token for compound literal not found'',
     ''interface is marked as '' @ [CHR 0x27] @ ''pure-virtual'' @ [CHR 0x27] @ '' and cannot be instantiated'',
     ''current class does not implement the specified interface'',
     ''class is unknown to the current class factory instance'', ''class does not support NkOM aggregation'',
     ''class is already registered in the global NkOM runtime'',
     ''class is not registered in the global NkOM runtime'', ''could not register window class'',
     ''could not create native window'', ''window mode not supported on the current platform'',
     ''could not adjust client area size to fit requested viewport'',
     ''could not create memory device context'',
     ''failed to create memory bitmap compatible with given device context'',
     ''failed to create paint brush'', ''could not open file stream'', ''error during disk I/O operation'',
     ''unsupported file format'', ''invalid image dimensions (zero or negative?)'',
     ''invalid bit depth (not a power of 2 or unsupported?)'',
     ''could not copy DIB pixels into DDB pixel buffer (pixel format invalid?)'',
     ''could not copy pixels from DDB to DIB (pixel format/dimensions invalid?)'',
     ''failed to retrieve standard folder location'', ''could not open database connection'',
     ''could not set some database connection properties'', ''could not close database connection'',
     ''could not successfully compile SQL statement (syntax errors? out of memory? invalid handle?)'',
     ''failed to apply database schema (invalid syntax/schema conflicts?)'', ''invalid stream type ID'',
     ''could not create directory (missing permissions? invalid path encoding?'',
     ''could not find file or directory (invalid path?)'',
     ''inappropriate stream I/O mode for the requested operation'', ''invalid seek origin identifier'',
     ''could not seek the given position'', ''could not flush stream'']"

text \<open>The call with \<open>NkErr_Unknown\<close> for a code out of range finds a code in range.\<close>

definition NkGetErrorCodeStr :: "int \<Rightarrow> NkStringView outcome" where
  "NkGetErrorCodeStr code =
     obind (NK_INRANGE_INCL code 0 (NkErr_Count - 1)) (\<lambda>b.
       Done (NkStringViewSet (gl_c_ErrorCodeStringTable ! (if b then nat code else 1))))"

definition NkGetErrorCodeDesc :: "int \<Rightarrow> NkStringView outcome" where
  "NkGetErrorCodeDesc code =
     obind (NK_INRANGE_INCL code 0 (NkErr_Count - 1)) (\<lambda>b.
       Done (NkStringViewSet (gl_c_ErrorCodeDescriptionTable ! (if b then nat code else 1))))"

subsection \<open>The fatal error message\<close>

record NkFatalErrorContext =
  m_errorCode :: int
  m_fileLine :: nat
  m_failedExpr :: NkStringView
  m_additionalDesc :: NkStringView
  m_filePath :: NkStringView
  m_namespaceIdent :: NkStringView
  m_functionName :: NkStringView

definition NK_ERROR_MSGBUF :: nat where
  "NK_ERROR_MSGBUF = 4096"

text \<open>The suffix that starts with the first occurrence of the needle.\<close>

fun strstr :: "string \<Rightarrow> string \<Rightarrow> string option" where
  "strstr [] needle = (if needle = [] then Some [] else None)"
| "strstr (c # s) needle = (if take (length needle) (c # s) = needle then Some (c # s) else strstr s needle)"

fun dec_digits :: "nat \<Rightarrow> string" where
  "dec_digits n = (if n < 10 then [char_of (n + 48)] else dec_digits (n div 10) @ [char_of (n mod 10 + 48)])"

declare dec_digits.simps [simp del]

definition fmt_i :: "int \<Rightarrow> string" where
  "fmt_i i = (if i < 0 then CHR ''-'' # dec_digits (nat (- i)) else dec_digits (nat i))"

text \<open>\<open>\%i\<close> reads the unsigned line number as a signed one.\<close>

definition as_int32 :: "nat \<Rightarrow> int" where
  "as_int32 n = (if n < 2 ^ 31 then int n else int n - 2 ^ 32)"

definition snprintf :: "nat \<Rightarrow> string \<Rightarrow> string" where
  "snprintf n out = take (n - 1) out"

definition gl_int_DefExtra :: string where
  "gl_int_DefExtra = ''This error signifies abnormal program termination. Please contact the''
     @ '' responsible developer, providing the details shown by this error message.''"

definition FormatFatalErrorMessage :: "NkFatalErrorContext \<Rightarrow> string outcome" where
  "FormatFatalErrorMessage cxt =
     obind (NkGetErrorCodeStr (m_errorCode cxt)) (\<lambda>codeStr.
     obind (NkGetErrorCodeDesc (m_errorCode cxt)) (\<lambda>codeDesc.
       let extraMsg = (if sv_sizeInBytes (m_additionalDesc cxt) = 0 then gl_int_DefExtra
                       else sv_dataPtr (m_additionalDesc cxt));
           path = sv_dataPtr (m_filePath cxt);
           pathStart = (case strstr path ''Noriko'' of None \<Rightarrow> path | Some p \<Rightarrow> p);
           nl = [CHR 0x0A]; tab = [CHR 0x09]
       in Done (snprintf (NK_ERROR_MSGBUF - 1)
            (''An unrecoverable error occurred and the application was forced to halt:'' @ nl @ nl
             @ ''  Expr:'' @ tab @ sv_dataPtr (m_failedExpr cxt) @ nl
             @ ''  Code:'' @ tab @ sv_dataPtr codeStr @ '' ('' @ fmt_i (m_errorCode cxt) @ '')'' @ nl
             @ ''  Desc:'' @ tab @ sv_dataPtr codeDesc @ nl
             @ ''  File:'' @ tab @ pathStart @ nl
             @ ''  Line:'' @ tab @ fmt_i (as_int32 (m_fileLine cxt)) @ nl
             @ ''  Func:'' @ tab @ sv_dataPtr (m_namespaceIdent cxt) @ ''::'' @ sv_dataPtr (m_functionName cxt) @ ''()'' @ nl @ nl
             @ extraMsg))))"

text \<open>A conversion specification in a format string: a percent sign that is not doubled.\<close>

fun has_conversion :: "string \<Rightarrow> bool" where
  "has_conversion [] = False"
| "has_conversion [c] = (c = CHR ''%'')"
| "has_conversion (c # d # s) = (if c = CHR ''%'' then (if d = CHR ''%'' then has_conversion s else True) else has_conversion (d # s))"

text \<open>The message itself is the format string of the log call: without further arguments a conversion
  in it is undefined.  The result is the text shown, if any, and the exit status.\<close>

definition NkFatalTerminate :: "NkFatalErrorContext option \<Rightarrow> (string option \<times> int) outcome" where
  "NkFatalTerminate errCxt =
     (case errCxt of None \<Rightarrow> Done (None, 1)
      | Some cxt \<Rightarrow> obind (FormatFatalErrorMessage cxt) (\<lambda>msg.
          if has_conversion msg then Undef else Done (Some msg, m_errorCode cxt)))"

subsection \<open>Lemmas\<close>

lemma tables_length:
  "length gl_c_ErrorCodeStringTable = 61" "length gl_c_ErrorCodeDescriptionTable = 61"
  by (simp_all add: gl_c_ErrorCodeStringTable_def gl_c_ErrorCodeDescriptionTable_def)

lemma inrange_small:
  assumes "\<bar>x\<bar> \<le> 40000"
  shows "NK_INRANGE_INCL x 0 60 = Done (0 \<le> x \<and> x \<le> 60)"
proof -
  have b: "\<bar>60 - x\<bar> \<le> 40060" using assms by linarith
  have "\<bar>(60 - x) * x\<bar> \<le> 40060 * 40000" unfolding abs_mult using assms b by (intro mult_mono) auto
  then have "int32_ok ((60 - x) * x)" by (auto simp: int32_ok_def abs_le_iff)
  moreover have "int32_ok (60 - x)" "int32_ok x" using assms by (auto simp: int32_ok_def abs_le_iff)
  ultimately show ?thesis by (auto simp: NK_INRANGE_INCL_def zero_le_mult_iff)
qed

lemma inrange_large:
  assumes "x \<ge> 50000"
  shows "NK_INRANGE_INCL x 0 60 = Undef"
proof -
  have "(60 - x) * x \<le> - 49940 * 50000" using mult_mono[of 49940 "x - 60" 50000 x] assms by (simp add: algebra_simps)
  then have "\<not> int32_ok ((60 - x) * x)" by (simp add: int32_ok_def)
  then show ?thesis by (simp add: NK_INRANGE_INCL_def)
qed

lemma has_conversion_middle: "d \<noteq> CHR ''%'' \<Longrightarrow> CHR ''%'' \<notin> set a \<Longrightarrow> has_conversion (a @ CHR ''%'' # d # s)"
proof (induction a)
  case (Cons c a)
  then show ?case by (cases a) auto
qed simp

subsection \<open>Properties\<close>

text \<open>Error strings.  Every code of the enumeration has its own name, small codes outside of it get the
  name of \<open>NkErr_Unknown\<close>, but for codes of 50000 and more the range check itself overflows.\<close>

theorem error_strings_by_code:
  "inj_on (\<lambda>code. NkGetErrorCodeStr code) {0..<NkErr_Count}
   \<and> (\<forall>code. code \<in> {-40000..40000} - {0..<NkErr_Count} \<longrightarrow> NkGetErrorCodeStr code = Done (NkStringViewSet ''NkErr_Unknown''))
   \<and> (\<forall>code. code \<ge> 50000 \<longrightarrow> NkGetErrorCodeStr code = Undef)"
proof (intro conjI allI impI)
  have d: "distinct gl_c_ErrorCodeStringTable" by code_simp
  have in_range: "NkGetErrorCodeStr c = Done (NkStringViewSet (gl_c_ErrorCodeStringTable ! nat c))" if "0 \<le> c" "c < 61" for c
    using inrange_small[of c] that by (simp add: NkGetErrorCodeStr_def NkErr_Count_def)
  show "inj_on (\<lambda>code. NkGetErrorCodeStr code) {0..<NkErr_Count}"
  proof (rule inj_onI)
    fix x y assume xy: "x \<in> {0..<NkErr_Count}" "y \<in> {0..<NkErr_Count}" "NkGetErrorCodeStr x = NkGetErrorCodeStr y"
    then have "gl_c_ErrorCodeStringTable ! nat x = gl_c_ErrorCodeStringTable ! nat y"
      using in_range[of x] in_range[of y] by (simp add: NkErr_Count_def NkStringViewSet_def)
    then have "nat x = nat y" using d xy(1,2) tables_length by (subst (asm) nth_eq_iff_index_eq) (auto simp: NkErr_Count_def)
    then show "x = y" using xy by (simp add: eq_nat_nat_iff)
  qed
next
  fix code assume "code \<in> {-40000..40000} - {0..<NkErr_Count}"
  then show "NkGetErrorCodeStr code = Done (NkStringViewSet ''NkErr_Unknown'')"
    using inrange_small[of code] by (auto simp: NkGetErrorCodeStr_def NkErr_Count_def gl_c_ErrorCodeStringTable_def)
next
  fix code :: int assume "code \<ge> 50000"
  then show "NkGetErrorCodeStr code = Undef" using inrange_large[of code] by (simp add: NkGetErrorCodeStr_def NkErr_Count_def)
qed

theorem error_strings_by_code_witness:
  "NkGetErrorCodeStr (- 1) = Done (NkStringViewSet ''NkErr_Unknown'') \<and> NkGetErrorCodeStr 70000 = Undef"
  using error_strings_by_code by (simp add: NkErr_Count_def)

text \<open>Fatal termination.  The message always fits into its buffer with its terminator, and the process
  ends with the error code of the context; but when the text of the failed expression contains a
  percent sign, as the assertion of \<open>NkPoolAlloc\<close> does, logging the message is undefined, since
  the message is used as the format string.\<close>

theorem fatal_terminate_message:
  assumes "\<bar>m_errorCode cxt\<bar> \<le> 40000"
  shows "(\<exists>msg. FormatFatalErrorMessage cxt = Done msg \<and> length msg < NK_ERROR_MSGBUF
      \<and> NkFatalTerminate (Some cxt) = (if has_conversion msg then Undef else Done (Some msg, m_errorCode cxt)))
    \<and> (sv_dataPtr (m_failedExpr cxt) = a @ CHR ''%'' # d # s \<and> CHR ''%'' \<notin> set a \<and> d \<noteq> CHR ''%'' \<and> length a \<le> 4000
       \<longrightarrow> NkFatalTerminate (Some cxt) = Undef)"
proof -
  let ?pre = "''An unrecoverable error occurred and the application was forced to halt:'' @ [CHR 0x0A] @ [CHR 0x0A]
     @ ''  Expr:'' @ [CHR 0x09]"
  obtain rest where m: "FormatFatalErrorMessage cxt
      = Done (snprintf (NK_ERROR_MSGBUF - 1) (?pre @ sv_dataPtr (m_failedExpr cxt) @ rest))"
    using inrange_small[OF assms]
    by (auto simp: FormatFatalErrorMessage_def NkGetErrorCodeStr_def NkGetErrorCodeDesc_def NkErr_Count_def Let_def)
  have len: "length ?pre = 81" by simp
  have "has_conversion (take 4094 (?pre @ (a @ CHR ''%'' # d # s) @ rest))"
    if "CHR ''%'' \<notin> set a" "d \<noteq> CHR ''%''" "length a \<le> 4000"
  proof -
    have "take 4094 (?pre @ (a @ CHR ''%'' # d # s) @ rest) = (?pre @ a) @ CHR ''%'' # d # take (4011 - length a) (s @ rest)"
      using that(3) len by (simp only: take_append append_assoc) (simp add: take_Cons')
    moreover have "CHR ''%'' \<notin> set (?pre @ a)" using that(1) by simp
    ultimately show ?thesis using has_conversion_middle[OF that(2)] by metis
  qed
  then show ?thesis
    by (auto simp: m NkFatalTerminate_def snprintf_def NK_ERROR_MSGBUF_def simp del: append.simps)
qed

definition sample_fatal :: NkFatalErrorContext where
  "sample_fatal = \<lparr>m_errorCode = 6, m_fileLine = 625,
     m_failedExpr = NkStringViewSet ''blockSize != 0 && blockSize % 8 == 0'', m_additionalDesc = NkStringViewSet [],
     m_filePath = NkStringViewSet ''src/Noriko/alloc.c'', m_namespaceIdent = NkStringViewSet ''nk::alloc'',
     m_functionName = NkStringViewSet ''NkPoolAlloc''\<rparr>"

theorem fatal_terminate_message_witness:
  "NkFatalTerminate (Some sample_fatal) = Undef"
  using fatal_terminate_message[of sample_fatal "''blockSize != 0 && blockSize ''" "CHR '' ''" "''8 == 0''"]
  by (simp add: sample_fatal_def NkStringViewSet_def)

end
