(* ===== verification/NkLog.thy ===== *)
theory NkLog
  imports NkError
begin

section \<open>Logging (src/Noriko/log.c)\<close>

text \<open>
  The log context is a fixed array of device references with a plain mutex.  The methods of a device
  are supplied by the client: they are the argument \<open>vt\<close>, run with the mutex released and may change
  everything; \<open>lg_env\<close> stands for everything outside the context.  Locking a plain mutex that the
  thread already holds is undefined.  The conversion of a format string with its arguments and of
  the time are those of the C library: they arrive as the texts \<open>full\<close>, which \<open>vsnprintf\<close> cuts to the
  size of its buffer, and \<open>ts\<close>.  Configurations with debug logger are modelled.
\<close>

definition NK_LOG_MSGSIZE :: nat where "NK_LOG_MSGSIZE = 4096"
definition NK_LOG_NDEV :: nat where "NK_LOG_NDEV = 64"

definition NkLogLvl_Count :: int where "NkLogLvl_Count = 7"
abbreviation (input) NkLogLvl_None :: int where "NkLogLvl_None \<equiv> 0"
abbreviation (input) NkLogLvl_Critical :: int where "NkLogLvl_Critical \<equiv> 6"

record ('d, 's) log_context =
  m_mtxLock :: bool
  m_nOfDev :: nat
  m_glMinLevel :: int
  m_glMaxLevel :: int
  m_devArray :: "'d option list"
  lg_env :: 's

text \<open>What a device gets to see of a message: the level, and the views of the time stamp and of the text.\<close>

record ('d, 'st) NkILogDevice_vt =
  ld_AddRef :: "'d \<Rightarrow> 'st \<Rightarrow> 'st"
  ld_Release :: "'d \<Rightarrow> 'st \<Rightarrow> 'st"
  ld_OnInstall :: "'d \<Rightarrow> 'st \<Rightarrow> NkErrorCode \<times> 'st"
  ld_OnUninstall :: "'d \<Rightarrow> 'st \<Rightarrow> NkErrorCode \<times> 'st"
  ld_OnMessage :: "'d \<Rightarrow> int \<Rightarrow> NkStringView \<Rightarrow> NkStringView \<Rightarrow> 'st \<Rightarrow> 'st"

type_synonym ('d, 's) log_vt = "('d, ('d, 's) log_context) NkILogDevice_vt"

definition gl_LogContext :: "'s \<Rightarrow> ('d, 's) log_context" where
  "gl_LogContext env = \<lparr>m_mtxLock = False, m_nOfDev = 0, m_glMinLevel = NkLogLvl_None, m_glMaxLevel = NkLogLvl_Critical,
     m_devArray = replicate NK_LOG_NDEV None, lg_env = env\<rparr>"

definition log_lock :: "('d, 's) log_context \<Rightarrow> ('d, 's) log_context outcome" where
  "log_lock st = (if m_mtxLock st then Undef else Done (st\<lparr>m_mtxLock := True\<rparr>))"

definition log_unlock :: "('d, 's) log_context \<Rightarrow> ('d, 's) log_context outcome" where
  "log_unlock st = (if m_mtxLock st then Done (st\<lparr>m_mtxLock := False\<rparr>) else Undef)"

subsection \<open>The console device\<close>

definition gl_LogLevelStaticInfo :: "(string \<times> string \<times> nat) list" where
  "gl_LogLevelStaticInfo =
     (let esc = (\<lambda>s. CHR 0x1B # s); pad = (\<lambda>x. length ''FATAL'' - length x) in
      [([], esc ''[97m'', 0),
       (''TRACE'', esc ''[90;40m'', pad ''TRACE''), (''DEBUG'', esc ''[90;40m'', pad ''DEBUG''),
       (''INFO'', esc ''[92;40m'', pad ''INFO''), (''WARN'', esc ''[33;40m'', pad ''WARN''),
       (''ERROR'', esc ''[91;40m'', pad ''ERROR''), (''FATAL'', esc ''[97;41m'', pad ''FATAL'')])"

definition gl_ResetFmtCmd :: string where
  "gl_ResetFmtCmd = CHR 0x1B # ''[0m''"

definition gl_PaddingTempl :: string where
  "gl_PaddingTempl = ''                ''"

text \<open>The text that is appended to the standard output.\<close>

definition ConoutDev_OnMessage :: "int \<Rightarrow> string \<Rightarrow> string \<Rightarrow> string outcome" where
  "ConoutDev_OnMessage lvlId tsStr fmtMsgStr =
     nk_assert (0 \<le> lvlId \<and> lvlId < NkLogLvl_Count) NkErr_InParameter
    (let (m_lvlRep, m_vt100Seq, m_padding) = gl_LogLevelStaticInfo ! nat lvlId in
     Done ((if lvlId \<noteq> NkLogLvl_None
            then ''['' @ tsStr @ ''] <'' @ m_vt100Seq @ m_lvlRep @ gl_ResetFmtCmd @ ''>'' @ take (m_padding + 1) gl_PaddingTempl
            else []) @ fmtMsgStr @ [CHR 0x0A]))"

subsection \<open>Devices\<close>

fun find_device :: "'d \<Rightarrow> nat \<Rightarrow> 'd option list \<Rightarrow> nat option" where
  "find_device d i [] = None"
| "find_device d i (x # xs) = (if x = Some d then Some i else find_device d (Suc i) xs)"

definition LogFindDevice :: "('d, 's) log_context \<Rightarrow> 'd \<Rightarrow> nat option" where
  "LogFindDevice st devRef = find_device devRef 0 (m_devArray st)"

text \<open>The insertion loop from index \<open>i\<close>.  The array is read in the current state; only the slot found
  before the mutex was released is written.\<close>

fun log_install_loop ::
    "('d, 's) log_vt \<Rightarrow> 'd \<Rightarrow> nat \<Rightarrow> nat \<Rightarrow> ('d, 's) log_context \<Rightarrow> (NkErrorCode \<times> ('d, 's) log_context) outcome" where
  "log_install_loop vt devRef i 0 st = Done (NkErr_Ok, st)"
| "log_install_loop vt devRef i (Suc n) st =
     (if m_devArray st ! i \<noteq> None then log_install_loop vt devRef (Suc i) n st
      else obind (log_unlock st) (\<lambda>st.
           let (errorCode, st) = ld_OnInstall vt devRef st in
           obind (log_lock st) (\<lambda>st.
             if errorCode \<noteq> NkErr_Ok then Done (errorCode, st)
             else let st = ld_AddRef vt devRef (st\<lparr>m_devArray := (m_devArray st)[i := Some devRef]\<rparr>)
                  in Done (NkErr_Ok, st\<lparr>m_nOfDev := m_nOfDev st + 1\<rparr>))))"

definition NkLogInstallDevice ::
    "('d, 's) log_vt \<Rightarrow> 'd \<Rightarrow> ('d, 's) log_context \<Rightarrow> (NkErrorCode \<times> ('d, 's) log_context) outcome" where
  "NkLogInstallDevice vt devRef st =
     obind (log_lock st) (\<lambda>st.
     obind (if m_nOfDev st \<ge> NK_LOG_NDEV then Done (NkErr_CapLimitExceeded, st)
            else log_install_loop vt devRef 0 NK_LOG_NDEV st) (\<lambda>(errorCode, st).
     obind (log_unlock st) (\<lambda>st. Done (errorCode, st))))"

definition NkLogUninstallDevice ::
    "('d, 's) log_vt \<Rightarrow> 'd \<Rightarrow> ('d, 's) log_context \<Rightarrow> (NkErrorCode \<times> ('d, 's) log_context) outcome" where
  "NkLogUninstallDevice vt devRef st =
     obind (log_lock st) (\<lambda>st.
       case LogFindDevice st devRef of
         None \<Rightarrow> Done (NkErr_ItemNotFound, st)
       | Some devIndex \<Rightarrow>
           obind (log_unlock st) (\<lambda>st.
           let st = snd (ld_OnUninstall vt devRef st);
               st = ld_Release vt devRef st in
           obind (log_lock st) (\<lambda>st.
           let st = st\<lparr>m_devArray := (m_devArray st)[devIndex := None], m_nOfDev := sub64 (m_nOfDev st) 1\<rparr> in
           obind (log_unlock st) (\<lambda>st. Done (NkErr_Ok, st)))))"

subsection \<open>Messages\<close>

text \<open>The loop over the array; \<open>j\<close> counts the devices that were called.\<close>

fun message_loop ::
    "('d, 's) log_vt \<Rightarrow> int \<Rightarrow> NkStringView \<Rightarrow> NkStringView \<Rightarrow> nat \<Rightarrow> nat \<Rightarrow> nat \<Rightarrow> ('d, 's) log_context
     \<Rightarrow> ('d, 's) log_context outcome" where
  "message_loop vt lvlId ts msg i j 0 st = Done st"
| "message_loop vt lvlId ts msg i j (Suc n) st =
     (if \<not> j < m_nOfDev st then Done st
      else case m_devArray st ! i of
        None \<Rightarrow> message_loop vt lvlId ts msg (Suc i) j n st
      | Some currDev \<Rightarrow>
          obind (log_unlock st) (\<lambda>st.
          obind (log_lock (ld_OnMessage vt currDev lvlId ts msg st)) (\<lambda>st.
            message_loop vt lvlId ts msg (Suc i) (Suc j) n st)))"

text \<open>Both views are passed with the size of the message.\<close>

definition NkLogMessage ::
    "('d, 's) log_vt \<Rightarrow> int \<Rightarrow> string \<Rightarrow> string \<Rightarrow> ('d, 's) log_context \<Rightarrow> ('d, 's) log_context outcome" where
  "NkLogMessage vt lvlId full ts st =
     nk_assert (0 \<le> lvlId \<and> lvlId < NkLogLvl_Count) NkErr_InParameter
    (let msgBuf = take (NK_LOG_MSGSIZE - 1) full; msgSize = length full in
     obind (log_lock st) (\<lambda>st.
     obind (NK_INRANGE_INCL lvlId (m_glMinLevel st) (m_glMaxLevel st)) (\<lambda>isEnabled.
     obind (if \<not> isEnabled \<or> m_nOfDev st = 0 then Done st
            else message_loop vt lvlId \<lparr>sv_dataPtr = ts, sv_sizeInBytes = msgSize\<rparr> \<lparr>sv_dataPtr = msgBuf, sv_sizeInBytes = msgSize\<rparr>
                   0 0 NK_LOG_NDEV st) log_unlock)))"

subsection \<open>Start-up and shutdown\<close>

definition LoggingStartup :: "('d, 's) log_vt \<Rightarrow> 'd \<Rightarrow> ('d, 's) log_context \<Rightarrow> (NkErrorCode \<times> ('d, 's) log_context) outcome" where
  "LoggingStartup vt gl_ConoutDevice st = NkLogInstallDevice vt gl_ConoutDevice (st\<lparr>m_mtxLock := False\<rparr>)"

fun shutdown_devs :: "('d, 's) log_vt \<Rightarrow> nat \<Rightarrow> nat \<Rightarrow> nat \<Rightarrow> ('d, 's) log_context \<Rightarrow> ('d, 's) log_context" where
  "shutdown_devs vt i j 0 st = st"
| "shutdown_devs vt i j (Suc n) st =
     (if \<not> j < m_nOfDev st then st
      else case m_devArray st ! i of
        None \<Rightarrow> shutdown_devs vt (Suc i) j n st
      | Some currDev \<Rightarrow>
          shutdown_devs vt (Suc i) (Suc j) n (ld_Release vt currDev (snd (ld_OnUninstall vt currDev st))))"

definition LoggingShutdown :: "('d, 's) log_vt \<Rightarrow> ('d, 's) log_context \<Rightarrow> NkErrorCode \<times> ('d, 's) log_context" where
  "LoggingShutdown vt st = (NkErr_Ok, shutdown_devs vt 0 0 NK_LOG_NDEV st)"

subsection \<open>Lemmas\<close>

text \<open>The devices in the order of their slots.\<close>

definition devs :: "'d option list \<Rightarrow> 'd list" where
  "devs arr = concat (map (case_option [] (\<lambda>d. [d])) arr)"

lemma devs_simps [simp]: "devs [] = []" "devs (None # xs) = devs xs" "devs (Some d # xs) = d # devs xs" "devs (xs @ ys) = devs xs @ devs ys"
  by (simp_all add: devs_def)

lemma devs_replicate_None [simp]: "devs (replicate n None) = []"
  by (induction n) simp_all

lemma length_devs_le: "length (devs arr) \<le> length arr"
  by (induction arr) (auto simp: devs_def split: option.splits)

lemma devs_full: "length arr \<le> length (devs arr) \<longleftrightarrow> None \<notin> set arr"
proof (induction arr)
  case (Cons x xs)
  then show ?case using length_devs_le[of xs] by (cases x) auto
qed simp

text \<open>The first slot with given contents.\<close>

definition first_slot :: "'a \<Rightarrow> 'a list \<Rightarrow> nat" where
  "first_slot x xs = length (takeWhile (\<lambda>y. y \<noteq> x) xs)"

lemma first_slot_eq: "j < length xs \<Longrightarrow> xs ! j = x \<Longrightarrow> \<forall>k < j. xs ! k \<noteq> x \<Longrightarrow> first_slot x xs = j"
  using takeWhile_eq_take_P_nth[of j xs "\<lambda>y. y \<noteq> x"] by (simp add: first_slot_def)

lemma first_slot_in: "x \<in> set xs \<Longrightarrow> first_slot x xs < length xs \<and> xs ! first_slot x xs = x"
  by (induction xs) (auto simp: first_slot_def)

text \<open>The invariant of the context.\<close>

definition log_ok :: "('d, 's) log_context \<Rightarrow> bool" where
  "log_ok st \<longleftrightarrow> length (m_devArray st) = NK_LOG_NDEV \<and> m_nOfDev st = length (devs (m_devArray st))
     \<and> m_glMinLevel st = NkLogLvl_None \<and> m_glMaxLevel st = NkLogLvl_Critical"

text \<open>Devices whose methods leave the context alone.\<close>

definition keeps_context :: "(('d, 's) log_context \<Rightarrow> ('d, 's) log_context) \<Rightarrow> bool" where
  "keeps_context f \<longleftrightarrow> (\<forall>st. \<exists>e. f st = st\<lparr>lg_env := e\<rparr>)"

definition quiet_devices :: "('d, 's) log_vt \<Rightarrow> bool" where
  "quiet_devices vt \<longleftrightarrow> (\<forall>d. keeps_context (ld_AddRef vt d) \<and> keeps_context (ld_Release vt d)
     \<and> keeps_context (\<lambda>st. snd (ld_OnInstall vt d st)) \<and> keeps_context (\<lambda>st. snd (ld_OnUninstall vt d st)))
     \<and> (\<forall>d l ts m. keeps_context (ld_OnMessage vt d l ts m))"

lemma keeps_contextD:
  assumes "keeps_context f"
  shows "m_mtxLock (f st) = m_mtxLock st" "m_nOfDev (f st) = m_nOfDev st" "m_devArray (f st) = m_devArray st"
    "m_glMinLevel (f st) = m_glMinLevel st" "m_glMaxLevel (f st) = m_glMaxLevel st"
  using assms[unfolded keeps_context_def, THEN spec, of st] by auto

lemma quietD:
  assumes "quiet_devices vt"
  shows "keeps_context (ld_AddRef vt d)" "keeps_context (ld_Release vt d)" "keeps_context (\<lambda>st. snd (ld_OnInstall vt d st))"
    "keeps_context (\<lambda>st. snd (ld_OnUninstall vt d st))" "keeps_context (ld_OnMessage vt d l ts m)"
  using assms by (auto simp: quiet_devices_def)

lemmas quiet_simps = keeps_contextD[OF quietD(1)] keeps_contextD[OF quietD(2)] keeps_contextD[OF quietD(3)]
  keeps_contextD[OF quietD(4)] keeps_contextD[OF quietD(5)]

lemma install_loop_free:
  assumes "quiet_devices vt" "m_mtxLock st" "i + n = length (m_devArray st)" "None \<in> set (drop i (m_devArray st))"
  shows "\<exists>ec st' j. log_install_loop vt d i n st = Done (ec, st') \<and> m_mtxLock st' \<and> i \<le> j \<and> j < length (m_devArray st)
    \<and> m_devArray st ! j = None \<and> m_glMinLevel st' = m_glMinLevel st \<and> m_glMaxLevel st' = m_glMaxLevel st
    \<and> (\<forall>k. i \<le> k \<and> k < j \<longrightarrow> m_devArray st ! k \<noteq> None)
    \<and> (if ec = NkErr_Ok then m_devArray st' = (m_devArray st)[j := Some d] \<and> m_nOfDev st' = m_nOfDev st + 1
       else m_devArray st' = m_devArray st \<and> m_nOfDev st' = m_nOfDev st)"
  using assms(3,4)
proof (induction n arbitrary: i)
  case (Suc n)
  have i: "i < length (m_devArray st)" using Suc.prems(1) by simp
  show ?case
  proof (cases "m_devArray st ! i")
    case None
    obtain ec s1 where h: "ld_OnInstall vt d (st\<lparr>m_mtxLock := False\<rparr>) = (ec, s1)" by fastforce
    note q = quiet_simps(11-15)[OF assms(1), of d "st\<lparr>m_mtxLock := False\<rparr>", unfolded h snd_conv]
    show ?thesis
      by (intro exI[of _ ec] exI[of _ i]) (use None i assms(1,2) h q in \<open>auto simp: log_lock_def log_unlock_def Let_def quiet_simps\<close>)
  next
    case (Some x)
    then have "None \<in> set (drop (Suc i) (m_devArray st))" using Suc.prems(2) i by (auto simp: Cons_nth_drop_Suc[symmetric])
    then obtain ec st' j where "log_install_loop vt d (Suc i) n st = Done (ec, st')" "m_mtxLock st'" "Suc i \<le> j" "j < length (m_devArray st)"
      "m_devArray st ! j = None" "m_glMinLevel st' = m_glMinLevel st" "m_glMaxLevel st' = m_glMaxLevel st"
      "\<forall>k. Suc i \<le> k \<and> k < j \<longrightarrow> m_devArray st ! k \<noteq> None"
      "if ec = NkErr_Ok then m_devArray st' = (m_devArray st)[j := Some d] \<and> m_nOfDev st' = m_nOfDev st + 1
       else m_devArray st' = m_devArray st \<and> m_nOfDev st' = m_nOfDev st"
      using Suc.IH[of "Suc i"] Suc.prems(1) by auto
    then show ?thesis using Some by (intro exI[of _ ec] exI[of _ st'] exI[of _ j]) (auto simp: not_less_eq_eq dest: le_SucE Suc_leI le_neq_implies_less)
  qed
qed simp

lemma devs_update:
  assumes "j < length arr" "arr ! j = None"
  shows "length (devs (arr[j := Some d])) = Suc (length (devs arr))"
proof -
  have a: "arr = take j arr @ None # drop (Suc j) arr" using assms by (metis id_take_nth_drop)
  have "arr[j := Some d] = take j arr @ Some d # drop (Suc j) arr" using assms(1) by (rule upd_conv_take_nth_drop)
  then show ?thesis using arg_cong[OF a, of "\<lambda>x. length (devs x)"] by simp
qed

lemma devs_erase:
  assumes "j < length arr" "arr ! j = Some d"
  shows "length (devs (arr[j := None])) = length (devs arr) - 1" "0 < length (devs arr)"
proof -
  have a: "arr = take j arr @ Some d # drop (Suc j) arr" using assms by (metis id_take_nth_drop)
  have "arr[j := None] = take j arr @ None # drop (Suc j) arr" using assms(1) by (rule upd_conv_take_nth_drop)
  then show "length (devs (arr[j := None])) = length (devs arr) - 1" "0 < length (devs arr)"
    using arg_cong[OF a, of "\<lambda>x. length (devs x)"] by simp_all
qed

lemma Install_spec:
  assumes "quiet_devices vt" "log_ok st" "\<not> m_mtxLock st"
  shows "\<exists>ec st'. NkLogInstallDevice vt d st = Done (ec, st') \<and> \<not> m_mtxLock st' \<and> log_ok st'
    \<and> (if None \<notin> set (m_devArray st) then ec = NkErr_CapLimitExceeded \<and> m_devArray st' = m_devArray st
       else if ec = NkErr_Ok
       then m_devArray st' = (m_devArray st)[first_slot None (m_devArray st) := Some d]
       else m_devArray st' = m_devArray st)"
proof (cases "None \<in> set (m_devArray st)")
  case False
  then have "NK_LOG_NDEV \<le> m_nOfDev st" using assms(2) devs_full[of "m_devArray st"] by (simp add: log_ok_def)
  then show ?thesis using False assms(2,3) by (auto simp: NkLogInstallDevice_def log_lock_def log_unlock_def log_ok_def)
next
  case True
  let ?a = "m_devArray st" and ?s = "st\<lparr>m_mtxLock := True\<rparr>"
  have lt: "m_nOfDev st < NK_LOG_NDEV" using assms(2) True devs_full[of ?a] by (simp add: log_ok_def)
  have len: "0 + NK_LOG_NDEV = length (m_devArray ?s)" using assms(2) by (simp add: log_ok_def)
  obtain ec st' j where l: "log_install_loop vt d 0 NK_LOG_NDEV ?s = Done (ec, st')" "m_mtxLock st'" "j < length ?a" "?a ! j = None"
    "m_glMinLevel st' = m_glMinLevel st" "m_glMaxLevel st' = m_glMaxLevel st" "\<forall>k < j. ?a ! k \<noteq> None"
    "if ec = NkErr_Ok then m_devArray st' = ?a[j := Some d] \<and> m_nOfDev st' = m_nOfDev st + 1
     else m_devArray st' = ?a \<and> m_nOfDev st' = m_nOfDev st"
    using install_loop_free[OF assms(1) _ len, of d] True by auto
  have j: "first_slot None ?a = j" using l(3,4,7) by (rule first_slot_eq)
  show ?thesis
    using l lt assms(2,3) True devs_update[OF l(3,4), of d]
    by (intro exI[of _ ec] exI[of _ "st'\<lparr>m_mtxLock := False\<rparr>"])
      (auto simp: NkLogInstallDevice_def log_lock_def log_unlock_def log_ok_def j split: if_splits)
qed

lemma find_device_spec:
  "find_device d i xs = (if Some d \<in> set xs then Some (i + first_slot (Some d) xs) else None)"
  by (induction xs arbitrary: i) (auto simp: first_slot_def)

lemma Uninstall_spec:
  assumes "quiet_devices vt" "log_ok st" "\<not> m_mtxLock st"
  shows "\<exists>ec st'. NkLogUninstallDevice vt d st = Done (ec, st') \<and> log_ok st'
    \<and> (if Some d \<in> set (m_devArray st)
       then ec = NkErr_Ok \<and> \<not> m_mtxLock st' \<and> m_devArray st' = (m_devArray st)[first_slot (Some d) (m_devArray st) := None]
       else ec = NkErr_ItemNotFound \<and> st' = st\<lparr>m_mtxLock := True\<rparr>)"
proof (cases "Some d \<in> set (m_devArray st)")
  case False
  then show ?thesis using assms(2,3) by (auto simp: NkLogUninstallDevice_def log_lock_def LogFindDevice_def find_device_spec log_ok_def)
next
  case True
  let ?a = "m_devArray st" and ?i = "first_slot (Some d) (m_devArray st)"
  have i: "?i < length ?a" "?a ! ?i = Some d"
    using first_slot_in[OF True] by auto
  note e = devs_erase[OF i]
  have "sub64 (m_nOfDev st) 1 = m_nOfDev st - 1"
    using assms(2) e(2) length_devs_le[of ?a] by (intro sub64_ge) (auto simp: log_ok_def NK_LOG_NDEV_def Suc_le_eq)
  then show ?thesis
    using True assms i(1) e
    by (auto simp: NkLogUninstallDevice_def log_lock_def log_unlock_def LogFindDevice_def find_device_spec log_ok_def Let_def quiet_simps)
qed

definition deliver ::
    "('d, 's) log_vt \<Rightarrow> int \<Rightarrow> NkStringView \<Rightarrow> NkStringView \<Rightarrow> 'd list \<Rightarrow> ('d, 's) log_context \<Rightarrow> ('d, 's) log_context" where
  "deliver vt lvl ts msg ds st = foldl (\<lambda>s d. ld_OnMessage vt d lvl ts msg s) st ds"

lemma deliver_simps [simp]:
  "deliver vt lvl ts msg [] st = st" "deliver vt lvl ts msg (d # ds) st = deliver vt lvl ts msg ds (ld_OnMessage vt d lvl ts msg st)"
  by (simp_all add: deliver_def)

lemma message_loop_delivers:
  assumes "quiet_devices vt" "log_ok st" "\<not> m_mtxLock st" "i + n = length (m_devArray st)" "j = length (devs (take i (m_devArray st)))"
  shows "message_loop vt lvl ts msg i j n (st\<lparr>m_mtxLock := True\<rparr>)
    = Done ((deliver vt lvl ts msg (devs (drop i (m_devArray st))) st)\<lparr>m_mtxLock := True\<rparr>)"
  using assms(2-5)
proof (induction n arbitrary: i j st)
  case (Suc n)
  let ?a = "m_devArray st"
  have i: "i < length ?a" using Suc.prems(3) by simp
  have dr: "drop i ?a = ?a ! i # drop (Suc i) ?a" "take (Suc i) ?a = take i ?a @ [?a ! i]"
    using i by (simp_all add: Cons_nth_drop_Suc take_Suc_conv_app_nth)
  have n: "m_nOfDev st = j + length (devs (drop i ?a))"
    using Suc.prems(1,4) devs_simps(4)[of "take i ?a" "drop i ?a"] by (simp add: log_ok_def del: devs_simps(4))
  show ?case
  proof (cases "j < m_nOfDev st")
    case False
    then show ?thesis using n by simp
  next
    case lt: True
    show ?thesis
    proof (cases "?a ! i")
      case None
      then show ?thesis using Suc.IH[OF Suc.prems(1,2), of "Suc i" j] Suc.prems(3,4) lt dr by simp
    next
      case (Some d)
      let ?s = "ld_OnMessage vt d lvl ts msg st"
      have k: "log_ok ?s" "\<not> m_mtxLock ?s" "m_devArray ?s = ?a"
        using Suc.prems(1,2) assms(1) by (simp_all add: log_ok_def quiet_simps)
      have u: "st\<lparr>m_mtxLock := False\<rparr> = st" using Suc.prems(2) by (cases st) simp
      show ?thesis using Suc.IH[OF k(1,2), of "Suc i" "Suc j"] Suc.prems(2-4) lt dr Some k(2,3)
        by (simp add: log_lock_def log_unlock_def u)
    qed
  qed
qed simp

lemma Message_spec:
  assumes "quiet_devices vt" "log_ok st" "\<not> m_mtxLock st" "0 \<le> lvl" "lvl < NkLogLvl_Count"
  shows "NkLogMessage vt lvl full ts st = Done (deliver vt lvl \<lparr>sv_dataPtr = ts, sv_sizeInBytes = length full\<rparr>
    \<lparr>sv_dataPtr = take (NK_LOG_MSGSIZE - 1) full, sv_sizeInBytes = length full\<rparr> (devs (m_devArray st)) st)"
proof -
  have r: "NK_INRANGE_INCL lvl (m_glMinLevel st) (m_glMaxLevel st) = Done True"
  proof -
    have "lvl \<in> {0, 1, 2, 3, 4, 5, 6}" using assms(4,5) by (auto simp: NkLogLvl_Count_def)
    then show ?thesis using assms(2) by (auto simp: NK_INRANGE_INCL_def int32_ok_def log_ok_def)
  qed
  let ?ds = "devs (m_devArray st)"
  have q: "\<not> m_mtxLock (deliver vt lvl a b ds s)" if "\<not> m_mtxLock s" for a b ds s
    using that by (induction ds arbitrary: s) (simp_all add: quiet_simps[OF assms(1)])
  have u: "s\<lparr>m_mtxLock := False\<rparr> = s" if "\<not> m_mtxLock s" for s :: "('a, 'b) log_context" using that by (cases s) simp
  show ?thesis
  proof (cases "m_nOfDev st = 0")
    case True
    then have "?ds = []" using assms(2) by (simp add: log_ok_def)
    then show ?thesis using True r assms(3-5) u[of st] by (simp add: NkLogMessage_def log_lock_def log_unlock_def Let_def)
  next
    case False
    have "0 + NK_LOG_NDEV = length (m_devArray st)" using assms(2) by (simp add: log_ok_def)
    from message_loop_delivers[OF assms(1-3) this, of 0] show ?thesis
      using False r assms(3-5) u[OF q[OF assms(3)]] by (simp add: NkLogMessage_def log_lock_def log_unlock_def Let_def)
  qed
qed

subsection \<open>Reachable states\<close>

text \<open>The states of the log after start-up and any sequence of calls that return.\<close>

inductive log_reachable :: "('d, 's) log_vt \<Rightarrow> 'd \<Rightarrow> ('d, 's) log_context \<Rightarrow> bool" for vt console where
  startup: "LoggingStartup vt console (gl_LogContext env) = Done (ec, st) \<Longrightarrow> log_reachable vt console st"
| install: "log_reachable vt console st \<Longrightarrow> NkLogInstallDevice vt d st = Done (ec, st') \<Longrightarrow> log_reachable vt console st'"
| uninstall: "log_reachable vt console st \<Longrightarrow> NkLogUninstallDevice vt d st = Done (ec, st') \<Longrightarrow> log_reachable vt console st'"
| message: "log_reachable vt console st \<Longrightarrow> NkLogMessage vt lvl full ts st = Done st' \<Longrightarrow> log_reachable vt console st'"

lemma locked_stuck:
  assumes "m_mtxLock st"
  shows "NkLogInstallDevice vt d st = Undef" "NkLogUninstallDevice vt d st = Undef"
    "0 \<le> lvl \<Longrightarrow> lvl < NkLogLvl_Count \<Longrightarrow> NkLogMessage vt lvl full ts st = Undef"
    "NkLogMessage vt lvl full ts st \<noteq> Done st'"
  using assms by (auto simp: NkLogInstallDevice_def NkLogUninstallDevice_def NkLogMessage_def log_lock_def Let_def nk_assert_def)

lemma deliver_keeps_ok: "quiet_devices vt \<Longrightarrow> log_ok st \<Longrightarrow> log_ok (deliver vt lvl ts msg ds st)"
  by (induction ds arbitrary: st) (simp_all add: log_ok_def quiet_simps)

lemma fresh_context: "log_ok (gl_LogContext env)" "\<not> m_mtxLock (gl_LogContext env)" "(gl_LogContext env)\<lparr>m_mtxLock := False\<rparr> = gl_LogContext env"
  by (simp_all add: log_ok_def gl_LogContext_def)

lemma LoggingStartup_eq: "LoggingStartup vt console (gl_LogContext env) = NkLogInstallDevice vt console (gl_LogContext env)"
  unfolding LoggingStartup_def fresh_context(3) by (rule refl)

lemma reachable_ok:
  assumes "quiet_devices vt" "log_reachable vt console st"
  shows "log_ok st"
  using assms(2)
proof (induction rule: log_reachable.induct)
  case (startup env ec st)
  then show ?case using Install_spec[OF assms(1) fresh_context(1,2)[of env], of console] by (auto simp: LoggingStartup_eq)
next
  case (install st d ec st')
  then show ?case using Install_spec[OF assms(1), of st d] locked_stuck(1)[of st vt d] by (cases "m_mtxLock st") auto
next
  case (uninstall st d ec st')
  then show ?case using Uninstall_spec[OF assms(1), of st d] locked_stuck(2)[of st vt d] by (cases "m_mtxLock st") auto
next
  case (message st lvl full ts st')
  have "\<not> m_mtxLock st" using message.hyps(2) locked_stuck(4) by metis
  moreover have "0 \<le> lvl" "lvl < NkLogLvl_Count" using message.hyps(2) by (auto simp: NkLogMessage_def nk_outcome)
  ultimately show ?case using message Message_spec[OF assms(1), of st lvl full ts] deliver_keeps_ok[OF assms(1)] by auto
qed

subsection \<open>Properties\<close>

text \<open>The devices of the witnesses record what they are told.\<close>

definition sample_log_vt :: "(nat, (nat \<times> string) list) log_vt" where
  "sample_log_vt = \<lparr>ld_AddRef = (\<lambda>_ st. st), ld_Release = (\<lambda>_ st. st), ld_OnInstall = (\<lambda>_ st. (NkErr_Ok, st)),
     ld_OnUninstall = (\<lambda>_ st. (NkErr_Ok, st)), ld_OnMessage = (\<lambda>d l ts m st. st\<lparr>lg_env := lg_env st @ [(d, sv_dataPtr m)]\<rparr>)\<rparr>"

lemma sample_quiet [simp]: "quiet_devices sample_log_vt"
proof -
  have "\<And>st :: ('a, 'b) log_context. \<exists>e. st = st\<lparr>lg_env := e\<rparr>" by (metis log_context.surjective log_context.update_convs(6) old.unit.exhaust)
  then show ?thesis by (auto simp: quiet_devices_def keeps_context_def sample_log_vt_def)
qed

lemma sample_startup:
  obtains st where "LoggingStartup sample_log_vt 7 (gl_LogContext []) = Done (NkErr_Ok, st)" "\<not> m_mtxLock st"
    "devs (m_devArray st) = [7]" "lg_env st = []" "Some 8 \<notin> set (m_devArray st)"
proof -
  obtain ec st where i: "NkLogInstallDevice sample_log_vt 7 (gl_LogContext []) = Done (ec, st)" "\<not> m_mtxLock st"
    using Install_spec[OF sample_quiet fresh_context(1,2)[of "[]"], of 7] by blast
  have "ec = NkErr_Ok \<and> devs (m_devArray st) = [7] \<and> lg_env st = [] \<and> Some 8 \<notin> set (m_devArray st)"
    using i(1) by (auto simp: NkLogInstallDevice_def log_lock_def log_unlock_def gl_LogContext_def NK_LOG_NDEV_def sample_log_vt_def
        numeral_eq_Suc Let_def)
  then show thesis using that i by (simp add: LoggingStartup_eq)
qed

text \<open>C28: The log in every reachable state.  With devices that leave the log alone, after start-up and any
  sequence of installations, removals and messages the number of devices is the number of slots in
  use, and whenever the mutex is free a message of a valid level returns, after each installed
  device has been called exactly once, in the order of the slots, with the text cut to the buffer.\<close>

theorem log_reachable_consistent:
  assumes "quiet_devices vt" "log_reachable vt console st" "0 \<le> lvl" "lvl < NkLogLvl_Count" "\<not> m_mtxLock st"
  shows "length (m_devArray st) = NK_LOG_NDEV \<and> m_nOfDev st = length (devs (m_devArray st))
    \<and> NkLogMessage vt lvl full ts st = Done (foldl (\<lambda>s d. ld_OnMessage vt d lvl \<lparr>sv_dataPtr = ts, sv_sizeInBytes = length full\<rparr>
         \<lparr>sv_dataPtr = take (NK_LOG_MSGSIZE - 1) full, sv_sizeInBytes = length full\<rparr> s) st (devs (m_devArray st)))"
  using Message_spec[OF assms(1) reachable_ok[OF assms(1,2)] assms(5,3,4), of full ts] reachable_ok[OF assms(1,2)]
  by (simp add: log_ok_def deliver_def)

theorem log_reachable_consistent_witness:
  "\<exists>st st'. LoggingStartup sample_log_vt 7 (gl_LogContext []) = Done (NkErr_Ok, st)
    \<and> NkLogMessage sample_log_vt 3 ''hello'' ''now'' st = Done st' \<and> lg_env st' = [(7, ''hello'')]"
proof -
  obtain st where st: "LoggingStartup sample_log_vt 7 (gl_LogContext []) = Done (NkErr_Ok, st)" "\<not> m_mtxLock st"
    "devs (m_devArray st) = [7]" "lg_env st = []" "Some 8 \<notin> set (m_devArray st)" by (rule sample_startup)
  show ?thesis
    using log_reachable_consistent[OF sample_quiet log_reachable.startup[OF st(1)], of 3 "''hello''" "''now''"] st
    by (auto simp: NkLogLvl_Count_def) (simp add: sample_log_vt_def NK_LOG_MSGSIZE_def)
qed

text \<open>Removing a device that is not installed.  The call returns \<open>NkErr_ItemNotFound\<close> with the mutex still
  held, so that from then on no call to the log returns.\<close>

theorem log_uninstall_unknown_blocks:
  assumes "quiet_devices vt" "log_reachable vt console st" "\<not> m_mtxLock st" "Some d \<notin> set (m_devArray st)"
    "0 \<le> lvl" "lvl < NkLogLvl_Count"
  shows "\<exists>st'. NkLogUninstallDevice vt d st = Done (NkErr_ItemNotFound, st')
    \<and> NkLogMessage vt lvl full ts st' = Undef \<and> NkLogInstallDevice vt d' st' = Undef \<and> NkLogUninstallDevice vt d' st' = Undef"
proof -
  obtain st' where "NkLogUninstallDevice vt d st = Done (NkErr_ItemNotFound, st')" "m_mtxLock st'"
    using Uninstall_spec[OF assms(1) reachable_ok[OF assms(1,2)] assms(3), of d] assms(4) by auto
  then show ?thesis using locked_stuck[of st'] assms(5,6) by blast
qed

theorem log_uninstall_unknown_blocks_witness:
  "\<exists>st st'. LoggingStartup sample_log_vt 7 (gl_LogContext []) = Done (NkErr_Ok, st)
    \<and> NkLogUninstallDevice sample_log_vt 8 st = Done (NkErr_ItemNotFound, st') \<and> NkLogMessage sample_log_vt 3 ''hello'' ''now'' st' = Undef"
proof -
  obtain st where st: "LoggingStartup sample_log_vt 7 (gl_LogContext []) = Done (NkErr_Ok, st)" "\<not> m_mtxLock st"
    "devs (m_devArray st) = [7]" "lg_env st = []" "Some 8 \<notin> set (m_devArray st)" by (rule sample_startup)
  show ?thesis
    using log_uninstall_unknown_blocks[OF sample_quiet log_reachable.startup[OF st(1)], of 8 3 "''hello''" "''now''"] st
    by (auto simp: NkLogLvl_Count_def)
qed

end
