(* ===== verification/NkPool.thy ===== *)
theory NkPool
  imports NkPrelude "HOL-Library.Word"
begin

unbundle bit_operations_syntax

section \<open>The pool allocator (src/Noriko/alloc.c)\<close>

text \<open>
  A pool is one block of heap memory: the block headers, padding up to the block alignment, then
  the blocks.  The header section is the list of its headers; an access behind its end is treated
  as undefined.  Addresses are natural numbers.  The heap's answer to a request is the argument
  \<open>gp\<close>: the address of the new block, or None for NULL.  Heap memory that is given back is
  returned as a list of addresses.  The lock is a no-op in a single thread and log output is left
  out.
\<close>

abbreviation NkIntAllocTy_Single :: "32 word" where "NkIntAllocTy_Single \<equiv> 1"
abbreviation NkIntAllocTy_StartOfMulti :: "32 word" where "NkIntAllocTy_StartOfMulti \<equiv> 2"
abbreviation NkIntAllocTy_PartOfMulti :: "32 word" where "NkIntAllocTy_PartOfMulti \<equiv> 4"

record block_head =
  m_blockFlags :: "32 word"
  m_nMultiBlock :: nat

record mem_pool =
  pl_blockSize :: nat
  pl_blockCount :: nat
  pl_nAllocBlocks :: nat
  pl_fFreeInd :: nat
  pl_blockPtr :: nat
  pl_heads :: "block_head list"

record pool_context =
  m_nAllocPools :: nat
  m_firstFreePool :: nat
  m_memPools :: "mem_pool list"

abbreviation gl_MaxPools :: nat where "gl_MaxPools \<equiv> 8192"
abbreviation gl_BlockAlign :: nat where "gl_BlockAlign \<equiv> 16"
abbreviation gl_DefBlockCount :: nat where "gl_DefBlockCount \<equiv> 128"
abbreviation gl_PageSize :: nat where "gl_PageSize \<equiv> 4096"
abbreviation sizeof_block_head :: nat where "sizeof_block_head \<equiv> 8"

definition free_head :: block_head where
  "free_head = \<lparr>m_blockFlags = 0, m_nMultiBlock = 0\<rparr>"

definition empty_pool :: mem_pool where
  "empty_pool = \<lparr>pl_blockSize = 0, pl_blockCount = 0, pl_nAllocBlocks = 0, pl_fFreeInd = 0,
     pl_blockPtr = 0, pl_heads = []\<rparr>"

subsection \<open>Sizes\<close>

definition CalcPoolHeadSize :: "nat \<Rightarrow> nat \<Rightarrow> nat" where
  "CalcPoolHeadSize blockCount blAlign =
     (let poolHeadSize = wrap32 (0 + blockCount * sizeof_block_head)
      in wrap32 (poolHeadSize + poolHeadSize mod blAlign))"

definition CalcPoolSize :: "nat \<Rightarrow> nat \<Rightarrow> nat \<Rightarrow> nat" where
  "CalcPoolSize blockCount blockSize blAlign =
     wrap32 (wrap32 (0 + CalcPoolHeadSize blockCount blAlign) + wrap32 (blockSize * blockCount))"

text \<open>The new block count and pool size.\<close>

definition AdjustPoolMetrics :: "nat \<Rightarrow> nat \<Rightarrow> nat \<times> nat" where
  "AdjustPoolMetrics blockSize poolSize =
     (let poolSize = wrap32 (poolSize + (if poolSize mod gl_PageSize \<noteq> 0 then gl_PageSize - poolSize mod gl_PageSize else 0))
      in (poolSize div (blockSize + sizeof_block_head), poolSize))"

subsection \<open>New pools\<close>

text \<open>The first index from \<open>i\<close> on whose pool is not in use.\<close>

fun next_free_pool :: "mem_pool list \<Rightarrow> nat \<Rightarrow> nat option" where
  "next_free_pool [] i = None"
| "next_free_pool (p # ps) i = (if pl_blockSize p = 0 then Some i else next_free_pool ps (Suc i))"

definition RequestNewPool ::
    "(nat \<Rightarrow> nat option) \<Rightarrow> pool_context \<Rightarrow> nat \<Rightarrow> nat \<Rightarrow> (NkErrorCode \<times> nat option \<times> pool_context) outcome" where
  "RequestNewPool gp cx blockCount blockSize =
     (if m_firstFreePool cx = UINT32_MAX then Done (NkErr_MemoryAllocation, None, cx)
      else let (blockCount', poolSize) = AdjustPoolMetrics blockSize (CalcPoolSize blockCount blockSize gl_BlockAlign)
      in nk_assert (poolSize \<noteq> 0) NkErr_InParameter
        (case gp poolSize of
           None \<Rightarrow> Done (NkErr_MemoryAllocation, None, cx)
         | Some blockPtr \<Rightarrow>
             if length (m_memPools cx) \<le> m_firstFreePool cx then Undef
             else let pi = m_firstFreePool cx;
                      pools = (m_memPools cx)[pi := \<lparr>pl_blockSize = blockSize, pl_blockCount = blockCount',
                         pl_nAllocBlocks = 0, pl_fFreeInd = 0, pl_blockPtr = blockPtr,
                         pl_heads = replicate blockCount' free_head\<rparr>];
                      nPools = wrap32 (m_nAllocPools cx + 1);
                      ff = (if nPools = gl_MaxPools then UINT32_MAX
                            else case next_free_pool (drop pi pools) pi of Some i \<Rightarrow> i | None \<Rightarrow> m_firstFreePool cx)
                  in Done (NkErr_Ok, Some pi,
                       \<lparr>m_nAllocPools = nPools, m_firstFreePool = ff, m_memPools = pools\<rparr>)))"

subsection \<open>Locating blocks\<close>

definition IsInsidePool :: "nat \<Rightarrow> mem_pool \<Rightarrow> bool" where
  "IsInsidePool memPtr p \<longleftrightarrow> memPtr \<ge> pl_blockPtr p
     \<and> memPtr - pl_blockPtr p < CalcPoolSize (pl_blockCount p) (pl_blockSize p) gl_BlockAlign"

text \<open>None is the result \<open>UINT32_MAX\<close>; the second number is the count of pools still to visit.\<close>

fun locate_loop :: "nat \<Rightarrow> mem_pool list \<Rightarrow> nat \<Rightarrow> nat \<Rightarrow> nat option" where
  "locate_loop memPtr [] i n = None"
| "locate_loop memPtr (p # ps) i 0 = None"
| "locate_loop memPtr (p # ps) i (Suc n) =
     (if pl_blockSize p = 0 then locate_loop memPtr ps (Suc i) (Suc n)
      else if IsInsidePool memPtr p then Some i
      else locate_loop memPtr ps (Suc i) n)"

definition LocateBlock :: "pool_context \<Rightarrow> nat \<Rightarrow> nat option" where
  "LocateBlock cx memPtr = locate_loop memPtr (m_memPools cx) 0 (m_nAllocPools cx)"

fun head_start :: "block_head list \<Rightarrow> nat \<Rightarrow> nat" where
  "head_start hs 0 = 0"
| "head_start hs (Suc i) =
     (if m_blockFlags (hs ! Suc i) AND NkIntAllocTy_PartOfMulti \<noteq> 0
      then if m_blockFlags (hs ! Suc i) AND NkIntAllocTy_StartOfMulti \<noteq> 0 then Suc i else head_start hs i
      else Suc i)"

text \<open>An address in front of the first block gives a negative offset, which the division truncates
  towards zero.\<close>

definition GetHeaderForBlock :: "pool_context \<Rightarrow> nat \<Rightarrow> (nat \<times> nat) option outcome" where
  "GetHeaderForBlock cx memPtr =
     (case LocateBlock cx memPtr of
        None \<Rightarrow> Done None
      | Some poolInd \<Rightarrow>
          let p = m_memPools cx ! poolInd;
              blStart = pl_blockPtr p + CalcPoolHeadSize (pl_blockCount p) gl_BlockAlign;
              blIndex = (if blStart \<le> memPtr then Some ((memPtr - blStart) div pl_blockSize p)
                         else if (blStart - memPtr) div pl_blockSize p = 0 then Some 0 else None)
          in case blIndex of
               None \<Rightarrow> Undef
             | Some i \<Rightarrow> if length (pl_heads p) \<le> i then Undef
                         else Done (Some (poolInd, head_start (pl_heads p) i)))"

subsection \<open>Searching a pool\<close>

text \<open>The first block in use among the \<open>n\<close> blocks from \<open>k\<close> on.\<close>

fun scan_range :: "block_head list \<Rightarrow> nat \<Rightarrow> nat \<Rightarrow> nat option outcome" where
  "scan_range hs k 0 = Done None"
| "scan_range hs k (Suc n) =
     obind (mem_read hs k) (\<lambda>h. if m_blockFlags h \<noteq> 0 then Done (Some k) else scan_range hs (Suc k) n)"

text \<open>The loop at \<open>lbl_FINDNEXT\<close>: it tests the header of block \<open>k\<close> in every turn.\<close>

function find_next :: "block_head list \<Rightarrow> nat \<Rightarrow> nat \<Rightarrow> nat \<Rightarrow> nat" where
  "find_next hs k cnt startIndex =
     (if startIndex < cnt \<and> m_blockFlags (hs ! k) \<noteq> 0 then find_next hs k cnt (Suc startIndex) else startIndex)"
  by auto
termination by (relation "measure (\<lambda>(hs, k, cnt, s). cnt - s)") auto

declare find_next.simps [simp del]

partial_function (option) find_block :: "mem_pool \<Rightarrow> nat \<Rightarrow> nat \<Rightarrow> nat outcome option" where
  "find_block p blockCount startIndex =
     (if sub32 (pl_blockCount p) startIndex < blockCount then Some (Done UINT32_MAX)
      else lbind (Some (scan_range (pl_heads p) startIndex blockCount)) (\<lambda>r.
        if r = None then Some (Done startIndex)
        else find_block p blockCount (find_next (pl_heads p) (the r) (pl_blockCount p) (the r))))"

definition FindRangeInPool :: "mem_pool \<Rightarrow> nat \<Rightarrow> nat outcome" where
  "FindRangeInPool p blockCount =
     (if pl_fFreeInd p = UINT32_MAX then Done UINT32_MAX else of_loop (find_block p blockCount (pl_fFreeInd p)))"

subsection \<open>Allocation\<close>

text \<open>The search for a pool of the block size with a free range: pool index and block index.\<close>

fun find_pool :: "nat \<Rightarrow> nat \<Rightarrow> mem_pool list \<Rightarrow> nat \<Rightarrow> nat \<Rightarrow> (nat \<times> nat) option outcome" where
  "find_pool blockSize blockCount [] i n = Done None"
| "find_pool blockSize blockCount (p # ps) i 0 = Done None"
| "find_pool blockSize blockCount (p # ps) i (Suc n) =
     (if pl_blockSize p = 0 then find_pool blockSize blockCount ps (Suc i) (Suc n)
      else if pl_blockSize p = blockSize
      then obind (FindRangeInPool p blockCount) (\<lambda>b.
             if b \<noteq> UINT32_MAX then Done (Some (i, b)) else find_pool blockSize blockCount ps (Suc i) n)
      else find_pool blockSize blockCount ps (Suc i) n)"

definition or_flags :: "block_head \<Rightarrow> 32 word \<Rightarrow> block_head" where
  "or_flags h f = h\<lparr>m_blockFlags := m_blockFlags h OR f\<rparr>"

definition mark_blocks :: "block_head list \<Rightarrow> nat \<Rightarrow> nat \<Rightarrow> block_head list outcome" where
  "mark_blocks hs blockIndex blockCount =
     (if length hs < blockIndex + blockCount then Undef
      else let h = or_flags (hs ! blockIndex) (if blockCount \<noteq> 1 then NkIntAllocTy_StartOfMulti else NkIntAllocTy_Single)
           in if blockCount > 1
              then Done (take blockIndex hs
                @ map (\<lambda>x. or_flags x NkIntAllocTy_PartOfMulti)
                    (take blockCount (drop blockIndex (hs[blockIndex := h\<lparr>m_nMultiBlock := blockCount\<rparr>])))
                @ drop (blockIndex + blockCount) hs)
              else Done (hs[blockIndex := h]))"

fun first_free :: "block_head list \<Rightarrow> nat \<Rightarrow> nat" where
  "first_free [] i = UINT32_MAX"
| "first_free (h # hs) i = (if m_blockFlags h = 0 then i else first_free hs (Suc i))"

definition block_addr :: "mem_pool \<Rightarrow> nat \<Rightarrow> nat" where
  "block_addr p i = pl_blockPtr p + sizeof_block_head * pl_blockCount p
     + (pl_blockCount p * sizeof_block_head) mod gl_BlockAlign + pl_blockSize p * i"

definition alloc_in_pool :: "mem_pool \<Rightarrow> nat \<Rightarrow> nat \<Rightarrow> (mem_pool \<times> nat) outcome" where
  "alloc_in_pool p blockIndex blockCount =
     obind (mark_blocks (pl_heads p) blockIndex blockCount) (\<lambda>hs.
       let p1 = p\<lparr>pl_heads := hs, pl_nAllocBlocks := wrap32 (pl_nAllocBlocks p + blockCount)\<rparr>;
           p2 = (if blockIndex = pl_fFreeInd p1
                 then p1\<lparr>pl_fFreeInd := first_free (drop (pl_fFreeInd p1) (take (pl_blockCount p1) hs)) (pl_fFreeInd p1)\<rparr>
                 else p1)
       in Done (p2, block_addr p2 blockIndex))"

definition NkPoolAlloc ::
    "(nat \<Rightarrow> nat option) \<Rightarrow> pool_context \<Rightarrow> nat \<Rightarrow> nat \<Rightarrow> (NkErrorCode \<times> nat option \<times> pool_context) outcome" where
  "NkPoolAlloc gp cx blockSize blockCount =
     nk_assert (blockSize \<noteq> 0 \<and> blockSize mod 8 = 0) NkErr_InParameter
    (nk_assert (blockCount \<noteq> 0) NkErr_InParameter
    (obind (find_pool blockSize blockCount (m_memPools cx) 0 (m_nAllocPools cx)) (\<lambda>r.
       obind (case r of
           Some (pi, bi) \<Rightarrow> Done (NkErr_Ok, Some (pi, bi), cx)
         | None \<Rightarrow> obind (RequestNewPool gp cx gl_DefBlockCount blockSize) (\<lambda>(ec, pi, cx1).
                     Done (ec, map_option (\<lambda>i. (i, 0)) pi, cx1))) (\<lambda>(ec, w, cx1).
         case w of
           None \<Rightarrow> Done (ec, None, cx1)
         | Some (pi, bi) \<Rightarrow>
             obind (alloc_in_pool (m_memPools cx1 ! pi) bi blockCount) (\<lambda>(p, addr).
               Done (NkErr_Ok, Some addr, cx1\<lparr>m_memPools := (m_memPools cx1)[pi := p]\<rparr>))))))"

definition NkPoolReserve ::
    "(nat \<Rightarrow> nat option) \<Rightarrow> pool_context \<Rightarrow> nat \<Rightarrow> nat \<Rightarrow> (NkErrorCode \<times> pool_context) outcome" where
  "NkPoolReserve gp cx blockSize blockCount =
     nk_assert (blockSize \<noteq> 0) NkErr_InParameter
    (nk_assert (blockCount \<noteq> 0) NkErr_InParameter
    (obind (RequestNewPool gp cx blockCount blockSize) (\<lambda>(ec, _, cx1). Done (ec, cx1))))"

subsection \<open>Deallocation and queries\<close>

definition free_blocks :: "block_head list \<Rightarrow> nat \<Rightarrow> nat \<Rightarrow> block_head list outcome" where
  "free_blocks hs i n =
     (if n = 0 then Done hs else if length hs < i + n then Undef
      else Done (take i hs @ replicate n free_head @ drop (i + n) hs))"

text \<open>The value \<open>m_firstFreePool\<close> gets when a pool becomes empty: the loop has no \<open>break\<close>, so
  every free pool from \<open>poolIndex\<close> on overwrites it.\<close>

fun last_free_pool :: "mem_pool list \<Rightarrow> nat \<Rightarrow> nat \<Rightarrow> nat" where
  "last_free_pool [] i ff = ff"
| "last_free_pool (p # ps) i ff = last_free_pool ps (Suc i) (if pl_blockSize p = 0 then i else ff)"

definition NkPoolFree :: "pool_context \<Rightarrow> nat option \<Rightarrow> (nat list \<times> pool_context) outcome" where
  "NkPoolFree cx memPtr =
     (case memPtr of None \<Rightarrow> Done ([], cx)
      | Some addr \<Rightarrow> obind (GetHeaderForBlock cx addr) (\<lambda>r.
          case r of None \<Rightarrow> Done ([], cx)
          | Some (pi, bi) \<Rightarrow>
              let p = m_memPools cx ! pi; h = pl_heads p ! bi;
                  blockCount = (if m_blockFlags h AND NkIntAllocTy_Single \<noteq> 0 then 1 else m_nMultiBlock h)
              in obind (free_blocks (pl_heads p) bi blockCount) (\<lambda>hs.
                   let nAlloc = sub32 (pl_nAllocBlocks p) blockCount in
                   if nAlloc > 0
                   then Done ([], cx\<lparr>m_memPools := (m_memPools cx)[pi :=
                          p\<lparr>pl_heads := hs, pl_nAllocBlocks := nAlloc,
                            pl_fFreeInd := (if pl_fFreeInd p > bi then bi else pl_fFreeInd p)\<rparr>]\<rparr>)
                   else Done ([pl_blockPtr p],
                          \<lparr>m_nAllocPools = sub32 (m_nAllocPools cx) 1,
                           m_firstFreePool = last_free_pool (drop pi (m_memPools cx)) pi (m_firstFreePool cx),
                           m_memPools = (m_memPools cx)[pi := empty_pool]\<rparr>))))"

definition NkPoolGetBlockSize :: "pool_context \<Rightarrow> nat \<Rightarrow> nat" where
  "NkPoolGetBlockSize cx memPtr =
     (case LocateBlock cx memPtr of None \<Rightarrow> 0 | Some pi \<Rightarrow> pl_blockSize (m_memPools cx ! pi))"

definition NkPoolGetAllocSize :: "pool_context \<Rightarrow> nat \<Rightarrow> nat outcome" where
  "NkPoolGetAllocSize cx memPtr =
     obind (GetHeaderForBlock cx memPtr) (\<lambda>r.
       case r of None \<Rightarrow> Done 0
       | Some (pi, bi) \<Rightarrow>
           let p = m_memPools cx ! pi; h = pl_heads p ! bi
           in Done (wrap32 (pl_blockSize p
                * (if m_blockFlags h AND NkIntAllocTy_Single \<noteq> 0 then 1 else m_nMultiBlock h))))"

fun shutdown_loop :: "mem_pool list \<Rightarrow> nat \<Rightarrow> nat list" where
  "shutdown_loop [] n = []"
| "shutdown_loop (p # ps) 0 = []"
| "shutdown_loop (p # ps) (Suc n) =
     (if pl_blockSize p = 0 then shutdown_loop ps (Suc n) else pl_blockPtr p # shutdown_loop ps n)"

definition AllocatorsShutdown :: "pool_context \<Rightarrow> NkErrorCode \<times> nat list" where
  "AllocatorsShutdown cx = (NkErr_Ok, shutdown_loop (m_memPools cx) (m_nAllocPools cx))"

subsection \<open>Sizes of a pool\<close>

text \<open>The padding of the comment in \<open>__NkInt_PoolAllocAdjustPoolMetrics\<close>: the block count computed
  from the rounded pool size leaves room for it.\<close>

lemma head_padding: "n * 8 mod 16 = (if even n then 0 else 8 :: nat)"
  by (cases "even n") (auto elim!: evenE oddE simp: algebra_simps)

lemma CalcPoolHeadSize_eq:
  assumes "8 * n + 8 \<le> UINT32_MAX"
  shows "CalcPoolHeadSize n 16 = 8 * n + n * 8 mod 16"
  using assms by (simp add: CalcPoolHeadSize_def Let_def wrap32_small mult.commute head_padding)

lemma CalcPoolSize_eq:
  assumes "n * (b + 8) + 8 \<le> UINT32_MAX"
  shows "CalcPoolSize n b 16 = n * (b + 8) + n * 8 mod 16"
proof -
  have "8 * n + 8 \<le> UINT32_MAX" "b * n \<le> UINT32_MAX"
    using assms by (simp_all add: algebra_simps)
  then show ?thesis
    using assms CalcPoolHeadSize_eq[of n] by (simp add: CalcPoolSize_def wrap32_small algebra_simps head_padding)
qed

lemma exact_fill_even:
  fixes n n0 c :: nat
  assumes P: "n * c = 4096 * m" and lo: "n0 * c + (if even n0 then 0 else 8) \<le> 4096 * m"
    and hi: "4096 * m < n0 * c + (if even n0 then 0 else 8) + 4096" and c: "0 < c"
  shows "even n"
proof (rule ccontr)
  assume odd: "odd n"
  have "coprime n (2 ^ 12)" unfolding coprime_power_right_iff using odd by simp
  moreover have "2 ^ 12 dvd n * c" using P by simp
  ultimately have "2 ^ 12 dvd c" by (metis coprime_commute coprime_dvd_mult_right_iff)
  then obtain k where k: "c = 4096 * k" by auto
  have k0: "0 < k" using c k by simp
  have m: "m = n * k" using P k by simp
  show False
  proof (cases "even n0")
    case True
    then have "n0 * k \<le> n * k" "n * k < n0 * k + 1" using lo hi k m by auto
    then have "n * k = n0 * k" by linarith
    then have "n = n0" using k0 by simp
    then show False using True odd by simp
  next
    case False
    have "4096 * (n0 * k) + 8 \<le> 4096 * (n * k)" "4096 * (n * k) < 4096 * (n0 * k) + 8 + 4096"
      using lo hi k m False by (simp_all add: algebra_simps)
    then have "n0 * k < n * k" "n * k < n0 * k + 2" by linarith+
    then have "n * k = n0 * k + 1" by linarith
    then have "k dvd 1" by (metis dvd_add_right_iff dvd_triv_right)
    then have "k = 1" by simp
    then have "n = n0 + 1" using \<open>n * k = n0 * k + 1\<close> by simp
    then show False using False odd by simp
  qed
qed

lemma metrics_fit:
  fixes b n0 :: nat
  assumes "0 < b" "b mod 8 = 0" "0 < n0" "n0 * (b + 8) + 5000 \<le> UINT32_MAX"
    and nP: "AdjustPoolMetrics b (CalcPoolSize n0 b 16) = (n, P)"
  shows "n0 \<le> n" "CalcPoolSize n b 16 \<le> P" "n * (b + 8) + n * 8 mod 16 \<le> P" "P mod 4096 = 0" "P \<le> UINT32_MAX" "0 < P"
proof -
  define S where "S = n0 * (b + 8) + (if even n0 then 0 else 8 :: nat)"
  have S: "CalcPoolSize n0 b 16 = S" using CalcPoolSize_eq[of n0 b] assms(4) by (simp add: S_def head_padding)
  have Sb: "S + 4992 \<le> UINT32_MAX" "0 < S" using assms by (auto simp: S_def)
  define R where "R = S + (if S mod 4096 \<noteq> 0 then 4096 - S mod 4096 else 0)"
  have R: "S \<le> R" "R < S + 4096" "R mod 4096 = 0" 
  proof -
    define q r where "q = S div 4096" and "r = S mod 4096"
    have S': "S = 4096 * q + r" "r < 4096" by (simp_all add: q_def r_def)
    show "S \<le> R" "R < S + 4096" using S'(2) by (auto simp: R_def r_def[symmetric])
    have "R = 4096 * (if r = 0 then q else q + 1)" using S' by (auto simp: R_def r_def[symmetric])
    then show "R mod 4096 = 0" by simp
  qed
  have eqs: "P = R" "n = R div (b + 8)"
    using nP S Sb by (auto simp: AdjustPoolMetrics_def Let_def wrap32_small R_def split: if_splits)
  obtain m where m: "R = 4096 * m" using R(3) by auto
  show "P mod 4096 = 0" "P \<le> UINT32_MAX" "0 < P" using eqs R Sb by auto
  have "n0 * (b + 8) \<le> R" using R(1) by (simp add: S_def)
  then show "n0 \<le> n" unfolding eqs(2) by (simp add: less_eq_div_iff_mult_less_eq)
  have le: "n * (b + 8) \<le> R" unfolding eqs(2) by simp
  show fit: "n * (b + 8) + n * 8 mod 16 \<le> P"
  proof (cases "n * (b + 8) = R")
    case True
    then have "even n"
      using exact_fill_even[of n "b + 8" m n0] m R(1,2) by (simp add: S_def)
    then show ?thesis using le eqs(1) by (simp add: head_padding)
  next
    case False
    have "8 dvd R" using m by simp
    moreover have "8 dvd n * (b + 8)" using assms(2) by auto
    ultimately have "8 dvd R - n * (b + 8)" by (rule dvd_diff_nat)
    moreover have "0 < R - n * (b + 8)" using False le by simp
    ultimately have "8 \<le> R - n * (b + 8)" by (rule dvd_imp_le)
    then have "n * (b + 8) + 8 \<le> R" using le by linarith
    then show ?thesis using eqs(1) by (simp add: head_padding)
  qed
  have "n * (b + 8) + 8 \<le> UINT32_MAX" using le R(2) Sb(1) by linarith
  then show "CalcPoolSize n b 16 \<le> P" using fit CalcPoolSize_eq[of n b] by simp
qed

subsection \<open>Searching\<close>

lemma first_free_bounds:
  "first_free hs i = UINT32_MAX \<and> (\<forall>h \<in> set hs. m_blockFlags h \<noteq> 0)
   \<or> (\<exists>k < length hs. first_free hs i = i + k \<and> m_blockFlags (hs ! k) = 0 \<and> (\<forall>j < k. m_blockFlags (hs ! j) \<noteq> 0))"
proof (induction hs arbitrary: i)
  case (Cons h hs)
  show ?case
  proof (cases "m_blockFlags h = 0")
    case True
    then show ?thesis by (intro disjI2 exI[of _ 0]) simp
  next
    case False
    from Cons[of "Suc i"] show ?thesis
    proof (elim disjE exE conjE)
      fix k assume k: "k < length hs" "first_free hs (Suc i) = Suc i + k" "m_blockFlags (hs ! k) = 0"
        "\<forall>j < k. m_blockFlags (hs ! j) \<noteq> 0"
      then have "\<forall>j < Suc k. m_blockFlags ((h # hs) ! j) \<noteq> 0" using False by (auto simp: nth_Cons split: nat.splits)
      then show ?thesis using k False by (intro disjI2 exI[of _ "Suc k"]) simp
    qed (use False in auto)
  qed
qed simp

lemma scan_range_spec:
  "k + n \<le> length hs \<Longrightarrow> \<exists>r. scan_range hs k n = Done r
     \<and> (case r of None \<Rightarrow> \<forall>j. k \<le> j \<and> j < k + n \<longrightarrow> m_blockFlags (hs ! j) = 0
        | Some j \<Rightarrow> k \<le> j \<and> j < k + n \<and> m_blockFlags (hs ! j) \<noteq> 0)"
proof (induction n arbitrary: k)
  case (Suc n)
  show ?case
  proof (cases "m_blockFlags (hs ! k) = 0")
    case True
    from Suc.IH[of "Suc k"] Suc.prems obtain r where r: "scan_range hs (Suc k) n = Done r"
      "case r of None \<Rightarrow> \<forall>j. Suc k \<le> j \<and> j < Suc k + n \<longrightarrow> m_blockFlags (hs ! j) = 0
        | Some j \<Rightarrow> Suc k \<le> j \<and> j < Suc k + n \<and> m_blockFlags (hs ! j) \<noteq> 0" by auto
    moreover have "k \<le> j \<longleftrightarrow> j = k \<or> Suc k \<le> j" for j by linarith
    ultimately show ?thesis using True Suc.prems by (cases r) auto
  next
    case False
    then show ?thesis using Suc.prems by auto
  qed
qed auto

lemma find_next_stuck: "m_blockFlags (hs ! k) \<noteq> 0 \<Longrightarrow> s \<le> cnt \<Longrightarrow> find_next hs k cnt s = cnt"
proof (induction hs k cnt s rule: find_next.induct)
  case (1 hs k cnt s)
  then show ?case by (subst find_next.simps) auto
qed

subsection \<open>The invariant of a pool\<close>

text \<open>The first free index is exact, the counter counts the blocks in use, free blocks have a
  cleared header, and the sizes do not wrap.\<close>

definition in_use :: "block_head \<Rightarrow> bool" where
  "in_use h \<longleftrightarrow> m_blockFlags h \<noteq> 0"

definition pool_wf :: "mem_pool \<Rightarrow> bool" where
  "pool_wf p \<longleftrightarrow> 0 < pl_blockSize p \<and> 0 < pl_blockCount p \<and> length (pl_heads p) = pl_blockCount p
     \<and> pl_blockCount p * (pl_blockSize p + 8) + 8 \<le> UINT32_MAX
     \<and> pl_fFreeInd p = first_free (pl_heads p) 0
     \<and> pl_nAllocBlocks p = length (filter in_use (pl_heads p))
     \<and> list_all (\<lambda>h. in_use h \<or> h = free_head) (pl_heads p)"

lemma pool_wf_count:
  assumes "pool_wf p"
  shows "length (pl_heads p) = pl_blockCount p" "8 * pl_blockCount p + 8 \<le> UINT32_MAX" "pl_blockCount p < UINT32_MAX"
    "pl_nAllocBlocks p \<le> pl_blockCount p"
proof -
  have w: "length (pl_heads p) = pl_blockCount p" "pl_blockCount p * (pl_blockSize p + 8) + 8 \<le> UINT32_MAX"
    "pl_nAllocBlocks p = length (filter in_use (pl_heads p))" using assms by (simp_all add: pool_wf_def)
  show "length (pl_heads p) = pl_blockCount p" by (rule w)
  show le: "8 * pl_blockCount p + 8 \<le> UINT32_MAX" using w(2) by (simp add: algebra_simps)
  show "pl_blockCount p < UINT32_MAX" using le by linarith
  show "pl_nAllocBlocks p \<le> pl_blockCount p" using w(1,3) length_filter_le[of in_use "pl_heads p"] by simp
qed

lemma pool_wf_ff:
  assumes "pool_wf p"
  obtains "pl_fFreeInd p = UINT32_MAX" "\<forall>h \<in> set (pl_heads p). in_use h"
  | "pl_fFreeInd p < pl_blockCount p" "\<not> in_use (pl_heads p ! pl_fFreeInd p)" "\<forall>j < pl_fFreeInd p. in_use (pl_heads p ! j)"
  using assms first_free_bounds[of "pl_heads p" 0] by (auto simp: pool_wf_def in_use_def)

definition range_free :: "mem_pool \<Rightarrow> nat \<Rightarrow> nat \<Rightarrow> bool" where
  "range_free p b n \<longleftrightarrow> b + n \<le> pl_blockCount p \<and> (\<forall>j. b \<le> j \<and> j < b + n \<longrightarrow> \<not> in_use (pl_heads p ! j))"

text \<open>The search gives the range at the first free block if that range is free, and nothing else.\<close>

lemma FindRangeInPool_spec:
  assumes wf: "pool_wf p" and n: "0 < n"
  shows "FindRangeInPool p n = Done (if pl_fFreeInd p \<noteq> UINT32_MAX \<and> range_free p (pl_fFreeInd p) n
     then pl_fFreeInd p else UINT32_MAX)"
proof (cases "pl_fFreeInd p = UINT32_MAX")
  case False
  let ?s = "pl_fFreeInd p" and ?c = "pl_blockCount p"
  have s: "?s < ?c" using pool_wf_ff[OF wf] False by metis
  have c: "?c \<le> UINT32_MAX" "length (pl_heads p) = ?c" using pool_wf_count[OF wf] by auto
  have sub: "sub32 ?c ?s = ?c - ?s" "sub32 ?c ?c = 0" using s c by (simp_all add: sub32_ge)
  have stop: "find_block p n ?c = Some (Done UINT32_MAX)" using n sub(2) by (subst find_block.simps) simp
  have "find_block p n ?s = Some (Done (if range_free p ?s n then ?s else UINT32_MAX))"
  proof (cases "?s + n \<le> ?c")
    case True
    then obtain r where r: "scan_range (pl_heads p) ?s n = Done r"
      "case r of None \<Rightarrow> \<forall>j. ?s \<le> j \<and> j < ?s + n \<longrightarrow> m_blockFlags (pl_heads p ! j) = 0
        | Some j \<Rightarrow> ?s \<le> j \<and> j < ?s + n \<and> m_blockFlags (pl_heads p ! j) \<noteq> 0"
      using scan_range_spec[of ?s n "pl_heads p"] c by auto
    show ?thesis
    proof (cases r)
      case None
      then show ?thesis using r True sub(1) by (subst find_block.simps) (auto simp: range_free_def in_use_def)
    next
      case (Some k)
      then have "find_next (pl_heads p) k ?c k = ?c" using r True by (intro find_next_stuck) auto
      then show ?thesis using r True sub(1) Some stop
        by (subst find_block.simps) (auto simp: range_free_def in_use_def)
    qed
  next
    case False
    then have "?c - ?s < n" using s by linarith
    then show ?thesis using False sub(1) by (subst find_block.simps) (simp add: range_free_def)
  qed
  then show ?thesis using False by (simp add: FindRangeInPool_def)
qed (simp add: FindRangeInPool_def)

subsection \<open>Allocation in a pool\<close>

lemma or_flags_used: "f \<noteq> 0 \<Longrightarrow> in_use (or_flags h f)"
  by (auto simp: in_use_def or_flags_def or_eq_0_iff)

text \<open>The headers after an allocation of \<open>n\<close> free blocks at \<open>b\<close>.\<close>

definition alloc_heads :: "nat \<Rightarrow> block_head list" where
  "alloc_heads n = (if n = 1 then [\<lparr>m_blockFlags = 1, m_nMultiBlock = 0\<rparr>]
     else \<lparr>m_blockFlags = 6, m_nMultiBlock = n\<rparr> # replicate (n - 1) \<lparr>m_blockFlags = 4, m_nMultiBlock = 0\<rparr>)"

lemma mark_blocks_free:
  assumes "b + n \<le> length hs" "0 < n" "take n (drop b hs) = replicate n free_head"
  shows "mark_blocks hs b n = Done (take b hs @ alloc_heads n @ drop (b + n) hs)"
proof -
  obtain k where k: "n = Suc k" using assms(2) by (cases n) auto
  have dr: "drop b hs = hs ! b # drop (Suc b) hs" using assms(1,2) by (simp add: Cons_nth_drop_Suc)
  have hb: "hs ! b = free_head" and tl: "take k (drop (Suc b) hs) = replicate k free_head"
    using assms(3) by (simp_all add: dr k)
  show ?thesis
  proof (cases "n = 1")
    case True
    then show ?thesis
      using assms(1) hb by (simp add: mark_blocks_def or_flags_def alloc_heads_def free_head_def upd_conv_take_nth_drop)
  next
    case False
    have "take n (drop b (hs[b := h])) = h # replicate k free_head" for h
      using assms(1) tl by (simp add: k drop_update_swap dr drop_Suc)
    then show ?thesis
      using assms(1) False hb k by (simp add: mark_blocks_def or_flags_def alloc_heads_def free_head_def)
  qed
qed

lemma length_alloc_heads [simp]: "0 < n \<Longrightarrow> length (alloc_heads n) = n"
  by (auto simp: alloc_heads_def)

lemma alloc_heads_used: "h \<in> set (alloc_heads n) \<Longrightarrow> in_use h"
  by (auto simp: alloc_heads_def in_use_def split: if_splits)

lemma first_free_used_prefix:
  "\<forall>h \<in> set xs. in_use h \<Longrightarrow> first_free (xs @ ys) i = first_free ys (i + length xs)"
  by (induction xs arbitrary: i) (auto simp: in_use_def)

lemma split_range:
  assumes "b + n \<le> length hs"
  shows "hs = take b hs @ take n (drop b hs) @ drop (b + n) hs"
  by (metis append_take_drop_id drop_drop add.commute)

lemma range_free_heads:
  assumes "pool_wf p" "range_free p b n"
  shows "take n (drop b (pl_heads p)) = replicate n free_head"
proof (rule nth_equalityI)
  have len: "length (pl_heads p) = pl_blockCount p" using pool_wf_count[OF assms(1)] by simp
  show l: "length (take n (drop b (pl_heads p))) = length (replicate n free_head)"
    using assms(2) len by (auto simp: range_free_def min_def)
  fix i assume "i < length (take n (drop b (pl_heads p)))"
  then have i: "i < n" "b + i < length (pl_heads p)" using l assms(2) len by (auto simp: range_free_def)
  then have "\<not> in_use (pl_heads p ! (b + i))" using assms(2) by (auto simp: range_free_def)
  then have "pl_heads p ! (b + i) = free_head" using assms(1) i(2) by (auto simp: pool_wf_def list_all_length)
  then show "take n (drop b (pl_heads p)) ! i = replicate n free_head ! i" using i by simp
qed

lemma alloc_in_pool_spec:
  assumes "pool_wf p" "b = pl_fFreeInd p" "b \<noteq> UINT32_MAX" "range_free p b n" "0 < n"
  defines "hs \<equiv> take b (pl_heads p) @ alloc_heads n @ drop (b + n) (pl_heads p)"
  shows "\<exists>ff. alloc_in_pool p b n
      = Done (p\<lparr>pl_heads := hs, pl_nAllocBlocks := pl_nAllocBlocks p + n, pl_fFreeInd := ff\<rparr>, block_addr p b)
    \<and> pool_wf (p\<lparr>pl_heads := hs, pl_nAllocBlocks := pl_nAllocBlocks p + n, pl_fFreeInd := ff\<rparr>) \<and> b < ff"
proof -
  note w = pool_wf_count[OF assms(1)]
  have bn: "b + n \<le> pl_blockCount p" using assms(4) by (simp add: range_free_def)
  have len: "length hs = pl_blockCount p" using w(1) bn assms(5) by (simp add: hs_def)
  have fr: "take n (drop b (pl_heads p)) = replicate n free_head" by (rule range_free_heads[OF assms(1,4)])
  have used_b: "\<forall>h \<in> set (take b (pl_heads p)). in_use h"
  proof -
    have "\<forall>j < b. in_use (pl_heads p ! j)" using pool_wf_ff[OF assms(1)] assms(2,3) by metis
    then show ?thesis by (auto simp: in_set_conv_nth)
  qed
  have sp: "pl_heads p = take b (pl_heads p) @ replicate n free_head @ drop (b + n) (pl_heads p)"
    using split_range[of b n "pl_heads p"] w(1) bn fr by simp
  have cnt0: "pl_nAllocBlocks p = length (filter in_use (take b (pl_heads p))) + length (filter in_use (drop (b + n) (pl_heads p)))"
  proof -
    have "pl_nAllocBlocks p = length (filter in_use (pl_heads p))" using assms(1) by (simp add: pool_wf_def)
    also have "\<dots> = length (filter in_use (take b (pl_heads p) @ replicate n free_head @ drop (b + n) (pl_heads p)))"
      using sp by simp
    finally show ?thesis by (simp add: in_use_def free_head_def)
  qed
  have cnt: "pl_nAllocBlocks p + n = length (filter in_use hs)"
  proof -
    have "filter in_use (alloc_heads n) = alloc_heads n" using alloc_heads_used by (auto simp: filter_id_conv)
    then show ?thesis using cnt0 assms(5) by (simp add: hs_def)
  qed
  have nb: "pl_nAllocBlocks p + n \<le> UINT32_MAX"
    using cnt len length_filter_le[of in_use hs] w(3) by linarith
  have bl: "b \<le> length (pl_heads p)" using bn w(1) by simp
  have tk: "take b hs = take b (pl_heads p)" using bl by (simp add: hs_def)
  define ff where "ff = first_free (drop b hs) b"
  have ff: "first_free hs 0 = ff"
    using first_free_used_prefix[of "take b hs" "drop b hs" 0, unfolded append_take_drop_id] used_b tk bl w(1) len
    by (simp add: ff_def)
  have hb: "in_use (hs ! b)"
    using alloc_heads_used[OF nth_mem, of 0 n] assms(5) bl by (simp add: hs_def nth_append)
  have bff: "b < ff"
  proof -
    consider "ff = UINT32_MAX" | k where "k < length (drop b hs)" "ff = b + k" "m_blockFlags (drop b hs ! k) = 0"
      using first_free_bounds[of "drop b hs" b] by (auto simp: ff_def)
    then show ?thesis
      using hb bn w(3) len assms(5) by cases (auto simp: in_use_def intro: gr0I)
  qed
  have "mark_blocks (pl_heads p) b n = Done hs" using mark_blocks_free[OF _ assms(5) fr] bn w(1) by (simp add: hs_def)
  then have "alloc_in_pool p b n
      = Done (p\<lparr>pl_heads := hs, pl_nAllocBlocks := pl_nAllocBlocks p + n, pl_fFreeInd := ff\<rparr>, block_addr p b)"
    using nb len assms(2) by (simp add: alloc_in_pool_def ff_def wrap32_small block_addr_def)
  moreover have "pool_wf (p\<lparr>pl_heads := hs, pl_nAllocBlocks := pl_nAllocBlocks p + n, pl_fFreeInd := ff\<rparr>)"
    using assms(1) cnt len ff alloc_heads_used
    by (auto simp: pool_wf_def hs_def list_all_iff dest: in_set_takeD in_set_dropD)
  ultimately show ?thesis using bff by blast
qed

subsection \<open>Locating an allocated block\<close>

lemma block_addr_inside:
  assumes "pool_wf p" "b < pl_blockCount p"
  shows "IsInsidePool (block_addr p b) p"
    and "block_addr p b = pl_blockPtr p + CalcPoolHeadSize (pl_blockCount p) 16 + pl_blockSize p * b"
proof -
  let ?c = "pl_blockCount p" and ?s = "pl_blockSize p"
  have h: "CalcPoolHeadSize ?c 16 = 8 * ?c + ?c * 8 mod 16"
    using CalcPoolHeadSize_eq pool_wf_count(2)[OF assms(1)] by blast
  then show eq: "block_addr p b = pl_blockPtr p + CalcPoolHeadSize ?c 16 + ?s * b" by (simp add: block_addr_def)
  have s: "CalcPoolSize ?c ?s 16 = ?c * (?s + 8) + ?c * 8 mod 16" "0 < ?s"
    using CalcPoolSize_eq assms(1) by (auto simp: pool_wf_def)
  have "?s * b < ?s * ?c" using assms(2) s(2) by simp
  then have "8 * ?c + ?c * 8 mod 16 + ?s * b < ?c * (?s + 8) + ?c * 8 mod 16" by (simp add: algebra_simps)
  then show "IsInsidePool (block_addr p b) p" by (simp add: IsInsidePool_def eq h s(1))
qed

lemma locate_loop_hit:
  assumes "i < length ps" "pl_blockSize (ps ! i) \<noteq> 0" "IsInsidePool a (ps ! i)"
    "\<forall>j < i. pl_blockSize (ps ! j) = 0 \<or> \<not> IsInsidePool a (ps ! j)"
    "length (filter (\<lambda>p. pl_blockSize p \<noteq> 0) (take (Suc i) ps)) \<le> n"
  shows "locate_loop a ps k n = Some (k + i)"
  using assms
proof (induction ps arbitrary: i k n)
  case (Cons p ps)
  have n0: "0 < n"
  proof -
    have "(p # ps) ! i \<in> set (take (Suc i) (p # ps))"
      using nth_mem[of i "take (Suc i) (p # ps)"] Cons.prems(1) by (simp del: take_Suc_Cons)
    then have "(p # ps) ! i \<in> set (filter (\<lambda>p. pl_blockSize p \<noteq> 0) (take (Suc i) (p # ps)))"
      using Cons.prems(2) by auto
    then show ?thesis using Cons.prems(5) by (metis length_pos_if_in_set less_le_trans)
  qed
  then obtain n' where n': "n = Suc n'" by (cases n) auto
  show ?case
  proof (cases i)
    case 0
    then show ?thesis using Cons.prems n' by simp
  next
    case (Suc i')
    have prev: "pl_blockSize p = 0 \<or> \<not> IsInsidePool a p" using Cons.prems(4) Suc by (metis nth_Cons_0 zero_less_Suc)
    have rest: "\<forall>j < i'. pl_blockSize (ps ! j) = 0 \<or> \<not> IsInsidePool a (ps ! j)"
      using Cons.prems(4) Suc by (metis Suc_less_eq nth_Cons_Suc)
    show ?thesis
    proof (cases "pl_blockSize p = 0")
      case True
      then show ?thesis using Cons.IH[of i' n "Suc k"] Cons.prems Suc n' rest by simp
    next
      case False
      then show ?thesis using Cons.IH[of i' n' "Suc k"] Cons.prems Suc n' rest prev by simp
    qed
  qed
qed simp

lemma head_start_of_alloc:
  assumes "b < length hs" "m_blockFlags (hs ! b) = 1 \<or> m_blockFlags (hs ! b) = 6 \<or> m_blockFlags (hs ! b) = 0"
  shows "head_start hs b = b"
  using assms(2) by (cases b) auto

lemma GetHeader_of_block:
  assumes "LocateBlock cx (block_addr (m_memPools cx ! i) b) = Some i" "pool_wf (m_memPools cx ! i)"
    "b < pl_blockCount (m_memPools cx ! i)"
    "m_blockFlags (pl_heads (m_memPools cx ! i) ! b) \<in> {0, 1, 6}"
  shows "GetHeaderForBlock cx (block_addr (m_memPools cx ! i) b) = Done (Some (i, b))"
proof -
  let ?p = "m_memPools cx ! i"
  have s: "0 < pl_blockSize ?p" "length (pl_heads ?p) = pl_blockCount ?p" using assms(2) by (simp_all add: pool_wf_def)
  have "head_start (pl_heads ?p) b = b" using assms(3,4) s(2) by (intro head_start_of_alloc) auto
  then show ?thesis
    using assms(1,3) s block_addr_inside(2)[OF assms(2,3)] by (simp add: GetHeaderForBlock_def Let_def)
qed

text \<open>A context in which every pool is unused or well-formed.\<close>

definition pools_wf :: "pool_context \<Rightarrow> bool" where
  "pools_wf cx \<longleftrightarrow> length (m_memPools cx) = gl_MaxPools
     \<and> (\<forall>p \<in> set (m_memPools cx). pl_blockSize p = 0 \<or> pool_wf p)
     \<and> m_nAllocPools cx = length (filter (\<lambda>p. pl_blockSize p \<noteq> 0) (m_memPools cx))"

text \<open>The pools occupy disjoint memory as far as one address is concerned: no other pool in use
  contains it.\<close>

definition only_in_pool :: "pool_context \<Rightarrow> nat \<Rightarrow> nat \<Rightarrow> bool" where
  "only_in_pool cx i a \<longleftrightarrow> list_all (\<lambda>j. j = i \<or> pl_blockSize (m_memPools cx ! j) = 0
      \<or> \<not> IsInsidePool a (m_memPools cx ! j)) [0..<length (m_memPools cx)]"

lemma LocateBlock_hit:
  assumes "pools_wf cx" "i < gl_MaxPools" "pool_wf (m_memPools cx ! i)" "IsInsidePool a (m_memPools cx ! i)"
    "only_in_pool cx i a"
  shows "LocateBlock cx a = Some i"
proof -
  let ?ps = "m_memPools cx" and ?P = "\<lambda>p. pl_blockSize p \<noteq> 0"
  have len: "i < length ?ps" using assms(1,2) by (simp add: pools_wf_def)
  have "length (filter ?P ?ps) = length (filter ?P (take (Suc i) ?ps)) + length (filter ?P (drop (Suc i) ?ps))"
    by (metis append_take_drop_id filter_append length_append)
  then have "length (filter ?P (take (Suc i) ?ps)) \<le> m_nAllocPools cx" using assms(1) by (simp add: pools_wf_def)
  moreover have "\<forall>j < i. pl_blockSize (?ps ! j) = 0 \<or> \<not> IsInsidePool a (?ps ! j)"
    using assms(5) len by (auto simp: only_in_pool_def list_all_iff)
  moreover have "pl_blockSize (?ps ! i) \<noteq> 0" using assms(3) by (simp add: pool_wf_def)
  ultimately show ?thesis
    using locate_loop_hit[of i ?ps a "m_nAllocPools cx" 0] assms(4) len by (simp add: LocateBlock_def)
qed

lemma find_pool_spec:
  assumes "\<forall>p \<in> set ps. pl_blockSize p = 0 \<or> pool_wf p" "0 < n"
  shows "\<exists>r. find_pool s n ps k c = Done r
    \<and> (case r of None \<Rightarrow> True
       | Some (i, b) \<Rightarrow> k \<le> i \<and> i - k < length ps \<and> pool_wf (ps ! (i - k)) \<and> pl_blockSize (ps ! (i - k)) = s
           \<and> b = pl_fFreeInd (ps ! (i - k)) \<and> b \<noteq> UINT32_MAX \<and> range_free (ps ! (i - k)) b n)"
  using assms
proof (induction s n ps k c rule: find_pool.induct)
  case (3 s n p ps k c)
  have later: "(case r of None \<Rightarrow> True | Some (i, b) \<Rightarrow> Suc k \<le> i \<and> i - Suc k < length ps \<and> pool_wf (ps ! (i - Suc k))
      \<and> pl_blockSize (ps ! (i - Suc k)) = s \<and> b = pl_fFreeInd (ps ! (i - Suc k)) \<and> b \<noteq> UINT32_MAX
      \<and> range_free (ps ! (i - Suc k)) b n)
    \<Longrightarrow> (case r of None \<Rightarrow> True | Some (i, b) \<Rightarrow> k \<le> i \<and> i - k < length (p # ps) \<and> pool_wf ((p # ps) ! (i - k))
      \<and> pl_blockSize ((p # ps) ! (i - k)) = s \<and> b = pl_fFreeInd ((p # ps) ! (i - k)) \<and> b \<noteq> UINT32_MAX
      \<and> range_free ((p # ps) ! (i - k)) b n)" for r
    by (auto split: option.splits prod.splits simp: Suc_diff_Suc[symmetric] less_eq_Suc_le)
  show ?case
  proof (cases "pl_blockSize p = 0")
    case True
    then show ?thesis using 3(1)[OF True] 3(4,5) later by fastforce
  next
    case False
    then have wf: "pool_wf p" using 3(4) by auto
    note fr = FindRangeInPool_spec[OF wf 3(5)]
    show ?thesis
    proof (cases "pl_blockSize p = s \<and> pl_fFreeInd p \<noteq> UINT32_MAX \<and> range_free p (pl_fFreeInd p) n")
      case True
      then show ?thesis using False fr wf by auto
    next
      case no: False
      then have "find_pool s n (p # ps) k (Suc c) = find_pool s n ps (Suc k) c" using False fr by auto
      moreover have "\<exists>r. find_pool s n ps (Suc k) c = Done r \<and> (case r of None \<Rightarrow> True
          | Some (i, b) \<Rightarrow> Suc k \<le> i \<and> i - Suc k < length ps \<and> pool_wf (ps ! (i - Suc k))
            \<and> pl_blockSize (ps ! (i - Suc k)) = s \<and> b = pl_fFreeInd (ps ! (i - Suc k)) \<and> b \<noteq> UINT32_MAX
            \<and> range_free (ps ! (i - Suc k)) b n)"
        using 3(2,3) 3(4,5) False fr no by (cases "pl_blockSize p = s") auto
      ultimately show ?thesis using later by fastforce
    qed
  qed
qed auto

text \<open>Locating an address only looks at the layout of the pools.\<close>

lemma locate_loop_update:
  assumes "pl_blockSize p' = pl_blockSize (ps ! k)" "pl_blockCount p' = pl_blockCount (ps ! k)"
    "pl_blockPtr p' = pl_blockPtr (ps ! k)"
  shows "locate_loop a (ps[k := p']) i n = locate_loop a ps i n"
  using assms
proof (induction a ps i n arbitrary: k rule: locate_loop.induct)
  case (3 a p ps i n)
  then show ?case by (cases k) (auto simp: IsInsidePool_def)
next
  case (2 a p ps i)
  then show ?case by (cases k) auto
qed simp

lemma NkPoolFree_step:
  assumes "GetHeaderForBlock cx a = Done (Some (k, b))"
    "(if m_blockFlags (pl_heads (m_memPools cx ! k) ! b) AND NkIntAllocTy_Single \<noteq> 0 then 1
      else m_nMultiBlock (pl_heads (m_memPools cx ! k) ! b)) = n"
    "free_blocks (pl_heads (m_memPools cx ! k)) b n = Done hs" "0 < sub32 (pl_nAllocBlocks (m_memPools cx ! k)) n"
  shows "NkPoolFree cx (Some a) = Done ([], cx\<lparr>m_memPools := (m_memPools cx)[k := (m_memPools cx ! k)\<lparr>pl_heads := hs,
     pl_nAllocBlocks := sub32 (pl_nAllocBlocks (m_memPools cx ! k)) n,
     pl_fFreeInd := (if pl_fFreeInd (m_memPools cx ! k) > b then b else pl_fFreeInd (m_memPools cx ! k))\<rparr>]\<rparr>)"
  using assms(1,3,4) unfolding assms(2)[symmetric] by (simp add: NkPoolFree_def Let_def)

text \<open>An allocation that is served without a new pool.\<close>

lemma NkPoolAlloc_existing:
  assumes "pools_wf cx" "m_nAllocPools cx < UINT32_MAX"
    "NkPoolAlloc gp cx s n = Done (NkErr_Ok, Some a, cx')" "m_nAllocPools cx' = m_nAllocPools cx"
  obtains i b ff where "i < gl_MaxPools" "pool_wf (m_memPools cx ! i)" "pl_blockSize (m_memPools cx ! i) = s" "0 < n"
    "b = pl_fFreeInd (m_memPools cx ! i)" "range_free (m_memPools cx ! i) b n" "a = block_addr (m_memPools cx ! i) b" "b < ff"
    "cx' = cx\<lparr>m_memPools := (m_memPools cx)[i := (m_memPools cx ! i)\<lparr>
       pl_heads := take b (pl_heads (m_memPools cx ! i)) @ alloc_heads n @ drop (b + n) (pl_heads (m_memPools cx ! i)),
       pl_nAllocBlocks := pl_nAllocBlocks (m_memPools cx ! i) + n, pl_fFreeInd := ff\<rparr>]\<rparr>"
    "pool_wf (m_memPools cx' ! i)"
proof -
  have n: "0 < n" "s \<noteq> 0 \<and> s mod 8 = 0" using assms(3) by (auto simp: NkPoolAlloc_def nk_outcome)
  obtain r where r: "find_pool s n (m_memPools cx) 0 (m_nAllocPools cx) = Done r"
    "case r of None \<Rightarrow> True | Some (i, b) \<Rightarrow> 0 \<le> i \<and> i < length (m_memPools cx) \<and> pool_wf (m_memPools cx ! i)
      \<and> pl_blockSize (m_memPools cx ! i) = s \<and> b = pl_fFreeInd (m_memPools cx ! i) \<and> b \<noteq> UINT32_MAX
      \<and> range_free (m_memPools cx ! i) b n"
    using find_pool_spec[of "m_memPools cx" n s 0 "m_nAllocPools cx", unfolded minus_nat.diff_0] assms(1) n(1)
    unfolding pools_wf_def by blast
  show thesis
  proof (cases r)
    case None
    then have "\<exists>ec w cx1. RequestNewPool gp cx gl_DefBlockCount s = Done (ec, Some w, cx1) \<and> m_nAllocPools cx' = m_nAllocPools cx1"
      using assms(3) n r(1) by (auto simp: NkPoolAlloc_def nk_outcome split: option.splits)
    then have "m_nAllocPools cx' = wrap32 (m_nAllocPools cx + 1)"
      by (auto simp: RequestNewPool_def nk_outcome Let_def split: if_splits option.splits prod.splits)
    then show ?thesis using assms(2,4) by (simp add: wrap32_small)
  next
    case (Some ib)
    obtain i b where ib: "ib = (i, b)" by (cases ib)
    let ?p = "m_memPools cx ! i"
    have f: "i < length (m_memPools cx)" "pool_wf ?p" "pl_blockSize ?p = s" "b = pl_fFreeInd ?p" "b \<noteq> UINT32_MAX"
      "range_free ?p b n" using r(2) Some ib by auto
    obtain ff where al: "alloc_in_pool ?p b n = Done (?p\<lparr>pl_heads := take b (pl_heads ?p) @ alloc_heads n @ drop (b + n) (pl_heads ?p),
        pl_nAllocBlocks := pl_nAllocBlocks ?p + n, pl_fFreeInd := ff\<rparr>, block_addr ?p b)"
      "pool_wf (?p\<lparr>pl_heads := take b (pl_heads ?p) @ alloc_heads n @ drop (b + n) (pl_heads ?p),
        pl_nAllocBlocks := pl_nAllocBlocks ?p + n, pl_fFreeInd := ff\<rparr>)" "b < ff"
      using alloc_in_pool_spec[OF f(2,4,5,6) n(1)] by blast
    have res: "a = block_addr ?p b" "cx' = cx\<lparr>m_memPools := (m_memPools cx)[i := ?p\<lparr>
        pl_heads := take b (pl_heads ?p) @ alloc_heads n @ drop (b + n) (pl_heads ?p),
        pl_nAllocBlocks := pl_nAllocBlocks ?p + n, pl_fFreeInd := ff\<rparr>]\<rparr>"
      using assms(3) n r(1) Some ib al(1) by (auto simp: NkPoolAlloc_def)
    have i8: "i < gl_MaxPools" using f(1) assms(1) by (simp add: pools_wf_def)
    show thesis by (rule that[OF i8 f(2,3) n(1) f(4,6) res(1) al(3) res(2)]) (use res(2) f(1) al(2) in simp)
  qed
qed

subsection \<open>Properties\<close>

text \<open>C33: Layout of a new pool.  For a block size that is a multiple of 8, and as long as the sizes fit
  into 32 bits, the pool size is rounded up to whole pages, the adjusted block count is at least
  the requested one, and the header section, its padding and all blocks together fit into the pool.
  The comment in the code claims this; the claim needs that the count is even whenever headers and
  blocks fill the pages exactly.\<close>

theorem pool_layout_fits:
  assumes "0 < b" "b mod 8 = 0" "0 < n0" "n0 * (b + 8) + 5000 \<le> UINT32_MAX"
  shows "case AdjustPoolMetrics b (CalcPoolSize n0 b gl_BlockAlign) of (n, P) \<Rightarrow>
    n0 \<le> n \<and> CalcPoolSize n b gl_BlockAlign \<le> P \<and> P mod gl_PageSize = 0"
  using metrics_fit[OF assms] by (auto split: prod.splits)

theorem pool_layout_fits_witness:
  "case AdjustPoolMetrics 40 (CalcPoolSize 128 40 gl_BlockAlign) of (n, P) \<Rightarrow>
    128 \<le> n \<and> CalcPoolSize n 40 gl_BlockAlign \<le> P \<and> P mod gl_PageSize = 0"
  using pool_layout_fits[of 40 128] by simp

text \<open>C11: Live allocations never overlap.  An allocation served from an existing pool returns the
  address of a range of blocks of the requested size of which none was in use; afterwards exactly
  these blocks are in use in addition to the ones before, no other pool has changed, and the pool
  keeps its invariant.\<close>

theorem pool_alloc_returns_unused_blocks:
  assumes "pools_wf cx" "m_nAllocPools cx < UINT32_MAX"
    "NkPoolAlloc gp cx s n = Done (NkErr_Ok, Some a, cx')" "m_nAllocPools cx' = m_nAllocPools cx"
  shows "\<exists>i b. i < gl_MaxPools \<and> pl_blockSize (m_memPools cx ! i) = s \<and> a = block_addr (m_memPools cx ! i) b
    \<and> range_free (m_memPools cx ! i) b n \<and> pool_wf (m_memPools cx' ! i)
    \<and> (\<forall>j < pl_blockCount (m_memPools cx ! i). in_use (pl_heads (m_memPools cx' ! i) ! j)
         \<longleftrightarrow> in_use (pl_heads (m_memPools cx ! i) ! j) \<or> b \<le> j \<and> j < b + n)
    \<and> (\<forall>j. j \<noteq> i \<longrightarrow> m_memPools cx' ! j = m_memPools cx ! j)"
proof -
  obtain i b ff where r: "i < gl_MaxPools" "pool_wf (m_memPools cx ! i)" "pl_blockSize (m_memPools cx ! i) = s" "0 < n"
    "range_free (m_memPools cx ! i) b n" "a = block_addr (m_memPools cx ! i) b"
    "cx' = cx\<lparr>m_memPools := (m_memPools cx)[i := (m_memPools cx ! i)\<lparr>
       pl_heads := take b (pl_heads (m_memPools cx ! i)) @ alloc_heads n @ drop (b + n) (pl_heads (m_memPools cx ! i)),
       pl_nAllocBlocks := pl_nAllocBlocks (m_memPools cx ! i) + n, pl_fFreeInd := ff\<rparr>]\<rparr>"
    "pool_wf (m_memPools cx' ! i)"
    using NkPoolAlloc_existing[OF assms] by metis
  let ?h = "pl_heads (m_memPools cx ! i)"
  have len: "length (m_memPools cx) = gl_MaxPools" "length ?h = pl_blockCount (m_memPools cx ! i)"
    using assms(1) r(2) by (simp_all add: pools_wf_def pool_wf_def)
  have bn: "b + n \<le> length ?h" using r(5) len(2) by (simp add: range_free_def)
  have nth: "in_use ((take b ?h @ alloc_heads n @ drop (b + n) ?h) ! j) \<longleftrightarrow> in_use (?h ! j) \<or> b \<le> j \<and> j < b + n"
    if "j < pl_blockCount (m_memPools cx ! i)" for j
    using that bn r(4,5) len(2) alloc_heads_used[OF nth_mem, of "j - b" n]
    by (auto simp: nth_append range_free_def min_def)
  show ?thesis
    using r len nth by (intro exI[of _ i] exI[of _ b]) auto
qed

text \<open>The context the witnesses below run on: pool 0 has three blocks of 16 bytes at address 4096 of
  which the first is in use.\<close>

definition sample_pool :: mem_pool where
  "sample_pool = \<lparr>pl_blockSize = 16, pl_blockCount = 3, pl_nAllocBlocks = 1, pl_fFreeInd = 1, pl_blockPtr = 4096,
     pl_heads = [\<lparr>m_blockFlags = 1, m_nMultiBlock = 0\<rparr>, free_head, free_head]\<rparr>"

definition sample_pools :: pool_context where
  "sample_pools = \<lparr>m_nAllocPools = 1, m_firstFreePool = 1, m_memPools = sample_pool # replicate 8191 empty_pool\<rparr>"

lemma sample_pool_wf [simp]: "pool_wf sample_pool"
  by (simp add: sample_pool_def pool_wf_def in_use_def free_head_def)

lemma sample_pool_sel [simp]:
  "pl_nAllocBlocks sample_pool = 1" "pl_blockCount sample_pool = 3" "\<not> in_use (pl_heads sample_pool ! 2)"
  "pl_blockSize sample_pool = 16" "pl_blockPtr sample_pool = 4096" "pl_heads sample_pool ! 0 = \<lparr>m_blockFlags = 1, m_nMultiBlock = 0\<rparr>"
  by (simp_all add: sample_pool_def in_use_def free_head_def)

lemma sample_pools_facts [simp]:
  "pools_wf sample_pools" "m_nAllocPools sample_pools = 1" "m_memPools sample_pools ! 0 = sample_pool"
  "length (m_memPools sample_pools) = gl_MaxPools" "only_in_pool sample_pools 0 a"
proof -
  have e: "pl_blockSize ((sample_pool # replicate 8191 empty_pool) ! j) = 0" if "0 < j" "j < 8192" for j
    using that by (cases j) (auto simp: empty_pool_def)
  show "only_in_pool sample_pools 0 a"
    using e by (auto simp: only_in_pool_def sample_pools_def list_all_iff)
  show "pools_wf sample_pools" "m_nAllocPools sample_pools = 1" "m_memPools sample_pools ! 0 = sample_pool"
    "length (m_memPools sample_pools) = gl_MaxPools"
    using sample_pool_wf by (auto simp: pools_wf_def sample_pools_def empty_pool_def sample_pool_def)
qed

lemma sample_alloc:
  "\<exists>a cx'. NkPoolAlloc gp sample_pools 16 2 = Done (NkErr_Ok, Some a, cx') \<and> m_nAllocPools cx' = 1
     \<and> a = block_addr sample_pool 1"
proof -
  have rf: "range_free sample_pool 1 2"
    by (auto simp: range_free_def sample_pool_def in_use_def free_head_def nth_Cons split: nat.splits)
  have ff: "pl_fFreeInd sample_pool = 1" "pl_blockSize sample_pool = 16" by (simp_all add: sample_pool_def)
  have fp: "find_pool 16 2 (m_memPools sample_pools) 0 (m_nAllocPools sample_pools) = Done (Some (0, 1))"
    using FindRangeInPool_spec[OF sample_pool_wf, of 2] rf ff by (simp add: sample_pools_def)
  show ?thesis
    using alloc_in_pool_spec[OF sample_pool_wf, of 1 2] rf ff fp by (auto simp: NkPoolAlloc_def)
qed

theorem pool_alloc_returns_unused_blocks_witness:
  "\<exists>a cx' i b. NkPoolAlloc (\<lambda>_. None) sample_pools 16 2 = Done (NkErr_Ok, Some a, cx')
    \<and> a = block_addr (m_memPools sample_pools ! i) b \<and> range_free (m_memPools sample_pools ! i) b 2"
proof -
  obtain a cx' where al: "NkPoolAlloc (\<lambda>_. None) sample_pools 16 2 = Done (NkErr_Ok, Some a, cx')"
    "m_nAllocPools cx' = m_nAllocPools sample_pools"
    using sample_alloc[of "\<lambda>_. None"] by auto
  from pool_alloc_returns_unused_blocks[OF sample_pools_facts(1) _ al] show ?thesis using al by auto
qed



text \<open>Double free.  Freeing the address of a block that is not in use, in a pool with other blocks
  in use, changes nothing.\<close>

theorem pool_double_free_is_noop:
  assumes "pools_wf cx" "i < gl_MaxPools" "pool_wf (m_memPools cx ! i)" "0 < pl_nAllocBlocks (m_memPools cx ! i)"
    "b < pl_blockCount (m_memPools cx ! i)" "\<not> in_use (pl_heads (m_memPools cx ! i) ! b)"
    "only_in_pool cx i (block_addr (m_memPools cx ! i) b)"
  shows "NkPoolFree cx (Some (block_addr (m_memPools cx ! i) b)) = Done ([], cx)"
proof -
  let ?p = "m_memPools cx ! i"
  have w: "length (pl_heads ?p) = pl_blockCount ?p" "pl_nAllocBlocks ?p \<le> UINT32_MAX"
    using pool_wf_count[OF assms(3)] by auto
  have "LocateBlock cx (block_addr ?p b) = Some i"
    using LocateBlock_hit[OF assms(1,2,3) _ assms(7)] block_addr_inside(1)[OF assms(3,5)] by simp
  then have gh: "GetHeaderForBlock cx (block_addr ?p b) = Done (Some (i, b))"
    using GetHeader_of_block[OF _ assms(3,5)] assms(6) by (simp add: in_use_def)
  have h: "pl_heads ?p ! b = free_head"
    using assms(3,5,6) w(1) by (auto simp: pool_wf_def list_all_length)
  have na: "sub32 (pl_nAllocBlocks ?p) 0 = pl_nAllocBlocks ?p" using w(2) by (simp add: sub32_ge)
  have "\<not> pl_fFreeInd ?p > b" using pool_wf_ff[OF assms(3)] assms(5,6) w(1) by (metis nth_mem)
  then show ?thesis
    using NkPoolFree_step[OF gh, of 0 "pl_heads ?p"] h na assms(4) by (simp add: free_blocks_def free_head_def)
qed

theorem pool_double_free_is_noop_witness:
  "NkPoolFree sample_pools (Some (block_addr sample_pool 2)) = Done ([], sample_pools)"
  using pool_double_free_is_noop[of sample_pools 0 2] by simp

lemma last_free_pool_last:
  assumes "ps \<noteq> []" "pl_blockSize (last ps) = 0"
  shows "last_free_pool ps i ff = i + length ps - 1"
  using assms by (induction ps i ff rule: last_free_pool.induct) (auto split: if_splits)

lemma RequestNewPool_last:
  assumes "m_firstFreePool cx = gl_MaxPools - 1" "length (m_memPools cx) = gl_MaxPools" "m_nAllocPools cx < gl_MaxPools - 1"
    "RequestNewPool gp cx n s = Done (NkErr_Ok, Some k, cx1)" "0 < s"
  shows "k = gl_MaxPools - 1 \<and> m_firstFreePool cx1 = gl_MaxPools - 1 \<and> length (m_memPools cx1) = gl_MaxPools
    \<and> m_nAllocPools cx1 = Suc (m_nAllocPools cx) \<and> pl_blockSize (m_memPools cx1 ! k) = s
    \<and> pl_nAllocBlocks (m_memPools cx1 ! k) = 0"
proof -
  have d: "drop 8191 ((m_memPools cx)[8191 := p]) = [p]" for p :: mem_pool
    using assms(2) by (simp add: drop_update_swap list_eq_iff_nth_eq)
  show ?thesis
    using assms by (auto simp: RequestNewPool_def Let_def d wrap32_small nk_outcome split: if_splits option.splits prod.splits)
qed

text \<open>Pools are lost after a pool has been released.  Releasing the last block of a pool while the
  last entry of the pool table is unused makes that entry the next pool to be taken; from such a
  state on, each new pool is put there again and replaces the previous one, although other entries
  are unused and the replaced pool is in use.\<close>

theorem pool_release_makes_new_pools_overwrite:
  assumes "pools_wf cx" "i < gl_MaxPools - 1" "pool_wf (m_memPools cx ! i)"
    "pl_blockSize (m_memPools cx ! (gl_MaxPools - 1)) = 0" "NkPoolFree cx (Some a) = Done ([x], cx1)"
    "LocateBlock cx a = Some i" "0 < s1" "0 < s2" "m_nAllocPools cx < gl_MaxPools - 1"
    "RequestNewPool gp cx1 n1 s1 = Done (NkErr_Ok, Some k1, cx2)"
    "RequestNewPool gp cx2 n2 s2 = Done (NkErr_Ok, Some k2, cx3)"
  shows "m_firstFreePool cx1 = gl_MaxPools - 1 \<and> k1 = gl_MaxPools - 1 \<and> k2 = k1
    \<and> pl_blockSize (m_memPools cx2 ! k1) = s1 \<and> pl_blockSize (m_memPools cx3 ! k1) = s2"
proof -
  have len: "length (m_memPools cx) = gl_MaxPools" using assms(1) by (simp add: pools_wf_def)
  have n0: "0 < m_nAllocPools cx"
  proof -
    have "m_memPools cx ! i \<in> set (filter (\<lambda>p. pl_blockSize p \<noteq> 0) (m_memPools cx))"
      using len assms(2,3) by (simp add: pool_wf_def)
    then show ?thesis using assms(1) unfolding pools_wf_def by (metis length_pos_if_in_set)
  qed
  have "last (drop i (m_memPools cx)) = m_memPools cx ! (gl_MaxPools - 1)"
    using len assms(2) by (simp add: last_conv_nth)
  then have lf: "last_free_pool (drop i (m_memPools cx)) i ff = gl_MaxPools - 1" for ff
    using last_free_pool_last[of "drop i (m_memPools cx)" i ff] len assms(2,4) by simp
  have cx1: "m_firstFreePool cx1 = gl_MaxPools - 1" "length (m_memPools cx1) = gl_MaxPools" "m_nAllocPools cx1 = m_nAllocPools cx - 1"
    using assms(5,6,9) n0 lf len
    by (auto simp: NkPoolFree_def GetHeaderForBlock_def Let_def nk_outcome sub32_ge split: option.splits if_splits)
  note r1 = RequestNewPool_last[OF cx1(1,2) _ assms(10,7)]
  have n1: "m_nAllocPools cx1 < gl_MaxPools - 1" using cx1(3) assms(9) by simp
  note r2 = RequestNewPool_last[of cx2 gp n2 s2 k2 cx3]
  show ?thesis using r1[OF n1] r2 assms(8,9,11) cx1 n0 by auto
qed

lemma sample_release:
  "\<exists>cx1. NkPoolFree sample_pools (Some (block_addr sample_pool 0)) = Done ([4096], cx1)
    \<and> LocateBlock sample_pools (block_addr sample_pool 0) = Some 0 \<and> length (m_memPools cx1) = gl_MaxPools
    \<and> m_firstFreePool cx1 = gl_MaxPools - 1 \<and> m_nAllocPools cx1 = 0"
proof -
  have loc: "LocateBlock sample_pools (block_addr sample_pool 0) = Some 0"
    using LocateBlock_hit[of sample_pools 0] block_addr_inside(1)[OF sample_pool_wf, of 0] by simp
  then have gh: "GetHeaderForBlock sample_pools (block_addr sample_pool 0) = Done (Some (0, 0))"
    using GetHeader_of_block[of sample_pools 0 0] by simp
  have fb: "free_blocks (pl_heads sample_pool) 0 1 = Done (free_head # tl (pl_heads sample_pool))"
    by (simp add: free_blocks_def sample_pool_def)
  have lf: "last_free_pool (drop 0 (m_memPools sample_pools)) 0 ff = gl_MaxPools - 1" for ff
    using last_free_pool_last[of "m_memPools sample_pools" 0 ff] by (simp add: sample_pools_def empty_pool_def)
  show ?thesis
    using gh loc fb lf by (simp add: NkPoolFree_def Let_def sub32_ge)
qed

lemma RequestNewPool_granted:
  assumes "m_firstFreePool cx < length (m_memPools cx)" "length (m_memPools cx) = gl_MaxPools" "0 < s" "s mod 8 = 0" "s \<le> 4096"
  shows "\<exists>k cx1. RequestNewPool (\<lambda>_. Some 8192) cx 128 s = Done (NkErr_Ok, Some k, cx1)
    \<and> length (m_memPools cx1) = gl_MaxPools"
proof -
  obtain n P where nP: "AdjustPoolMetrics s (CalcPoolSize 128 s 16) = (n, P)" by (cases "AdjustPoolMetrics s (CalcPoolSize 128 s 16)")
  have "P \<noteq> 0" using metrics_fit(6)[OF assms(3,4) _ _ nP] assms(5) by simp
  then show ?thesis using assms nP by (simp add: RequestNewPool_def Let_def)
qed

theorem pool_release_makes_new_pools_overwrite_witness:
  "\<exists>cx1 k1 cx2 cx3. NkPoolFree sample_pools (Some (block_addr sample_pool 0)) = Done ([4096], cx1)
    \<and> RequestNewPool (\<lambda>_. Some 8192) cx1 128 16 = Done (NkErr_Ok, Some k1, cx2)
    \<and> RequestNewPool (\<lambda>_. Some 8192) cx2 128 32 = Done (NkErr_Ok, Some k1, cx3)"
proof -
  obtain cx1 where c1: "NkPoolFree sample_pools (Some (block_addr sample_pool 0)) = Done ([4096], cx1)"
    "LocateBlock sample_pools (block_addr sample_pool 0) = Some 0" "length (m_memPools cx1) = gl_MaxPools"
    "m_firstFreePool cx1 = gl_MaxPools - 1" "m_nAllocPools cx1 = 0" using sample_release by blast
  obtain k1 cx2 where c2: "RequestNewPool (\<lambda>_. Some 8192) cx1 128 16 = Done (NkErr_Ok, Some k1, cx2)"
    using RequestNewPool_granted[of cx1 16] c1 by auto
  obtain k2 cx3 where c3: "RequestNewPool (\<lambda>_. Some 8192) cx2 128 32 = Done (NkErr_Ok, Some k2, cx3)"
    using RequestNewPool_granted[of cx2 32] RequestNewPool_last[OF c1(4,3) _ c2] c1(5) by auto
  have last: "pl_blockSize (m_memPools sample_pools ! (gl_MaxPools - 1)) = 0"
    by (simp add: sample_pools_def empty_pool_def)
  show ?thesis
    using pool_release_makes_new_pools_overwrite[OF sample_pools_facts(1) _ _ last c1(1,2) _ _ _ c2 c3] c1(1) c2 c3
    by auto
qed

end
