(* ===== verification/NkString.thy ===== *)
theory NkString
  imports NkText NkUtil NkAlloc NkFloat
begin

section \<open>Strings (src/Noriko/dstruct/string.c)\<close>

text \<open>
  The buffer of a string is the list of its bytes, \<open>None\<close> where the contents are indeterminate.  A pointer
  into the buffer is an offset.  The heap may leave bytes accessible behind a block: \<open>spare n\<close> of them
  behind a block of \<open>n\<close> bytes.  The language promises none.  When a block is resized, \<open>inPlace\<close> tells
  whether it keeps its address.  Strings passed as arguments are C strings without their terminator.
\<close>

record NkString =
  st_currSize :: nat
  st_currLen :: nat
  st_charBuf :: "char option list"

definition buf_char :: "char option list \<Rightarrow> nat \<Rightarrow> char outcome" where
  "buf_char buf pos = obind (mem_read buf pos) (\<lambda>c. case c of None \<Rightarrow> Undef | Some c \<Rightarrow> Done c)"

subsection \<open>Walking over the characters\<close>

definition gl_c_Utf8CharSizes :: "nat list" where
  "gl_c_Utf8CharSizes = replicate 128 1 @ replicate 64 0
     @ replicate 2 0 @ replicate 30 2 @ replicate 16 3 @ replicate 5 4 @ replicate 11 0"

text \<open>The index is a plain \<open>char\<close>, which is signed with the supported compiler: the bytes from 128 on are
  negative indices.\<close>

definition String_CharSize :: "char option list \<Rightarrow> nat \<Rightarrow> nat outcome" where
  "String_CharSize buf encChar =
     obind (buf_char buf encChar) (\<lambda>c. if char_nat c < 128 then mem_read gl_c_Utf8CharSizes (char_nat c) else Undef)"

fun String_Goto :: "char option list \<Rightarrow> nat \<Rightarrow> nat \<Rightarrow> nat outcome" where
  "String_Goto buf u8Str 0 = obind (buf_char buf u8Str) (\<lambda>_. Done u8Str)"
| "String_Goto buf u8Str (Suc off) =
     obind (buf_char buf u8Str) (\<lambda>c. if c = NUL then Done u8Str
       else obind (String_CharSize buf u8Str) (\<lambda>k. String_Goto buf (u8Str + k) off))"

text \<open>A view is given by its offset and its size.\<close>

definition String_CalcSubstr :: "char option list \<Rightarrow> nat \<Rightarrow> nat \<Rightarrow> (nat \<times> nat) outcome" where
  "String_CalcSubstr buf start maxCount =
     nk_assert (0 < maxCount) NkErr_InParameter
    (obind (String_Goto buf 0 start) (\<lambda>startPtr.
     obind (String_Goto buf startPtr (sub32 maxCount 1)) (\<lambda>endPtr. Done (startPtr, endPtr - startPtr))))"

partial_function (option) strlen_loop :: "char option list \<Rightarrow> nat \<Rightarrow> nat \<Rightarrow> nat outcome option" where
  "strlen_loop buf strPtr currLen =
     lbind (Some (buf_char buf strPtr)) (\<lambda>c. if c = NUL then Some (Done currLen)
       else lbind (Some (String_CharSize buf strPtr)) (\<lambda>k. strlen_loop buf (strPtr + k) (wrap32 (currLen + 1))))"

definition String_Strlen :: "char option list \<Rightarrow> nat outcome" where
  "String_Strlen buf = of_loop (strlen_loop buf 0 0)"

subsection \<open>Creating and destroying\<close>

fun create_loop :: "string \<Rightarrow> nat \<Rightarrow> nat \<Rightarrow> nat \<Rightarrow> nat \<Rightarrow> char option list \<Rightarrow> char option list outcome" where
  "create_loop fromStr count chunk i 0 charBuf = Done charBuf"
| "create_loop fromStr count chunk i (Suc n) charBuf =
     obind (mem_copy charBuf (wrap32 (i * count)) (map Some (fromStr @ [NUL])) 0 chunk) (\<lambda>charBuf.
       create_loop fromStr count chunk (Suc i) n charBuf)"

definition NkStringCreate ::
    "heap_answer \<Rightarrow> (nat \<Rightarrow> nat) \<Rightarrow> string option \<Rightarrow> nat \<Rightarrow> (NkErrorCode \<times> NkString option) outcome" where
  "NkStringCreate heap spare fromStr count =
     nk_assert (0 < count) NkErr_InParameter
    (let bufSize = wrap64 ((case fromStr of None \<Rightarrow> 1 | Some s \<Rightarrow> length s) * count + 1) in
     obind (NkGPAlloc heap bufSize 0) (\<lambda>errCode.
       if errCode \<noteq> NkErr_Ok then Done (errCode, None)
       else obind (case fromStr of
                     None \<Rightarrow> Done (replicate bufSize (Some NUL) @ replicate (spare bufSize) None)
                   | Some s \<Rightarrow> create_loop s count ((bufSize - 1) div count) 0 count (replicate bufSize (Some NUL) @ replicate (spare bufSize) None)) (\<lambda>charBuf.
            obind (mem_write charBuf bufSize (Some NUL)) (\<lambda>charBuf.
              Done (NkErr_Ok, Some \<lparr>st_currSize = wrap32 bufSize, st_currLen = (if fromStr \<noteq> None then wrap32 bufSize else 0),
                st_charBuf = charBuf\<rparr>)))))"

definition NkStringCreateView :: "NkString \<Rightarrow> nat \<Rightarrow> nat \<Rightarrow> (NkErrorCode \<times> nat \<times> nat) outcome" where
  "NkStringCreateView src start maxCount =
     obind (String_CalcSubstr (st_charBuf src) start maxCount) (\<lambda>(off, size). Done (NkErr_Ok, off, size))"

text \<open>The buffer that is freed.\<close>

definition NkStringDestroy :: "NkString option \<Rightarrow> char option list list" where
  "NkStringDestroy str = (case str of None \<Rightarrow> [] | Some s \<Rightarrow> [st_charBuf s])"

definition NkStringClear :: "NkString \<Rightarrow> NkString outcome" where
  "NkStringClear str = obind (mem_write (st_charBuf str) 0 (Some NUL)) (\<lambda>buf. Done (str\<lparr>st_charBuf := buf, st_currLen := 0\<rparr>))"

subsection \<open>Appending\<close>

text \<open>The address of the resized block goes to a local variable only: a block that has moved leaves a
  dangling pointer in the string, and a refused request goes unnoticed.\<close>

definition join_resize ::
    "heap_answer \<Rightarrow> (nat \<Rightarrow> nat) \<Rightarrow> (nat \<Rightarrow> bool) \<Rightarrow> nat \<Rightarrow> NkString \<Rightarrow> NkString outcome" where
  "join_resize heap spare inPlace reqBufSize str =
     obind (f32_to_uint 32 (f32_round (f32_round (of_nat reqBufSize) * (3 / 2)))) (\<lambda>newSize.
     obind (NkGPRealloc heap newSize) (\<lambda>errCode.
       if errCode \<noteq> NkErr_Ok then Done (str\<lparr>st_currSize := newSize\<rparr>)
       else if inPlace newSize
       then Done (str\<lparr>st_currSize := newSize, st_charBuf := realloc_slots (st_charBuf str) (newSize + spare newSize)\<rparr>)
       else Undef))"

definition NkStringJoin ::
    "heap_answer \<Rightarrow> (nat \<Rightarrow> nat) \<Rightarrow> (nat \<Rightarrow> bool) \<Rightarrow> NkString \<Rightarrow> string \<Rightarrow> nat \<Rightarrow> (NkErrorCode \<times> NkString) outcome" where
  "NkStringJoin heap spare inPlace str elemStr strLen =
     (if elemStr = [] then Done (NkErr_NoOperation, str)
      else let elemStrlen = (if strLen = UINT32_MAX then wrap32 (length elemStr) else strLen);
               (ok, reqBufSize) = NkCheckedUint32Add (st_currLen str) elemStrlen
           in if \<not> ok then Done (NkErr_UnsignedWrapAround, str)
              else obind (if st_currSize str < reqBufSize then join_resize heap spare inPlace reqBufSize str else Done str) (\<lambda>str.
                   obind (mem_copy (st_charBuf str) (st_currLen str) (map Some (elemStr @ [NUL])) 0 (wrap32 (elemStrlen + 1))) (\<lambda>buf.
                     Done (NkErr_Ok, str\<lparr>st_charBuf := buf, st_currLen := wrap32 (st_currLen str + elemStrlen)\<rparr>))))"

subsection \<open>Access\<close>

definition NkStringGetLength :: "NkString \<Rightarrow> nat outcome" where
  "NkStringGetLength str = String_Strlen (st_charBuf str)"

text \<open>The loop compares the pointer, which is never NULL, with the terminator, so it ends only after \<open>off\<close>
  steps.\<close>

fun at_loop :: "char option list \<Rightarrow> nat \<Rightarrow> nat \<Rightarrow> nat outcome" where
  "at_loop buf currIter 0 = Done currIter"
| "at_loop buf currIter (Suc off) = obind (String_CharSize buf currIter) (\<lambda>k. at_loop buf (currIter + k) off)"

definition NkStringAt :: "NkString \<Rightarrow> nat \<Rightarrow> nat outcome" where
  "NkStringAt str off = at_loop (st_charBuf str) 0 off"

definition NkStringIterate :: "char option list \<Rightarrow> nat \<Rightarrow> nat option outcome" where
  "NkStringIterate buf strPtr =
     obind (buf_char buf strPtr) (\<lambda>c. if c = NUL then Done None
       else obind (String_Goto buf strPtr 1) (\<lambda>p. Done (Some p)))"

subsection \<open>Lemmas\<close>

text \<open>The buffer holds a C string of ASCII characters.\<close>

definition holds_text :: "char option list \<Rightarrow> string \<Rightarrow> bool" where
  "holds_text buf s \<longleftrightarrow> (\<exists>rest. buf = map Some (s @ [NUL]) @ rest)"

definition ascii_text :: "string \<Rightarrow> bool" where
  "ascii_text s \<longleftrightarrow> (\<forall>c \<in> set s. c \<noteq> NUL \<and> char_nat c < 128)"

lemma buf_char_text:
  assumes "holds_text buf s" "i \<le> length s"
  shows "buf_char buf i = Done ((s @ [NUL]) ! i)"
proof -
  obtain rest where b: "buf = map Some (s @ [NUL]) @ rest" using assms(1) by (auto simp: holds_text_def)
  have "i < length buf" using assms(2) by (simp add: b)
  moreover have "buf ! i = Some ((s @ [NUL]) ! i)" using assms(2) unfolding b by (subst nth_append) (simp add: nth_map del: map_append)
  ultimately show ?thesis by (simp add: buf_char_def)
qed

lemma CharSize_ascii:
  assumes "holds_text buf s" "ascii_text s" "i < length s"
  shows "buf_char buf i = Done (s ! i)" "s ! i \<noteq> NUL" "String_CharSize buf i = Done 1"
proof -
  show c: "buf_char buf i = Done (s ! i)" using buf_char_text[OF assms(1), of i] assms(3) by (simp add: nth_append)
  have a: "s ! i \<noteq> NUL" "char_nat (s ! i) < 128" using assms(2,3) by (auto simp: ascii_text_def)
  then show "s ! i \<noteq> NUL" by simp
  have "gl_c_Utf8CharSizes ! n = 1 \<and> n < length gl_c_Utf8CharSizes" if "n < 128" for n
    using that unfolding gl_c_Utf8CharSizes_def by (subst nth_append) (simp only: length_replicate nth_replicate if_True, simp)
  then show "String_CharSize buf i = Done 1" using c a by (simp add: String_CharSize_def)
qed

lemma buf_char_end: "holds_text buf s \<Longrightarrow> buf_char buf (length s) = Done NUL"
  using buf_char_text[of buf s "length s"] by simp

lemma Goto_ascii:
  assumes "holds_text buf s" "ascii_text s" "i \<le> length s"
  shows "String_Goto buf i n = Done (min (length s) (i + n))"
  using assms(3)
proof (induction n arbitrary: i)
  case 0
  then show ?case using buf_char_text[OF assms(1)] by simp
next
  case (Suc n)
  show ?case
  proof (cases "i = length s")
    case True
    then show ?thesis using buf_char_end[OF assms(1)] by simp
  next
    case False
    then have i: "i < length s" using Suc.prems by simp
    show ?thesis using CharSize_ascii[OF assms(1,2) i] Suc.IH[of "Suc i"] i by simp
  qed
qed

lemma Iterate_ascii:
  assumes "holds_text buf s" "ascii_text s" "i \<le> length s"
  shows "NkStringIterate buf i = Done (if i = length s then None else Some (i + 1))"
  using buf_char_end[OF assms(1)] CharSize_ascii[OF assms(1,2), of i] Goto_ascii[OF assms, of 1] assms(3)
  by (auto simp: NkStringIterate_def)

lemma strlen_loop_ascii:
  assumes "holds_text buf s" "ascii_text s" "i \<le> length s" "length s < 2 ^ 32"
  shows "strlen_loop buf i i = Some (Done (length s))"
  using assms(3)
proof (induction "length s - i" arbitrary: i)
  case 0
  then have "i = length s" by simp
  then show ?case using buf_char_end[OF assms(1)] by (simp add: strlen_loop.simps)
next
  case (Suc n)
  then have i: "i < length s" by simp
  have "wrap32 (i + 1) = Suc i" using i assms(4) by (simp add: wrap32_def)
  then show ?case using CharSize_ascii[OF assms(1,2) i] Suc.hyps(1)[of "Suc i"] Suc.hyps(2) i
    by (subst strlen_loop.simps) simp
qed

lemma create_loop_length: "create_loop f count chunk i n b = Done b' \<Longrightarrow> length b' = length b"
proof (induction n arbitrary: i b)
  case (Suc n)
  then obtain c where c: "mem_copy b (wrap32 (i * count)) (map Some (f @ [NUL])) 0 chunk = Done c"
    "create_loop f count chunk (Suc i) n c = Done b'" by (auto simp: nk_outcome)
  then have "length c = length b" by (auto simp: mem_copy_def split: if_splits)
  then show ?case using Suc.IH[OF c(2)] by simp
qed simp

lemma create_loop_outcome: "create_loop f count chunk i n b = Undef \<or> (\<exists>b'. create_loop f count chunk i n b = Done b')"
  by (induction n arbitrary: i b) (auto simp: mem_copy_def)

text \<open>Appending to a string whose buffer has room: \<open>m\<close> bytes and one more for the terminator.\<close>

definition string_is :: "nat \<Rightarrow> NkString \<Rightarrow> string \<Rightarrow> bool" where
  "string_is m str s \<longleftrightarrow> holds_text (st_charBuf str) s \<and> st_currLen str = length s \<and> st_currSize str = m
     \<and> length (st_charBuf str) > m \<and> m < 2 ^ 31"

lemma Join_ok:
  assumes "string_is m str s" "e \<noteq> []" "length s + length e \<le> m"
  shows "\<exists>str'. NkStringJoin heap spare inPlace str e UINT32_MAX = Done (NkErr_Ok, str') \<and> string_is m str' (s @ e)"
proof -
  let ?b = "st_charBuf str"
  have len: "length e < 2 ^ 31" "length s + length e < 2 ^ 31" using assms(1,3) by (auto simp: string_is_def)
  then have a: "NkCheckedUint32Add (st_currLen str) (length e) = (True, length s + length e)"
    and w: "wrap32 (length e) = length e" "wrap32 (length e + 1) = length e + 1" "wrap32 (length s + length e) = length s + length e"
    using assms(1) by (auto simp: NkCheckedUint32Add_def string_is_def sub32_ge wrap32_def)
  define b' where "b' = take (length s) ?b @ map Some (e @ [NUL]) @ drop (length s + (length e + 1)) ?b"
  have copy: "mem_copy ?b (length s) (map Some (e @ [NUL])) 0 (length e + 1) = Done b'"
    using assms by (subst mem_copy_ok) (auto simp: string_is_def b'_def)
  obtain rest where r: "?b = map Some (s @ [NUL]) @ rest" using assms(1) by (auto simp: string_is_def holds_text_def)
  have "take (length s) ?b = map Some s" by (simp add: r)
  then have "holds_text b' (s @ e)" unfolding holds_text_def b'_def by auto
  moreover have "length b' = length ?b" using copy by (auto simp: mem_copy_def split: if_splits)
  ultimately show ?thesis using assms a w copy by (auto simp: NkStringJoin_def string_is_def)
qed

lemma Create_empty:
  assumes "heap (count + 1)" "0 < count" "count < 2 ^ 30" "0 < spare (count + 1)"
  shows "\<exists>str. NkStringCreate heap spare None count = Done (NkErr_Ok, Some str) \<and> string_is (count + 1) str []"
proof -
  have w: "wrap64 (count + 1) = count + 1" "wrap32 (count + 1) = count + 1" using assms(3) by (simp_all add: wrap64_def wrap32_def)
  have g: "NkGPAlloc heap (count + 1) 0 = Done NkErr_Ok" using assms(1) by (simp add: nk_outcome)
  let ?b = "(replicate (count + 1) (Some NUL) @ replicate (spare (count + 1)) None)[count + 1 := Some NUL]"
  have "holds_text ?b []" unfolding holds_text_def by (cases count) (auto simp: list_update_append)
  then show ?thesis using assms w g by (simp add: NkStringCreate_def string_is_def)
qed

subsection \<open>Properties\<close>

text \<open>Strings of ASCII characters.  The length is the number of characters; a view from a character on
  begins there, or at the end of the text, and takes one character less than the count it is given.
  Iterating steps to the next character and ends at the terminator.\<close>

theorem string_ascii_access:
  assumes "holds_text (st_charBuf str) s" "ascii_text s" "length s < 2 ^ 32" "0 < maxCount" "maxCount < 2 ^ 32" "i \<le> length s"
  shows "NkStringGetLength str = Done (length s)
    \<and> NkStringCreateView str start maxCount = Done (NkErr_Ok, min (length s) start, min (length s - start) (maxCount - 1))
    \<and> NkStringIterate (st_charBuf str) i = Done (if i = length s then None else Some (i + 1))"
proof -
  have "NkStringCreateView str start maxCount = Done (NkErr_Ok, min (length s) start, min (length s - start) (maxCount - 1))"
    using Goto_ascii[OF assms(1,2)] assms(4,5) by (simp add: NkStringCreateView_def String_CalcSubstr_def sub32_ge)
  then show ?thesis
    using strlen_loop_ascii[OF assms(1,2) _ assms(3), of 0] Iterate_ascii[OF assms(1,2,6)] by (simp add: NkStringGetLength_def String_Strlen_def)
qed

text \<open>Creating a string.  With a heap that makes no more bytes accessible than were asked for, creating a
  string writes behind its buffer, for every text and every count, as soon as memory is granted.\<close>

theorem string_create_writes_behind:
  assumes "0 < count" "heap (wrap64 ((case fromStr of None \<Rightarrow> 1 | Some s \<Rightarrow> length s) * count + 1))"
    "(case fromStr of None \<Rightarrow> 1 | Some s \<Rightarrow> length s) * count + 1 < 2 ^ 64"
  shows "NkStringCreate heap (\<lambda>_. 0) fromStr count = Undef"
proof -
  let ?n = "(case fromStr of None \<Rightarrow> 1 | Some s \<Rightarrow> length s) * count + 1"
  have n: "wrap64 ?n = ?n" using assms(3) by (simp add: wrap64_def)
  have g: "NkGPAlloc heap ?n 0 = Done NkErr_Ok" using assms(2) n by (simp add: nk_outcome)
  show ?thesis
  proof (cases fromStr)
    case None
    then show ?thesis using assms(1) n g by (simp add: NkStringCreate_def)
  next
    case (Some f)
    let ?c = "create_loop f count (length f * count div count) 0 count (replicate (length f * count + 1) (Some NUL))"
    have "?c = Undef \<or> (\<exists>b'. ?c = Done b' \<and> length b' = length f * count + 1)"
      using create_loop_outcome create_loop_length by (metis length_replicate)
    then show ?thesis using assms(1) n g Some by (auto simp: NkStringCreate_def)
  qed
qed

definition sample_string :: NkString where
  "sample_string = \<lparr>st_currSize = 4, st_currLen = 3, st_charBuf = map Some (''abc'' @ [NUL])\<rparr>"

theorem string_ascii_access_witness:
  "NkStringGetLength sample_string = Done 3 \<and> NkStringCreateView sample_string 1 3 = Done (NkErr_Ok, 1, 2)
    \<and> NkStringIterate (st_charBuf sample_string) 3 = Done None"
  using string_ascii_access[of sample_string "''abc''" 3 3 1]
  by (simp add: sample_string_def holds_text_def ascii_text_def char_nat_def)

theorem string_create_writes_behind_witness: "NkStringCreate (\<lambda>_. True) (\<lambda>_. 0) (Some ''ab'') 2 = Undef"
  using string_create_writes_behind[of 2 "\<lambda>_. True" "Some ''ab''"] by simp

end
