(* ===== verification/NkPath.thy ===== *)
theory NkPath
  imports NkString
begin

section \<open>Paths (src/Noriko/path.c, src/Noriko/platform/windows/winpath.c)\<close>

text \<open>
  A standard location is its index in the enumeration, a path \<open>None\<close> while its pointer is NULL.  What
  the system answers for a known folder, converted to UTF-8, is the argument \<open>known\<close>.
\<close>

abbreviation (input) NkStdLoc_GameRoot :: nat where "NkStdLoc_GameRoot \<equiv> 12"
abbreviation (input) NkStdLoc_Count :: nat where "NkStdLoc_Count \<equiv> 19"

definition gl_StandardPaths :: "string option list" where
  "gl_StandardPaths = replicate NkStdLoc_Count None"

definition gl_c_GameLocs :: "nat list" where
  "gl_c_GameLocs = [11, 12, 13, 14, 15, 16, 17, 18]"

definition gl_c_DefPathSize :: nat where
  "gl_c_DefPathSize = 64"

subsection \<open>Known folders\<close>

definition gl_c_KnownFolderGUIDMap :: "string option list" where
  "gl_c_KnownFolderGUIDMap = [None, Some ''FOLDERID_Windows'', Some ''FOLDERID_Desktop'', Some ''FOLDERID_Documents'',
     Some ''FOLDERID_Profile'', Some ''FOLDERID_Music'', Some ''FOLDERID_Videos'', Some ''FOLDERID_Downloads'',
     Some ''FOLDERID_Fonts'', Some ''FOLDERID_LocalAppData'', Some ''FOLDERID_ProgramFiles'',
     None, None, None, None, None, None, None, None]"

definition MapToKNOWNFOLDERID :: "nat \<Rightarrow> string option outcome" where
  "MapToKNOWNFOLDERID locId = nk_assert (locId < NkStdLoc_Count) NkErr_InParameter (mem_read gl_c_KnownFolderGUIDMap locId)"

definition QueryNativeSeparator :: string where
  "QueryNativeSeparator = [CHR 0x5C]"

text \<open>What is freed, and the table afterwards.\<close>

fun destroy_locs_loop :: "nat \<Rightarrow> nat \<Rightarrow> string option list \<Rightarrow> (string list \<times> string option list) outcome" where
  "destroy_locs_loop currLoc 0 locs = Done ([], locs)"
| "destroy_locs_loop currLoc (Suc n) locs =
     obind (MapToKNOWNFOLDERID currLoc) (\<lambda>g. case g of
         None \<Rightarrow> destroy_locs_loop (Suc currLoc) n locs
       | Some _ \<Rightarrow> obind (mem_read locs currLoc) (\<lambda>p. obind (destroy_locs_loop (Suc currLoc) n (locs[currLoc := None])) (\<lambda>(freed, locs').
             Done ((case p of None \<Rightarrow> [] | Some s \<Rightarrow> [s]) @ freed, locs'))))"

definition DestroyPlatformLocs :: "string option list \<Rightarrow> (string list \<times> string option list) outcome" where
  "DestroyPlatformLocs stdLocs = destroy_locs_loop 1 (NkStdLoc_Count - 1) stdLocs"

fun query_locs_loop ::
    "heap_answer \<Rightarrow> (string \<Rightarrow> string option) \<Rightarrow> nat \<Rightarrow> nat \<Rightarrow> string option list \<Rightarrow> (NkErrorCode \<times> string option list) outcome" where
  "query_locs_loop heap known currLoc 0 locs = Done (NkErr_Ok, locs)"
| "query_locs_loop heap known currLoc (Suc n) locs =
     obind (MapToKNOWNFOLDERID currLoc) (\<lambda>g. case g of
         None \<Rightarrow> query_locs_loop heap known (Suc currLoc) n locs
       | Some kfGuid \<Rightarrow>
           (case known kfGuid of
              None \<Rightarrow> obind (DestroyPlatformLocs locs) (\<lambda>(_, locs'). Done (NkErr_QueryStdLocation, locs'))
            | Some stdLoc \<Rightarrow>
                obind (NkGPAlloc heap (length stdLoc + 1) 0) (\<lambda>errCode.
                  if errCode \<noteq> NkErr_Ok then obind (DestroyPlatformLocs locs) (\<lambda>(_, locs'). Done (errCode, locs'))
                  else query_locs_loop heap known (Suc currLoc) n (locs[currLoc := Some stdLoc]))))"

definition QueryPlatformLocs ::
    "heap_answer \<Rightarrow> (string \<Rightarrow> string option) \<Rightarrow> string option list \<Rightarrow> (NkErrorCode \<times> string option list) outcome" where
  "QueryPlatformLocs heap known stdLocs = query_locs_loop heap known 1 (NkStdLoc_Count - 1) stdLocs"

subsection \<open>Start-up and shutdown\<close>

fun game_locs_loop :: "string option \<Rightarrow> nat list \<Rightarrow> string option list \<Rightarrow> string option list outcome" where
  "game_locs_loop gameRootDir [] paths = Done paths"
| "game_locs_loop gameRootDir (currLoc # locs) paths =
     obind (mem_read paths currLoc) (\<lambda>p.
       nk_assert (p = None) NkErr_Unknown
      (game_locs_loop gameRootDir locs (if currLoc = NkStdLoc_GameRoot then paths[currLoc := gameRootDir] else paths)))"

definition PathSrvStartup ::
    "heap_answer \<Rightarrow> (string \<Rightarrow> string option) \<Rightarrow> string option \<Rightarrow> string option list \<Rightarrow> (NkErrorCode \<times> string option list) outcome" where
  "PathSrvStartup heap known gameRootDir paths =
     obind (QueryPlatformLocs heap known paths) (\<lambda>(errCode, paths).
       if errCode \<noteq> NkErr_Ok then Done (errCode, paths)
       else obind (game_locs_loop gameRootDir gl_c_GameLocs paths) (\<lambda>paths. Done (NkErr_Ok, paths)))"

fun free_game_locs :: "nat list \<Rightarrow> string option list \<Rightarrow> (string list \<times> string option list) outcome" where
  "free_game_locs [] paths = Done ([], paths)"
| "free_game_locs (currLoc # locs) paths =
     obind (mem_read paths currLoc) (\<lambda>p. obind (free_game_locs locs (paths[currLoc := None])) (\<lambda>(freed, paths').
       Done ((case p of None \<Rightarrow> [] | Some s \<Rightarrow> [s]) @ freed, paths')))"

definition PathSrvShutdown :: "string option list \<Rightarrow> (NkErrorCode \<times> string list \<times> string option list) outcome" where
  "PathSrvShutdown paths =
     obind (DestroyPlatformLocs paths) (\<lambda>(freed, paths).
     obind (free_game_locs gl_c_GameLocs paths) (\<lambda>(freed', paths). Done (NkErr_Ok, freed @ freed', paths)))"

subsection \<open>Building paths\<close>

text \<open>Only the text of a view is used.  The array of the components is the list of its elements before the
  terminating NULL.  After an error the string is destroyed.\<close>

fun stem_loop ::
    "(NkString \<Rightarrow> string \<Rightarrow> (NkErrorCode \<times> NkString) outcome) \<Rightarrow> string \<Rightarrow> string list \<Rightarrow> NkString \<Rightarrow> (NkErrorCode \<times> NkString) outcome" where
  "stem_loop join sepCh [] res = Done (NkErr_Ok, res)"
| "stem_loop join sepCh (c # cs) res =
     obind (join res c) (\<lambda>(errCode, res).
       if errCode \<noteq> NkErr_Ok then Done (errCode, res)
       else obind (if cs \<noteq> [] then join res sepCh else Done (NkErr_Ok, res)) (\<lambda>(errCode, res).
              if errCode \<noteq> NkErr_Ok then Done (errCode, res) else stem_loop join sepCh cs res))"

fun tail_loop ::
    "(NkString \<Rightarrow> string \<Rightarrow> (NkErrorCode \<times> NkString) outcome) \<Rightarrow> string option list \<Rightarrow> NkString \<Rightarrow> (NkErrorCode \<times> NkString) outcome" where
  "tail_loop join [] res = Done (NkErr_Ok, res)"
| "tail_loop join (t # ts) res =
     (case t of
        None \<Rightarrow> tail_loop join ts res
      | Some s \<Rightarrow> obind (join res s) (\<lambda>(errCode, res).
          if errCode \<noteq> NkErr_Ok then Done (errCode, res) else tail_loop join ts res))"

definition NkPathBuild ::
    "heap_answer \<Rightarrow> (nat \<Rightarrow> nat) \<Rightarrow> (nat \<Rightarrow> bool) \<Rightarrow> string option \<Rightarrow> string list option \<Rightarrow> string option \<Rightarrow> string option
     \<Rightarrow> (NkErrorCode \<times> NkString option) outcome" where
  "NkPathBuild heap spare inPlace sepCh stemCompArr fileName extStr =
     (if (stemCompArr = None \<or> stemCompArr = Some []) \<and> fileName = None \<and> extStr = None then Done (NkErr_InParameter, None)
      else obind (NkStringCreate heap spare None gl_c_DefPathSize) (\<lambda>(errCode, res).
        if errCode \<noteq> NkErr_Ok then Done (errCode, None)
        else case res of
          None \<Rightarrow> Undef
        | Some res \<Rightarrow>
            let sepCh = (case sepCh of None \<Rightarrow> QueryNativeSeparator | Some s \<Rightarrow> s);
                join = (\<lambda>str s. NkStringJoin heap spare inPlace str s UINT32_MAX);
                hasStem = (stemCompArr \<noteq> None \<and> stemCompArr \<noteq> Some []);
                tailStrs = [if fileName \<noteq> None \<and> hasStem then Some sepCh else None, fileName,
                            if extStr \<noteq> None \<and> fileName = None \<and> hasStem then Some sepCh else None,
                            if extStr = None then None else Some ''.'', extStr]
            in obind (stem_loop join sepCh (case stemCompArr of None \<Rightarrow> [] | Some cs \<Rightarrow> cs) res) (\<lambda>(errCode, res).
                 if errCode \<noteq> NkErr_Ok then Done (errCode, None)
                 else obind (tail_loop join tailStrs res) (\<lambda>(errCode, res).
                        if errCode \<noteq> NkErr_Ok then Done (errCode, None) else Done (NkErr_Ok, Some res)))))"

definition Path_IsSeparator :: "char \<Rightarrow> bool" where
  "Path_IsSeparator sepCh \<longleftrightarrow> sepCh = CHR ''/'' \<or> sepCh = CHR 0x5C"

partial_function (option) native_loop :: "char \<Rightarrow> char option list \<Rightarrow> nat \<Rightarrow> char option list outcome option" where
  "native_loop nativeSep buf currCh =
     lbind (Some (buf_char buf currCh)) (\<lambda>c.
       let buf' = (if Path_IsSeparator c then buf[currCh := Some nativeSep] else buf)
       in lbind (Some (NkStringIterate buf' currCh)) (\<lambda>p. case p of None \<Rightarrow> Some (Done buf') | Some p \<Rightarrow> native_loop nativeSep buf' p))"

definition NkPathToNativeSeparators :: "NkString \<Rightarrow> NkString outcome" where
  "NkPathToNativeSeparators str =
     obind (NkStringAt str 0) (\<lambda>currCh.
     obind (of_loop (native_loop (hd0 QueryNativeSeparator) (st_charBuf str) currCh)) (\<lambda>buf. Done (str\<lparr>st_charBuf := buf\<rparr>)))"

subsection \<open>Queries\<close>

definition NkPathQueryStdLocation :: "string option list \<Rightarrow> nat \<Rightarrow> string option outcome" where
  "NkPathQueryStdLocation paths locId = nk_assert (locId < NkStdLoc_Count) NkErr_InParameter (mem_read paths locId)"

definition gl_c_GameDirs :: "string option list" where
  "gl_c_GameDirs = [None, Some ''bin'', Some ''data'', Some ''docs'', Some ''cache'', Some ''ext'', Some ''assets'', Some ''maps'', Some ''tilesets'']"

definition NkPathQueryGameDirectory :: "nat \<Rightarrow> string option outcome" where
  "NkPathQueryGameDirectory dirId = nk_assert (dirId < 9) NkErr_InParameter (mem_read gl_c_GameDirs dirId)"

definition gl_c_LocIdStrReps :: "string list" where
  "gl_c_LocIdStrReps = map (\<lambda>s. ''NkStdLoc_'' @ s) [''Unknown'', ''SystemRoot'', ''Desktop'', ''Documents'', ''Home'', ''Music'', ''Videos'',
     ''Downloads'', ''Fonts'', ''AppData'', ''AppDir'', ''GameSaves'', ''GameRoot'', ''GameBin'', ''GameData'', ''GameDocs'',
     ''GameCache'', ''GameAssets'', ''GameExt'']"

definition NkPathQueryStandardLocIdStr :: "nat \<Rightarrow> string outcome" where
  "NkPathQueryStandardLocIdStr locId = nk_assert (locId < NkStdLoc_Count) NkErr_InParameter (mem_read gl_c_LocIdStrReps locId)"

subsection \<open>Lemmas\<close>

text \<open>The text of a path.\<close>

fun path_stem :: "string \<Rightarrow> string list \<Rightarrow> string" where
  "path_stem sep [] = []"
| "path_stem sep [c] = c"
| "path_stem sep (c # cs) = c @ sep @ path_stem sep cs"

definition path_text :: "string \<Rightarrow> string list \<Rightarrow> string option \<Rightarrow> string option \<Rightarrow> string" where
  "path_text sep stem fileName extStr = path_stem sep stem
     @ (case fileName of None \<Rightarrow> [] | Some f \<Rightarrow> (if stem \<noteq> [] then sep else []) @ f)
     @ (case extStr of None \<Rightarrow> [] | Some e \<Rightarrow> (if fileName = None \<and> stem \<noteq> [] then sep else []) @ ''.'' @ e)"

abbreviation (input) join_to where
  "join_to heap spare inPlace \<equiv> (\<lambda>str s. NkStringJoin heap spare inPlace str s UINT32_MAX)"

lemma stem_loop_text:
  assumes "string_is m res s" "sep \<noteq> []" "[] \<notin> set cs" "length s + length (path_stem sep cs) \<le> m"
  shows "\<exists>res'. stem_loop (join_to heap spare inPlace) sep cs res = Done (NkErr_Ok, res') \<and> string_is m res' (s @ path_stem sep cs)"
  using assms
proof (induction sep cs arbitrary: res s rule: path_stem.induct)
  case (2 sep c)
  then show ?case using Join_ok[OF 2(1), of c heap spare inPlace] by auto
next
  case (3 sep c d cs)
  have len: "length s + length c \<le> m" "length (s @ c) + length sep \<le> m" "length (s @ c @ sep) + length (path_stem sep (d # cs)) \<le> m"
    using "3.prems"(4) by simp_all
  obtain r1 where r1: "NkStringJoin heap spare inPlace res c UINT32_MAX = Done (NkErr_Ok, r1)" "string_is m r1 (s @ c)"
    using Join_ok[OF "3.prems"(1) _ len(1), of heap spare inPlace] "3.prems"(3) by auto
  obtain r2 where r2: "NkStringJoin heap spare inPlace r1 sep UINT32_MAX = Done (NkErr_Ok, r2)" "string_is m r2 (s @ c @ sep)"
    using Join_ok[OF r1(2) "3.prems"(2) len(2), of heap spare inPlace] by auto
  show ?case using "3.IH"[OF r2(2) "3.prems"(2) _ len(3)] "3.prems"(3) r1(1) r2(1) by auto
qed simp

lemma tail_loop_text:
  assumes "string_is m res s" "Some [] \<notin> set ts" "length s + length (concat (map (case_option [] (\<lambda>x. x)) ts)) \<le> m"
  shows "\<exists>res'. tail_loop (join_to heap spare inPlace) ts res = Done (NkErr_Ok, res')
    \<and> string_is m res' (s @ concat (map (case_option [] (\<lambda>x. x)) ts))"
  using assms
proof (induction ts arbitrary: res s)
  case (Cons t ts)
  show ?case
  proof (cases t)
    case None
    then show ?thesis using Cons by auto
  next
    case (Some e)
    have len: "length s + length e \<le> m" "e \<noteq> []" using Cons.prems(2,3) Some by auto
    obtain r1 where r1: "NkStringJoin heap spare inPlace res e UINT32_MAX = Done (NkErr_Ok, r1)" "string_is m r1 (s @ e)"
      using Join_ok[OF Cons.prems(1) len(2,1), of heap spare inPlace] by auto
    show ?thesis using Cons.IH[OF r1(2)] Cons.prems(2,3) r1(1) Some by auto
  qed
qed simp

definition native_char :: "char \<Rightarrow> char" where
  "native_char c = (if Path_IsSeparator c then CHR 0x5C else c)"

definition native_text :: "string \<Rightarrow> string" where
  "native_text s = map native_char s"

lemma native_char_ok: "c \<noteq> NUL \<Longrightarrow> char_nat c < 128 \<Longrightarrow> native_char c \<noteq> NUL \<and> char_nat (native_char c) < 128"
  by (cases "Path_IsSeparator c") (simp_all add: native_char_def char_nat_def)

lemma ascii_text_simps [simp]:
  "ascii_text []" "ascii_text (c # s) \<longleftrightarrow> (c \<noteq> NUL \<and> char_nat c < 128) \<and> ascii_text s" "ascii_text (s @ t) \<longleftrightarrow> ascii_text s \<and> ascii_text t"
  unfolding ascii_text_def by auto

lemma ascii_native: "ascii_text s \<Longrightarrow> ascii_text (native_text s)"
  by (induction s) (simp_all add: native_text_def native_char_ok)

lemma native_loop_text:
  assumes "ascii_text s" "i \<le> length s"
  shows "native_loop (CHR 0x5C) (map Some (native_text (take i s) @ drop i s @ [NUL]) @ rest) i
    = Some (Done (map Some (native_text s @ [NUL]) @ rest))"
  using assms(2)
proof (induction "length s - i" arbitrary: i)
  case 0
  then have i: "i = length s" by simp
  let ?b = "map Some (native_text s @ [NUL]) @ rest"
  have h: "holds_text ?b (native_text s)" "length (native_text s) = length s" by (auto simp: holds_text_def native_text_def)
  have "buf_char ?b i = Done NUL" using buf_char_end[OF h(1)] h(2) i by simp
  then show ?case using i by (subst native_loop.simps) (simp add: Path_IsSeparator_def NkStringIterate_def)
next
  case (Suc n)
  then have i: "i < length s" by simp
  define t where "t k = native_text (take k s) @ drop k s" for k
  have hold: "holds_text (map Some (t k @ [NUL]) @ rest) (t k)" for k by (auto simp: holds_text_def)
  have at: "ascii_text (t k)" for k
  proof -
    have "ascii_text (take k s)" "ascii_text (drop k s)" using assms(1) ascii_text_simps(3)[of "take k s" "drop k s"] by simp_all
    then show ?thesis by (simp add: t_def ascii_native)
  qed
  have len: "length (t k) = length s" if "k \<le> length s" for k using that by (simp add: t_def native_text_def)
  have ti: "t i ! i = s ! i" "t (Suc i) = (t i)[i := native_char (s ! i)]"
    using i by (simp_all add: t_def native_text_def nth_append take_Suc_conv_app_nth list_update_append flip: Cons_nth_drop_Suc)
  have c: "buf_char (map Some (t i @ [NUL]) @ rest) i = Done (s ! i)" using CharSize_ascii(1)[OF hold at] len i ti(1) by simp
  have "(if Path_IsSeparator (s ! i) then (map Some (t i @ [NUL]) @ rest)[i := Some (CHR 0x5C)] else map Some (t i @ [NUL]) @ rest)
      = map Some (t (Suc i) @ [NUL]) @ rest"
  proof (cases "Path_IsSeparator (s ! i)")
    case True
    then show ?thesis using i len[of i] ti(2) by (simp add: native_char_def list_update_append map_update)
  next
    case False
    then have "t (Suc i) = t i" using i len[of i] ti by (simp add: native_char_def list_update_same_conv)
    then show ?thesis using False by simp
  qed
  moreover have "NkStringIterate (map Some (t (Suc i) @ [NUL]) @ rest) i = Done (Some (Suc i))"
    using Iterate_ascii[OF hold at, of i "Suc i"] len[of "Suc i"] i by simp
  moreover have "native_loop (CHR 0x5C) (map Some (t (Suc i) @ [NUL]) @ rest) (Suc i) = Some (Done (map Some (native_text s @ [NUL]) @ rest))"
    using Suc.hyps(1)[of "Suc i"] Suc.hyps(2) i by (simp add: t_def)
  ultimately have "native_loop (CHR 0x5C) (map Some (t i @ [NUL]) @ rest) i = Some (Done (map Some (native_text s @ [NUL]) @ rest))"
    using c by (subst native_loop.simps) (simp only: lbind_simps Let_def option.case)
  then show ?case by (simp add: t_def)
qed

text \<open>The loops over the locations, on a table of the right size: what they leave at every index.\<close>

definition folder_at :: "nat \<Rightarrow> string option" where
  "folder_at loc = gl_c_KnownFolderGUIDMap ! loc"

lemma MapToKNOWNFOLDERID_ok: "loc < 19 \<Longrightarrow> MapToKNOWNFOLDERID loc = Done (folder_at loc)"
  by (simp add: MapToKNOWNFOLDERID_def folder_at_def gl_c_KnownFolderGUIDMap_def)

lemma query_locs_loop_ok:
  assumes "\<forall>n. heap n" "c + n = 19" "length locs = 19"
  shows "query_locs_loop heap (\<lambda>g. Some (path g)) c n locs = Done (NkErr_Ok,
    take c locs @ map (\<lambda>i. case folder_at i of None \<Rightarrow> locs ! i | Some g \<Rightarrow> Some (path g)) [c..<19])"
  using assms(2,3)
proof (induction n arbitrary: c locs)
  case (Suc n)
  have c: "c < 19" using Suc.prems(1) by simp
  let ?l = "case folder_at c of None \<Rightarrow> locs | Some g \<Rightarrow> locs[c := Some (path g)]"
  have "query_locs_loop heap (\<lambda>g. Some (path g)) c (Suc n) locs = query_locs_loop heap (\<lambda>g. Some (path g)) (Suc c) n ?l"
    using assms(1) c by (simp add: MapToKNOWNFOLDERID_ok NkGPAlloc_def split: option.split)
  moreover have "take (Suc c) ?l = take c locs @ [case folder_at c of None \<Rightarrow> locs ! c | Some g \<Rightarrow> Some (path g)]" "length ?l = 19"
    using c Suc.prems(2) by (simp_all add: take_Suc_conv_app_nth split: option.split)
  moreover have "map (\<lambda>i. case folder_at i of None \<Rightarrow> ?l ! i | Some g \<Rightarrow> Some (path g)) [Suc c..<19]
      = map (\<lambda>i. case folder_at i of None \<Rightarrow> locs ! i | Some g \<Rightarrow> Some (path g)) [Suc c..<19]"
    by (intro map_cong refl) (auto split: option.split)
  ultimately show ?case using Suc.IH[of "Suc c" ?l] Suc.prems c by (simp add: upt_conv_Cons)
qed simp

lemma destroy_locs_loop_ok:
  assumes "c + n = 19" "length locs = 19"
  shows "destroy_locs_loop c n locs = Done (concat (map (\<lambda>i. case folder_at i of None \<Rightarrow> [] | Some g \<Rightarrow> case_option [] (\<lambda>s. [s]) (locs ! i)) [c..<19]),
    take c locs @ map (\<lambda>i. case folder_at i of None \<Rightarrow> locs ! i | Some g \<Rightarrow> None) [c..<19])"
  using assms
proof (induction n arbitrary: c locs)
  case (Suc n)
  have c: "c < 19" using Suc.prems(1) by simp
  let ?l = "case folder_at c of None \<Rightarrow> locs | Some g \<Rightarrow> locs[c := None]"
  have m: "map f [Suc c..<19] = map g [Suc c..<19]" if "\<And>i. i \<noteq> c \<Longrightarrow> f i = g i" for f g :: "nat \<Rightarrow> 'b"
    using that by (intro map_cong refl) auto
  have 1: "map (\<lambda>i. case folder_at i of None \<Rightarrow> ?l ! i | Some g \<Rightarrow> None) [Suc c..<19]
      = map (\<lambda>i. case folder_at i of None \<Rightarrow> locs ! i | Some g \<Rightarrow> None) [Suc c..<19]"
    by (intro map_cong refl) (auto split: option.split)
  have 2: "map (\<lambda>i. case folder_at i of None \<Rightarrow> [] | Some g \<Rightarrow> case_option [] (\<lambda>s. [s]) (?l ! i)) [Suc c..<19]
      = map (\<lambda>i. case folder_at i of None \<Rightarrow> [] | Some g \<Rightarrow> case_option [] (\<lambda>s. [s]) (locs ! i)) [Suc c..<19]"
    by (intro map_cong refl) (auto split: option.split)
  have 3: "take (Suc c) ?l = take c locs @ [case folder_at c of None \<Rightarrow> locs ! c | Some g \<Rightarrow> None]" "length ?l = 19"
    using c Suc.prems(2) by (simp_all add: take_Suc_conv_app_nth split: option.split)
  have u: "[c..<19] = c # [Suc c..<19]" using c by (simp add: upt_conv_Cons)
  show ?case using Suc.IH[of "Suc c" ?l] Suc.prems 1 2 3 c unfolding u
    by (cases "folder_at c") (simp_all add: MapToKNOWNFOLDERID_ok)
qed simp

subsection \<open>Properties\<close>



text \<open>Native separators.  In a string of ASCII characters every slash becomes a backslash; nothing else
  changes, the bytes behind the terminator included.\<close>

theorem path_native_separators:
  assumes "ascii_text s" "st_charBuf str = map Some (s @ [NUL]) @ rest"
  shows "NkPathToNativeSeparators str
    = Done (str\<lparr>st_charBuf := map Some (map (\<lambda>c. if c = CHR ''/'' then CHR 0x5C else c) s @ [NUL]) @ rest\<rparr>)"
proof -
  have "native_text s = map (\<lambda>c. if c = CHR ''/'' then CHR 0x5C else c) s"
    by (simp add: native_text_def native_char_def Path_IsSeparator_def)
  then show ?thesis using native_loop_text[OF assms(1), of 0 rest] assms(2)
    by (simp add: NkPathToNativeSeparators_def NkStringAt_def QueryNativeSeparator_def hd0_def native_text_def)
qed

theorem path_native_separators_witness:
  "NkPathToNativeSeparators \<lparr>st_currSize = 4, st_currLen = 3, st_charBuf = map Some (''a/b'' @ [NUL]) @ []\<rparr>
    = Done \<lparr>st_currSize = 4, st_currLen = 3, st_charBuf = map Some [CHR ''a'', CHR 0x5C, CHR ''b'', NUL]\<rparr>"
  using path_native_separators[of "''a/b''" "\<lparr>st_currSize = 4, st_currLen = 3, st_charBuf = map Some (''a/b'' @ [NUL]) @ []\<rparr>" "[]"]
  by (simp add: char_nat_def)

text \<open>The table of standard locations.  If the system knows every folder and memory is granted, start-up
  fills the ten platform locations and the game root and leaves the other game locations empty;
  shutdown empties the table again and frees each path of start-up once, the game root, which belongs
  to the application specification, included.\<close>

theorem path_service_locations:
  assumes "\<forall>n. heap n"
  shows "\<exists>paths. PathSrvStartup heap (\<lambda>g. Some (path g)) (Some gameRoot) gl_StandardPaths = Done (NkErr_Ok, paths)
    \<and> (\<forall>loc \<in> {0..<19}. NkPathQueryStdLocation paths loc
         = Done (if loc = 12 then Some gameRoot else map_option path (gl_c_KnownFolderGUIDMap ! loc)))
    \<and> PathSrvShutdown paths = Done (NkErr_Ok, map path (map the (drop 1 (take 11 gl_c_KnownFolderGUIDMap))) @ [gameRoot], gl_StandardPaths)"
proof -
  define q where "q = map (map_option path) gl_c_KnownFolderGUIDMap"
  have len: "length gl_c_KnownFolderGUIDMap = 19" by (simp add: gl_c_KnownFolderGUIDMap_def)
  have empty: "gl_StandardPaths = [None, None, None, None, None, None, None, None, None, None, None, None, None, None, None, None, None, None, None]"
    by (simp add: gl_StandardPaths_def eval_nat_numeral)
  have q: "QueryPlatformLocs heap (\<lambda>g. Some (path g)) gl_StandardPaths = Done (NkErr_Ok, q)"
    using query_locs_loop_ok[OF assms, of 1 18 gl_StandardPaths path]
    by (simp add: QueryPlatformLocs_def q_def gl_StandardPaths_def folder_at_def gl_c_KnownFolderGUIDMap_def upt_rec)
  have "PathSrvStartup heap (\<lambda>g. Some (path g)) (Some gameRoot) gl_StandardPaths = Done (NkErr_Ok, q[12 := Some gameRoot])"
    by (simp add: PathSrvStartup_def q) (simp add: q_def gl_c_GameLocs_def gl_c_KnownFolderGUIDMap_def)
  moreover have "PathSrvShutdown (q[12 := Some gameRoot])
      = Done (NkErr_Ok, map path (map the (drop 1 (take 11 gl_c_KnownFolderGUIDMap))) @ [gameRoot], gl_StandardPaths)"
    using destroy_locs_loop_ok[of 1 18 "q[12 := Some gameRoot]"] unfolding empty
    by (simp add: PathSrvShutdown_def DestroyPlatformLocs_def q_def gl_c_GameLocs_def folder_at_def gl_c_KnownFolderGUIDMap_def upt_rec)
  moreover have "\<forall>loc \<in> {0..<19}. NkPathQueryStdLocation (q[12 := Some gameRoot]) loc
      = Done (if loc = 12 then Some gameRoot else map_option path (gl_c_KnownFolderGUIDMap ! loc))"
    by (simp add: NkPathQueryStdLocation_def q_def nth_list_update len)
  ultimately show ?thesis by blast
qed

theorem path_service_locations_witness:
  "\<exists>paths. PathSrvStartup (\<lambda>_. True) (\<lambda>g. Some (''C:'' @ g)) (Some ''game'') gl_StandardPaths = Done (NkErr_Ok, paths)
    \<and> NkPathQueryStdLocation paths 4 = Done (Some ''C:FOLDERID_Profile'')"
  using path_service_locations[of "\<lambda>_. True" "\<lambda>g. ''C:'' @ g" "''game''"] by (fastforce simp: gl_c_KnownFolderGUIDMap_def)

end
