(* ===== verification/NkInput.thy ===== *)
theory NkInput
  imports NkText NkUtil
begin

unbundle bit_operations_syntax

section \<open>Input (src/Noriko/input.c, src/Noriko/platform/windows/wininput.c)\<close>

text \<open>
  Key codes and mouse buttons are numbers, the positions of their names in the enumerations.  The
  virtual key codes of the system are the argument \<open>vk\<close>, by their names; digits and letters have
  their character codes.  \<open>GetAsyncKeyState\<close> is an argument too.
\<close>

definition NK_MAX_NUM_KEY_CODES :: nat where "NK_MAX_NUM_KEY_CODES = 0x400"
definition NK_MAX_NUM_MOUSE_BTNS :: nat where "NK_MAX_NUM_MOUSE_BTNS = 0x20"

abbreviation (input) NkKey_Unknown :: nat where "NkKey_Unknown \<equiv> 0"
abbreviation (input) NkKey_Backspace :: nat where "NkKey_Backspace \<equiv> 1"
abbreviation (input) NkKey_Enter :: nat where "NkKey_Enter \<equiv> 2"
abbreviation (input) NkKey_Escape :: nat where "NkKey_Escape \<equiv> 3"
abbreviation (input) NkKey_Tab :: nat where "NkKey_Tab \<equiv> 4"
abbreviation (input) NkKey_CapsLock :: nat where "NkKey_CapsLock \<equiv> 5"
abbreviation (input) NkKey_LShift :: nat where "NkKey_LShift \<equiv> 6"
abbreviation (input) NkKey_RShift :: nat where "NkKey_RShift \<equiv> 7"
abbreviation (input) NkKey_LControl :: nat where "NkKey_LControl \<equiv> 8"
abbreviation (input) NkKey_RControl :: nat where "NkKey_RControl \<equiv> 9"
abbreviation (input) NkKey_LAlt :: nat where "NkKey_LAlt \<equiv> 10"
abbreviation (input) NkKey_RAlt :: nat where "NkKey_RAlt \<equiv> 11"
abbreviation (input) NkKey_LSuper :: nat where "NkKey_LSuper \<equiv> 12"
abbreviation (input) NkKey_RSuper :: nat where "NkKey_RSuper \<equiv> 13"
abbreviation (input) NkKey_Context :: nat where "NkKey_Context \<equiv> 14"
abbreviation (input) NkKey_F1 :: nat where "NkKey_F1 \<equiv> 15"
abbreviation (input) NkKey_F2 :: nat where "NkKey_F2 \<equiv> 16"
abbreviation (input) NkKey_F3 :: nat where "NkKey_F3 \<equiv> 17"
abbreviation (input) NkKey_F4 :: nat where "NkKey_F4 \<equiv> 18"
abbreviation (input) NkKey_F5 :: nat where "NkKey_F5 \<equiv> 19"
abbreviation (input) NkKey_F6 :: nat where "NkKey_F6 \<equiv> 20"
abbreviation (input) NkKey_F7 :: nat where "NkKey_F7 \<equiv> 21"
abbreviation (input) NkKey_F8 :: nat where "NkKey_F8 \<equiv> 22"
abbreviation (input) NkKey_F9 :: nat where "NkKey_F9 \<equiv> 23"
abbreviation (input) NkKey_F10 :: nat where "NkKey_F10 \<equiv> 24"
abbreviation (input) NkKey_F11 :: nat where "NkKey_F11 \<equiv> 25"
abbreviation (input) NkKey_F12 :: nat where "NkKey_F12 \<equiv> 26"
abbreviation (input) NkKey_Home :: nat where "NkKey_Home \<equiv> 27"
abbreviation (input) NkKey_End :: nat where "NkKey_End \<equiv> 28"
abbreviation (input) NkKey_PageUp :: nat where "NkKey_PageUp \<equiv> 29"
abbreviation (input) NkKey_PageDown :: nat where "NkKey_PageDown \<equiv> 30"
abbreviation (input) NkKey_Insert :: nat where "NkKey_Insert \<equiv> 31"
abbreviation (input) NkKey_Delete :: nat where "NkKey_Delete \<equiv> 32"
abbreviation (input) NkKey_PrintScreen :: nat where "NkKey_PrintScreen \<equiv> 33"
abbreviation (input) NkKey_Scroll :: nat where "NkKey_Scroll \<equiv> 34"
abbreviation (input) NkKey_Pause :: nat where "NkKey_Pause \<equiv> 35"
abbreviation (input) NkKey_Up :: nat where "NkKey_Up \<equiv> 36"
abbreviation (input) NkKey_Down :: nat where "NkKey_Down \<equiv> 37"
abbreviation (input) NkKey_Left :: nat where "NkKey_Left \<equiv> 38"
abbreviation (input) NkKey_Right :: nat where "NkKey_Right \<equiv> 39"
abbreviation (input) NkKey_NumLock :: nat where "NkKey_NumLock \<equiv> 40"
abbreviation (input) NkKey_Numpad0 :: nat where "NkKey_Numpad0 \<equiv> 41"
abbreviation (input) NkKey_Numpad1 :: nat where "NkKey_Numpad1 \<equiv> 42"
abbreviation (input) NkKey_Numpad2 :: nat where "NkKey_Numpad2 \<equiv> 43"
abbreviation (input) NkKey_Numpad3 :: nat where "NkKey_Numpad3 \<equiv> 44"
abbreviation (input) NkKey_Numpad4 :: nat where "NkKey_Numpad4 \<equiv> 45"
abbreviation (input) NkKey_Numpad5 :: nat where "NkKey_Numpad5 \<equiv> 46"
abbreviation (input) NkKey_Numpad6 :: nat where "NkKey_Numpad6 \<equiv> 47"
abbreviation (input) NkKey_Numpad7 :: nat where "NkKey_Numpad7 \<equiv> 48"
abbreviation (input) NkKey_Numpad8 :: nat where "NkKey_Numpad8 \<equiv> 49"
abbreviation (input) NkKey_Numpad9 :: nat where "NkKey_Numpad9 \<equiv> 50"
abbreviation (input) NkKey_NumpadPlus :: nat where "NkKey_NumpadPlus \<equiv> 51"
abbreviation (input) NkKey_NumpadMinus :: nat where "NkKey_NumpadMinus \<equiv> 52"
abbreviation (input) NkKey_NumpadMultiply :: nat where "NkKey_NumpadMultiply \<equiv> 53"
abbreviation (input) NkKey_NumpadDivide :: nat where "NkKey_NumpadDivide \<equiv> 54"
abbreviation (input) NkKey_NumpadSeparator :: nat where "NkKey_NumpadSeparator \<equiv> 55"
abbreviation (input) NkKey_NumpadDecimal :: nat where "NkKey_NumpadDecimal \<equiv> 56"
abbreviation (input) NkKey_Space :: nat where "NkKey_Space \<equiv> 57"
abbreviation (input) NkKey_Alnum0 :: nat where "NkKey_Alnum0 \<equiv> 58"
abbreviation (input) NkKey_Alnum1 :: nat where "NkKey_Alnum1 \<equiv> 59"
abbreviation (input) NkKey_Alnum2 :: nat where "NkKey_Alnum2 \<equiv> 60"
abbreviation (input) NkKey_Alnum3 :: nat where "NkKey_Alnum3 \<equiv> 61"
abbreviation (input) NkKey_Alnum4 :: nat where "NkKey_Alnum4 \<equiv> 62"
abbreviation (input) NkKey_Alnum5 :: nat where "NkKey_Alnum5 \<equiv> 63"
abbreviation (input) NkKey_Alnum6 :: nat where "NkKey_Alnum6 \<equiv> 64"
abbreviation (input) NkKey_Alnum7 :: nat where "NkKey_Alnum7 \<equiv> 65"
abbreviation (input) NkKey_Alnum8 :: nat where "NkKey_Alnum8 \<equiv> 66"
abbreviation (input) NkKey_Alnum9 :: nat where "NkKey_Alnum9 \<equiv> 67"
abbreviation (input) NkKey_AlnumA :: nat where "NkKey_AlnumA \<equiv> 68"
abbreviation (input) NkKey_AlnumB :: nat where "NkKey_AlnumB \<equiv> 69"
abbreviation (input) NkKey_AlnumC :: nat where "NkKey_AlnumC \<equiv> 70"
abbreviation (input) NkKey_AlnumD :: nat where "NkKey_AlnumD \<equiv> 71"
abbreviation (input) NkKey_AlnumE :: nat where "NkKey_AlnumE \<equiv> 72"
abbreviation (input) NkKey_AlnumF :: nat where "NkKey_AlnumF \<equiv> 73"
abbreviation (input) NkKey_AlnumG :: nat where "NkKey_AlnumG \<equiv> 74"
abbreviation (input) NkKey_AlnumH :: nat where "NkKey_AlnumH \<equiv> 75"
abbreviation (input) NkKey_AlnumI :: nat where "NkKey_AlnumI \<equiv> 76"
abbreviation (input) NkKey_AlnumJ :: nat where "NkKey_AlnumJ \<equiv> 77"
abbreviation (input) NkKey_AlnumK :: nat where "NkKey_AlnumK \<equiv> 78"
abbreviation (input) NkKey_AlnumL :: nat where "NkKey_AlnumL \<equiv> 79"
abbreviation (input) NkKey_AlnumM :: nat where "NkKey_AlnumM \<equiv> 80"
abbreviation (input) NkKey_AlnumN :: nat where "NkKey_AlnumN \<equiv> 81"
abbreviation (input) NkKey_AlnumO :: nat where "NkKey_AlnumO \<equiv> 82"
abbreviation (input) NkKey_AlnumP :: nat where "NkKey_AlnumP \<equiv> 83"
abbreviation (input) NkKey_AlnumQ :: nat where "NkKey_AlnumQ \<equiv> 84"
abbreviation (input) NkKey_AlnumR :: nat where "NkKey_AlnumR \<equiv> 85"
abbreviation (input) NkKey_AlnumS :: nat where "NkKey_AlnumS \<equiv> 86"
abbreviation (input) NkKey_AlnumT :: nat where "NkKey_AlnumT \<equiv> 87"
abbreviation (input) NkKey_AlnumU :: nat where "NkKey_AlnumU \<equiv> 88"
abbreviation (input) NkKey_AlnumV :: nat where "NkKey_AlnumV \<equiv> 89"
abbreviation (input) NkKey_AlnumW :: nat where "NkKey_AlnumW \<equiv> 90"
abbreviation (input) NkKey_AlnumX :: nat where "NkKey_AlnumX \<equiv> 91"
abbreviation (input) NkKey_AlnumY :: nat where "NkKey_AlnumY \<equiv> 92"
abbreviation (input) NkKey_AlnumZ :: nat where "NkKey_AlnumZ \<equiv> 93"
abbreviation (input) NkKey_Oem1 :: nat where "NkKey_Oem1 \<equiv> 94"
abbreviation (input) NkKey_Oem2 :: nat where "NkKey_Oem2 \<equiv> 95"
abbreviation (input) NkKey_Oem3 :: nat where "NkKey_Oem3 \<equiv> 96"
abbreviation (input) NkKey_Oem4 :: nat where "NkKey_Oem4 \<equiv> 97"
abbreviation (input) NkKey_Oem5 :: nat where "NkKey_Oem5 \<equiv> 98"
abbreviation (input) NkKey_Oem6 :: nat where "NkKey_Oem6 \<equiv> 99"
abbreviation (input) NkKey_Oem7 :: nat where "NkKey_Oem7 \<equiv> 100"
abbreviation (input) NkKey_Oem8 :: nat where "NkKey_Oem8 \<equiv> 101"
abbreviation (input) NkKey_Oem9 :: nat where "NkKey_Oem9 \<equiv> 102"
abbreviation (input) NkKey_Oem10 :: nat where "NkKey_Oem10 \<equiv> 103"
abbreviation (input) NkKey_Oem11 :: nat where "NkKey_Oem11 \<equiv> 104"

abbreviation (input) NkBtn_Unknown :: nat where "NkBtn_Unknown \<equiv> 0"
abbreviation (input) NkBtn_LeftButton :: nat where "NkBtn_LeftButton \<equiv> 1"
abbreviation (input) NkBtn_MiddleButton :: nat where "NkBtn_MiddleButton \<equiv> 2"
abbreviation (input) NkBtn_RightButton :: nat where "NkBtn_RightButton \<equiv> 3"
abbreviation (input) NkBtn_Button4 :: nat where "NkBtn_Button4 \<equiv> 4"
abbreviation (input) NkBtn_Button5 :: nat where "NkBtn_Button5 \<equiv> 5"

datatype nt_code = VK string | CH char

definition nt_num :: "(string \<Rightarrow> nat) \<Rightarrow> nt_code \<Rightarrow> nat" where
  "nt_num vk c = (case c of VK n \<Rightarrow> vk n | CH c \<Rightarrow> char_nat c)"

text \<open>An array of \<open>n\<close> elements with designated initialisers, zero elsewhere.\<close>

definition designated :: "nat \<Rightarrow> 'a \<Rightarrow> (nat \<times> 'a) list \<Rightarrow> 'a list" where
  "designated n z inits = foldl (\<lambda>a (i, v). a[i := v]) (replicate n z) inits"

subsection \<open>Names\<close>

definition gl_KeyCodeStrs :: "string option list" where
  "gl_KeyCodeStrs = designated NK_MAX_NUM_KEY_CODES None [(NkKey_Backspace, Some ''NkKey_Backspace''), (NkKey_Enter, Some ''NkKey_Enter''),
     (NkKey_Escape, Some ''NkKey_Escape''), (NkKey_Tab, Some ''NkKey_Tab''),
     (NkKey_CapsLock, Some ''NkKey_CapsLock''), (NkKey_LShift, Some ''NkKey_LShift''),
     (NkKey_RShift, Some ''NkKey_RShift''), (NkKey_LControl, Some ''NkKey_LControl''),
     (NkKey_RControl, Some ''NkKey_RControl''), (NkKey_LAlt, Some ''NkKey_LAlt''), (NkKey_RAlt, Some ''NkKey_RAlt''),
     (NkKey_LSuper, Some ''NkKey_LSuper''), (NkKey_RSuper, Some ''NkKey_RSuper''),
     (NkKey_Context, Some ''NkKey_Context''), (NkKey_F1, Some ''NkKey_F1''), (NkKey_F2, Some ''NkKey_F2''),
     (NkKey_F3, Some ''NkKey_F3''), (NkKey_F4, Some ''NkKey_F4''), (NkKey_F5, Some ''NkKey_F5''),
     (NkKey_F6, Some ''NkKey_F6''), (NkKey_F7, Some ''NkKey_F7''), (NkKey_F8, Some ''NkKey_F8''),
     (NkKey_F9, Some ''NkKey_F9''), (NkKey_F10, Some ''NkKey_F10''), (NkKey_F11, Some ''NkKey_F11''),
     (NkKey_F12, Some ''NkKey_F12''), (NkKey_Home, Some ''NkKey_Home''), (NkKey_End, Some ''NkKey_End''),
     (NkKey_PageUp, Some ''NkKey_PageUp''), (NkKey_PageDown, Some ''NkKey_PageDown''),
     (NkKey_Insert, Some ''NkKey_Insert''), (NkKey_Delete, Some ''NkKey_Delete''),
     (NkKey_PrintScreen, Some ''NkKey_PrintScreen''), (NkKey_Scroll, Some ''NkKey_Scroll''),
     (NkKey_Pause, Some ''NkKey_Pause''), (NkKey_Up, Some ''NkKey_Up''), (NkKey_Down, Some ''NkKey_Down''),
     (NkKey_Left, Some ''NkKey_Left''), (NkKey_Right, Some ''NkKey_Right''), (NkKey_NumLock, Some ''NkKey_NumLock''),
     (NkKey_Numpad0, Some ''NkKey_Numpad0''), (NkKey_Numpad1, Some ''NkKey_Numpad1''),
     (NkKey_Numpad2, Some ''NkKey_Numpad2''), (NkKey_Numpad3, Some ''NkKey_Numpad3''),
     (NkKey_Numpad4, Some ''NkKey_Numpad4''), (NkKey_Numpad5, Some ''NkKey_Numpad5''),
     (NkKey_Numpad6, Some ''NkKey_Numpad6''), (NkKey_Numpad7, Some ''NkKey_Numpad7''),
     (NkKey_Numpad8, Some ''NkKey_Numpad8''), (NkKey_Numpad9, Some ''NkKey_Numpad9''),
     (NkKey_NumpadPlus, Some ''NkKey_NumpadPlus''), (NkKey_NumpadMinus, Some ''NkKey_NumpadMinus''),
     (NkKey_NumpadMultiply, Some ''NkKey_NumpadMultiply''), (NkKey_NumpadDivide, Some ''NkKey_NumpadDivide''),
     (NkKey_NumpadSeparator, Some ''NkKey_NumpadSeparator''), (NkKey_NumpadDecimal, Some ''NkKey_NumpadDecimal''),
     (NkKey_Space, Some ''NkKey_Space''), (NkKey_Alnum0, Some ''NkKey_Alnum0''),
     (NkKey_Alnum1, Some ''NkKey_Alnum1''), (NkKey_Alnum2, Some ''NkKey_Alnum2''),
     (NkKey_Alnum3, Some ''NkKey_Alnum3''), (NkKey_Alnum4, Some ''NkKey_Alnum4''),
     (NkKey_Alnum5, Some ''NkKey_Alnum5''), (NkKey_Alnum6, Some ''NkKey_Alnum6''),
     (NkKey_Alnum7, Some ''NkKey_Alnum7''), (NkKey_Alnum8, Some ''NkKey_Alnum8''),
     (NkKey_Alnum9, Some ''NkKey_Alnum9''), (NkKey_AlnumA, Some ''NkKey_AlnumA''),
     (NkKey_AlnumB, Some ''NkKey_AlnumB''), (NkKey_AlnumC, Some ''NkKey_AlnumC''),
     (NkKey_AlnumD, Some ''NkKey_AlnumD''), (NkKey_AlnumE, Some ''NkKey_AlnumE''),
     (NkKey_AlnumF, Some ''NkKey_AlnumF''), (NkKey_AlnumG, Some ''NkKey_AlnumG''),
     (NkKey_AlnumH, Some ''NkKey_AlnumH''), (NkKey_AlnumI, Some ''NkKey_AlnumI''),
     (NkKey_AlnumJ, Some ''NkKey_AlnumJ''), (NkKey_AlnumK, Some ''NkKey_AlnumK''),
     (NkKey_AlnumL, Some ''NkKey_AlnumL''), (NkKey_AlnumM, Some ''NkKey_AlnumM''),
     (NkKey_AlnumN, Some ''NkKey_AlnumN''), (NkKey_AlnumO, Some ''NkKey_AlnumO''),
     (NkKey_AlnumP, Some ''NkKey_AlnumP''), (NkKey_AlnumQ, Some ''NkKey_AlnumQ''),
     (NkKey_AlnumR, Some ''NkKey_AlnumR''), (NkKey_AlnumS, Some ''NkKey_AlnumS''),
     (NkKey_AlnumT, Some ''NkKey_AlnumT''), (NkKey_AlnumU, Some ''NkKey_AlnumU''),
     (NkKey_AlnumV, Some ''NkKey_AlnumV''), (NkKey_AlnumW, Some ''NkKey_AlnumW''),
     (NkKey_AlnumX, Some ''NkKey_AlnumX''), (NkKey_AlnumY, Some ''NkKey_AlnumY''),
     (NkKey_AlnumZ, Some ''NkKey_AlnumZ''), (NkKey_Oem1, Some ''NkKey_Oem1''), (NkKey_Oem2, Some ''NkKey_Oem2''),
     (NkKey_Oem3, Some ''NkKey_Oem3''), (NkKey_Oem4, Some ''NkKey_Oem4''), (NkKey_Oem5, Some ''NkKey_Oem5''),
     (NkKey_Oem6, Some ''NkKey_Oem6''), (NkKey_Oem7, Some ''NkKey_Oem7''), (NkKey_Oem8, Some ''NkKey_Oem8''),
     (NkKey_Oem9, Some ''NkKey_Oem9''), (NkKey_Oem10, Some ''NkKey_Oem10''), (NkKey_Oem11, Some ''NkKey_Oem11'')]"

definition NkInputQueryKeyString :: "nat \<Rightarrow> string option outcome" where
  "NkInputQueryKeyString keyCode =
     nk_assert (keyCode < NK_MAX_NUM_KEY_CODES) NkErr_InParameter
    (mem_read gl_KeyCodeStrs (keyCode AND (NK_MAX_NUM_KEY_CODES - 1)))"

definition gl_MouseBtnStrs :: "string option list" where
  "gl_MouseBtnStrs = designated NK_MAX_NUM_MOUSE_BTNS None 
     [(NkBtn_LeftButton, Some ''NkBtn_LeftButton''), (NkBtn_MiddleButton, Some ''NkBtn_MiddleButton''),
     (NkBtn_RightButton, Some ''NkBtn_RightButton''), (NkBtn_Button4, Some ''NkBtn_Button4''),
     (NkBtn_Button5, Some ''NkBtn_Button5'')]"

definition NkInputQueryMouseButtonString :: "nat \<Rightarrow> string option outcome" where
  "NkInputQueryMouseButtonString mouseBtn =
     nk_assert (mouseBtn < NK_MAX_NUM_MOUSE_BTNS) NkErr_InParameter
    (mem_read gl_MouseBtnStrs (mouseBtn AND (NK_MAX_NUM_MOUSE_BTNS - 1)))"

subsection \<open>Translation of codes\<close>

definition nt2nk_pairs :: "(nt_code \<times> nat) list" where
  "nt2nk_pairs = [(VK ''BACK'', NkKey_Backspace), (VK ''TAB'', NkKey_Tab), (VK ''RETURN'', NkKey_Enter),
     (VK ''PAUSE'', NkKey_Pause), (VK ''CAPITAL'', NkKey_CapsLock), (VK ''ESCAPE'', NkKey_Escape),
     (VK ''SPACE'', NkKey_Space), (CH (CHR ''0''), NkKey_Alnum0), (CH (CHR ''1''), NkKey_Alnum1),
     (CH (CHR ''2''), NkKey_Alnum2), (CH (CHR ''3''), NkKey_Alnum3), (CH (CHR ''4''), NkKey_Alnum4),
     (CH (CHR ''5''), NkKey_Alnum5), (CH (CHR ''6''), NkKey_Alnum6), (CH (CHR ''7''), NkKey_Alnum7),
     (CH (CHR ''8''), NkKey_Alnum8), (CH (CHR ''9''), NkKey_Alnum9), (CH (CHR ''A''), NkKey_AlnumA),
     (CH (CHR ''B''), NkKey_AlnumB), (CH (CHR ''C''), NkKey_AlnumC), (CH (CHR ''D''), NkKey_AlnumD),
     (CH (CHR ''E''), NkKey_AlnumE), (CH (CHR ''F''), NkKey_AlnumF), (CH (CHR ''G''), NkKey_AlnumG),
     (CH (CHR ''H''), NkKey_AlnumH), (CH (CHR ''I''), NkKey_AlnumI), (CH (CHR ''J''), NkKey_AlnumJ),
     (CH (CHR ''K''), NkKey_AlnumK), (CH (CHR ''L''), NkKey_AlnumL), (CH (CHR ''M''), NkKey_AlnumM),
     (CH (CHR ''N''), NkKey_AlnumN), (CH (CHR ''O''), NkKey_AlnumO), (CH (CHR ''P''), NkKey_AlnumP),
     (CH (CHR ''Q''), NkKey_AlnumQ), (CH (CHR ''R''), NkKey_AlnumR), (CH (CHR ''S''), NkKey_AlnumS),
     (CH (CHR ''T''), NkKey_AlnumT), (CH (CHR ''U''), NkKey_AlnumU), (CH (CHR ''V''), NkKey_AlnumV),
     (CH (CHR ''W''), NkKey_AlnumW), (CH (CHR ''X''), NkKey_AlnumX), (CH (CHR ''Y''), NkKey_AlnumY),
     (CH (CHR ''Z''), NkKey_AlnumZ), (VK ''PRIOR'', NkKey_PageUp), (VK ''NEXT'', NkKey_PageDown),
     (VK ''END'', NkKey_End), (VK ''HOME'', NkKey_Home), (VK ''LEFT'', NkKey_Left), (VK ''UP'', NkKey_Up),
     (VK ''RIGHT'', NkKey_Right), (VK ''DOWN'', NkKey_Down), (VK ''SNAPSHOT'', NkKey_PrintScreen),
     (VK ''INSERT'', NkKey_Insert), (VK ''DELETE'', NkKey_Delete), (VK ''LWIN'', NkKey_LSuper),
     (VK ''RWIN'', NkKey_RSuper), (VK ''NUMPAD0'', NkKey_Numpad0), (VK ''NUMPAD1'', NkKey_Numpad1),
     (VK ''NUMPAD2'', NkKey_Numpad2), (VK ''NUMPAD3'', NkKey_Numpad3), (VK ''NUMPAD4'', NkKey_Numpad4),
     (VK ''NUMPAD5'', NkKey_Numpad5), (VK ''NUMPAD6'', NkKey_Numpad6), (VK ''NUMPAD7'', NkKey_Numpad7),
     (VK ''NUMPAD8'', NkKey_Numpad8), (VK ''NUMPAD9'', NkKey_Numpad9), (VK ''MULTIPLY'', NkKey_NumpadMultiply),
     (VK ''ADD'', NkKey_NumpadPlus), (VK ''SEPARATOR'', NkKey_NumpadSeparator), (VK ''SUBTRACT'', NkKey_NumpadMinus),
     (VK ''DECIMAL'', NkKey_NumpadDecimal), (VK ''DIVIDE'', NkKey_NumpadDivide), (VK ''F1'', NkKey_F1),
     (VK ''F2'', NkKey_F2), (VK ''F3'', NkKey_F3), (VK ''F4'', NkKey_F4), (VK ''F5'', NkKey_F5),
     (VK ''F6'', NkKey_F6), (VK ''F7'', NkKey_F7), (VK ''F8'', NkKey_F8), (VK ''F9'', NkKey_F9),
     (VK ''F10'', NkKey_F10), (VK ''F11'', NkKey_F11), (VK ''F12'', NkKey_F12), (VK ''NUMLOCK'', NkKey_NumLock),
     (VK ''SCROLL'', NkKey_Scroll), (VK ''LSHIFT'', NkKey_LShift), (VK ''RSHIFT'', NkKey_RShift),
     (VK ''LCONTROL'', NkKey_LControl), (VK ''RCONTROL'', NkKey_RControl), (VK ''LMENU'', NkKey_LAlt),
     (VK ''RMENU'', NkKey_RAlt), (VK ''OEM_1'', NkKey_Oem1), (VK ''OEM_PLUS'', NkKey_Oem2),
     (VK ''OEM_COMMA'', NkKey_Oem3), (VK ''OEM_MINUS'', NkKey_Oem4), (VK ''OEM_PERIOD'', NkKey_Oem5),
     (VK ''OEM_2'', NkKey_Oem6), (VK ''OEM_3'', NkKey_Oem7), (VK ''OEM_4'', NkKey_Oem8), (VK ''OEM_5'', NkKey_Oem9),
     (VK ''OEM_6'', NkKey_Oem10), (VK ''OEM_7'', NkKey_Oem11)]"

definition nk2nt_pairs :: "(nat \<times> nt_code) list" where
  "nk2nt_pairs = [(NkKey_Backspace, VK ''BACK''), (NkKey_Tab, VK ''TAB''), (NkKey_Enter, VK ''RETURN''),
     (NkKey_Pause, VK ''PAUSE''), (NkKey_CapsLock, VK ''CAPITAL''), (NkKey_Escape, VK ''ESCAPE''),
     (NkKey_Space, VK ''SPACE''), (NkKey_Alnum0, CH (CHR ''0'')), (NkKey_Alnum1, CH (CHR ''1'')),
     (NkKey_Alnum2, CH (CHR ''2'')), (NkKey_Alnum3, CH (CHR ''3'')), (NkKey_Alnum4, CH (CHR ''4'')),
     (NkKey_Alnum5, CH (CHR ''5'')), (NkKey_Alnum6, CH (CHR ''6'')), (NkKey_Alnum7, CH (CHR ''7'')),
     (NkKey_Alnum8, CH (CHR ''8'')), (NkKey_Alnum9, CH (CHR ''9'')), (NkKey_AlnumA, CH (CHR ''A'')),
     (NkKey_AlnumB, CH (CHR ''B'')), (NkKey_AlnumC, CH (CHR ''C'')), (NkKey_AlnumD, CH (CHR ''D'')),
     (NkKey_AlnumE, CH (CHR ''E'')), (NkKey_AlnumF, CH (CHR ''F'')), (NkKey_AlnumG, CH (CHR ''G'')),
     (NkKey_AlnumH, CH (CHR ''H'')), (NkKey_AlnumI, CH (CHR ''I'')), (NkKey_AlnumJ, CH (CHR ''J'')),
     (NkKey_AlnumK, CH (CHR ''K'')), (NkKey_AlnumL, CH (CHR ''L'')), (NkKey_AlnumM, CH (CHR ''M'')),
     (NkKey_AlnumN, CH (CHR ''N'')), (NkKey_AlnumO, CH (CHR ''O'')), (NkKey_AlnumP, CH (CHR ''P'')),
     (NkKey_AlnumQ, CH (CHR ''Q'')), (NkKey_AlnumR, CH (CHR ''R'')), (NkKey_AlnumS, CH (CHR ''S'')),
     (NkKey_AlnumT, CH (CHR ''T'')), (NkKey_AlnumU, CH (CHR ''U'')), (NkKey_AlnumV, CH (CHR ''V'')),
     (NkKey_AlnumW, CH (CHR ''W'')), (NkKey_AlnumX, CH (CHR ''X'')), (NkKey_AlnumY, CH (CHR ''Y'')),
     (NkKey_AlnumZ, CH (CHR ''Z'')), (NkKey_PageUp, VK ''PRIOR''), (NkKey_PageDown, VK ''NEXT''),
     (NkKey_End, VK ''END''), (NkKey_Home, VK ''HOME''), (NkKey_Left, VK ''LEFT''), (NkKey_Up, VK ''UP''),
     (NkKey_Right, VK ''RIGHT''), (NkKey_Down, VK ''DOWN''), (NkKey_PrintScreen, VK ''SNAPSHOT''),
     (NkKey_Insert, VK ''INSERT''), (NkKey_Delete, VK ''DELETE''), (NkKey_LSuper, VK ''LWIN''),
     (NkKey_RSuper, VK ''RWIN''), (NkKey_Numpad0, VK ''NUMPAD0''), (NkKey_Numpad1, VK ''NUMPAD1''),
     (NkKey_Numpad2, VK ''NUMPAD2''), (NkKey_Numpad3, VK ''NUMPAD3''), (NkKey_Numpad4, VK ''NUMPAD4''),
     (NkKey_Numpad5, VK ''NUMPAD5''), (NkKey_Numpad6, VK ''NUMPAD6''), (NkKey_Numpad7, VK ''NUMPAD7''),
     (NkKey_Numpad8, VK ''NUMPAD8''), (NkKey_Numpad9, VK ''NUMPAD9''), (NkKey_NumpadMultiply, VK ''MULTIPLY''),
     (NkKey_NumpadPlus, VK ''ADD''), (NkKey_NumpadSeparator, VK ''SEPARATOR''), (NkKey_NumpadMinus, VK ''SUBTRACT''),
     (NkKey_NumpadDecimal, VK ''DECIMAL''), (NkKey_NumpadDivide, VK ''DIVIDE''), (NkKey_F1, VK ''F1''),
     (NkKey_F2, VK ''F2''), (NkKey_F3, VK ''F3''), (NkKey_F4, VK ''F4''), (NkKey_F5, VK ''F5''),
     (NkKey_F6, VK ''F6''), (NkKey_F7, VK ''F7''), (NkKey_F8, VK ''F8''), (NkKey_F9, VK ''F9''),
     (NkKey_F10, VK ''F10''), (NkKey_F11, VK ''F11''), (NkKey_F12, VK ''F12''), (NkKey_NumLock, VK ''NUMLOCK''),
     (NkKey_Scroll, VK ''SCROLL''), (NkKey_LShift, VK ''LSHIFT''), (NkKey_RShift, VK ''RSHIFT''),
     (NkKey_LControl, VK ''LCONTROL''), (NkKey_RControl, VK ''RCONTROL''), (NkKey_LAlt, VK ''LMENU''),
     (NkKey_RAlt, VK ''RMENU''), (NkKey_Oem1, VK ''OEM_1''), (NkKey_Oem2, VK ''OEM_PLUS''),
     (NkKey_Oem3, VK ''OEM_COMMA''), (NkKey_Oem4, VK ''OEM_MINUS''), (NkKey_Oem5, VK ''OEM_PERIOD''),
     (NkKey_Oem6, VK ''OEM_2''), (NkKey_Oem7, VK ''OEM_3''), (NkKey_Oem8, VK ''OEM_4''), (NkKey_Oem9, VK ''OEM_5''),
     (NkKey_Oem10, VK ''OEM_6''), (NkKey_Oem11, VK ''OEM_7'')]"

definition gl_Nt2NkKeyMapping :: "(string \<Rightarrow> nat) \<Rightarrow> nat list" where
  "gl_Nt2NkKeyMapping vk = designated NK_MAX_NUM_KEY_CODES 0 (map (\<lambda>(c, k). (nt_num vk c, k)) nt2nk_pairs)"

text \<open>The signed code is converted to an unsigned one for the mask.\<close>

definition MapFromNativeKey :: "(string \<Rightarrow> nat) \<Rightarrow> int \<Rightarrow> nat outcome" where
  "MapFromNativeKey vk ntKeyCode = mem_read (gl_Nt2NkKeyMapping vk) (nat (ntKeyCode AND (int NK_MAX_NUM_KEY_CODES - 1)))"

definition gl_Nt2NkMouseBtnMapping :: "(string \<Rightarrow> nat) \<Rightarrow> nat list" where
  "gl_Nt2NkMouseBtnMapping vk = designated NK_MAX_NUM_MOUSE_BTNS 0
     (map (\<lambda>(c, b). (vk c, b)) [(''LBUTTON'', NkBtn_LeftButton), (''MBUTTON'', NkBtn_MiddleButton), (''RBUTTON'', NkBtn_RightButton),
        (''XBUTTON1'', NkBtn_Button4), (''XBUTTON2'', NkBtn_Button5)])"

definition MapFromNativeMouseButton :: "(string \<Rightarrow> nat) \<Rightarrow> int \<Rightarrow> nat outcome" where
  "MapFromNativeMouseButton vk ntMouseBtn =
     mem_read (gl_Nt2NkMouseBtnMapping vk) (nat (ntMouseBtn AND (int NK_MAX_NUM_MOUSE_BTNS - 1)))"

definition gl_Nk2NtKeyMapping :: "(string \<Rightarrow> nat) \<Rightarrow> nat list" where
  "gl_Nk2NtKeyMapping vk = designated NK_MAX_NUM_KEY_CODES 0 (map (\<lambda>(k, c). (k, nt_num vk c)) nk2nt_pairs)"

definition MapToNativeKey :: "(string \<Rightarrow> nat) \<Rightarrow> nat \<Rightarrow> nat outcome" where
  "MapToNativeKey vk keyCode = mem_read (gl_Nk2NtKeyMapping vk) (keyCode AND (NK_MAX_NUM_KEY_CODES - 1))"

definition gl_Nk2NtMouseBtnMapping :: "(string \<Rightarrow> nat) \<Rightarrow> nat list" where
  "gl_Nk2NtMouseBtnMapping vk = designated NK_MAX_NUM_MOUSE_BTNS 0
     (map (\<lambda>(b, c). (b, vk c)) [(NkBtn_LeftButton, ''LBUTTON''), (NkBtn_MiddleButton, ''MBUTTON''), (NkBtn_RightButton, ''RBUTTON''),
        (NkBtn_Button4, ''XBUTTON1''), (NkBtn_Button5, ''XBUTTON2'')])"

definition MapToNativeMouseButton :: "(string \<Rightarrow> nat) \<Rightarrow> nat \<Rightarrow> nat outcome" where
  "MapToNativeMouseButton vk mouseBtn = mem_read (gl_Nk2NtMouseBtnMapping vk) (mouseBtn AND (NK_MAX_NUM_MOUSE_BTNS - 1))"

subsection \<open>State of the keys\<close>

definition IsKeyPressed :: "(string \<Rightarrow> nat) \<Rightarrow> (nat \<Rightarrow> 16 word) \<Rightarrow> nat \<Rightarrow> bool outcome" where
  "IsKeyPressed vk GetAsyncKeyState keyCode =
     nk_assert (keyCode < NK_MAX_NUM_KEY_CODES) NkErr_InParameter
    (obind (MapToNativeKey vk keyCode) (\<lambda>c. Done (GetAsyncKeyState c AND 0x8000 \<noteq> 0)))"

definition IsMouseButtonPressed :: "(string \<Rightarrow> nat) \<Rightarrow> (nat \<Rightarrow> 16 word) \<Rightarrow> nat \<Rightarrow> bool outcome" where
  "IsMouseButtonPressed vk GetAsyncKeyState mouseBtn =
     nk_assert (mouseBtn < NK_MAX_NUM_MOUSE_BTNS) NkErr_InParameter
    (obind (MapToNativeMouseButton vk mouseBtn) (\<lambda>c. Done (GetAsyncKeyState c AND 0x8000 \<noteq> 0)))"

definition GetMousePosition :: "(int \<times> int) option \<Rightarrow> NkPoint2D" where
  "GetMousePosition GetCursorPos = (case GetCursorPos of None \<Rightarrow> \<lparr>m_xCoord = 0, m_yCoord = 0\<rparr> | Some (x, y) \<Rightarrow> \<lparr>m_xCoord = word_of_int x, m_yCoord = word_of_int y\<rparr>)"

fun modifier_bits :: "(nat \<Rightarrow> bool outcome) \<Rightarrow> nat \<Rightarrow> nat list \<Rightarrow> nat outcome" where
  "modifier_bits pressed i [] = Done 0"
| "modifier_bits pressed i (k # ks) =
     obind (pressed k) (\<lambda>b. obind (modifier_bits pressed (Suc i) ks) (\<lambda>r. Done (push_bit i (of_bool b) OR r)))"

definition GetModifierKeyStates :: "(string \<Rightarrow> nat) \<Rightarrow> (nat \<Rightarrow> 16 word) \<Rightarrow> nat outcome" where
  "GetModifierKeyStates vk GetAsyncKeyState =
     modifier_bits (IsKeyPressed vk GetAsyncKeyState) 0
       [NkKey_LShift, NkKey_RShift, NkKey_LControl, NkKey_RControl, NkKey_Context, NkKey_LAlt, NkKey_RAlt, NkKey_LSuper, NkKey_RSuper]"

definition WindowsInput_QueryInterface :: "NkUuid \<Rightarrow> NkUuid \<Rightarrow> 'o \<Rightarrow> NkUuid \<Rightarrow> NkErrorCode \<times> 'o option" where
  "WindowsInput_QueryInterface iidBase iidInput self iId =
     (if NkUuidIsEqual iId iidBase \<or> NkUuidIsEqual iId iidInput then (NkErr_Ok, Some self) else (NkErr_InterfaceNotImpl, None))"

definition IAL_Startup :: NkErrorCode where
  "IAL_Startup = NkErr_Ok"

definition IAL_Shutdown :: NkErrorCode where
  "IAL_Shutdown = NkErr_Ok"

subsection \<open>Lemmas\<close>

lemma length_designated [simp]: "length (designated n z inits) = n"
proof -
  have "length (foldl (\<lambda>a (i, v). a[i := v]) a inits) = length a" for a :: "'a list"
    by (induction inits arbitrary: a) auto
  then show ?thesis by (simp add: designated_def)
qed

lemma foldl_set_other: "i \<notin> fst ` set inits \<Longrightarrow> foldl (\<lambda>a (i, v). a[i := v]) a inits ! i = a ! i"
  by (induction inits arbitrary: a) auto

lemma designated_in:
  assumes "distinct (map fst inits)" "(i, v) \<in> set inits" "i < n"
  shows "designated n z inits ! i = v"
proof -
  have "i < length a \<Longrightarrow> foldl (\<lambda>a (i, v). a[i := v]) a inits ! i = v" for a :: "'a list"
    using assms(1,2)
  proof (induction inits arbitrary: a)
    case (Cons p inits)
    then show ?case by (cases p; cases "p = (i, v)") (auto simp: foldl_set_other)
  qed simp
  then show ?thesis using assms(3) by (simp add: designated_def)
qed

lemma designated_out: "i \<notin> fst ` set inits \<Longrightarrow> i < n \<Longrightarrow> designated n z inits ! i = z"
  by (simp add: designated_def foldl_set_other)

lemma mask_small: "k < 2 ^ m \<Longrightarrow> k AND (2 ^ m - 1) = (k :: nat)"
  using take_bit_nat_eq_self[of k m] by (simp add: take_bit_eq_mask mask_eq_exp_minus_1)

lemma key_mask: "k < 1024 \<Longrightarrow> k AND (NK_MAX_NUM_KEY_CODES - 1) = k" "k < 32 \<Longrightarrow> k AND (NK_MAX_NUM_MOUSE_BTNS - 1) = k"
  using mask_small[of k 10] mask_small[of k 5] by (simp_all add: NK_MAX_NUM_KEY_CODES_def NK_MAX_NUM_MOUSE_BTNS_def)

lemma mask_small_int: "k < 2 ^ m \<Longrightarrow> nat (int k AND (2 ^ m - 1)) = k"
  using take_bit_int_eq_self[of "int k" m] by (simp add: take_bit_eq_mask mask_eq_exp_minus_1)

lemma key_mask_int: "k < 1024 \<Longrightarrow> nat (int k AND (int NK_MAX_NUM_KEY_CODES - 1)) = k"
    "k < 32 \<Longrightarrow> nat (int k AND (int NK_MAX_NUM_MOUSE_BTNS - 1)) = k"
  using mask_small_int[of k 10] mask_small_int[of k 5] by (simp_all add: NK_MAX_NUM_KEY_CODES_def NK_MAX_NUM_MOUSE_BTNS_def)

text \<open>The two tables are converse to each other and leave out two keys.\<close>

lemma pairs_converse: "nt2nk_pairs = map (\<lambda>(k, c). (c, k)) nk2nt_pairs"
  by (simp add: nt2nk_pairs_def nk2nt_pairs_def)

lemma nk_keys_sorted: "sort (map fst nk2nt_pairs) = filter (\<lambda>k. k \<noteq> 14) [1..<105]"
  by code_simp

lemma distinct_nk: "distinct (map fst nk2nt_pairs)"
  using nk_keys_sorted by (metis distinct_filter distinct_sort distinct_upt)

lemma set_nk: "set (map fst nk2nt_pairs) = {1..<105} - {14}"
proof -
  have "set (map fst nk2nt_pairs) = set (filter (\<lambda>k. k \<noteq> 14) [1..<105])"
    unfolding nk_keys_sorted[symmetric] set_sort ..
  then show ?thesis by auto
qed

text \<open>What is used of the codes of the system: codes of different keys differ and fit into the tables.\<close>

definition btn_codes :: "string list" where
  "btn_codes = [''LBUTTON'', ''MBUTTON'', ''RBUTTON'', ''XBUTTON1'', ''XBUTTON2'']"

definition vk_ok :: "(string \<Rightarrow> nat) \<Rightarrow> bool" where
  "vk_ok vk \<longleftrightarrow> distinct (map (\<lambda>p. nt_num vk (fst p)) nt2nk_pairs) \<and> list_all (\<lambda>p. nt_num vk (fst p) < 1024) nt2nk_pairs
     \<and> distinct (map vk btn_codes) \<and> list_all (\<lambda>n. vk n < 32) btn_codes"

lemma NkKey_bound: "(k, c) \<in> set nk2nt_pairs \<Longrightarrow> k < 105"
  using set_nk by (metis (no_types, lifting) DiffD1 atLeastLessThan_iff fst_conv image_eqI set_map)

lemma MapToNativeKey_pair:
  assumes "(k, c) \<in> set nk2nt_pairs"
  shows "MapToNativeKey vk k = Done (nt_num vk c)"
proof -
  have "gl_Nk2NtKeyMapping vk ! k = nt_num vk c"
    using distinct_nk assms NkKey_bound[OF assms] unfolding gl_Nk2NtKeyMapping_def
    by (intro designated_in) (force simp: comp_def case_prod_beta NK_MAX_NUM_KEY_CODES_def)+
  moreover have "k < 1024" using NkKey_bound[OF assms] by simp
  ultimately show ?thesis
    by (simp add: MapToNativeKey_def key_mask[simplified] gl_Nk2NtKeyMapping_def) (simp add: NK_MAX_NUM_KEY_CODES_def)
qed

lemma MapFromNativeKey_pair:
  assumes "vk_ok vk" "(k, c) \<in> set nk2nt_pairs"
  shows "MapFromNativeKey vk (int (nt_num vk c)) = Done k"
proof -
  have m: "(c, k) \<in> set nt2nk_pairs" using assms(2) by (force simp: pairs_converse)
  then have l: "nt_num vk c < 1024" using assms(1) by (auto simp: vk_ok_def list_all_iff)
  have "gl_Nt2NkKeyMapping vk ! nt_num vk c = k"
    using assms(1) m l unfolding gl_Nt2NkKeyMapping_def vk_ok_def
    by (intro designated_in) (force simp: comp_def case_prod_beta NK_MAX_NUM_KEY_CODES_def)+
  then show ?thesis using l
    by (simp add: MapFromNativeKey_def key_mask_int gl_Nt2NkKeyMapping_def) (simp add: NK_MAX_NUM_KEY_CODES_def)
qed

lemma MapToNativeKey_none:
  assumes "k < 1024" "k \<notin> {1..<105} - {14}"
  shows "MapToNativeKey vk k = Done 0"
proof -
  have "fst ` set (map (\<lambda>(k, c). (k, nt_num vk c)) nk2nt_pairs) = {1..<105} - {14}"
    unfolding set_nk[symmetric] by force
  then have "k \<notin> fst ` set (map (\<lambda>(k, c). (k, nt_num vk c)) nk2nt_pairs)"
    using assms(2) by simp
  then show ?thesis using assms(1)
    by (simp add: MapToNativeKey_def key_mask[simplified] gl_Nk2NtKeyMapping_def designated_out) (simp add: NK_MAX_NUM_KEY_CODES_def designated_out)
qed

lemma key_has_pair: "k \<in> {1..<105} - {14} \<Longrightarrow> \<exists>n c. (n, c) \<in> set nk2nt_pairs \<and> k = n"
  unfolding set_nk[symmetric] by force

lemma MapToNativeMouseButton_ok:
  assumes "0 < b" "b \<le> 5"
  shows "MapToNativeMouseButton vk b = Done (vk (btn_codes ! (b - 1)))"
proof -
  have "(b, vk (btn_codes ! (b - 1))) \<in> {(1, vk ''LBUTTON''), (2, vk ''MBUTTON''), (3, vk ''RBUTTON''), (4, vk ''XBUTTON1''), (5, vk ''XBUTTON2'')}"
    using assms by (cases b; simp add: btn_codes_def nth_Cons' split: if_splits)
  then have "gl_Nk2NtMouseBtnMapping vk ! b = vk (btn_codes ! (b - 1))"
    unfolding gl_Nk2NtMouseBtnMapping_def using assms
    by (intro designated_in) (auto simp: NK_MAX_NUM_MOUSE_BTNS_def)
  then show ?thesis using assms
    by (simp add: MapToNativeMouseButton_def key_mask[simplified] gl_Nk2NtMouseBtnMapping_def) (simp add: NK_MAX_NUM_MOUSE_BTNS_def)
qed

lemma MapFromNativeMouseButton_ok:
  assumes "vk_ok vk" "0 < b" "b \<le> 5"
  shows "MapFromNativeMouseButton vk (int (vk (btn_codes ! (b - 1)))) = Done b"
proof -
  have m: "(vk (btn_codes ! (b - 1)), b) \<in> {(vk ''LBUTTON'', 1), (vk ''MBUTTON'', 2), (vk ''RBUTTON'', 3), (vk ''XBUTTON1'', 4), (vk ''XBUTTON2'', 5)}"
    using assms(2,3) by (cases b; simp add: btn_codes_def nth_Cons' split: if_splits)
  have l: "vk (btn_codes ! (b - 1)) < 32" using assms by (simp add: vk_ok_def list_all_length) (simp add: btn_codes_def)
  have "gl_Nt2NkMouseBtnMapping vk ! vk (btn_codes ! (b - 1)) = b"
    unfolding gl_Nt2NkMouseBtnMapping_def using assms(1) m l
    by (intro designated_in) (auto simp: NK_MAX_NUM_MOUSE_BTNS_def vk_ok_def btn_codes_def)
  then show ?thesis using l
    by (simp add: MapFromNativeMouseButton_def key_mask_int gl_Nt2NkMouseBtnMapping_def) (simp add: NK_MAX_NUM_MOUSE_BTNS_def)
qed

lemma high_bit: "w AND 0x8000 \<noteq> 0 \<longleftrightarrow> bit w 15" for w :: "16 word"
  using bit_iff_and_push_bit_not_eq_0[of w 15] by simp

lemma IsKeyPressed_ok:
  assumes "k < 1024" "MapToNativeKey vk k = Done c"
  shows "IsKeyPressed vk st k = Done (bit (st c) 15)"
  using assms by (simp add: IsKeyPressed_def high_bit NK_MAX_NUM_KEY_CODES_def)

lemma modifier_bits_ok:
  assumes "\<And>k. k \<in> set ks \<Longrightarrow> pressed k = Done (P k)"
  shows "\<exists>r. modifier_bits pressed i ks = Done r \<and> (\<forall>j. bit r j \<longleftrightarrow> i \<le> j \<and> j < i + length ks \<and> P (ks ! (j - i)))"
  using assms
proof (induction ks arbitrary: i)
  case (Cons k ks)
  obtain r where r: "modifier_bits pressed (Suc i) ks = Done r"
      "\<forall>j. bit r j \<longleftrightarrow> Suc i \<le> j \<and> j < Suc i + length ks \<and> P (ks ! (j - Suc i))"
    using Cons.IH[of "Suc i"] Cons.prems by auto
  have "bit (push_bit i (of_bool (P k)) OR r) j \<longleftrightarrow> i \<le> j \<and> j < i + length (k # ks) \<and> P ((k # ks) ! (j - i))" for j
    using r(2) by (cases "j = i") (auto simp: bit_simps nth_Cons')
  then show ?case using r(1) Cons.prems by auto
qed simp

subsection \<open>Properties\<close>

text \<open>C36: Translation of key codes.  If the codes of the system are different for different keys and fit into
  the tables, every key but the unknown one and the context key, and every mouse button but the
  unknown one, is translated to a code of the system that is translated back to it.  The other key
  codes are translated to 0.\<close>

theorem input_codes_roundtrip:
  assumes "vk_ok vk" "k < NK_MAX_NUM_KEY_CODES" "0 < b" "b \<le> 5"
  shows "(if 0 < k \<and> k < 105 \<and> k \<noteq> 14 then \<exists>c. MapToNativeKey vk k = Done c \<and> MapFromNativeKey vk (int c) = Done k
     else MapToNativeKey vk k = Done 0)
    \<and> (\<exists>c. MapToNativeMouseButton vk b = Done c \<and> MapFromNativeMouseButton vk (int c) = Done b)"
proof (cases "0 < k \<and> k < 105 \<and> k \<noteq> 14")
  case True
  then obtain n c where "(n, c) \<in> set nk2nt_pairs" "k = n" using key_has_pair[of k] by auto
  then show ?thesis
    using True MapToNativeKey_pair MapFromNativeKey_pair[OF assms(1)] MapToNativeMouseButton_ok MapFromNativeMouseButton_ok assms by auto
next
  case False
  then show ?thesis
    using MapToNativeKey_none[of k vk] MapToNativeMouseButton_ok MapFromNativeMouseButton_ok assms by (auto simp: NK_MAX_NUM_KEY_CODES_def)
qed

definition win_vk :: "string \<Rightarrow> nat" where
  "win_vk n = (case map_of [(''BACK'', 8), (''TAB'', 9), (''RETURN'', 13), (''PAUSE'', 19), (''CAPITAL'', 20), (''ESCAPE'', 27),
     (''SPACE'', 32), (''PRIOR'', 33), (''NEXT'', 34), (''END'', 35), (''HOME'', 36), (''LEFT'', 37), (''UP'', 38),
     (''RIGHT'', 39), (''DOWN'', 40), (''SNAPSHOT'', 44), (''INSERT'', 45), (''DELETE'', 46), (''LWIN'', 91),
     (''RWIN'', 92), (''NUMPAD0'', 96), (''NUMPAD1'', 97), (''NUMPAD2'', 98), (''NUMPAD3'', 99), (''NUMPAD4'', 100),
     (''NUMPAD5'', 101), (''NUMPAD6'', 102), (''NUMPAD7'', 103), (''NUMPAD8'', 104), (''NUMPAD9'', 105),
     (''MULTIPLY'', 106), (''ADD'', 107), (''SEPARATOR'', 108), (''SUBTRACT'', 109), (''DECIMAL'', 110),
     (''DIVIDE'', 111), (''F1'', 112), (''F2'', 113), (''F3'', 114), (''F4'', 115), (''F5'', 116), (''F6'', 117),
     (''F7'', 118), (''F8'', 119), (''F9'', 120), (''F10'', 121), (''F11'', 122), (''F12'', 123), (''NUMLOCK'', 144),
     (''SCROLL'', 145), (''LSHIFT'', 160), (''RSHIFT'', 161), (''LCONTROL'', 162), (''RCONTROL'', 163),
     (''LMENU'', 164), (''RMENU'', 165), (''OEM_1'', 186), (''OEM_PLUS'', 187), (''OEM_COMMA'', 188),
     (''OEM_MINUS'', 189), (''OEM_PERIOD'', 190), (''OEM_2'', 191), (''OEM_3'', 192), (''OEM_4'', 219),
     (''OEM_5'', 220), (''OEM_6'', 221), (''OEM_7'', 222), (''LBUTTON'', 1), (''MBUTTON'', 4), (''RBUTTON'', 2),
     (''XBUTTON1'', 5), (''XBUTTON2'', 6)] n of None \<Rightarrow> 0 | Some c \<Rightarrow> c)"

lemma win_codes: "map (\<lambda>p. nt_num win_vk (fst p)) nt2nk_pairs = [8, 9, 13, 19, 20, 27, 32, 48, 49, 50, 51, 52, 53, 54, 55, 56, 57, 65, 66, 67, 68, 69, 70, 71, 72, 73, 74, 75, 76, 77, 78, 79, 80, 81, 82, 83, 84, 85, 86, 87, 88, 89, 90, 33, 34, 35, 36, 37, 38, 39, 40, 44, 45, 46, 91, 92, 96, 97, 98, 99, 100, 101, 102, 103, 104, 105, 106, 107, 108, 109, 110, 111, 112, 113, 114, 115, 116, 117, 118, 119, 120, 121, 122, 123, 144, 145, 160, 161, 162, 163, 164, 165, 186, 187, 188, 189, 190, 191, 192, 219, 220, 221, 222]"
  by code_simp

lemma win_vk_ok: "vk_ok win_vk"
proof -
  have "list_all (\<lambda>p. nt_num win_vk (fst p) < 1024) nt2nk_pairs \<longleftrightarrow> list_all (\<lambda>c. c < 1024) (map (\<lambda>p. nt_num win_vk (fst p)) nt2nk_pairs)"
    by (simp add: list.pred_map comp_def)
  then show ?thesis unfolding vk_ok_def win_codes by (simp add: btn_codes_def win_vk_def)
qed

theorem input_codes_roundtrip_witness:
  "(\<exists>c. MapToNativeKey win_vk 90 = Done c \<and> MapFromNativeKey win_vk (int c) = Done 90)
    \<and> (\<exists>c. MapToNativeMouseButton win_vk 3 = Done c \<and> MapFromNativeMouseButton win_vk (int c) = Done 3)"
  using input_codes_roundtrip[OF win_vk_ok, of 90 3] by (simp add: NK_MAX_NUM_KEY_CODES_def)

text \<open>Modifier keys.  Each of the nine bits of the state is set exactly if the system reports the key of that
  bit as held down.  The bit of the context key, for which there is no code, follows code 0.\<close>

theorem input_modifier_bits:
  "\<exists>m. GetModifierKeyStates vk GetAsyncKeyState = Done m \<and> (\<forall>j. bit m j \<longleftrightarrow> j < 9 \<and>
     bit (GetAsyncKeyState ([vk ''LSHIFT'', vk ''RSHIFT'', vk ''LCONTROL'', vk ''RCONTROL'', 0, vk ''LMENU'', vk ''RMENU'', vk ''LWIN'', vk ''RWIN''] ! j)) 15)"
proof -
  define code where "code k = (case map_of nk2nt_pairs k of None \<Rightarrow> 0 | Some c \<Rightarrow> nt_num vk c)" for k
  define ks where "ks = [6, 7, 8, 9, 14, 10, 11, 12, 13 :: nat]"
  have l: "length ks = 9" "\<And>k. k \<in> set ks \<Longrightarrow> k < 1024" by (auto simp: ks_def)
  have "MapToNativeKey vk k = Done (code k)" if "k < 1024" for k
  proof (cases "map_of nk2nt_pairs k")
    case None
    then have "k \<notin> set (map fst nk2nt_pairs)" by (simp add: map_of_eq_None_iff)
    then show ?thesis using MapToNativeKey_none[of k vk] that unfolding set_nk code_def None by simp
  next
    case (Some c)
    then show ?thesis using MapToNativeKey_pair[OF map_of_SomeD[OF Some]] by (simp add: code_def)
  qed
  then have "IsKeyPressed vk GetAsyncKeyState k = Done (bit (GetAsyncKeyState (code k)) 15)" if "k \<in> set ks" for k
    using that l(2) by (intro IsKeyPressed_ok) auto
  then obtain r where r: "modifier_bits (IsKeyPressed vk GetAsyncKeyState) 0 ks = Done r"
      "\<forall>j. bit r j \<longleftrightarrow> j < 9 \<and> bit (GetAsyncKeyState (code (ks ! j))) 15"
    using modifier_bits_ok[of ks "IsKeyPressed vk GetAsyncKeyState" "\<lambda>k. bit (GetAsyncKeyState (code k)) 15" 0] l(1) by auto
  let ?cs = "[vk ''LSHIFT'', vk ''RSHIFT'', vk ''LCONTROL'', vk ''RCONTROL'', 0, vk ''LMENU'', vk ''RMENU'', vk ''LWIN'', vk ''RWIN'']"
  have c: "map code ks = ?cs" by (simp add: ks_def code_def nk2nt_pairs_def nt_num_def)
  have "code (ks ! j) = ?cs ! j" if "j < 9" for j unfolding c[symmetric] using that l(1) by simp
  then have "\<forall>j. bit r j \<longleftrightarrow> j < 9 \<and> bit (GetAsyncKeyState (?cs ! j)) 15" using r(2) by (simp cong: conj_cong)
  then show ?thesis using r(1) unfolding GetModifierKeyStates_def ks_def by blast
qed

end
