(* ===== verification/NkIO.thy ===== *)
theory NkIO
  imports NkOM NkBitmap
begin

unbundle bit_operations_syntax

section \<open>Streams and files (src/Noriko/io.c, src/Noriko/platform/windows/winfilesys.c)\<close>

text \<open>
  The streams of the C library are modelled as far as they are used: a file is the list of its bytes, a
  \<open>FILE\<close> names its file and has a position and the characters of its mode.  Arguments are which paths the
  system lets the process open, how many bytes of a request the device transfers, what a file opened
  in text mode delivers and stores, and whether flushing succeeds.
\<close>

datatype file_id = Named string | Temp nat

record c_file =
  cf_id :: file_id
  cf_pos :: nat
  cf_mode :: string

record io_world =
  io_files :: "file_id \<Rightarrow> byte list option"
  io_temps :: nat

record c_stdio =
  io_canOpen :: "string \<Rightarrow> bool"
  io_canTemp :: bool
  io_transfer :: "nat \<Rightarrow> nat"
  io_text_read :: "byte list \<Rightarrow> nat \<Rightarrow> byte list \<times> nat"
  io_text_write :: "byte list \<Rightarrow> byte list"
  io_canFlush :: bool

definition contents :: "io_world \<Rightarrow> file_id \<Rightarrow> byte list" where
  "contents w f = (case io_files w f of None \<Rightarrow> [] | Some bs \<Rightarrow> bs)"

definition set_contents :: "file_id \<Rightarrow> byte list \<Rightarrow> io_world \<Rightarrow> io_world" where
  "set_contents f bs w = w\<lparr>io_files := (io_files w)(f := Some bs)\<rparr>"

definition fopen_s :: "c_stdio \<Rightarrow> string \<Rightarrow> string \<Rightarrow> io_world \<Rightarrow> c_file option \<times> io_world" where
  "fopen_s io path mode w =
     (let f = Named path; h = Some \<lparr>cf_id = f, cf_pos = 0, cf_mode = mode\<rparr> in
      if \<not> io_canOpen io path then (None, w)
      else if hd0 mode = CHR ''r'' then (if io_files w f = None then (None, w) else (h, w))
      else if hd0 mode = CHR ''w'' then (if CHR ''x'' \<in> set mode \<and> io_files w f \<noteq> None then (None, w) else (h, set_contents f [] w))
      else if hd0 mode = CHR ''a'' then (h, if io_files w f = None then set_contents f [] w else w)
      else (None, w))"

definition tmpfile_s :: "c_stdio \<Rightarrow> io_world \<Rightarrow> c_file option \<times> io_world" where
  "tmpfile_s io w =
     (if io_canTemp io
      then (Some \<lparr>cf_id = Temp (io_temps w), cf_pos = 0, cf_mode = ''w+b''\<rparr>, set_contents (Temp (io_temps w)) [] (w\<lparr>io_temps := Suc (io_temps w)\<rparr>))
      else (None, w))"

text \<open>The bytes that are read and the stream afterwards; nothing when the stream is not open for reading.\<close>

definition fread_s :: "c_stdio \<Rightarrow> nat \<Rightarrow> c_file \<Rightarrow> io_world \<Rightarrow> byte list \<times> c_file" where
  "fread_s io s h w =
     (if hd0 (cf_mode h) \<noteq> CHR ''r'' \<and> CHR ''+'' \<notin> set (cf_mode h) then ([], h)
      else let rest = drop (cf_pos h) (contents w (cf_id h)); n = min s (io_transfer io s);
               (bs, used) = (if CHR ''b'' \<in> set (cf_mode h) then (take n rest, min n (length rest)) else io_text_read io rest n)
           in (bs, h\<lparr>cf_pos := cf_pos h + used\<rparr>))"

text \<open>A stream opened for appending writes at the end; a gap before the position is filled with zeros.\<close>

definition store_at :: "nat \<Rightarrow> byte list \<Rightarrow> byte list \<Rightarrow> byte list" where
  "store_at pos bs old = take pos (old @ replicate (pos - length old) 0) @ bs @ drop (pos + length bs) old"

definition fwrite_c :: "c_stdio \<Rightarrow> byte list \<Rightarrow> c_file \<Rightarrow> io_world \<Rightarrow> nat \<times> c_file \<times> io_world" where
  "fwrite_c io bs h w =
     (if hd0 (cf_mode h) = CHR ''r'' \<and> CHR ''+'' \<notin> set (cf_mode h) then (0, h, w)
      else let n = min (length bs) (io_transfer io (length bs));
               out = (if CHR ''b'' \<in> set (cf_mode h) then take n bs else io_text_write io (take n bs));
               old = contents w (cf_id h);
               pos = (if hd0 (cf_mode h) = CHR ''a'' then length old else cf_pos h)
           in (n, h\<lparr>cf_pos := pos + length out\<rparr>, set_contents (cf_id h) (store_at pos out old) w))"

datatype seek_origin = SEEK_SET | SEEK_CUR | SEEK_END

definition fseeki64 :: "seek_origin \<Rightarrow> int \<Rightarrow> c_file \<Rightarrow> io_world \<Rightarrow> c_file option" where
  "fseeki64 ori offset h w =
     (let p = (case ori of SEEK_SET \<Rightarrow> 0 | SEEK_CUR \<Rightarrow> int (cf_pos h) | SEEK_END \<Rightarrow> int (length (contents w (cf_id h)))) + offset
      in if p < 0 then None else Some (h\<lparr>cf_pos := nat p\<rparr>))"

subsection \<open>Modes\<close>

abbreviation (input) NkStrMd_Unknown :: nat where "NkStrMd_Unknown \<equiv> 0"
abbreviation (input) NkStrMd_Read :: nat where "NkStrMd_Read \<equiv> 1"
abbreviation (input) NkStrMd_Write :: nat where "NkStrMd_Write \<equiv> 2"
abbreviation (input) NkStrMd_Append :: nat where "NkStrMd_Append \<equiv> 4"
abbreviation (input) NkStrMd_Text :: nat where "NkStrMd_Text \<equiv> 8"
abbreviation (input) NkStrMd_Binary :: nat where "NkStrMd_Binary \<equiv> 16"
abbreviation (input) NkStrMd_TempFile :: nat where "NkStrMd_TempFile \<equiv> 32"
abbreviation (input) NkStrMd_MustNotExist :: nat where "NkStrMd_MustNotExist \<equiv> 64"
abbreviation (input) NkStrMd_Count :: nat where "NkStrMd_Count \<equiv> 65"

definition File_CompileIOModeIdent :: "nat \<Rightarrow> string option" where
  "File_CompileIOModeIdent mode =
     (let base = mode AND (NkStrMd_Read OR NkStrMd_Write OR NkStrMd_Append) in
      if base \<noteq> NkStrMd_Read \<and> base \<noteq> NkStrMd_Write \<and> base \<noteq> NkStrMd_Append then None
      else let res = (if base = NkStrMd_Read then ''r'' else if base = NkStrMd_Write then ''w'' else ''a'');
               res = (if mode AND NkStrMd_Read \<noteq> 0 \<and> mode AND NkStrMd_Write \<noteq> 0 then res @ ''+'' else res);
               res = (if mode AND NkStrMd_Binary \<noteq> 0 then res @ ''b'' else res)
           in if mode AND NkStrMd_MustNotExist \<noteq> 0
              then (if mode AND NkStrMd_Write = 0 then None else Some (res @ ''x''))
              else Some res)"

definition File_MapFromSeekOrigin :: "nat \<Rightarrow> seek_origin option" where
  "File_MapFromSeekOrigin ori = (if ori = 0 then Some SEEK_SET else if ori = 1 then Some SEEK_CUR else if ori = 2 then Some SEEK_END else None)"

subsection \<open>The file object\<close>

record NkIFile =
  fl_refCount :: int
  fl_strMode :: nat
  fl_fileDsc :: "c_file option"

definition File_AddRef :: "NkIFile \<Rightarrow> int \<times> NkIFile" where
  "File_AddRef self = (let n = fl_refCount self + 1 in (n, self\<lparr>fl_refCount := n\<rparr>))"

definition File_Close :: "NkIFile \<Rightarrow> NkIFile" where
  "File_Close self = (if fl_fileDsc self \<noteq> None then self\<lparr>fl_fileDsc := None, fl_strMode := NkStrMd_Unknown\<rparr> else self)"

text \<open>The object is \<open>None\<close> after it has been freed.\<close>

definition File_Release :: "NkIFile \<Rightarrow> int \<times> NkIFile option" where
  "File_Release self =
     (let self = self\<lparr>fl_refCount := fl_refCount self - 1\<rparr> in
      if fl_refCount self \<le> 0 then (0, None) else (fl_refCount self, Some self))"

definition IID_NkIStream :: NkUuid where
  "IID_NkIStream = [0xcb, 0xe0, 0x68, 0x72, 0x6c, 0x37, 0x19, 0x40, 0x9c, 0x8d, 0x3d, 0xfb, 0x50, 0x85, 0x4a, 0x96]"

definition IID_NkIFile :: NkUuid where
  "IID_NkIFile = [0x40, 0x13, 0xdd, 0xf3, 0xac, 0x2c, 0x00, 0x4d, 0x3f, 0xe1, 0x56, 0x80, 0xa5, 0x23, 0x7e, 0x93]"

definition IID_NkIFilesystem :: NkUuid where
  "IID_NkIFilesystem = [0x16, 0xab, 0x91, 0xb1, 0xbc, 0x42, 0xac, 0x4a, 0x61, 0x04, 0x8a, 0xef, 0x95, 0xbd, 0x9f, 0x95]"

definition CLSID_NkIFile :: NkUuid where
  "CLSID_NkIFile = [0x25, 0x4d, 0x95, 0x5d, 0xff, 0x55, 0x76, 0x49, 0x73, 0xf5, 0x54, 0xca, 0xdd, 0xa9, 0xfa, 0x8a]"

definition File_QueryInterface :: "NkUuid \<Rightarrow> NkIFile \<Rightarrow> NkErrorCode \<times> bool \<times> NkIFile" where
  "File_QueryInterface iId self =
     (if NkOMQueryImplementationIndex [IID_NkIBase, IID_NkIStream, IID_NkIFile] iId \<noteq> SIZE_MAX
      then (NkErr_Ok, True, snd (File_AddRef self))
      else (NkErr_InterfaceNotImpl, False, self))"

record NkStreamStat =
  ss_structSize :: nat
  ss_type :: nat
  ss_ioMode :: nat
  ss_times :: "nat \<times> nat \<times> nat"
  ss_size :: nat
  ss_currOff :: nat

definition zero_stat :: NkStreamStat where
  "zero_stat = \<lparr>ss_structSize = 0, ss_type = 0, ss_ioMode = 0, ss_times = (0, 0, 0), ss_size = 0, ss_currOff = 0\<rparr>"

text \<open>\<open>stamps\<close> are the time stamps that \<open>_fstat64\<close> finds, or it fails.\<close>

definition File_GetStat :: "(nat \<times> nat \<times> nat) option \<Rightarrow> NkIFile \<Rightarrow> io_world \<Rightarrow> NkErrorCode \<times> NkStreamStat" where
  "File_GetStat stamps self w =
     (case fl_fileDsc self of
        None \<Rightarrow> (NkErr_ObjectState, zero_stat)
      | Some h \<Rightarrow> (case stamps of
          None \<Rightarrow> (NkErr_OpenFile, zero_stat)
        | Some t \<Rightarrow> (NkErr_Ok, \<lparr>ss_structSize = 56, ss_type = 2, ss_ioMode = fl_strMode self, ss_times = t,
            ss_size = length (contents w (cf_id h)), ss_currOff = cf_pos h\<rparr>)))"

definition File_Read :: "c_stdio \<Rightarrow> nat \<Rightarrow> NkIFile \<Rightarrow> io_world \<Rightarrow> (NkErrorCode \<times> byte list \<times> NkIFile) outcome" where
  "File_Read io s self w =
     nk_assert (0 < s) NkErr_InParameter
    (case fl_fileDsc self of
       None \<Rightarrow> Done (NkErr_ObjectState, [], self)
     | Some h \<Rightarrow>
         if fl_strMode self AND NkStrMd_Read = 0 then Done (NkErr_InvStreamMode, [], self)
         else let (bs, h') = fread_s io s h w
              in Done (if length bs \<noteq> s then NkErr_ErrorDuringDiskIO else NkErr_Ok, bs, self\<lparr>fl_fileDsc := Some h'\<rparr>))"

definition File_Write :: "c_stdio \<Rightarrow> byte list \<Rightarrow> NkIFile \<Rightarrow> io_world \<Rightarrow> (NkErrorCode \<times> nat \<times> NkIFile \<times> io_world) outcome" where
  "File_Write io bs self w =
     nk_assert (0 < length bs) NkErr_InParameter
    (case fl_fileDsc self of
       None \<Rightarrow> Done (NkErr_ObjectState, 0, self, w)
     | Some h \<Rightarrow>
         if fl_strMode self AND NkStrMd_Write = 0 then Done (NkErr_InvStreamMode, 0, self, w)
         else let (n, h', w') = fwrite_c io bs h w
              in Done (if n \<noteq> length bs then NkErr_ErrorDuringDiskIO else NkErr_Ok, n, self\<lparr>fl_fileDsc := Some h'\<rparr>, w'))"

definition File_Open :: "c_stdio \<Rightarrow> string \<Rightarrow> nat \<Rightarrow> NkIFile \<Rightarrow> io_world \<Rightarrow> (NkErrorCode \<times> NkIFile \<times> io_world) outcome" where
  "File_Open io pathStr mode self w =
     nk_assert (pathStr \<noteq> []) NkErr_InParameter
    (let onerror = self\<lparr>fl_fileDsc := None, fl_strMode := NkStrMd_Unknown\<rparr> in
     if fl_fileDsc self \<noteq> None then Done (NkErr_ObjectState, self, w)
     else if mode AND NkStrMd_TempFile \<noteq> 0
     then (case tmpfile_s io w of
             (None, w') \<Rightarrow> Done (NkErr_OpenFile, onerror, w')
           | (Some h, w') \<Rightarrow> Done (NkErr_Ok, self\<lparr>fl_fileDsc := Some h, fl_strMode := NkStrMd_TempFile\<rparr>, w'))
     else case File_CompileIOModeIdent mode of
            None \<Rightarrow> Done (NkErr_InvStreamMode, onerror, w)
          | Some oModeId \<Rightarrow> (case fopen_s io pathStr oModeId w of
               (None, w') \<Rightarrow> Done (NkErr_OpenFile, onerror, w')
             | (Some h, w') \<Rightarrow> Done (NkErr_Ok, self\<lparr>fl_fileDsc := Some h, fl_strMode := mode\<rparr>, w')))"

definition File_Seek :: "nat \<Rightarrow> int \<Rightarrow> NkIFile \<Rightarrow> io_world \<Rightarrow> (NkErrorCode \<times> NkIFile) outcome" where
  "File_Seek origin offset self w =
     nk_assert (origin < 3) NkErr_InParameter
    (case fl_fileDsc self of
       None \<Rightarrow> Done (NkErr_ObjectState, self)
     | Some h \<Rightarrow> (case File_MapFromSeekOrigin origin of
          None \<Rightarrow> Done (NkErr_InvSeekOrigin, self)
        | Some sOri \<Rightarrow> (case fseeki64 sOri offset h w of
             None \<Rightarrow> Done (NkErr_StreamSeek, self)
           | Some h' \<Rightarrow> Done (NkErr_Ok, self\<lparr>fl_fileDsc := Some h'\<rparr>))))"

definition File_Flush :: "c_stdio \<Rightarrow> NkIFile \<Rightarrow> NkErrorCode" where
  "File_Flush io self = (if fl_fileDsc self = None then NkErr_ObjectState else if io_canFlush io then NkErr_Ok else NkErr_StreamFlush)"

subsection \<open>The factory\<close>

text \<open>
  The objects behind the object model: the static factory and the file objects in the pool.  \<open>ih_pool\<close> is the
  answer of the pool allocator to the next request and \<open>ih_next\<close> the block it hands out; \<open>ih_fault\<close> records a method
  call on an object that has been freed.
\<close>

datatype io_obj = IoFactory | FileAt nat

record io_objs =
  ih_files :: "nat \<Rightarrow> NkIFile option"
  ih_next :: nat
  ih_pool :: NkErrorCode
  ih_fault :: bool

type_synonym io_om = "(io_obj, io_objs) om_context"

definition put_file :: "nat \<Rightarrow> NkIFile option \<Rightarrow> io_om \<Rightarrow> io_om" where
  "put_file a f st = st\<lparr>om_objs := (om_objs st)\<lparr>ih_files := (ih_files (om_objs st))(a := f)\<rparr>\<rparr>"

definition io_fault :: "io_om \<Rightarrow> io_om" where
  "io_fault st = st\<lparr>om_objs := (om_objs st)\<lparr>ih_fault := True\<rparr>\<rparr>"

definition IoFac_QueryInterface :: "NkUuid \<Rightarrow> NkErrorCode" where
  "IoFac_QueryInterface iId =
     (if NkUuidIsEqual iId IID_NkIBase \<or> NkUuidIsEqual iId IID_NkIClassFactory then NkErr_Ok else NkErr_InterfaceNotImpl)"

definition IoFac_QueryInstantiableClasses :: "64 word \<Rightarrow> (64 word \<times> NkUuid) list" where
  "IoFac_QueryInstantiableClasses clsAddr = [(clsAddr, CLSID_NkIFile)]"

definition new_file :: NkIFile where
  "new_file = snd (File_AddRef \<lparr>fl_refCount = 0, fl_strMode = NkStrMd_Unknown, fl_fileDsc = None\<rparr>)"

definition IoFac_CreateInstance :: "NkUuid \<Rightarrow> io_om \<Rightarrow> NkErrorCode \<times> io_obj option \<times> io_om" where
  "IoFac_CreateInstance clsId st =
     (if NkOMQueryImplementationIndex [CLSID_NkIFile] clsId = SIZE_MAX then (NkErr_UnknownClass, None, st)
      else if ih_pool (om_objs st) \<noteq> NkErr_Ok then (ih_pool (om_objs st), None, st)
      else let a = ih_next (om_objs st) in
        (NkErr_Ok, Some (FileAt a), put_file a (Some new_file) (st\<lparr>om_objs := (om_objs st)\<lparr>ih_next := Suc a\<rparr>\<rparr>)))"

definition io_QueryInterface :: "io_obj \<Rightarrow> NkUuid \<Rightarrow> io_om \<Rightarrow> NkErrorCode \<times> io_obj option \<times> io_om" where
  "io_QueryInterface ob iId st =
     (case ob of
        IoFactory \<Rightarrow> (let ec = IoFac_QueryInterface iId in (ec, if ec = NkErr_Ok then Some ob else None, st))
      | FileAt a \<Rightarrow> (case ih_files (om_objs st) a of
          None \<Rightarrow> (NkErr_Ok, None, io_fault st)
        | Some f \<Rightarrow> (let (ec, found, f') = File_QueryInterface iId f in (ec, if found then Some ob else None, put_file a (Some f') st))))"

definition io_AddRef :: "io_obj \<Rightarrow> io_om \<Rightarrow> io_om" where
  "io_AddRef ob st =
     (case ob of IoFactory \<Rightarrow> st
      | FileAt a \<Rightarrow> (case ih_files (om_objs st) a of None \<Rightarrow> io_fault st | Some f \<Rightarrow> put_file a (Some (snd (File_AddRef f))) st))"

definition io_Release :: "io_obj \<Rightarrow> io_om \<Rightarrow> io_om" where
  "io_Release ob st =
     (case ob of IoFactory \<Rightarrow> st
      | FileAt a \<Rightarrow> (case ih_files (om_objs st) a of None \<Rightarrow> io_fault st | Some f \<Rightarrow> put_file a (snd (File_Release f)) st))"

definition io_vt :: "64 word \<Rightarrow> (io_obj, unit, io_objs) om_vt" where
  "io_vt clsAddr =
     \<lparr>om_QueryInterface = io_QueryInterface, om_AddRef = io_AddRef, om_Release = io_Release,
      om_Initialize = (\<lambda>ob ip st. (NkErr_Ok, io_fault st)),
      om_QueryInstantiableClasses = (\<lambda>ob st. (IoFac_QueryInstantiableClasses clsAddr, st)),
      om_CreateInstance = (\<lambda>ob clsId ctrlInst st. IoFac_CreateInstance clsId st)\<rparr>"

definition IoSrvStartup :: "heap_answer \<Rightarrow> byte list \<Rightarrow> 64 word \<Rightarrow> io_om \<Rightarrow> (NkErrorCode \<times> io_om) outcome" where
  "IoSrvStartup heap behind clsAddr st = NkOMInstallClassFactory heap behind (io_vt clsAddr) IoFactory st"

definition IoSrvShutdown :: "byte list \<Rightarrow> 64 word \<Rightarrow> io_om \<Rightarrow> (NkErrorCode \<times> io_om) outcome" where
  "IoSrvShutdown behind clsAddr st = NkOMUninstallClassFactory behind (io_vt clsAddr) IoFactory st"

subsection \<open>The file system\<close>

text \<open>
  The file system as the functions of the Windows API show it: \<open>fs_attributes\<close> is \<open>GetFileAttributesA\<close> (all ones on
  failure), \<open>fs_stat\<close> the mode that \<open>stat\<close> reports, the others are what the calls do to the files.
\<close>

record win_fs =
  fs_attributes :: "string \<Rightarrow> io_world \<Rightarrow> 32 word"
  fs_exists :: "string \<Rightarrow> io_world \<Rightarrow> bool"
  fs_stat :: "string \<Rightarrow> io_world \<Rightarrow> nat option"
  fs_mkdir :: "string \<Rightarrow> io_world \<Rightarrow> bool \<times> io_world"
  fs_delete :: "string \<Rightarrow> io_world \<Rightarrow> io_world"
  fs_rmdir :: "string \<Rightarrow> io_world \<Rightarrow> io_world"
  fs_setwd :: "string \<Rightarrow> string option \<Rightarrow> string option"

definition WinFilesys_QueryInterface :: "NkUuid \<Rightarrow> NkErrorCode \<times> bool" where
  "WinFilesys_QueryInterface iId =
     (if NkUuidIsEqual iId IID_NkIBase \<or> NkUuidIsEqual iId IID_NkIFilesystem then (NkErr_Ok, True) else (NkErr_InterfaceNotImpl, False))"

text \<open>The working directory of the process is \<open>None\<close> when the system cannot name it.\<close>

definition WinFilesys_GetWorkingDirectory :: "heap_answer \<Rightarrow> string option \<Rightarrow> string option" where
  "WinFilesys_GetWorkingDirectory heap wd =
     (case wd of None \<Rightarrow> None | Some d \<Rightarrow> if heap (length d + 1) then Some d else None)"

definition WinFilesys_SetWorkingDirectory :: "win_fs \<Rightarrow> string \<Rightarrow> string option \<Rightarrow> string option outcome" where
  "WinFilesys_SetWorkingDirectory fs pathStr wd = nk_assert (pathStr \<noteq> []) NkErr_InParameter (Done (fs_setwd fs pathStr wd))"

definition WinFilesys_Exists :: "win_fs \<Rightarrow> string \<Rightarrow> io_world \<Rightarrow> bool" where
  "WinFilesys_Exists fs pathStr w = fs_exists fs pathStr w"

abbreviation (input) FILE_ATTRIBUTE_DIRECTORY :: "32 word" where "FILE_ATTRIBUTE_DIRECTORY \<equiv> 0x10"
abbreviation (input) FILE_ATTRIBUTE_NORMAL :: "32 word" where "FILE_ATTRIBUTE_NORMAL \<equiv> 0x80"
abbreviation (input) INVALID_FILE_ATTRIBUTES :: "32 word" where "INVALID_FILE_ATTRIBUTES \<equiv> 0xFFFFFFFF"

definition WinFilesys_IsDirectory :: "win_fs \<Rightarrow> string \<Rightarrow> io_world \<Rightarrow> bool outcome" where
  "WinFilesys_IsDirectory fs pathStr w =
     nk_assert (pathStr \<noteq> []) NkErr_InParameter (Done (fs_attributes fs pathStr w AND FILE_ATTRIBUTE_DIRECTORY \<noteq> 0))"

definition WinFilesys_IsFile :: "win_fs \<Rightarrow> string \<Rightarrow> io_world \<Rightarrow> bool outcome" where
  "WinFilesys_IsFile fs pathStr w =
     nk_assert (pathStr \<noteq> []) NkErr_InParameter (Done (fs_attributes fs pathStr w AND FILE_ATTRIBUTE_NORMAL \<noteq> 0))"

definition WinFilesys_Create ::
    "c_stdio \<Rightarrow> win_fs \<Rightarrow> byte list \<Rightarrow> 64 word \<Rightarrow> nat \<Rightarrow> string option \<Rightarrow> nat \<Rightarrow> io_om \<Rightarrow> io_world
     \<Rightarrow> (NkErrorCode \<times> io_obj option \<times> io_om \<times> io_world) outcome" where
  "WinFilesys_Create io fs behind clsAddr strType pathStr mode st w =
     nk_assert (0 < strType \<and> strType < 3) NkErr_InParameter
    (nk_assert (0 < mode \<and> mode < NkStrMd_Count) NkErr_InParameter
    (if strType = 2
     then obind (NkOMCreateInstance behind (io_vt clsAddr) (clsAddr, CLSID_NkIFile) None IID_NkIFile None st) (\<lambda>(errCode, resPtr, st1).
            if errCode \<noteq> NkErr_Ok then Done (errCode, resPtr, st1, w)
            else case resPtr of
                   Some (FileAt a) \<Rightarrow>
                     (case ih_files (om_objs st1) a of None \<Rightarrow> Undef
                      | Some fileObj \<Rightarrow>
                          if pathStr = None \<or> pathStr = Some [] then Done (errCode, resPtr, st1, w)
                          else obind (File_Open io (the pathStr) mode fileObj w) (\<lambda>(errCode, fileObj, w').
                                 let st2 = put_file a (Some fileObj) st1 in
                                 if errCode \<noteq> NkErr_Ok then Done (NkErr_OpenFile, None, io_Release (FileAt a) st2, w')
                                 else Done (errCode, resPtr, st2, w')))
                 | _ \<Rightarrow> Undef)
     else (case pathStr of
             None \<Rightarrow> Abort NkErr_InParameter
           | Some p \<Rightarrow> (let (res, w') = fs_mkdir fs p w in Done (if res then NkErr_Ok else NkErr_CreateDirectory, None, st, w')))))"

abbreviation (input) S_IFREG :: nat where "S_IFREG \<equiv> 0x8000"
abbreviation (input) S_IFDIR :: nat where "S_IFDIR \<equiv> 0x4000"

definition WinFilesys_Remove :: "win_fs \<Rightarrow> string \<Rightarrow> io_world \<Rightarrow> io_world outcome" where
  "WinFilesys_Remove fs pathStr w =
     nk_assert (pathStr \<noteq> []) NkErr_InParameter
    (if \<not> WinFilesys_Exists fs pathStr w then Done w
     else case fs_stat fs pathStr w of
            None \<Rightarrow> Done w
          | Some st_mode \<Rightarrow> Done (if st_mode = S_IFREG then fs_delete fs pathStr w
                                 else if st_mode = S_IFDIR then fs_rmdir fs pathStr w else w))"

definition WinFilesys_Traverse :: "string \<Rightarrow> NkErrorCode outcome" where
  "WinFilesys_Traverse rootPath = nk_assert (rootPath \<noteq> []) NkErr_InParameter (Done NkErr_NotImplemented)"

subsection \<open>What the modes compile to\<close>

lemma mode_bits:
  "mode AND 1 = (mode AND 7) AND (1::nat)" "mode AND 2 = (mode AND 7) AND (2::nat)" "mode AND 4 = (mode AND 7) AND (4::nat)"
  by (subst and.assoc, simp)+

lemma and_or_nat: "(a::nat) AND (b OR c) = (a AND b) OR (a AND c)"
  by (rule bit_eqI) (auto simp: bit_and_iff bit_or_iff)

lemma CompileIOModeIdent_cases:
  assumes "File_CompileIOModeIdent mode = Some cs"
  obtains "mode AND NkStrMd_Read \<noteq> 0" "mode AND NkStrMd_Write = 0" "mode AND NkStrMd_Append = 0" "hd0 cs = CHR ''r''"
  | "mode AND NkStrMd_Read = 0" "mode AND NkStrMd_Write \<noteq> 0" "mode AND NkStrMd_Append = 0" "hd0 cs = CHR ''w''"
  | "mode AND NkStrMd_Read = 0" "mode AND NkStrMd_Write = 0" "mode AND NkStrMd_Append \<noteq> 0" "hd0 cs = CHR ''a''"
  using assms mode_bits[of mode]
  by (auto simp: File_CompileIOModeIdent_def Let_def hd0_def split: if_splits)

text \<open>A mode compiles exactly if it has one of the three basic bits alone, and \<open>MustNotExist\<close> only with \<open>Write\<close>.\<close>

lemma CompileIOModeIdent_iff:
  "(\<exists>cs. File_CompileIOModeIdent mode = Some cs) \<longleftrightarrow>
     (mode AND 7 \<in> {NkStrMd_Read, NkStrMd_Write, NkStrMd_Append} \<and> (mode AND NkStrMd_MustNotExist \<noteq> 0 \<longrightarrow> mode AND 7 = NkStrMd_Write))"
  using mode_bits[of mode] by (auto simp: File_CompileIOModeIdent_def Let_def)

lemma CompileIOModeIdent_0 [simp]: "File_CompileIOModeIdent 0 = None"
  by (simp add: File_CompileIOModeIdent_def)

subsection \<open>File handles\<close>

text \<open>A handle is either closed, with no mode, or its C stream has been opened in the mode it remembers.\<close>

definition file_ok :: "NkIFile \<Rightarrow> bool" where
  "file_ok f \<longleftrightarrow> (case fl_fileDsc f of
      None \<Rightarrow> fl_strMode f = NkStrMd_Unknown
    | Some h \<Rightarrow> fl_strMode f = NkStrMd_TempFile \<and> cf_mode h = ''w+b''
        \<or> fl_strMode f AND NkStrMd_TempFile = 0 \<and> File_CompileIOModeIdent (fl_strMode f) = Some (cf_mode h))"

text \<open>The operations a client can call on a handle it holds; the results are dropped.\<close>

inductive file_step :: "c_stdio \<Rightarrow> NkIFile \<times> io_world \<Rightarrow> NkIFile \<times> io_world \<Rightarrow> bool" for io where
  st_addref: "file_step io (f, w) (snd (File_AddRef f), w)"
| st_release: "snd (File_Release f) = Some f' \<Longrightarrow> file_step io (f, w) (f', w)"
| st_query: "file_step io (f, w) (snd (snd (File_QueryInterface iId f)), w)"
| st_open: "File_Open io p mode f w = Done (ec, f', w') \<Longrightarrow> file_step io (f, w) (f', w')"
| st_close: "file_step io (f, w) (File_Close f, w)"
| st_read: "File_Read io s f w = Done (ec, bs, f') \<Longrightarrow> file_step io (f, w) (f', w)"
| st_write: "File_Write io bs f w = Done (ec, n, f', w') \<Longrightarrow> file_step io (f, w) (f', w')"
| st_seek: "File_Seek ori off f w = Done (ec, f') \<Longrightarrow> file_step io (f, w) (f', w)"
| st_other: "file_step io (f, w) (f, w')"

inductive_cases file_stepE: "file_step io (f, w) (f', w')"

lemma fopen_s_mode: "fopen_s io p m w = (Some h, w') \<Longrightarrow> cf_mode h = m \<and> cf_id h = Named p"
  by (auto simp: fopen_s_def Let_def split: if_splits)

lemma tmpfile_s_mode: "tmpfile_s io w = (Some h, w') \<Longrightarrow> cf_mode h = ''w+b''"
  by (auto simp: tmpfile_s_def split: if_splits)

lemma fread_s_mode: "fread_s io s h w = (bs, h') \<Longrightarrow> cf_mode h' = cf_mode h"
  by (auto simp: fread_s_def Let_def split: if_splits prod.splits)

lemma fwrite_c_mode: "fwrite_c io bs h w = (n, h', w') \<Longrightarrow> cf_mode h' = cf_mode h"
  by (auto simp: fwrite_c_def Let_def split: if_splits)

lemma fseeki64_mode: "fseeki64 ori off h w = Some h' \<Longrightarrow> cf_mode h' = cf_mode h"
  by (auto simp: fseeki64_def Let_def split: if_splits)

lemma File_Open_ok: "file_ok f \<Longrightarrow> File_Open io p mode f w = Done (ec, f', w') \<Longrightarrow> file_ok f'"
  by (auto simp: File_Open_def file_ok_def Let_def nk_assert_def dest!: fopen_s_mode tmpfile_s_mode
      split: if_splits option.splits prod.splits)

lemma File_Read_ok: "file_ok f \<Longrightarrow> File_Read io s f w = Done (ec, bs, f') \<Longrightarrow> file_ok f'"
  by (auto simp: File_Read_def file_ok_def Let_def nk_assert_def dest!: fread_s_mode split: if_splits option.splits prod.splits)

lemma File_Write_ok: "file_ok f \<Longrightarrow> File_Write io bs f w = Done (ec, n, f', w') \<Longrightarrow> file_ok f'"
  by (auto simp: File_Write_def file_ok_def Let_def nk_assert_def dest!: fwrite_c_mode split: if_splits option.splits prod.splits)

lemma File_Seek_ok: "file_ok f \<Longrightarrow> File_Seek ori off f w = Done (ec, f') \<Longrightarrow> file_ok f'"
  by (auto simp: File_Seek_def file_ok_def nk_assert_def dest!: fseeki64_mode split: if_splits option.splits)

lemma file_step_ok: "file_step io fw fw' \<Longrightarrow> file_ok (fst fw) \<Longrightarrow> file_ok (fst fw')"
proof (induction rule: file_step.induct)
  case (st_open p mode f w ec f' w')
  then show ?case by (simp add: File_Open_ok)
next
  case (st_read s f w ec bs f')
  then show ?case by (simp add: File_Read_ok)
next
  case (st_write bs f w ec n f' w')
  then show ?case by (simp add: File_Write_ok)
next
  case (st_seek ori off f w ec f')
  then show ?case by (simp add: File_Seek_ok)
qed (auto simp: file_ok_def File_AddRef_def File_Release_def File_QueryInterface_def File_Close_def Let_def
    split: option.splits if_splits)

lemma file_steps_ok: "(file_step io)\<^sup>*\<^sup>* fw fw' \<Longrightarrow> file_ok (fst fw) \<Longrightarrow> file_ok (fst fw')"
  by (induction rule: rtranclp_induct) (auto dest: file_step_ok)

text \<open>A disk with one file on which every operation succeeds.\<close>

definition sample_io :: c_stdio where
  "sample_io = \<lparr>io_canOpen = (\<lambda>_. True), io_canTemp = True, io_transfer = (\<lambda>n. n),
     io_text_read = (\<lambda>bs n. (take n bs, min n (length bs))), io_text_write = (\<lambda>bs. bs), io_canFlush = True\<rparr>"

definition sample_disk :: io_world where
  "sample_disk = \<lparr>io_files = [Named ''a'' \<mapsto> [1, 2, 3]], io_temps = 0\<rparr>"

definition opened_file :: "string \<Rightarrow> nat \<Rightarrow> string \<Rightarrow> NkIFile" where
  "opened_file p mode cs = new_file\<lparr>fl_strMode := mode, fl_fileDsc := Some \<lparr>cf_id = Named p, cf_pos = 0, cf_mode = cs\<rparr>\<rparr>"

text \<open>C17: The typestate of a file handle.  However a client uses a new handle, it is closed exactly when it
  remembers no mode, and the stream under an open handle was opened in a way that agrees with the
  mode: what \<open>Read\<close> lets through is a stream opened for reading and what \<open>Write\<close> lets through is one opened
  for writing, never the other way round and never both.\<close>

theorem file_handle_typestate:
  assumes "(file_step io)\<^sup>*\<^sup>* (new_file, w0) (f, w)"
  shows "(fl_fileDsc f = None \<longleftrightarrow> fl_strMode f = NkStrMd_Unknown)
    \<and> (\<forall>h. fl_fileDsc f = Some h \<longrightarrow>
         (fl_strMode f AND NkStrMd_Read \<noteq> 0 \<longrightarrow> hd0 (cf_mode h) = CHR ''r'' \<and> fl_strMode f AND NkStrMd_Write = 0)
       \<and> (fl_strMode f AND NkStrMd_Write \<noteq> 0 \<longrightarrow> hd0 (cf_mode h) = CHR ''w'' \<and> fl_strMode f AND NkStrMd_Read = 0))"
proof -
  have "file_ok new_file" by (simp add: file_ok_def new_file_def File_AddRef_def)
  then have "file_ok f" using file_steps_ok[OF assms] by simp
  then show ?thesis
    by (cases "fl_strMode f = 0") (auto simp: file_ok_def split: option.splits elim: CompileIOModeIdent_cases)
qed

theorem file_handle_typestate_witness:
  "\<exists>f h. File_Open sample_io ''a'' 17 new_file sample_disk = Done (NkErr_Ok, f, sample_disk) \<and> fl_fileDsc f = Some h
    \<and> hd0 (cf_mode h) = CHR ''r'' \<and> fl_strMode f AND NkStrMd_Write = 0"
proof -
  have op: "File_Open sample_io ''a'' 17 new_file sample_disk = Done (NkErr_Ok, opened_file ''a'' 17 ''rb'', sample_disk)"
    by (simp add: File_Open_def new_file_def File_AddRef_def File_CompileIOModeIdent_def fopen_s_def sample_io_def sample_disk_def
        hd0_def opened_file_def Let_def)
  then have "(file_step sample_io)\<^sup>*\<^sup>* (new_file, sample_disk) (opened_file ''a'' 17 ''rb'', sample_disk)"
    by (blast intro: file_step.st_open)
  from file_handle_typestate[OF this] show ?thesis
    unfolding op by (simp add: opened_file_def)
qed

subsection \<open>Writing and reading back\<close>

text \<open>A client that writes blocks one after the other, and one that reads blocks of given sizes.\<close>

fun write_all :: "c_stdio \<Rightarrow> byte list list \<Rightarrow> NkIFile \<Rightarrow> io_world \<Rightarrow> (NkErrorCode list \<times> NkIFile \<times> io_world) outcome" where
  "write_all io [] f w = Done ([], f, w)"
| "write_all io (b # bs) f w = obind (File_Write io b f w) (\<lambda>(ec, _, f', w').
     obind (write_all io bs f' w') (\<lambda>(ecs, f'', w''). Done (ec # ecs, f'', w'')))"

fun read_all :: "c_stdio \<Rightarrow> nat list \<Rightarrow> NkIFile \<Rightarrow> io_world \<Rightarrow> (NkErrorCode list \<times> byte list list \<times> NkIFile) outcome" where
  "read_all io [] f w = Done ([], [], f)"
| "read_all io (n # ns) f w = obind (File_Read io n f w) (\<lambda>(ec, b, f').
     obind (read_all io ns f' w) (\<lambda>(ecs, bs, f''). Done (ec # ecs, b # bs, f'')))"

lemma contents_set [simp]: "contents (set_contents f bs w) f = bs" "set_contents f bs (set_contents f bs' w) = set_contents f bs w"
  "io_files (set_contents f bs w) f = Some bs"
  by (simp_all add: contents_def set_contents_def)

lemma set_contents_same: "io_files w f = Some bs \<Longrightarrow> set_contents f bs w = w"
  by (simp add: set_contents_def fun_upd_idem)

lemma store_at_end [simp]: "store_at (length old) bs old = old @ bs"
  by (simp add: store_at_def)

lemma write_all_appends:
  assumes "\<And>n. io_transfer io n = n" "[] \<notin> set bss" "fl_fileDsc f = Some h" "cf_mode h = ''wb''" "fl_strMode f AND NkStrMd_Write \<noteq> 0"
    "io_files w (cf_id h) = Some old" "cf_pos h = length old"
  shows "write_all io bss f w = Done (replicate (length bss) NkErr_Ok,
      f\<lparr>fl_fileDsc := Some (h\<lparr>cf_pos := length old + length (concat bss)\<rparr>)\<rparr>, set_contents (cf_id h) (old @ concat bss) w)"
  using assms(2-)
proof (induction bss arbitrary: f h w old)
  case Nil
  then have "f\<lparr>fl_fileDsc := Some (h\<lparr>cf_pos := length old\<rparr>)\<rparr> = f" by (cases f; cases h) simp
  with Nil show ?case by (simp add: set_contents_same)
next
  case (Cons b bss)
  have c: "contents w (cf_id h) = old" using Cons.prems by (simp add: contents_def)
  have w: "File_Write io b f w = Done (NkErr_Ok, length b,
      f\<lparr>fl_fileDsc := Some (h\<lparr>cf_pos := length old + length b\<rparr>)\<rparr>, set_contents (cf_id h) (old @ b) w)"
    using Cons.prems assms(1) c by (auto simp: File_Write_def fwrite_c_def hd0_def Let_def nk_assert_def)
  show ?case
    using Cons.prems w
    by (simp add: Cons.IH[of "f\<lparr>fl_fileDsc := Some (h\<lparr>cf_pos := length old + length b\<rparr>)\<rparr>" "h\<lparr>cf_pos := length old + length b\<rparr>" _ "old @ b"] add.assoc)
qed

lemma read_all_takes:
  assumes "\<And>n. io_transfer io n = n" "0 \<notin> set ns" "fl_fileDsc f = Some h" "cf_mode h = ''rb''" "fl_strMode f AND NkStrMd_Read \<noteq> 0"
    "cf_pos h + sum_list ns \<le> length (contents w (cf_id h))"
  shows "\<exists>bss f'. read_all io ns f w = Done (replicate (length ns) NkErr_Ok, bss, f') \<and> map length bss = ns
    \<and> concat bss = take (sum_list ns) (drop (cf_pos h) (contents w (cf_id h)))"
  using assms(2-)
proof (induction ns arbitrary: f h)
  case (Cons n ns)
  let ?f = "f\<lparr>fl_fileDsc := Some (h\<lparr>cf_pos := cf_pos h + n\<rparr>)\<rparr>"
  have r: "File_Read io n f w = Done (NkErr_Ok, take n (drop (cf_pos h) (contents w (cf_id h))), ?f)"
    using Cons.prems assms(1) by (auto simp: File_Read_def fread_s_def hd0_def Let_def nk_assert_def min_def)
  obtain bss f' where "read_all io ns ?f w = Done (replicate (length ns) NkErr_Ok, bss, f')" "map length bss = ns"
    "concat bss = take (sum_list ns) (drop (cf_pos h + n) (contents w (cf_id h)))"
    using Cons.IH[of ?f "h\<lparr>cf_pos := cf_pos h + n\<rparr>"] Cons.prems by (auto simp: add.assoc)
  with r Cons.prems show ?case by (auto simp: take_add add.commute)
qed simp

text \<open>C16: What is written is read back.  On a device that transfers what it is asked to, blocks written to a
  file opened for binary writing make up exactly the contents of the file, whatever it held before; a handle opened
  for binary reading afterwards delivers these bytes, in blocks of any sizes the file has room for, and every call
  succeeds.\<close>

theorem file_write_read_roundtrip:
  assumes "io_canOpen io p" "p \<noteq> []" "\<forall>n. io_transfer io n = n" "[] \<notin> set bss" "0 \<notin> set ns" "sum_list ns \<le> length (concat bss)"
  shows "\<exists>f1 w1 f2 w2 f3 parts f4.
      File_Open io p (NkStrMd_Write OR NkStrMd_Binary) new_file w = Done (NkErr_Ok, f1, w1)
    \<and> write_all io bss f1 w1 = Done (replicate (length bss) NkErr_Ok, f2, w2) \<and> contents w2 (Named p) = concat bss
    \<and> File_Open io p (NkStrMd_Read OR NkStrMd_Binary) (File_Close f2) w2 = Done (NkErr_Ok, f3, w2)
    \<and> read_all io ns f3 w2 = Done (replicate (length ns) NkErr_Ok, parts, f4)
    \<and> map length parts = ns \<and> concat parts = take (sum_list ns) (concat bss)"
proof -
  let ?f1 = "opened_file p 18 ''wb''" and ?w1 = "set_contents (Named p) [] w" and ?w2 = "set_contents (Named p) (concat bss) w"
  let ?h2 = "\<lparr>cf_id = Named p, cf_pos = length (concat bss), cf_mode = ''wb''\<rparr>"
  let ?f3 = "opened_file p 17 ''rb''"
  have o1: "File_Open io p 18 new_file w = Done (NkErr_Ok, ?f1, ?w1)"
    using assms by (simp add: File_Open_def opened_file_def new_file_def File_AddRef_def File_CompileIOModeIdent_def fopen_s_def
        hd0_def Let_def nk_assert_def)
  have wr: "write_all io bss ?f1 ?w1 = Done (replicate (length bss) NkErr_Ok, ?f1\<lparr>fl_fileDsc := Some ?h2\<rparr>, ?w2)"
    using write_all_appends[of io bss ?f1 _ ?w1 "[]"] assms by (simp add: opened_file_def)
  have o2: "File_Open io p 17 (File_Close (?f1\<lparr>fl_fileDsc := Some ?h2\<rparr>)) ?w2 = Done (NkErr_Ok, ?f3, ?w2)"
    using assms by (simp add: File_Open_def File_Close_def opened_file_def new_file_def File_AddRef_def File_CompileIOModeIdent_def
        fopen_s_def hd0_def Let_def nk_assert_def)
  obtain parts f4 where "read_all io ns ?f3 ?w2 = Done (replicate (length ns) NkErr_Ok, parts, f4)"
    "map length parts = ns" "concat parts = take (sum_list ns) (concat bss)"
    using read_all_takes[of io ns ?f3 _ ?w2] assms by (auto simp: opened_file_def)
  then show ?thesis using o1 wr o2 by auto
qed

theorem file_write_read_roundtrip_witness:
  "\<exists>f1 w1 f2 w2 f3 parts f4.
      File_Open sample_io ''b'' 18 new_file sample_disk = Done (NkErr_Ok, f1, w1)
    \<and> write_all sample_io [[1, 2], [3]] f1 w1 = Done ([NkErr_Ok, NkErr_Ok], f2, w2)
    \<and> File_Open sample_io ''b'' 17 (File_Close f2) w2 = Done (NkErr_Ok, f3, w2)
    \<and> read_all sample_io [1, 2] f3 w2 = Done ([NkErr_Ok, NkErr_Ok], parts, f4) \<and> concat parts = [1, 2, 3]"
proof -
  have io: "io_canOpen sample_io ''b''" "\<forall>n. io_transfer sample_io n = n" by (simp_all add: sample_io_def)
  show ?thesis
    using file_write_read_roundtrip[OF io(1) _ io(2), of "[[1, 2], [3]]" "[1, 2]" sample_disk]
    by simp blast
qed

text \<open>Streams that cannot be used.  Opening a file for appending, or a temporary file, can succeed, but the handle
  then refuses every \<open>Read\<close> and every \<open>Write\<close> as not allowed by its mode, and a mode that asks for both \<open>Append\<close> and
  \<open>Write\<close>, or both \<open>Read\<close> and \<open>Write\<close>, of a named file never opens.\<close>

theorem file_append_and_temporary_are_unusable:
  assumes "fl_fileDsc f0 = None" "File_Open io p mode f0 w = Done (ec, f, w')"
    "mode AND (NkStrMd_Append OR NkStrMd_TempFile) \<noteq> 0
       \<or> (mode AND NkStrMd_Read \<noteq> 0 \<and> mode AND NkStrMd_Write \<noteq> 0)" "0 < s" "bs \<noteq> []"
  shows "if ec = NkErr_Ok
    then File_Read io s f w2 = Done (NkErr_InvStreamMode, [], f) \<and> File_Write io bs f w2 = Done (NkErr_InvStreamMode, 0, f, w2)
    else fl_fileDsc f = None \<and> fl_strMode f = NkStrMd_Unknown"
proof (cases "mode AND NkStrMd_TempFile = 0")
  case False
  then show ?thesis
    using assms by (auto simp: File_Open_def File_Read_def File_Write_def Let_def nk_assert_def split: if_splits option.splits prod.splits)
next
  case True
  show ?thesis
  proof (cases "File_CompileIOModeIdent mode")
    case None
    then show ?thesis using assms True by (auto simp: File_Open_def Let_def nk_assert_def split: if_splits)
  next
    case (Some cs)
    have "mode AND (NkStrMd_Append OR NkStrMd_TempFile) = (mode AND NkStrMd_Append) OR (mode AND NkStrMd_TempFile)"
      by (rule and_or_nat)
    then have "mode AND NkStrMd_Read = 0" "mode AND NkStrMd_Write = 0"
      using assms(3) True Some by (auto elim!: CompileIOModeIdent_cases)
    then show ?thesis
      using assms True Some by (auto simp: File_Open_def File_Read_def File_Write_def Let_def nk_assert_def split: if_splits option.splits prod.splits)
  qed
qed

theorem file_append_and_temporary_are_unusable_witness:
  "\<exists>f w. File_Open sample_io ''a'' 20 new_file sample_disk = Done (NkErr_Ok, f, w)
    \<and> File_Write sample_io [7] f w = Done (NkErr_InvStreamMode, 0, f, w)"
proof -
  have op: "File_Open sample_io ''a'' 20 new_file sample_disk = Done (NkErr_Ok, opened_file ''a'' 20 ''ab'', sample_disk)"
    by (simp add: File_Open_def new_file_def File_AddRef_def File_CompileIOModeIdent_def fopen_s_def sample_io_def sample_disk_def
        hd0_def opened_file_def Let_def)
  show ?thesis
    using file_append_and_temporary_are_unusable[OF _ op, of 1 "[7]" sample_disk] op by (simp add: new_file_def File_AddRef_def)
qed

subsection \<open>Files through the file system\<close>

lemma io_vt_sel [simp]:
  "om_QueryInterface (io_vt c) = io_QueryInterface" "om_AddRef (io_vt c) = io_AddRef" "om_Release (io_vt c) = io_Release"
  "om_CreateInstance (io_vt c) = (\<lambda>ob clsId ctrlInst st. IoFac_CreateInstance clsId st)"
  by (simp_all add: io_vt_def)

lemma put_file_simps [simp]:
  "ih_files (om_objs (put_file a f st)) a = f" "put_file a f (put_file a g st) = put_file a f st"
  "io_AddRef IoFactory st = st" "io_Release IoFactory st = st"
  by (simp_all add: put_file_def io_AddRef_def io_Release_def)

lemma uuid_tables [simp]:
  "NkOMQueryImplementationIndex [CLSID_NkIFile] CLSID_NkIFile = 0"
  "NkOMQueryImplementationIndex [IID_NkIBase, IID_NkIStream, IID_NkIFile] IID_NkIFile = 2"
  "NkOMQueryImplementationIndex [IID_NkIBase, IID_NkIStream, IID_NkIFile] IID_NkIInitializable = SIZE_MAX"
  by (simp_all add: NkOMQueryImplementationIndex_def NkUuidIsEqual_def CLSID_NkIFile_def IID_NkIBase_def IID_NkIStream_def
      IID_NkIFile_def IID_NkIInitializable_def)

definition next_block :: "io_om \<Rightarrow> io_om" where
  "next_block st = st\<lparr>om_objs := (om_objs st)\<lparr>ih_next := Suc (ih_next (om_objs st))\<rparr>\<rparr>"

lemma CreateInstance_file:
  assumes "reg_ok st ht" "length behind = 8" "ht_map ht (IdUuid CLSID_NkIFile) = Some (Some IoFactory)" "ih_pool (om_objs st) = NkErr_Ok"
  shows "NkOMCreateInstance behind (io_vt c) (c, CLSID_NkIFile) None IID_NkIFile None st
    = Done (NkErr_Ok, Some (FileAt (ih_next (om_objs st))), put_file (ih_next (om_objs st)) (Some new_file) (next_block st))"
proof -
  let ?a = "ih_next (om_objs st)"
  have ini: "om_isInitialized st" using assms by (simp add: reg_ok_def)
  have q: "NkOMQueryFactoryForClass behind (io_vt c) (c, CLSID_NkIFile) st = Done (NkErr_Ok, Some IoFactory, st)"
    using QueryFactory_spec[of st ht "(c, CLSID_NkIFile)" behind "io_vt c"] assms by (simp add: CLSID_NkIFile_def)
  have c: "IoFac_CreateInstance CLSID_NkIFile st = (NkErr_Ok, Some (FileAt ?a), put_file ?a (Some new_file) (next_block st))"
    using assms by (simp add: IoFac_CreateInstance_def next_block_def Let_def)
  have f: "finish_instance (io_vt c) (FileAt ?a) IID_NkIFile None (put_file ?a (Some new_file) (next_block st))
    = Done (NkErr_Ok, Some (FileAt ?a), put_file ?a (Some new_file) (next_block st))"
    by (simp add: finish_instance_def init_instance_def io_QueryInterface_def File_QueryInterface_def io_Release_def File_Release_def
        File_AddRef_def new_file_def)
  show ?thesis using ini q c f by (simp add: NkOMCreateInstance_def)
qed

lemma File_Open_keeps_references: "File_Open io p mode f w = Done (ec, f', w') \<Longrightarrow> fl_refCount f' = fl_refCount f"
  by (auto simp: File_Open_def Let_def nk_assert_def split: if_splits option.splits prod.splits)

lemma File_Open_total: "p \<noteq> [] \<Longrightarrow> \<exists>ec f' w'. File_Open io p mode f w = Done (ec, f', w')"
  by (auto simp: File_Open_def Let_def nk_assert_def split: option.splits prod.splits)

definition sample_fs :: win_fs where
  "sample_fs = \<lparr>fs_attributes = (\<lambda>p w. if io_files w (Named p) = None then 0xFFFFFFFF else 0x20), fs_exists = (\<lambda>p w. io_files w (Named p) \<noteq> None),
     fs_stat = (\<lambda>p w. if io_files w (Named p) = None then None else Some 0x8180), fs_mkdir = (\<lambda>p w. (True, w)),
     fs_delete = (\<lambda>p w. w\<lparr>io_files := (io_files w)(Named p := None)\<rparr>), fs_rmdir = (\<lambda>p w. w), fs_setwd = (\<lambda>p wd. Some p)\<rparr>"

text \<open>The object model with the I/O factory registered in its first slot.\<close>

definition sample_io_registry :: "io_obj NkHashtable" where
  "sample_io_registry = \<lparr>ht_elemCount = 1, ht_currCap = 16, ht_htProps = om_props, ht_elemArray =
     \<lparr>m_regPair = \<lparr>m_keyVal = mp_uuidKey 4096 CLSID_NkIFile, mp_valuePtr = Some IoFactory\<rparr>, m_isUsed = True, m_offset = 0\<rparr>
     # replicate 15 zero_slot\<rparr>"

definition sample_io_om :: io_om where
  "sample_io_om = \<lparr>om_isInitialized = True, om_isDebugEnabled = False, om_classReg = Some sample_io_registry,
     om_htctx = \<lparr>m_hashSeed = 1, ptr_bytes = (\<lambda>_. replicate 8 0)\<rparr>, om_rnd = \<lparr>s0 = 1, s1 = 2, s2 = 3, s3 = 4\<rparr>,
     om_objs = \<lparr>ih_files = Map.empty, ih_next = 10, ih_pool = NkErr_Ok, ih_fault = False\<rparr>\<rparr>"

lemma sample_io_om_facts [simp]:
  "reg_ok sample_io_om sample_io_registry" "ht_map sample_io_registry (IdUuid CLSID_NkIFile) = Some (Some IoFactory)"
  "ih_pool (om_objs sample_io_om) = NkErr_Ok" "ih_next (om_objs sample_io_om) = 10"
  by (auto simp: reg_ok_def sample_io_om_def sample_io_registry_def om_props_def ht_wf_def ht_pairs_def
      cx_ok_def ht_limits_def ht_map_def pair_kv_def CLSID_NkIFile_def)

text \<open>C34: Files by way of the object model.  When the I/O factory is registered and the pool has memory,
  creating a disk file opens the path on a new file object.  If that succeeds the caller gets this object with exactly
  one reference, in an open stream; if it fails, the object is gone again, nothing else has changed and the
  error is \<open>NkErr_OpenFile\<close>, whatever \<open>Open\<close> has reported.\<close>

theorem filesys_create_file:
  assumes "reg_ok st ht" "length behind = 8" "ht_map ht (IdUuid CLSID_NkIFile) = Some (Some IoFactory)"
    "ih_pool (om_objs st) = NkErr_Ok" "0 < mode" "mode < NkStrMd_Count" "p \<noteq> []"
  shows "\<exists>ec f w'. File_Open io p mode new_file w = Done (ec, f, w') \<and> fl_refCount f = 1
    \<and> WinFilesys_Create io fs behind c 2 (Some p) mode st w
      = (let a = ih_next (om_objs st) in
         if ec = NkErr_Ok then Done (NkErr_Ok, Some (FileAt a), put_file a (Some f) (next_block st), w')
         else Done (NkErr_OpenFile, None, put_file a None (next_block st), w'))"
proof -
  obtain ec f w' where o: "File_Open io p mode new_file w = Done (ec, f, w')" using File_Open_total[OF assms(7)] by blast
  have r: "fl_refCount f = 1" using File_Open_keeps_references[OF o] by (simp add: new_file_def File_AddRef_def)
  show ?thesis
    using assms o r CreateInstance_file[OF assms(1-4), of c]
    by (simp add: WinFilesys_Create_def Let_def io_Release_def File_Release_def)
qed

theorem filesys_create_file_witness:
  "\<exists>ec f w'. File_Open sample_io ''a'' 17 new_file sample_disk = Done (ec, f, w') \<and> fl_refCount f = 1
    \<and> WinFilesys_Create sample_io sample_fs (replicate 8 0) 4096 2 (Some ''a'') 17 sample_io_om sample_disk
      = (let a = 10 in
         if ec = NkErr_Ok then Done (NkErr_Ok, Some (FileAt a), put_file a (Some f) (next_block sample_io_om), w')
         else Done (NkErr_OpenFile, None, put_file a None (next_block sample_io_om), w'))"
  using filesys_create_file[of sample_io_om sample_io_registry "replicate 8 0" 17 "''a''" sample_io sample_disk sample_fs 4096]
  by simp

text \<open>The assertion on the mode compares with \<open>__NkStrMd_Count__\<close>, which is one more than the highest flag:
  creating a file that must not exist needs \<open>Write\<close> besides and always stops the program.\<close>

lemma filesys_no_exclusive_creation:
  assumes "mode AND NkStrMd_MustNotExist \<noteq> 0" "mode AND NkStrMd_Write \<noteq> 0" "0 < strType" "strType < 3"
  shows "WinFilesys_Create io fs behind c strType p mode st w = Abort NkErr_InParameter"
proof -
  have "mode AND 64 = 0" if "mode < 64"
    using that and_exp_eq_0_iff_not_bit[of mode 6] by (simp add: bit_iff_odd)
  then have "\<not> mode < 65" using assms(1,2) by (cases "mode = 64") auto
  then show ?thesis using assms(3,4) by (auto simp: WinFilesys_Create_def nk_assert_def)
qed

text \<open>Paths that do not exist.  \<open>GetFileAttributesA\<close> reports a missing path with all bits set, which is not
  checked: both \<open>IsDirectory\<close> and \<open>IsFile\<close> hold of it, and as the mode that \<open>stat\<close> reports for
  anything it finds contains permission bits besides the type, \<open>Remove\<close> removes nothing at all.\<close>

theorem filesys_queries_of_missing_paths:
  assumes "p \<noteq> []" "fs_attributes fs p w = INVALID_FILE_ATTRIBUTES" "q \<noteq> []" "\<forall>m. fs_stat fs q w = Some m \<longrightarrow> m AND 0x1C0 \<noteq> 0"
  shows "WinFilesys_IsDirectory fs p w = Done True \<and> WinFilesys_IsFile fs p w = Done True \<and> WinFilesys_Remove fs q w = Done w"
  using assms by (auto simp: WinFilesys_IsDirectory_def WinFilesys_IsFile_def WinFilesys_Remove_def nk_assert_def split: option.splits)

theorem filesys_queries_of_missing_paths_witness:
  "WinFilesys_IsDirectory sample_fs ''b'' sample_disk = Done True \<and> WinFilesys_IsFile sample_fs ''b'' sample_disk = Done True
    \<and> WinFilesys_Remove sample_fs ''a'' sample_disk = Done sample_disk"
  using filesys_queries_of_missing_paths[of "''b''" sample_fs sample_disk "''a''"] by (simp add: sample_fs_def sample_disk_def)

end
