(* ===== verification/NkDb.thy ===== *)
theory NkDb
  imports NkOM
begin

unbundle bit_operations_syntax

section \<open>Database handles (src/Noriko/db.c)\<close>

text \<open>
  The handles and statements that wrap sqlite3.  The library itself is the argument \<open>sq\<close>: its functions read and change a
  state of a type of their own, and refer to connections and prepared statements by numbers; \<open>None\<close> is a NULL pointer.
  Doubles are their bit patterns, texts and blobs are the address and the size the library reports.  The log
  messages of \<open>Bind\<close> and \<open>Unbind\<close> are left out.
\<close>

datatype sql_bind = BindInt64 "64 word" | BindDouble "64 word" | BindText "64 word" "64 word"
  | BindBlobAt "64 word" "64 word" | BindBlob "byte list" | BindNull

record 'd sqlite3_api =
  sq_open_v2 :: "string \<Rightarrow> nat \<Rightarrow> 'd \<Rightarrow> nat \<times> nat option \<times> 'd"
  sq_close :: "nat option \<Rightarrow> 'd \<Rightarrow> nat \<times> 'd"
  sq_exec :: "nat option \<Rightarrow> string \<Rightarrow> 'd \<Rightarrow> nat \<times> 'd"
  sq_prepare_v2 :: "nat option \<Rightarrow> string \<Rightarrow> 'd \<Rightarrow> nat \<times> nat option \<times> 'd"
  sq_finalize :: "nat option \<Rightarrow> 'd \<Rightarrow> 'd"
  sq_step :: "nat option \<Rightarrow> 'd \<Rightarrow> nat \<times> 'd"
  sq_reset :: "nat option \<Rightarrow> 'd \<Rightarrow> 'd"
  sq_bind_parameter_count :: "nat option \<Rightarrow> 'd \<Rightarrow> int"
  sq_bind :: "nat option \<Rightarrow> int \<Rightarrow> sql_bind \<Rightarrow> 'd \<Rightarrow> 'd"
  sq_column_count :: "nat option \<Rightarrow> 'd \<Rightarrow> nat"
  sq_column_type :: "nat option \<Rightarrow> nat \<Rightarrow> 'd \<Rightarrow> nat"
  sq_column_int64 :: "nat option \<Rightarrow> nat \<Rightarrow> 'd \<Rightarrow> 64 word"
  sq_column_double :: "nat option \<Rightarrow> nat \<Rightarrow> 'd \<Rightarrow> 64 word"
  sq_column_data :: "nat option \<Rightarrow> nat \<Rightarrow> 'd \<Rightarrow> 64 word"
  sq_column_bytes :: "nat option \<Rightarrow> nat \<Rightarrow> 'd \<Rightarrow> 32 word"

abbreviation (input) SQLITE_OK :: nat where "SQLITE_OK \<equiv> 0"
abbreviation (input) SQLITE_ROW :: nat where "SQLITE_ROW \<equiv> 100"
abbreviation (input) SQLITE_OPEN_READONLY :: nat where "SQLITE_OPEN_READONLY \<equiv> 1"
abbreviation (input) SQLITE_OPEN_READWRITE :: nat where "SQLITE_OPEN_READWRITE \<equiv> 2"
abbreviation (input) SQLITE_OPEN_CREATE :: nat where "SQLITE_OPEN_CREATE \<equiv> 4"

abbreviation (input) NkDbMode_Unknown :: nat where "NkDbMode_Unknown \<equiv> 0"
abbreviation (input) NkDbMode_ReadOnly :: nat where "NkDbMode_ReadOnly \<equiv> 1"
abbreviation (input) NkDbMode_ReadWrite :: nat where "NkDbMode_ReadWrite \<equiv> 2"
abbreviation (input) NkDbMode_Create :: nat where "NkDbMode_Create \<equiv> 4"
abbreviation (input) NkDbMode_Count :: nat where "NkDbMode_Count \<equiv> 8"

subsection \<open>Objects\<close>

text \<open>The static factory, and the statements and handles in the pool.\<close>

datatype db_obj = HdFactory | StmtAt nat | DbAt nat

record Sqlite3Stmt =
  st_refCount :: int
  st_dbConn :: "nat option"
  st_stmtPtr :: "nat option"

record Sqlite3DbHandle =
  db_refCount :: int
  db_dbMode :: nat
  db_dbConn :: "nat option"

record Sqlite3StmtInit =
  si_sqlStr :: string
  si_dbConn :: "nat option"
  si_nkomDbConn :: nat

text \<open>
  \<open>dh_pool\<close> is the answer of the pool allocator and \<open>dh_next\<close> the block it hands out next.  \<open>dh_fault\<close> records an access
  through a NULL pointer or to an object that has been freed.
\<close>

record 'd db_objs =
  dh_stmts :: "nat \<Rightarrow> Sqlite3Stmt option"
  dh_dbs :: "nat \<Rightarrow> Sqlite3DbHandle option"
  dh_next :: nat
  dh_pool :: NkErrorCode
  dh_fault :: bool
  dh_lib :: 'd

type_synonym 'd db_om = "(db_obj, 'd db_objs) om_context"

definition IID_NkISqlStatement :: NkUuid where
  "IID_NkISqlStatement = [0xb3, 0x27, 0x7c, 0x6d, 0xed, 0xa5, 0xd5, 0x40, 0x78, 0xf9, 0x8b, 0xef, 0xc5, 0xa5, 0x4d, 0xaa]"

definition IID_NkIDatabase :: NkUuid where
  "IID_NkIDatabase = [0x75, 0x75, 0x50, 0x80, 0xc6, 0x98, 0x81, 0x4b, 0x09, 0x37, 0x16, 0x4f, 0x82, 0x2a, 0xe4, 0xb1]"

definition CLSID_NkISqlStatement :: NkUuid where
  "CLSID_NkISqlStatement = [0x54, 0x70, 0x56, 0x29, 0xd1, 0x6f, 0xdd, 0x49, 0xf8, 0x00, 0x18, 0xd0, 0xe4, 0xdc, 0x8f, 0x85]"

definition CLSID_NkIDatabase :: NkUuid where
  "CLSID_NkIDatabase = [0x54, 0x83, 0x7e, 0xfc, 0x01, 0x4b, 0x1f, 0x4f, 0xc0, 0x8a, 0x20, 0x77, 0xb4, 0x2c, 0x15, 0x97]"

definition put_stmt :: "nat \<Rightarrow> Sqlite3Stmt option \<Rightarrow> 'd db_objs \<Rightarrow> 'd db_objs" where
  "put_stmt a s st = st\<lparr>dh_stmts := (dh_stmts st)(a := s)\<rparr>"

definition put_db :: "nat \<Rightarrow> Sqlite3DbHandle option \<Rightarrow> 'd db_objs \<Rightarrow> 'd db_objs" where
  "put_db a d st = st\<lparr>dh_dbs := (dh_dbs st)(a := d)\<rparr>"

definition db_fault :: "'d db_objs \<Rightarrow> 'd db_objs" where
  "db_fault st = st\<lparr>dh_fault := True\<rparr>"

definition put_lib :: "'d \<Rightarrow> 'd db_objs \<Rightarrow> 'd db_objs" where
  "put_lib l st = st\<lparr>dh_lib := l\<rparr>"

subsection \<open>Helpers\<close>

text \<open>The index is converted to a signed integer before it is compared.\<close>

definition Stmt_IsValidParamIndex :: "'d sqlite3_api \<Rightarrow> nat option \<Rightarrow> 32 word \<Rightarrow> 'd \<Rightarrow> bool" where
  "Stmt_IsValidParamIndex sq stPtr index l \<longleftrightarrow> sint index < sq_bind_parameter_count sq stPtr l"

definition gl_c_RoPragmaSql :: string where
  "gl_c_RoPragmaSql = ''PRAGMA encoding     = 'UTF-8';'' @ ''PRAGMA journal_mode = OFF;'' @ ''PRAGMA locking_mode = EXCLUSIVE;''
     @ ''PRAGMA synchronous  = OFF;'' @ ''PRAGMA query_only   = ON;''"

definition gl_c_WrPragmaSql :: string where
  "gl_c_WrPragmaSql = ''PRAGMA encoding = 'UTF-8';''"

definition DbHandle_SetPragmas :: "'d sqlite3_api \<Rightarrow> nat option \<Rightarrow> nat \<Rightarrow> 'd \<Rightarrow> (NkErrorCode \<times> 'd) outcome" where
  "DbHandle_SetPragmas sq dbConnRef mode l =
     nk_assert (NkDbMode_Unknown < mode \<and> mode < NkDbMode_Count) NkErr_InParameter
    (let (res, l') = (if mode = NkDbMode_ReadOnly then sq_exec sq dbConnRef gl_c_RoPragmaSql l
                      else if mode = NkDbMode_ReadWrite then sq_exec sq dbConnRef gl_c_WrPragmaSql l
                      else (SQLITE_OK, l))
     in Done (if res = SQLITE_OK then NkErr_Ok else NkErr_SetDatabaseProps, l'))"

definition DbHandle_MapFromDbMode :: "nat \<Rightarrow> nat" where
  "DbHandle_MapFromDbMode mode =
     (let resMode = (if mode AND NkDbMode_Create \<noteq> 0 then SQLITE_OPEN_CREATE else 0);
          base = mode AND (NkDbMode_ReadOnly OR NkDbMode_ReadWrite)
      in if base = NkDbMode_ReadOnly then resMode OR SQLITE_OPEN_READONLY
         else if base = NkDbMode_ReadWrite then resMode OR SQLITE_OPEN_READWRITE
         else SQLITE_OPEN_READWRITE)"

definition DbHandle_MapFromSqlite3ColumnType :: "nat \<Rightarrow> NkVariantType" where
  "DbHandle_MapFromSqlite3ColumnType nativeTyId =
     (if nativeTyId = 1 then NkVarTy_Int64 else if nativeTyId = 2 then NkVarTy_Double
      else if nativeTyId = 3 then NkVarTy_StringView else if nativeTyId = 4 then NkVarTy_BufferView
      else NkVarTy_None)"

text \<open>One pass of the loop over the columns; a view lies in memory as its address and its size.\<close>

definition set_column :: "'d sqlite3_api \<Rightarrow> nat option \<Rightarrow> 'd \<Rightarrow> nat \<Rightarrow> NkVariant \<Rightarrow> NkVariant" where
  "set_column sq stmtRef l i v =
     (let varTy = DbHandle_MapFromSqlite3ColumnType (sq_column_type sq stmtRef i l);
          view = le_bytes (sq_column_data sq stmtRef i l) @ le_bytes (scast (sq_column_bytes sq stmtRef i l))
      in case varTy of
           NkVarTy_Int64 \<Rightarrow> NkVariantSet v varTy (le_bytes (sq_column_int64 sq stmtRef i l))
         | NkVarTy_Double \<Rightarrow> NkVariantSet v varTy (le_bytes (sq_column_double sq stmtRef i l))
         | NkVarTy_StringView \<Rightarrow> NkVariantSet v varTy view
         | NkVarTy_BufferView \<Rightarrow> NkVariantSet v varTy view
         | _ \<Rightarrow> NkVariantSet v NkVarTy_None [])"

definition DbHandle_PrepareResultArray ::
    "'d sqlite3_api \<Rightarrow> nat option \<Rightarrow> nat \<Rightarrow> NkVariant list \<Rightarrow> 'd \<Rightarrow> NkVariant list outcome" where
  "DbHandle_PrepareResultArray sq stmtRef cnt colResArr l =
     nk_assert (0 < cnt) NkErr_InParameter
    (Done (fold (\<lambda>i arr. arr[i := set_column sq stmtRef l i (arr ! i)]) [0..<cnt] colResArr))"

subsection \<open>Handles: reference counts\<close>

definition DbHandle_Close :: "'d sqlite3_api \<Rightarrow> nat \<Rightarrow> 'd db_objs \<Rightarrow> NkErrorCode \<times> 'd db_objs" where
  "DbHandle_Close sq a st =
     (case dh_dbs st a of
        None \<Rightarrow> (NkErr_Ok, db_fault st)
      | Some d \<Rightarrow>
          let (res, l) = sq_close sq (db_dbConn d) (dh_lib st); st = put_lib l st
          in if res = SQLITE_OK then (NkErr_Ok, put_db a (Some (d\<lparr>db_dbConn := None\<rparr>)) st) else (NkErr_DatabaseClose, st))"

definition DbHandle_AddRef :: "nat \<Rightarrow> 'd db_objs \<Rightarrow> 'd db_objs" where
  "DbHandle_AddRef a st =
     (case dh_dbs st a of None \<Rightarrow> db_fault st | Some d \<Rightarrow> put_db a (Some (d\<lparr>db_refCount := db_refCount d + 1\<rparr>)) st)"

definition DbHandle_Release :: "'d sqlite3_api \<Rightarrow> nat \<Rightarrow> 'd db_objs \<Rightarrow> 'd db_objs" where
  "DbHandle_Release sq a st =
     (case dh_dbs st a of
        None \<Rightarrow> db_fault st
      | Some d \<Rightarrow>
          let st = put_db a (Some (d\<lparr>db_refCount := db_refCount d - 1\<rparr>)) st
          in if db_refCount d - 1 \<le> 0 then put_db a None (snd (DbHandle_Close sq a st)) else st)"

definition DbHandle_QueryInterface :: "nat \<Rightarrow> NkUuid \<Rightarrow> 'd db_objs \<Rightarrow> NkErrorCode \<times> db_obj option \<times> 'd db_objs" where
  "DbHandle_QueryInterface a iId st =
     (if NkUuidIsEqual iId IID_NkIBase \<or> NkUuidIsEqual iId IID_NkIDatabase then (NkErr_Ok, Some (DbAt a), DbHandle_AddRef a st)
      else (NkErr_InterfaceNotImpl, None, st))"

subsection \<open>Statements\<close>

definition Stmt_AddRef :: "nat \<Rightarrow> 'd db_objs \<Rightarrow> 'd db_objs" where
  "Stmt_AddRef a st =
     (case dh_stmts st a of None \<Rightarrow> db_fault st | Some s \<Rightarrow> put_stmt a (Some (s\<lparr>st_refCount := st_refCount s + 1\<rparr>)) st)"

definition Stmt_Release :: "'d sqlite3_api \<Rightarrow> nat \<Rightarrow> 'd db_objs \<Rightarrow> 'd db_objs" where
  "Stmt_Release sq a st =
     (case dh_stmts st a of
        None \<Rightarrow> db_fault st
      | Some s \<Rightarrow>
          let st = put_stmt a (Some (s\<lparr>st_refCount := st_refCount s - 1\<rparr>)) st
          in if st_refCount s - 1 \<le> 0
             then let st = put_lib (sq_finalize sq (st_stmtPtr s) (dh_lib st)) st;
                      st = (case st_dbConn s of None \<Rightarrow> db_fault st | Some d \<Rightarrow> DbHandle_Release sq d st)
                  in put_stmt a None st
             else st)"

text \<open>The index of the interface is taken as the condition itself, not compared with \<open>SIZE_MAX\<close>.\<close>

definition Stmt_QueryInterface :: "nat \<Rightarrow> NkUuid \<Rightarrow> 'd db_objs \<Rightarrow> NkErrorCode \<times> db_obj option \<times> 'd db_objs" where
  "Stmt_QueryInterface a iId st =
     (if NkOMQueryImplementationIndex [IID_NkIBase, IID_NkIInitializable, IID_NkISqlStatement] iId \<noteq> 0
      then (NkErr_Ok, Some (StmtAt a), Stmt_AddRef a st)
      else (NkErr_InterfaceNotImpl, None, st))"

definition Stmt_Initialize :: "'d sqlite3_api \<Rightarrow> nat \<Rightarrow> Sqlite3StmtInit \<Rightarrow> 'd db_objs \<Rightarrow> NkErrorCode \<times> 'd db_objs" where
  "Stmt_Initialize sq a initStruct st =
     (case dh_stmts st a of
        None \<Rightarrow> (NkErr_Ok, db_fault st)
      | Some s \<Rightarrow>
          let (res, p, l) = sq_prepare_v2 sq (si_dbConn initStruct) (si_sqlStr initStruct) (dh_lib st);
              s = s\<lparr>st_stmtPtr := p\<rparr>; st = put_stmt a (Some s) (put_lib l st)
          in if res \<noteq> SQLITE_OK then (NkErr_CompileSqlStatement, st)
             else (NkErr_Ok, put_stmt a (Some (s\<lparr>st_dbConn := Some (si_nkomDbConn initStruct)\<rparr>)) (DbHandle_AddRef (si_nkomDbConn initStruct) st)))"

text \<open>The number that eight bytes in memory stand for.\<close>

definition le_word :: "byte list \<Rightarrow> 64 word" where
  "le_word bs = foldr (\<lambda>b acc. push_bit 8 acc OR ucast b) bs 0"

definition Stmt_Unbind :: "'d sqlite3_api \<Rightarrow> nat option \<Rightarrow> 32 word \<Rightarrow> 'd \<Rightarrow> 'd" where
  "Stmt_Unbind sq stmtPtr index l =
     (if \<not> Stmt_IsValidParamIndex sq stmtPtr index l then l else sq_bind sq stmtPtr (sint index) BindNull l)"

text \<open>\<open>varVal\<close> is the union of the values, which is zero before the value is copied into it.\<close>

definition Stmt_Bind :: "'d sqlite3_api \<Rightarrow> nat option \<Rightarrow> 32 word \<Rightarrow> NkVariant \<Rightarrow> 'd \<Rightarrow> 'd" where
  "Stmt_Bind sq stmtPtr index varRef l =
     (if \<not> Stmt_IsValidParamIndex sq stmtPtr index l then l
      else let (varType, bs) = NkVariantGet varRef; varVal = bs @ replicate (16 - length bs) 0;
               lo = le_word (take 8 varVal); hi = le_word (drop 8 varVal)
           in if varType \<in> {NkVarTy_Int8, NkVarTy_Int16, NkVarTy_Int32, NkVarTy_Int64, NkVarTy_Uint8, NkVarTy_Uint16,
                            NkVarTy_Uint32, NkVarTy_Uint64, NkVarTy_Boolean}
              then sq_bind sq stmtPtr (sint index) (BindInt64 lo) l
              else if varType = NkVarTy_StringView then sq_bind sq stmtPtr (sint index) (BindText lo hi) l
              else if varType = NkVarTy_Double \<or> varType = NkVarTy_Float then sq_bind sq stmtPtr (sint index) (BindDouble lo) l
              else if varType = NkVarTy_Uuid then sq_bind sq stmtPtr (sint index) (BindBlob varVal) l
              else if varType = NkVarTy_BufferView then sq_bind sq stmtPtr (sint index) (BindBlobAt lo hi) l
              else if varType = NkVarTy_None then Stmt_Unbind sq stmtPtr index l
              else l)"

subsection \<open>The factory\<close>

definition HdFactory_QueryInterface :: "NkUuid \<Rightarrow> NkErrorCode" where
  "HdFactory_QueryInterface iId =
     (if NkUuidIsEqual iId IID_NkIBase \<or> NkUuidIsEqual iId IID_NkIClassFactory then NkErr_Ok else NkErr_InterfaceNotImpl)"

text \<open>The addresses of the class identifiers are arguments.\<close>

definition HdFactory_QueryInstantiableClasses :: "64 word \<Rightarrow> 64 word \<Rightarrow> (64 word \<times> NkUuid) list" where
  "HdFactory_QueryInstantiableClasses cs cd = [(cs, CLSID_NkISqlStatement), (cd, CLSID_NkIDatabase)]"

definition HdFactory_CreateInstance :: "NkUuid \<Rightarrow> 'd db_objs \<Rightarrow> NkErrorCode \<times> db_obj option \<times> 'd db_objs" where
  "HdFactory_CreateInstance clsId st =
     (let implIndex = NkOMQueryImplementationIndex [CLSID_NkISqlStatement, CLSID_NkIDatabase] clsId in
      if implIndex = SIZE_MAX then (NkErr_UnknownClass, None, st)
      else if dh_pool st \<noteq> NkErr_Ok then (dh_pool st, None, st)
      else let a = dh_next st; st = st\<lparr>dh_next := Suc a\<rparr> in
        if implIndex = 0
        then (NkErr_Ok, Some (StmtAt a), Stmt_AddRef a (put_stmt a (Some \<lparr>st_refCount = 0, st_dbConn = None, st_stmtPtr = None\<rparr>) st))
        else (NkErr_Ok, Some (DbAt a), DbHandle_AddRef a (put_db a (Some \<lparr>db_refCount = 0, db_dbMode = NkDbMode_Unknown, db_dbConn = None\<rparr>) st)))"

text \<open>The virtual functions as the object model calls them.\<close>

definition db_QueryInterface :: "db_obj \<Rightarrow> NkUuid \<Rightarrow> 'd db_objs \<Rightarrow> NkErrorCode \<times> db_obj option \<times> 'd db_objs" where
  "db_QueryInterface ob iId st =
     (case ob of HdFactory \<Rightarrow> (let ec = HdFactory_QueryInterface iId in (ec, if ec = NkErr_Ok then Some ob else None, st))
      | StmtAt a \<Rightarrow> Stmt_QueryInterface a iId st | DbAt a \<Rightarrow> DbHandle_QueryInterface a iId st)"

definition db_AddRef :: "db_obj \<Rightarrow> 'd db_objs \<Rightarrow> 'd db_objs" where
  "db_AddRef ob st = (case ob of HdFactory \<Rightarrow> st | StmtAt a \<Rightarrow> Stmt_AddRef a st | DbAt a \<Rightarrow> DbHandle_AddRef a st)"

definition db_Release :: "'d sqlite3_api \<Rightarrow> db_obj \<Rightarrow> 'd db_objs \<Rightarrow> 'd db_objs" where
  "db_Release sq ob st = (case ob of HdFactory \<Rightarrow> st | StmtAt a \<Rightarrow> Stmt_Release sq a st | DbAt a \<Rightarrow> DbHandle_Release sq a st)"

definition db_Initialize :: "'d sqlite3_api \<Rightarrow> db_obj \<Rightarrow> Sqlite3StmtInit option \<Rightarrow> 'd db_objs \<Rightarrow> NkErrorCode \<times> 'd db_objs" where
  "db_Initialize sq ob ip st =
     (case (ob, ip) of (StmtAt a, Some i) \<Rightarrow> Stmt_Initialize sq a i st | _ \<Rightarrow> (NkErr_Ok, db_fault st))"

definition db_vt :: "'d sqlite3_api \<Rightarrow> 64 word \<Rightarrow> 64 word \<Rightarrow> (db_obj, Sqlite3StmtInit, 'd db_objs) om_vt" where
  "db_vt sq cs cd =
     \<lparr>om_QueryInterface = (\<lambda>ob iId st. let (ec, r, s) = db_QueryInterface ob iId (om_objs st) in (ec, r, st\<lparr>om_objs := s\<rparr>)),
      om_AddRef = (\<lambda>ob st. st\<lparr>om_objs := db_AddRef ob (om_objs st)\<rparr>),
      om_Release = (\<lambda>ob st. st\<lparr>om_objs := db_Release sq ob (om_objs st)\<rparr>),
      om_Initialize = (\<lambda>ob ip st. let (ec, s) = db_Initialize sq ob ip (om_objs st) in (ec, st\<lparr>om_objs := s\<rparr>)),
      om_QueryInstantiableClasses = (\<lambda>ob st. (HdFactory_QueryInstantiableClasses cs cd, st)),
      om_CreateInstance = (\<lambda>ob clsId ctrlInst st. let (ec, r, s) = HdFactory_CreateInstance clsId (om_objs st) in (ec, r, st\<lparr>om_objs := s\<rparr>))\<rparr>"

definition DbSrvStartup :: "'d sqlite3_api \<Rightarrow> heap_answer \<Rightarrow> byte list \<Rightarrow> 64 word \<Rightarrow> 64 word \<Rightarrow> 'd db_om \<Rightarrow> (NkErrorCode \<times> 'd db_om) outcome" where
  "DbSrvStartup sq heap behind cs cd st = NkOMInstallClassFactory heap behind (db_vt sq cs cd) HdFactory st"

definition DbSrvShutdown :: "'d sqlite3_api \<Rightarrow> byte list \<Rightarrow> 64 word \<Rightarrow> 64 word \<Rightarrow> 'd db_om \<Rightarrow> (NkErrorCode \<times> 'd db_om) outcome" where
  "DbSrvShutdown sq behind cs cd st = NkOMUninstallClassFactory behind (db_vt sq cs cd) HdFactory st"

subsection \<open>Opening, creating and closing\<close>

text \<open>A failing \<open>sqlite3_open_v2\<close> may leave a connection behind, which is closed; the result of closing is not looked at.\<close>

definition DbHandle_Open ::
    "'d sqlite3_api \<Rightarrow> nat \<Rightarrow> string \<Rightarrow> nat \<Rightarrow> 'd db_objs \<Rightarrow> (NkErrorCode \<times> 'd db_objs) outcome" where
  "DbHandle_Open sq a dbPath mode st =
     nk_assert (NkDbMode_Unknown < mode \<and> mode < NkDbMode_Count) NkErr_InParameter
    (case dh_dbs st a of
       None \<Rightarrow> Undef
     | Some d \<Rightarrow>
         if db_dbConn d \<noteq> None then Done (NkErr_ObjectState, st)
         else let (res, conn, l) = sq_open_v2 sq dbPath (DbHandle_MapFromDbMode mode) (dh_lib st) in
           if res \<noteq> SQLITE_OK
           then Done (NkErr_DatabaseOpen, put_db a (Some (d\<lparr>db_dbConn := None\<rparr>)) (put_lib (snd (sq_close sq conn l)) st))
           else obind (DbHandle_SetPragmas sq conn mode l) (\<lambda>(errCode, l').
                  let d = d\<lparr>db_dbMode := mode\<rparr> in
                  if errCode \<noteq> NkErr_Ok
                  then Done (errCode, put_db a (Some (d\<lparr>db_dbConn := None\<rparr>)) (put_lib (snd (sq_close sq conn l')) st))
                  else Done (errCode, put_db a (Some (d\<lparr>db_dbConn := conn\<rparr>)) (put_lib l' st))))"

definition DbHandle_Create ::
    "'d sqlite3_api \<Rightarrow> nat \<Rightarrow> string option \<Rightarrow> string \<Rightarrow> nat \<Rightarrow> 'd db_objs \<Rightarrow> (NkErrorCode \<times> 'd db_objs) outcome" where
  "DbHandle_Create sq a schemaStr dbPath mode st =
     nk_assert (NkDbMode_Unknown < mode \<and> mode < NkDbMode_Count) NkErr_InParameter
    (obind (DbHandle_Open sq a dbPath (NkDbMode_ReadWrite OR NkDbMode_Create) st) (\<lambda>(errCode, st1).
       if errCode \<noteq> NkErr_Ok then Done (errCode, st1)
       else let (res, l) = (case schemaStr of
                  Some sql \<Rightarrow> if sql \<noteq> [] then sq_exec sq (Option.bind (dh_dbs st1 a) db_dbConn) sql (dh_lib st1) else (SQLITE_OK, dh_lib st1)
                | None \<Rightarrow> (SQLITE_OK, dh_lib st1));
                st2 = put_lib l st1
            in if res \<noteq> SQLITE_OK then Done (NkErr_DatabaseApplySchema, snd (DbHandle_Close sq a st2))
               else DbHandle_Open sq a dbPath mode (snd (DbHandle_Close sq a st2))))"

subsection \<open>Statements of a handle\<close>

text \<open>The call has run into undefined behaviour when a method has left a fault behind.\<close>

definition no_fault :: "'d db_objs \<Rightarrow> 'a outcome \<Rightarrow> 'a outcome" where
  "no_fault st k = (if dh_fault st then Undef else k)"

definition DbHandle_CreateStatement ::
    "'d sqlite3_api \<Rightarrow> byte list \<Rightarrow> 64 word \<Rightarrow> 64 word \<Rightarrow> nat \<Rightarrow> string \<Rightarrow> 'd db_om \<Rightarrow> (NkErrorCode \<times> db_obj option \<times> 'd db_om) outcome" where
  "DbHandle_CreateStatement sq behind cs cd a sqlStr st =
     (case dh_dbs (om_objs st) a of
        None \<Rightarrow> Undef
      | Some d \<Rightarrow>
          obind (NkOMCreateInstance behind (db_vt sq cs cd) (cs, CLSID_NkISqlStatement) None IID_NkISqlStatement
                   (Some \<lparr>si_sqlStr = sqlStr, si_dbConn = db_dbConn d, si_nkomDbConn = a\<rparr>) st)
            (\<lambda>(errCode, res, st'). no_fault (om_objs st') (Done (errCode, res, st'))))"

text \<open>\<open>junk\<close> is what the new result array holds, \<open>poolRes\<close> the answer of the pool to the request for it.\<close>

partial_function (option) exec_loop ::
    "'d sqlite3_api \<Rightarrow> NkVariant \<Rightarrow> NkErrorCode \<Rightarrow> (nat \<Rightarrow> NkVariant list \<Rightarrow> 'x \<Rightarrow> NkErrorCode \<times> 'x) option \<Rightarrow> nat option
     \<Rightarrow> NkVariant list option \<Rightarrow> 'x \<Rightarrow> 'd \<Rightarrow> (NkErrorCode \<times> 'x \<times> 'd) outcome option" where
  "exec_loop sq junk poolRes fnResIter actStmt resArr x l =
     (let (rc, l1) = sq_step sq actStmt l; cnt = sq_column_count sq actStmt l1 in
      if rc \<noteq> SQLITE_ROW then Some (Done (NkErr_Ok, x, l1))
      else if resArr = None \<and> poolRes \<noteq> NkErr_Ok then Some (Done (poolRes, x, l1))
      else lbind (Some (DbHandle_PrepareResultArray sq actStmt cnt
                          (case resArr of None \<Rightarrow> replicate cnt junk | Some arr \<Rightarrow> arr) l1)) (\<lambda>arr.
             case fnResIter of
               None \<Rightarrow> exec_loop sq junk poolRes fnResIter actStmt (Some arr) x l1
             | Some f \<Rightarrow>
                 (let (eCode, x1) = f cnt arr x in
                  if eCode \<noteq> NkErr_Ok
                  then Some (Done (if eCode = NkErr_ManuallyAborted then NkErr_Ok else eCode, x1, l1))
                  else exec_loop sq junk poolRes fnResIter actStmt (Some arr) x1 l1)))"

definition DbHandle_Execute ::
    "'d sqlite3_api \<Rightarrow> NkVariant \<Rightarrow> nat \<Rightarrow> nat \<Rightarrow> (nat \<Rightarrow> NkVariant list \<Rightarrow> 'x \<Rightarrow> NkErrorCode \<times> 'x) option \<Rightarrow> 'x \<Rightarrow> 'd db_objs
     \<Rightarrow> (NkErrorCode \<times> 'x \<times> 'd db_objs) outcome" where
  "DbHandle_Execute sq junk a s fnResIter x st =
     (case dh_dbs st a of
        None \<Rightarrow> Undef
      | Some d \<Rightarrow>
          if db_dbConn d = None then Done (NkErr_ObjectState, x, st)
          else case dh_stmts st s of
                 None \<Rightarrow> Undef
               | Some stmt \<Rightarrow>
                   obind (of_loop (exec_loop sq junk (dh_pool st) fnResIter (st_stmtPtr stmt) None x (dh_lib st))) (\<lambda>(eCode, x1, l).
                     Done (eCode, x1, put_lib (sq_reset sq (st_stmtPtr stmt) l) st)))"

definition DbHandle_ExecuteInline ::
    "'d sqlite3_api \<Rightarrow> NkVariant \<Rightarrow> byte list \<Rightarrow> 64 word \<Rightarrow> 64 word \<Rightarrow> nat \<Rightarrow> string
     \<Rightarrow> (nat \<Rightarrow> NkVariant list \<Rightarrow> 'x \<Rightarrow> NkErrorCode \<times> 'x) option \<Rightarrow> 'x \<Rightarrow> 'd db_om \<Rightarrow> (NkErrorCode \<times> 'x \<times> 'd db_om) outcome" where
  "DbHandle_ExecuteInline sq junk behind cs cd a sqlStr fnResIter x st =
     nk_assert (sqlStr \<noteq> []) NkErr_InParameter
    (obind (DbHandle_CreateStatement sq behind cs cd a sqlStr st) (\<lambda>(errCode, res, st1).
       if errCode \<noteq> NkErr_Ok then Done (errCode, x, st1)
       else case res of
              Some (StmtAt s) \<Rightarrow>
                obind (DbHandle_Execute sq junk a s fnResIter x (om_objs st1)) (\<lambda>(errCode, x1, st2).
                  let st3 = Stmt_Release sq s st2 in no_fault st3 (Done (errCode, x1, st1\<lparr>om_objs := st3\<rparr>)))
            | _ \<Rightarrow> Undef))"

subsection \<open>What the methods do to live objects\<close>

lemma put_simps [simp]:
  "dh_stmts (put_stmt a s st) = (dh_stmts st)(a := s)" "dh_dbs (put_stmt a s st) = dh_dbs st" "dh_next (put_stmt a s st) = dh_next st"
  "dh_pool (put_stmt a s st) = dh_pool st" "dh_fault (put_stmt a s st) = dh_fault st" "dh_lib (put_stmt a s st) = dh_lib st"
  "dh_dbs (put_db a d st) = (dh_dbs st)(a := d)" "dh_stmts (put_db a d st) = dh_stmts st" "dh_next (put_db a d st) = dh_next st"
  "dh_pool (put_db a d st) = dh_pool st" "dh_fault (put_db a d st) = dh_fault st" "dh_lib (put_db a d st) = dh_lib st"
  "dh_dbs (put_lib l st) = dh_dbs st" "dh_stmts (put_lib l st) = dh_stmts st" "dh_next (put_lib l st) = dh_next st"
  "dh_pool (put_lib l st) = dh_pool st" "dh_fault (put_lib l st) = dh_fault st" "dh_lib (put_lib l st) = l"
  "dh_dbs (db_fault st) = dh_dbs st" "dh_stmts (db_fault st) = dh_stmts st" "dh_next (db_fault st) = dh_next st"
  "dh_pool (db_fault st) = dh_pool st" "dh_fault (db_fault st)"
  by (simp_all add: put_stmt_def put_db_def put_lib_def db_fault_def)

lemma DbHandle_Release_live:
  assumes "dh_dbs st a = Some d"
  shows "dh_dbs (DbHandle_Release sq a st) = (dh_dbs st)(a := if db_refCount d \<le> 1 then None else Some (d\<lparr>db_refCount := db_refCount d - 1\<rparr>))"
    "dh_stmts (DbHandle_Release sq a st) = dh_stmts st" "dh_next (DbHandle_Release sq a st) = dh_next st"
    "dh_fault (DbHandle_Release sq a st) = dh_fault st"
  using assms by (auto simp: DbHandle_Release_def DbHandle_Close_def Let_def split: prod.splits)

lemma DbHandle_AddRef_live:
  "dh_dbs st a = Some d \<Longrightarrow> DbHandle_AddRef a st = put_db a (Some (d\<lparr>db_refCount := db_refCount d + 1\<rparr>)) st"
  by (simp add: DbHandle_AddRef_def)

lemma Stmt_AddRef_live:
  "dh_stmts st a = Some s \<Longrightarrow> Stmt_AddRef a st = put_stmt a (Some (s\<lparr>st_refCount := st_refCount s + 1\<rparr>)) st"
  by (simp add: Stmt_AddRef_def)

lemma Stmt_Release_live:
  assumes "dh_stmts st a = Some s" "1 < st_refCount s"
  shows "Stmt_Release sq a st = put_stmt a (Some (s\<lparr>st_refCount := st_refCount s - 1\<rparr>)) st"
  using assms by (simp add: Stmt_Release_def)

lemma Stmt_Release_last:
  assumes "dh_stmts st a = Some s" "st_refCount s = 1" "st_dbConn s = Some b" "dh_dbs st b = Some d"
  shows "dh_dbs (Stmt_Release sq a st) = (dh_dbs st)(b := if db_refCount d \<le> 1 then None else Some (d\<lparr>db_refCount := db_refCount d - 1\<rparr>))"
    "dh_stmts (Stmt_Release sq a st) = (dh_stmts st)(a := None)" "dh_next (Stmt_Release sq a st) = dh_next st"
    "dh_fault (Stmt_Release sq a st) = dh_fault st"
  using assms by (simp_all add: Stmt_Release_def Let_def DbHandle_Release_live[where d = d])

lemma db_uuid_tables [simp]:
  "NkOMQueryImplementationIndex [CLSID_NkISqlStatement, CLSID_NkIDatabase] CLSID_NkISqlStatement = 0"
  "NkOMQueryImplementationIndex [CLSID_NkISqlStatement, CLSID_NkIDatabase] CLSID_NkIDatabase = 1"
  "NkOMQueryImplementationIndex [IID_NkIBase, IID_NkIInitializable, IID_NkISqlStatement] IID_NkIInitializable = 1"
  "NkOMQueryImplementationIndex [IID_NkIBase, IID_NkIInitializable, IID_NkISqlStatement] IID_NkISqlStatement = 2"
  "NkUuidIsEqual IID_NkIInitializable IID_NkIBase = False" "NkUuidIsEqual IID_NkIInitializable IID_NkIDatabase = False"
  "NkUuidIsEqual IID_NkIDatabase IID_NkIDatabase"
  "length CLSID_NkISqlStatement = 16" "length CLSID_NkIDatabase = 16"
  by (simp_all add: NkOMQueryImplementationIndex_def NkUuidIsEqual_def CLSID_NkISqlStatement_def CLSID_NkIDatabase_def IID_NkIBase_def
      IID_NkISqlStatement_def IID_NkIDatabase_def IID_NkIInitializable_def)

lemma db_vt_sel [simp]:
  "om_QueryInterface (db_vt sq cs cd) = (\<lambda>ob iId st. let (ec, r, s) = db_QueryInterface ob iId (om_objs st) in (ec, r, st\<lparr>om_objs := s\<rparr>))"
  "om_AddRef (db_vt sq cs cd) = (\<lambda>ob st. st\<lparr>om_objs := db_AddRef ob (om_objs st)\<rparr>)"
  "om_Release (db_vt sq cs cd) = (\<lambda>ob st. st\<lparr>om_objs := db_Release sq ob (om_objs st)\<rparr>)"
  "om_Initialize (db_vt sq cs cd) = (\<lambda>ob ip st. let (ec, s) = db_Initialize sq ob ip (om_objs st) in (ec, st\<lparr>om_objs := s\<rparr>))"
  "om_CreateInstance (db_vt sq cs cd) = (\<lambda>ob clsId ctrlInst st. let (ec, r, s) = HdFactory_CreateInstance clsId (om_objs st) in (ec, r, st\<lparr>om_objs := s\<rparr>))"
  "db_AddRef HdFactory o1 = o1" "db_Release sq HdFactory o1 = o1"
  by (simp_all add: db_vt_def db_AddRef_def db_Release_def)

text \<open>The registry knows the factory under both classes.\<close>

definition db_registered :: "'d db_om \<Rightarrow> byte list \<Rightarrow> bool" where
  "db_registered st behind \<longleftrightarrow> (\<exists>ht. reg_ok st ht \<and> length behind = 8
     \<and> ht_map ht (IdUuid CLSID_NkISqlStatement) = Some (Some HdFactory) \<and> ht_map ht (IdUuid CLSID_NkIDatabase) = Some (Some HdFactory))"

lemma db_registered_objs [simp]: "db_registered (st\<lparr>om_objs := s\<rparr>) behind = db_registered st behind"
  by (simp add: db_registered_def)

lemma db_query_factory:
  assumes "db_registered st behind"
  shows "om_isInitialized st"
    "NkOMQueryFactoryForClass behind (db_vt sq cs cd) (cs, CLSID_NkISqlStatement) st = Done (NkErr_Ok, Some HdFactory, st)"
    "NkOMQueryFactoryForClass behind (db_vt sq cs cd) (cd, CLSID_NkIDatabase) st = Done (NkErr_Ok, Some HdFactory, st)"
proof -
  obtain ht where "reg_ok st ht" "length behind = 8"
     "ht_map ht (IdUuid CLSID_NkISqlStatement) = Some (Some HdFactory)" "ht_map ht (IdUuid CLSID_NkIDatabase) = Some (Some HdFactory)"
    using assms by (auto simp: db_registered_def)
  then show "om_isInitialized st"
    "NkOMQueryFactoryForClass behind (db_vt sq cs cd) (cs, CLSID_NkISqlStatement) st = Done (NkErr_Ok, Some HdFactory, st)"
    "NkOMQueryFactoryForClass behind (db_vt sq cs cd) (cd, CLSID_NkIDatabase) st = Done (NkErr_Ok, Some HdFactory, st)"
    using QueryFactory_spec[of st ht "(cs, CLSID_NkISqlStatement)" behind "db_vt sq cs cd"]
      QueryFactory_spec[of st ht "(cd, CLSID_NkIDatabase)" behind "db_vt sq cs cd"]
    by (simp_all add: reg_ok_def)
qed

lemma create_database_instance:
  assumes "db_registered st behind"
  shows "NkOMCreateInstance behind (db_vt sq cs cd) (cd, CLSID_NkIDatabase) None IID_NkIDatabase None st
    = (let o1 = om_objs st; n = dh_next o1 in
       if dh_pool o1 \<noteq> NkErr_Ok then Done (dh_pool o1, None, st)
       else Done (NkErr_Ok, Some (DbAt n), st\<lparr>om_objs := put_db n (Some \<lparr>db_refCount = 1, db_dbMode = 0, db_dbConn = None\<rparr>) (o1\<lparr>dh_next := Suc n\<rparr>)\<rparr>))"
proof (cases "dh_pool (om_objs st) = NkErr_Ok")
  case False
  then show ?thesis
    using db_query_factory[OF assms] by (simp add: NkOMCreateInstance_def HdFactory_CreateInstance_def Let_def)
next
  case True
  then show ?thesis
    using db_query_factory[OF assms]
    by (simp add: NkOMCreateInstance_def HdFactory_CreateInstance_def Let_def finish_instance_def init_instance_def
        db_QueryInterface_def DbHandle_QueryInterface_def DbHandle_AddRef_def db_Release_def DbHandle_Release_def put_db_def)
qed

lemma create_statement_instance:
  assumes "db_registered st behind" "dh_dbs (om_objs st) a = Some d" "\<not> dh_fault (om_objs st)"
    "sq_prepare_v2 sq (db_dbConn d) sql (dh_lib (om_objs st)) = (rc, p, l)"
  shows "DbHandle_CreateStatement sq behind cs cd a sql st
    = (let o1 = om_objs st; n = dh_next o1 in
       if dh_pool o1 \<noteq> NkErr_Ok then Done (dh_pool o1, None, st)
       else if rc \<noteq> SQLITE_OK then Undef
       else Done (NkErr_Ok, Some (StmtAt n), st\<lparr>om_objs := put_stmt n (Some \<lparr>st_refCount = 1, st_dbConn = Some a, st_stmtPtr = p\<rparr>)
              (put_lib l (DbHandle_AddRef a (o1\<lparr>dh_next := Suc n\<rparr>)))\<rparr>))"
proof (cases "dh_pool (om_objs st) = NkErr_Ok")
  case False
  then show ?thesis
    using db_query_factory[OF assms(1)] assms(2,3)
    by (simp add: DbHandle_CreateStatement_def NkOMCreateInstance_def HdFactory_CreateInstance_def Let_def no_fault_def)
next
  case True
  let ?o = "om_objs st" and ?n = "dh_next (om_objs st)"
  let ?init = "\<lparr>si_sqlStr = sql, si_dbConn = db_dbConn d, si_nkomDbConn = a\<rparr>"
  let ?new = "put_stmt ?n (Some \<lparr>st_refCount = 1, st_dbConn = None, st_stmtPtr = None\<rparr>) (?o\<lparr>dh_next := Suc ?n\<rparr>)"
  have cr: "HdFactory_CreateInstance CLSID_NkISqlStatement ?o = (NkErr_Ok, Some (StmtAt ?n), ?new)"
    using True by (simp add: HdFactory_CreateInstance_def Let_def Stmt_AddRef_def put_stmt_def)
  have ini: "db_Initialize sq (StmtAt ?n) (Some ?init) (Stmt_AddRef ?n ?new) = (if rc \<noteq> SQLITE_OK
      then (NkErr_CompileSqlStatement, put_stmt ?n (Some \<lparr>st_refCount = 2, st_dbConn = None, st_stmtPtr = p\<rparr>) (put_lib l (?o\<lparr>dh_next := Suc ?n\<rparr>)))
      else (NkErr_Ok, put_stmt ?n (Some \<lparr>st_refCount = 2, st_dbConn = Some a, st_stmtPtr = p\<rparr>)
             (put_lib l (DbHandle_AddRef a (?o\<lparr>dh_next := Suc ?n\<rparr>)))))"
    using assms(2,4) by (simp add: db_Initialize_def Stmt_Initialize_def Stmt_AddRef_def DbHandle_AddRef_def put_stmt_def put_lib_def put_db_def)
  have "NkOMCreateInstance behind (db_vt sq cs cd) (cs, CLSID_NkISqlStatement) None IID_NkISqlStatement (Some ?init) st
    = finish_instance (db_vt sq cs cd) (StmtAt ?n) IID_NkISqlStatement (Some ?init) (st\<lparr>om_objs := ?new\<rparr>)"
    using db_query_factory[OF assms(1)] cr by (simp add: NkOMCreateInstance_def)
  also have "\<dots> = (if rc \<noteq> SQLITE_OK
      then Done (NkErr_CompileSqlStatement, None, st\<lparr>om_objs := put_stmt ?n None (db_fault (put_lib (sq_finalize sq p l) (?o\<lparr>dh_next := Suc ?n\<rparr>)))\<rparr>)
      else Done (NkErr_Ok, Some (StmtAt ?n), st\<lparr>om_objs := put_stmt ?n (Some \<lparr>st_refCount = 1, st_dbConn = Some a, st_stmtPtr = p\<rparr>)
              (put_lib l (DbHandle_AddRef a (?o\<lparr>dh_next := Suc ?n\<rparr>)))\<rparr>))"
    using ini
    by (simp add: finish_instance_def init_instance_def db_QueryInterface_def Stmt_QueryInterface_def db_Release_def Stmt_Release_def
        Stmt_AddRef_def Let_def put_stmt_def put_lib_def db_fault_def)
  finally show ?thesis
    using assms(2,3) True by (auto simp: DbHandle_CreateStatement_def no_fault_def Let_def DbHandle_AddRef_def)
qed

subsection \<open>Reading the rows\<close>

text \<open>What a column delivers, by its type, and the rows a statement steps through.\<close>

definition column_value :: "'d sqlite3_api \<Rightarrow> nat option \<Rightarrow> 'd \<Rightarrow> nat \<Rightarrow> NkVariantType \<times> byte list" where
  "column_value sq p l i =
     (if sq_column_type sq p i l = 1 then (NkVarTy_Int64, le_bytes (sq_column_int64 sq p i l))
      else if sq_column_type sq p i l = 2 then (NkVarTy_Double, le_bytes (sq_column_double sq p i l))
      else if sq_column_type sq p i l \<in> {3, 4}
      then (if sq_column_type sq p i l = 3 then NkVarTy_StringView else NkVarTy_BufferView,
            le_bytes (sq_column_data sq p i l) @ le_bytes (scast (sq_column_bytes sq p i l)))
      else (NkVarTy_None, []))"

definition row_values :: "'d sqlite3_api \<Rightarrow> nat option \<Rightarrow> 'd \<Rightarrow> (NkVariantType \<times> byte list) list" where
  "row_values sq p l = map (column_value sq p l) [0..<sq_column_count sq p l]"

fun delivers :: "'d sqlite3_api \<Rightarrow> nat option \<Rightarrow> 'd \<Rightarrow> 'd list \<Rightarrow> 'd \<Rightarrow> bool" where
  "delivers sq p l [] lend \<longleftrightarrow> (\<exists>rc. rc \<noteq> SQLITE_ROW \<and> sq_step sq p l = (rc, lend))"
| "delivers sq p l (r # rs) lend \<longleftrightarrow> sq_step sq p l = (SQLITE_ROW, r) \<and> delivers sq p r rs lend"

fun visit_rows :: "('v \<Rightarrow> 'x \<Rightarrow> NkErrorCode \<times> 'x) \<Rightarrow> ('v \<times> 'd) list \<Rightarrow> 'd \<Rightarrow> 'x \<Rightarrow> NkErrorCode \<times> 'x \<times> 'd" where
  "visit_rows g [] lend x = (NkErr_Ok, x, lend)"
| "visit_rows g ((row, l) # rows) lend x =
     (let (ec, x1) = g row x in
      if ec = NkErr_Ok then visit_rows g rows lend x1 else (if ec = NkErr_ManuallyAborted then NkErr_Ok else ec, x1, l))"

lemma fold_update: "m \<le> length arr \<Longrightarrow> fold (\<lambda>i arr. arr[i := h i (arr ! i)]) [0..<m] arr = map (\<lambda>i. h i (arr ! i)) [0..<m] @ drop m arr"
proof (induction m)
  case (Suc m)
  then have "drop m arr = arr ! m # drop (Suc m) arr" by (simp add: Cons_nth_drop_Suc)
  with Suc show ?case by (simp add: nth_append list_update_append)
qed simp

lemma set_column_value:
  "length (var_val v) = 16 \<Longrightarrow> NkVariantGet (set_column sq p l i v) = column_value sq p l i \<and> length (var_val (set_column sq p l i v)) = 16"
  by (auto simp: set_column_def column_value_def DbHandle_MapFromSqlite3ColumnType_def NkVariantGet_def NkVariantSet_def va_arg_size_def Let_def)

lemma PrepareResultArray_values:
  assumes "length arr = n" "0 < n" "sq_column_count sq p l = n" "\<forall>v\<in>set arr. length (var_val v) = 16"
  shows "\<exists>arr'. DbHandle_PrepareResultArray sq p n arr l = Done arr' \<and> map NkVariantGet arr' = row_values sq p l
    \<and> length arr' = n \<and> (\<forall>v\<in>set arr'. length (var_val v) = 16)"
  using assms by (auto simp: DbHandle_PrepareResultArray_def fold_update row_values_def set_column_value)

lemma exec_loop_visits:
  assumes "delivers sq p l rs lend" "\<forall>r\<in>set rs. sq_column_count sq p r = n" "0 < n" "length (var_val junk) = 16"
    "case arr of None \<Rightarrow> True | Some vs \<Rightarrow> length vs = n \<and> (\<forall>v\<in>set vs. length (var_val v) = 16)"
  shows "exec_loop sq junk NkErr_Ok (Some (\<lambda>n vs. g (map NkVariantGet vs))) p arr x l
    = Some (Done (visit_rows g (map (\<lambda>r. (row_values sq p r, r)) rs) lend x))"
  using assms
proof (induction rs arbitrary: l x arr)
  case Nil
  then show ?case by (auto simp: exec_loop.simps[of sq junk])
next
  case (Cons r rs)
  let ?vs = "case arr of None \<Rightarrow> replicate n junk | Some vs \<Rightarrow> vs"
  obtain arr' where arr: "DbHandle_PrepareResultArray sq p n ?vs r = Done arr'" "map NkVariantGet arr' = row_values sq p r"
    "length arr' = n" "\<forall>v\<in>set arr'. length (var_val v) = 16"
    using PrepareResultArray_values[of ?vs n sq p r] Cons.prems by (auto split: option.splits)
  show ?case
    using Cons.prems arr Cons.IH[of r "Some arr'"]
    by (subst exec_loop.simps) (cases arr; auto simp: Let_def split: prod.splits)
qed

subsection \<open>Lifetimes\<close>

text \<open>
  \<open>own\<close> counts the references the clients hold.  Every object counts exactly the references on it, where a statement
  holds one on its handle; freed objects are not referred to by anyone.
\<close>

definition attached :: "'d db_objs \<Rightarrow> nat \<Rightarrow> nat set" where
  "attached st d = {s. \<exists>x. dh_stmts st s = Some x \<and> st_dbConn x = Some d}"

definition db_refs :: "'d db_objs \<Rightarrow> (db_obj \<Rightarrow> nat) \<Rightarrow> nat \<Rightarrow> nat" where
  "db_refs st own d = own (DbAt d) + card (attached st d)"

fun stmt_ok :: "Sqlite3Stmt option \<Rightarrow> nat \<Rightarrow> bool" where
  "stmt_ok None r \<longleftrightarrow> r = 0"
| "stmt_ok (Some x) r \<longleftrightarrow> 0 < r \<and> st_refCount x = int r \<and> st_dbConn x \<noteq> None"

fun handle_ok :: "Sqlite3DbHandle option \<Rightarrow> nat \<Rightarrow> bool" where
  "handle_ok None r \<longleftrightarrow> r = 0"
| "handle_ok (Some x) r \<longleftrightarrow> 0 < r \<and> db_refCount x = int r"

definition stmt_inv :: "'d db_objs \<Rightarrow> (db_obj \<Rightarrow> nat) \<Rightarrow> bool" where
  "stmt_inv st own \<longleftrightarrow> (\<forall>s. stmt_ok (dh_stmts st s) (own (StmtAt s)))"

definition handle_inv :: "'d db_objs \<Rightarrow> (db_obj \<Rightarrow> nat) \<Rightarrow> bool" where
  "handle_inv st own \<longleftrightarrow> (\<forall>d. handle_ok (dh_dbs st d) (db_refs st own d))"

definition db_inv :: "'d db_objs \<Rightarrow> (db_obj \<Rightarrow> nat) \<Rightarrow> bool" where
  "db_inv st own \<longleftrightarrow> \<not> dh_fault st \<and> finite (dom (dh_stmts st)) \<and> (\<forall>n\<ge>dh_next st. dh_stmts st n = None \<and> dh_dbs st n = None)
     \<and> stmt_inv st own \<and> handle_inv st own"

lemma finite_attached: "finite (dom (dh_stmts st)) \<Longrightarrow> finite (attached st d)"
  by (rule finite_subset[of _ "dom (dh_stmts st)"]) (auto simp: attached_def)

lemma attached_put:
  "attached (put_db a y st) d = attached st d" "attached (put_lib l st) d = attached st d" "attached (st\<lparr>dh_next := n\<rparr>) d = attached st d"
  "attached (put_stmt a (Some x) st) d = (if st_dbConn x = Some d then insert a (attached st d) else attached st d - {a})"
  "attached (put_stmt a None st) d = attached st d - {a}"
  by (auto simp: attached_def)

lemma attached_cong: "dh_stmts st = dh_stmts st' \<Longrightarrow> attached st d = attached st' d"
  by (simp add: attached_def)

text \<open>The client's operations, each on objects it holds a reference on.\<close>

inductive db_step :: "'d sqlite3_api \<Rightarrow> byte list \<Rightarrow> 64 word \<Rightarrow> 64 word \<Rightarrow> 'd db_om \<times> (db_obj \<Rightarrow> nat) \<Rightarrow> 'd db_om \<times> (db_obj \<Rightarrow> nat) \<Rightarrow> bool"
  for sq behind cs cd where
  new_database: "NkOMCreateInstance behind (db_vt sq cs cd) (cd, CLSID_NkIDatabase) None IID_NkIDatabase None st = Done (NkErr_Ok, Some ob, st')
    \<Longrightarrow> db_step sq behind cs cd (st, own) (st', own(ob := 1))"
| new_statement: "0 < own (DbAt a) \<Longrightarrow> DbHandle_CreateStatement sq behind cs cd a sql st = Done (NkErr_Ok, Some ob, st')
    \<Longrightarrow> db_step sq behind cs cd (st, own) (st', own(ob := 1))"
| add_ref: "0 < own ob \<Longrightarrow> ob \<noteq> HdFactory
    \<Longrightarrow> db_step sq behind cs cd (st, own) (st\<lparr>om_objs := db_AddRef ob (om_objs st)\<rparr>, own(ob := own ob + 1))"
| release: "0 < own ob \<Longrightarrow> ob \<noteq> HdFactory
    \<Longrightarrow> db_step sq behind cs cd (st, own) (st\<lparr>om_objs := db_Release sq ob (om_objs st)\<rparr>, own(ob := own ob - 1))"
| open_database: "0 < own (DbAt a) \<Longrightarrow> DbHandle_Open sq a path mode (om_objs st) = Done (ec, o1)
    \<Longrightarrow> db_step sq behind cs cd (st, own) (st\<lparr>om_objs := o1\<rparr>, own)"
| create_database: "0 < own (DbAt a) \<Longrightarrow> DbHandle_Create sq a schema path mode (om_objs st) = Done (ec, o1)
    \<Longrightarrow> db_step sq behind cs cd (st, own) (st\<lparr>om_objs := o1\<rparr>, own)"
| close_database: "0 < own (DbAt a) \<Longrightarrow> DbHandle_Close sq a (om_objs st) = (ec, o1)
    \<Longrightarrow> db_step sq behind cs cd (st, own) (st\<lparr>om_objs := o1\<rparr>, own)"
| execute: "0 < own (DbAt a) \<Longrightarrow> 0 < own (StmtAt s) \<Longrightarrow> DbHandle_Execute sq junk a s f (x :: nat) (om_objs st) = Done (ec, x', o1)
    \<Longrightarrow> db_step sq behind cs cd (st, own) (st\<lparr>om_objs := o1\<rparr>, own)"
| bind: "0 < own (StmtAt s) \<Longrightarrow> dh_stmts (om_objs st) s = Some stmt
    \<Longrightarrow> db_step sq behind cs cd (st, own) (st\<lparr>om_objs := put_lib (Stmt_Bind sq (st_stmtPtr stmt) i v (dh_lib (om_objs st))) (om_objs st)\<rparr>, own)"

text \<open>Operations that change connections, modes and the library only.\<close>

definition same_objects :: "'d db_objs \<Rightarrow> 'd db_objs \<Rightarrow> bool" where
  "same_objects st st' \<longleftrightarrow> dh_stmts st' = dh_stmts st \<and> dh_next st' = dh_next st \<and> dh_fault st' = dh_fault st
     \<and> (\<forall>d. map_option db_refCount (dh_dbs st' d) = map_option db_refCount (dh_dbs st d))"

lemma same_objects_trans: "same_objects a b \<Longrightarrow> same_objects b c \<Longrightarrow> same_objects a c"
  by (simp add: same_objects_def)

lemma same_objects_simps [simp]: "same_objects st st" "same_objects st (put_lib l st)"
  "dh_dbs st a = Some d \<Longrightarrow> db_refCount d' = db_refCount d \<Longrightarrow> same_objects st (put_db a (Some d') st)"
  "dh_dbs st a = Some d \<Longrightarrow> db_refCount d' = db_refCount d \<Longrightarrow> same_objects st (put_db a (Some d') (put_lib l st))"
  by (auto simp: same_objects_def)

lemma same_objects_inv: "same_objects st st' \<Longrightarrow> db_inv st own \<Longrightarrow> db_inv st' own"
proof -
  assume s: "same_objects st st'" and i: "db_inv st own"
  have r: "db_refs st' own d = db_refs st own d" for d
    using s by (simp add: db_refs_def attached_cong[of st' st] same_objects_def)
  have n: "dh_dbs st' n = None \<longleftrightarrow> dh_dbs st n = None" for n
    using s by (metis map_option_is_None same_objects_def)
  have "handle_inv st' own"
    unfolding handle_inv_def
  proof
    fix d
    have "map_option db_refCount (dh_dbs st' d) = map_option db_refCount (dh_dbs st d)" using s by (simp add: same_objects_def)
    moreover have "handle_ok (dh_dbs st d) (db_refs st own d)" using i by (simp add: db_inv_def handle_inv_def)
    ultimately show "handle_ok (dh_dbs st' d) (db_refs st' own d)"
      unfolding r by (cases "dh_dbs st d"; cases "dh_dbs st' d") auto
  qed
  then show ?thesis using s i n by (simp add: db_inv_def same_objects_def stmt_inv_def)
qed

lemma DbHandle_Close_same: "dh_dbs st a = Some d \<Longrightarrow> same_objects st (snd (DbHandle_Close sq a st))"
  by (auto simp: DbHandle_Close_def Let_def split: prod.splits)

lemma DbHandle_Open_same: "DbHandle_Open sq a path mode st = Done (ec, st') \<Longrightarrow> same_objects st st'"
  by (auto simp: DbHandle_Open_def nk_outcome Let_def split: option.splits if_splits prod.splits)

lemma same_objects_live: "same_objects st st' \<Longrightarrow> dh_dbs st a = Some d \<Longrightarrow> \<exists>d'. dh_dbs st' a = Some d' \<and> db_refCount d' = db_refCount d"
  by (metis map_option_eq_Some option.simps(9) same_objects_def)

lemma DbHandle_Create_same:
  assumes "DbHandle_Create sq a schema path mode st = Done (ec, st')" "dh_dbs st a = Some d"
  shows "same_objects st st'"
proof -
  obtain ec1 st1 where o: "DbHandle_Open sq a path (NkDbMode_ReadWrite OR NkDbMode_Create) st = Done (ec1, st1)"
    using assms(1) by (auto simp: DbHandle_Create_def nk_outcome)
  have s1: "same_objects st st1" using DbHandle_Open_same[OF o] .
  obtain d1 where d1: "dh_dbs st1 a = Some d1" using same_objects_live[OF s1 assms(2)] by blast
  have cl: "same_objects st (snd (DbHandle_Close sq a (put_lib l st1)))" for l
    using same_objects_trans[OF s1 same_objects_trans[OF _ DbHandle_Close_same]] d1 by fastforce
  show ?thesis
    using assms(1) o s1 same_objects_trans[OF cl DbHandle_Open_same] cl
    by (auto simp: DbHandle_Create_def nk_outcome Let_def split: if_splits prod.splits)
qed

lemma DbHandle_Execute_same: "DbHandle_Execute sq junk a s f x st = Done (ec, x', st') \<Longrightarrow> same_objects st st'"
  by (auto simp: DbHandle_Execute_def nk_outcome split: option.splits if_splits)

lemma handle_inv_change:
  assumes "handle_inv st own" "\<And>c. c \<noteq> b \<Longrightarrow> db_refs st' own' c = db_refs st own c \<and> dh_dbs st' c = dh_dbs st c"
    "handle_ok (dh_dbs st' b) (db_refs st' own' b)"
  shows "handle_inv st' own'"
  using assms unfolding handle_inv_def by metis

lemma stmt_inv_change:
  assumes "stmt_inv st own" "\<And>c. c \<noteq> b \<Longrightarrow> own' (StmtAt c) = own (StmtAt c) \<and> dh_stmts st' c = dh_stmts st c"
    "stmt_ok (dh_stmts st' b) (own' (StmtAt b))"
  shows "stmt_inv st' own'"
  using assms unfolding stmt_inv_def by metis

lemma db_inv_handle:
  assumes "db_inv st own" "0 < db_refs st own a"
  obtains d where "dh_dbs st a = Some d" "db_refCount d = int (db_refs st own a)"
proof -
  have "handle_ok (dh_dbs st a) (db_refs st own a)" using assms(1) by (simp add: db_inv_def handle_inv_def)
  then show ?thesis using that assms(2) by (cases "dh_dbs st a") auto
qed

lemma db_inv_stmt:
  assumes "db_inv st own" "0 < own (StmtAt s)"
  obtains x b where "dh_stmts st s = Some x" "st_refCount x = int (own (StmtAt s))" "st_dbConn x = Some b" "s \<in> attached st b"
    "0 < db_refs st own b"
proof -
  have "stmt_ok (dh_stmts st s) (own (StmtAt s))" using assms(1) by (simp add: db_inv_def stmt_inv_def)
  then obtain x b where x: "dh_stmts st s = Some x" "st_refCount x = int (own (StmtAt s))" "st_dbConn x = Some b"
    using assms(2) by (cases "dh_stmts st s") auto
  then have "s \<in> attached st b" by (simp add: attached_def)
  moreover have "finite (attached st b)" using assms(1) by (simp add: db_inv_def finite_attached)
  ultimately have "0 < card (attached st b)" using card_gt_0_iff by blast
  then show ?thesis using that x \<open>s \<in> attached st b\<close> by (simp add: db_refs_def)
qed

lemma db_inv_release_handle:
  assumes i: "db_inv st own" and o: "0 < own (DbAt a)"
  shows "db_inv (DbHandle_Release sq a st) (own(DbAt a := own (DbAt a) - 1))"
proof -
  have r: "0 < db_refs st own a" using o by (simp add: db_refs_def)
  obtain d where d: "dh_dbs st a = Some d" "db_refCount d = int (db_refs st own a)" by (rule db_inv_handle[OF i r])
  note rel = DbHandle_Release_live[OF d(1), of sq]
  define own' where "own' = own(DbAt a := own (DbAt a) - 1)"
  have refs: "db_refs (DbHandle_Release sq a st) own' c = (if c = a then db_refs st own a - 1 else db_refs st own c)" for c
    using o by (simp add: db_refs_def attached_cong[OF rel(2)] own'_def)
  have "handle_inv (DbHandle_Release sq a st) own'"
    by (rule handle_inv_change[where st = st and own = own and b = a]) (use i d r in \<open>auto simp: db_inv_def refs rel(1)\<close>)
  then show ?thesis
    using i d rel unfolding own'_def[symmetric] by (auto simp: db_inv_def stmt_inv_def own'_def)
qed

lemma db_inv_release_stmt:
  assumes i: "db_inv st own" and o: "0 < own (StmtAt s)"
  shows "db_inv (Stmt_Release sq s st) (own(StmtAt s := own (StmtAt s) - 1))"
proof -
  obtain x b where x: "dh_stmts st s = Some x" "st_refCount x = int (own (StmtAt s))" "st_dbConn x = Some b" "s \<in> attached st b"
    "0 < db_refs st own b" by (rule db_inv_stmt[OF i o])
  define own' where own: "own' = own(StmtAt s := own (StmtAt s) - 1)"
  show ?thesis unfolding own[symmetric]
  proof (cases "own (StmtAt s) = 1")
    case False
    then have rel: "Stmt_Release sq s st = put_stmt s (Some (x\<lparr>st_refCount := st_refCount x - 1\<rparr>)) st"
      using o x by (simp add: Stmt_Release_live)
    have "attached (Stmt_Release sq s st) c = attached st c" for c
      using x by (auto simp: rel attached_def)
    then have refs: "db_refs (Stmt_Release sq s st) own' c = db_refs st own c" for c by (simp add: db_refs_def own)
    have "stmt_inv (Stmt_Release sq s st) own'"
      by (rule stmt_inv_change[where st = st and own = own and b = s]) (use i o x False in \<open>auto simp: db_inv_def rel own\<close>)
    moreover have "handle_inv (Stmt_Release sq s st) own'"
      using i unfolding db_inv_def handle_inv_def refs by (simp add: rel)
    ultimately show "db_inv (Stmt_Release sq s st) own'" using i x by (auto simp: db_inv_def rel)
  next
    case True
    obtain d where d: "dh_dbs st b = Some d" "db_refCount d = int (db_refs st own b)" by (rule db_inv_handle[OF i x(5)])
    have one: "st_refCount x = 1" using x True by simp
    note rel = Stmt_Release_last[OF x(1) one x(3) d(1), of sq]
    have fin: "finite (attached st b)" using i by (simp add: db_inv_def finite_attached)
    have att: "attached (Stmt_Release sq s st) c = (if c = b then attached st b - {s} else attached st c)" for c
      using x by (auto simp: attached_def rel)
    have refs: "db_refs (Stmt_Release sq s st) own' c = (if c = b then db_refs st own b - 1 else db_refs st own c)" for c
      using x(4) fin card_gt_0_iff[of "attached st b"] by (auto simp: db_refs_def att card_Diff_singleton own)
    have "stmt_inv (Stmt_Release sq s st) own'"
      by (rule stmt_inv_change[where st = st and own = own and b = s]) (use i True in \<open>auto simp: db_inv_def rel own\<close>)
    moreover have "handle_inv (Stmt_Release sq s st) own'"
      by (rule handle_inv_change[where st = st and own = own and b = b]) (use i d x in \<open>auto simp: db_inv_def refs rel\<close>)
    ultimately show "db_inv (Stmt_Release sq s st) own'" using i rel d x by (auto simp: db_inv_def)
  qed
qed

lemma db_inv_addref_handle:
  assumes i: "db_inv st own" and r: "0 < db_refs st own a" and o: "db_refs st' own' a = db_refs st own a + 1"
    "\<And>c. c \<noteq> a \<Longrightarrow> db_refs st' own' c = db_refs st own c" and d: "dh_dbs st' = dh_dbs (DbHandle_AddRef a st)"
  shows "handle_inv st' own'"
proof -
  obtain x where x: "dh_dbs st a = Some x" "db_refCount x = int (db_refs st own a)" by (rule db_inv_handle[OF i r])
  show ?thesis
    by (rule handle_inv_change[where st = st and own = own and b = a])
      (use i o d x in \<open>auto simp: db_inv_def DbHandle_AddRef_live[OF x(1)]\<close>)
qed

lemma db_inv_add_ref:
  assumes i: "db_inv st own" and o: "0 < own ob" "ob \<noteq> HdFactory"
  shows "db_inv (db_AddRef ob st) (own(ob := own ob + 1))"
proof (cases ob)
  case (DbAt a)
  then have r: "0 < db_refs st own a" using o by (simp add: db_refs_def)
  obtain d where d: "dh_dbs st a = Some d" by (rule db_inv_handle[OF i r])
  have "handle_inv (DbHandle_AddRef a st) (own(ob := own ob + 1))"
    by (rule db_inv_addref_handle[OF i r]) (auto simp: DbAt db_refs_def DbHandle_AddRef_live[OF d] attached_put)
  then show ?thesis
    using i d by (auto simp: DbAt db_AddRef_def db_inv_def stmt_inv_def DbHandle_AddRef_live[OF d])
next
  case (StmtAt s)
  obtain x b where x: "dh_stmts st s = Some x" "st_refCount x = int (own (StmtAt s))" "st_dbConn x = Some b"
    by (rule db_inv_stmt[OF i]) (use o StmtAt in auto)
  let ?st = "put_stmt s (Some (x\<lparr>st_refCount := st_refCount x + 1\<rparr>)) st"
  have "attached ?st c = attached st c" for c using x by (auto simp: attached_def)
  then have refs: "db_refs ?st (own(ob := own ob + 1)) c = db_refs st own c" for c by (simp add: db_refs_def StmtAt)
  have "stmt_inv ?st (own(ob := own ob + 1))"
    by (rule stmt_inv_change[where st = st and own = own and b = s]) (use i x StmtAt in \<open>auto simp: db_inv_def\<close>)
  moreover have "handle_inv ?st (own(ob := own ob + 1))"
    using i unfolding db_inv_def handle_inv_def refs by simp
  ultimately show ?thesis using i x by (auto simp: db_inv_def StmtAt db_AddRef_def Stmt_AddRef_live[OF x(1)])
qed (use o in simp)

lemma db_inv_new_database:
  assumes i: "db_inv st own"
  shows "db_inv (put_db (dh_next st) (Some \<lparr>db_refCount = 1, db_dbMode = m, db_dbConn = c\<rparr>) (st\<lparr>dh_next := Suc (dh_next st)\<rparr>)) (own(DbAt (dh_next st) := 1))"
    (is "db_inv ?st ?own")
proof -
  let ?n = "dh_next st"
  have none: "dh_dbs st ?n = None" using i by (simp add: db_inv_def)
  have "handle_ok (dh_dbs st ?n) (db_refs st own ?n)" using i unfolding db_inv_def handle_inv_def by blast
  then have z: "db_refs st own ?n = 0" by (simp add: none)
  have refs: "db_refs ?st ?own c = (if c = ?n then 1 else db_refs st own c)" for c
    using z by (simp add: db_refs_def attached_put)
  have "handle_inv ?st ?own"
    by (rule handle_inv_change[where st = st and own = own and b = ?n]) (use i in \<open>auto simp: db_inv_def refs[simplified]\<close>)
  then show ?thesis using i by (auto simp: db_inv_def stmt_inv_def)
qed

lemma db_inv_new_statement:
  assumes i: "db_inv st own" and o: "0 < own (DbAt a)"
  shows "db_inv (put_stmt (dh_next st) (Some \<lparr>st_refCount = 1, st_dbConn = Some a, st_stmtPtr = p\<rparr>)
      (put_lib l (DbHandle_AddRef a (st\<lparr>dh_next := Suc (dh_next st)\<rparr>)))) (own(StmtAt (dh_next st) := 1))" (is "db_inv ?st ?own")
proof -
  let ?n = "dh_next st"
  have r: "0 < db_refs st own a" using o by (simp add: db_refs_def)
  obtain d where d: "dh_dbs st a = Some d" by (rule db_inv_handle[OF i r])
  then have d': "dh_dbs (st\<lparr>dh_next := Suc ?n\<rparr>) a = Some d" by simp
  have lt: "a < ?n" using i d by (metis db_inv_def linorder_not_less option.distinct(1))
  have none: "dh_stmts st ?n = None" using i by (simp add: db_inv_def)
  have fin: "finite (attached st a)" using i by (simp add: db_inv_def finite_attached)
  have att: "attached ?st c = (if c = a then insert ?n (attached st a) else attached st c)" "?n \<notin> attached st c" for c
    using none by (auto simp: attached_def DbHandle_AddRef_live[OF d'])
  have refs: "db_refs ?st ?own c = (if c = a then db_refs st own a + 1 else db_refs st own c)" for c
    using fin by (simp only: db_refs_def att card_insert_disjoint) (simp add: att)
  have "handle_inv ?st ?own"
    by (rule db_inv_addref_handle[OF i r]) (simp_all only: refs, simp_all add: DbHandle_AddRef_live[OF d'] DbHandle_AddRef_live[OF d])
  moreover have "stmt_inv ?st ?own"
    by (rule stmt_inv_change[where st = st and own = own and b = ?n]) (use i in \<open>auto simp: db_inv_def DbHandle_AddRef_live[OF d']\<close>)
  ultimately show ?thesis using i lt by (auto simp: db_inv_def DbHandle_AddRef_live[OF d'])
qed

lemma db_inv_live:
  assumes "db_inv st own" "0 < own (DbAt a)"
  obtains d where "dh_dbs st a = Some d"
  using assms db_inv_handle[OF assms(1), of a] by (auto simp: db_refs_def)

lemma db_step_inv:
  assumes "db_step sq behind cs cd so so'" "db_registered (fst so) behind" "db_inv (om_objs (fst so)) (snd so)"
  shows "db_registered (fst so') behind \<and> db_inv (om_objs (fst so')) (snd so')"
  using assms
proof (induction rule: db_step.induct)
  case (new_database st ob st' own)
  let ?n = "dh_next (om_objs st)"
  have "ob = DbAt ?n" "st' = st\<lparr>om_objs := put_db ?n (Some \<lparr>db_refCount = 1, db_dbMode = 0, db_dbConn = None\<rparr>) ((om_objs st)\<lparr>dh_next := Suc ?n\<rparr>)\<rparr>"
    using new_database create_database_instance[of st behind sq cs cd] by (auto simp: Let_def split: if_splits)
  then show ?case using new_database db_inv_new_database[of "om_objs st" own] by (simp add: fun_upd_def)
next
  case (new_statement own a sql st ob st')
  then have i: "db_inv (om_objs st) own" by simp
  obtain d where d: "dh_dbs (om_objs st) a = Some d" by (rule db_inv_live[OF i new_statement(1)])
  obtain rc p l where p: "sq_prepare_v2 sq (db_dbConn d) sql (dh_lib (om_objs st)) = (rc, p, l)" by (metis prod_cases3)
  let ?n = "dh_next (om_objs st)"
  have "\<not> dh_fault (om_objs st)" using i by (simp add: db_inv_def)
  then have "ob = StmtAt ?n" "st' = st\<lparr>om_objs := put_stmt ?n (Some \<lparr>st_refCount = 1, st_dbConn = Some a, st_stmtPtr = p\<rparr>)
      (put_lib l (DbHandle_AddRef a ((om_objs st)\<lparr>dh_next := Suc ?n\<rparr>)))\<rparr>"
    using new_statement create_statement_instance[OF _ d _ p, of behind cs cd] by (auto simp: Let_def split: if_splits)
  then show ?case using new_statement db_inv_new_statement[OF i new_statement(1)] by (simp add: fun_upd_def)
next
  case (add_ref own ob st)
  then show ?case using db_inv_add_ref[of "om_objs st" own ob] by (simp add: fun_upd_def)
next
  case (release own ob st)
  then show ?case
    using db_inv_release_handle[of "om_objs st" own] db_inv_release_stmt[of "om_objs st" own] by (cases ob) (auto simp: db_Release_def fun_upd_def)
next
  case (open_database own a path mode st ec o1)
  then show ?case using same_objects_inv[OF DbHandle_Open_same] by fastforce
next
  case (create_database own a schema path mode st ec o1)
  then have i: "db_inv (om_objs st) own" by simp
  obtain d where "dh_dbs (om_objs st) a = Some d" by (rule db_inv_live[OF i create_database(1)])
  then show ?case using create_database same_objects_inv[OF DbHandle_Create_same] by fastforce
next
  case (close_database own a st ec o1)
  then have i: "db_inv (om_objs st) own" by simp
  obtain d where "dh_dbs (om_objs st) a = Some d" by (rule db_inv_live[OF i close_database(1)])
  then show ?case using close_database same_objects_inv[OF DbHandle_Close_same, of "om_objs st" a d own sq] by simp
next
  case (execute own a s junk f x st ec x' o1)
  then show ?case using same_objects_inv[OF DbHandle_Execute_same] by fastforce
next
  case (bind own s st stmt i v)
  then show ?case using same_objects_inv[OF same_objects_simps(2)] by simp
qed

lemma db_steps_inv:
  assumes "(db_step sq behind cs cd)\<^sup>*\<^sup>* so so'" "db_registered (fst so) behind" "db_inv (om_objs (fst so)) (snd so)"
  shows "db_registered (fst so') behind \<and> db_inv (om_objs (fst so')) (snd so')"
  using assms by (induction rule: rtranclp_induct) (auto dest: db_step_inv)

subsection \<open>Properties\<close>

text \<open>A library with one table of two rows of one integer column; its state is the cursor and the values bound last.  A statement
  compiles unless it is empty.\<close>

definition sample_sq :: "(nat \<times> sql_bind list) sqlite3_api" where
  "sample_sq = \<lparr>sq_open_v2 = (\<lambda>p m l. (0, Some 1, l)), sq_close = (\<lambda>c l. (0, l)), sq_exec = (\<lambda>c q l. (0, l)),
     sq_prepare_v2 = (\<lambda>c q l. if q = [] then (1, None, l) else (0, Some 2, l)), sq_finalize = (\<lambda>p l. l),
     sq_step = (\<lambda>p l. if fst l < 2 then (100, (fst l + 1, snd l)) else (101, l)), sq_reset = (\<lambda>p l. (0, snd l)),
     sq_bind_parameter_count = (\<lambda>p l. 1), sq_bind = (\<lambda>p i b l. (fst l, b # snd l)), sq_column_count = (\<lambda>p l. 1),
     sq_column_type = (\<lambda>p i l. 1), sq_column_int64 = (\<lambda>p i l. of_nat (fst l)), sq_column_double = (\<lambda>p i l. 0),
     sq_column_data = (\<lambda>p i l. 0), sq_column_bytes = (\<lambda>p i l. 0)\<rparr>"

definition sample_db_slot :: "NkUuid \<Rightarrow> db_obj ext_pair" where
  "sample_db_slot u = \<lparr>m_regPair = \<lparr>m_keyVal = mp_uuidKey 4096 u, mp_valuePtr = Some HdFactory\<rparr>, m_isUsed = True, m_offset = 0\<rparr>"

definition sample_db_registry :: "db_obj NkHashtable" where
  "sample_db_registry = \<lparr>ht_elemCount = 2, ht_currCap = 16, ht_htProps = om_props, ht_elemArray =
     sample_db_slot CLSID_NkISqlStatement # sample_db_slot CLSID_NkIDatabase # replicate 14 zero_slot\<rparr>"

definition sample_db_om :: "(nat \<times> sql_bind list) db_om" where
  "sample_db_om = \<lparr>om_isInitialized = True, om_isDebugEnabled = False, om_classReg = Some sample_db_registry,
     om_htctx = \<lparr>m_hashSeed = 1, ptr_bytes = (\<lambda>_. replicate 8 0)\<rparr>, om_rnd = \<lparr>s0 = 1, s1 = 2, s2 = 3, s3 = 4\<rparr>,
     om_objs = \<lparr>dh_stmts = Map.empty, dh_dbs = [3 \<mapsto> \<lparr>db_refCount = 1, db_dbMode = 2, db_dbConn = Some 1\<rparr>], dh_next = 10,
       dh_pool = NkErr_Ok, dh_fault = False, dh_lib = (0, [])\<rparr>\<rparr>"

lemma sample_db_registered: "db_registered sample_db_om (replicate 8 0)"
  unfolding db_registered_def
  by (rule exI[of _ sample_db_registry])
    (auto simp: reg_ok_def sample_db_om_def sample_db_registry_def sample_db_slot_def om_props_def ht_wf_def ht_pairs_def
      cx_ok_def ht_limits_def ht_map_def pair_kv_def CLSID_NkISqlStatement_def CLSID_NkIDatabase_def)

definition sample_own :: "db_obj \<Rightarrow> nat" where
  "sample_own ob = (if ob = DbAt 3 then 1 else 0)"

lemma sample_db_inv: "db_inv (om_objs sample_db_om) sample_own"
  by (auto simp: db_inv_def sample_db_om_def sample_own_def stmt_inv_def handle_inv_def db_refs_def attached_def)

lemma sample_create:
  "DbHandle_CreateStatement sample_sq (replicate 8 0) 4096 8192 3 ''x'' sample_db_om = Done (NkErr_Ok, Some (StmtAt 10),
     sample_db_om\<lparr>om_objs := (om_objs sample_db_om)\<lparr>dh_stmts := [10 \<mapsto> \<lparr>st_refCount = 1, st_dbConn = Some 3, st_stmtPtr = Some 2\<rparr>],
       dh_dbs := [3 \<mapsto> \<lparr>db_refCount = 2, db_dbMode = 2, db_dbConn = Some 1\<rparr>], dh_next := 11\<rparr>\<rparr>)"
proof -
  have "dh_dbs (om_objs sample_db_om) 3 = Some \<lparr>db_refCount = 1, db_dbMode = 2, db_dbConn = Some 1\<rparr>" "\<not> dh_fault (om_objs sample_db_om)"
    "sq_prepare_v2 sample_sq (Some 1) ''x'' (dh_lib (om_objs sample_db_om)) = (0, Some 2, (0, []))"
    by (simp_all add: sample_db_om_def sample_sq_def)
  from create_statement_instance[OF sample_db_registered this(1,2), of sample_sq "''x''" 0 "Some 2" "(0, [])" 4096 8192] this(3)
  show ?thesis by (simp add: sample_db_om_def DbHandle_AddRef_def put_db_def put_stmt_def put_lib_def)
qed

text \<open>C13: Lifetimes of databases and statements.  Whatever a client does with handles and statements it holds references on, in
  any order, no method touches a freed object: a handle is alive exactly as long as the client or one of its statements
  holds a reference on it, its count is the number of these references, and a statement, alive as long as the
  client holds it, always finds its handle alive.\<close>

theorem db_handles_outlive_statements:
  assumes "db_registered st0 behind" "db_inv (om_objs st0) own0" "(db_step sq behind cs cd)\<^sup>*\<^sup>* (st0, own0) (st, own)"
  shows "\<not> dh_fault (om_objs st)
    \<and> (\<forall>s. case dh_stmts (om_objs st) s of
          None \<Rightarrow> own (StmtAt s) = 0
        | Some x \<Rightarrow> st_refCount x = int (own (StmtAt s)) \<and> (\<exists>d y. st_dbConn x = Some d \<and> dh_dbs (om_objs st) d = Some y))
    \<and> (\<forall>d. case dh_dbs (om_objs st) d of
          None \<Rightarrow> own (DbAt d) = 0 \<and> attached (om_objs st) d = {}
        | Some y \<Rightarrow> db_refCount y = int (own (DbAt d) + card (attached (om_objs st) d)) \<and> 0 < db_refCount y)"
proof -
  have i: "db_inv (om_objs st) own" using db_steps_inv[OF assms(3)] assms(1,2) by simp
  have fin: "finite (attached (om_objs st) d)" for d using i by (simp add: db_inv_def finite_attached)
  have hd: "handle_ok (dh_dbs (om_objs st) d) (own (DbAt d) + card (attached (om_objs st) d))" for d
    using i by (simp add: db_inv_def handle_inv_def db_refs_def)
  have sm: "stmt_ok (dh_stmts (om_objs st) s) (own (StmtAt s))" for s using i by (simp add: db_inv_def stmt_inv_def)
  have "case dh_stmts (om_objs st) s of None \<Rightarrow> own (StmtAt s) = 0
    | Some x \<Rightarrow> st_refCount x = int (own (StmtAt s)) \<and> (\<exists>d y. st_dbConn x = Some d \<and> dh_dbs (om_objs st) d = Some y)" for s
  proof (cases "dh_stmts (om_objs st) s")
    case (Some x)
    then have "0 < own (StmtAt s)" using sm[of s] by simp
    then obtain b where "st_dbConn x = Some b" "0 < db_refs (om_objs st) own b" by (rule db_inv_stmt[OF i]) (use Some in auto)
    moreover from this(2) obtain y where "dh_dbs (om_objs st) b = Some y" by (rule db_inv_handle[OF i])
    ultimately show ?thesis using sm[of s] Some by simp
  qed (use sm[of s] in simp)
  moreover have "case dh_dbs (om_objs st) d of None \<Rightarrow> own (DbAt d) = 0 \<and> attached (om_objs st) d = {}
    | Some y \<Rightarrow> db_refCount y = int (own (DbAt d) + card (attached (om_objs st) d)) \<and> 0 < db_refCount y" for d
    using hd[of d] fin[of d] by (cases "dh_dbs (om_objs st) d") auto
  ultimately show ?thesis using i by (simp add: db_inv_def)
qed

theorem db_handles_outlive_statements_witness:
  "\<exists>st own x y. (db_step sample_sq (replicate 8 0) 4096 8192)\<^sup>*\<^sup>* (sample_db_om, sample_own) (st, own)
    \<and> dh_stmts (om_objs st) 10 = Some x \<and> st_dbConn x = Some 3 \<and> own (DbAt 3) = 0 \<and> dh_dbs (om_objs st) 3 = Some y \<and> db_refCount y = 1"
proof -
  let ?st = "sample_db_om\<lparr>om_objs := (om_objs sample_db_om)\<lparr>dh_stmts := [10 \<mapsto> \<lparr>st_refCount = 1, st_dbConn = Some 3, st_stmtPtr = Some 2\<rparr>],
       dh_dbs := [3 \<mapsto> \<lparr>db_refCount = 2, db_dbMode = 2, db_dbConn = Some 1\<rparr>], dh_next := 11\<rparr>\<rparr>"
  let ?st2 = "?st\<lparr>om_objs := db_Release sample_sq (DbAt 3) (om_objs ?st)\<rparr>" and ?own = "sample_own(StmtAt 10 := 1)"
  have one: "db_step sample_sq (replicate 8 0) 4096 8192 (sample_db_om, sample_own) (?st, ?own)"
    by (rule db_step.new_statement[OF _ sample_create]) (simp add: sample_own_def)
  have two: "db_step sample_sq (replicate 8 0) 4096 8192 (?st, ?own) (?st2, ?own(DbAt 3 := ?own (DbAt 3) - 1))"
    by (rule db_step.release) (simp_all add: sample_own_def)
  have steps: "(db_step sample_sq (replicate 8 0) 4096 8192)\<^sup>*\<^sup>* (sample_db_om, sample_own) (?st2, ?own(DbAt 3 := ?own (DbAt 3) - 1))"
    using one two by (meson converse_rtranclp_into_rtranclp r_into_rtranclp)
  have att: "attached (om_objs ?st2) 3 = {10}" by (auto simp: attached_def sample_db_om_def db_Release_def DbHandle_Release_def put_db_def)
  have live: "dh_dbs (om_objs ?st2) 3 \<noteq> None" "dh_stmts (om_objs ?st2) 10 = Some \<lparr>st_refCount = 1, st_dbConn = Some 3, st_stmtPtr = Some 2\<rparr>"
    by (simp_all add: sample_db_om_def db_Release_def DbHandle_Release_def put_db_def)
  then obtain y where "dh_dbs (om_objs ?st2) 3 = Some y" by blast
  moreover from this have "db_refCount y = 1"
    using db_handles_outlive_statements[OF sample_db_registered sample_db_inv steps] att by (auto simp: sample_own_def dest: spec[of _ 3])
  moreover have "(?own(DbAt 3 := ?own (DbAt 3) - 1)) (DbAt 3) = 0" by (simp add: sample_own_def)
  ultimately show ?thesis using steps live(2) by (intro exI conjI) (assumption | simp)+
qed

text \<open>C30: Creating a statement.  SQL that the library compiles gives a statement with one reference which holds a reference on
  its handle.  SQL that does not compile is not reported: the object model releases the half-made object, and its
  \<open>Release\<close> calls through the handle pointer that \<open>Initialize\<close> has not set yet.\<close>

theorem db_create_statement:
  assumes "db_registered st behind" "dh_dbs (om_objs st) a = Some d" "\<not> dh_fault (om_objs st)" "dh_pool (om_objs st) = NkErr_Ok"
    "sq_prepare_v2 sq (db_dbConn d) sql (dh_lib (om_objs st)) = (rc, p, l)"
  shows "if rc = SQLITE_OK
    then \<exists>st'. DbHandle_CreateStatement sq behind cs cd a sql st = Done (NkErr_Ok, Some (StmtAt (dh_next (om_objs st))), st')
      \<and> dh_stmts (om_objs st') (dh_next (om_objs st)) = Some \<lparr>st_refCount = 1, st_dbConn = Some a, st_stmtPtr = p\<rparr>
      \<and> dh_dbs (om_objs st') = (dh_dbs (om_objs st))(a \<mapsto> d\<lparr>db_refCount := db_refCount d + 1\<rparr>)
    else DbHandle_CreateStatement sq behind cs cd a sql st = Undef"
  using assms create_statement_instance[OF assms(1,2,3,5), of cs cd] by (auto simp: DbHandle_AddRef_def Let_def)

theorem db_create_statement_witness:
  "(\<exists>st'. DbHandle_CreateStatement sample_sq (replicate 8 0) 4096 8192 3 ''x'' sample_db_om = Done (NkErr_Ok, Some (StmtAt 10), st'))
   \<and> DbHandle_CreateStatement sample_sq (replicate 8 0) 4096 8192 3 [] sample_db_om = Undef"
proof -
  have s: "dh_dbs (om_objs sample_db_om) 3 = Some \<lparr>db_refCount = 1, db_dbMode = 2, db_dbConn = Some 1\<rparr>" "\<not> dh_fault (om_objs sample_db_om)"
    "dh_pool (om_objs sample_db_om) = NkErr_Ok" "dh_next (om_objs sample_db_om) = 10"
    by (simp_all add: sample_db_om_def)
  have p: "sq_prepare_v2 sample_sq c ''x'' l = (0, Some 2, l)" "sq_prepare_v2 sample_sq c [] l = (1, None, l)" for c l
    by (simp_all add: sample_sq_def)
  show ?thesis
    using db_create_statement[OF sample_db_registered s(1-3) p(1), of 4096 8192]
      db_create_statement[OF sample_db_registered s(1-3) p(2), of 4096 8192] s(4) by auto
qed

text \<open>C19: Running a statement.  For a statement that delivers finitely many rows the call ends.  The callback sees the rows
  in order, each column as a value of the type the library reports for it, until it asks to stop: without an error
  (\<open>NkErr_ManuallyAborted\<close>) or with one, which is the result.  In every case the statement is reset afterwards.  An error of
  the library in the middle of the rows is taken for their end.\<close>

theorem db_execute_visits_rows:
  assumes "dh_dbs st a = Some d" "db_dbConn d \<noteq> None" "dh_stmts st s = Some stmt" "dh_pool st = NkErr_Ok" "length (var_val junk) = 16"
    "delivers sq (st_stmtPtr stmt) (dh_lib st) rs lend" "\<forall>r\<in>set rs. sq_column_count sq (st_stmtPtr stmt) r = n" "0 < n"
  shows "DbHandle_Execute sq junk a s (Some (\<lambda>n vs. g (map NkVariantGet vs))) x st
    = (let (ec, x', l) = visit_rows g (map (\<lambda>r. (row_values sq (st_stmtPtr stmt) r, r)) rs) lend x
       in Done (ec, x', put_lib (sq_reset sq (st_stmtPtr stmt) l) st))"
  using assms exec_loop_visits[OF assms(6-8) assms(5), of None g x] by (auto simp: DbHandle_Execute_def split: prod.splits)

theorem db_execute_visits_rows_witness:
  "DbHandle_Execute sample_sq \<lparr>var_type = NkVarTy_None, var_val = replicate 16 0\<rparr> 3 10 (Some (\<lambda>n vs. (\<lambda>row x. (NkErr_Ok, x @ [row])) (map NkVariantGet vs))) []
      ((om_objs sample_db_om)\<lparr>dh_stmts := [10 \<mapsto> \<lparr>st_refCount = 1, st_dbConn = Some 3, st_stmtPtr = Some 2\<rparr>]\<rparr>)
    = Done (NkErr_Ok, [[(NkVarTy_Int64, le_bytes 1)], [(NkVarTy_Int64, le_bytes 2)]],
        (om_objs sample_db_om)\<lparr>dh_stmts := [10 \<mapsto> \<lparr>st_refCount = 1, st_dbConn = Some 3, st_stmtPtr = Some 2\<rparr>]\<rparr>)"
  (is "DbHandle_Execute _ ?j _ _ _ _ ?st = _")
proof -
  have "dh_dbs ?st 3 = Some \<lparr>db_refCount = 1, db_dbMode = 2, db_dbConn = Some 1\<rparr>" "dh_pool ?st = NkErr_Ok" "dh_lib ?st = (0, [])"
    by (simp_all add: sample_db_om_def)
  then show ?thesis
    using db_execute_visits_rows[of ?st 3 _ 10 _ ?j sample_sq "[(1, []), (2, [])]" "(2, [])" 1 "\<lambda>row x. (NkErr_Ok, x @ [row])" "[]"]
    by (simp add: sample_sq_def row_values_def column_value_def put_lib_def)
qed

lemma sint_of_nat_small: "n < 2 ^ 31 \<Longrightarrow> sint (of_nat n :: 32 word) = int n"
  by (simp add: signed_of_nat signed_take_bit_int_eq_self)

lemma sint_of_large:
  fixes i :: "32 word"
  assumes "2 ^ 31 \<le> unat i"
  shows "sint i = int (unat i) - 2 ^ 32"
proof -
  have "uint i < 2 ^ 32" using unsigned_less[of i, where 'a = int] by simp
  moreover have "2 ^ 31 \<le> uint i" using of_nat_mono[OF assms, where 'a = int] by simp
  ultimately have b: "2 ^ 31 \<le> int (unat i)" "int (unat i) < 2 ^ 32" by simp_all
  have "sint i = signed_take_bit 31 (int (unat i))" by (simp add: sint_uint)
  also have "\<dots> = signed_take_bit 31 (int (unat i) - 2 ^ 32)"
    by (rule signed_take_bit_eq_iff_take_bit_eq[THEN iffD2]) (simp add: take_bit_eq_mod mod_diff_eq)
  also have "\<dots> = int (unat i) - 2 ^ 32" using b by (intro signed_take_bit_int_eq_self) simp_all
  finally show ?thesis .
qed

text \<open>Parameter indices.  Parameters are numbered from one, but an index counts as valid when it is smaller than the number of
  parameters: the last parameter of a statement, and so the only one of a statement with one parameter, can be neither bound nor
  unbound.  Indices from \<open>2\<^sup>3\<^sup>1\<close> on turn negative in the comparison and are handed to the library.\<close>

theorem db_last_parameter_is_never_bound:
  assumes "sq_bind_parameter_count sq p l = int n" "n < 2 ^ 31"
  shows "Stmt_Bind sq p (of_nat n) v l = l \<and> Stmt_Unbind sq p (of_nat n) l = l
    \<and> (\<forall>i. 2 ^ 31 \<le> unat (i :: 32 word) \<longrightarrow> Stmt_Unbind sq p i l = sq_bind sq p (int (unat i) - 2 ^ 32) BindNull l)"
proof -
  have last: "\<not> Stmt_IsValidParamIndex sq p (of_nat n) l"
    using assms by (simp add: Stmt_IsValidParamIndex_def sint_of_nat_small)
  have "Stmt_Unbind sq p i l = sq_bind sq p (int (unat i) - 2 ^ 32) BindNull l" if "2 ^ 31 \<le> unat i" for i :: "32 word"
  proof -
    have "uint i < 2 ^ 32" using unsigned_less[of i, where 'a = int] by simp
    then show ?thesis using assms(1) sint_of_large[OF that] by (simp add: Stmt_Unbind_def Stmt_IsValidParamIndex_def)
  qed
  then show ?thesis using last by (simp add: Stmt_Bind_def Stmt_Unbind_def)
qed

theorem db_last_parameter_is_never_bound_witness:
  "Stmt_Bind sample_sq (Some 2) 1 \<lparr>var_type = NkVarTy_Int64, var_val = replicate 16 1\<rparr> (0, []) = (0, [])
    \<and> Stmt_Unbind sample_sq (Some 2) 0x80000000 (0, []) = (0, [BindNull])"
  using db_last_parameter_is_never_bound[of sample_sq "Some 2" "(0, [])" 1 "\<lparr>var_type = NkVarTy_Int64, var_val = replicate 16 1\<rparr>"]
  by (auto simp: sample_sq_def dest: spec[of _ "0x80000000"])

lemma le_word_step: "push_bit 8 (drop_bit 8 x) OR ucast (ucast x :: byte) = (x :: 64 word)"
  by (rule bit_word_eqI) (auto simp: bit_simps)

lemma le_word_le_bytes [simp]: "le_word (le_bytes w) = w"
proof -
  have "i \<le> 8 \<Longrightarrow> le_word (map (\<lambda>i. ucast (drop_bit (8 * i) w)) [i..<8]) = drop_bit (8 * i) w" for i
  proof (induction i rule: inc_induct)
    case base
    have "drop_bit 64 w = 0" by (rule bit_word_eqI) (simp add: bit_simps)
    then show ?case by (simp add: le_word_def)
  next
    case (step i)
    have "drop_bit (8 * Suc i) w = drop_bit 8 (drop_bit (8 * i) w)" by (simp add: add.commute)
    with step show ?case using le_word_step[of "drop_bit (8 * i) w"] by (simp add: le_word_def upt_conv_Cons)
  qed
  from this[of 0] show ?thesis by (simp add: le_bytes_def)
qed

text \<open>Values of columns as parameters.  A value that has been read from a column, of whatever type, is bound again as exactly
  this value: an integer or a double as the same bits, a text or a blob at the same address with the same size, and NULL as NULL.\<close>

theorem db_column_value_rebinds:
  assumes "length (var_val v) = 16" "Stmt_IsValidParamIndex sq q j l'"
  shows "Stmt_Bind sq q j (set_column sq p l i v) l' = sq_bind sq q (sint j)
    (if sq_column_type sq p i l = 1 then BindInt64 (sq_column_int64 sq p i l)
     else if sq_column_type sq p i l = 2 then BindDouble (sq_column_double sq p i l)
     else if sq_column_type sq p i l = 3 then BindText (sq_column_data sq p i l) (scast (sq_column_bytes sq p i l))
     else if sq_column_type sq p i l = 4 then BindBlobAt (sq_column_data sq p i l) (scast (sq_column_bytes sq p i l))
     else BindNull) l'"
  using assms set_column_value[OF assms(1), of sq p l i]
  by (auto simp: Stmt_Bind_def column_value_def Stmt_Unbind_def)

theorem db_column_value_rebinds_witness:
  "Stmt_Bind sample_sq (Some 2) 0 (set_column sample_sq (Some 2) (7, []) 0 \<lparr>var_type = NkVarTy_None, var_val = replicate 16 9\<rparr>) (0, [])
    = (0, [BindInt64 7])"
  using db_column_value_rebinds[of "\<lparr>var_type = NkVarTy_None, var_val = replicate 16 9\<rparr>" sample_sq "Some 2" 0 "(0, [])" "Some 2" "(7, [])" 0]
  by (simp add: sample_sq_def Stmt_IsValidParamIndex_def)

text \<open>The outcome of opening: an error leaves the handle closed, success in the mode asked for.\<close>

definition open_outcome :: "nat \<Rightarrow> int \<Rightarrow> nat \<Rightarrow> (NkErrorCode \<times> 'd db_objs) outcome \<Rightarrow> bool" where
  "open_outcome a r mode res \<longleftrightarrow> (\<exists>ec st' d'. res = Done (ec, st') \<and> dh_dbs st' a = Some d' \<and> db_refCount d' = r
     \<and> (if ec = NkErr_Ok then db_dbMode d' = mode else db_dbConn d' = None))"

definition closed_handle :: "nat \<Rightarrow> int \<Rightarrow> 'd db_objs \<Rightarrow> bool" where
  "closed_handle a r st \<longleftrightarrow> (\<exists>d. dh_dbs st a = Some d \<and> db_dbConn d = None \<and> db_refCount d = r)"

lemma open_outcome_error: "ec \<noteq> NkErr_Ok \<Longrightarrow> closed_handle a r st \<Longrightarrow> open_outcome a r mode (Done (ec, st))"
  by (auto simp: open_outcome_def closed_handle_def)

lemma DbHandle_Open_outcome:
  assumes "closed_handle a r st" "NkDbMode_Unknown < mode" "mode < NkDbMode_Count"
  shows "open_outcome a r mode (DbHandle_Open sq a path mode st)"
  using assms
  by (auto simp: closed_handle_def open_outcome_def DbHandle_Open_def DbHandle_SetPragmas_def Let_def nk_assert_def split: prod.splits)

lemma DbHandle_Close_closes:
  assumes "\<forall>c l. fst (sq_close sq c l) = SQLITE_OK" "dh_dbs st a = Some d"
  shows "closed_handle a (db_refCount d) (snd (DbHandle_Close sq a st))"
  using assms spec[OF assms(1), of "db_dbConn d"]
  by (auto simp: closed_handle_def DbHandle_Close_def Let_def split: prod.splits) (metis fst_conv less_irrefl)

lemma DbHandle_Create_outcome:
  assumes cl: "\<forall>c l. fst (sq_close sq c l) = SQLITE_OK" and st: "closed_handle a r st" and m: "NkDbMode_Unknown < mode" "mode < NkDbMode_Count"
  shows "open_outcome a r mode (DbHandle_Create sq a schema path mode st)"
proof -
  obtain ec1 s1 d1 where o1: "DbHandle_Open sq a path (NkDbMode_ReadWrite OR NkDbMode_Create) st = Done (ec1, s1)" "dh_dbs s1 a = Some d1"
    "db_refCount d1 = r" "ec1 \<noteq> NkErr_Ok \<longrightarrow> db_dbConn d1 = None"
    using DbHandle_Open_outcome[OF st, of 6 sq path] by (auto simp: open_outcome_def split: if_splits)
  have c: "closed_handle a r (snd (DbHandle_Close sq a (put_lib l s1)))" for l
    using DbHandle_Close_closes[OF cl, of "put_lib l s1" a d1] o1 by simp
  have "ec1 \<noteq> NkErr_Ok \<Longrightarrow> closed_handle a r s1" using o1 by (simp add: closed_handle_def)
  then show ?thesis
    using o1(1) m DbHandle_Open_outcome[OF c m] open_outcome_error[OF _ c] open_outcome_error
    by (cases "ec1 = NkErr_Ok") (auto simp: DbHandle_Create_def Let_def nk_assert_def split: prod.splits)
qed



end
