(* ===== verification/NkAsset.thy ===== *)
theory NkAsset
  imports NkDb
begin

section \<open>The asset manager (src/Noriko/asset.c)\<close>

text \<open>
  The manager keeps a cache from asset identifiers to asset objects and a connection to the asset database, both on top of the
  hash table and of the database handles.  Assets themselves are objects of other classes: their \<open>AddRef\<close> is an argument that
  works on a state of a type of its own.  Whether the application runs without the editor, and whether the file system finds the
  database file, are arguments.  Of the log messages only the list of pending assets is kept; the lock is left out.
\<close>

record ('a, 'd, 's) asset_state =
  am_assetCache :: "'a NkHashtable option"
  am_dbConn :: "nat option"
  am_queryAssetStmt :: "nat option"
  am_htctx :: "'a ht_context"
  am_rnd :: RandContext
  am_om :: "'d db_om"
  am_assets :: 's

definition IID_NkIAssetManager :: NkUuid where
  "IID_NkIAssetManager = [0x60, 0xb3, 0x1d, 0x5d, 0x98, 0x8d, 0xaa, 0x4e, 0x05, 0x7a, 0xa3, 0xb2, 0x6c, 0x25, 0x67, 0xb8]"

definition AssetManager_QueryInterface :: "NkUuid \<Rightarrow> NkErrorCode \<times> bool" where
  "AssetManager_QueryInterface iId =
     (if NkOMQueryImplementationIndex [IID_NkIBase, IID_NkIInitializable, IID_NkIAssetManager] iId \<noteq> SIZE_MAX
      then (NkErr_Ok, True) else (NkErr_InterfaceNotImpl, False))"

definition asset_cache_props :: NkHashtableProperties where
  "asset_cache_props = \<lparr>ht_structSize = 32, ht_initCap = 64, ht_minCap = 16, ht_maxCap = UINT32_MAX - 2,
     ht_keyType = NkHtKeyTy_Uuid, ht_fnElemFree = False\<rparr>"

definition AssetManager_Initialize ::
    "NkErrorCode \<Rightarrow> heap_answer \<Rightarrow> ('a, 'd, 's) asset_state \<Rightarrow> (NkErrorCode \<times> ('a, 'd, 's) asset_state) outcome" where
  "AssetManager_Initialize poolRes heap st =
     obind (NkHashtableCreate (am_htctx st) (am_rnd st) poolRes heap asset_cache_props) (\<lambda>(errCode, ht, cx, rnd).
       Done (errCode, st\<lparr>am_assetCache := ht, am_htctx := cx, am_rnd := rnd\<rparr>))"

subsection \<open>The database\<close>

abbreviation (input) nl :: string where "nl \<equiv> [CHR 0x0A]"

definition gl_c_CurrDbSchema :: string where
  "gl_c_CurrDbSchema =
     ''PRAGMA foreign_keys = OFF;'' @ nl @
     ''PRAGMA user_version = 1;'' @ nl @
     ''/* * table assets * defines the assets that are part of the game */'' @
     ''CREATE TABLE assets('' @ nl @
     ''uuid BLOB,                  -- unique identifier, saved as a literal 16-byte integer'' @ nl @
     ''type INT          NOT NULL, -- type (integral)'' @ nl @
     ''name VARCHAR(128) NOT NULL, -- name, up to 128 characters'' @ nl @
     ''path TEXT         NOT NULL, -- path string, using '/' as separator'' @ nl @
     ''docs TEXT,                  -- (optional) documentation string'' @ nl @
     ''PRIMARY KEY (uuid)'' @ '');'' @
     ''/* * table dependencies * defines the dependency graph */'' @
     ''CREATE TABLE dependencies('' @ nl @
     ''depender BLOB NOT NULL, -- UUID of the asset that depends on 'dependee'' @ [CHR 0x27] @ nl @
     ''dependee BLOB NOT NULL, -- UUID of the asset that is being depended on'' @ nl @
     ''FOREIGN KEY (depender) REFERENCES assets(uuid),'' @ nl @
     ''FOREIGN KEY (dependee) REFERENCES assets(uuid),'' @ nl @
     ''UNIQUE      (depender, dependee),'' @ nl @
     ''CHECK       (depender != dependee)'' @ nl @
     '');'' @ nl @
     ''PRAGMA foreign_keys = ON;''"

text \<open>A new database handle from the object model.\<close>

definition new_db_handle ::
    "'d sqlite3_api \<Rightarrow> byte list \<Rightarrow> 64 word \<Rightarrow> 64 word \<Rightarrow> 'd db_om \<Rightarrow> (NkErrorCode \<times> nat option \<times> 'd db_om) outcome" where
  "new_db_handle sq behind cs cd om =
     obind (NkOMCreateInstance behind (db_vt sq cs cd) (cd, CLSID_NkIDatabase) None IID_NkIDatabase None om) (\<lambda>(errCode, r, om').
       case r of None \<Rightarrow> if errCode = NkErr_Ok then Undef else Done (errCode, None, om')
       | Some (DbAt a) \<Rightarrow> Done (errCode, Some a, om') | Some _ \<Rightarrow> Undef)"

definition release_db :: "'d sqlite3_api \<Rightarrow> nat \<Rightarrow> 'd db_objs \<Rightarrow> 'd db_objs outcome" where
  "release_db sq a o1 = (let o2 = DbHandle_Release sq a o1 in no_fault o2 (Done o2))"

definition AssetManager_CreateDatabase ::
    "'d sqlite3_api \<Rightarrow> byte list \<Rightarrow> 64 word \<Rightarrow> 64 word \<Rightarrow> string \<Rightarrow> ('a, 'd, 's) asset_state \<Rightarrow> (NkErrorCode \<times> ('a, 'd, 's) asset_state) outcome" where
  "AssetManager_CreateDatabase sq behind cs cd dbPath st =
     obind (new_db_handle sq behind cs cd (am_om st)) (\<lambda>(errCode, dbHandle, om1).
       case dbHandle of
         None \<Rightarrow> Done (errCode, st\<lparr>am_om := om1\<rparr>)
       | Some a \<Rightarrow>
           obind (DbHandle_Create sq a (Some gl_c_CurrDbSchema) dbPath NkDbMode_ReadWrite (om_objs om1)) (\<lambda>(errCode, o2).
           obind (release_db sq a o2) (\<lambda>o3. Done (errCode, st\<lparr>am_om := om1\<lparr>om_objs := o3\<rparr>\<rparr>))))"

definition gl_c_QueryAssetSql :: string where
  "gl_c_QueryAssetSql = ''SELECT * FROM assets WHERE uuid = ?''"

definition AssetManager_OpenDatabase ::
    "'d sqlite3_api \<Rightarrow> byte list \<Rightarrow> 64 word \<Rightarrow> 64 word \<Rightarrow> bool \<Rightarrow> string \<Rightarrow> ('a, 'd, 's) asset_state
     \<Rightarrow> (NkErrorCode \<times> ('a, 'd, 's) asset_state) outcome" where
  "AssetManager_OpenDatabase sq behind cs cd isStandalone dbPath st =
     nk_assert (dbPath \<noteq> []) NkErr_InParameter
    (obind (new_db_handle sq behind cs cd (am_om st)) (\<lambda>(errCode, dbConn, om1).
       case dbConn of
         None \<Rightarrow> Done (errCode, st\<lparr>am_dbConn := None, am_om := om1\<rparr>)
       | Some a \<Rightarrow>
           let failed = (\<lambda>errCode om. obind (release_db sq a (om_objs om)) (\<lambda>o3.
                  Done (errCode, st\<lparr>am_dbConn := None, am_om := om\<lparr>om_objs := o3\<rparr>\<rparr>))) in
           obind (DbHandle_Open sq a dbPath (if isStandalone then NkDbMode_ReadOnly else NkDbMode_ReadWrite) (om_objs om1)) (\<lambda>(errCode, o2).
             if errCode \<noteq> NkErr_Ok then failed errCode (om1\<lparr>om_objs := o2\<rparr>)
             else obind (DbHandle_CreateStatement sq behind cs cd a gl_c_QueryAssetSql (om1\<lparr>om_objs := o2\<rparr>)) (\<lambda>(errCode, stmt, om3).
               if errCode \<noteq> NkErr_Ok then failed errCode om3
               else case stmt of
                      Some (StmtAt s) \<Rightarrow> Done (NkErr_Ok, st\<lparr>am_dbConn := Some a, am_queryAssetStmt := Some s, am_om := om3\<rparr>)
                    | _ \<Rightarrow> Undef))))"

definition AssetManager_CloseDatabase ::
    "'d sqlite3_api \<Rightarrow> ('a, 'd, 's) asset_state \<Rightarrow> (NkErrorCode \<times> ('a, 'd, 's) asset_state) outcome" where
  "AssetManager_CloseDatabase sq st =
     (case am_dbConn st of
        None \<Rightarrow> Done (NkErr_ComponentState, st)
      | Some a \<Rightarrow> (case am_queryAssetStmt st of
          None \<Rightarrow> Undef
        | Some s \<Rightarrow>
            let o1 = Stmt_Release sq s (om_objs (am_om st)) in
            no_fault o1 (obind (release_db sq a o1) (\<lambda>o2.
              Done (NkErr_Ok, st\<lparr>am_dbConn := None, am_queryAssetStmt := None, am_om := (am_om st)\<lparr>om_objs := o2\<rparr>\<rparr>)))))"

subsection \<open>Assets\<close>

text \<open>The callback for the rows of the query is not written yet: it only checks its arguments.\<close>

definition AssetManager_QueryAssetIterFn :: "nat \<Rightarrow> NkVariant list \<Rightarrow> 'a option \<Rightarrow> NkErrorCode \<times> 'a option" where
  "AssetManager_QueryAssetIterFn colCount colResArr resPtr = (NkErr_Ok, resPtr)"

text \<open>\<open>varJunk\<close> is what the parameter variant holds before it is set, \<open>junk\<close> what the result array holds.\<close>

definition AssetManager_QueryAsset ::
    "'d sqlite3_api \<Rightarrow> NkVariant \<Rightarrow> NkVariant \<Rightarrow> ('a \<Rightarrow> 's \<Rightarrow> 's) \<Rightarrow> byte list \<Rightarrow> 64 word \<Rightarrow> NkUuid \<Rightarrow> ('a, 'd, 's) asset_state
     \<Rightarrow> (NkErrorCode \<times> 'a option \<times> ('a, 'd, 's) asset_state) outcome" where
  "AssetManager_QueryAsset sq varJunk junk asset_AddRef behind idAddr assetId st =
     (case am_assetCache st of
        None \<Rightarrow> Undef
      | Some cache \<Rightarrow>
          obind (NkHashtableAt (am_htctx st) cache behind (mp_uuidKey idAddr assetId)) (\<lambda>(eCode, resPtr).
            if eCode = NkErr_Ok
            then (case resPtr of None \<Rightarrow> Undef | Some asset \<Rightarrow> Done (NkErr_Ok, Some asset, st\<lparr>am_assets := asset_AddRef asset (am_assets st)\<rparr>))
            else case (am_queryAssetStmt st, am_dbConn st) of
                   (Some s, Some a) \<Rightarrow>
                     (let o1 = om_objs (am_om st); paramVar = NkVariantSet varJunk NkVarTy_Uuid assetId in
                      case dh_stmts o1 s of
                        None \<Rightarrow> Undef
                      | Some stmt \<Rightarrow>
                          let o2 = put_lib (Stmt_Bind sq (st_stmtPtr stmt) 1 paramVar (dh_lib o1)) o1 in
                          obind (DbHandle_Execute sq junk a s (Some AssetManager_QueryAssetIterFn) resPtr o2) (\<lambda>(eCode, resPtr, o3).
                            let o4 = put_lib (Stmt_Unbind sq (st_stmtPtr stmt) 1 (dh_lib o3)) o3 in
                            Done (eCode, if eCode \<noteq> NkErr_Ok then None else resPtr, st\<lparr>am_om := (am_om st)\<lparr>om_objs := o4\<rparr>\<rparr>)))
                 | _ \<Rightarrow> Undef))"

definition NkAssetManagerQueryAssetTypeStr :: "nat \<Rightarrow> string outcome" where
  "NkAssetManagerQueryAssetTypeStr typeId =
     nk_assert (typeId < 4) NkErr_InParameter (Done ([''NkAsTy_Unknown'', ''NkAsTy_World'', ''NkAsTy_TextureAtlas'', ''NkAsTy_Level''] ! typeId))"

subsection \<open>Start-up and shutdown\<close>

definition AssetManagerStartup ::
    "'d sqlite3_api \<Rightarrow> byte list \<Rightarrow> 64 word \<Rightarrow> 64 word \<Rightarrow> NkErrorCode \<Rightarrow> heap_answer \<Rightarrow> bool \<Rightarrow> (string \<Rightarrow> bool) \<Rightarrow> ('a, 'd, 's) asset_state
     \<Rightarrow> (NkErrorCode \<times> ('a, 'd, 's) asset_state) outcome" where
  "AssetManagerStartup sq behind cs cd poolRes heap isStandalone fileExists st =
     obind (AssetManager_Initialize poolRes heap st) (\<lambda>(errCode, st1).
       if errCode \<noteq> NkErr_Ok then Done (errCode, st1)
       else if isStandalone
       then obind (if \<not> fileExists ''assets.db'' then AssetManager_CreateDatabase sq behind cs cd ''assets.db'' st1 else Done (NkErr_Ok, st1)) (\<lambda>(errCode, st2).
              if errCode \<noteq> NkErr_Ok then Done (errCode, st2)
              else AssetManager_OpenDatabase sq behind cs cd isStandalone ''assets.db'' st2)
       else Done (NkErr_Ok, st1))"

definition AssetManager_IterPendingFn ::
    "(NkHashtableKey \<times> 'a option) list \<Rightarrow> 'a NkHashtablePair \<Rightarrow> NkErrorCode \<times> (NkHashtableKey \<times> 'a option) list \<times> 'a NkHashtablePair" where
  "AssetManager_IterPendingFn logged pairPtr = (NkErr_Ok, logged @ [(m_keyVal pairPtr, mp_valuePtr pairPtr)], pairPtr)"

definition AssetManagerShutdown ::
    "'d sqlite3_api \<Rightarrow> bool \<Rightarrow> ('a, 'd, 's) asset_state
     \<Rightarrow> (NkErrorCode \<times> (NkHashtableKey \<times> 'a option) list \<times> ('a, 'd, 's) asset_state) outcome" where
  "AssetManagerShutdown sq isStandalone st =
     (case am_assetCache st of
        None \<Rightarrow> Undef
      | Some cache \<Rightarrow>
          let pending = (if 0 < NkHashtableCount cache then fst (snd (NkHashtableForEach cache AssetManager_IterPendingFn [])) else []);
              st1 = st\<lparr>am_assetCache := None\<rparr>
          in if isStandalone
             then obind (AssetManager_CloseDatabase sq st1) (\<lambda>(_, st2). Done (NkErr_Ok, pending, st2))
             else Done (NkErr_Ok, pending, st1))"

subsection \<open>Properties\<close>

lemma db_inv_unowned:
  assumes "db_inv o1 own" "dh_next o1 \<le> n"
  shows "own (DbAt n) = 0" "own (StmtAt n) = 0"
proof -
  have "dh_dbs o1 n = None" "dh_stmts o1 n = None" using assms by (auto simp: db_inv_def)
  moreover have "handle_ok (dh_dbs o1 n) (db_refs o1 own n)" "stmt_ok (dh_stmts o1 n) (own (StmtAt n))"
    using assms(1) by (simp_all add: db_inv_def handle_inv_def stmt_inv_def)
  ultimately show "own (DbAt n) = 0" "own (StmtAt n) = 0" by (simp_all add: db_refs_def)
qed

lemma release_db_inv:
  assumes "db_inv o1 own" "own (DbAt a) = 1"
  obtains o2 where "release_db sq a o1 = Done o2" "db_inv o2 (own(DbAt a := 0))"
proof
  have i: "db_inv (DbHandle_Release sq a o1) (own(DbAt a := 0))" using db_inv_release_handle[OF assms(1), of a sq] assms(2) by simp
  then show "release_db sq a o1 = Done (DbHandle_Release sq a o1)" by (simp add: release_db_def no_fault_def Let_def db_inv_def)
  show "db_inv (DbHandle_Release sq a o1) (own(DbAt a := 0))" by (rule i)
qed

lemma new_db_handle_inv:
  assumes "db_registered om behind" "db_inv (om_objs om) own" "new_db_handle sq behind cs cd om = Done (ec, r, om')"
  shows "case r of None \<Rightarrow> ec \<noteq> NkErr_Ok \<and> om' = om
    | Some a \<Rightarrow> ec = NkErr_Ok \<and> a = dh_next (om_objs om) \<and> db_registered om' behind \<and> db_inv (om_objs om') (own(DbAt a := 1))
        \<and> closed_handle a 1 (om_objs om')"
  using assms create_database_instance[OF assms(1), of sq cs cd] db_inv_new_database[OF assms(2)]
  by (auto simp: new_db_handle_def Let_def closed_handle_def split: if_splits)

lemma close_database_inv:
  assumes "db_inv (om_objs (am_om st)) own" "am_dbConn st = Some a" "am_queryAssetStmt st = Some s" "own (DbAt a) = 1" "own (StmtAt s) = 1"
  obtains om' where "AssetManager_CloseDatabase sq st = Done (NkErr_Ok, st\<lparr>am_dbConn := None, am_queryAssetStmt := None, am_om := om'\<rparr>)"
    "db_inv (om_objs om') (own(StmtAt s := 0, DbAt a := 0))"
proof -
  let ?o1 = "Stmt_Release sq s (om_objs (am_om st))"
  have i: "db_inv ?o1 (own(StmtAt s := 0))" using db_inv_release_stmt[OF assms(1), of s sq] assms(5) by simp
  obtain o2 where o2: "release_db sq a ?o1 = Done o2" "db_inv o2 (own(StmtAt s := 0, DbAt a := 0))"
    by (rule release_db_inv[OF i, of a sq]) (use assms(4) in auto)
  have "\<not> dh_fault ?o1" using i by (simp add: db_inv_def)
  then show ?thesis
    using that[of "(am_om st)\<lparr>om_objs := o2\<rparr>"] o2 assms(2,3) by (simp add: AssetManager_CloseDatabase_def no_fault_def Let_def)
qed

lemma create_statement_inv:
  assumes "db_registered om behind" "db_inv (om_objs om) own" "0 < own (DbAt a)" "DbHandle_CreateStatement sq behind cs cd a sql om = Done (ec, r, om')"
  shows "if ec = NkErr_Ok then \<exists>s. r = Some (StmtAt s) \<and> own (StmtAt s) = 0 \<and> db_inv (om_objs om') (own(StmtAt s := 1)) else om' = om"
proof -
  obtain d where d: "dh_dbs (om_objs om) a = Some d" by (rule db_inv_live[OF assms(2,3)])
  obtain rc p l where p: "sq_prepare_v2 sq (db_dbConn d) sql (dh_lib (om_objs om)) = (rc, p, l)" by (metis prod_cases3)
  have "\<not> dh_fault (om_objs om)" using assms(2) by (simp add: db_inv_def)
  then show ?thesis
    using assms(4) create_statement_instance[OF assms(1) d _ p, of cs cd] db_inv_new_statement[OF assms(2,3)]
      db_inv_unowned[OF assms(2) order_refl]
    by (auto simp: Let_def split: if_splits)
qed

lemma open_database_cases:
  assumes "db_registered (am_om st) behind" "db_inv (om_objs (am_om st)) own"
    "AssetManager_OpenDatabase sq behind cs cd isStandalone path st = Done (ec, st')"
  obtains (failed) "ec \<noteq> NkErr_Ok" "am_dbConn st' = None" "db_inv (om_objs (am_om st')) own"
  | (opened) a s where "ec = NkErr_Ok" "am_dbConn st' = Some a" "am_queryAssetStmt st' = Some s" "own (DbAt a) = 0" "own (StmtAt s) = 0"
      "db_inv (om_objs (am_om st')) (own(DbAt a := 1, StmtAt s := 1))"
proof -
  obtain ec1 r om1 where n: "new_db_handle sq behind cs cd (am_om st) = Done (ec1, r, om1)"
    using assms(3) by (auto simp: AssetManager_OpenDatabase_def nk_outcome)
  note n' = new_db_handle_inv[OF assms(1,2) n]
  show ?thesis
  proof (cases r)
    case None
    then show ?thesis using failed n n' assms by (auto simp: AssetManager_OpenDatabase_def nk_outcome)
  next
    case (Some a)
    let ?own = "own(DbAt a := 1)"
    have a: "a = dh_next (om_objs (am_om st))" "db_registered om1 behind" "db_inv (om_objs om1) ?own" using n' Some by auto
    have z: "own (DbAt a) = 0" using db_inv_unowned[OF assms(2)] a(1) by simp
    obtain ec2 o2 where op: "DbHandle_Open sq a path (if isStandalone then NkDbMode_ReadOnly else NkDbMode_ReadWrite) (om_objs om1) = Done (ec2, o2)"
      using assms(3) n Some by (auto simp: AssetManager_OpenDatabase_def nk_outcome Let_def)
    have i2: "db_inv o2 ?own" using same_objects_inv[OF DbHandle_Open_same[OF op] a(3)] .
    obtain o3 where rel: "release_db sq a o2 = Done o3" "db_inv o3 own"
      by (rule release_db_inv[OF i2, of a sq]) (use z in \<open>auto simp: fun_upd_idem\<close>)
    note unf = AssetManager_OpenDatabase_def nk_outcome Let_def
    show ?thesis
    proof (cases "ec2 = NkErr_Ok")
      case False
      then show ?thesis using failed assms(3) n Some op rel by (auto simp: unf)
    next
      case True
      obtain ec3 stmt om3 where cr: "DbHandle_CreateStatement sq behind cs cd a gl_c_QueryAssetSql (om1\<lparr>om_objs := o2\<rparr>) = Done (ec3, stmt, om3)"
        using assms(3) n Some op True by (auto simp: unf)
      then show ?thesis
        using failed opened[of a] create_statement_inv[OF _ _ _ cr, of ?own] a i2 z assms(3) n Some op rel True
        by (auto simp: unf split: if_splits)
    qed
  qed
qed

text \<open>C20: The references of the asset manager.  Whenever opening the asset database returns, it returns with an error, no connection and
  all references given back, or it holds one reference on a new handle and one on a new statement; closing then gives
  exactly these two back, without touching a freed object.\<close>

theorem asset_database_references_balance:
  assumes "db_registered (am_om st) behind" "db_inv (om_objs (am_om st)) own"
    "AssetManager_OpenDatabase sq behind cs cd isStandalone path st = Done (ec, st')"
  shows "if ec \<noteq> NkErr_Ok then am_dbConn st' = None \<and> db_inv (om_objs (am_om st')) own
    else \<exists>a s st''. am_dbConn st' = Some a \<and> am_queryAssetStmt st' = Some s \<and> own (DbAt a) = 0 \<and> own (StmtAt s) = 0
      \<and> db_inv (om_objs (am_om st')) (own(DbAt a := 1, StmtAt s := 1))
      \<and> AssetManager_CloseDatabase sq st' = Done (NkErr_Ok, st'') \<and> am_dbConn st'' = None \<and> db_inv (om_objs (am_om st'')) own"
  using assms(1,2,3)
proof (cases rule: open_database_cases)
  case (opened a s)
  obtain om' where cl: "AssetManager_CloseDatabase sq st' = Done (NkErr_Ok, st'\<lparr>am_dbConn := None, am_queryAssetStmt := None, am_om := om'\<rparr>)"
    "db_inv (om_objs om') (own(DbAt a := 1, StmtAt s := 1, StmtAt s := 0, DbAt a := 0))"
    by (rule close_database_inv[of st' "own(DbAt a := 1, StmtAt s := 1)" a s sq]) (use opened in auto)
  have "own(DbAt a := 1, StmtAt s := 1, StmtAt s := 0, DbAt a := 0) = own" using opened by (simp add: fun_eq_iff)
  then show ?thesis using cl opened by auto
qed simp

text \<open>A manager with an empty cache on the sample database.\<close>

definition sample_assets :: "(nat, nat \<times> sql_bind list, nat \<Rightarrow> int) asset_state" where
  "sample_assets = \<lparr>am_assetCache = Some \<lparr>ht_elemCount = 0, ht_currCap = 64, ht_htProps = asset_cache_props, ht_elemArray = replicate 64 zero_slot\<rparr>,
     am_dbConn = None, am_queryAssetStmt = None, am_htctx = \<lparr>m_hashSeed = 1, ptr_bytes = (\<lambda>_. replicate 8 0)\<rparr>,
     am_rnd = \<lparr>s0 = 1, s1 = 2, s2 = 3, s3 = 4\<rparr>, am_om = sample_db_om, am_assets = (\<lambda>_. 1)\<rparr>"

lemma sample_open: "\<exists>st'. AssetManager_OpenDatabase sample_sq (replicate 8 0) 4096 8192 True ''p'' sample_assets = Done (NkErr_Ok, st')"
proof -
  let ?o1 = "put_db 10 (Some \<lparr>db_refCount = 1, db_dbMode = 0, db_dbConn = None\<rparr>) ((om_objs sample_db_om)\<lparr>dh_next := 11\<rparr>)"
  let ?om1 = "sample_db_om\<lparr>om_objs := ?o1\<rparr>"
  let ?d = "\<lparr>db_refCount = 1, db_dbMode = 1, db_dbConn = Some 1\<rparr>"
  let ?om2 = "?om1\<lparr>om_objs := put_db 10 (Some ?d) ?o1\<rparr>"
  have s: "dh_next (om_objs sample_db_om) = 10" "dh_pool (om_objs sample_db_om) = NkErr_Ok" "\<not> dh_fault (om_objs sample_db_om)"
    "dh_lib (om_objs sample_db_om) = (0, [])"
    by (simp_all add: sample_db_om_def)
  have n: "new_db_handle sample_sq (replicate 8 0) 4096 8192 sample_db_om = Done (NkErr_Ok, Some 10, ?om1)"
    using create_database_instance[OF sample_db_registered, of sample_sq 4096 8192] s by (simp add: new_db_handle_def)
  have o: "DbHandle_Open sample_sq 10 ''p'' 1 ?o1 = Done (NkErr_Ok, put_db 10 (Some ?d) ?o1)"
    using s by (simp add: DbHandle_Open_def DbHandle_SetPragmas_def sample_sq_def put_lib_def put_db_def)
  have p: "sq_prepare_v2 sample_sq (db_dbConn ?d) gl_c_QueryAssetSql (dh_lib (om_objs ?om2)) = (0, Some 2, (0, []))"
    using s by (simp add: sample_sq_def gl_c_QueryAssetSql_def)
  have reg: "db_registered ?om2 (replicate 8 0)" using sample_db_registered by simp
  have "\<exists>x om3. DbHandle_CreateStatement sample_sq (replicate 8 0) 4096 8192 10 gl_c_QueryAssetSql ?om2 = Done (NkErr_Ok, Some (StmtAt x), om3)"
    using create_statement_instance[OF reg _ _ p, of 10 4096 8192] s by (simp add: Let_def)
  then show ?thesis using n o by (auto simp: AssetManager_OpenDatabase_def sample_assets_def)
qed

theorem asset_database_references_balance_witness:
  "\<exists>st' st''. AssetManager_OpenDatabase sample_sq (replicate 8 0) 4096 8192 True ''p'' sample_assets = Done (NkErr_Ok, st')
    \<and> AssetManager_CloseDatabase sample_sq st' = Done (NkErr_Ok, st'') \<and> db_inv (om_objs (am_om st'')) sample_own"
proof -
  obtain st' where o: "AssetManager_OpenDatabase sample_sq (replicate 8 0) 4096 8192 True ''p'' sample_assets = Done (NkErr_Ok, st')"
    using sample_open by blast
  have "db_registered (am_om sample_assets) (replicate 8 0)" "db_inv (om_objs (am_om sample_assets)) sample_own"
    using sample_db_registered sample_db_inv by (simp_all add: sample_assets_def)
  from asset_database_references_balance[OF this o] show ?thesis using o by auto
qed

lemma put_lib_same [simp]: "put_lib (dh_lib o1) o1 = o1"
  by (simp add: put_lib_def)

lemma visit_rows_Ok: "visit_rows (\<lambda>row x. (NkErr_Ok, x)) rows lend x = (NkErr_Ok, x, lend)"
  by (induction rows) auto

lemma QueryAssetIterFn_eq: "AssetManager_QueryAssetIterFn = (\<lambda>n vs. (\<lambda>row x. (NkErr_Ok, x)) (map NkVariantGet vs))"
  by (simp add: AssetManager_QueryAssetIterFn_def fun_eq_iff)

text \<open>C31: Asking for an asset.  A cached asset is returned with one reference more.  For any other identifier the manager reports
  success with a NULL asset, whatever the database holds: the identifier is never bound, because the query has one parameter and
  the last parameter cannot be bound, and the rows that the query delivers are dropped.  The statement is reset, everything else
  is as before.\<close>

theorem asset_query_answers:
  fixes st :: "('a, 'd, 's) asset_state"
  assumes "am_assetCache st = Some cache" "ht_wf cache" "ht_keyType (ht_htProps cache) = NkHtKeyTy_Uuid" "length assetId = 16"
    "length behind = 8" "am_dbConn st = Some a" "am_queryAssetStmt st = Some s" "om_objs (am_om st) = o1" "dh_dbs o1 a = Some d"
    "db_dbConn d \<noteq> None" "dh_stmts o1 s = Some stmt" "dh_pool o1 = NkErr_Ok" "length (var_val junk) = 16"
    "\<forall>l. sq_bind_parameter_count sq (st_stmtPtr stmt) l = 1"
    "delivers sq (st_stmtPtr stmt) (dh_lib o1) rs lend" "\<forall>r\<in>set rs. sq_column_count sq (st_stmtPtr stmt) r = n" "0 < n"
  shows "AssetManager_QueryAsset sq varJunk junk addRef behind idAddr assetId st
    = (case ht_map cache (IdUuid assetId) of
         Some (Some asset) \<Rightarrow> Done (NkErr_Ok, Some asset, st\<lparr>am_assets := addRef asset (am_assets st)\<rparr>)
       | Some None \<Rightarrow> Undef
       | None \<Rightarrow> Done (NkErr_Ok, None, st\<lparr>am_om := (am_om st)\<lparr>om_objs := put_lib (sq_reset sq (st_stmtPtr stmt) lend) o1\<rparr>\<rparr>))"
proof -
  have at: "NkHashtableAt (am_htctx st) cache behind (mp_uuidKey idAddr assetId)
    = Done (case ht_map cache (IdUuid assetId) of None \<Rightarrow> (NkErr_ItemNotFound, None) | Some v \<Rightarrow> (NkErr_Ok, v))"
    using NkHashtableAt_spec[OF assms(2), of "mp_uuidKey idAddr assetId" behind "am_htctx st"] assms(3-5) by simp
  have nob: "Stmt_Bind sq (st_stmtPtr stmt) 1 v l = l" "Stmt_Unbind sq (st_stmtPtr stmt) 1 l = l" for v l
    using assms(14) by (simp_all add: Stmt_Bind_def Stmt_Unbind_def Stmt_IsValidParamIndex_def)
  have ex: "DbHandle_Execute sq junk a s (Some AssetManager_QueryAssetIterFn) (None :: 'a option) o1
    = Done (NkErr_Ok, None, put_lib (sq_reset sq (st_stmtPtr stmt) lend) o1)"
    using assms(8-12) exec_loop_visits[OF assms(15-17) assms(13), of None "\<lambda>row x. (NkErr_Ok, x)" "None :: 'a option"]
    by (auto simp: DbHandle_Execute_def QueryAssetIterFn_eq visit_rows_Ok)
  show ?thesis
    using at assms(1,6-8,11) nob ex by (auto simp: AssetManager_QueryAsset_def Let_def split: option.splits)
qed

theorem asset_query_answers_witness:
  "\<exists>st'. AssetManager_QueryAsset sample_sq \<lparr>var_type = NkVarTy_None, var_val = replicate 16 0\<rparr> \<lparr>var_type = NkVarTy_None, var_val = replicate 16 0\<rparr>
      (\<lambda>x f. f(x := f x + 1)) (replicate 8 0) 4096 (replicate 16 5)
      (sample_assets\<lparr>am_dbConn := Some 3, am_queryAssetStmt := Some 10, am_om := sample_db_om\<lparr>om_objs :=
         (om_objs sample_db_om)\<lparr>dh_stmts := [10 \<mapsto> \<lparr>st_refCount = 1, st_dbConn = Some 3, st_stmtPtr = Some 2\<rparr>]\<rparr>\<rparr>\<rparr>) = Done (NkErr_Ok, None, st')"
proof -
  let ?o = "(om_objs sample_db_om)\<lparr>dh_stmts := [10 \<mapsto> \<lparr>st_refCount = 1, st_dbConn = Some 3, st_stmtPtr = Some 2\<rparr>]\<rparr>"
  let ?st = "sample_assets\<lparr>am_dbConn := Some 3, am_queryAssetStmt := Some 10, am_om := sample_db_om\<lparr>om_objs := ?o\<rparr>\<rparr>"
  let ?ht = "\<lparr>ht_elemCount = 0, ht_currCap = 64, ht_htProps = asset_cache_props, ht_elemArray = replicate 64 zero_slot\<rparr> :: nat NkHashtable"
  have "ht_wf ?ht" "ht_map ?ht = Map.empty" "am_assetCache ?st = Some ?ht"
    by (auto simp: ht_wf_def ht_pairs_def ht_map_def sample_assets_def)
  moreover have "dh_dbs ?o 3 = Some \<lparr>db_refCount = 1, db_dbMode = 2, db_dbConn = Some 1\<rparr>" "dh_pool ?o = NkErr_Ok" "dh_lib ?o = (0, [])"
    by (simp_all add: sample_db_om_def)
  moreover have "delivers sample_sq (Some 2) (0, []) [(1, []), (2, [])] (2, [])" "\<forall>l. sq_bind_parameter_count sample_sq (Some 2) l = 1"
    "\<forall>r\<in>set [(1, []), (2, [])]. sq_column_count sample_sq (Some 2) r = 1"
    by (simp_all add: sample_sq_def)
  ultimately show ?thesis
    using asset_query_answers[of ?st ?ht "replicate 16 5" "replicate 8 0" 3 10 ?o _ _ "\<lparr>var_type = NkVarTy_None, var_val = replicate 16 0\<rparr>" sample_sq
        "[(1, []), (2, [])]" "(2, [])" 1]
    by (simp add: asset_cache_props_def)
qed

end
