(* ===== verification/NkPlatform.thy ===== *)
theory NkPlatform
  imports NkBitmap
begin

section \<open>Platform queries (src/Noriko/platform.c, platform/windows/winhelpers.c, winrng.c)\<close>

text \<open>
  Build information, the sizes and positions the window system is asked for, and the seed of the random numbers.  What
  the preprocessor and the compiler supply (configuration, version, date and time) is the argument \<open>build_info\<close>; the
  metrics of the desktop and the random numbers of the C library are arguments too.  The structure that is
  filled in is memory of the caller, a list of bytes, of which the caller may own any prefix.
\<close>

text \<open>Truncation of an unsigned 64-bit number to \<open>int\<close> or \<open>LONG\<close>.\<close>

definition int_of64 :: "64 word \<Rightarrow> int" where
  "int_of64 w = sint (ucast w :: 32 word)"

record build_info =
  bi_config :: string
  bi_mscVer :: nat
  bi_mscText :: string
  bi_date :: string
  bi_time :: string

record NkPlatformInformation =
  pi_structSize :: nat
  pi_versionMajor :: nat
  pi_versionMinor :: nat
  pi_versionPatch :: nat
  pi_versionIteration :: nat
  pi_platWidth :: nat
  pi_platBToolsVer :: nat
  pi_prodName :: string
  pi_prodVersion :: string
  pi_prodCopyright :: string
  pi_prodConfig :: string
  pi_prodBuildTools :: string
  pi_prodPlatform :: string
  pi_prodFullInfoStr :: string
  pi_buildDate :: string
  pi_buildTime :: string

definition NK_PRODUCT_VERSION :: string where
  "NK_PRODUCT_VERSION = ''0'' @ ''.'' @ ''0'' @ ''.'' @ ''1'' @ ''-'' @ ''1''"

definition NK_PRODUCT_INFOSTR :: "build_info \<Rightarrow> string" where
  "NK_PRODUCT_INFOSTR b = ''Noriko'' @ '' '' @ NK_PRODUCT_VERSION @ '' :: '' @ ''Microsoft Windows'' @ '' ('' @ ''64'' @ ''-bit) - '' @ bi_config b"

definition sizeof_PlatformInformation :: nat where
  "sizeof_PlatformInformation = 176"

definition gl_c_PlatformInfo :: "build_info \<Rightarrow> NkPlatformInformation" where
  "gl_c_PlatformInfo b = \<lparr>pi_structSize = sizeof_PlatformInformation, pi_versionMajor = 0, pi_versionMinor = 0, pi_versionPatch = 1,
     pi_versionIteration = 1, pi_platWidth = 64, pi_platBToolsVer = bi_mscVer b, pi_prodName = ''Noriko'', pi_prodVersion = NK_PRODUCT_VERSION,
     pi_prodCopyright = ''(c) 2024 TophUwO <tophuwo01@gmail.com>. All rights reserved.'', pi_prodConfig = bi_config b,
     pi_prodBuildTools = ''Microsoft Visual C v'' @ bi_mscText b, pi_prodPlatform = ''Microsoft Windows'',
     pi_prodFullInfoStr = NK_PRODUCT_INFOSTR b, pi_buildDate = bi_date b, pi_buildTime = bi_time b\<rparr>"

text \<open>The structure in memory; \<open>addr\<close> is where the literals lie.\<close>

definition platform_bytes :: "(string \<Rightarrow> nat) \<Rightarrow> NkPlatformInformation \<Rightarrow> byte list" where
  "platform_bytes addr p = le_put 8 (pi_structSize p)
     @ concat (map (le_put 4) [pi_versionMajor p, pi_versionMinor p, pi_versionPatch p, pi_versionIteration p, pi_platWidth p, pi_platBToolsVer p])
     @ concat (map (\<lambda>s. le_put 8 (addr s) @ le_put 8 (length s)) [pi_prodName p, pi_prodVersion p, pi_prodCopyright p, pi_prodConfig p,
         pi_prodBuildTools p, pi_prodPlatform p, pi_prodFullInfoStr p, pi_buildDate p, pi_buildTime p])"

definition NkQueryPlatformInformation :: "(string \<Rightarrow> nat) \<Rightarrow> build_info \<Rightarrow> byte list \<Rightarrow> byte list outcome" where
  "NkQueryPlatformInformation addr b buf =
     (if length buf < 8 then Undef
      else let structSize = le_get (take 8 buf) in
        nk_assert (structSize \<noteq> 0) NkErr_InOutParameter
       (let actSize = min sizeof_PlatformInformation structSize in
        obind (mem_copy buf 0 (platform_bytes addr (gl_c_PlatformInfo b)) 0 actSize) (\<lambda>buf.
          mem_copy buf 0 (le_put 8 actSize) 0 8)))"

subsection \<open>Windows on the desktop\<close>

type_synonym win_rect = "int \<times> int \<times> int \<times> int"

text \<open>\<open>metrics\<close> are the extents of a maximised window as the system reports them.\<close>

definition NkQueryMaximizedWindowExtents :: "int \<times> int \<Rightarrow> NkErrorCode \<times> NkSize2D" where
  "NkQueryMaximizedWindowExtents metrics = (NkErr_Ok, \<lparr>m_width = word_of_int (fst metrics), m_height = word_of_int (snd metrics)\<rparr>)"

text \<open>The work area is \<open>None\<close> when the system cannot tell it.  The differences are formed in unsigned arithmetic.\<close>

definition NkCalculateInitialWindowPos :: "win_rect option \<Rightarrow> NkSize2D \<Rightarrow> NkPoint2D" where
  "NkCalculateInitialWindowPos wkArea wndSize =
     (case wkArea of None \<Rightarrow> \<lparr>m_xCoord = 0, m_yCoord = 0\<rparr>
      | Some (lf, tp, rt, bt) \<Rightarrow>
          \<lparr>m_xCoord = (word_of_int (rt - lf) - m_width wndSize) div 2, m_yCoord = (word_of_int (bt - tp) - m_height wndSize) div 2\<rparr>)"

text \<open>\<open>nclRect\<close> is what \<open>AdjustWindowRectEx\<close> makes of an empty rectangle, \<open>None\<close> if it fails.\<close>

definition NkCalculateMaximumViewportExtents :: "int \<times> int \<Rightarrow> win_rect option \<Rightarrow> NkSize2D \<Rightarrow> NkSize2D outcome" where
  "NkCalculateMaximumViewportExtents metrics nclRect dispTileSize =
     (let maxWndSize = snd (NkQueryMaximizedWindowExtents metrics) in
      case nclRect of None \<Rightarrow> Done \<lparr>m_width = 0, m_height = 0\<rparr>
      | Some (lf, tp, rt, bt) \<Rightarrow>
          if m_width dispTileSize = 0 \<or> m_height dispTileSize = 0 then Undef
          else Done \<lparr>m_width = (m_width maxWndSize - word_of_int (rt - lf)) div m_width dispTileSize,
                     m_height = (m_height maxWndSize - word_of_int (bt - tp)) div m_height dispTileSize\<rparr>)"

subsection \<open>The random seed\<close>

text \<open>\<open>rnd i\<close> is what the \<open>i\<close>-th call of \<open>rand_s\<close> stores.\<close>

fun seed_loop :: "(nat \<Rightarrow> 32 word) \<Rightarrow> nat \<Rightarrow> nat \<Rightarrow> byte list \<Rightarrow> byte list outcome" where
  "seed_loop rnd i 0 buf = Done buf"
| "seed_loop rnd i (Suc n) buf = obind (mem_copy buf (4 * i) (le_put 4 (unat (rnd i))) 0 4) (\<lambda>buf. seed_loop rnd (Suc i) n buf)"

definition PRNG_GenerateSeed :: "(nat \<Rightarrow> 32 word) \<Rightarrow> nat \<Rightarrow> byte list \<Rightarrow> (NkErrorCode \<times> byte list) outcome" where
  "PRNG_GenerateSeed rnd sizeInBytes randSeedBuf =
     nk_assert (0 < sizeInBytes) NkErr_InParameter
    (obind (seed_loop rnd 0 (sizeInBytes div 4) randSeedBuf) (\<lambda>buf. Done (NkErr_Ok, buf)))"

text \<open>The four words of the generator's state lie in its array of 32 bytes.\<close>

definition seed_context :: "byte list \<Rightarrow> RandContext" where
  "seed_context buf = (let word = (\<lambda>k. word_of_nat (le_get (take 8 (drop (8 * k) buf)))) in \<lparr>s0 = word 0, s1 = word 1, s2 = word 2, s3 = word 3\<rparr>)"

definition PRNG_Startup :: "(nat \<Rightarrow> 32 word) \<Rightarrow> (NkErrorCode \<times> RandContext) outcome" where
  "PRNG_Startup rnd = obind (PRNG_GenerateSeed rnd 32 (replicate 32 0)) (\<lambda>(errCode, buf). Done (errCode, seed_context buf))"

definition PRNG_Shutdown :: NkErrorCode where
  "PRNG_Shutdown = NkErr_Ok"

subsection \<open>Properties\<close>

lemma length_platform_bytes [simp]: "length (platform_bytes addr p) = 176"
  by (simp add: platform_bytes_def)

text \<open>The query fills exactly the part of the structure that the caller has announced, and tells how much that is.\<close>

lemma platform_query_fills_prefix:
  assumes "8 \<le> length buf" "s = le_get (take 8 buf)" "8 \<le> s" "s \<le> length buf"
  shows "NkQueryPlatformInformation addr b buf
    = Done (le_put 8 (min 176 s) @ drop 8 (take (min 176 s) (platform_bytes addr (gl_c_PlatformInfo b))) @ drop (min 176 s) buf)"
  using assms by (simp add: NkQueryPlatformInformation_def sizeof_PlatformInformation_def mem_copy_def Let_def)

text \<open>A caller that announces fewer bytes than the size member itself has gets all eight of them overwritten.\<close>

lemma platform_query_small_size:
  assumes "8 \<le> length buf" "s = le_get (take 8 buf)" "0 < s" "s < 8"
  shows "NkQueryPlatformInformation addr b buf = Done (le_put 8 s @ drop 8 buf)"
  using assms by (simp add: NkQueryPlatformInformation_def sizeof_PlatformInformation_def mem_copy_def Let_def)

lemma half_of_difference:
  assumes "- (2 ^ 31) < d" "d < 2 ^ 31"
  shows "int_of64 (word_of_int d div 2) = d div 2"
proof -
  have u: "uint ((word_of_int d :: 64 word) div 2) = (d mod 2 ^ 64) div 2" by (simp add: uint_div uint_word_of_int)
  have low: "(d mod 2 ^ 64) div 2 mod 2 ^ 32 = (d div 2) mod 2 ^ 32"
  proof (cases "0 \<le> d")
    case True
    then show ?thesis using assms by simp
  next
    case False
    then have "d mod 2 ^ 64 = d + 2 ^ 64" using assms by (subst mod_add_self2[symmetric], subst mod_pos_pos_trivial) auto
    then have "(d mod 2 ^ 64) div 2 = d div 2 + 2 ^ 63" by simp
    also have "\<dots> mod 2 ^ 32 = (d div 2) mod 2 ^ 32"
      using mod_mult_self1[of "d div 2" "2 ^ 31" "2 ^ 32"] by simp
    finally show ?thesis .
  qed
  have "ucast ((word_of_int d :: 64 word) div 2) = (word_of_int (d div 2) :: 32 word)"
    using u low by (simp add: ucast_eq word_of_int_eq_iff take_bit_eq_mod)
  then show ?thesis using assms by (simp add: int_of64_def sint_sbintrunc' signed_take_bit_int_eq_self)
qed

text \<open>The initial position of a window is the centre of the work area, also when the window is larger than it: the
  unsigned difference wraps around, and truncating its half undoes this.\<close>

lemma initial_window_pos_centred:
  assumes "- (2 ^ 31) < (rt - lf) - sw" "(rt - lf) - sw < 2 ^ 31" "- (2 ^ 31) < (bt - tp) - sh" "(bt - tp) - sh < 2 ^ 31"
    "m_width sz = word_of_int sw" "m_height sz = word_of_int sh"
  shows "int_of64 (m_xCoord (NkCalculateInitialWindowPos (Some (lf, tp, rt, bt)) sz)) = ((rt - lf) - sw) div 2"
    "int_of64 (m_yCoord (NkCalculateInitialWindowPos (Some (lf, tp, rt, bt)) sz)) = ((bt - tp) - sh) div 2"
  using half_of_difference[OF assms(1,2)] half_of_difference[OF assms(3,4)] assms(5,6)
  by (simp_all add: NkCalculateInitialWindowPos_def)

text \<open>A seed of \<open>4 n\<close> bytes consists of \<open>n\<close> random numbers; the rest of the buffer is kept.\<close>

lemma seed_loop_fills:
  assumes "4 * (i + n) \<le> length buf"
  shows "seed_loop rnd i n buf = Done (take (4 * i) buf @ concat (map (\<lambda>k. le_put 4 (unat (rnd k))) [i..<i + n]) @ drop (4 * (i + n)) buf)"
  using assms
proof (induction n arbitrary: i buf)
  case (Suc n)
  let ?buf = "take (4 * i) buf @ le_put 4 (unat (rnd i)) @ drop (4 * i + 4) buf"
  have "seed_loop rnd i (Suc n) buf = seed_loop rnd (Suc i) n ?buf" using Suc.prems by (simp add: mem_copy_def)
  also have "\<dots> = Done (take (4 * Suc i) ?buf @ concat (map (\<lambda>k. le_put 4 (unat (rnd k))) [Suc i..<Suc i + n]) @ drop (4 * (Suc i + n)) ?buf)"
    using Suc.prems by (intro Suc.IH) simp
  also have "take (4 * Suc i) ?buf = take (4 * i) buf @ le_put 4 (unat (rnd i))" using Suc.prems by simp
  also have "drop (4 * (Suc i + n)) ?buf = drop (4 * (i + Suc n)) buf" using Suc.prems by (simp add: algebra_simps)
  finally show ?case by (simp add: upt_conv_Cons del: upt_Suc)
qed simp

lemma seed_is_random:
  "PRNG_GenerateSeed rnd (4 * Suc n) (replicate (4 * Suc n) 0) = Done (NkErr_Ok, concat (map (\<lambda>k. le_put 4 (unat (rnd k))) [0..<Suc n]))"
  using seed_loop_fills[of 0 "Suc n" "replicate (4 * Suc n) 0" rnd] by (simp add: PRNG_GenerateSeed_def del: upt_Suc mult_Suc_right)

end
