(* ===== verification/NkRenderer.thy ===== *)
theory NkRenderer
  imports NkOM NkBitmap NkFloat NkPlatform
begin

section \<open>Renderers (src/Noriko/renderer.c, platform/windows/wingdi.c)\<close>

text \<open>
  The factory of the renderers and the renderer on top of GDI.  Renderers and renderer resources are kept in stores by
  address, so that using one that has been freed is undefined.  GDI and the window the renderer belongs to are
  arguments: \<open>gdi_api\<close> holds the functions of the library that are called, on a device state of any type, and
  \<open>wnd_iface\<close> the methods of the window.  Handles are numbers, zero being NULL.  The viewport brush exists, as in
  the configurations in which assertions are checked.
\<close>

type_synonym gdi_rect = "int \<times> int \<times> int \<times> int"

record dib_header =
  biWidth :: int
  biHeight :: int
  biBitCount :: nat
  biSizeImage :: nat

record 'g gdi_api =
  gd_GetDC :: "nat \<Rightarrow> 'g \<Rightarrow> nat \<times> 'g"
  gd_ReleaseDC :: "nat \<Rightarrow> nat \<Rightarrow> 'g \<Rightarrow> 'g"
  gd_CreateCompatibleDC :: "nat \<Rightarrow> 'g \<Rightarrow> nat \<times> 'g"
  gd_DeleteDC :: "nat \<Rightarrow> 'g \<Rightarrow> 'g"
  gd_CreateCompatibleBitmap :: "nat \<Rightarrow> int \<Rightarrow> int \<Rightarrow> 'g \<Rightarrow> nat \<times> 'g"
  gd_CreateBitmap :: "int \<Rightarrow> int \<Rightarrow> 'g \<Rightarrow> nat \<times> 'g"
  gd_CreateSolidBrush :: "nat \<Rightarrow> nat \<Rightarrow> nat \<Rightarrow> 'g \<Rightarrow> nat \<times> 'g"
  gd_SelectObject :: "nat \<Rightarrow> nat \<Rightarrow> 'g \<Rightarrow> nat \<times> 'g"
  gd_GetCurrentBitmap :: "nat \<Rightarrow> 'g \<Rightarrow> nat"
  gd_DeleteObject :: "nat \<Rightarrow> 'g \<Rightarrow> 'g"
  gd_GetObject :: "nat \<Rightarrow> 'g \<Rightarrow> int \<times> int"
  gd_SetStretchBltMode :: "nat \<Rightarrow> int \<Rightarrow> 'g \<Rightarrow> 'g"
  gd_SetBkColor :: "nat \<Rightarrow> nat \<times> nat \<times> nat \<Rightarrow> 'g \<Rightarrow> (nat \<times> nat \<times> nat) \<times> 'g"
  gd_FillRect :: "nat \<Rightarrow> gdi_rect \<Rightarrow> nat \<Rightarrow> 'g \<Rightarrow> 'g"
  gd_BitBlt :: "nat \<Rightarrow> gdi_rect \<Rightarrow> nat \<Rightarrow> int \<times> int \<Rightarrow> nat \<Rightarrow> 'g \<Rightarrow> 'g"
  gd_StretchBlt :: "nat \<Rightarrow> gdi_rect \<Rightarrow> nat \<Rightarrow> gdi_rect \<Rightarrow> nat \<Rightarrow> 'g \<Rightarrow> 'g"
  gd_MaskBlt :: "nat \<Rightarrow> gdi_rect \<Rightarrow> nat \<Rightarrow> int \<times> int \<Rightarrow> nat \<Rightarrow> int \<times> int \<Rightarrow> nat \<Rightarrow> 'g \<Rightarrow> 'g"
  gd_SetDIBits :: "nat \<Rightarrow> int \<Rightarrow> byte option list \<Rightarrow> dib_header \<Rightarrow> 'g \<Rightarrow> int \<times> 'g"
  gd_GetDIBits :: "nat \<Rightarrow> nat \<Rightarrow> nat \<Rightarrow> dib_header \<Rightarrow> byte option list \<Rightarrow> 'g \<Rightarrow> int \<times> byte option list \<times> 'g"
  gd_GdiFlush :: "'g \<Rightarrow> 'g"
  gd_DwmFlush :: "'g \<Rightarrow> 'g"

record 'g wnd_iface =
  wi_QueryNativeWindowHandle :: "nat \<Rightarrow> 'g \<Rightarrow> nat"
  wi_GetClientDimensions :: "nat \<Rightarrow> 'g \<Rightarrow> NkSize2D"
  wi_AddRef :: "nat \<Rightarrow> 'g \<Rightarrow> 'g"
  wi_Release :: "nat \<Rightarrow> 'g \<Rightarrow> 'g"

abbreviation (input) SRCCOPY :: nat where "SRCCOPY \<equiv> 0xCC0020"
abbreviation (input) NOTSRCCOPY :: nat where "NOTSRCCOPY \<equiv> 0x330008"

text \<open>Conversion of a \<open>float\<close> to \<open>int\<close>, which is
  undefined out of range, and signed addition, which is undefined on overflow.\<close>

definition float_to_int :: "rat \<Rightarrow> int outcome" where
  "float_to_int x = (let n = (if x < 0 then - \<lfloor>- x\<rfloor> else \<lfloor>x\<rfloor>) in if - (2 ^ 31) \<le> n \<and> n < 2 ^ 31 then Done n else Undef)"

definition int_add :: "int \<Rightarrow> int \<Rightarrow> int outcome" where
  "int_add a b = (if - (2 ^ 31) \<le> a + b \<and> a + b < 2 ^ 31 then Done (a + b) else Undef)"

subsection \<open>Data (include/Noriko/renderer.h)\<close>

abbreviation (input) NkRdApi_Unknown :: nat where "NkRdApi_Unknown \<equiv> 0"
abbreviation (input) NkRdApi_Default :: nat where "NkRdApi_Default \<equiv> 1"
abbreviation (input) NkRdApi_Win32GDI :: nat where "NkRdApi_Win32GDI \<equiv> 2"

datatype NkRendererResourceType = NkRdResTy_None | NkRdResTy_Texture | NkRdResTy_TextureMask

abbreviation (input) NkTexIMd_Default :: nat where "NkTexIMd_Default \<equiv> 0"
abbreviation (input) NkTexIMd_NearestNeighbor :: nat where "NkTexIMd_NearestNeighbor \<equiv> 1"
abbreviation (input) NkTexIMd_Bilinear :: nat where "NkTexIMd_Bilinear \<equiv> 2"

record NkRendererResource =
  rr_rdRef :: nat
  rr_resType :: NkRendererResourceType
  rr_resHandle :: nat
  rr_resFlags :: nat

record NkVec2F =
  m_xVal :: rat
  m_yVal :: rat

record NkRectF =
  rf_xCoord :: rat
  rf_yCoord :: rat
  rf_width :: rat
  rf_height :: rat

record NkRendererSpecification =
  rs_wndRef :: nat
  rs_isVSync :: bool
  rs_rendererApi :: nat
  rs_vpExtents :: NkSize2D
  rs_dispTileSize :: NkSize2D
  rs_vpAlignment :: "32 word"
  rs_clearCol :: NkRgbaColor
  rs_texInterMode :: nat

record GdiResources =
  gr_memDC :: nat
  gr_texDC :: nat
  gr_memBmp :: nat
  gr_oldBmp :: nat
  gr_defTexBmp :: nat
  gr_clearBr :: nat
  gr_vpBkgndBr :: nat
  gr_bbDim :: NkSize2D
  gr_vpOri :: NkPoint2D

record GdiRenderer =
  rd_refCount :: int
  rd_wndRef :: nat
  rd_initSpec :: NkRendererSpecification
  rd_currSpec :: NkRendererSpecification
  rd_gdiRes :: GdiResources

record 'g rd_world =
  rw_rds :: "nat \<rightharpoonup> GdiRenderer"
  rw_res :: "nat \<rightharpoonup> NkRendererResource"
  rw_next :: nat
  rw_gdi :: 'g

definition the_rd :: "nat \<Rightarrow> 'g rd_world \<Rightarrow> GdiRenderer outcome" where
  "the_rd a w = (case rw_rds w a of None \<Rightarrow> Undef | Some r \<Rightarrow> Done r)"

definition the_res :: "nat \<Rightarrow> 'g rd_world \<Rightarrow> NkRendererResource outcome" where
  "the_res p w = (case rw_res w p of None \<Rightarrow> Undef | Some r \<Rightarrow> Done r)"

abbreviation put_rd :: "nat \<Rightarrow> GdiRenderer option \<Rightarrow> 'g rd_world \<Rightarrow> 'g rd_world" where
  "put_rd a r w \<equiv> w\<lparr>rw_rds := (rw_rds w)(a := r)\<rparr>"

abbreviation put_res :: "nat \<Rightarrow> NkRendererResource option \<Rightarrow> 'g rd_world \<Rightarrow> 'g rd_world" where
  "put_res p r w \<equiv> w\<lparr>rw_res := (rw_res w)(p := r)\<rparr>"

abbreviation put_gdi :: "'g \<Rightarrow> 'g rd_world \<Rightarrow> 'g rd_world" where
  "put_gdi g w \<equiv> w\<lparr>rw_gdi := g\<rparr>"

subsection \<open>Identifiers\<close>

definition IID_NkIRenderer :: NkUuid where
  "IID_NkIRenderer = [0xfe, 0x4a, 0xcd, 0xb5, 0x27, 0x02, 0x56, 0x4b, 0x26, 0x31, 0xae, 0xf3, 0x41, 0x22, 0xae, 0x9b]"

definition IID_NkIGdiRenderer :: NkUuid where
  "IID_NkIGdiRenderer = [0x99, 0x41, 0xcd, 0xf2, 0xf2, 0xe8, 0xff, 0x45, 0xc6, 0xf2, 0x5a, 0x78, 0xf8, 0x14, 0xec, 0x89]"

definition CLSID_NkIGdiRenderer :: NkUuid where
  "CLSID_NkIGdiRenderer = [0xf5, 0x53, 0x96, 0x81, 0xc1, 0x28, 0xdf, 0x4e, 0xe6, 0xa5, 0x47, 0x3c, 0x61, 0x09, 0x9f, 0xa4]"

subsection \<open>Creating and destroying a GDI renderer\<close>

definition MapToStretchBltMode :: "nat \<Rightarrow> int" where
  "MapToStretchBltMode iMode =
     (if iMode = NkTexIMd_Default \<or> iMode = NkTexIMd_NearestNeighbor then 3 else if iMode = NkTexIMd_Bilinear then 4 else - 1)"

text \<open>Every exit passes the label that releases the device context of the window.\<close>

definition CreateBasicResources ::
    "'g gdi_api \<Rightarrow> 'g wnd_iface \<Rightarrow> NkRendererSpecification \<Rightarrow> 'g \<Rightarrow> NkErrorCode \<times> GdiResources option \<times> 'g" where
  "CreateBasicResources gd wn rdSpecs g =
     (let wndHandle = wi_QueryNativeWindowHandle wn (rs_wndRef rdSpecs) g;
          (wndDC, g) = gd_GetDC gd wndHandle g;
          clDim = wi_GetClientDimensions wn (rs_wndRef rdSpecs) g;
          lbl_END = (\<lambda>errCode res g. (errCode, res, gd_ReleaseDC gd wndHandle wndDC g));
          (memDC, g) = gd_CreateCompatibleDC gd wndDC g
      in if memDC = 0 then lbl_END NkErr_CreateMemDC None g
         else let (memBmp, g) = gd_CreateCompatibleBitmap gd wndDC (int_of64 (m_width clDim)) (int_of64 (m_height clDim)) g
      in if memBmp = 0 then lbl_END NkErr_CreateCompBitmap None g
         else let (oldBmp, g) = gd_SelectObject gd memDC memBmp g;
                  (texDC, g) = gd_CreateCompatibleDC gd wndDC g
      in if texDC = 0 then lbl_END NkErr_CreateMemDC None g
         else let (clBrush, g) = gd_CreateSolidBrush gd (m_rVal (rs_clearCol rdSpecs)) (m_gVal (rs_clearCol rdSpecs)) (m_bVal (rs_clearCol rdSpecs)) g
      in if clBrush = 0 then lbl_END NkErr_CreateBrush None g
         else let (vpBrush, g) = gd_CreateSolidBrush gd 255 255 255 g
      in if vpBrush = 0 then lbl_END NkErr_CreateBrush None (gd_DeleteObject gd clBrush g)
         else let res = \<lparr>gr_memDC = memDC, gr_texDC = texDC, gr_memBmp = memBmp, gr_oldBmp = oldBmp,
                    gr_defTexBmp = gd_GetCurrentBitmap gd texDC g, gr_clearBr = clBrush, gr_vpBkgndBr = vpBrush, gr_bbDim = clDim,
                    gr_vpOri = NkCalculateViewportOrigin (rs_vpAlignment rdSpecs) (rs_vpExtents rdSpecs) (rs_dispTileSize rdSpecs) clDim\<rparr>;
                  g = gd_SetStretchBltMode gd memDC (MapToStretchBltMode (rs_texInterMode rdSpecs)) g
      in lbl_END NkErr_Ok (Some res) g)"

definition GdiRenderer_Destroy :: "'g gdi_api \<Rightarrow> 'g wnd_iface \<Rightarrow> nat \<Rightarrow> 'g rd_world \<Rightarrow> 'g rd_world outcome" where
  "GdiRenderer_Destroy gd wn self w =
     obind (the_rd self w) (\<lambda>r.
       let R = rd_gdiRes r;
           (_, g) = gd_SelectObject gd (gr_texDC R) (gr_defTexBmp R) (rw_gdi w);
           (currBmp, g) = gd_SelectObject gd (gr_memDC R) (gr_oldBmp R) g
       in nk_assert (currBmp = gr_memBmp R) NkErr_ObjectState
         (let g = gd_DeleteObject gd (gr_memBmp R) g;
              g = gd_DeleteObject gd (gr_clearBr R) g;
              g = gd_DeleteObject gd (gr_vpBkgndBr R) g;
              g = gd_DeleteDC gd (gr_memDC R) g;
              g = gd_DeleteDC gd (gr_texDC R) g
          in if rd_wndRef r = 0 then Undef else Done (put_gdi (wi_Release wn (rd_wndRef r) g) w)))"

definition GdiRenderer_AddRef :: "nat \<Rightarrow> 'g rd_world \<Rightarrow> (int \<times> 'g rd_world) outcome" where
  "GdiRenderer_AddRef self w =
     obind (the_rd self w) (\<lambda>r. Done (rd_refCount r + 1, put_rd self (Some (r\<lparr>rd_refCount := rd_refCount r + 1\<rparr>)) w))"

definition GdiRenderer_Release :: "'g gdi_api \<Rightarrow> 'g wnd_iface \<Rightarrow> nat \<Rightarrow> 'g rd_world \<Rightarrow> (int \<times> 'g rd_world) outcome" where
  "GdiRenderer_Release gd wn self w =
     obind (the_rd self w) (\<lambda>r.
       let w = put_rd self (Some (r\<lparr>rd_refCount := rd_refCount r - 1\<rparr>)) w in
       if rd_refCount r - 1 \<le> 0 then obind (GdiRenderer_Destroy gd wn self w) (\<lambda>w. Done (0, put_rd self None w))
       else Done (rd_refCount r - 1, w))"

definition GdiRenderer_QueryInterface :: "nat \<Rightarrow> NkUuid \<Rightarrow> 'g rd_world \<Rightarrow> (NkErrorCode \<times> bool \<times> 'g rd_world) outcome" where
  "GdiRenderer_QueryInterface self iId w =
     (if NkOMQueryImplementationIndex [IID_NkIBase, IID_NkIInitializable, IID_NkIRenderer, IID_NkIGdiRenderer] iId \<noteq> SIZE_MAX
      then obind (GdiRenderer_AddRef self w) (\<lambda>(_, w). Done (NkErr_Ok, True, w))
      else Done (NkErr_InterfaceNotImpl, False, w))"

definition GdiRenderer_Initialize ::
    "'g gdi_api \<Rightarrow> 'g wnd_iface \<Rightarrow> nat \<Rightarrow> NkRendererSpecification option \<Rightarrow> 'g rd_world \<Rightarrow> (NkErrorCode \<times> 'g rd_world) outcome" where
  "GdiRenderer_Initialize gd wn self initParam w =
     (case initParam of None \<Rightarrow> Abort NkErr_InParameter | Some rdSpecs \<Rightarrow>
        let (errCode, gdiRes, g) = CreateBasicResources gd wn rdSpecs (rw_gdi w) in
        case gdiRes of
          None \<Rightarrow> Done (errCode, put_gdi g w)
        | Some R \<Rightarrow> obind (the_rd self w) (\<lambda>r.
            Done (NkErr_Ok, put_rd self (Some \<lparr>rd_refCount = rd_refCount r, rd_wndRef = rs_wndRef rdSpecs, rd_initSpec = rdSpecs,
              rd_currSpec = rdSpecs, rd_gdiRes = R\<rparr>) (put_gdi (wi_AddRef wn (rs_wndRef rdSpecs) g) w))))"

subsection \<open>Queries\<close>

definition GdiRenderer_QueryRendererApi :: nat where
  "GdiRenderer_QueryRendererApi = NkRdApi_Win32GDI"

definition GdiRenderer_QuerySpecification :: "nat \<Rightarrow> 'g rd_world \<Rightarrow> NkRendererSpecification outcome" where
  "GdiRenderer_QuerySpecification self w = obind (the_rd self w) (\<lambda>r. Done (rd_initSpec r))"

definition GdiRenderer_QueryWindow :: "'g wnd_iface \<Rightarrow> nat \<Rightarrow> 'g rd_world \<Rightarrow> (nat \<times> 'g rd_world) outcome" where
  "GdiRenderer_QueryWindow wn self w =
     obind (the_rd self w) (\<lambda>r. if rd_wndRef r = 0 then Undef else Done (rd_wndRef r, put_gdi (wi_AddRef wn (rd_wndRef r) (rw_gdi w)) w))"

definition GdiRenderer_QueryViewportDimensions :: "nat \<Rightarrow> 'g rd_world \<Rightarrow> NkSize2D outcome" where
  "GdiRenderer_QueryViewportDimensions self w =
     obind (the_rd self w) (\<lambda>r. let s = rd_currSpec r in
       Done \<lparr>m_width = m_width (rs_dispTileSize s) * m_width (rs_vpExtents s), m_height = m_height (rs_dispTileSize s) * m_height (rs_vpExtents s)\<rparr>)"

subsection \<open>Drawing\<close>

text \<open>A failure to create the new bitmap leaves the function before the device context of the window is released.\<close>

definition GdiRenderer_Resize ::
    "'g gdi_api \<Rightarrow> 'g wnd_iface \<Rightarrow> nat \<Rightarrow> NkSize2D \<Rightarrow> 'g rd_world \<Rightarrow> (NkErrorCode \<times> 'g rd_world) outcome" where
  "GdiRenderer_Resize gd wn self clAreaSize w =
     obind (the_rd self w) (\<lambda>r.
       let R = rd_gdiRes r; s = rd_currSpec r;
           (_, g) = gd_SelectObject gd (gr_memDC R) (gr_oldBmp R) (rw_gdi w);
           g = gd_DeleteObject gd (gr_memBmp R) g;
           (wndDC, g) = gd_GetDC gd (wi_QueryNativeWindowHandle wn (rd_wndRef r) g) g;
           (memBmp, g) = gd_CreateCompatibleBitmap gd wndDC (int_of64 (m_width clAreaSize)) (int_of64 (m_height clAreaSize)) g;
           R = R\<lparr>gr_memBmp := memBmp\<rparr>
       in if memBmp = 0 then Done (NkErr_CreateCompBitmap, put_rd self (Some (r\<lparr>rd_gdiRes := R\<rparr>)) (put_gdi g w))
          else let (_, g) = gd_SelectObject gd (gr_memDC R) memBmp g;
                   g = gd_ReleaseDC gd (wi_QueryNativeWindowHandle wn (rd_wndRef r) g) wndDC g;
                   R = R\<lparr>gr_bbDim := clAreaSize,
                         gr_vpOri := NkCalculateViewportOrigin (rs_vpAlignment s) (rs_vpExtents s) (rs_dispTileSize s) clAreaSize\<rparr>
               in Done (NkErr_Ok, put_rd self (Some (r\<lparr>rd_gdiRes := R\<rparr>)) (put_gdi g w)))"

definition GdiRenderer_BeginDraw :: "'g gdi_api \<Rightarrow> nat \<Rightarrow> 'g rd_world \<Rightarrow> (NkErrorCode \<times> 'g rd_world) outcome" where
  "GdiRenderer_BeginDraw gd self w =
     obind (the_rd self w) (\<lambda>r.
       let R = rd_gdiRes r; s = rd_currSpec r;
           g = gd_FillRect gd (gr_memDC R) (0, 0, int_of64 (m_width (gr_bbDim R)), int_of64 (m_height (gr_bbDim R))) (gr_clearBr R) (rw_gdi w);
           vpw = m_width (rs_vpExtents s) * m_width (rs_dispTileSize s);
           vph = m_height (rs_vpExtents s) * m_height (rs_dispTileSize s);
           g = gd_FillRect gd (gr_memDC R)
                 (int_of64 (m_xCoord (gr_vpOri R)), int_of64 (m_yCoord (gr_vpOri R)),
                  int_of64 (m_xCoord (gr_vpOri R) + vpw), int_of64 (m_yCoord (gr_vpOri R) + vph)) (gr_vpBkgndBr R) g
       in Done (NkErr_Ok, put_gdi g w))"

definition GdiRenderer_EndDraw :: "'g gdi_api \<Rightarrow> 'g wnd_iface \<Rightarrow> nat \<Rightarrow> 'g rd_world \<Rightarrow> (NkErrorCode \<times> 'g rd_world) outcome" where
  "GdiRenderer_EndDraw gd wn self w =
     obind (the_rd self w) (\<lambda>r.
       let R = rd_gdiRes r; wnd = wi_QueryNativeWindowHandle wn (rd_wndRef r);
           (windowDC, g) = gd_GetDC gd (wnd (rw_gdi w)) (rw_gdi w);
           g = gd_BitBlt gd windowDC (0, 0, int_of64 (m_width (gr_bbDim R)), int_of64 (m_height (gr_bbDim R))) (gr_memDC R) (0, 0) SRCCOPY g;
           g = gd_ReleaseDC gd (wnd g) windowDC g;
           g = (if rs_isVSync (rd_currSpec r) then gd_DwmFlush gd g else g)
       in Done (NkErr_Ok, put_gdi g w))"


definition NkRendererCompareRectangles :: "NkRectF \<Rightarrow> NkRectF \<Rightarrow> bool" where
  "NkRendererCompareRectangles r1 r2 \<longleftrightarrow> rf_width r1 = rf_width r2 \<and> rf_height r1 = rf_height r2"

text \<open>The source rectangle that is drawn; \<open>tInfo\<close> is the size of the texture.\<close>

definition norm_src_rect :: "int \<times> int \<Rightarrow> NkRectF option \<Rightarrow> NkRectF" where
  "norm_src_rect tInfo srcRect =
     (case srcRect of
        None \<Rightarrow> \<lparr>rf_xCoord = 0, rf_yCoord = 0, rf_width = f32 (of_int (fst tInfo)), rf_height = f32 (of_int (snd tInfo))\<rparr>
      | Some s \<Rightarrow>
          if rf_width s = - 1 \<or> rf_height s = - 1
          then \<lparr>rf_xCoord = rf_xCoord s, rf_yCoord = rf_yCoord s,
                rf_width = (if rf_width s < 0 then f32 (f32 (of_int (fst tInfo)) - rf_width s) else rf_width s),
                rf_height = (if rf_height s < 0 then f32 (f32 (of_int (snd tInfo)) - rf_height s) else rf_height s)\<rparr>
          else s)"

text \<open>The destination in the back buffer: the rectangle moved by the origin of the viewport.\<close>

definition dst_in_buffer :: "GdiResources \<Rightarrow> NkRectF \<Rightarrow> gdi_rect outcome" where
  "dst_in_buffer R d =
     obind (float_to_int (rf_xCoord d)) (\<lambda>x. obind (int_add x (int_of64 (m_xCoord (gr_vpOri R)))) (\<lambda>x.
     obind (float_to_int (rf_yCoord d)) (\<lambda>y. obind (int_add y (int_of64 (m_yCoord (gr_vpOri R)))) (\<lambda>y.
     obind (float_to_int (rf_width d)) (\<lambda>dw. obind (float_to_int (rf_height d)) (\<lambda>dh. Done (x, y, dw, dh)))))))"

definition bind_texture :: "'g gdi_api \<Rightarrow> nat \<Rightarrow> nat \<Rightarrow> 'g \<Rightarrow> 'g" where
  "bind_texture gd texDC h g = (if gd_GetCurrentBitmap gd texDC g \<noteq> h then snd (gd_SelectObject gd texDC h g) else g)"

definition GdiRenderer_DrawTexture ::
    "'g gdi_api \<Rightarrow> nat \<Rightarrow> NkRectF \<Rightarrow> nat \<Rightarrow> NkRectF option \<Rightarrow> 'g rd_world \<Rightarrow> (NkErrorCode \<times> 'g rd_world) outcome" where
  "GdiRenderer_DrawTexture gd self dstRect texPtr srcRect w =
     obind (the_res texPtr w) (\<lambda>tex.
       nk_assert (rr_resType tex = NkRdResTy_Texture) NkErr_InParameter
      (obind (the_rd self w) (\<lambda>r.
         let R = rd_gdiRes r;
             src = norm_src_rect (gd_GetObject gd (rr_resHandle tex) (rw_gdi w)) srcRect;
             g = bind_texture gd (gr_texDC R) (rr_resHandle tex) (rw_gdi w)
         in obind (dst_in_buffer R dstRect) (\<lambda>dst.
            obind (float_to_int (rf_xCoord src)) (\<lambda>sx. obind (float_to_int (rf_yCoord src)) (\<lambda>sy.
            if NkRendererCompareRectangles src dstRect
            then Done (NkErr_Ok, put_gdi (gd_BitBlt gd (gr_memDC R) dst (gr_texDC R) (sx, sy) SRCCOPY g) w)
            else obind (float_to_int (rf_width src)) (\<lambda>sw. obind (float_to_int (rf_height src)) (\<lambda>sh.
                 Done (NkErr_Ok, put_gdi (gd_StretchBlt gd (gr_memDC R) dst (gr_texDC R) (sx, sy, sw, sh) SRCCOPY g) w)))))))))"

text \<open>The quaternary raster operation: copy where the mask is set, keep the destination elsewhere.\<close>

definition GdiRenderer_DrawMaskedTexture ::
    "'g gdi_api \<Rightarrow> nat \<Rightarrow> NkRectF \<Rightarrow> nat \<Rightarrow> NkVec2F \<Rightarrow> nat \<Rightarrow> NkVec2F \<Rightarrow> 'g rd_world \<Rightarrow> (NkErrorCode \<times> 'g rd_world) outcome" where
  "GdiRenderer_DrawMaskedTexture gd self dstRect texPtr srcOff maskPtr maskOff w =
     obind (the_res texPtr w) (\<lambda>tex. obind (the_res maskPtr w) (\<lambda>msk.
       nk_assert (rr_resType tex = NkRdResTy_Texture) NkErr_InParameter
      (nk_assert (rr_resType msk = NkRdResTy_TextureMask) NkErr_InParameter
      (obind (the_rd self w) (\<lambda>r.
         let R = rd_gdiRes r;
             g = bind_texture gd (gr_texDC R) (rr_resHandle tex) (rw_gdi w)
         in obind (dst_in_buffer R dstRect) (\<lambda>dst.
            obind (float_to_int (m_xVal srcOff)) (\<lambda>sx. obind (float_to_int (m_yVal srcOff)) (\<lambda>sy.
            obind (float_to_int (m_xVal maskOff)) (\<lambda>mx. obind (float_to_int (m_yVal maskOff)) (\<lambda>my.
              Done (NkErr_Ok, put_gdi (gd_MaskBlt gd (gr_memDC R) dst (gr_texDC R) (sx, sy) (rr_resHandle msk) (mx, my)
                (push_bit 8 0xAA0000 AND 0xFF000000 OR SRCCOPY) g) w)))))))))))"

subsection \<open>Resources\<close>

definition InternalDeleteResource :: "'g gdi_api \<Rightarrow> 'g wnd_iface \<Rightarrow> nat \<Rightarrow> nat \<Rightarrow> 'g rd_world \<Rightarrow> 'g rd_world outcome" where
  "InternalDeleteResource gd wn self resPtr w =
     obind (the_rd self w) (\<lambda>r. obind (the_res resPtr w) (\<lambda>res.
       let R = rd_gdiRes r in
       if rr_resType res = NkRdResTy_Texture \<or> rr_resType res = NkRdResTy_TextureMask
       then let g = (if gd_GetCurrentBitmap gd (gr_texDC R) (rw_gdi w) = rr_resHandle res
                     then snd (gd_SelectObject gd (gr_texDC R) (gr_defTexBmp R) (rw_gdi w)) else rw_gdi w);
                g = gd_DeleteObject gd (rr_resHandle res) g
            in obind (GdiRenderer_Release gd wn (rr_rdRef res) (put_gdi g w)) (\<lambda>(_, w). Done w)
       else Abort NkErr_InOutParameter))"

text \<open>\<open>poolRes\<close> is the answer of the pool allocator.  The result is the resource to initialise.\<close>

definition AppropriateResource ::
    "'g gdi_api \<Rightarrow> 'g wnd_iface \<Rightarrow> NkErrorCode \<Rightarrow> nat \<Rightarrow> nat option \<Rightarrow> 'g rd_world \<Rightarrow> (NkErrorCode \<times> nat option \<times> 'g rd_world) outcome" where
  "AppropriateResource gd wn poolRes self resPtr w =
     (case resPtr of
        Some p \<Rightarrow> obind (InternalDeleteResource gd wn self p w) (\<lambda>w. Done (NkErr_Ok, Some p, w))
      | None \<Rightarrow> if poolRes \<noteq> NkErr_Ok then Done (poolRes, None, w)
                else Done (NkErr_Ok, Some (rw_next w), w\<lparr>rw_next := Suc (rw_next w)\<rparr>))"

definition RefInstance :: "nat \<Rightarrow> 'g rd_world \<Rightarrow> (nat \<times> 'g rd_world) outcome" where
  "RefInstance self w = obind (GdiRenderer_AddRef self w) (\<lambda>(_, w). Done (self, w))"

text \<open>The last step of the two functions that create resources.\<close>

definition init_resource ::
    "nat \<Rightarrow> NkRendererResourceType \<Rightarrow> nat \<Rightarrow> nat option \<Rightarrow> 'g rd_world \<Rightarrow> (NkErrorCode \<times> nat option \<times> 'g rd_world) outcome" where
  "init_resource self ty h resPtr w =
     (case resPtr of None \<Rightarrow> Undef
      | Some p \<Rightarrow> obind (RefInstance self w) (\<lambda>(rd, w).
          Done (NkErr_Ok, Some p, put_res p (Some \<lparr>rr_rdRef = rd, rr_resType = ty, rr_resHandle = h, rr_resFlags = 0\<rparr>) w)))"

definition GdiRenderer_CreateTexture ::
    "'g gdi_api \<Rightarrow> 'g wnd_iface \<Rightarrow> NkErrorCode \<Rightarrow> nat \<Rightarrow> NkDIBitmap \<Rightarrow> nat option \<Rightarrow> 'g rd_world
     \<Rightarrow> (NkErrorCode \<times> nat option \<times> 'g rd_world) outcome" where
  "GdiRenderer_CreateTexture gd wn poolRes self dibPtr resourcePtr w =
     obind (the_rd self w) (\<lambda>r.
       let bmSpecs = NkDIBitmapGetSpecification dibPtr;
           (ddTex, g) = gd_CreateCompatibleBitmap gd (gr_memDC (rd_gdiRes r)) (m_bmpWidth bmSpecs) (m_bmpHeight bmSpecs) (rw_gdi w)
       in if ddTex = 0 then Done (NkErr_CreateCompBitmap, resourcePtr, put_gdi g w)
          else let (dibPixels, dibPxBufSize) = NkDIBitmapGetPixels dibPtr;
                   (cLinesCopied, g) = gd_SetDIBits gd ddTex (m_bmpHeight bmSpecs) dibPixels
                     \<lparr>biWidth = m_bmpWidth bmSpecs, biHeight = m_bmpHeight bmSpecs, biBitCount = m_bitsPerPx bmSpecs, biSizeImage = dibPxBufSize\<rparr> g
               in if cLinesCopied \<noteq> m_bmpHeight bmSpecs
                  then Done (NkErr_CreateDDBFromDIB, resourcePtr, put_gdi (gd_DeleteObject gd ddTex g) w)
                  else obind (AppropriateResource gd wn poolRes self resourcePtr (put_gdi g w)) (\<lambda>(errCode, p, w).
                         if errCode \<noteq> NkErr_Ok then Done (errCode, p, put_gdi (gd_DeleteObject gd ddTex (rw_gdi w)) w)
                         else init_resource self NkRdResTy_Texture ddTex p w))"

definition GdiRenderer_CreateTextureMask ::
    "'g gdi_api \<Rightarrow> 'g wnd_iface \<Rightarrow> NkErrorCode \<Rightarrow> nat \<Rightarrow> nat \<Rightarrow> NkRgbaColor \<Rightarrow> nat option \<Rightarrow> 'g rd_world
     \<Rightarrow> (NkErrorCode \<times> nat option \<times> 'g rd_world) outcome" where
  "GdiRenderer_CreateTextureMask gd wn poolRes self texPtr colKey resourcePtr w =
     obind (the_res texPtr w) (\<lambda>tex.
       nk_assert (rr_resType tex = NkRdResTy_Texture) NkErr_InParameter
      (obind (the_rd self w) (\<lambda>r.
         let R = rd_gdiRes r;
             (bmWidth, bmHeight) = gd_GetObject gd (rr_resHandle tex) (rw_gdi w);
             (monoBmp, g) = gd_CreateBitmap gd bmWidth bmHeight (rw_gdi w)
         in if monoBmp = 0 then Done (NkErr_CreateCompBitmap, resourcePtr, put_gdi g w)
            else let (oldCol, g) = gd_SetBkColor gd (gr_texDC R) (m_rVal colKey, m_gVal colKey, m_bVal colKey) g;
                     (oldObj, g) = gd_SelectObject gd (gr_texDC R) (rr_resHandle tex) g;
                     (oldBmp, g) = gd_SelectObject gd (gr_memDC R) monoBmp g;
                     g = gd_BitBlt gd (gr_memDC R) (0, 0, bmWidth, bmHeight) (gr_texDC R) (0, 0) NOTSRCCOPY g;
                     (_, g) = gd_SelectObject gd (gr_memDC R) oldBmp g;
                     (_, g) = gd_SelectObject gd (gr_texDC R) oldObj g;
                     (_, g) = gd_SetBkColor gd (gr_texDC R) oldCol g
                 in obind (AppropriateResource gd wn poolRes self resourcePtr (put_gdi g w)) (\<lambda>(errCode, p, w).
                      if errCode \<noteq> NkErr_Ok then Done (errCode, p, w)
                      else init_resource self NkRdResTy_TextureMask monoBmp p w))))"

definition GdiRenderer_DeleteResource ::
    "'g gdi_api \<Rightarrow> 'g wnd_iface \<Rightarrow> nat \<Rightarrow> nat option \<Rightarrow> 'g rd_world \<Rightarrow> (NkErrorCode \<times> nat option \<times> 'g rd_world) outcome" where
  "GdiRenderer_DeleteResource gd wn self resourcePtr w =
     (case resourcePtr of None \<Rightarrow> Abort NkErr_InOutParameter
      | Some p \<Rightarrow> obind (the_res p w) (\<lambda>res.
          nk_assert (rr_rdRef res = self) NkErr_InOutParameter
         (obind (InternalDeleteResource gd wn self p w) (\<lambda>w. Done (NkErr_Ok, None, put_res p None w)))))"

definition GdiRenderer_GrabFramebuffer ::
    "'g gdi_api \<Rightarrow> heap_answer \<Rightarrow> nat \<Rightarrow> 'g rd_world \<Rightarrow> (NkErrorCode \<times> NkDIBitmap option \<times> 'g rd_world) outcome" where
  "GdiRenderer_GrabFramebuffer gd heap self w =
     obind (the_rd self w) (\<lambda>r.
       let R = rd_gdiRes r; bw = int_of64 (m_width (gr_bbDim R)); bh = int_of64 (m_height (gr_bbDim R)) in
       obind (NkDIBitmapCreate heap \<lparr>bs_structSize = 48, m_bmpWidth = bw, m_bmpHeight = bh, m_bmpStride = 0, m_bitsPerPx = 32,
           m_bmpFlags = NkBmpFlag_Flipped, m_redMask = 0, m_greenMask = 0, m_blueMask = 0, m_alphaMask = 0\<rparr> None) (\<lambda>(errCode, res).
         if errCode \<noteq> NkErr_Ok then Done (errCode, res, w)
         else case res of None \<Rightarrow> Undef
              | Some bmp \<Rightarrow>
                  let g = gd_GdiFlush gd (rw_gdi w);
                      (currFB, g) = gd_SelectObject gd (gr_memDC R) (gr_oldBmp R) g;
                      (pxBuf, pxBufSz) = NkDIBitmapGetPixels bmp;
                      (cLinesCopied, pxBuf, g) = gd_GetDIBits gd (gr_memDC R) currFB (unat (ucast (m_height (gr_bbDim R)) :: 32 word))
                        \<lparr>biWidth = bw, biHeight = bh, biBitCount = 32, biSizeImage = pxBufSz\<rparr> pxBuf g;
                      (_, g) = gd_SelectObject gd (gr_memDC R) currFB g
                  in Done (errCode, Some (bmp\<lparr>mp_pxArray := pxBuf\<rparr>), put_gdi g w)))"

subsection \<open>The factory\<close>

datatype rd_obj = RdFactory | RdAt nat

definition RendererFactory_QueryInterface :: "NkUuid \<Rightarrow> NkErrorCode" where
  "RendererFactory_QueryInterface iId =
     (if NkUuidIsEqual iId IID_NkIBase \<or> NkUuidIsEqual iId IID_NkIClassFactory then NkErr_Ok else NkErr_InterfaceNotImpl)"

text \<open>The address of the class identifier is an argument.\<close>

definition RendererFactory_QueryInstantiableClasses :: "64 word \<Rightarrow> (64 word \<times> NkUuid) list" where
  "RendererFactory_QueryInstantiableClasses clsAddr = [(clsAddr, CLSID_NkIGdiRenderer)]"

text \<open>The loop runs over all entries of the table; comparing with the NULL entry at its end fails an assertion.\<close>

fun inst_cls_loop :: "NkUuid option list \<Rightarrow> NkUuid \<Rightarrow> bool outcome" where
  "inst_cls_loop [] clsId = Done False"
| "inst_cls_loop (None # tbl) clsId = Abort NkErr_InParameter"
| "inst_cls_loop (Some u # tbl) clsId = (if NkUuidIsEqual u clsId then Done True else inst_cls_loop tbl clsId)"

text \<open>The zeroed memory of a new renderer.\<close>

definition zero_spec :: NkRendererSpecification where
  "zero_spec = \<lparr>rs_wndRef = 0, rs_isVSync = False, rs_rendererApi = NkRdApi_Unknown, rs_vpExtents = \<lparr>m_width = 0, m_height = 0\<rparr>,
     rs_dispTileSize = \<lparr>m_width = 0, m_height = 0\<rparr>, rs_vpAlignment = 0, rs_clearCol = \<lparr>m_rVal = 0, m_gVal = 0, m_bVal = 0, m_aVal = 0\<rparr>,
     rs_texInterMode = NkTexIMd_Default\<rparr>"

definition zero_renderer :: GdiRenderer where
  "zero_renderer = \<lparr>rd_refCount = 0, rd_wndRef = 0, rd_initSpec = zero_spec, rd_currSpec = zero_spec,
     rd_gdiRes = \<lparr>gr_memDC = 0, gr_texDC = 0, gr_memBmp = 0, gr_oldBmp = 0, gr_defTexBmp = 0, gr_clearBr = 0, gr_vpBkgndBr = 0,
       gr_bbDim = \<lparr>m_width = 0, m_height = 0\<rparr>, gr_vpOri = \<lparr>m_xCoord = 0, m_yCoord = 0\<rparr>\<rparr>\<rparr>"

definition sizeof_GdiRenderer :: nat where
  "sizeof_GdiRenderer = 256"

definition RendererFactory_CreateInstance ::
    "heap_answer \<Rightarrow> NkUuid \<Rightarrow> 'g rd_world \<Rightarrow> (NkErrorCode \<times> nat option \<times> 'g rd_world) outcome" where
  "RendererFactory_CreateInstance heap clsId w =
     obind (inst_cls_loop [Some CLSID_NkIGdiRenderer, None] clsId) (\<lambda>found.
       if \<not> found then Done (NkErr_UnknownClass, None, w)
       else obind (NkGPAlloc heap sizeof_GdiRenderer 0) (\<lambda>eCode.
         if eCode \<noteq> NkErr_Ok then Done (eCode, None, w)
         else let a = rw_next w in
           obind (GdiRenderer_AddRef a (put_rd a (Some zero_renderer) (w\<lparr>rw_next := Suc a\<rparr>))) (\<lambda>(_, w). Done (NkErr_Ok, Some a, w))))"


text \<open>The virtual functions as the object model calls them.  A call that does not return leaves its outcome behind, and
  nothing happens after it.\<close>

record 'g rd_objs =
  ro_world :: "'g rd_world"
  ro_fault :: "unit outcome"

type_synonym 'g rd_om = "(rd_obj, 'g rd_objs) om_context"

definition ro_step :: "('g rd_world \<Rightarrow> ('a \<times> 'g rd_world) outcome) \<Rightarrow> 'a \<Rightarrow> 'g rd_om \<Rightarrow> 'a \<times> 'g rd_om" where
  "ro_step f d st =
     (let s = om_objs st; stop = (\<lambda>e. (d, st\<lparr>om_objs := s\<lparr>ro_fault := e\<rparr>\<rparr>)) in
      case ro_fault s of
        Done _ \<Rightarrow> (case f (ro_world s) of
            Done (x, w) \<Rightarrow> (x, st\<lparr>om_objs := s\<lparr>ro_world := w\<rparr>\<rparr>)
          | Abort e \<Rightarrow> stop (Abort e) | Undef \<Rightarrow> stop Undef | Hang \<Rightarrow> stop Hang)
      | _ \<Rightarrow> (d, st))"

definition rd_QueryInterface :: "rd_obj \<Rightarrow> NkUuid \<Rightarrow> 'g rd_om \<Rightarrow> NkErrorCode \<times> rd_obj option \<times> 'g rd_om" where
  "rd_QueryInterface ob iId st =
     (case ob of
        RdFactory \<Rightarrow> (let ec = RendererFactory_QueryInterface iId in (ec, if ec = NkErr_Ok then Some ob else None, st))
      | RdAt a \<Rightarrow>
          let ((ec, found), st) = ro_step (\<lambda>w. obind (GdiRenderer_QueryInterface a iId w) (\<lambda>(ec, f, w). Done ((ec, f), w))) (NkErr_Unknown, False) st
          in (ec, if found then Some ob else None, st))"

definition rd_AddRef :: "rd_obj \<Rightarrow> 'g rd_om \<Rightarrow> 'g rd_om" where
  "rd_AddRef ob st = (case ob of RdFactory \<Rightarrow> st | RdAt a \<Rightarrow> snd (ro_step (GdiRenderer_AddRef a) 0 st))"

definition rd_Release :: "'g gdi_api \<Rightarrow> 'g wnd_iface \<Rightarrow> rd_obj \<Rightarrow> 'g rd_om \<Rightarrow> 'g rd_om" where
  "rd_Release gd wn ob st = (case ob of RdFactory \<Rightarrow> st | RdAt a \<Rightarrow> snd (ro_step (GdiRenderer_Release gd wn a) 0 st))"

definition rd_vt :: "'g gdi_api \<Rightarrow> 'g wnd_iface \<Rightarrow> heap_answer \<Rightarrow> 64 word \<Rightarrow> (rd_obj, NkRendererSpecification, 'g rd_objs) om_vt" where
  "rd_vt gd wn heap clsAddr =
     \<lparr>om_QueryInterface = rd_QueryInterface, om_AddRef = rd_AddRef, om_Release = rd_Release gd wn,
      om_Initialize = (\<lambda>ob ip st. case ob of RdFactory \<Rightarrow> ro_step (\<lambda>w. Undef) NkErr_Unknown st
        | RdAt a \<Rightarrow> ro_step (GdiRenderer_Initialize gd wn a ip) NkErr_Unknown st),
      om_QueryInstantiableClasses = (\<lambda>ob st. (RendererFactory_QueryInstantiableClasses clsAddr, st)),
      om_CreateInstance = (\<lambda>ob clsId ctrlInst st.
        let ((ec, r), st) = ro_step (\<lambda>w. obind (RendererFactory_CreateInstance heap clsId w) (\<lambda>(ec, r, w). Done ((ec, r), w))) (NkErr_Unknown, None) st
        in (ec, map_option RdAt r, st))\<rparr>"

definition RdFactory_Startup ::
    "'g gdi_api \<Rightarrow> 'g wnd_iface \<Rightarrow> heap_answer \<Rightarrow> byte list \<Rightarrow> 64 word \<Rightarrow> 'g rd_om \<Rightarrow> (NkErrorCode \<times> 'g rd_om) outcome" where
  "RdFactory_Startup gd wn heap behind clsAddr st = NkOMInstallClassFactory heap behind (rd_vt gd wn heap clsAddr) RdFactory st"

definition RdFactory_Shutdown ::
    "'g gdi_api \<Rightarrow> 'g wnd_iface \<Rightarrow> heap_answer \<Rightarrow> byte list \<Rightarrow> 64 word \<Rightarrow> 'g rd_om \<Rightarrow> (NkErrorCode \<times> 'g rd_om) outcome" where
  "RdFactory_Shutdown gd wn heap behind clsAddr st = NkOMUninstallClassFactory behind (rd_vt gd wn heap clsAddr) RdFactory st"

definition NkRendererQueryAvailablePlatformApis :: "nat \<times> nat list" where
  "NkRendererQueryAvailablePlatformApis = (1, [NkRdApi_Win32GDI])"

definition NkRendererQueryDefaultPlatformApi :: nat where
  "NkRendererQueryDefaultPlatformApi = NkRdApi_Win32GDI"

definition NkRendererQueryCLSIDFromApi :: "64 word \<Rightarrow> nat \<Rightarrow> (64 word \<times> NkUuid) option" where
  "NkRendererQueryCLSIDFromApi clsAddr apiIdent = (if apiIdent = NkRdApi_Win32GDI then Some (clsAddr, CLSID_NkIGdiRenderer) else None)"

text \<open>How the window makes its renderer.  An interface without implementation has no class identifier, and passing NULL
  on fails an assertion.\<close>

definition rd_result :: "NkErrorCode \<times> rd_obj option \<times> 'g rd_om \<Rightarrow> (NkErrorCode \<times> rd_obj option \<times> 'g rd_om) outcome" where
  "rd_result res = (case ro_fault (om_objs (snd (snd res))) of Done _ \<Rightarrow> Done res | Abort e \<Rightarrow> Abort e | Undef \<Rightarrow> Undef | Hang \<Rightarrow> Hang)"

definition create_renderer ::
    "'g gdi_api \<Rightarrow> 'g wnd_iface \<Rightarrow> heap_answer \<Rightarrow> byte list \<Rightarrow> 64 word \<Rightarrow> NkRendererSpecification \<Rightarrow> 'g rd_om
     \<Rightarrow> (NkErrorCode \<times> rd_obj option \<times> 'g rd_om) outcome" where
  "create_renderer gd wn heap behind clsAddr rdSpecs st =
     (case NkRendererQueryCLSIDFromApi clsAddr (rs_rendererApi rdSpecs) of
        None \<Rightarrow> nk_assert (om_isInitialized st) NkErr_ComponentState (Abort NkErr_InParameter)
      | Some clsId \<Rightarrow> obind (NkOMCreateInstance behind (rd_vt gd wn heap clsAddr) clsId None IID_NkIRenderer (Some rdSpecs) st) rd_result)"

subsection \<open>What GDI promises\<close>

text \<open>
  A view of the device state: the bitmap selected into each live device context, the live objects (device contexts
  included) and the bitmap a new memory device context starts with.  The laws are what the documentation of GDI says of
  the functions: a creating function returns NULL or a new handle, \<open>SelectObject\<close> exchanges the selection of a device
  context if no other one holds the bitmap, \<open>DeleteObject\<close> frees an object that is not selected, and drawing
  changes neither.
\<close>

record 'g gdi_view =
  gv_sel :: "'g \<Rightarrow> nat \<rightharpoonup> nat"
  gv_live :: "'g \<Rightarrow> nat set"
  gv_def :: nat

definition keeps :: "'g gdi_view \<Rightarrow> ('g \<Rightarrow> 'g) \<Rightarrow> bool" where
  "keeps v f \<longleftrightarrow> (\<forall>g. gv_sel v (f g) = gv_sel v g \<and> gv_live v (f g) = gv_live v g)"

definition creates :: "'g gdi_view \<Rightarrow> bool \<Rightarrow> ('g \<Rightarrow> nat \<times> 'g) \<Rightarrow> bool" where
  "creates v isDC f \<longleftrightarrow> (\<forall>g h g'. f g = (h, g') \<longrightarrow>
     (if h = 0 then gv_sel v g' = gv_sel v g \<and> gv_live v g' = gv_live v g
      else h \<notin> gv_live v g \<and> h \<noteq> gv_def v \<and> gv_live v g' = insert h (gv_live v g)
         \<and> gv_sel v g' = (if isDC then (gv_sel v g)(h \<mapsto> gv_def v) else gv_sel v g)))"

definition selects :: "'g gdi_view \<Rightarrow> (nat \<Rightarrow> nat \<Rightarrow> 'g \<Rightarrow> nat \<times> 'g) \<Rightarrow> bool" where
  "selects v f \<longleftrightarrow> (\<forall>dc b g old. gv_sel v g dc = Some old \<and> b \<in> insert (gv_def v) (gv_live v g)
     \<and> (b = gv_def v \<or> (\<forall>d. d \<noteq> dc \<longrightarrow> gv_sel v g d \<noteq> Some b))
     \<longrightarrow> fst (f dc b g) = old \<and> gv_sel v (snd (f dc b g)) = (gv_sel v g)(dc \<mapsto> b) \<and> gv_live v (snd (f dc b g)) = gv_live v g)"

definition frees :: "'g gdi_view \<Rightarrow> (nat \<Rightarrow> 'g \<Rightarrow> 'g) \<Rightarrow> (nat \<Rightarrow> 'g \<Rightarrow> 'g) \<Rightarrow> bool" where
  "frees v delObj delDC \<longleftrightarrow>
     (\<forall>h g. h \<notin> ran (gv_sel v g) \<and> h \<notin> dom (gv_sel v g)
        \<longrightarrow> gv_sel v (delObj h g) = gv_sel v g \<and> gv_live v (delObj h g) = gv_live v g - {h})
   \<and> (\<forall>dc g. dc \<in> dom (gv_sel v g) \<longrightarrow> gv_sel v (delDC dc g) = (gv_sel v g)(dc := None) \<and> gv_live v (delDC dc g) = gv_live v g - {dc})"

definition draws_only :: "'g gdi_view \<Rightarrow> 'g gdi_api \<Rightarrow> 'g wnd_iface \<Rightarrow> bool" where
  "draws_only v gd wn \<longleftrightarrow>
     (\<forall>hw. keeps v (\<lambda>g. snd (gd_GetDC gd hw g))) \<and> (\<forall>hw dc. keeps v (gd_ReleaseDC gd hw dc))
   \<and> (\<forall>dc m. keeps v (gd_SetStretchBltMode gd dc m)) \<and> (\<forall>dc c. keeps v (\<lambda>g. snd (gd_SetBkColor gd dc c g)))
   \<and> (\<forall>dc r b. keeps v (gd_FillRect gd dc r b)) \<and> (\<forall>dc r s p k. keeps v (gd_BitBlt gd dc r s p k))
   \<and> (\<forall>dc r s p k. keeps v (gd_StretchBlt gd dc r s p k)) \<and> (\<forall>dc r s p m q k. keeps v (gd_MaskBlt gd dc r s p m q k))
   \<and> (\<forall>b n px hdr. keeps v (\<lambda>g. snd (gd_SetDIBits gd b n px hdr g)))
   \<and> (\<forall>dc b n hdr px. keeps v (\<lambda>g. snd (snd (gd_GetDIBits gd dc b n hdr px g))))
   \<and> keeps v (gd_GdiFlush gd) \<and> keeps v (gd_DwmFlush gd) \<and> (\<forall>o'. keeps v (wi_AddRef wn o')) \<and> (\<forall>o'. keeps v (wi_Release wn o'))"

definition gdi_laws :: "'g gdi_view \<Rightarrow> 'g gdi_api \<Rightarrow> 'g wnd_iface \<Rightarrow> bool" where
  "gdi_laws v gd wn \<longleftrightarrow> gv_def v \<noteq> 0 \<and> draws_only v gd wn \<and> selects v (gd_SelectObject gd) \<and> frees v (gd_DeleteObject gd) (gd_DeleteDC gd)
   \<and> (\<forall>dc. creates v True (gd_CreateCompatibleDC gd dc))
   \<and> (\<forall>dc x y. creates v False (gd_CreateCompatibleBitmap gd dc x y)) \<and> (\<forall>x y. creates v False (gd_CreateBitmap gd x y))
   \<and> (\<forall>x y z. creates v False (gd_CreateSolidBrush gd x y z))
   \<and> (\<forall>dc g b. gv_sel v g dc = Some b \<longrightarrow> gd_GetCurrentBitmap gd dc g = b)"

text \<open>What a renderer relies on of its window: the window is a static object, so that counting references does not touch the device.
  For such a window the laws are those of GDI alone.\<close>

locale window_service =
  fixes wn :: "'g wnd_iface"
  assumes AddRef_id: "wi_AddRef wn a g = g"
    and Release_id: "wi_Release wn a g = g"
begin

lemma laws_of_gdi:
  assumes "gdi_laws v gd wn'"
  shows "gdi_laws v gd wn"
proof -
  have "draws_only v gd wn" using assms AddRef_id Release_id by (simp add: gdi_laws_def draws_only_def keeps_def)
  then show ?thesis using assms by (simp add: gdi_laws_def)
qed

lemma query_window_borrows:
  assumes "rw_rds w self = Some r" "rd_wndRef r \<noteq> 0"
  shows "GdiRenderer_QueryWindow wn self w = Done (rd_wndRef r, w)"
  using assms AddRef_id by (simp add: GdiRenderer_QueryWindow_def the_rd_def)

end

subsection \<open>Laws as rules\<close>

named_theorems nk_gdi \<open>what the device functions do to the view of the device\<close>

lemma gdi_keeps [nk_gdi]:
  assumes "gdi_laws v gd wn"
  shows "gv_sel v (snd (gd_GetDC gd hw g)) = gv_sel v g" "gv_live v (snd (gd_GetDC gd hw g)) = gv_live v g"
    "gv_sel v (gd_ReleaseDC gd hw dc g) = gv_sel v g" "gv_live v (gd_ReleaseDC gd hw dc g) = gv_live v g"
    "gv_sel v (gd_SetStretchBltMode gd dc m g) = gv_sel v g" "gv_live v (gd_SetStretchBltMode gd dc m g) = gv_live v g"
    "gv_sel v (snd (gd_SetBkColor gd dc c g)) = gv_sel v g" "gv_live v (snd (gd_SetBkColor gd dc c g)) = gv_live v g"
    "gv_sel v (gd_FillRect gd dc r b g) = gv_sel v g" "gv_live v (gd_FillRect gd dc r b g) = gv_live v g"
    "gv_sel v (gd_BitBlt gd dc r s p k g) = gv_sel v g" "gv_live v (gd_BitBlt gd dc r s p k g) = gv_live v g"
    "gv_sel v (gd_StretchBlt gd dc r s r' k g) = gv_sel v g" "gv_live v (gd_StretchBlt gd dc r s r' k g) = gv_live v g"
    "gv_sel v (gd_MaskBlt gd dc r s p b q k g) = gv_sel v g" "gv_live v (gd_MaskBlt gd dc r s p b q k g) = gv_live v g"
    "gv_sel v (snd (gd_SetDIBits gd b n' px hdr g)) = gv_sel v g" "gv_live v (snd (gd_SetDIBits gd b n' px hdr g)) = gv_live v g"
    "gv_sel v (snd (snd (gd_GetDIBits gd dc b n hdr px g))) = gv_sel v g" "gv_live v (snd (snd (gd_GetDIBits gd dc b n hdr px g))) = gv_live v g"
    "gv_sel v (gd_GdiFlush gd g) = gv_sel v g" "gv_live v (gd_GdiFlush gd g) = gv_live v g"
    "gv_sel v (gd_DwmFlush gd g) = gv_sel v g" "gv_live v (gd_DwmFlush gd g) = gv_live v g"
    "gv_sel v (wi_AddRef wn o' g) = gv_sel v g" "gv_live v (wi_AddRef wn o' g) = gv_live v g"
    "gv_sel v (wi_Release wn o' g) = gv_sel v g" "gv_live v (wi_Release wn o' g) = gv_live v g"
  using assms by (simp_all add: gdi_laws_def draws_only_def keeps_def del: split_paired_All)

lemma gdi_select:
  assumes "gdi_laws v gd wn" "gv_sel v g dc = Some old" "b \<in> insert (gv_def v) (gv_live v g)"
    "b = gv_def v \<or> (\<forall>d. d \<noteq> dc \<longrightarrow> gv_sel v g d \<noteq> Some b)"
  shows "fst (gd_SelectObject gd dc b g) = old" "gv_sel v (snd (gd_SelectObject gd dc b g)) = (gv_sel v g)(dc \<mapsto> b)"
    "gv_live v (snd (gd_SelectObject gd dc b g)) = gv_live v g"
  using assms unfolding gdi_laws_def selects_def by blast+

lemma gdi_current: "gdi_laws v gd wn \<Longrightarrow> gv_sel v g dc = Some b \<Longrightarrow> gd_GetCurrentBitmap gd dc g = b"
  by (simp add: gdi_laws_def)

lemma gdi_delete:
  assumes "gdi_laws v gd wn" "h \<notin> ran (gv_sel v g)" "h \<notin> dom (gv_sel v g)"
  shows "gv_sel v (gd_DeleteObject gd h g) = gv_sel v g" "gv_live v (gd_DeleteObject gd h g) = gv_live v g - {h}"
  using assms by (simp_all add: gdi_laws_def frees_def)

lemma gdi_deleteDC:
  assumes "gdi_laws v gd wn" "dc \<in> dom (gv_sel v g)"
  shows "gv_sel v (gd_DeleteDC gd dc g) = (gv_sel v g)(dc := None)" "gv_live v (gd_DeleteDC gd dc g) = gv_live v g - {dc}"
  using assms by (simp_all add: gdi_laws_def frees_def)

lemma creates_cases:
  assumes "creates v isDC f" "f g = (h, g')"
  obtains "h = 0" "gv_sel v g' = gv_sel v g" "gv_live v g' = gv_live v g"
  | "h \<noteq> 0" "h \<notin> gv_live v g" "h \<noteq> gv_def v" "gv_live v g' = insert h (gv_live v g)"
    "gv_sel v g' = (if isDC then (gv_sel v g)(h \<mapsto> gv_def v) else gv_sel v g)"
  using assms unfolding creates_def by (metis (full_types))

lemma gdi_creates:
  assumes "gdi_laws v gd wn"
  shows "creates v True (gd_CreateCompatibleDC gd dc)" "creates v False (gd_CreateCompatibleBitmap gd dc x y)"
    "creates v False (gd_CreateBitmap gd x y)" "creates v False (gd_CreateSolidBrush gd a b c)"
  using assms by (simp_all add: gdi_laws_def)

subsection \<open>The invariant of a renderer\<close>

text \<open>\<open>S0\<close> and \<open>L0\<close> are the selections and the objects that belong to others.  The device holds them, the five objects of
  the renderer and one object per resource, nothing else.\<close>

definition basic_objs :: "GdiResources \<Rightarrow> nat list" where
  "basic_objs R = [gr_memDC R, gr_texDC R, gr_memBmp R, gr_clearBr R, gr_vpBkgndBr R]"

definition res_handles :: "(nat \<rightharpoonup> NkRendererResource) \<Rightarrow> nat set" where
  "res_handles M = rr_resHandle ` ran M"

definition rd_device :: "'g gdi_view \<Rightarrow> (nat \<rightharpoonup> nat) \<Rightarrow> nat set \<Rightarrow> GdiResources \<Rightarrow> nat set \<Rightarrow> nat \<Rightarrow> 'g \<Rightarrow> bool" where
  "rd_device v S0 L0 R H t g \<longleftrightarrow>
     gv_sel v g = S0(gr_memDC R \<mapsto> gr_memBmp R, gr_texDC R \<mapsto> t) \<and> gv_live v g = L0 \<union> set (basic_objs R) \<union> H
   \<and> t \<in> insert (gv_def v) H \<and> distinct (basic_objs R) \<and> L0 \<inter> set (basic_objs R) = {} \<and> (L0 \<union> set (basic_objs R)) \<inter> H = {}
   \<and> gr_oldBmp R = gv_def v \<and> gr_defTexBmp R = gv_def v
   \<and> dom S0 \<subseteq> L0 \<and> ran S0 \<subseteq> insert (gv_def v) L0 \<and> gv_def v \<notin> gv_live v g \<and> gr_memBmp R \<noteq> 0"

definition distinct_handles :: "(nat \<rightharpoonup> NkRendererResource) \<Rightarrow> bool" where
  "distinct_handles M \<longleftrightarrow> (\<forall>p q res res'. M p = Some res \<longrightarrow> M q = Some res' \<longrightarrow> rr_resHandle res = rr_resHandle res' \<longrightarrow> p = q)"

lemma res_handles_iff: "h \<in> res_handles M \<longleftrightarrow> (\<exists>p res. M p = Some res \<and> rr_resHandle res = h)"
  by (auto simp: res_handles_def ran_def)

text \<open>\<open>n\<close> is the number of references that clients hold and \<open>X\<close> are objects that belong to no resource (yet).\<close>

definition rd_inv :: "'g gdi_view \<Rightarrow> (nat \<rightharpoonup> nat) \<Rightarrow> nat set \<Rightarrow> nat \<Rightarrow> nat \<Rightarrow> nat set \<Rightarrow> 'g rd_world \<Rightarrow> bool" where
  "rd_inv v S0 L0 a n X w \<longleftrightarrow> (\<exists>r t. rw_rds w a = Some r \<and> rd_wndRef r \<noteq> 0 \<and> t \<notin> X
     \<and> rd_device v S0 L0 (rd_gdiRes r) (res_handles (rw_res w) \<union> X) t (rw_gdi w) \<and> res_handles (rw_res w) \<inter> X = {}
     \<and> finite (dom (rw_res w)) \<and> rd_refCount r = int n + int (card (dom (rw_res w)))
     \<and> (\<forall>p res. rw_res w p = Some res \<longrightarrow> rr_rdRef res = a \<and> rr_resType res \<noteq> NkRdResTy_None \<and> p < rw_next w)
     \<and> distinct_handles (rw_res w))"

text \<open>Selecting the default bitmap, a texture or the back buffer.\<close>

lemma sel_tex:
  assumes "gdi_laws v gd wn" "rd_device v S0 L0 R H t g" "b \<in> insert (gv_def v) H"
  shows "fst (gd_SelectObject gd (gr_texDC R) b g) = t" "rd_device v S0 L0 R H b (snd (gd_SelectObject gd (gr_texDC R) b g))"
proof -
  have s: "gv_sel v g (gr_texDC R) = Some t" using assms(2) by (simp add: rd_device_def)
  have b: "b \<in> insert (gv_def v) (gv_live v g)" using assms(2,3) by (auto simp: rd_device_def)
  have o: "b = gv_def v \<or> (\<forall>d. d \<noteq> gr_texDC R \<longrightarrow> gv_sel v g d \<noteq> Some b)"
    using assms(2,3) by (auto simp: rd_device_def basic_objs_def ran_def)
  from gdi_select[OF assms(1) s b o] show "fst (gd_SelectObject gd (gr_texDC R) b g) = t"
    "rd_device v S0 L0 R H b (snd (gd_SelectObject gd (gr_texDC R) b g))"
    using assms(2,3) by (auto simp: rd_device_def)
qed


lemma dev_cong:
  "gv_sel v g' = gv_sel v g \<Longrightarrow> gv_live v g' = gv_live v g \<Longrightarrow> rd_device v S0 L0 R H t g' = rd_device v S0 L0 R H t g"
  by (simp add: rd_device_def)

lemma dev_keeps [simp]:
  assumes "gdi_laws v gd wn"
  shows "rd_device v S0 L0 R H t (snd (gd_GetDC gd hw g)) = rd_device v S0 L0 R H t g"
    "rd_device v S0 L0 R H t (gd_ReleaseDC gd hw dc g) = rd_device v S0 L0 R H t g"
    "rd_device v S0 L0 R H t (snd (gd_SetBkColor gd dc c g)) = rd_device v S0 L0 R H t g"
    "rd_device v S0 L0 R H t (gd_FillRect gd dc rc b g) = rd_device v S0 L0 R H t g"
    "rd_device v S0 L0 R H t (gd_BitBlt gd dc rc s p k g) = rd_device v S0 L0 R H t g"
    "rd_device v S0 L0 R H t (gd_StretchBlt gd dc rc s rc' k g) = rd_device v S0 L0 R H t g"
    "rd_device v S0 L0 R H t (gd_MaskBlt gd dc rc s p b q k g) = rd_device v S0 L0 R H t g"
    "rd_device v S0 L0 R H t (snd (gd_SetDIBits gd b n' px hdr g)) = rd_device v S0 L0 R H t g"
    "rd_device v S0 L0 R H t (gd_GdiFlush gd g) = rd_device v S0 L0 R H t g"
    "rd_device v S0 L0 R H t (gd_DwmFlush gd g) = rd_device v S0 L0 R H t g"
    "rd_device v S0 L0 R H t (wi_AddRef wn o' g) = rd_device v S0 L0 R H t g"
  by (intro dev_cong gdi_keeps[OF assms])+

lemma dev_create:
  assumes "creates v False f" "rd_device v S0 L0 R H t g" "f g = (h, g')"
  obtains "h = 0" "rd_device v S0 L0 R H t g'" | "h \<noteq> 0" "h \<notin> H" "h \<noteq> t" "rd_device v S0 L0 R (insert h H) t g'"
proof (cases rule: creates_cases[OF assms(1,3)])
  case 1
  show ?thesis by (rule that(1)[OF 1(1) iffD2[OF dev_cong[OF 1(2,3)] assms(2)]])
next
  case 2
  have "rd_device v S0 L0 R (insert h H) t g'" using assms(2) 2 by (auto simp: rd_device_def)
  moreover have "h \<notin> H" "h \<noteq> t" using assms(2) 2 by (auto simp: rd_device_def)
  ultimately show ?thesis using that(2) 2(1) by blast
qed

lemma dev_delete:
  assumes "gdi_laws v gd wn" "rd_device v S0 L0 R H t g" "h \<in> H" "h \<noteq> t"
  shows "rd_device v S0 L0 R (H - {h}) t (gd_DeleteObject gd h g)"
proof -
  have "h \<notin> ran (gv_sel v g)" "h \<notin> dom (gv_sel v g)"
    using assms by (auto simp: rd_device_def basic_objs_def ran_def)
  from gdi_delete[OF assms(1) this] show ?thesis using assms(2-4) by (auto simp: rd_device_def)
qed

text \<open>The back buffer is taken out of its device context for a moment and put back.\<close>

lemma sel_mem:
  assumes "gdi_laws v gd wn" "rd_device v S0 L0 R H t g" "b \<in> insert (gv_def v) H" "b = gv_def v \<or> b \<noteq> t"
  shows "fst (gd_SelectObject gd (gr_memDC R) b g) = gr_memBmp R"
    "gv_sel v (snd (gd_SelectObject gd (gr_memDC R) b g)) = (gv_sel v g)(gr_memDC R \<mapsto> b)"
    "gv_live v (snd (gd_SelectObject gd (gr_memDC R) b g)) = gv_live v g"
proof -
  have s: "gv_sel v g (gr_memDC R) = Some (gr_memBmp R)" using assms(2) by (simp add: rd_device_def basic_objs_def)
  have b: "b \<in> insert (gv_def v) (gv_live v g)" using assms(2,3) by (auto simp: rd_device_def)
  have o: "b = gv_def v \<or> (\<forall>d. d \<noteq> gr_memDC R \<longrightarrow> gv_sel v g d \<noteq> Some b)"
    using assms(2-4) by (auto simp: rd_device_def basic_objs_def ran_def)
  from gdi_select[OF assms(1) s b o] show "fst (gd_SelectObject gd (gr_memDC R) b g) = gr_memBmp R"
    "gv_sel v (snd (gd_SelectObject gd (gr_memDC R) b g)) = (gv_sel v g)(gr_memDC R \<mapsto> b)"
    "gv_live v (snd (gd_SelectObject gd (gr_memDC R) b g)) = gv_live v g" .
qed

lemma sel_mem_back:
  assumes "gdi_laws v gd wn" "rd_device v S0 L0 R H t g" "gv_sel v g2 = (gv_sel v g)(gr_memDC R \<mapsto> b)" "gv_live v g2 = gv_live v g"
  shows "rd_device v S0 L0 R H t (snd (gd_SelectObject gd (gr_memDC R) (gr_memBmp R) g2))"
proof -
  have s: "gv_sel v g2 (gr_memDC R) = Some b" using assms(3) by simp
  have m: "gr_memBmp R \<in> insert (gv_def v) (gv_live v g2)" using assms(2,4) by (auto simp: rd_device_def basic_objs_def)
  have o: "gr_memBmp R = gv_def v \<or> (\<forall>d. d \<noteq> gr_memDC R \<longrightarrow> gv_sel v g2 d \<noteq> Some (gr_memBmp R))"
    using assms(2,3) by (auto simp: rd_device_def basic_objs_def ran_def)
  have "gv_sel v g (gr_memDC R) = Some (gr_memBmp R)" using assms(2) by (simp add: rd_device_def basic_objs_def)
  then have "(gv_sel v g2)(gr_memDC R \<mapsto> gr_memBmp R) = gv_sel v g" using assms(3) by (simp add: fun_upd_idem)
  with gdi_select(2,3)[OF assms(1) s m o] assms(4) show ?thesis
    by (intro iffD2[OF dev_cong assms(2)]) simp_all
qed


subsection \<open>Every operation keeps the invariant\<close>

lemma put_gdi_inv:
  assumes "rd_inv v S0 L0 a n X w" "\<And>r t. rw_rds w a = Some r \<Longrightarrow> rd_device v S0 L0 (rd_gdiRes r) (res_handles (rw_res w) \<union> X) t (rw_gdi w)
     \<Longrightarrow> \<exists>t'. t' \<notin> X \<and> rd_device v S0 L0 (rd_gdiRes r) (res_handles (rw_res w) \<union> X) t' g"
  shows "rd_inv v S0 L0 a n X (put_gdi g w)"
  using assms unfolding rd_inv_def distinct_handles_def by fastforce

lemma AddRef_inv:
  assumes "rd_inv v S0 L0 a n X w"
  shows "\<exists>c w'. GdiRenderer_AddRef a w = Done (c, w') \<and> rd_inv v S0 L0 a (Suc n) X w'"
  using assms by (auto simp: rd_inv_def GdiRenderer_AddRef_def the_rd_def distinct_handles_def)

lemma Release_inv:
  assumes "rd_inv v S0 L0 a (Suc n) X w" "0 < n \<or> rw_res w \<noteq> Map.empty"
  shows "\<exists>c w'. GdiRenderer_Release gd wn a w = Done (c, w') \<and> rd_inv v S0 L0 a n X w'"
proof -
  obtain r where r: "rw_rds w a = Some r" "rd_refCount r = int (Suc n) + int (card (dom (rw_res w)))" "finite (dom (rw_res w))"
    using assms(1) by (auto simp: rd_inv_def)
  have "0 < n + card (dom (rw_res w))" using assms(2) r(3) by (auto simp: card_gt_0_iff)
  with r show ?thesis
    using assms(1) by (auto simp: rd_inv_def GdiRenderer_Release_def the_rd_def distinct_handles_def Let_def)
qed

lemma BeginDraw_inv:
  assumes "gdi_laws v gd wn" "rd_inv v S0 L0 a n X w"
  shows "\<exists>w'. GdiRenderer_BeginDraw gd a w = Done (NkErr_Ok, w') \<and> rd_inv v S0 L0 a n X w' \<and> rw_res w' = rw_res w"
  using assms by (auto simp: rd_inv_def GdiRenderer_BeginDraw_def the_rd_def distinct_handles_def Let_def)

lemma EndDraw_inv:
  assumes "gdi_laws v gd wn" "rd_inv v S0 L0 a n X w"
  shows "\<exists>w'. GdiRenderer_EndDraw gd wn a w = Done (NkErr_Ok, w') \<and> rd_inv v S0 L0 a n X w' \<and> rw_res w' = rw_res w"
  using assms by (auto simp: rd_inv_def GdiRenderer_EndDraw_def the_rd_def distinct_handles_def Let_def case_prod_beta)

lemma bind_texture_dev:
  assumes "gdi_laws v gd wn" "rd_device v S0 L0 R H t g" "b \<in> H"
  shows "rd_device v S0 L0 R H b (bind_texture gd (gr_texDC R) b g)"
proof -
  have "gd_GetCurrentBitmap gd (gr_texDC R) g = t"
    using gdi_current[OF assms(1)] assms(2) by (simp add: rd_device_def)
  then show ?thesis using sel_tex[OF assms(1,2), of b] assms(2,3) by (cases "t = b") (simp_all add: bind_texture_def)
qed


lemma DrawTexture_inv:
  assumes "gdi_laws v gd wn" "rd_inv v S0 L0 a n X w" "GdiRenderer_DrawTexture gd a d p s w = Done (ec, w')"
  shows "rd_inv v S0 L0 a n X w' \<and> rw_res w' = rw_res w"
proof -
  obtain r t tex where r: "rw_rds w a = Some r" "rd_device v S0 L0 (rd_gdiRes r) (res_handles (rw_res w) \<union> X) t (rw_gdi w)"
    "res_handles (rw_res w) \<inter> X = {}" "rw_res w p = Some tex"
    using assms(2,3) by (auto simp: rd_inv_def GdiRenderer_DrawTexture_def the_res_def split: option.splits)
  then have h: "rr_resHandle tex \<in> res_handles (rw_res w)" by (auto simp: res_handles_def ran_def)
  then have "rd_device v S0 L0 (rd_gdiRes r) (res_handles (rw_res w) \<union> X) (rr_resHandle tex)
      (bind_texture gd (gr_texDC (rd_gdiRes r)) (rr_resHandle tex) (rw_gdi w))"
    by (intro bind_texture_dev[OF assms(1) r(2)]) simp
  with assms h r show ?thesis
    by (auto 0 3 simp: GdiRenderer_DrawTexture_def the_res_def the_rd_def Let_def nk_outcome
        intro!: put_gdi_inv[OF assms(2)] exI[of _ "rr_resHandle tex"] split: if_splits)
qed

lemma DrawMaskedTexture_inv:
  assumes "gdi_laws v gd wn" "rd_inv v S0 L0 a n X w" "GdiRenderer_DrawMaskedTexture gd a d p s q m w = Done (ec, w')"
  shows "rd_inv v S0 L0 a n X w' \<and> rw_res w' = rw_res w"
proof -
  obtain r t tex where r: "rw_rds w a = Some r" "rd_device v S0 L0 (rd_gdiRes r) (res_handles (rw_res w) \<union> X) t (rw_gdi w)"
    "res_handles (rw_res w) \<inter> X = {}" "rw_res w p = Some tex"
    using assms(2,3) by (auto simp: rd_inv_def GdiRenderer_DrawMaskedTexture_def the_res_def split: option.splits)
  then have h: "rr_resHandle tex \<in> res_handles (rw_res w)" by (auto simp: res_handles_def ran_def)
  then have "rd_device v S0 L0 (rd_gdiRes r) (res_handles (rw_res w) \<union> X) (rr_resHandle tex)
      (bind_texture gd (gr_texDC (rd_gdiRes r)) (rr_resHandle tex) (rw_gdi w))"
    by (intro bind_texture_dev[OF assms(1) r(2)]) simp
  with assms h r show ?thesis
    by (auto 0 3 simp: GdiRenderer_DrawMaskedTexture_def the_res_def the_rd_def Let_def nk_outcome
        intro!: put_gdi_inv[OF assms(2)] exI[of _ "rr_resHandle tex"])
qed

text \<open>Deleting a resource on the device; the client keeps a reference, so the renderer survives.\<close>

lemma InternalDelete_dev:
  assumes "gdi_laws v gd wn" "rd_inv v S0 L0 a (Suc n) X w" "rw_res w p = Some res"
  obtains r g t where "rw_rds w a = Some r" "t \<notin> X" "t \<noteq> rr_resHandle res"
    "rd_device v S0 L0 (rd_gdiRes r) ((res_handles (rw_res w) - {rr_resHandle res}) \<union> X) t g"
    "InternalDeleteResource gd wn a p w = Done (put_gdi g (put_rd a (Some (r\<lparr>rd_refCount := rd_refCount r - 1\<rparr>)) w))"
proof -
  obtain r t where r: "rw_rds w a = Some r" "t \<notin> X" "rd_device v S0 L0 (rd_gdiRes r) (res_handles (rw_res w) \<union> X) t (rw_gdi w)"
    "res_handles (rw_res w) \<inter> X = {}" "rd_refCount r = int (Suc n) + int (card (dom (rw_res w)))" "finite (dom (rw_res w))"
    "rr_rdRef res = a" "rr_resType res = NkRdResTy_Texture \<or> rr_resType res = NkRdResTy_TextureMask"
    using assms(2,3) by (auto simp: rd_inv_def) (metis NkRendererResourceType.exhaust)
  let ?h = "rr_resHandle res" and ?R = "rd_gdiRes r"
  let ?g = "if gd_GetCurrentBitmap gd (gr_texDC ?R) (rw_gdi w) = ?h
            then snd (gd_SelectObject gd (gr_texDC ?R) (gr_defTexBmp ?R) (rw_gdi w)) else rw_gdi w"
  have h: "?h \<in> res_handles (rw_res w)" using assms(3) by (auto simp: res_handles_def ran_def)
  have cur: "gd_GetCurrentBitmap gd (gr_texDC ?R) (rw_gdi w) = t"
    using gdi_current[OF assms(1)] r(3) by (simp add: rd_device_def)
  have d: "gr_defTexBmp ?R = gv_def v" "gv_def v \<notin> res_handles (rw_res w) \<union> X" using r(3) by (auto simp: rd_device_def)
  obtain t' where t': "t' \<notin> X" "t' \<noteq> ?h" "rd_device v S0 L0 ?R (res_handles (rw_res w) \<union> X) t' ?g"
  proof (cases "t = ?h")
    case True
    have "gv_def v \<noteq> ?h" using d(2) h by auto
    then show ?thesis using that[of "gv_def v"] sel_tex(2)[OF assms(1) r(3), of "gv_def v"] True cur d by simp
  next
    case False
    then show ?thesis using that[of t] r(2,3) cur by simp
  qed
  have eq: "(res_handles (rw_res w) \<union> X) - {?h} = (res_handles (rw_res w) - {?h}) \<union> X" using r(4) h by auto
  have "rd_device v S0 L0 ?R ((res_handles (rw_res w) \<union> X) - {?h}) t' (gd_DeleteObject gd ?h ?g)"
    by (rule dev_delete[OF assms(1) t'(3)]) (use h t'(2) in auto)
  then have dv: "rd_device v S0 L0 ?R ((res_handles (rw_res w) - {?h}) \<union> X) t' (gd_DeleteObject gd ?h ?g)" unfolding eq .
  have "1 \<le> card (dom (rw_res w))" using r(6) assms(3) by (auto simp: Suc_le_eq card_gt_0_iff)
  then have "InternalDeleteResource gd wn a p w
      = Done (put_gdi (gd_DeleteObject gd ?h ?g) (put_rd a (Some (r\<lparr>rd_refCount := rd_refCount r - 1\<rparr>)) w))"
    using r(1,5,7,8) assms(3)
    by (simp add: InternalDeleteResource_def the_rd_def the_res_def Let_def GdiRenderer_Release_def)
  from that[OF r(1) t'(1,2) dv this] show ?thesis .
qed

lemma handles_delete:
  assumes "distinct_handles M" "M p = Some res"
  shows "res_handles (M(p := None)) = res_handles M - {rr_resHandle res}"
proof (rule set_eqI)
  fix h
  show "h \<in> res_handles (M(p := None)) \<longleftrightarrow> h \<in> res_handles M - {rr_resHandle res}"
    using assms unfolding distinct_handles_def by (auto simp: res_handles_iff) (metis option.sel)+
qed

lemma handles_put:
  "res_handles (M(p := Some res)) = insert (rr_resHandle res) (res_handles (M(p := None)))"
proof (rule set_eqI)
  fix h
  show "h \<in> res_handles (M(p := Some res)) \<longleftrightarrow> h \<in> insert (rr_resHandle res) (res_handles (M(p := None)))"
    by (auto simp: res_handles_iff)
qed


text \<open>The object \<open>d\<close> that belongs to no resource yet becomes the object of the resource \<open>p\<close>.\<close>

lemma init_resource_inv:
  assumes "rw_rds w a = Some r" "rd_wndRef r \<noteq> 0" "t \<notin> X" "rd_device v S0 L0 (rd_gdiRes r) (res_handles ((rw_res w)(p := None)) \<union> insert d X) t g"
    "res_handles ((rw_res w)(p := None)) \<inter> insert d X = {}" "d \<notin> X" "finite (dom (rw_res w))"
    "rd_refCount r = int n + int (card (dom (rw_res w) - {p}))"
    "\<And>q res. rw_res w q = Some res \<Longrightarrow> rr_rdRef res = a \<and> rr_resType res \<noteq> NkRdResTy_None \<and> q < rw_next w"
    "distinct_handles (rw_res w)" "ty \<noteq> NkRdResTy_None" "p < rw_next w"
  shows "\<exists>w'. init_resource a ty d (Some p) (put_gdi g w) = Done (NkErr_Ok, Some p, w') \<and> rd_inv v S0 L0 a n X w' \<and> p \<in> dom (rw_res w')"
proof -
  let ?res = "\<lparr>rr_rdRef = a, rr_resType = ty, rr_resHandle = d, rr_resFlags = 0\<rparr>"
  let ?r = "r\<lparr>rd_refCount := rd_refCount r + 1\<rparr>"
  let ?w = "put_res p (Some ?res) (put_rd a (Some ?r) (put_gdi g w))"
  have "init_resource a ty d (Some p) (put_gdi g w) = Done (NkErr_Ok, Some p, ?w)"
    using assms(1) by (simp add: init_resource_def RefInstance_def GdiRenderer_AddRef_def the_rd_def)
  moreover have H: "res_handles ((rw_res w)(p \<mapsto> ?res)) = insert d (res_handles ((rw_res w)(p := None)))"
    using handles_put[of "rw_res w" p ?res] by simp
  have "distinct_handles (rw_res ?w)"
    using assms(5,10) unfolding distinct_handles_def by (auto simp: res_handles_iff disjoint_iff) metis+
  moreover have "card (dom (rw_res ?w)) = Suc (card (dom (rw_res w) - {p}))"
    using assms(7) by (simp add: card_insert_if insert_Diff_if flip: card.insert_remove)
  moreover have "rd_device v S0 L0 (rd_gdiRes ?r) (res_handles (rw_res ?w) \<union> X) t (rw_gdi ?w)" "res_handles (rw_res ?w) \<inter> X = {}"
    using assms(4,5,6) by (auto simp: H insert_commute Un_commute)
  ultimately show ?thesis using assms(2,3,7,8,9,11,12) by (auto simp: rd_inv_def)
qed


lemma fresh_handles [simp]: "M p = None \<Longrightarrow> res_handles (M(p := None)) = res_handles M"
  by (simp add: res_handles_def fun_upd_idem)

lemma store_new_resource:
  assumes "gdi_laws v gd wn" "rd_inv v S0 L0 a (Suc n) (insert d X) w" "d \<notin> X" "ty \<noteq> NkRdResTy_None"
    "case p of None \<Rightarrow> poolRes = NkErr_Ok | Some q \<Rightarrow> q \<in> dom (rw_res w)"
  shows "\<exists>q w1 w'. AppropriateResource gd wn poolRes a p w = Done (NkErr_Ok, Some q, w1)
    \<and> init_resource a ty d (Some q) w1 = Done (NkErr_Ok, Some q, w') \<and> rd_inv v S0 L0 a (Suc n) X w' \<and> q \<in> dom (rw_res w')"
proof (cases p)
  case None
  obtain r t where r: "rw_rds w a = Some r" "rd_wndRef r \<noteq> 0" "t \<notin> insert d X"
    "rd_device v S0 L0 (rd_gdiRes r) (res_handles (rw_res w) \<union> insert d X) t (rw_gdi w)" "res_handles (rw_res w) \<inter> insert d X = {}"
    "finite (dom (rw_res w))" "rd_refCount r = int (Suc n) + int (card (dom (rw_res w)))"
    "\<forall>p res. rw_res w p = Some res \<longrightarrow> rr_rdRef res = a \<and> rr_resType res \<noteq> NkRdResTy_None \<and> p < rw_next w" "distinct_handles (rw_res w)"
    using assms(2) by (auto simp: rd_inv_def)
  have n: "rw_res w (rw_next w) = None" using r(8) by (metis less_irrefl not_Some_eq)
  let ?w = "w\<lparr>rw_next := Suc (rw_next w)\<rparr>"
  have h: "res_handles ((rw_res w)(rw_next w := None)) = res_handles (rw_res w)" "put_gdi (rw_gdi w) ?w = ?w"
    using n by simp_all
  have "\<exists>w'. init_resource a ty d (Some (rw_next w)) (put_gdi (rw_gdi w) ?w) = Done (NkErr_Ok, Some (rw_next w), w')
      \<and> rd_inv v S0 L0 a (Suc n) X w' \<and> rw_next w \<in> dom (rw_res w')"
    using r n assms(3,4)
    by (intro init_resource_inv[of _ _ r t]) (auto simp: h distinct_handles_def less_Suc_eq dom_def)
  then show ?thesis using None assms(5) by (simp add: AppropriateResource_def h(2))
next
  case (Some q)
  then obtain res where res: "rw_res w q = Some res" using assms(5) by auto
  obtain r0 where r0: "rw_rds w a = Some r0" "rd_wndRef r0 \<noteq> 0" "res_handles (rw_res w) \<inter> insert d X = {}"
    "finite (dom (rw_res w))" "rd_refCount r0 = int (Suc n) + int (card (dom (rw_res w)))"
    "\<forall>p res. rw_res w p = Some res \<longrightarrow> rr_rdRef res = a \<and> rr_resType res \<noteq> NkRdResTy_None \<and> p < rw_next w" "distinct_handles (rw_res w)"
    using assms(2) by (auto simp: rd_inv_def)
  from InternalDelete_dev[OF assms(1,2) res] obtain g t where
    t: "t \<notin> insert d X" "rd_device v S0 L0 (rd_gdiRes r0) ((res_handles (rw_res w) - {rr_resHandle res}) \<union> insert d X) t g"
    and del: "InternalDeleteResource gd wn a q w = Done (put_gdi g (put_rd a (Some (r0\<lparr>rd_refCount := rd_refCount r0 - 1\<rparr>)) w))"
    using r0(1) by (metis option.sel)
  let ?r = "r0\<lparr>rd_refCount := rd_refCount r0 - 1\<rparr>"
  let ?w = "put_rd a (Some ?r) w"
  have h: "res_handles ((rw_res w)(q := None)) = res_handles (rw_res w) - {rr_resHandle res}"
    using handles_delete[OF r0(7) res] .
  have c: "int (card (dom (rw_res w))) = 1 + int (card (dom (rw_res w) - {q}))"
    using r0(4) res by (subst card.remove[of _ q]) auto
  have "\<exists>w'. init_resource a ty d (Some q) (put_gdi g ?w) = Done (NkErr_Ok, Some q, w')
      \<and> rd_inv v S0 L0 a (Suc n) X w' \<and> q \<in> dom (rw_res w')"
    using r0 t assms(3,4) res c
    by (intro init_resource_inv[of _ _ ?r t]) (auto simp: h distinct_handles_def)
  then show ?thesis using Some del by (simp add: AppropriateResource_def)
qed


lemma CreateTexture_inv:
  assumes "gdi_laws v gd wn" "rd_inv v S0 L0 a (Suc n) X w" "case p of None \<Rightarrow> True | Some q \<Rightarrow> q \<in> dom (rw_res w)"
  shows "\<exists>ec p' w'. GdiRenderer_CreateTexture gd wn poolRes a bmp p w = Done (ec, p', w') \<and> rd_inv v S0 L0 a (Suc n) X w'
    \<and> (if ec = NkErr_Ok then \<exists>q. p' = Some q \<and> q \<in> dom (rw_res w') else p' = p \<and> rw_res w' = rw_res w)"
proof -
  obtain r t where r: "rw_rds w a = Some r" "rd_wndRef r \<noteq> 0" "t \<notin> X"
    "rd_device v S0 L0 (rd_gdiRes r) (res_handles (rw_res w) \<union> X) t (rw_gdi w)" "res_handles (rw_res w) \<inter> X = {}"
    using assms(2) by (auto simp: rd_inv_def)
  let ?s = "NkDIBitmapGetSpecification bmp"
  obtain d g where d: "gd_CreateCompatibleBitmap gd (gr_memDC (rd_gdiRes r)) (m_bmpWidth ?s) (m_bmpHeight ?s) (rw_gdi w) = (d, g)"
    by fastforce
  show ?thesis
  proof (cases rule: dev_create[OF gdi_creates(2)[OF assms(1)] r(4) d])
    case 1
    then have "rd_inv v S0 L0 a (Suc n) X (put_gdi g w)" using r by (intro put_gdi_inv[OF assms(2)]) auto
    then show ?thesis using 1 r(1) d by (simp add: GdiRenderer_CreateTexture_def the_rd_def Let_def)
  next
    case 2
    let ?k = "gd_SetDIBits gd d (m_bmpHeight ?s) (fst (NkDIBitmapGetPixels bmp)) \<lparr>biWidth = m_bmpWidth ?s, biHeight = m_bmpHeight ?s,
       biBitCount = m_bitsPerPx ?s, biSizeImage = snd (NkDIBitmapGetPixels bmp)\<rparr> g"
    have k: "rd_device v S0 L0 (rd_gdiRes r) (insert d (res_handles (rw_res w) \<union> X)) t (snd ?k)" using 2(4) assms(1) by simp
    have del: "rd_device v S0 L0 (rd_gdiRes r) (res_handles (rw_res w) \<union> X) t (gd_DeleteObject gd d (snd ?k))"
      using dev_delete[OF assms(1) k, of d] 2(2,3) by (simp add: insert_Diff_if)
    then have fail: "rd_inv v S0 L0 a (Suc n) X (put_gdi (gd_DeleteObject gd d (snd ?k)) w)"
      using r by (intro put_gdi_inv[OF assms(2)]) auto
    have "rd_inv v S0 L0 a (Suc n) (insert d X) (put_gdi (snd ?k) w)"
      using assms(2) k r 2 by (auto simp: rd_inv_def)
    note st = store_new_resource[OF assms(1) this, where ty = NkRdResTy_Texture and p = p and poolRes = poolRes]
    show ?thesis
    proof (cases "fst ?k = m_bmpHeight ?s \<and> (p = None \<longrightarrow> poolRes = NkErr_Ok)")
      case True
      then have "\<exists>q w1 w'. AppropriateResource gd wn poolRes a p (put_gdi (snd ?k) w) = Done (NkErr_Ok, Some q, w1)
        \<and> init_resource a NkRdResTy_Texture d (Some q) w1 = Done (NkErr_Ok, Some q, w') \<and> rd_inv v S0 L0 a (Suc n) X w' \<and> q \<in> dom (rw_res w')"
        using st assms(3) 2(2) by (auto split: option.splits)
      then show ?thesis using True r(1) d 2(1)
        by (auto simp: GdiRenderer_CreateTexture_def the_rd_def Let_def case_prod_beta)
    next
      case False
      then show ?thesis using fail r(1) d 2(1)
        by (auto simp: GdiRenderer_CreateTexture_def the_rd_def Let_def case_prod_beta AppropriateResource_def)
    qed
  qed
qed


lemma CreateTextureMask_inv:
  assumes "gdi_laws v gd wn" "rd_inv v S0 L0 a (Suc n) X w" "rw_res w q = Some tex" "rr_resType tex = NkRdResTy_Texture"
    "case p of None \<Rightarrow> poolRes = NkErr_Ok | Some q \<Rightarrow> q \<in> dom (rw_res w)"
  shows "\<exists>ec p' w'. GdiRenderer_CreateTextureMask gd wn poolRes a q col p w = Done (ec, p', w') \<and> rd_inv v S0 L0 a (Suc n) X w'
    \<and> (if ec = NkErr_Ok then \<exists>q. p' = Some q \<and> q \<in> dom (rw_res w') else p' = p \<and> rw_res w' = rw_res w)"
proof -
  obtain r t where r: "rw_rds w a = Some r" "rd_wndRef r \<noteq> 0" "t \<notin> X"
    "rd_device v S0 L0 (rd_gdiRes r) (res_handles (rw_res w) \<union> X) t (rw_gdi w)" "res_handles (rw_res w) \<inter> X = {}"
    using assms(2) by (auto simp: rd_inv_def)
  let ?R = "rd_gdiRes r" and ?h = "rr_resHandle tex" and ?H = "res_handles (rw_res w) \<union> X"
  have h: "?h \<in> res_handles (rw_res w)" using assms(3) by (auto simp: res_handles_iff)
  obtain bw bh where b: "gd_GetObject gd ?h (rw_gdi w) = (bw, bh)" by fastforce
  obtain d g where d: "gd_CreateBitmap gd bw bh (rw_gdi w) = (d, g)" by fastforce
  show ?thesis
  proof (cases rule: dev_create[OF gdi_creates(3)[OF assms(1)] r(4) d])
    case 1
    then have "rd_inv v S0 L0 a (Suc n) X (put_gdi g w)" using r by (intro put_gdi_inv[OF assms(2)]) auto
    then show ?thesis using 1 r(1) b d assms(3,4) by (simp add: GdiRenderer_CreateTextureMask_def the_rd_def the_res_def Let_def)
  next
    case 2
    let ?c = "gd_SetBkColor gd (gr_texDC ?R) (m_rVal col, m_gVal col, m_bVal col) g"
    let ?s1 = "gd_SelectObject gd (gr_texDC ?R) ?h (snd ?c)"
    let ?s2 = "gd_SelectObject gd (gr_memDC ?R) d (snd ?s1)"
    let ?bl = "gd_BitBlt gd (gr_memDC ?R) (0, 0, bw, bh) (gr_texDC ?R) (0, 0) NOTSRCCOPY (snd ?s2)"
    let ?s3 = "gd_SelectObject gd (gr_memDC ?R) (fst ?s2) ?bl"
    let ?s4 = "gd_SelectObject gd (gr_texDC ?R) (fst ?s1) (snd ?s3)"
    let ?g = "snd (gd_SetBkColor gd (gr_texDC ?R) (fst ?c) (snd ?s4))"
    have c: "rd_device v S0 L0 ?R (insert d ?H) t (snd ?c)" using 2(4) assms(1) by simp
    have s1: "fst ?s1 = t" "rd_device v S0 L0 ?R (insert d ?H) ?h (snd ?s1)" using sel_tex[OF assms(1) c, of ?h] h by auto
    have "d \<noteq> ?h" using 2(2) h by auto
    then have s2: "fst ?s2 = gr_memBmp ?R" "gv_sel v (snd ?s2) = (gv_sel v (snd ?s1))(gr_memDC ?R \<mapsto> d)"
      "gv_live v (snd ?s2) = gv_live v (snd ?s1)"
      using sel_mem[OF assms(1) s1(2), of d] by auto
    have s3: "rd_device v S0 L0 ?R (insert d ?H) ?h (snd ?s3)"
      unfolding s2(1) by (rule sel_mem_back[OF assms(1) s1(2)]) (simp_all add: s2 gdi_keeps[OF assms(1)])
    have t: "t \<in> insert (gv_def v) (insert d ?H)" using r(4) by (auto simp: rd_device_def)
    have g: "rd_device v S0 L0 ?R (insert d ?H) t ?g"
      using sel_tex(2)[OF assms(1) s3 t] assms(1) s1(1) by simp
    have "rd_inv v S0 L0 a (Suc n) (insert d X) (put_gdi ?g w)"
      using assms(2) g r 2 by (auto simp: rd_inv_def)
    from store_new_resource[OF assms(1) this, where ty = NkRdResTy_TextureMask and p = p and poolRes = poolRes]
    have "\<exists>q w1 w'. AppropriateResource gd wn poolRes a p (put_gdi ?g w) = Done (NkErr_Ok, Some q, w1)
        \<and> init_resource a NkRdResTy_TextureMask d (Some q) w1 = Done (NkErr_Ok, Some q, w') \<and> rd_inv v S0 L0 a (Suc n) X w' \<and> q \<in> dom (rw_res w')"
      using assms(5) 2(2) by (auto split: option.splits)
    then show ?thesis using r(1) b d 2(1) assms(3,4)
      by (auto simp: GdiRenderer_CreateTextureMask_def the_rd_def the_res_def Let_def case_prod_beta)
  qed
qed

lemma DeleteResource_inv:
  assumes "gdi_laws v gd wn" "rd_inv v S0 L0 a (Suc n) X w" "rw_res w p = Some res"
  shows "\<exists>w'. GdiRenderer_DeleteResource gd wn a (Some p) w = Done (NkErr_Ok, None, w') \<and> rd_inv v S0 L0 a (Suc n) X w'
    \<and> rw_res w' = (rw_res w)(p := None)"
proof -
  obtain r0 where r0: "rw_rds w a = Some r0" "rd_wndRef r0 \<noteq> 0" "res_handles (rw_res w) \<inter> X = {}"
    "finite (dom (rw_res w))" "rd_refCount r0 = int (Suc n) + int (card (dom (rw_res w)))"
    "\<forall>p res. rw_res w p = Some res \<longrightarrow> rr_rdRef res = a \<and> rr_resType res \<noteq> NkRdResTy_None \<and> p < rw_next w"
    "distinct_handles (rw_res w)"
    using assms(2) by (auto simp: rd_inv_def)
  from InternalDelete_dev[OF assms] obtain g t where
    t: "t \<notin> X" "rd_device v S0 L0 (rd_gdiRes r0) ((res_handles (rw_res w) - {rr_resHandle res}) \<union> X) t g"
    and del: "InternalDeleteResource gd wn a p w = Done (put_gdi g (put_rd a (Some (r0\<lparr>rd_refCount := rd_refCount r0 - 1\<rparr>)) w))"
    using r0(1) by (metis option.sel)
  let ?w = "put_res p None (put_gdi g (put_rd a (Some (r0\<lparr>rd_refCount := rd_refCount r0 - 1\<rparr>)) w))"
  have "GdiRenderer_DeleteResource gd wn a (Some p) w = Done (NkErr_Ok, None, ?w)"
    using assms(3) del r0(6) by (simp add: GdiRenderer_DeleteResource_def the_res_def)
  moreover have "int (card (dom (rw_res w))) = 1 + int (card (dom (rw_res w) - {p}))"
    using r0(4) assms(3) by (subst card.remove[of _ p]) auto
  moreover have "distinct_handles ((rw_res w)(p := None))" using r0(7) by (auto simp: distinct_handles_def)
  ultimately show ?thesis
    using r0 t handles_delete[OF r0(7) assms(3)] by (auto simp: rd_inv_def split: if_splits)
qed


text \<open>A new back buffer \<open>h\<close> after the old one has been deleted.\<close>

lemma back_buffer_replaced:
  assumes "gdi_laws v gd wn" "rd_device v S0 L0 R H t g" "gv_sel v g2 = S0(gr_memDC R \<mapsto> gv_def v, gr_texDC R \<mapsto> t)"
    "gv_live v g2 = insert h (gv_live v g - {gr_memBmp R})" "h \<notin> gv_live v g - {gr_memBmp R}" "h \<noteq> gv_def v" "h \<noteq> 0"
  shows "rd_device v S0 L0 (R\<lparr>gr_memBmp := h, gr_bbDim := x, gr_vpOri := y\<rparr>) H t (snd (gd_SelectObject gd (gr_memDC R) h g2))"
proof -
  let ?B = "{gr_memDC R, gr_texDC R, gr_clearBr R, gr_vpBkgndBr R}"
  have B: "set (basic_objs R) = insert (gr_memBmp R) ?B" by (auto simp: basic_objs_def)
  have dv: "gv_live v g = L0 \<union> insert (gr_memBmp R) ?B \<union> H" "t \<in> insert (gv_def v) H" "distinct (basic_objs R)" "L0 \<inter> insert (gr_memBmp R) ?B = {}"
    "(L0 \<union> insert (gr_memBmp R) ?B) \<inter> H = {}" "gr_oldBmp R = gv_def v" "gr_defTexBmp R = gv_def v" "dom S0 \<subseteq> L0" "ran S0 \<subseteq> insert (gv_def v) L0"
    "gv_def v \<notin> gv_live v g"
    using assms(2) unfolding rd_device_def B by - (elim conjE, assumption)+
  have old: "gr_memBmp R \<notin> L0 \<union> ?B \<union> H"
  proof -
    have "gr_memBmp R \<notin> L0" "gr_memBmp R \<notin> H" using dv(4,5) by blast+
    moreover have "gr_memBmp R \<notin> ?B" using dv(3) by (auto simp: basic_objs_def)
    ultimately show ?thesis by blast
  qed
  then have live: "gv_live v g - {gr_memBmp R} = L0 \<union> ?B \<union> H" unfolding dv(1) by blast
  with assms(5) have hn: "h \<notin> L0 \<union> ?B \<union> H" by simp
  have ne: "gr_memDC R \<noteq> gr_texDC R" using dv(3) by (simp add: basic_objs_def)
  have "S0 d \<noteq> Some h" for d using dv(9) hn assms(6) by (auto simp: ran_def)
  moreover have "t \<noteq> h" using dv(2) hn assms(6) by auto
  ultimately have "\<forall>d. d \<noteq> gr_memDC R \<longrightarrow> gv_sel v g2 d \<noteq> Some h" by (simp add: assms(3))
  with gdi_select(2,3)[OF assms(1), of g2 "gr_memDC R" "gv_def v" h] ne
  have s: "gv_sel v (snd (gd_SelectObject gd (gr_memDC R) h g2)) = S0(gr_memDC R \<mapsto> h, gr_texDC R \<mapsto> t)"
    "gv_live v (snd (gd_SelectObject gd (gr_memDC R) h g2)) = insert h (L0 \<union> ?B \<union> H)"
    by (simp_all add: assms(3,4) live fun_upd_twist[of "gr_texDC R" "gr_memDC R"])
  have "distinct (gr_memDC R # gr_texDC R # h # [gr_clearBr R, gr_vpBkgndBr R])" using dv(3) hn by (auto simp: basic_objs_def)
  moreover have "L0 \<inter> insert h ?B = {}" "(L0 \<union> insert h ?B) \<inter> H = {}" using dv(4,5) hn by auto
  moreover have "gv_def v \<notin> insert h (L0 \<union> ?B \<union> H)" using dv(1,10) assms(6) by auto
  moreover have "L0 \<union> insert h ?B \<union> H = insert h (L0 \<union> ?B \<union> H)" by blast
  ultimately show ?thesis using s dv(2,6-9) assms(7) by (simp add: rd_device_def basic_objs_def insert_commute)
qed

lemma Resize_inv:
  assumes "gdi_laws v gd wn" "rd_inv v S0 L0 a n X w"
  obtains w' r where "GdiRenderer_Resize gd wn a sz w = Done (NkErr_Ok, w')" "rd_inv v S0 L0 a n X w'" "rw_res w' = rw_res w"
      "rw_rds w' a = Some r" "gr_bbDim (rd_gdiRes r) = sz"
      "gr_vpOri (rd_gdiRes r) = NkCalculateViewportOrigin (rs_vpAlignment (rd_currSpec r)) (rs_vpExtents (rd_currSpec r)) (rs_dispTileSize (rd_currSpec r)) sz"
  | w' r t where "GdiRenderer_Resize gd wn a sz w = Done (NkErr_CreateCompBitmap, w')" "rw_rds w' a = Some r" "gr_memBmp (rd_gdiRes r) = 0"
      "gr_oldBmp (rd_gdiRes r) = gv_def v" "gr_defTexBmp (rd_gdiRes r) = gv_def v" "gr_memDC (rd_gdiRes r) \<noteq> gr_texDC (rd_gdiRes r)"
      "gv_sel v (rw_gdi w') = S0(gr_memDC (rd_gdiRes r) \<mapsto> gv_def v, gr_texDC (rd_gdiRes r) \<mapsto> t)"
proof -
  obtain r t where r: "rw_rds w a = Some r" "rd_wndRef r \<noteq> 0" "t \<notin> X"
    "rd_device v S0 L0 (rd_gdiRes r) (res_handles (rw_res w) \<union> X) t (rw_gdi w)" "res_handles (rw_res w) \<inter> X = {}"
    using assms(2) by (auto simp: rd_inv_def)
  let ?R = "rd_gdiRes r" and ?H = "res_handles (rw_res w) \<union> X" and ?old = "gr_memBmp (rd_gdiRes r)"
  have dv: "gv_sel v (rw_gdi w) = S0(gr_memDC ?R \<mapsto> ?old, gr_texDC ?R \<mapsto> t)" "gv_live v (rw_gdi w) = L0 \<union> set (basic_objs ?R) \<union> ?H"
    "t \<in> insert (gv_def v) ?H" "distinct (basic_objs ?R)" "L0 \<inter> set (basic_objs ?R) = {}" "(L0 \<union> set (basic_objs ?R)) \<inter> ?H = {}"
    "gr_oldBmp ?R = gv_def v" "gr_defTexBmp ?R = gv_def v" "dom S0 \<subseteq> L0" "ran S0 \<subseteq> insert (gv_def v) L0" "gv_def v \<notin> gv_live v (rw_gdi w)"
    using r(4) unfolding rd_device_def by - (elim conjE, assumption)+
  let ?s = "gd_SelectObject gd (gr_memDC ?R) (gr_oldBmp ?R) (rw_gdi w)"
  let ?g1 = "gd_DeleteObject gd ?old (snd ?s)"
  let ?q = "gd_GetDC gd (wi_QueryNativeWindowHandle wn (rd_wndRef r) ?g1) ?g1"
  have m: "gv_sel v (snd ?s) = S0(gr_memDC ?R \<mapsto> gv_def v, gr_texDC ?R \<mapsto> t)" "gv_live v (snd ?s) = gv_live v (rw_gdi w)"
    using sel_mem(2,3)[OF assms(1) r(4), of "gv_def v"] dv(1,4,7) by (auto simp: basic_objs_def fun_upd_twist)
  have "?old \<notin> ran (gv_sel v (snd ?s))" "?old \<notin> dom (gv_sel v (snd ?s))"
    using m(1) dv by (auto simp: basic_objs_def ran_def split: if_splits)
  note del = gdi_delete[OF assms(1) this]
  obtain h g2 where h: "gd_CreateCompatibleBitmap gd (fst ?q) (int_of64 (m_width sz)) (int_of64 (m_height sz)) (snd ?q) = (h, g2)"
    by fastforce
  have q: "gv_sel v (snd ?q) = S0(gr_memDC ?R \<mapsto> gv_def v, gr_texDC ?R \<mapsto> t)" "gv_live v (snd ?q) = gv_live v (rw_gdi w) - {?old}"
    using gdi_keeps(1,2)[OF assms(1)] del m by simp_all
  show thesis
  proof (cases rule: creates_cases[OF gdi_creates(2)[OF assms(1)] h])
    case 1
    have e: "gv_sel v g2 = S0(gr_memDC ?R \<mapsto> gv_def v, gr_texDC ?R \<mapsto> t)" using 1(2) q(1) by (rule trans)
    show thesis
    proof (rule that(2)[where r = "r\<lparr>rd_gdiRes := ?R\<lparr>gr_memBmp := 0\<rparr>\<rparr>" and t = t])
      show "GdiRenderer_Resize gd wn a sz w = Done (NkErr_CreateCompBitmap, put_rd a (Some (r\<lparr>rd_gdiRes := ?R\<lparr>gr_memBmp := 0\<rparr>\<rparr>)) (put_gdi g2 w))"
        using r(1) h 1(1) by (simp add: GdiRenderer_Resize_def the_rd_def Let_def case_prod_beta)
    qed (use dv(4) in \<open>simp_all add: dv(7,8) e basic_objs_def\<close>)
  next
    case 2
    let ?R' = "?R\<lparr>gr_memBmp := h, gr_bbDim := sz, gr_vpOri := NkCalculateViewportOrigin (rs_vpAlignment (rd_currSpec r))
       (rs_vpExtents (rd_currSpec r)) (rs_dispTileSize (rd_currSpec r)) sz\<rparr>"
    let ?s2 = "gd_SelectObject gd (gr_memDC ?R) h g2"
    let ?g = "gd_ReleaseDC gd (wi_QueryNativeWindowHandle wn (rd_wndRef r) (snd ?s2)) (fst ?q) (snd ?s2)"
    have "rd_device v S0 L0 ?R' ?H t (snd ?s2)"
      using 2 q by (intro back_buffer_replaced[OF assms(1) r(4)]) simp_all
    then have "rd_device v S0 L0 ?R' ?H t ?g" using assms(1) by simp
    then have inv: "rd_inv v S0 L0 a n X (put_rd a (Some (r\<lparr>rd_gdiRes := ?R'\<rparr>)) (put_gdi ?g w))"
      using assms(2) r(1,3) by (auto simp: rd_inv_def)
    have res: "GdiRenderer_Resize gd wn a sz w = Done (NkErr_Ok, put_rd a (Some (r\<lparr>rd_gdiRes := ?R'\<rparr>)) (put_gdi ?g w))"
      using r(1) h 2(1) by (simp add: GdiRenderer_Resize_def the_rd_def Let_def case_prod_beta)
    show thesis by (rule that(1)[OF res inv, of "r\<lparr>rd_gdiRes := ?R'\<rparr>"]) simp_all
  qed
qed


lemma GrabFramebuffer_inv:
  assumes "gdi_laws v gd wn" "rd_inv v S0 L0 a n X w" "GdiRenderer_GrabFramebuffer gd heap a w = Done (ec, bmp, w')"
  shows "rd_inv v S0 L0 a n X w' \<and> rw_res w' = rw_res w"
proof -
  obtain r t where r: "rw_rds w a = Some r" "t \<notin> X" "rd_device v S0 L0 (rd_gdiRes r) (res_handles (rw_res w) \<union> X) t (rw_gdi w)"
    using assms(2) by (auto simp: rd_inv_def)
  let ?R = "rd_gdiRes r" and ?f = "gd_GdiFlush gd (rw_gdi w)"
  let ?s = "gd_SelectObject gd (gr_memDC ?R) (gr_oldBmp ?R) ?f"
  have f: "rd_device v S0 L0 ?R (res_handles (rw_res w) \<union> X) t ?f" using r(3) assms(1) by simp
  have o: "gr_oldBmp ?R = gv_def v" using r(3) by (simp add: rd_device_def)
  have s: "fst ?s = gr_memBmp ?R" "gv_sel v (snd ?s) = (gv_sel v ?f)(gr_memDC ?R \<mapsto> gv_def v)" "gv_live v (snd ?s) = gv_live v ?f"
    using sel_mem[OF assms(1) f, of "gv_def v"] o by simp_all
  have "rd_device v S0 L0 ?R (res_handles (rw_res w) \<union> X) t
      (snd (gd_SelectObject gd (gr_memDC ?R) (gr_memBmp ?R) (snd (snd (gd_GetDIBits gd (gr_memDC ?R) (gr_memBmp ?R) k hdr px (snd ?s))))))" for k hdr px
    by (rule sel_mem_back[OF assms(1) f]) (simp_all add: s gdi_keeps[OF assms(1)])
  then have "rd_inv v S0 L0 a n X (put_gdi
      (snd (gd_SelectObject gd (gr_memDC ?R) (gr_memBmp ?R) (snd (snd (gd_GetDIBits gd (gr_memDC ?R) (gr_memBmp ?R) k hdr px (snd ?s)))))) w)" for k hdr px
    using r(1,2) by (intro put_gdi_inv[OF assms(2)]) auto
  with assms(2,3) r(1) s(1) show ?thesis
    by (auto simp: GdiRenderer_GrabFramebuffer_def the_rd_def Let_def case_prod_beta nk_outcome split: if_splits option.splits)
qed

text \<open>The last reference: everything the renderer has created on the device is freed.\<close>

lemma Release_last:
  assumes "gdi_laws v gd wn" "rd_inv v S0 L0 a 1 {} w" "rw_res w = Map.empty"
  shows "\<exists>w'. GdiRenderer_Release gd wn a w = Done (0, w') \<and> rw_rds w' a = None \<and> gv_sel v (rw_gdi w') = S0 \<and> gv_live v (rw_gdi w') = L0"
proof -
  obtain r t where r: "rw_rds w a = Some r" "rd_wndRef r \<noteq> 0" "rd_refCount r = 1" "rd_device v S0 L0 (rd_gdiRes r) {} t (rw_gdi w)"
    using assms(2,3) by (auto simp: rd_inv_def res_handles_def)
  let ?R = "rd_gdiRes r"
  have dv: "gv_sel v (rw_gdi w) = S0(gr_memDC ?R \<mapsto> gr_memBmp ?R, gr_texDC ?R \<mapsto> gv_def v)" "gv_live v (rw_gdi w) = L0 \<union> set (basic_objs ?R)"
    "distinct (basic_objs ?R)" "L0 \<inter> set (basic_objs ?R) = {}" "gr_oldBmp ?R = gv_def v" "gr_defTexBmp ?R = gv_def v"
    "dom S0 \<subseteq> L0" "ran S0 \<subseteq> insert (gv_def v) L0" "gv_def v \<notin> gv_live v (rw_gdi w)"
    using r(4) unfolding rd_device_def by auto
  let ?s1 = "gd_SelectObject gd (gr_texDC ?R) (gr_defTexBmp ?R) (rw_gdi w)"
  have s1: "rd_device v S0 L0 ?R {} (gv_def v) (snd ?s1)" using sel_tex(2)[OF assms(1) r(4), of "gv_def v"] dv(6) by simp
  let ?s2 = "gd_SelectObject gd (gr_memDC ?R) (gr_oldBmp ?R) (snd ?s1)"
  have s2: "fst ?s2 = gr_memBmp ?R" "gv_sel v (snd ?s2) = S0(gr_memDC ?R \<mapsto> gv_def v, gr_texDC ?R \<mapsto> gv_def v)"
      "gv_live v (snd ?s2) = L0 \<union> set (basic_objs ?R)"
    using sel_mem[OF assms(1) s1, of "gv_def v"] s1 dv(3,5) by (auto simp: rd_device_def basic_objs_def fun_upd_twist)
  let ?objs = "[gr_memBmp ?R, gr_clearBr ?R, gr_vpBkgndBr ?R]"
  have obj: "h \<notin> ran (S0(gr_memDC ?R \<mapsto> gv_def v, gr_texDC ?R \<mapsto> gv_def v))" "h \<notin> dom (S0(gr_memDC ?R \<mapsto> gv_def v, gr_texDC ?R \<mapsto> gv_def v))"
    if "h \<in> set ?objs" for h
    using that dv by (auto simp: basic_objs_def ran_def split: if_splits)
  let ?g1 = "gd_DeleteObject gd (gr_memBmp ?R) (snd ?s2)" let ?g2 = "gd_DeleteObject gd (gr_clearBr ?R) ?g1"
  let ?g3 = "gd_DeleteObject gd (gr_vpBkgndBr ?R) ?g2" let ?g4 = "gd_DeleteDC gd (gr_memDC ?R) ?g3" let ?g5 = "gd_DeleteDC gd (gr_texDC ?R) ?g4"
  have g1: "gv_sel v ?g1 = S0(gr_memDC ?R \<mapsto> gv_def v, gr_texDC ?R \<mapsto> gv_def v)" "gv_live v ?g1 = L0 \<union> set (basic_objs ?R) - {gr_memBmp ?R}"
    using gdi_delete[OF assms(1), of "gr_memBmp ?R" "snd ?s2"] obj s2(2,3) by simp_all
  have g2: "gv_sel v ?g2 = S0(gr_memDC ?R \<mapsto> gv_def v, gr_texDC ?R \<mapsto> gv_def v)"
      "gv_live v ?g2 = L0 \<union> set (basic_objs ?R) - {gr_memBmp ?R} - {gr_clearBr ?R}"
    using gdi_delete[OF assms(1), of "gr_clearBr ?R" ?g1] obj g1 by simp_all
  have g3: "gv_sel v ?g3 = S0(gr_memDC ?R \<mapsto> gv_def v, gr_texDC ?R \<mapsto> gv_def v)"
      "gv_live v ?g3 = L0 \<union> set (basic_objs ?R) - {gr_memBmp ?R} - {gr_clearBr ?R} - {gr_vpBkgndBr ?R}"
    using gdi_delete[OF assms(1), of "gr_vpBkgndBr ?R" ?g2] obj g2 by simp_all
  have g4: "gv_sel v ?g4 = (gv_sel v ?g3)(gr_memDC ?R := None)" "gv_live v ?g4 = gv_live v ?g3 - {gr_memDC ?R}"
    using gdi_deleteDC[OF assms(1), of "gr_memDC ?R" ?g3] g3(1) by simp_all
  have "gr_texDC ?R \<in> dom (gv_sel v ?g4)" using g4(1) g3(1) dv(3) by (auto simp: basic_objs_def)
  note g5 = gdi_deleteDC[OF assms(1) this]
  have n: "S0 (gr_memDC ?R) = None" "S0 (gr_texDC ?R) = None" using dv(4,7) by (auto simp: basic_objs_def)
  have sel: "gv_sel v ?g5 = S0" using g5(1) g4(1) g3(1) n dv(3) by (auto simp: basic_objs_def fun_eq_iff)
  have live: "gv_live v ?g5 = L0" using g5(2) g4(2) g3(2) dv(4) by (auto simp: basic_objs_def)
  have "GdiRenderer_Release gd wn a w = Done (0, put_rd a None (put_gdi (wi_Release wn (rd_wndRef r) ?g5)
      (put_rd a (Some (r\<lparr>rd_refCount := 0\<rparr>)) w)))"
    using r(1-3) s2(1) by (simp add: GdiRenderer_Release_def GdiRenderer_Destroy_def the_rd_def Let_def case_prod_beta)
  then show ?thesis using sel live gdi_keeps[OF assms(1)] by simp
qed


subsection \<open>From creation to the last release\<close>

definition device_wf :: "'g gdi_view \<Rightarrow> 'g \<Rightarrow> bool" where
  "device_wf v g \<longleftrightarrow> dom (gv_sel v g) \<subseteq> gv_live v g \<and> ran (gv_sel v g) \<subseteq> insert (gv_def v) (gv_live v g) \<and> gv_def v \<notin> gv_live v g"

lemma creates_nonzero:
  assumes "creates v isDC f" "f g = (h, g')" "h \<noteq> 0"
  shows "h \<notin> gv_live v g" "h \<noteq> gv_def v" "gv_live v g' = insert h (gv_live v g)"
    "gv_sel v g' = (if isDC then (gv_sel v g)(h \<mapsto> gv_def v) else gv_sel v g)"
proof -
  have "if h = 0 then gv_sel v g' = gv_sel v g \<and> gv_live v g' = gv_live v g
      else h \<notin> gv_live v g \<and> h \<noteq> gv_def v \<and> gv_live v g' = insert h (gv_live v g)
         \<and> gv_sel v g' = (if isDC then (gv_sel v g)(h \<mapsto> gv_def v) else gv_sel v g)"
    using assms(1,2) unfolding creates_def by blast
  then show "h \<notin> gv_live v g" "h \<noteq> gv_def v" "gv_live v g' = insert h (gv_live v g)"
    "gv_sel v g' = (if isDC then (gv_sel v g)(h \<mapsto> gv_def v) else gv_sel v g)"
    using assms(3) by simp_all
qed

lemma CreateBasic_dev:
  assumes "gdi_laws v gd wn" "device_wf v g" "CreateBasicResources gd wn spec g = (ec, Some R, g')"
  shows "ec = NkErr_Ok \<and> rd_device v (gv_sel v g) (gv_live v g) R {} (gv_def v) g'"
proof -
  let ?hw = "wi_QueryNativeWindowHandle wn (rs_wndRef spec) g"
  obtain dc g1 where g1: "gd_GetDC gd ?hw g = (dc, g1)" by fastforce
  obtain mdc g2 where g2: "gd_CreateCompatibleDC gd dc g1 = (mdc, g2)" by fastforce
  let ?cl = "wi_GetClientDimensions wn (rs_wndRef spec) g1"
  obtain mb g3 where g3: "gd_CreateCompatibleBitmap gd dc (int_of64 (m_width ?cl)) (int_of64 (m_height ?cl)) g2 = (mb, g3)" by fastforce
  obtain old g4 where g4: "gd_SelectObject gd mdc mb g3 = (old, g4)" by fastforce
  obtain tdc g5 where g5: "gd_CreateCompatibleDC gd dc g4 = (tdc, g5)" by fastforce
  let ?c = "rs_clearCol spec"
  obtain cb g6 where g6: "gd_CreateSolidBrush gd (m_rVal ?c) (m_gVal ?c) (m_bVal ?c) g5 = (cb, g6)" by fastforce
  obtain vb g7 where g7: "gd_CreateSolidBrush gd 255 255 255 g6 = (vb, g7)" by fastforce
  note eqs = g1 g2 g3 g4 g5 g6 g7
  have nz: "mdc \<noteq> 0" "mb \<noteq> 0" "tdc \<noteq> 0" "cb \<noteq> 0" "vb \<noteq> 0"
    and R: "gr_memDC R = mdc" "gr_texDC R = tdc" "gr_memBmp R = mb" "gr_oldBmp R = old" "gr_clearBr R = cb" "gr_vpBkgndBr R = vb"
      "gr_defTexBmp R = gd_GetCurrentBitmap gd tdc g7"
    and g': "ec = NkErr_Ok" "g' = gd_ReleaseDC gd ?hw dc (gd_SetStretchBltMode gd mdc (MapToStretchBltMode (rs_texInterMode spec)) g7)"
    using assms(3) by (auto simp: CreateBasicResources_def eqs Let_def split: if_splits)
  let ?S = "gv_sel v g" and ?L = "gv_live v g" and ?d = "gv_def v"
  have wf: "dom ?S \<subseteq> ?L" "ran ?S \<subseteq> insert ?d ?L" "?d \<notin> ?L" using assms(2) by (simp_all add: device_wf_def)
  have k1: "gv_sel v g1 = ?S" "gv_live v g1 = ?L" using gdi_keeps(1,2)[OF assms(1), of hw g for hw] g1 by (metis snd_conv)+
  note c2 = creates_nonzero[OF gdi_creates(1)[OF assms(1)] g2 nz(1), simplified k1 if_True]
  note c3 = creates_nonzero[OF gdi_creates(2)[OF assms(1)] g3 nz(2), simplified c2(3,4) if_False]
  have "?S x \<noteq> Some mb" for x using c3(1,2) wf(2) by (auto simp: ran_def)
  then have s4: "old = ?d" "gv_sel v g4 = ?S(mdc \<mapsto> mb)" "gv_live v g4 = insert mb (insert mdc ?L)"
    using gdi_select[OF assms(1), of g3 mdc ?d mb] g4 c3(3,4) by auto
  note c5 = creates_nonzero[OF gdi_creates(1)[OF assms(1)] g5 nz(3), simplified s4 if_True]
  note c6 = creates_nonzero[OF gdi_creates(4)[OF assms(1)] g6 nz(4), simplified c5(3,4) if_False]
  note c7 = creates_nonzero[OF gdi_creates(4)[OF assms(1)] g7 nz(5), simplified c6(3,4) if_False]
  have "distinct [mdc, tdc, mb, cb, vb]" using c3(1) c5(1) c6(1) c7(1) by auto
  moreover have "gd_GetCurrentBitmap gd tdc g7 = ?d" using gdi_current[OF assms(1)] c7(4) by simp
  ultimately show ?thesis
    using c2(1,2) c3(1,2) c5(1,2) c6(1,2) c7 s4(1) wf nz(2)
    by (simp add: rd_device_def basic_objs_def R g' gdi_keeps[OF assms(1)] insert_commute)
qed

lemma Initialize_inv:
  assumes "gdi_laws v gd wn" "device_wf v (rw_gdi w)" "rw_rds w a = Some r" "rd_refCount r = 1" "rw_res w = Map.empty" "rs_wndRef spec \<noteq> 0"
    "GdiRenderer_Initialize gd wn a (Some spec) w = Done (NkErr_Ok, w')"
  shows "rd_inv v (gv_sel v (rw_gdi w)) (gv_live v (rw_gdi w)) a 1 {} w'" "rw_res w' = Map.empty"
proof -
  obtain ec R g where c: "CreateBasicResources gd wn spec (rw_gdi w) = (ec, R, g)" by (cases "CreateBasicResources gd wn spec (rw_gdi w)")
  have none: "ec \<noteq> NkErr_Ok" if "R = None"
    using c that by (auto simp: CreateBasicResources_def Let_def split: if_splits prod.splits)
  then obtain R' where R: "R = Some R'" using assms(3,7) c by (cases R) (auto simp: GdiRenderer_Initialize_def)
  from CreateBasic_dev[OF assms(1,2) c[unfolded R]] assms c R
  show "rd_inv v (gv_sel v (rw_gdi w)) (gv_live v (rw_gdi w)) a 1 {} w'" "rw_res w' = Map.empty"
    by (auto simp: GdiRenderer_Initialize_def the_rd_def rd_inv_def res_handles_def distinct_handles_def)
qed

text \<open>What a client may do: keep at least one reference of its own, name resources of this renderer, and not lose a mask
  because the pool allocator refuses memory.  \<open>n\<close> counts the references of the client.\<close>

inductive rd_reach :: "'g gdi_api \<Rightarrow> 'g wnd_iface \<Rightarrow> nat \<Rightarrow> 'g rd_world \<Rightarrow> nat \<Rightarrow> 'g rd_world \<Rightarrow> bool"
  for gd wn a w0 where
  start: "rd_reach gd wn a w0 1 w0"
| add_ref: "rd_reach gd wn a w0 n w \<Longrightarrow> GdiRenderer_AddRef a w = Done (c, w') \<Longrightarrow> rd_reach gd wn a w0 (Suc n) w'"
| release: "rd_reach gd wn a w0 (Suc n) w \<Longrightarrow> 0 < n \<Longrightarrow> GdiRenderer_Release gd wn a w = Done (c, w') \<Longrightarrow> rd_reach gd wn a w0 n w'"
| texture: "rd_reach gd wn a w0 n w \<Longrightarrow> (case p of None \<Rightarrow> True | Some q \<Rightarrow> q \<in> dom (rw_res w))
    \<Longrightarrow> GdiRenderer_CreateTexture gd wn poolRes a bmp p w = Done (ec, p', w') \<Longrightarrow> rd_reach gd wn a w0 n w'"
| mask: "rd_reach gd wn a w0 n w \<Longrightarrow> (case p of None \<Rightarrow> poolRes = NkErr_Ok | Some q \<Rightarrow> q \<in> dom (rw_res w))
    \<Longrightarrow> GdiRenderer_CreateTextureMask gd wn poolRes a q col p w = Done (ec, p', w') \<Longrightarrow> rd_reach gd wn a w0 n w'"
| delete: "rd_reach gd wn a w0 n w \<Longrightarrow> GdiRenderer_DeleteResource gd wn a (Some p) w = Done (ec, p', w') \<Longrightarrow> rd_reach gd wn a w0 n w'"
| draw: "rd_reach gd wn a w0 n w \<Longrightarrow> GdiRenderer_DrawTexture gd a d p s w = Done (ec, w') \<Longrightarrow> rd_reach gd wn a w0 n w'"
| draw_masked: "rd_reach gd wn a w0 n w \<Longrightarrow> GdiRenderer_DrawMaskedTexture gd a d p so q mo w = Done (ec, w') \<Longrightarrow> rd_reach gd wn a w0 n w'"
| begin_draw: "rd_reach gd wn a w0 n w \<Longrightarrow> GdiRenderer_BeginDraw gd a w = Done (ec, w') \<Longrightarrow> rd_reach gd wn a w0 n w'"
| end_draw: "rd_reach gd wn a w0 n w \<Longrightarrow> GdiRenderer_EndDraw gd wn a w = Done (ec, w') \<Longrightarrow> rd_reach gd wn a w0 n w'"
| resize: "rd_reach gd wn a w0 n w \<Longrightarrow> GdiRenderer_Resize gd wn a sz w = Done (NkErr_Ok, w') \<Longrightarrow> rd_reach gd wn a w0 n w'"
| grab: "rd_reach gd wn a w0 n w \<Longrightarrow> GdiRenderer_GrabFramebuffer gd heap a w = Done (ec, res, w') \<Longrightarrow> rd_reach gd wn a w0 n w'"

lemma rd_reach_inv:
  assumes "gdi_laws v gd wn" "rd_inv v S0 L0 a 1 {} w0" "rd_reach gd wn a w0 n w"
  shows "rd_inv v S0 L0 a n {} w \<and> 0 < n"
  using assms(3)
proof induction
  case start
  show ?case using assms(2) by simp
next
  case (add_ref n w c w')
  then show ?case using AddRef_inv[of v S0 L0 a n "{}" w] by auto
next
  case (release n w c w')
  then show ?case using Release_inv[of v S0 L0 a n "{}" w gd wn] by auto
next
  case (texture n w p poolRes bmp ec p' w')
  then obtain m where "n = Suc m" by (cases n) auto
  with texture have "rd_inv v S0 L0 a (Suc m) {} w" by simp
  from CreateTexture_inv[OF assms(1) this texture(2), of poolRes bmp] texture(3) \<open>n = Suc m\<close> show ?case by auto
next
  case (mask n w p poolRes q col ec p' w')
  then obtain m where m: "n = Suc m" by (cases n) auto
  obtain tex where "rw_res w q = Some tex" "rr_resType tex = NkRdResTy_Texture"
    using mask(3) by (auto simp: GdiRenderer_CreateTextureMask_def the_res_def nk_outcome split: option.splits)
  moreover have "rd_inv v S0 L0 a (Suc m) {} w" using mask m by simp
  ultimately show ?case using CreateTextureMask_inv[OF assms(1) _ _ _ mask(2), of S0 L0 a m "{}" q tex col] mask(3) m by auto
next
  case (delete n w p ec p' w')
  then obtain m where m: "n = Suc m" by (cases n) auto
  obtain res where "rw_res w p = Some res"
    using delete(2) by (auto simp: GdiRenderer_DeleteResource_def the_res_def split: option.splits)
  with delete m show ?case using DeleteResource_inv[OF assms(1), of S0 L0 a m "{}" w p res] by auto
next
  case (draw n w d p s ec w')
  then show ?case using DrawTexture_inv[OF assms(1)] by blast
next
  case (draw_masked n w d p so q mo ec w')
  then show ?case using DrawMaskedTexture_inv[OF assms(1)] by blast
next
  case (begin_draw n w ec w')
  then show ?case using BeginDraw_inv[OF assms(1), of S0 L0 a n "{}" w] by auto
next
  case (end_draw n w ec w')
  then show ?case using EndDraw_inv[OF assms(1), of S0 L0 a n "{}" w] by auto
next
  case (resize n w sz w')
  then have "rd_inv v S0 L0 a n {} w" by simp
  then have "rd_inv v S0 L0 a n {} w'"
    by (cases rule: Resize_inv[OF assms(1), of S0 L0 a n "{}" w sz]) (use resize(2) in auto)
  with resize show ?case by simp
next
  case (grab n w heap ec res w')
  then show ?case using GrabFramebuffer_inv[OF assms(1)] by blast
qed



text \<open>A device with the bookkeeping of the laws, and a renderer on it.\<close>

record toy_dev =
  td_next :: nat
  td_live :: "nat set"
  td_sel :: "nat \<rightharpoonup> nat"

definition toy_view :: "toy_dev gdi_view" where
  "toy_view = \<lparr>gv_sel = td_sel, gv_live = td_live, gv_def = 1\<rparr>"

definition toy_new :: "bool \<Rightarrow> toy_dev \<Rightarrow> nat \<times> toy_dev" where
  "toy_new isDC g = (let h = td_next g in
     if h \<le> 1 \<or> h \<in> td_live g then (0, g)
     else (h, \<lparr>td_next = Suc h, td_live = insert h (td_live g), td_sel = (if isDC then (td_sel g)(h \<mapsto> 1) else td_sel g)\<rparr>))"

definition toy_gdi :: "toy_dev gdi_api" where
  "toy_gdi = \<lparr>gd_GetDC = (\<lambda>_ g. (0, g)), gd_ReleaseDC = (\<lambda>_ _ g. g), gd_CreateCompatibleDC = (\<lambda>_. toy_new True),
     gd_DeleteDC = (\<lambda>dc g. g\<lparr>td_live := td_live g - {dc}, td_sel := (td_sel g)(dc := None)\<rparr>),
     gd_CreateCompatibleBitmap = (\<lambda>_ _ _. toy_new False), gd_CreateBitmap = (\<lambda>_ _. toy_new False),
     gd_CreateSolidBrush = (\<lambda>_ _ _. toy_new False),
     gd_SelectObject = (\<lambda>dc b g. case td_sel g dc of None \<Rightarrow> (0, g) | Some old \<Rightarrow> (old, g\<lparr>td_sel := (td_sel g)(dc \<mapsto> b)\<rparr>)),
     gd_GetCurrentBitmap = (\<lambda>dc g. case td_sel g dc of None \<Rightarrow> 0 | Some b \<Rightarrow> b), gd_DeleteObject = (\<lambda>h g. g\<lparr>td_live := td_live g - {h}\<rparr>),
     gd_GetObject = (\<lambda>_ _. (8, 8)), gd_SetStretchBltMode = (\<lambda>_ _ g. g), gd_SetBkColor = (\<lambda>_ c g. (c, g)), gd_FillRect = (\<lambda>_ _ _ g. g),
     gd_BitBlt = (\<lambda>_ _ _ _ _ g. g), gd_StretchBlt = (\<lambda>_ _ _ _ _ g. g), gd_MaskBlt = (\<lambda>_ _ _ _ _ _ _ g. g),
     gd_SetDIBits = (\<lambda>_ n _ _ g. (n, g)), gd_GetDIBits = (\<lambda>_ _ n _ px g. (int n, px, g)), gd_GdiFlush = id, gd_DwmFlush = id\<rparr>"

definition toy_wnd :: "toy_dev wnd_iface" where
  "toy_wnd = \<lparr>wi_QueryNativeWindowHandle = (\<lambda>_ _. 7), wi_GetClientDimensions = (\<lambda>_ _. \<lparr>m_width = 640, m_height = 480\<rparr>),
     wi_AddRef = (\<lambda>_. id), wi_Release = (\<lambda>_. id)\<rparr>"

lemma toy_laws: "gdi_laws toy_view toy_gdi toy_wnd"
  by (auto simp: gdi_laws_def draws_only_def keeps_def selects_def frees_def creates_def toy_view_def toy_gdi_def toy_wnd_def toy_new_def Let_def
      split: if_splits)

definition toy_spec :: NkRendererSpecification where
  "toy_spec = \<lparr>rs_wndRef = 9, rs_isVSync = False, rs_rendererApi = 2, rs_vpExtents = \<lparr>m_width = 16, m_height = 12\<rparr>,
     rs_dispTileSize = \<lparr>m_width = 32, m_height = 32\<rparr>, rs_vpAlignment = 18, rs_clearCol = \<lparr>m_rVal = 0, m_gVal = 0, m_bVal = 0, m_aVal = 255\<rparr>,
     rs_texInterMode = 1\<rparr>"

definition toy_world :: "toy_dev rd_world" where
  "toy_world = \<lparr>rw_rds = [5 \<mapsto> zero_renderer\<lparr>rd_refCount := 1\<rparr>], rw_res = Map.empty, rw_next = 6,
     rw_gdi = \<lparr>td_next = 2, td_live = {}, td_sel = Map.empty\<rparr>\<rparr>"



text \<open>When a resize cannot create the new back buffer, the renderer is left with none, and giving back the last reference
  fails the assertion about the back buffer.\<close>

lemma failed_resize_aborts_destruction:
  assumes "gdi_laws v gd wn" "rd_inv v S0 L0 a 1 {} w" "rw_res w = Map.empty" "GdiRenderer_Resize gd wn a sz w = Done (ec, w')" "ec \<noteq> NkErr_Ok"
  shows "GdiRenderer_Destroy gd wn a w' = Abort NkErr_ObjectState"
proof (cases rule: Resize_inv[OF assms(1,2), of sz])
  case (1 w1 r)
  then show ?thesis using assms(4,5) by simp
next
  case (2 w1 r t)
  then have w: "w1 = w'" using assms(4) by simp
  let ?R = "rd_gdiRes r"
  have d: "gv_def v \<noteq> 0" using assms(1) by (simp add: gdi_laws_def)
  let ?s = "gd_SelectObject gd (gr_texDC ?R) (gr_defTexBmp ?R) (rw_gdi w')"
  have "gv_sel v (snd ?s) = S0(gr_memDC ?R \<mapsto> gv_def v, gr_texDC ?R \<mapsto> gv_def v)"
    using gdi_select(2)[OF assms(1), of "rw_gdi w'" "gr_texDC ?R" t "gv_def v"] 2(5,7) w by simp
  then have "fst (gd_SelectObject gd (gr_memDC ?R) (gr_oldBmp ?R) (snd ?s)) = gv_def v"
    using gdi_select(1)[OF assms(1), of "snd ?s" "gr_memDC ?R" "gv_def v" "gv_def v"] 2(4,6) by simp
  then show ?thesis using 2(2,3) w d
    by (simp add: GdiRenderer_Destroy_def the_rd_def Let_def case_prod_beta)
qed

subsection \<open>Renderers by way of the object model\<close>

lemma rd_uuids [simp]:
  "NkUuidIsEqual CLSID_NkIGdiRenderer CLSID_NkIGdiRenderer"
  "NkOMQueryImplementationIndex [IID_NkIBase, IID_NkIInitializable, IID_NkIRenderer, IID_NkIGdiRenderer] IID_NkIRenderer = 2"
  "NkOMQueryImplementationIndex [IID_NkIBase, IID_NkIInitializable, IID_NkIRenderer, IID_NkIGdiRenderer] IID_NkIInitializable = 1"
  by (simp_all add: NkOMQueryImplementationIndex_def NkUuidIsEqual_def IID_NkIBase_def IID_NkIInitializable_def IID_NkIRenderer_def IID_NkIGdiRenderer_def)

lemma rd_vt_sel [simp]:
  "om_QueryInterface (rd_vt gd wn heap c) = rd_QueryInterface" "om_AddRef (rd_vt gd wn heap c) = rd_AddRef" "om_Release (rd_vt gd wn heap c) = rd_Release gd wn"
  by (simp_all add: rd_vt_def)

text \<open>With all resources, a renderer of its own reference is made.\<close>

lemma create_renderer_ok:
  assumes "reg_ok st ht" "length behind = 8" "ht_map ht (IdUuid CLSID_NkIGdiRenderer) = Some (Some RdFactory)"
    "om_objs st = \<lparr>ro_world = w, ro_fault = Done ()\<rparr>" "heap sizeof_GdiRenderer" "rs_rendererApi spec = NkRdApi_Win32GDI"
    "CreateBasicResources gd wn spec (rw_gdi w) = (NkErr_Ok, Some res, g)"
  shows "create_renderer gd wn heap behind clsAddr spec st = Done (NkErr_Ok, Some (RdAt (rw_next w)), st\<lparr>om_objs := \<lparr>ro_world =
          w\<lparr>rw_rds := (rw_rds w)(rw_next w \<mapsto> \<lparr>rd_refCount = 1, rd_wndRef = rs_wndRef spec, rd_initSpec = spec, rd_currSpec = spec, rd_gdiRes = res\<rparr>),
            rw_next := Suc (rw_next w), rw_gdi := wi_AddRef wn (rs_wndRef spec) g\<rparr>, ro_fault = Done ()\<rparr>\<rparr>)"
proof -
  have "NkOMQueryFactoryForClass behind (rd_vt gd wn heap clsAddr) (clsAddr, CLSID_NkIGdiRenderer) st = Done (NkErr_Ok, Some RdFactory, st)"
    using QueryFactory_spec[of st ht "(clsAddr, CLSID_NkIGdiRenderer)" behind "rd_vt gd wn heap clsAddr"] assms(1-3) by (simp add: CLSID_NkIGdiRenderer_def rd_AddRef_def)
  then show ?thesis using assms(1,4-7)
    by (simp add: create_renderer_def NkRendererQueryCLSIDFromApi_def NkOMCreateInstance_def finish_instance_def init_instance_def rd_vt_def reg_ok_def
          ro_step_def RendererFactory_CreateInstance_def NkGPAlloc_def sizeof_GdiRenderer_def GdiRenderer_AddRef_def the_rd_def rd_QueryInterface_def
          GdiRenderer_QueryInterface_def rd_Release_def GdiRenderer_Release_def GdiRenderer_Initialize_def zero_renderer_def
          rd_result_def Let_def case_prod_beta)
qed

text \<open>C27: Creating a renderer.  With the factory registered and memory granted, asking for the GDI renderer creates the
  resources on the device.  If this succeeds the caller gets a new renderer with one reference, made for the given window and
  specification; the window is referenced once.  If it fails, the object model releases the renderer, whose destructor
  uses the window it has not been given: undefined behaviour instead of the error code.  Every other choice of interface,
  the default one included, fails an assertion.\<close>

theorem renderer_creation:
  assumes "reg_ok st ht" "length behind = 8" "ht_map ht (IdUuid CLSID_NkIGdiRenderer) = Some (Some RdFactory)"
    "om_objs st = \<lparr>ro_world = w, ro_fault = Done ()\<rparr>" "heap sizeof_GdiRenderer"
    "CreateBasicResources gd wn spec (rw_gdi w) = (ec, R, g)" "fst (gd_SelectObject gd 0 0 (snd (gd_SelectObject gd 0 0 g))) = 0"
  shows "create_renderer gd wn heap behind clsAddr spec st =
    (if rs_rendererApi spec \<noteq> NkRdApi_Win32GDI then Abort NkErr_InParameter
     else case R of None \<Rightarrow> Undef
      | Some res \<Rightarrow> Done (NkErr_Ok, Some (RdAt (rw_next w)), st\<lparr>om_objs := \<lparr>ro_world =
          w\<lparr>rw_rds := (rw_rds w)(rw_next w \<mapsto> \<lparr>rd_refCount = 1, rd_wndRef = rs_wndRef spec, rd_initSpec = spec, rd_currSpec = spec, rd_gdiRes = res\<rparr>),
            rw_next := Suc (rw_next w), rw_gdi := wi_AddRef wn (rs_wndRef spec) g\<rparr>, ro_fault = Done ()\<rparr>\<rparr>))"
proof (cases "rs_rendererApi spec = NkRdApi_Win32GDI")
  case True
  let ?a = "rw_next w" and ?vt = "rd_vt gd wn heap clsAddr"
  have ini: "om_isInitialized st" using assms(1) by (simp add: reg_ok_def)
  have q: "NkOMQueryFactoryForClass behind ?vt (clsAddr, CLSID_NkIGdiRenderer) st = Done (NkErr_Ok, Some RdFactory, st)"
    using QueryFactory_spec[of st ht "(clsAddr, CLSID_NkIGdiRenderer)" behind ?vt] assms(1-3) by (simp add: CLSID_NkIGdiRenderer_def rd_AddRef_def)
  have ec: "R = None \<longleftrightarrow> ec \<noteq> NkErr_Ok"
    using assms(6) by (auto simp: CreateBasicResources_def Let_def split: if_splits prod.splits)
  show ?thesis
  proof (cases R)
    case None
    with assms(4-7) ec True ini q show ?thesis
      by (simp add: create_renderer_def NkRendererQueryCLSIDFromApi_def NkOMCreateInstance_def finish_instance_def init_instance_def rd_vt_def
          ro_step_def RendererFactory_CreateInstance_def NkGPAlloc_def sizeof_GdiRenderer_def GdiRenderer_AddRef_def the_rd_def rd_QueryInterface_def
          GdiRenderer_QueryInterface_def rd_Release_def GdiRenderer_Release_def GdiRenderer_Destroy_def GdiRenderer_Initialize_def zero_renderer_def
          rd_result_def Let_def case_prod_beta)
  next
    case (Some res)
    with ec assms(6) have "CreateBasicResources gd wn spec (rw_gdi w) = (NkErr_Ok, Some res, g)" by simp
    from create_renderer_ok[of st ht behind w heap spec, OF assms(1-5) True this] Some True show ?thesis by simp
  qed
next
  case False
  then show ?thesis using assms(1) by (simp add: create_renderer_def NkRendererQueryCLSIDFromApi_def reg_ok_def)
qed


text \<open>The object model with the renderer factory registered in its first slot.\<close>

definition sample_rd_registry :: "rd_obj NkHashtable" where
  "sample_rd_registry = \<lparr>ht_elemCount = 1, ht_currCap = 16, ht_htProps = om_props, ht_elemArray =
     \<lparr>m_regPair = \<lparr>m_keyVal = mp_uuidKey 4096 CLSID_NkIGdiRenderer, mp_valuePtr = Some RdFactory\<rparr>, m_isUsed = True, m_offset = 0\<rparr>
     # replicate 15 zero_slot\<rparr>"

definition sample_rd_om :: "toy_dev rd_om" where
  "sample_rd_om = \<lparr>om_isInitialized = True, om_isDebugEnabled = False, om_classReg = Some sample_rd_registry,
     om_htctx = \<lparr>m_hashSeed = 1, ptr_bytes = (\<lambda>_. replicate 8 0)\<rparr>, om_rnd = \<lparr>s0 = 1, s1 = 2, s2 = 3, s3 = 4\<rparr>,
     om_objs = \<lparr>ro_world = toy_world\<lparr>rw_rds := Map.empty\<rparr>, ro_fault = Done ()\<rparr>\<rparr>"

lemma sample_rd_om_facts [simp]:
  "reg_ok sample_rd_om sample_rd_registry" "ht_map sample_rd_registry (IdUuid CLSID_NkIGdiRenderer) = Some (Some RdFactory)"
  "om_objs sample_rd_om = \<lparr>ro_world = toy_world\<lparr>rw_rds := Map.empty\<rparr>, ro_fault = Done ()\<rparr>"
  by (auto simp: reg_ok_def sample_rd_om_def sample_rd_registry_def om_props_def ht_wf_def ht_pairs_def
      cx_ok_def ht_limits_def ht_map_def pair_kv_def CLSID_NkIGdiRenderer_def)

theorem renderer_creation_witness:
  "(\<exists>st r. create_renderer toy_gdi toy_wnd (\<lambda>_. True) (replicate 8 0) 4096 toy_spec sample_rd_om = Done (NkErr_Ok, Some (RdAt 6), st)
      \<and> rw_rds (ro_world (om_objs st)) 6 = Some r \<and> rd_refCount r = 1)
   \<and> create_renderer (toy_gdi\<lparr>gd_CreateBitmap := \<lambda>_ _ g. (0, g), gd_CreateCompatibleBitmap := \<lambda>_ _ _ g. (0, g)\<rparr>) toy_wnd (\<lambda>_. True) (replicate 8 0) 4096 toy_spec sample_rd_om = Undef"
proof
  let ?w = "toy_world\<lparr>rw_rds := Map.empty\<rparr>" and ?f = "toy_gdi\<lparr>gd_CreateBitmap := \<lambda>_ _ g. (0, g), gd_CreateCompatibleBitmap := \<lambda>_ _ _ g. (0, g)\<rparr>"
  note cr = renderer_creation[OF sample_rd_om_facts(1) _ sample_rd_om_facts(2,3), of "replicate 8 0" "\<lambda>_. True"]
  obtain R g where ok: "CreateBasicResources toy_gdi toy_wnd toy_spec (rw_gdi ?w) = (NkErr_Ok, Some R, g)" "td_sel g 0 = None"
    by (simp add: CreateBasicResources_def toy_gdi_def toy_wnd_def toy_world_def toy_new_def Let_def)
  have "fst (gd_SelectObject toy_gdi 0 0 (snd (gd_SelectObject toy_gdi 0 0 g))) = 0" using ok(2) by (simp add: toy_gdi_def)
  from cr[OF _ _ ok(1) this, of 4096] show "\<exists>st r. create_renderer toy_gdi toy_wnd (\<lambda>_. True) (replicate 8 0) 4096 toy_spec sample_rd_om
      = Done (NkErr_Ok, Some (RdAt 6), st) \<and> rw_rds (ro_world (om_objs st)) 6 = Some r \<and> rd_refCount r = 1"
    by (simp add: toy_spec_def toy_world_def)
  obtain g2 where f: "CreateBasicResources ?f toy_wnd toy_spec (rw_gdi ?w) = (NkErr_CreateCompBitmap, None, g2)" "td_sel g2 0 = None"
    by (simp add: CreateBasicResources_def toy_gdi_def toy_wnd_def toy_world_def toy_new_def Let_def)
  have "fst (gd_SelectObject ?f 0 0 (snd (gd_SelectObject ?f 0 0 g2))) = 0" using f(2) by (simp add: toy_gdi_def)
  from cr[OF _ _ f(1) this, of 4096] show "create_renderer ?f toy_wnd (\<lambda>_. True) (replicate 8 0) 4096 toy_spec sample_rd_om = Undef"
    by (simp add: toy_spec_def)
qed

text \<open>The source rectangle.  Without one the whole texture is drawn; the documented way to ask for the rest of the texture, a
  size of -1, gives a size one larger than the texture.\<close>

lemma norm_src_rect_rest:
  assumes "rf_width s = - 1" "rf_height s = - 1" "0 \<le> tw" "tw < 2 ^ 23" "0 \<le> th" "th < 2 ^ 23"
  shows "norm_src_rect (tw, th) (Some s) = s\<lparr>rf_width := of_int (tw + 1), rf_height := of_int (th + 1)\<rparr>"
  using assms f32_int[of tw] f32_int[of th] f32_int[of "tw + 1"] f32_int[of "th + 1"] by (simp add: norm_src_rect_def)

end
