(* ===== verification/NkWindow.thy ===== *)
theory NkWindow
  imports NkRenderer NkMainLoop NkEvent NkInput
begin

unbundle bit_operations_syntax

section \<open>The window (src/Noriko/window.c, platform/windows/winwindow.c)\<close>

text \<open>
  The main window with its window procedure, its renderer and the events it sends to the layers.  The state is that of the
  main loop: the layer stack, the application behind it, and there the window and the object model with the
  renderers.  The methods of the layers see and change all of it.

  Windows is the argument \<open>win32\<close>.  Its functions work on the device state of the renderers.  A function that sends
  messages to the window procedure before it returns is a tree of type \<open>native\<close>: it returns, or it sends a message
  and goes on with the answer.  The window procedure is called for each message, and may call such functions itself,
  so that it can be entered again before it has returned, as the real one.
\<close>

subsection \<open>Enumerations (include/Noriko/window.h)\<close>

abbreviation (input) NkWndMode_Unknown :: "32 word" where "NkWndMode_Unknown \<equiv> 0"
abbreviation (input) NkWndMode_Minimized :: "32 word" where "NkWndMode_Minimized \<equiv> 1"
abbreviation (input) NkWndMode_Maximized :: "32 word" where "NkWndMode_Maximized \<equiv> 2"
abbreviation (input) NkWndMode_Fullscreen :: "32 word" where "NkWndMode_Fullscreen \<equiv> 4"
abbreviation (input) NkWndMode_Normal :: "32 word" where "NkWndMode_Normal \<equiv> 8"
abbreviation (input) NkWndMode_Visible :: "32 word" where "NkWndMode_Visible \<equiv> 16"
abbreviation (input) NkWndMode_Hidden :: "32 word" where "NkWndMode_Hidden \<equiv> 32"
abbreviation (input) NkWndMode_All :: "32 word" where "NkWndMode_All \<equiv> 63"

abbreviation (input) NkWndFlag_MessageOnlyWnd :: "32 word" where "NkWndFlag_MessageOnlyWnd \<equiv> 1"
abbreviation (input) NkWndFlag_AlwaysOnTop :: "32 word" where "NkWndFlag_AlwaysOnTop \<equiv> 2"
abbreviation (input) NkWndFlag_MainWindow :: "32 word" where "NkWndFlag_MainWindow \<equiv> 4"
abbreviation (input) NkWndFlag_DragResizable :: "32 word" where "NkWndFlag_DragResizable \<equiv> 8"
abbreviation (input) NkWndFlag_DragMovable :: "32 word" where "NkWndFlag_DragMovable \<equiv> 16"

text \<open>The enumerators behind the last one: \<open>__NkWndMode_Count__\<close>, \<open>__NkWndFlag_Count__\<close>, \<open>__NkVpAlign_Count__\<close>.\<close>

definition NkWndMode_Count :: nat where
  "NkWndMode_Count = 64"

definition NkWndFlag_Count :: nat where
  "NkWndFlag_Count = 17"

definition NkVpAlign_Count :: nat where
  "NkVpAlign_Count = 33"

definition is_enum_flag :: "nat \<Rightarrow> 32 word \<Rightarrow> bool" where
  "is_enum_flag n f \<longleftrightarrow> 0 \<le> sint f \<and> f AND (f - 1) = 0 \<and> sint f < int n"

definition gl_WindowModeStrs :: "string list" where
  "gl_WindowModeStrs = designated NkWndMode_Count []
     [(0, ''NkWndMode_Unknown''), (1, ''NkWndMode_Minimized''), (2, ''NkWndMode_Maximized''), (4, ''NkWndMode_Fullscreen''),
      (8, ''NkWndMode_Normal''), (16, ''NkWndMode_Visible''), (32, ''NkWndMode_Hidden''), (24, ''NkWndMode_Default''), (63, ''NkWndMode_All'')]"

definition NkWindowGetModeStr :: "32 word \<Rightarrow> string outcome" where
  "NkWindowGetModeStr wndMode = nk_assert (is_enum_flag NkWndMode_Count wndMode) NkErr_InParameter (mem_read gl_WindowModeStrs (unat wndMode))"

definition gl_WindowFlagStrs :: "string list" where
  "gl_WindowFlagStrs = designated NkWndFlag_Count []
     [(0, ''NkWndFlag_Default''), (1, ''NkWndFlag_MessageOnlyWnd''), (2, ''NkWndFlag_AlwaysOnTop''), (4, ''NkWndFlag_MainWindow''),
      (8, ''NkWndFlag_DragResizable''), (16, ''NkWndFlag_DragMovable'')]"

definition NkWindowGetFlagStr :: "32 word \<Rightarrow> string outcome" where
  "NkWindowGetFlagStr wndFlag = nk_assert (is_enum_flag NkWndFlag_Count wndFlag) NkErr_InParameter (mem_read gl_WindowFlagStrs (unat wndFlag))"

definition gl_ViewportAlignmentStrs :: "string list" where
  "gl_ViewportAlignmentStrs = designated NkVpAlign_Count []
     [(1, ''NkVpAlign_Top''), (2, ''NkVpAlign_VCenter''), (4, ''NkVpAlign_Bottom''), (8, ''NkVpAlign_Left''), (16, ''NkVpAlign_HCenter''),
      (32, ''NkVpAlign_Right'')]"

definition NkWindowGetViewportAlignmentStr :: "32 word \<Rightarrow> string outcome" where
  "NkWindowGetViewportAlignmentStr vpAlignment =
     nk_assert (0 < sint vpAlignment \<and> is_enum_flag NkVpAlign_Count vpAlignment) NkErr_InParameter
       (mem_read gl_ViewportAlignmentStrs (unat vpAlignment))"

abbreviation (input) NkEv_None :: nat where "NkEv_None \<equiv> 0"
abbreviation (input) NkEv_WindowOpened :: nat where "NkEv_WindowOpened \<equiv> 1"
abbreviation (input) NkEv_WindowClosed :: nat where "NkEv_WindowClosed \<equiv> 2"
abbreviation (input) NkEv_WindowMinimized :: nat where "NkEv_WindowMinimized \<equiv> 6"
abbreviation (input) NkEv_WindowMaximized :: nat where "NkEv_WindowMaximized \<equiv> 7"
abbreviation (input) NkEv_WindowRestored :: nat where "NkEv_WindowRestored \<equiv> 8"
abbreviation (input) NkEv_WindowFullscreen :: nat where "NkEv_WindowFullscreen \<equiv> 10"
abbreviation (input) NkEv_KeyboardKeyDown :: nat where "NkEv_KeyboardKeyDown \<equiv> 13"
abbreviation (input) NkEv_KeyboardKeyUp :: nat where "NkEv_KeyboardKeyUp \<equiv> 14"
abbreviation (input) NkEv_KeyboardKeyRepeated :: nat where "NkEv_KeyboardKeyRepeated \<equiv> 15"
abbreviation (input) NkEv_MouseButtonDown :: nat where "NkEv_MouseButtonDown \<equiv> 16"
abbreviation (input) NkEv_MouseButtonUp :: nat where "NkEv_MouseButtonUp \<equiv> 17"
abbreviation (input) NkEv_MouseMoved :: nat where "NkEv_MouseMoved \<equiv> 18"
abbreviation (input) NkEv_MouseScrollUp :: nat where "NkEv_MouseScrollUp \<equiv> 19"
abbreviation (input) NkEv_MouseScrollDown :: nat where "NkEv_MouseScrollDown \<equiv> 20"

definition NkWindowMapEventTypeFromWindowMode :: "32 word \<Rightarrow> nat outcome" where
  "NkWindowMapEventTypeFromWindowMode wndMode =
     nk_assert (is_enum_flag NkWndMode_Count wndMode) NkErr_InParameter
       (mem_read (designated NkWndMode_Count NkEv_None [(8, NkEv_WindowRestored), (2, NkEv_WindowMaximized), (1, NkEv_WindowMinimized),
          (4, NkEv_WindowFullscreen)]) (unat wndMode))"

subsection \<open>Windows\<close>

record win_message =
  wm_hwnd :: nat
  wm_id :: nat
  wm_wParam :: "64 word"
  wm_lParam :: "64 word"

text \<open>The result of the window procedure, and the minimum track size if the procedure has stored one.\<close>

type_synonym wnd_reply = "int \<times> (int \<times> int) option"

datatype 'g native = Returns int 'g | Sends win_message 'g "wnd_reply \<Rightarrow> 'g \<Rightarrow> 'g native"

text \<open>A function that fills in a rectangle returns whether it succeeded and what the memory holds afterwards.\<close>

record 'g win32 =
  w32_IsZoomed :: "nat \<Rightarrow> 'g \<Rightarrow> bool"
  w32_IsIconic :: "nat \<Rightarrow> 'g \<Rightarrow> bool"
  w32_GetUserData :: "nat \<Rightarrow> 'g \<Rightarrow> nat"
  w32_SetUserData :: "nat \<Rightarrow> nat \<Rightarrow> 'g \<Rightarrow> 'g"
  w32_ClientToScreen :: "nat \<Rightarrow> int \<times> int \<Rightarrow> 'g \<Rightarrow> int \<times> int"
  w32_GetSystemMenu :: "nat \<Rightarrow> 'g \<Rightarrow> 64 word \<times> 'g"
  w32_EnableMenuItem :: "64 word \<Rightarrow> 'g \<Rightarrow> 'g"
  w32_GetStyle :: "nat \<Rightarrow> 'g \<Rightarrow> 32 word"
  w32_GetExStyle :: "nat \<Rightarrow> 'g \<Rightarrow> 32 word"
  w32_SetStyle :: "nat \<Rightarrow> 32 word \<Rightarrow> 'g \<Rightarrow> 'g native"
  w32_SetWindowPos :: "nat \<Rightarrow> nat \<Rightarrow> 'g \<Rightarrow> 'g native"
  w32_ShowWindow :: "nat \<Rightarrow> int \<Rightarrow> 'g \<Rightarrow> 'g native"
  w32_DefWindowProc :: "win_message \<Rightarrow> 'g \<Rightarrow> 'g native"
  w32_ValidateRect :: "nat \<Rightarrow> 'g \<Rightarrow> 'g"
  w32_PostQuitMessage :: "NkErrorCode \<Rightarrow> 'g \<Rightarrow> 'g"
  w32_AdjustWindowRectEx :: "win_rect \<Rightarrow> 32 word \<Rightarrow> 32 word \<Rightarrow> bool \<times> win_rect"
  w32_GetClientRect :: "nat \<Rightarrow> 'g \<Rightarrow> bool \<times> win_rect"
  w32_GetWindowRect :: "nat \<Rightarrow> 'g \<Rightarrow> bool \<times> win_rect"
  w32_RegisterClassEx :: "string \<Rightarrow> 'g \<Rightarrow> bool \<times> 'g"
  w32_UnregisterClass :: "string \<Rightarrow> 'g \<Rightarrow> 'g"
  w32_CreateWindowEx :: "32 word \<Rightarrow> string \<Rightarrow> string \<Rightarrow> 32 word \<Rightarrow> gdi_rect \<Rightarrow> bool \<Rightarrow> 'g \<Rightarrow> 'g native"
  w32_DwmDarkMode :: "nat \<Rightarrow> 'g \<Rightarrow> 'g"
  w32_DestroyWindow :: "nat \<Rightarrow> 'g \<Rightarrow> 'g native"
  w32_MaximizedExtents :: "'g \<Rightarrow> int \<times> int"
  w32_WorkArea :: "'g \<Rightarrow> win_rect option"

abbreviation (input) WM_DESTROY :: nat where "WM_DESTROY \<equiv> 0x02"
abbreviation (input) WM_SIZE :: nat where "WM_SIZE \<equiv> 0x05"
abbreviation (input) WM_PAINT :: nat where "WM_PAINT \<equiv> 0x0F"
abbreviation (input) WM_CLOSE :: nat where "WM_CLOSE \<equiv> 0x10"
abbreviation (input) WM_ERASEBKGND :: nat where "WM_ERASEBKGND \<equiv> 0x14"
abbreviation (input) WM_GETMINMAXINFO :: nat where "WM_GETMINMAXINFO \<equiv> 0x24"
abbreviation (input) WM_WINDOWPOSCHANGED :: nat where "WM_WINDOWPOSCHANGED \<equiv> 0x47"
abbreviation (input) WM_KEYDOWN :: nat where "WM_KEYDOWN \<equiv> 0x100"
abbreviation (input) WM_KEYUP :: nat where "WM_KEYUP \<equiv> 0x101"
abbreviation (input) WM_SYSKEYDOWN :: nat where "WM_SYSKEYDOWN \<equiv> 0x104"
abbreviation (input) WM_SYSKEYUP :: nat where "WM_SYSKEYUP \<equiv> 0x105"
abbreviation (input) WM_SYSCOMMAND :: nat where "WM_SYSCOMMAND \<equiv> 0x112"
abbreviation (input) WM_INITMENU :: nat where "WM_INITMENU \<equiv> 0x116"
abbreviation (input) WM_INITMENUPOPUP :: nat where "WM_INITMENUPOPUP \<equiv> 0x117"
abbreviation (input) WM_MOUSEMOVE :: nat where "WM_MOUSEMOVE \<equiv> 0x200"
abbreviation (input) WM_LBUTTONDOWN :: nat where "WM_LBUTTONDOWN \<equiv> 0x201"
abbreviation (input) WM_LBUTTONUP :: nat where "WM_LBUTTONUP \<equiv> 0x202"
abbreviation (input) WM_RBUTTONDOWN :: nat where "WM_RBUTTONDOWN \<equiv> 0x204"
abbreviation (input) WM_RBUTTONUP :: nat where "WM_RBUTTONUP \<equiv> 0x205"
abbreviation (input) WM_MBUTTONDOWN :: nat where "WM_MBUTTONDOWN \<equiv> 0x207"
abbreviation (input) WM_MBUTTONUP :: nat where "WM_MBUTTONUP \<equiv> 0x208"
abbreviation (input) WM_MOUSEWHEEL :: nat where "WM_MOUSEWHEEL \<equiv> 0x20A"
abbreviation (input) WM_XBUTTONDOWN :: nat where "WM_XBUTTONDOWN \<equiv> 0x20B"
abbreviation (input) WM_XBUTTONUP :: nat where "WM_XBUTTONUP \<equiv> 0x20C"

abbreviation (input) SW_HIDE :: int where "SW_HIDE \<equiv> 0"
abbreviation (input) SW_SHOWNORMAL :: int where "SW_SHOWNORMAL \<equiv> 1"
abbreviation (input) SW_SHOWMINIMIZED :: int where "SW_SHOWMINIMIZED \<equiv> 2"
abbreviation (input) SW_SHOWMAXIMIZED :: int where "SW_SHOWMAXIMIZED \<equiv> 3"
abbreviation (input) INT_MAX :: int where "INT_MAX \<equiv> 2147483647"

abbreviation (input) WS_MAXIMIZEBOX :: "32 word" where "WS_MAXIMIZEBOX \<equiv> 0x10000"
abbreviation (input) WS_MINIMIZEBOX :: "32 word" where "WS_MINIMIZEBOX \<equiv> 0x20000"
abbreviation (input) WS_SIZEBOX :: "32 word" where "WS_SIZEBOX \<equiv> 0x40000"
abbreviation (input) WS_SYSMENU :: "32 word" where "WS_SYSMENU \<equiv> 0x80000"
abbreviation (input) WS_CAPTION :: "32 word" where "WS_CAPTION \<equiv> 0xC00000"
abbreviation (input) WS_CLIPSIBLINGS :: "32 word" where "WS_CLIPSIBLINGS \<equiv> 0x4000000"
abbreviation (input) WS_EX_WINDOWEDGE :: "32 word" where "WS_EX_WINDOWEDGE \<equiv> 0x100"
abbreviation (input) WS_EX_APPWINDOW :: "32 word" where "WS_EX_APPWINDOW \<equiv> 0x40000"
abbreviation (input) SC_MOVE :: "64 word" where "SC_MOVE \<equiv> 0xF010"

subsection \<open>The window and the world it lives in\<close>

record 'o WindowsWindow =
  wn_nativeHandle :: nat
  wn_lastMousePos :: "int \<times> int"
  wn_allowedWndModes :: "32 word"
  wn_currWndMode :: "32 word"
  wn_wndFlags :: "32 word"
  wn_wndUuid :: NkUuid
  wn_rendererRef :: "nat option"
  wn_ialRef :: "'o option"

record ('o, 'g) wnd_world =
  wo_wnd :: "'o WindowsWindow"
  wo_om :: "'g rd_om"

type_synonym ('l, 'o, 'g) wnd_st = "('l, 'o, ('o, 'g) wnd_world) run_state"

definition wnd :: "('l, 'o, 'g) wnd_st \<Rightarrow> 'o WindowsWindow" where
  "wnd st = wo_wnd (ac_world (ls_env st))"

definition upd_wnd :: "('o WindowsWindow \<Rightarrow> 'o WindowsWindow) \<Rightarrow> ('l, 'o, 'g) wnd_st \<Rightarrow> ('l, 'o, 'g) wnd_st" where
  "upd_wnd f st = st\<lparr>ls_env := (ls_env st)\<lparr>ac_world := (ac_world (ls_env st))\<lparr>wo_wnd := f (wnd st)\<rparr>\<rparr>\<rparr>"

definition om :: "('l, 'o, 'g) wnd_st \<Rightarrow> 'g rd_om" where
  "om st = wo_om (ac_world (ls_env st))"

definition set_om :: "'g rd_om \<Rightarrow> ('l, 'o, 'g) wnd_st \<Rightarrow> ('l, 'o, 'g) wnd_st" where
  "set_om c st = st\<lparr>ls_env := (ls_env st)\<lparr>ac_world := (ac_world (ls_env st))\<lparr>wo_om := c\<rparr>\<rparr>\<rparr>"

definition rds :: "('l, 'o, 'g) wnd_st \<Rightarrow> 'g rd_world" where
  "rds st = ro_world (om_objs (om st))"

definition set_rds :: "'g rd_world \<Rightarrow> ('l, 'o, 'g) wnd_st \<Rightarrow> ('l, 'o, 'g) wnd_st" where
  "set_rds w st = set_om ((om st)\<lparr>om_objs := (om_objs (om st))\<lparr>ro_world := w\<rparr>\<rparr>) st"

definition native :: "('l, 'o, 'g) wnd_st \<Rightarrow> 'g" where
  "native st = rw_gdi (rds st)"

definition set_native :: "'g \<Rightarrow> ('l, 'o, 'g) wnd_st \<Rightarrow> ('l, 'o, 'g) wnd_st" where
  "set_native g st = set_rds (put_gdi g (rds st)) st"

text \<open>What the window needs from outside: Windows and GDI, the virtual key codes of Windows, the methods of the layers, the
  tick counter, its own address, the application with the address of the class identifier of the input component, and
  what creating the renderer takes.\<close>

record ('l, 'o, 'p, 'g) wnd_env =
  we_os :: "'g win32"
  we_gdi :: "'g gdi_api"
  we_vk :: "string \<Rightarrow> nat"
  we_vt :: "('l, NkEvent, ('l, 'o, 'g) wnd_st) NkILayer_vt"
  we_ticks :: "('l, 'o, 'g) wnd_st tick_counter"
  we_self :: nat
  we_app :: "('o, 'p, ('o, 'g) wnd_world) app_fns"
  we_ialAddr :: "64 word"
  we_heap :: heap_answer
  we_behind :: "byte list"
  we_clsAddr :: "64 word"

definition dispatch ::
    "('l, 'o, 'p, 'g) wnd_env \<Rightarrow> nat \<Rightarrow> event_data \<Rightarrow> ('l, 'o, 'g) wnd_st \<Rightarrow> (NkErrorCode \<times> ('l, 'o, 'g) wnd_st) outcome" where
  "dispatch E evType arg st = NkEventDispatch (we_vt E) (we_ticks E) evType arg st"

definition rect_size :: "win_rect \<Rightarrow> NkSize2D" where
  "rect_size = (\<lambda>(lf, tp, rt, bt). \<lparr>m_width = word_of_int (rt - lf), m_height = word_of_int (bt - tp)\<rparr>)"

subsection \<open>Queries\<close>

definition WindowsWindow_GetNewWindowMode :: "'g win32 \<Rightarrow> nat \<Rightarrow> 'g \<Rightarrow> 32 word" where
  "WindowsWindow_GetNewWindowMode os wndHandle g =
     (if w32_IsZoomed os wndHandle g then NkWndMode_Maximized
      else if w32_IsIconic os wndHandle g then NkWndMode_Minimized else NkWndMode_Normal)"

definition WindowsWindow_MapFromNativeInputEvent :: "nat \<Rightarrow> nat" where
  "WindowsWindow_MapFromNativeInputEvent msgId =
     (if msgId = WM_KEYDOWN \<or> msgId = WM_SYSKEYDOWN then NkEv_KeyboardKeyDown
      else if msgId = WM_KEYUP \<or> msgId = WM_SYSKEYUP then NkEv_KeyboardKeyUp
      else if msgId = WM_LBUTTONDOWN \<or> msgId = WM_MBUTTONDOWN \<or> msgId = WM_RBUTTONDOWN \<or> msgId = WM_XBUTTONDOWN then NkEv_MouseButtonDown
      else if msgId = WM_LBUTTONUP \<or> msgId = WM_MBUTTONUP \<or> msgId = WM_RBUTTONUP \<or> msgId = WM_XBUTTONUP then NkEv_MouseButtonUp
      else NkEv_None)"

definition WindowsWindow_MapFromWindowModes :: "32 word \<Rightarrow> 32 word \<Rightarrow> 32 word" where
  "WindowsWindow_MapFromWindowModes allowedWndModes wndFlags =
     (let initialValue = 0 OR WS_SYSMENU OR WS_CAPTION OR WS_CLIPSIBLINGS;
          initialValue = (if allowedWndModes AND NkWndMode_Maximized \<noteq> 0 then initialValue OR WS_MAXIMIZEBOX else initialValue);
          initialValue = (if allowedWndModes AND NkWndMode_Minimized \<noteq> 0 then initialValue OR WS_MINIMIZEBOX else initialValue)
      in if wndFlags AND NkWndFlag_DragResizable \<noteq> 0 then initialValue OR WS_SIZEBOX else initialValue)"

definition WindowsWindow_TranslateWindowModeToShowCommand :: "32 word \<Rightarrow> int" where
  "WindowsWindow_TranslateWindowModeToShowCommand wndMode =
     (if wndMode = NkWndMode_Hidden then SW_HIDE
      else if wndMode = NkWndMode_Fullscreen \<or> wndMode = NkWndMode_Maximized then SW_SHOWMAXIMIZED
      else if wndMode = NkWndMode_Minimized then SW_SHOWMINIMIZED
      else if wndMode = NkWndMode_Normal then SW_SHOWNORMAL else INT_MAX)"

definition WindowsWindow_AdjustViewportExtents ::
    "'g win32 \<Rightarrow> NkSize2D \<Rightarrow> NkSize2D \<Rightarrow> 32 word \<Rightarrow> 32 word \<Rightarrow> 'g \<Rightarrow> NkSize2D outcome" where
  "WindowsWindow_AdjustViewportExtents os vpExtents dspTsize wndStyle extWndStyle g =
     (let (ok, r) = w32_AdjustWindowRectEx os (0, 0, 0, 0) wndStyle extWndStyle in
      obind (NkCalculateMaximumViewportExtents (w32_MaximizedExtents os g) (if ok then Some r else None) dspTsize) (\<lambda>maxVpExtents.
        Done \<lparr>m_width = min (m_width vpExtents) (m_width maxVpExtents), m_height = min (m_height vpExtents) (m_height maxVpExtents)\<rparr>))"

definition WindowsWindow_GetWindowSize :: "'g win32 \<Rightarrow> nat \<Rightarrow> bool \<Rightarrow> 'g \<Rightarrow> NkSize2D" where
  "WindowsWindow_GetWindowSize os wndHandle isClientArea g =
     (let (ok, res) = (if isClientArea then w32_GetClientRect os wndHandle g else w32_GetWindowRect os wndHandle g)
      in if \<not> ok then \<lparr>m_width = 0, m_height = 0\<rparr> else rect_size res)"

definition WindowsWindow_IsWindowFlagMutable :: "32 word \<Rightarrow> bool" where
  "WindowsWindow_IsWindowFlagMutable wndFlag =
     (if wndFlag = NkWndFlag_MessageOnlyWnd \<or> wndFlag = NkWndFlag_MainWindow then False
      else wndFlag = NkWndFlag_AlwaysOnTop \<or> wndFlag = NkWndFlag_DragMovable \<or> wndFlag = NkWndFlag_DragResizable)"

text \<open>The window is a static object; counting references does nothing.\<close>

definition WindowsWindow_AddRef :: int where
  "WindowsWindow_AddRef = 1"

definition WindowsWindow_Release :: int where
  "WindowsWindow_Release = 1"

definition IID_NkIWindow :: NkUuid where
  "IID_NkIWindow = [0xb3, 0x03, 0xdd, 0xd9, 0x6e, 0x53, 0x0e, 0x41, 0xb5, 0x6a, 0x5a, 0x91, 0xbf, 0xda, 0xa5, 0x8b]"

definition WindowsWindow_QueryInterface :: "NkUuid \<Rightarrow> NkErrorCode \<times> bool" where
  "WindowsWindow_QueryInterface iId =
     (if NkOMQueryImplementationIndex [IID_NkIBase, IID_NkIInitializable, IID_NkIWindow] iId \<noteq> SIZE_MAX then (NkErr_Ok, True)
      else (NkErr_InterfaceNotImpl, False))"

definition WindowsWindow_OnUpdate :: "rat \<Rightarrow> ('l, 'o, 'g) wnd_st \<Rightarrow> ('l, 'o, 'g) wnd_st" where
  "WindowsWindow_OnUpdate deltaTime st = st"

definition WindowsWindow_QueryAllowedWindowModes :: "('l, 'o, 'g) wnd_st \<Rightarrow> 32 word" where
  "WindowsWindow_QueryAllowedWindowModes st = wn_allowedWndModes (wnd st)"

definition WindowsWindow_QueryNativeWindowHandle :: "('l, 'o, 'g) wnd_st \<Rightarrow> nat" where
  "WindowsWindow_QueryNativeWindowHandle st = wn_nativeHandle (wnd st)"

definition WindowsWindow_QueryWindowIdentifier :: "('l, 'o, 'g) wnd_st \<Rightarrow> NkUuid" where
  "WindowsWindow_QueryWindowIdentifier st = wn_wndUuid (wnd st)"

definition WindowsWindow_GetWindowMode :: "('l, 'o, 'g) wnd_st \<Rightarrow> 32 word" where
  "WindowsWindow_GetWindowMode st = wn_currWndMode (wnd st)"

definition WindowsWindow_GetWindowFlag :: "32 word \<Rightarrow> ('l, 'o, 'g) wnd_st \<Rightarrow> bool" where
  "WindowsWindow_GetWindowFlag wndFlag st \<longleftrightarrow> wn_wndFlags (wnd st) AND wndFlag \<noteq> 0"

definition WindowsWindow_GetClientDimensions :: "'g win32 \<Rightarrow> ('l, 'o, 'g) wnd_st \<Rightarrow> NkSize2D" where
  "WindowsWindow_GetClientDimensions os st = rect_size (snd (w32_GetClientRect os (WindowsWindow_QueryNativeWindowHandle st) (native st)))"

definition WindowsWindow_GetRenderer :: "('l, 'o, 'g) wnd_st \<Rightarrow> (nat \<times> ('l, 'o, 'g) wnd_st) outcome" where
  "WindowsWindow_GetRenderer st =
     (case wn_rendererRef (wnd st) of None \<Rightarrow> Undef
      | Some a \<Rightarrow> obind (GdiRenderer_AddRef a (rds st)) (\<lambda>(_, w). Done (a, set_rds w st)))"

text \<open>The methods of the window that its renderer calls.\<close>

definition window_iface :: "'g win32 \<Rightarrow> 'o WindowsWindow \<Rightarrow> 'g wnd_iface" where
  "window_iface os W =
     \<lparr>wi_QueryNativeWindowHandle = (\<lambda>_ _. wn_nativeHandle W),
      wi_GetClientDimensions = (\<lambda>_ g. rect_size (snd (w32_GetClientRect os (wn_nativeHandle W) g))),
      wi_AddRef = (\<lambda>_ g. g), wi_Release = (\<lambda>_ g. g)\<rparr>"

subsection \<open>The window procedure\<close>

definition GET_X_LPARAM :: "64 word \<Rightarrow> int" where
  "GET_X_LPARAM lp = sint (ucast lp :: 16 word)"

definition GET_Y_LPARAM :: "64 word \<Rightarrow> int" where
  "GET_Y_LPARAM lp = sint (ucast (drop_bit 16 lp) :: 16 word)"

definition wnd_event :: "nat \<Rightarrow> event_data" where
  "wnd_event self = m_wndEvent \<lparr>mp_wndRef = self, m_wndPos = \<lparr>m_xCoord = 0, m_yCoord = 0\<rparr>, m_wndSize = \<lparr>m_width = 0, m_height = 0\<rparr>,
     m_totalWndSize = \<lparr>m_width = 0, m_height = 0\<rparr>, m_wndMode = 0\<rparr>"

definition mouse_event :: "'g win32 \<Rightarrow> win_message \<Rightarrow> nat \<Rightarrow> 'g \<Rightarrow> event_data" where
  "mouse_event os msg btn g =
     (let x = GET_X_LPARAM (wm_lParam msg); y = GET_Y_LPARAM (wm_lParam msg);
          (gx, gy) = w32_ClientToScreen os (wm_hwnd msg) (x, y) g
      in m_mouseEvent \<lparr>m_curPos = \<lparr>m_xCoord = word_of_int x, m_yCoord = word_of_int y\<rparr>,
           m_glCurPos = \<lparr>m_xCoord = word_of_int gx, m_yCoord = word_of_int gy\<rparr>, m_mouseBtn = btn\<rparr>)"

definition on_key :: "('l, 'o, 'p, 'g) wnd_env \<Rightarrow> win_message \<Rightarrow> ('l, 'o, 'g) wnd_st \<Rightarrow> (NkErrorCode \<times> ('l, 'o, 'g) wnd_st) outcome" where
  "on_key E msg st =
     (let evType = (if wm_id msg = WM_KEYDOWN \<and> wm_lParam msg AND push_bit 30 1 \<noteq> 0 then NkEv_KeyboardKeyRepeated
                    else WindowsWindow_MapFromNativeInputEvent (wm_id msg))
      in if wn_ialRef (wnd st) = None then Undef
         else obind (MapFromNativeKey (we_vk E) (int_of64 (wm_wParam msg))) (\<lambda>vKeyCode.
           dispatch E evType (m_kbEvent \<lparr>m_pKeyCode = int_of64 (wm_lParam msg AND 0xFF0000), m_vNtKeyCode = int_of64 (wm_wParam msg),
             m_vKeyCode = vKeyCode\<rparr>) st))"

definition on_mouse_button :: "('l, 'o, 'p, 'g) wnd_env \<Rightarrow> win_message \<Rightarrow> ('l, 'o, 'g) wnd_st \<Rightarrow> (NkErrorCode \<times> ('l, 'o, 'g) wnd_st) outcome" where
  "on_mouse_button E msg st =
     (let ntBtn = drop_bit (if wm_id msg = WM_XBUTTONDOWN \<or> wm_id msg = WM_XBUTTONUP then 16 else 0) (wm_wParam msg)
      in if wn_ialRef (wnd st) = None then Undef
         else obind (MapFromNativeMouseButton (we_vk E) (int_of64 ntBtn)) (\<lambda>mouseBtn.
           dispatch E (WindowsWindow_MapFromNativeInputEvent (wm_id msg)) (mouse_event (we_os E) msg mouseBtn (native st)) st))"

definition on_mouse_move :: "('l, 'o, 'p, 'g) wnd_env \<Rightarrow> win_message \<Rightarrow> ('l, 'o, 'g) wnd_st \<Rightarrow> (NkErrorCode \<times> ('l, 'o, 'g) wnd_st) outcome" where
  "on_mouse_move E msg st =
     (let pos = (GET_X_LPARAM (wm_lParam msg), GET_Y_LPARAM (wm_lParam msg)) in
      if wn_lastMousePos (wnd st) = pos then Done (NkErr_Ok, st)
      else dispatch E NkEv_MouseMoved (mouse_event (we_os E) msg NkBtn_Unknown (native st)) (upd_wnd (wn_lastMousePos_update (\<lambda>_. pos)) st))"

definition on_mouse_wheel :: "('l, 'o, 'p, 'g) wnd_env \<Rightarrow> win_message \<Rightarrow> ('l, 'o, 'g) wnd_st \<Rightarrow> (NkErrorCode \<times> ('l, 'o, 'g) wnd_st) outcome" where
  "on_mouse_wheel E msg st =
     (if drop_bit 16 (wm_wParam msg) = 0 then Done (NkErr_Ok, st)
      else let evType = (if 0 < sint (ucast (drop_bit 16 (wm_wParam msg)) :: 16 word) then NkEv_MouseScrollUp else NkEv_MouseScrollDown)
           in dispatch E evType (mouse_event (we_os E) msg NkBtn_Unknown (native st)) st)"

definition on_size :: "('l, 'o, 'p, 'g) wnd_env \<Rightarrow> bool \<Rightarrow> ('l, 'o, 'g) wnd_st \<Rightarrow> ('l, 'o, 'g) wnd_st outcome" where
  "on_size E haveRef st =
     (case wn_rendererRef (wnd st) of
        Some a \<Rightarrow> if haveRef
          then obind (GdiRenderer_Resize (we_gdi E) (window_iface (we_os E) (wnd st)) a (WindowsWindow_GetClientDimensions (we_os E) st) (rds st))
                 (\<lambda>(_, w). Done (set_rds w st))
          else Done st
      | None \<Rightarrow> Done st)"

text \<open>The smallest window that shows the viewport; \<open>None\<close> if there is no renderer.\<close>

definition min_track_size :: "('l, 'o, 'p, 'g) wnd_env \<Rightarrow> nat \<Rightarrow> bool \<Rightarrow> ('l, 'o, 'g) wnd_st \<Rightarrow> (int \<times> int) option outcome" where
  "min_track_size E wndHandle haveRef st =
     (case wn_rendererRef (wnd st) of
        Some a \<Rightarrow> if haveRef
          then obind (GdiRenderer_QueryViewportDimensions a (rds st)) (\<lambda>currVpDim.
            let (_, (lf, tp, rt, bt)) = w32_AdjustWindowRectEx (we_os E) (0, 0, int_of64 (m_width currVpDim), int_of64 (m_height currVpDim))
                  (w32_GetStyle (we_os E) wndHandle (native st)) (w32_GetExStyle (we_os E) wndHandle (native st))
            in Done (Some (rt - lf, bt - tp)))
          else Done None
      | None \<Rightarrow> Done None)"

text \<open>\<open>run\<close> carries out a function of Windows that may send messages.\<close>

type_synonym ('l, 'o, 'g) runner = "'g native \<Rightarrow> ('l, 'o, 'g) wnd_st \<Rightarrow> (int \<times> ('l, 'o, 'g) wnd_st) outcome option"

definition SetWindowMode_with ::
    "('l, 'o, 'g) runner \<Rightarrow> ('l, 'o, 'p, 'g) wnd_env \<Rightarrow> 32 word \<Rightarrow> ('l, 'o, 'g) wnd_st \<Rightarrow> (NkErrorCode \<times> ('l, 'o, 'g) wnd_st) outcome option" where
  "SetWindowMode_with run E newMode st =
     (if newMode AND (newMode - 1) \<noteq> 0 then Some (Abort NkErr_InParameter)
      else if newMode AND WindowsWindow_QueryAllowedWindowModes st = 0
      then Some (obind (NkWindowGetModeStr newMode) (\<lambda>_. Done (NkErr_WndModeNotSupported, st)))
      else if WindowsWindow_TranslateWindowModeToShowCommand newMode \<noteq> INT_MAX
      then lbind (run (w32_ShowWindow (we_os E) (wn_nativeHandle (wnd st)) (WindowsWindow_TranslateWindowModeToShowCommand newMode) (native st))
                      (upd_wnd (wn_currWndMode_update (\<lambda>_. newMode)) st)) (\<lambda>(_, st).
             let size = (\<lambda>cl. WindowsWindow_GetWindowSize (we_os E) (wn_nativeHandle (wnd st)) cl (native st)) in
             Some (obind (NkWindowMapEventTypeFromWindowMode newMode) (\<lambda>evType.
               dispatch E evType (m_wndEvent \<lparr>mp_wndRef = we_self E, m_wndPos = \<lparr>m_xCoord = 0, m_yCoord = 0\<rparr>, m_wndSize = size False,
                 m_totalWndSize = size True, m_wndMode = unat newMode\<rparr>) st)))
      else Some (Done (NkErr_NotImplemented, st)))"

text \<open>Everything the switch does not return from goes on to the default procedure.\<close>

definition DefWindowProc_with ::
    "('l, 'o, 'g) runner \<Rightarrow> ('l, 'o, 'p, 'g) wnd_env \<Rightarrow> win_message \<Rightarrow> ('l, 'o, 'g) wnd_st \<Rightarrow> (wnd_reply \<times> ('l, 'o, 'g) wnd_st) outcome option" where
  "DefWindowProc_with run E msg st =
     lbind (run (w32_DefWindowProc (we_os E) msg (native st)) st) (\<lambda>(r, st). Some (Done ((r, None), st)))"

definition returns0 :: "(NkErrorCode \<times> ('l, 'o, 'g) wnd_st) outcome \<Rightarrow> (wnd_reply \<times> ('l, 'o, 'g) wnd_st) outcome option" where
  "returns0 r = Some (obind r (\<lambda>(_, st). Done ((0, None), st)))"

definition WndProc_with ::
    "('l, 'o, 'g) runner \<Rightarrow> ('l, 'o, 'p, 'g) wnd_env \<Rightarrow> win_message \<Rightarrow> ('l, 'o, 'g) wnd_st \<Rightarrow> (wnd_reply \<times> ('l, 'o, 'g) wnd_st) outcome option" where
  "WndProc_with run E msg st =
     (let os = we_os E; h = wm_hwnd msg; msgId = wm_id msg; haveRef = (w32_GetUserData os h (native st) \<noteq> 0) in
      if msgId = WM_KEYDOWN \<or> msgId = WM_SYSKEYDOWN \<or> msgId = WM_KEYUP \<or> msgId = WM_SYSKEYUP
      then if haveRef then returns0 (on_key E msg st) else Some Undef
      else if msgId = WM_LBUTTONDOWN \<or> msgId = WM_MBUTTONDOWN \<or> msgId = WM_RBUTTONDOWN \<or> msgId = WM_XBUTTONDOWN
        \<or> msgId = WM_LBUTTONUP \<or> msgId = WM_MBUTTONUP \<or> msgId = WM_RBUTTONUP \<or> msgId = WM_XBUTTONUP
      then if haveRef then returns0 (on_mouse_button E msg st) else Some Undef
      else if msgId = WM_MOUSEMOVE then if haveRef then returns0 (on_mouse_move E msg st) else Some Undef
      else if msgId = WM_MOUSEWHEEL then returns0 (on_mouse_wheel E msg st)
      else if msgId = WM_INITMENU \<or> msgId = WM_INITMENUPOPUP
      then let (sysMenu, g) = w32_GetSystemMenu os h (native st); st = set_native g st in
           if wm_wParam msg \<noteq> sysMenu then DefWindowProc_with run E msg st
           else if \<not> haveRef then Some Undef
           else if wn_wndFlags (wnd st) AND NkWndFlag_DragMovable = 0 then Some (Done ((0, None), set_native (w32_EnableMenuItem os sysMenu g) st))
           else DefWindowProc_with run E msg st
      else if msgId = WM_SYSCOMMAND
      then if wm_wParam msg AND 0xFFF0 \<noteq> SC_MOVE then DefWindowProc_with run E msg st
           else if \<not> haveRef then Some Undef
           else if wn_wndFlags (wnd st) AND NkWndFlag_DragMovable = 0 then Some (Done ((0, None), st))
           else DefWindowProc_with run E msg st
      else if msgId = WM_SIZE then lbind (Some (on_size E haveRef st)) (\<lambda>st. DefWindowProc_with run E msg st)
      else if msgId = WM_WINDOWPOSCHANGED
      then if \<not> haveRef then Some Undef
           else if wn_currWndMode (wnd st) XOR WindowsWindow_GetNewWindowMode os h (native st) \<noteq> 0
           then lbind (SetWindowMode_with run E (WindowsWindow_GetNewWindowMode os h (native st)) st) (\<lambda>(_, st). DefWindowProc_with run E msg st)
           else DefWindowProc_with run E msg st
      else if msgId = WM_GETMINMAXINFO
      then lbind (Some (min_track_size E h haveRef st)) (\<lambda>sz.
             if sz = None then DefWindowProc_with run E msg st else Some (Done ((0, sz), st)))
      else if msgId = WM_ERASEBKGND then Some (Done ((1, None), st))
      else if msgId = WM_PAINT then Some (Done ((0, None), set_native (w32_ValidateRect os h (native st)) st))
      else if msgId = WM_CLOSE
      then lbind (Some (dispatch E NkEv_WindowClosed (wnd_event (if haveRef then we_self E else 0)) st)) (\<lambda>(_, st).
           lbind (run (w32_ShowWindow os h SW_HIDE (native st)) st) (\<lambda>(_, st).
             if \<not> haveRef then Some Undef
             else Some (Done ((0, None),
               if wn_wndFlags (wnd st) AND NkWndFlag_MainWindow \<noteq> 0 then NkApplicationExit (\<lambda>ec st. set_native (w32_PostQuitMessage os ec (native st)) st) NkErr_Ok st
               else st))))
      else if msgId = WM_DESTROY
      then case wn_rendererRef (wnd st) of
             Some a \<Rightarrow> if haveRef
               then Some (obind (GdiRenderer_Release (we_gdi E) (window_iface os (wnd st)) a (rds st)) (\<lambda>(_, w). Done ((0, None), set_rds w st)))
               else Some Undef
           | None \<Rightarrow> Some Undef
      else DefWindowProc_with run E msg st)"

lemma DefWindowProc_mono [partial_function_mono]:
  assumes "\<And>t s. mono_option (\<lambda>f. R f t s)"
  shows "mono_option (\<lambda>f. DefWindowProc_with (R f) E msg st)"
  unfolding DefWindowProc_with_def by (intro partial_function_mono assms)

lemma SetWindowMode_mono [partial_function_mono]:
  assumes "\<And>t s. mono_option (\<lambda>f. R f t s)"
  shows "mono_option (\<lambda>f. SetWindowMode_with (R f) E newMode st)"
  unfolding SetWindowMode_with_def
  by (intro partial_function_mono assms)

lemma WndProc_mono [partial_function_mono]:
  assumes "\<And>t s. mono_option (\<lambda>f. R f t s)"
  shows "mono_option (\<lambda>f. WndProc_with (R f) E msg st)"
  unfolding WndProc_with_def Let_def
  by (cases "w32_GetSystemMenu (we_os E) (wm_hwnd msg) (native st)")
    (auto split: option.split intro!: partial_function_mono assms)

partial_function (option) run_native ::
    "('l, 'o, 'p, 'g) wnd_env \<Rightarrow> 'g native \<Rightarrow> ('l, 'o, 'g) wnd_st \<Rightarrow> (int \<times> ('l, 'o, 'g) wnd_st) outcome option" where
  "run_native E t st =
     (case t of
        Returns r g \<Rightarrow> Some (Done (r, set_native g st))
      | Sends msg g k \<Rightarrow> lbind (WndProc_with (\<lambda>t s. run_native E t s) E msg (set_native g st)) (\<lambda>(reply, st'). run_native E (k reply (native st')) st'))"

definition WindowsWindow_WndProc ::
    "('l, 'o, 'p, 'g) wnd_env \<Rightarrow> win_message \<Rightarrow> ('l, 'o, 'g) wnd_st \<Rightarrow> (wnd_reply \<times> ('l, 'o, 'g) wnd_st) outcome option" where
  "WindowsWindow_WndProc E = WndProc_with (run_native E) E"

definition WindowsWindow_SetWindowMode ::
    "('l, 'o, 'p, 'g) wnd_env \<Rightarrow> 32 word \<Rightarrow> ('l, 'o, 'g) wnd_st \<Rightarrow> (NkErrorCode \<times> ('l, 'o, 'g) wnd_st) outcome option" where
  "WindowsWindow_SetWindowMode E = SetWindowMode_with (run_native E) E"

definition WindowsWindow_SetWindowFlag ::
    "('l, 'o, 'p, 'g) wnd_env \<Rightarrow> 32 word \<Rightarrow> bool \<Rightarrow> ('l, 'o, 'g) wnd_st \<Rightarrow> (NkErrorCode \<times> ('l, 'o, 'g) wnd_st) outcome option" where
  "WindowsWindow_SetWindowFlag E wndFlag newVal st =
     (if WindowsWindow_GetWindowFlag wndFlag st = newVal \<or> \<not> WindowsWindow_IsWindowFlagMutable wndFlag then Some (Done (NkErr_NoOperation, st))
      else let st = upd_wnd (wn_wndFlags_update (\<lambda>f. f AND NOT wndFlag OR (if newVal then wndFlag else 0))) st; h = wn_nativeHandle (wnd st) in
        if wndFlag = NkWndFlag_DragResizable
        then let currWndStyle = w32_GetStyle (we_os E) h (native st) in
             lbind (run_native E (w32_SetStyle (we_os E) h (currWndStyle AND NOT WS_SIZEBOX OR (if newVal then WS_SIZEBOX else 0)) (native st)) st) (\<lambda>(_, st).
             lbind (run_native E (w32_SetWindowPos (we_os E) (wn_nativeHandle (wnd st)) 0x27 (native st)) st) (\<lambda>(_, st). Some (Done (NkErr_Ok, st))))
        else if wndFlag = NkWndFlag_DragMovable then Some (Done (NkErr_Ok, st))
        else Some (Done (NkErr_NotImplemented, st)))"

subsection \<open>Creating and destroying the window\<close>

record NkWindowSpecification =
  ws_rendererApi :: nat
  ws_vpAlignment :: "32 word"
  ws_isVSync :: bool
  ws_vpExtents :: NkSize2D
  ws_dispTileSize :: NkSize2D
  ws_allowedWndModes :: "32 word"
  ws_initialWndMode :: "32 word"
  ws_wndFlags :: "32 word"
  ws_nativeHandle :: nat
  ws_wndUuid :: NkUuid
  ws_wndTitle :: string

definition CLSID_NkIInput :: NkUuid where
  "CLSID_NkIInput = [0x4b, 0xda, 0x93, 0x78, 0xe0, 0x6b, 0x31, 0x43, 0x7e, 0x49, 0x7c, 0xa7, 0xed, 0xf8, 0x95, 0x9d]"

definition gl_WndClassName :: string where
  "gl_WndClassName = ''NkInt_WindowsWindow''"

text \<open>The initial position and size, \<open>None\<close> if the size cannot be computed.\<close>

definition initial_metrics :: "'g win32 \<Rightarrow> NkWindowSpecification \<Rightarrow> 32 word \<Rightarrow> 32 word \<Rightarrow> 'g \<Rightarrow> gdi_rect option outcome" where
  "initial_metrics os wndSpecs wndStyle extWndStyle g =
     obind (WindowsWindow_AdjustViewportExtents os (ws_vpExtents wndSpecs) (ws_dispTileSize wndSpecs) wndStyle extWndStyle g) (\<lambda>actVpExtents.
       let (ok, (lf, tp, rt, bt)) = w32_AdjustWindowRectEx os
             (0, 0, int_of64 (m_width actVpExtents * m_width (ws_dispTileSize wndSpecs)), int_of64 (m_height actVpExtents * m_height (ws_dispTileSize wndSpecs)))
             wndStyle extWndStyle
       in if \<not> ok then Done None
          else let initialPos = NkCalculateInitialWindowPos (w32_WorkArea os g) (rect_size (lf, tp, rt, bt))
               in Done (Some (int_of64 (m_xCoord initialPos), int_of64 (m_yCoord initialPos), rt - lf, bt - tp)))"

definition window_rd_specs :: "nat \<Rightarrow> NkWindowSpecification \<Rightarrow> NkRendererSpecification" where
  "window_rd_specs self wndSpecs =
     \<lparr>rs_wndRef = self, rs_isVSync = ws_isVSync wndSpecs, rs_rendererApi = ws_rendererApi wndSpecs, rs_vpExtents = ws_vpExtents wndSpecs,
      rs_dispTileSize = ws_dispTileSize wndSpecs, rs_vpAlignment = ws_vpAlignment wndSpecs,
      rs_clearCol = \<lparr>m_rVal = 0, m_gVal = 0, m_bVal = 0, m_aVal = 255\<rparr>, rs_texInterMode = NkTexIMd_NearestNeighbor\<rparr>"

definition rd_addr :: "rd_obj option \<Rightarrow> nat option" where
  "rd_addr r = (case r of Some (RdAt a) \<Rightarrow> Some a | _ \<Rightarrow> None)"

text \<open>The steps after the native window exists.\<close>

definition finish_window ::
    "('l, 'o, 'p, 'g) wnd_env \<Rightarrow> NkWindowSpecification \<Rightarrow> ('l, 'o, 'g) wnd_st \<Rightarrow> (NkErrorCode \<times> ('l, 'o, 'g) wnd_st) outcome option" where
  "finish_window E wndSpecs st =
     (let os = we_os E; h = wn_nativeHandle (wnd st);
          st = set_native (w32_DwmDarkMode os h (w32_SetUserData os h (we_self E) (native st))) st
      in lbind (Some (create_renderer (we_gdi E) (window_iface os (wnd st)) (we_heap E) (we_behind E) (we_clsAddr E)
                        (window_rd_specs (we_self E) wndSpecs) (om st))) (\<lambda>(errCode, rd, c).
           let st = upd_wnd (wn_rendererRef_update (\<lambda>_. rd_addr rd)) (set_om c st) in
           if errCode \<noteq> NkErr_Ok then Some (Done (errCode, st))
           else lbind (Some (NkApplicationQueryInstance (we_app E) (we_ialAddr E, CLSID_NkIInput) (ls_env st))) (\<lambda>(ial, c).
                let st = upd_wnd (\<lambda>W. W\<lparr>wn_wndUuid := NkUuidCopy (ws_wndUuid wndSpecs),
                      wn_allowedWndModes := ws_allowedWndModes wndSpecs AND (NkWndMode_All AND NOT NkWndMode_Fullscreen),
                      wn_wndFlags := ws_wndFlags wndSpecs, wn_ialRef := ial, wn_lastMousePos := (0, 0)\<rparr>) (st\<lparr>ls_env := c\<rparr>)
                in lbind (Some (dispatch E NkEv_WindowOpened (wnd_event (we_self E)) st)) (\<lambda>(_, st).
                   lbind (WindowsWindow_SetWindowMode E (ws_initialWndMode wndSpecs) st) (\<lambda>(_, st). Some (Done (NkErr_Ok, st)))))))"

definition WindowsWindow_Initialize ::
    "('l, 'o, 'p, 'g) wnd_env \<Rightarrow> NkWindowSpecification \<Rightarrow> ('l, 'o, 'g) wnd_st \<Rightarrow> (NkErrorCode \<times> ('l, 'o, 'g) wnd_st) outcome option" where
  "WindowsWindow_Initialize E wndSpecs st =
     (if ws_nativeHandle wndSpecs \<noteq> 0 then Some (Done (NkErr_NotImplemented, st))
      else let os = we_os E; (registered, g) = w32_RegisterClassEx os gl_WndClassName (native st); st = set_native g st in
        if \<not> registered then Some (Done (NkErr_RegWindowClass, st))
        else let wndStyle = WindowsWindow_MapFromWindowModes (ws_allowedWndModes wndSpecs) (ws_wndFlags wndSpecs);
                 extWndStyle = WS_EX_WINDOWEDGE OR WS_EX_APPWINDOW in
          lbind (Some (initial_metrics os wndSpecs wndStyle extWndStyle g)) (\<lambda>metrics.
            case metrics of
              None \<Rightarrow> Some (Done (NkErr_AdjustClientArea, set_native (w32_UnregisterClass os gl_WndClassName (native st)) st))
            | Some r \<Rightarrow>
                lbind (run_native E (w32_CreateWindowEx os extWndStyle gl_WndClassName (ws_wndTitle wndSpecs) wndStyle r
                         (ws_wndFlags wndSpecs AND NkWndFlag_MessageOnlyWnd \<noteq> 0) (native st)) st) (\<lambda>(h, st).
                  let st = upd_wnd (wn_nativeHandle_update (\<lambda>_. nat h)) st in
                  if nat h = 0 then Some (Done (NkErr_CreateNativeWindow, set_native (w32_UnregisterClass os gl_WndClassName (native st)) st))
                  else finish_window E wndSpecs st)))"

text \<open>The static instance before start-up.\<close>

definition gl_Window :: "'o WindowsWindow" where
  "gl_Window = \<lparr>wn_nativeHandle = 0, wn_lastMousePos = (0, 0), wn_allowedWndModes = 0, wn_currWndMode = NkWndMode_Unknown, wn_wndFlags = 0,
     wn_wndUuid = replicate 16 0, wn_rendererRef = None, wn_ialRef = None\<rparr>"

text \<open>The members of the application specification that concern the window.\<close>

record wnd_app_specs =
  as_rendererApi :: nat
  as_isVSync :: bool
  as_vpAlignment :: "32 word"
  as_vpExtents :: NkSize2D
  as_dispTileSize :: NkSize2D
  as_allowedWndModes :: "32 word"
  as_initialWndMode :: "32 word"
  as_wndFlags :: "32 word"
  as_nativeHandle :: nat
  as_wndTitle :: string

definition window_specs :: "wnd_app_specs \<Rightarrow> NkWindowSpecification" where
  "window_specs a =
     \<lparr>ws_rendererApi = as_rendererApi a, ws_vpAlignment = as_vpAlignment a, ws_isVSync = as_isVSync a, ws_vpExtents = as_vpExtents a,
      ws_dispTileSize = as_dispTileSize a, ws_allowedWndModes = as_allowedWndModes a, ws_initialWndMode = as_initialWndMode a,
      ws_wndFlags = as_wndFlags a OR NkWndFlag_MainWindow, ws_nativeHandle = as_nativeHandle a,
      ws_wndUuid = [0x4c, 0x2c, 0xef, 0xf5, 0x5e, 0x6a, 0x19, 0x47, 0x11, 0xf6, 0xba, 0xdb, 0x12, 0x04, 0x3f, 0x9f], ws_wndTitle = as_wndTitle a\<rparr>"

definition Window_Startup ::
    "('l, 'o, 'p, 'g) wnd_env \<Rightarrow> wnd_app_specs \<Rightarrow> ('l, 'o, 'g) wnd_st \<Rightarrow> (NkErrorCode \<times> ('l, 'o, 'g) wnd_st) outcome option" where
  "Window_Startup E appSpecs st = WindowsWindow_Initialize E (window_specs appSpecs) st"

definition Window_Shutdown ::
    "('l, 'o, 'p, 'g) wnd_env \<Rightarrow> ('l, 'o, 'g) wnd_st \<Rightarrow> (NkErrorCode \<times> ('l, 'o, 'g) wnd_st) outcome option" where
  "Window_Shutdown E st =
     lbind (run_native E (w32_DestroyWindow (we_os E) (WindowsWindow_QueryNativeWindowHandle st) (native st)) st) (\<lambda>(_, st). Some (Done (NkErr_Ok, st)))"

subsection \<open>Laws of the state\<close>

lemma wnd_st_laws [simp]:
  "wnd (set_rds w st) = wnd st" "rds (set_rds w st) = w" "set_rds w (set_rds w' st) = set_rds w st" "set_rds (rds st) st = st"
  "ls_stack (set_rds w st) = ls_stack st" "wnd (upd_wnd f st) = f (wnd st)" "rds (upd_wnd f st) = rds st" "ls_stack (upd_wnd f st) = ls_stack st"
  "native (upd_wnd f st) = native st" "native (set_rds w st) = rw_gdi w" "upd_wnd f (upd_wnd f' st) = upd_wnd (f \<circ> f') st"
  "upd_wnd f (set_rds w st) = set_rds w (upd_wnd f st)"
  by (simp_all add: wnd_def rds_def set_rds_def set_om_def om_def upd_wnd_def native_def)

lemma set_native_rds: "set_native g st = set_rds (put_gdi g (rds st)) st"
  by (simp add: set_native_def)

lemma word_xor_zero: "(a :: 32 word) XOR b = 0 \<longleftrightarrow> a = b"
proof -
  have "a = (a XOR b) XOR b" by (simp add: xor.assoc)
  then show ?thesis by auto
qed

subsection \<open>What Windows promises\<close>

text \<open>
  The messages that change the mode of the window or come from the user.  Every other message a function of Windows sends on its
  way concerns only the layout.
\<close>

definition layout_msg :: "nat \<Rightarrow> win_message \<Rightarrow> bool" where
  "layout_msg h msg \<longleftrightarrow> wm_hwnd msg = h \<and> wm_id msg \<notin> {WM_KEYDOWN, WM_SYSKEYDOWN, WM_KEYUP, WM_SYSKEYUP, WM_LBUTTONDOWN, WM_MBUTTONDOWN, WM_RBUTTONDOWN,
     WM_XBUTTONDOWN, WM_LBUTTONUP, WM_MBUTTONUP, WM_RBUTTONUP, WM_XBUTTONUP, WM_MOUSEMOVE, WM_MOUSEWHEEL, WM_INITMENU, WM_INITMENUPOPUP,
     WM_SYSCOMMAND, WM_CLOSE, WM_DESTROY}"

text \<open>Such a function keeps \<open>P\<close> as long as the handlers do, its messages satisfy \<open>M\<close> and are of a rank below \<open>n\<close>, and its
  result satisfies \<open>R\<close>.  The default procedure only sends messages of lower ranks than the one it is given, so the nesting
  ends.\<close>

primrec calm :: "(win_message \<Rightarrow> bool) \<Rightarrow> (win_message \<Rightarrow> nat) \<Rightarrow> nat \<Rightarrow> ('g \<Rightarrow> bool) \<Rightarrow> (int \<Rightarrow> bool) \<Rightarrow> 'g native \<Rightarrow> bool" where
  "calm M rank n P R (Returns r g) \<longleftrightarrow> P g \<and> R r"
| "calm M rank n P R (Sends msg g k) \<longleftrightarrow> P g \<and> M msg \<and> rank msg < n \<and> (\<forall>rep g'. P g' \<longrightarrow> calm M rank n P R (k rep g'))"

definition default_calm :: "'g win32 \<Rightarrow> (win_message \<Rightarrow> bool) \<Rightarrow> (win_message \<Rightarrow> nat) \<Rightarrow> ('g \<Rightarrow> bool) \<Rightarrow> bool" where
  "default_calm os M rank P \<longleftrightarrow> (\<forall>g msg. P g \<longrightarrow> M msg \<longrightarrow> calm M rank (rank msg) P (\<lambda>_. True) (w32_DefWindowProc os msg g))"

definition in_mode :: "'g win32 \<Rightarrow> nat \<Rightarrow> 32 word \<Rightarrow> 'g \<Rightarrow> bool" where
  "in_mode os h m g \<longleftrightarrow> w32_GetUserData os h g \<noteq> 0 \<and> WindowsWindow_GetNewWindowMode os h g = m"

definition drawing_keeps :: "'g gdi_api \<Rightarrow> ('g \<Rightarrow> bool) \<Rightarrow> bool" where
  "drawing_keeps gd P \<longleftrightarrow> (\<forall>g. P g \<longrightarrow> (\<forall>a b. P (snd (gd_SelectObject gd a b g))) \<and> (\<forall>a. P (gd_DeleteObject gd a g)) \<and> (\<forall>a. P (snd (gd_GetDC gd a g)))
     \<and> (\<forall>a b. P (gd_ReleaseDC gd a b g)) \<and> (\<forall>a x y. P (snd (gd_CreateCompatibleBitmap gd a x y g))))"

definition shown_modes :: "32 word set" where
  "shown_modes = {NkWndMode_Minimized, NkWndMode_Maximized, NkWndMode_Normal}"

text \<open>Showing a window in a mode puts it into this mode before it sends messages, and nothing else changes the mode.\<close>

definition desktop_laws :: "('l, 'o, 'p, 'g) wnd_env \<Rightarrow> nat \<Rightarrow> (win_message \<Rightarrow> nat) \<Rightarrow> bool" where
  "desktop_laws E h rank \<longleftrightarrow> (let os = we_os E in
     (\<forall>m \<in> shown_modes. \<forall>g. w32_GetUserData os h g \<noteq> 0 \<longrightarrow>
        (\<exists>n. calm (layout_msg h) rank n (in_mode os h m) (\<lambda>_. True) (w32_ShowWindow os h (WindowsWindow_TranslateWindowModeToShowCommand m) g)))
   \<and> (\<forall>m. default_calm os (layout_msg h) rank (in_mode os h m) \<and> drawing_keeps (we_gdi E) (in_mode os h m)
        \<and> (\<forall>g. in_mode os h m g \<longrightarrow> in_mode os h m (w32_ValidateRect os h g))))"

text \<open>The renderer of the window, if it has one, has not been freed.\<close>

definition renderer_live :: "('l, 'o, 'g) wnd_st \<Rightarrow> bool" where
  "renderer_live st \<longleftrightarrow> (\<forall>a. wn_rendererRef (wnd st) = Some a \<longrightarrow> rw_rds (rds st) a \<noteq> None)"

subsection \<open>Messages about the layout\<close>

text \<open>The renderers are the same but for their back buffers.\<close>

definition same_rds :: "'g rd_world \<Rightarrow> 'g rd_world \<Rightarrow> bool" where
  "same_rds w w' \<longleftrightarrow> (\<forall>a. map_option (\<lambda>r. (rd_refCount r, rd_wndRef r, rd_currSpec r)) (rw_rds w' a)
     = map_option (\<lambda>r. (rd_refCount r, rd_wndRef r, rd_currSpec r)) (rw_rds w a))"

lemma same_rds_refl [simp]: "same_rds w w"
  by (simp add: same_rds_def)

lemma same_rds_trans: "same_rds w w' \<Longrightarrow> same_rds w' w'' \<Longrightarrow> same_rds w w''"
  by (simp add: same_rds_def)

lemma same_rds_live:
  assumes "same_rds w w'"
  shows "rw_rds w' a = None \<longleftrightarrow> rw_rds w a = None"
  using spec[OF assms[unfolded same_rds_def], of a] by (cases "rw_rds w' a"; cases "rw_rds w a") auto

lemma Resize_keeps:
  assumes "drawing_keeps gd P" "rw_rds w a \<noteq> None" "P (rw_gdi w)"
  shows "\<exists>ec w'. GdiRenderer_Resize gd wn a sz w = Done (ec, w') \<and> P (rw_gdi w') \<and> same_rds w w'"
  using assms by (auto simp: GdiRenderer_Resize_def the_rd_def Let_def drawing_keeps_def case_prod_beta same_rds_def)

lemma renderer_live_same:
  "renderer_live st \<Longrightarrow> wn_rendererRef (wnd st') = wn_rendererRef (wnd st) \<Longrightarrow> same_rds (rds st) (rds st') \<Longrightarrow> renderer_live st'"
  using same_rds_live[of "rds st" "rds st'"] by (simp add: renderer_live_def)

lemma renderer_live_set: "renderer_live st \<Longrightarrow> same_rds (rds st) w \<Longrightarrow> renderer_live (set_rds w st)"
  by (rule renderer_live_same) simp_all

lemma on_size_keeps:
  assumes "drawing_keeps (we_gdi E) P" "renderer_live st" "P (native st)"
  shows "\<exists>w. on_size E b st = Done (set_rds w st) \<and> P (rw_gdi w) \<and> same_rds (rds st) w"
proof (cases "b \<and> wn_rendererRef (wnd st) \<noteq> None")
  case False
  then show ?thesis using assms by (intro exI[of _ "rds st"]) (auto simp: on_size_def native_def split: option.split)
next
  case True
  then obtain a where a: "b" "wn_rendererRef (wnd st) = Some a" "rw_rds (rds st) a \<noteq> None" using assms(2) by (auto simp: renderer_live_def)
  with Resize_keeps[OF assms(1) a(3)] assms(3) show ?thesis by (auto simp: on_size_def native_def) (metis obind.simps(1) old.prod.case)
qed

lemma min_track_size_ok: "renderer_live st \<Longrightarrow> \<exists>sz. min_track_size E h b st = Done sz"
  by (auto simp: min_track_size_def renderer_live_def GdiRenderer_QueryViewportDimensions_def the_rd_def Let_def case_prod_beta split: option.splits)

text \<open>A call that returns, having changed only the world of the renderers, along \<open>K\<close>.\<close>

definition settles ::
    "('g rd_world \<Rightarrow> 'g rd_world \<Rightarrow> bool) \<Rightarrow> ('g \<Rightarrow> bool) \<Rightarrow> ('a \<Rightarrow> bool) \<Rightarrow> ('l, 'o, 'g) wnd_st \<Rightarrow> ('a \<times> ('l, 'o, 'g) wnd_st) outcome option \<Rightarrow> bool" where
  "settles K P R st r \<longleftrightarrow> (\<exists>x w. r = Some (Done (x, set_rds w st)) \<and> R x \<and> P (rw_gdi w) \<and> K (rds st) w)"

lemma settles_seq:
  assumes "settles K P (\<lambda>_. True) st r" "\<And>x w. P (rw_gdi w) \<Longrightarrow> K (rds st) w \<Longrightarrow> settles K P R (set_rds w st) (f (x, set_rds w st))" "transp K"
  shows "settles K P R st (lbind r f)"
proof -
  obtain x w where 1: "r = Some (Done (x, set_rds w st))" "P (rw_gdi w)" "K (rds st) w" using assms(1) by (auto simp: settles_def)
  from assms(2)[OF this(2,3), of x] 1 assms(3) show ?thesis by (auto simp: settles_def dest: transpD)
qed

lemma settlesI: "P (rw_gdi w) \<Longrightarrow> K (rds st) w \<Longrightarrow> R x \<Longrightarrow> settles K P R st (Some (Done (x, set_rds w st)))"
  by (auto simp: settles_def)

lemma settles_moved: "settles K P R (set_rds w st) r \<Longrightarrow> K (rds st) w \<Longrightarrow> transp K \<Longrightarrow> settles K P R st r"
  by (auto simp: settles_def dest: transpD)

text \<open>If the window procedure settles on every message that may come, provided that the functions it calls do, then every calm
  function of Windows does.\<close>

definition handles ::
    "('l, 'o, 'p, 'g) wnd_env \<Rightarrow> (win_message \<Rightarrow> bool) \<Rightarrow> (win_message \<Rightarrow> nat) \<Rightarrow> ('g rd_world \<Rightarrow> 'g rd_world \<Rightarrow> bool) \<Rightarrow> ('g \<Rightarrow> bool)
     \<Rightarrow> (('l, 'o, 'g) wnd_st \<Rightarrow> bool) \<Rightarrow> bool" where
  "handles E M rank K P J \<longleftrightarrow> (\<forall>msg st run. M msg \<longrightarrow> J st \<longrightarrow> P (native st) \<longrightarrow>
     (\<forall>t w. calm M rank (rank msg) P (\<lambda>_. True) t \<longrightarrow> K (rds st) w \<longrightarrow> P (rw_gdi w) \<longrightarrow> settles K P (\<lambda>_. True) (set_rds w st) (run t (set_rds w st)))
     \<longrightarrow> settles K P (\<lambda>_. True) st (WndProc_with run E msg st))"

lemma run_native_settles:
  assumes H: "handles E M rank K P J" and K: "transp K" "\<And>w g. K w (put_gdi g w)" and J: "\<And>st w. J st \<Longrightarrow> K (rds st) w \<Longrightarrow> J (set_rds w st)"
    and "calm M rank n P R t" "J st"
  shows "settles K P R st (run_native E t st)"
  using assms(5,6)
proof (induction n arbitrary: t st R rule: less_induct)
  case (less n)
  show ?case using less.prems
  proof (induction t arbitrary: st)
    case (Returns r g)
    then show ?case by (simp add: run_native.simps set_native_rds settlesI K)
  next
    case (Sends msg g k)
    let ?st = "set_native g st"
    have st: "J ?st" "P (native ?st)" "M msg" "rank msg < n" using Sends.prems by (auto simp: set_native_rds intro: J K)
    have "settles K P (\<lambda>_. True) (set_rds w ?st) (run_native E t (set_rds w ?st))"
      if "calm M rank (rank msg) P (\<lambda>_. True) t" "K (rds ?st) w" for t w
      by (rule less.IH[OF st(4) that(1) J[OF st(1) that(2)]])
    then have "settles K P (\<lambda>_. True) ?st (WndProc_with (run_native E) E msg ?st)" using H st unfolding handles_def by blast
    moreover have "settles K P R (set_rds w ?st) (case (x, set_rds w ?st) of (reply, st') \<Rightarrow> run_native E (k reply (native st')) st')"
      if "P (rw_gdi w)" "K (rds ?st) w" for x w
      using Sends.IH[of "k x" "k x (rw_gdi w)" "set_rds w ?st"] Sends.prems that J[OF st(1) that(2)] by (cases x) auto
    ultimately have "settles K P R ?st (lbind (WndProc_with (run_native E) E msg ?st) (\<lambda>(reply, st'). run_native E (k reply (native st')) st'))"
      by (rule settles_seq[OF _ _ K(1)])
    then show ?case by (simp add: run_native.simps[of E "Sends msg g k"] set_native_rds) (auto dest: settles_moved intro: K)
  qed
qed

lemma default_settles:
  assumes "default_calm (we_os E) M rank P" "M msg" "P (native st)" "transp K" "\<And>w. K w w"
    "\<And>t w. calm M rank (rank msg) P (\<lambda>_. True) t \<Longrightarrow> K (rds st) w \<Longrightarrow> P (rw_gdi w) \<Longrightarrow> settles K P (\<lambda>_. True) (set_rds w st) (run t (set_rds w st))"
  shows "settles K P (\<lambda>_. True) st (DefWindowProc_with run E msg st)"
proof -
  have "settles K P (\<lambda>_. True) st (run (w32_DefWindowProc (we_os E) msg (native st)) st)"
    using assms(6)[of _ "rds st"] assms(1-3,5) by (simp add: default_calm_def native_def)
  then show ?thesis unfolding DefWindowProc_with_def by (rule settles_seq) (auto simp: settles_def assms intro: exI[of _ "_ :: _ rd_world"])
qed

text \<open>While the window is in the mode it knows of, a message about the layout ends in the default procedure or is answered at once.\<close>

lemma layout_handled:
  fixes E :: "('l, 'o, 'p, 'g) wnd_env"
  assumes laws: "desktop_laws E h rank"
  shows "handles E (layout_msg h) rank same_rds (in_mode (we_os E) h m) (\<lambda>st. renderer_live st \<and> wn_currWndMode (wnd st) = m)"
  unfolding handles_def
proof (intro allI impI, elim conjE)
  fix msg and st :: "('l, 'o, 'g) wnd_st" and run :: "('l, 'o, 'g) runner"
  let ?P = "in_mode (we_os E) h m"
  let ?ok = "settles same_rds ?P (\<lambda>_ :: wnd_reply. True)"
  assume msg: "layout_msg h msg" and st: "renderer_live st" "wn_currWndMode (wnd st) = m" "?P (native st)"
    and run: "\<forall>t w. calm (layout_msg h) rank (rank msg) ?P (\<lambda>_. True) t \<longrightarrow> same_rds (rds st) w \<longrightarrow> ?P (rw_gdi w) \<longrightarrow> settles same_rds ?P (\<lambda>_. True) (set_rds w st) (run t (set_rds w st))"
  have tr: "transp same_rds" by (auto intro: transpI same_rds_trans)
  have P: "drawing_keeps (we_gdi E) ?P" "?P (w32_ValidateRect (we_os E) h (native st))" "default_calm (we_os E) (layout_msg h) rank ?P"
    using laws st(3) by (auto simp: desktop_laws_def Let_def)
  have dflt: "?ok (set_rds w st) (DefWindowProc_with run E msg (set_rds w st))" if "?P (rw_gdi w)" "same_rds (rds st) w" for w
    using run that msg by (intro default_settles[OF P(3)]) (auto simp: tr dest: same_rds_trans[OF that(2)])
  have dflt_st: "?ok st (DefWindowProc_with run E msg st)" using dflt[of "rds st"] st(3) by (simp add: native_def)
  have same: "?ok st (Some (Done (x, st)))" for x using settlesI[of ?P "rds st" same_rds st "\<lambda>_. True" x] st(3) by (simp add: native_def)
  have ref: "w32_GetUserData (we_os E) h (native st) \<noteq> 0" "WindowsWindow_GetNewWindowMode (we_os E) h (native st) = m" "wm_hwnd msg = h"
    using st(3) msg by (auto simp: in_mode_def layout_msg_def)
  obtain sz where sz: "min_track_size E h True st = Done sz" using min_track_size_ok[OF st(1)] by blast
  obtain w where w: "on_size E True st = Done (set_rds w st)" "?P (rw_gdi w)" "same_rds (rds st) w" using on_size_keeps[where P = ?P] P(1) st by blast
  consider "wm_id msg = WM_SIZE" | "wm_id msg = WM_WINDOWPOSCHANGED" | "wm_id msg = WM_GETMINMAXINFO" | "wm_id msg = WM_ERASEBKGND" | "wm_id msg = WM_PAINT"
    | "wm_id msg \<notin> {WM_SIZE, WM_WINDOWPOSCHANGED, WM_GETMINMAXINFO, WM_ERASEBKGND, WM_PAINT}" by blast
  then show "?ok st (WndProc_with run E msg st)"
  proof cases
    case 1
    then show ?thesis using ref w(1) settles_moved[OF dflt[OF w(2,3)] w(3) tr] by (simp add: WndProc_with_def)
  next
    case 2
    then show ?thesis using ref st(2) dflt_st by (simp add: WndProc_with_def)
  next
    case 3
    then show ?thesis using ref sz dflt_st same by (simp add: WndProc_with_def)
  next
    case 4
    then show ?thesis using ref same by (simp add: WndProc_with_def)
  next
    case 5
    then show ?thesis using ref P(2) by (simp add: WndProc_with_def set_native_rds settlesI same_rds_def)
  next
    case 6
    then show ?thesis using ref msg dflt_st by (simp add: WndProc_with_def layout_msg_def)
  qed
qed

lemma run_native_calm:
  assumes "desktop_laws E h rank" "calm (layout_msg h) rank n (in_mode (we_os E) h m) R t" "renderer_live st" "wn_currWndMode (wnd st) = m"
  shows "settles same_rds (in_mode (we_os E) h m) R st (run_native E t st)"
  using assms by (intro run_native_settles[OF layout_handled]) (auto intro: transpI same_rds_trans renderer_live_set simp: same_rds_def)

subsection \<open>Changing the mode\<close>

lemma mode_events:
  assumes "m \<in> shown_modes"
  shows "NkWindowMapEventTypeFromWindowMode m =
     Done (if m = NkWndMode_Minimized then NkEv_WindowMinimized else if m = NkWndMode_Maximized then NkEv_WindowMaximized else NkEv_WindowRestored)"
proof -
  have "NkWindowMapEventTypeFromWindowMode 1 = Done 6 \<and> NkWindowMapEventTypeFromWindowMode 2 = Done 7 \<and> NkWindowMapEventTypeFromWindowMode 8 = Done 8"
    by code_simp
  then show ?thesis using assms by (auto simp: shown_modes_def)
qed

lemma mode_flags:
  assumes "m \<in> shown_modes"
  shows "m AND (m - 1) = 0" "WindowsWindow_TranslateWindowModeToShowCommand m \<noteq> INT_MAX"
  using assms by (auto simp: shown_modes_def WindowsWindow_TranslateWindowModeToShowCommand_def)

text \<open>The event that tells the layers of a new mode.\<close>

definition mode_event :: "('l, 'o, 'p, 'g) wnd_env \<Rightarrow> 32 word \<Rightarrow> ('l, 'o, 'g) wnd_st \<Rightarrow> event_data" where
  "mode_event E m st = (let size = (\<lambda>cl. WindowsWindow_GetWindowSize (we_os E) (wn_nativeHandle (wnd st)) cl (native st)) in
     m_wndEvent \<lparr>mp_wndRef = we_self E, m_wndPos = \<lparr>m_xCoord = 0, m_yCoord = 0\<rparr>, m_wndSize = size False, m_totalWndSize = size True, m_wndMode = unat m\<rparr>)"

lemma SetWindowMode_shows:
  assumes "desktop_laws E h rank" "wn_nativeHandle (wnd st) = h" "w32_GetUserData (we_os E) h (native st) \<noteq> 0" "renderer_live st"
    "m \<in> shown_modes" "m AND wn_allowedWndModes (wnd st) \<noteq> 0"
  shows "\<exists>w. WindowsWindow_SetWindowMode E m st =
      Some (dispatch E (if m = NkWndMode_Minimized then NkEv_WindowMinimized else if m = NkWndMode_Maximized then NkEv_WindowMaximized else NkEv_WindowRestored)
        (mode_event E m (set_rds w (upd_wnd (wn_currWndMode_update (\<lambda>_. m)) st))) (set_rds w (upd_wnd (wn_currWndMode_update (\<lambda>_. m)) st)))
    \<and> WindowsWindow_GetNewWindowMode (we_os E) h (rw_gdi w) = m \<and> w32_GetUserData (we_os E) h (rw_gdi w) \<noteq> 0 \<and> same_rds (rds st) w"
proof -
  let ?st = "upd_wnd (wn_currWndMode_update (\<lambda>_. m)) st"
  let ?t = "w32_ShowWindow (we_os E) h (WindowsWindow_TranslateWindowModeToShowCommand m) (native st)"
  obtain n where "calm (layout_msg h) rank n (in_mode (we_os E) h m) (\<lambda>_. True) ?t"
    using assms(1,3,5) unfolding desktop_laws_def Let_def by blast
  then have "settles same_rds (in_mode (we_os E) h m) (\<lambda>_. True) ?st (run_native E ?t ?st)"
    using assms(1,4) by (intro run_native_calm) (auto simp: renderer_live_def)
  then obtain x w where "run_native E ?t ?st = Some (Done (x, set_rds w ?st))" "in_mode (we_os E) h m (rw_gdi w)" "same_rds (rds st) w"
    by (auto simp: settles_def)
  then show ?thesis using assms(2,6) mode_flags[OF assms(5)] mode_events[OF assms(5)]
    by (intro exI[of _ w]) (simp add: WindowsWindow_SetWindowMode_def SetWindowMode_with_def WindowsWindow_QueryAllowedWindowModes_def mode_event_def in_mode_def)
qed

text \<open>Layers that leave the window and the renderers alone.\<close>

definition layers_quiet :: "('l, 'o, 'p, 'g) wnd_env \<Rightarrow> bool" where
  "layers_quiet E \<longleftrightarrow> (let obs = \<lambda>st. (wnd st, rds st) in
     inert obs (\<lambda>st. snd (we_ticks E st)) \<and> (\<forall>l ev. inert obs (\<lambda>st. snd (vt_OnEvent (we_vt E) l ev st))))"

lemma event_walk_inert:
  assumes "\<And>l. inert obs (\<lambda>st. snd (f l st))"
  shows "obs (snd (event_walk f ls st)) = obs st \<and> ls_stack (snd (event_walk f ls st)) = ls_stack st"
proof (induction ls arbitrary: st)
  case (Cons l ls)
  then show ?case using inertD[OF assms[of l], of st] by (auto split: prod.split) 
qed simp

lemma dispatch_quiet:
  assumes "layers_quiet E" "stack_is st v" "event_kind_ok evType d"
  shows "\<exists>ec st'. dispatch E evType d st = Done (ec, st') \<and> wnd st' = wnd st \<and> rds st' = rds st \<and> stack_is st' v"
proof -
  let ?obs = "\<lambda>st. (wnd st, rds st)"
  let ?ev = "event_for (we_ticks E) evType d st" and ?st = "snd (we_ticks E st)"
  have i: "inert ?obs (\<lambda>st. snd (we_ticks E st))" "\<And>l ev. inert ?obs (\<lambda>st. snd (vt_OnEvent (we_vt E) l ev st))"
    using assms(1) by (auto simp: layers_quiet_def Let_def)
  have st: "stack_is ?st v" "?obs ?st = ?obs st" using inertD[OF i(1), of st] assms(2) by (auto simp: stack_is_def)
  have ks: "keeps_stack (\<lambda>l. vt_OnEvent (we_vt E) l ?ev)" using inertD(1)[OF i(2)] by (auto simp: keeps_stack_def)
  have s: "ls_stack ?st = Some v" "NkVectorGetElementCount v = length (vlist v)"
    using st(1) by (simp_all add: stack_is_def NkVectorGetElementCount_def)
  have "dispatch E evType d st = NkLayerstackOnEvent (we_vt E) ?ev ?st"
    using type_table[OF assms(3)] by (simp add: dispatch_def NkEventDispatch_def NkTimerGetCurrentTicks_def split_beta event_for_def)
  moreover obtain b st' where w: "event_walk (\<lambda>l. vt_OnEvent (we_vt E) l ?ev) (vlist v) ?st = (b, st')" by fastforce
  ultimately have "dispatch E evType d st = Done (if b then NkErr_Ok else NkErr_NoOperation, st')"
    using s on_event_loop_walk[OF ks st(1), of 0] by (simp add: NkLayerstackOnEvent_def the_stack_def)
  moreover have "?obs st' = ?obs st" "stack_is st' v"
    using event_walk_inert[of ?obs "\<lambda>l. vt_OnEvent (we_vt E) l ?ev" "vlist v" ?st] i(2) st w by (auto simp: stack_is_def)
  ultimately show ?thesis by auto
qed

lemma SetWindowMode_quiet:
  assumes "desktop_laws E h rank" "wn_nativeHandle (wnd st) = h" "w32_GetUserData (we_os E) h (native st) \<noteq> 0" "renderer_live st"
    "m \<in> shown_modes" "m AND wn_allowedWndModes (wnd st) \<noteq> 0" "layers_quiet E" "stack_is st v"
  shows "\<exists>ec st'. WindowsWindow_SetWindowMode E m st = Some (Done (ec, st')) \<and> wnd st' = (wnd st)\<lparr>wn_currWndMode := m\<rparr>
    \<and> in_mode (we_os E) h m (native st') \<and> same_rds (rds st) (rds st') \<and> stack_is st' v \<and> renderer_live st'"
proof -
  let ?s = "\<lambda>w. set_rds w (upd_wnd (wn_currWndMode_update (\<lambda>_. m)) st)"
  let ?ev = "if m = NkWndMode_Minimized then NkEv_WindowMinimized else if m = NkWndMode_Maximized then NkEv_WindowMaximized else NkEv_WindowRestored"
  obtain w where w: "WindowsWindow_SetWindowMode E m st = Some (dispatch E ?ev (mode_event E m (?s w)) (?s w))"
    "in_mode (we_os E) h m (rw_gdi w)" "same_rds (rds st) w"
    using SetWindowMode_shows[OF assms(1-6)] by (auto simp: in_mode_def)
  have s: "stack_is (?s w) v" using assms(8) by (simp add: stack_is_def)
  have k: "event_kind_ok ?ev (mode_event E m (?s w))" by (simp add: event_kind_ok_def mode_event_def Let_def)
  obtain ec st' where st': "WindowsWindow_SetWindowMode E m st = Some (Done (ec, st'))" "wnd st' = wnd (?s w)" "rds st' = w" "stack_is st' v"
    using dispatch_quiet[OF assms(7) s k] w(1) by auto
  then show ?thesis using w(2,3) renderer_live_same[OF assms(4), of st'] by (auto simp: native_def)
qed

subsection \<open>The window as its renderer sees it\<close>

interpretation win: window_service "window_iface os W"
  by unfold_locales (simp_all add: window_iface_def)

text \<open>Whatever GDI promises to the renderer of some window, it promises to the renderer of this one.\<close>

lemma window_renderer_laws: "gdi_laws v gd wn' \<Longrightarrow> gdi_laws v gd (window_iface os W)"
  by (rule win.laws_of_gdi)

subsection \<open>Start-up\<close>

text \<open>Windows while it creates the window: the new window has the handle \<open>h\<close>, the messages it gets on the way do not tell of changed
  positions, and its user data is not set.\<close>

definition creation_msg :: "nat \<Rightarrow> win_message \<Rightarrow> bool" where
  "creation_msg h msg \<longleftrightarrow> layout_msg h msg \<and> wm_id msg \<noteq> WM_WINDOWPOSCHANGED"

definition unattached :: "'g win32 \<Rightarrow> nat \<Rightarrow> 'g \<Rightarrow> bool" where
  "unattached os h g \<longleftrightarrow> w32_GetUserData os h g = 0"

definition creation_laws :: "'g win32 \<Rightarrow> nat \<Rightarrow> nat \<Rightarrow> (win_message \<Rightarrow> nat) \<Rightarrow> bool" where
  "creation_laws os self h rank \<longleftrightarrow> default_calm os (creation_msg h) rank (unattached os h)
   \<and> (\<forall>g. unattached os h g \<longrightarrow> unattached os h (w32_ValidateRect os h g) \<and> \<not> unattached os h (w32_DwmDarkMode os h (w32_SetUserData os h self g)))"

lemma creation_handled:
  fixes E :: "('l, 'o, 'p, 'g) wnd_env"
  assumes laws: "creation_laws (we_os E) self h rank"
  shows "handles E (creation_msg h) rank (\<lambda>w w'. \<exists>g. w' = put_gdi g w) (unattached (we_os E) h) (\<lambda>st. wn_rendererRef (wnd st) = None)"
  unfolding handles_def
proof (intro allI impI)
  fix msg and st :: "('l, 'o, 'g) wnd_st" and run :: "('l, 'o, 'g) runner"
  let ?P = "unattached (we_os E) h" and ?K = "\<lambda>w w' :: 'g rd_world. \<exists>g. w' = put_gdi g w"
  let ?ok = "settles ?K ?P (\<lambda>_ :: wnd_reply. True)"
  assume msg: "creation_msg h msg" and st: "wn_rendererRef (wnd st) = None" "?P (native st)"
    and run: "\<forall>t w. calm (creation_msg h) rank (rank msg) ?P (\<lambda>_. True) t \<longrightarrow> ?K (rds st) w \<longrightarrow> ?P (rw_gdi w) \<longrightarrow> settles ?K ?P (\<lambda>_. True) (set_rds w st) (run t (set_rds w st))"
  have refl: "?K w w" for w :: "'g rd_world" by (intro exI[of _ "rw_gdi w"]) simp
  have tr: "transp ?K" by (auto intro!: transpI)
  have dflt: "?ok st (DefWindowProc_with run E msg st)"
    using laws run msg st(2) by (intro default_settles[of E "creation_msg h" rank]) (auto simp: tr creation_laws_def intro: refl)
  have same: "?ok st (Some (Done (x, st)))" for x using settlesI[of ?P "rds st" ?K st "\<lambda>_. True" x] st(2) refl by (simp add: native_def)
  have ref: "w32_GetUserData (we_os E) h (native st) = 0" "wm_hwnd msg = h" "layout_msg h msg" "wm_id msg \<noteq> WM_WINDOWPOSCHANGED"
    using st(2) msg by (auto simp: unattached_def layout_msg_def creation_msg_def)
  have P: "?P (w32_ValidateRect (we_os E) h (native st))" using laws st(2) by (auto simp: creation_laws_def)
  consider "wm_id msg = WM_SIZE" | "wm_id msg = WM_GETMINMAXINFO" | "wm_id msg = WM_ERASEBKGND" | "wm_id msg = WM_PAINT"
    | "wm_id msg \<notin> {WM_SIZE, WM_GETMINMAXINFO, WM_ERASEBKGND, WM_PAINT}" by blast
  then show "?ok st (WndProc_with run E msg st)"
  proof cases
    case 4
    then show ?thesis using ref P settlesI[of ?P "put_gdi (w32_ValidateRect (we_os E) h (native st)) (rds st)" ?K st "\<lambda>_. True" "(0, None)"]
      by (auto simp: WndProc_with_def set_native_rds)
  next
    case 5
    then show ?thesis using ref dflt by (simp add: WndProc_with_def layout_msg_def)
  qed (use ref dflt same st in \<open>simp_all add: WndProc_with_def on_size_def min_track_size_def\<close>)
qed

lemma create_window:
  assumes "creation_laws (we_os E) self h rank" "calm (creation_msg h) rank n (unattached (we_os E) h) (\<lambda>r. r = int h) t" "wn_rendererRef (wnd st) = None"
  shows "\<exists>g. run_native E t st = Some (Done (int h, set_native g st)) \<and> unattached (we_os E) h g"
proof -
  have "settles (\<lambda>w w'. \<exists>g. w' = put_gdi g w) (unattached (we_os E) h) (\<lambda>r. r = int h) st (run_native E t st)"
    using assms by (intro run_native_settles[OF creation_handled]) (auto intro!: transpI)
  then show ?thesis by (auto simp: settles_def set_native_rds)
qed

lemma query_instance:
  assumes "app_reg_ok c ht" "length (af_behind fns) = 8" "length u = 16" "ht_map ht (IdUuid u) = Some (Some r)"
  shows "NkApplicationQueryInstance fns (p, u) c = Done (Some r, om_AddRef (af_vt fns) r c)"
  using NkHashtableAt_spec[of ht "mp_uuidKey p u" "af_behind fns" "ac_htctx c"] assms
  by (auto simp: NkApplicationQueryInstance_def app_reg_def app_reg_ok_def)

lemma allowed_shown:
  assumes "m \<in> shown_modes"
  shows "m AND (x AND (NkWndMode_All AND NOT NkWndMode_Fullscreen)) = m AND x"
proof -
  have "m AND (NkWndMode_All AND NOT NkWndMode_Fullscreen) = m" using assms by (auto simp: shown_modes_def)
  moreover have "m AND (x AND k) = (m AND k) AND x" for k by (simp only: ac_simps)
  ultimately show ?thesis by simp
qed

lemma om_laws [simp]:
  "om (set_rds w st) = (om st)\<lparr>om_objs := (om_objs (om st))\<lparr>ro_world := w\<rparr>\<rparr>" "om (upd_wnd f st) = om st" "om (set_om c st) = c"
  "wnd (set_om c st) = wnd st" "ls_stack (set_om c st) = ls_stack st" "rds (set_om c st) = ro_world (om_objs c)"
  by (simp_all add: om_def set_rds_def set_om_def upd_wnd_def wnd_def rds_def)

lemma registry_kept [simp]:
  "app_reg_ok (ls_env (upd_wnd f st)) = app_reg_ok (ls_env st)" "app_reg_ok (ls_env (set_om c st)) = app_reg_ok (ls_env st)"
  "app_reg_ok (ls_env (set_rds w st)) = app_reg_ok (ls_env st)"
  by (simp_all add: app_reg_ok_def upd_wnd_def set_om_def set_rds_def fun_eq_iff)

text \<open>What the engine has set up before the window: the object model with the renderer factory, the application with the input
  component (a static object, so that counting its references does nothing) and the layer stack.\<close>

definition engine_ready :: "('l, 'o, 'p, 'g) wnd_env \<Rightarrow> 'o \<Rightarrow> 'l NkVector \<Rightarrow> ('l, 'o, 'g) wnd_st \<Rightarrow> bool" where
  "engine_ready E ial v st \<longleftrightarrow>
     (\<exists>ht. reg_ok (om st) ht \<and> ht_map ht (IdUuid CLSID_NkIGdiRenderer) = Some (Some rd_obj.RdFactory)) \<and> ro_fault (om_objs (om st)) = Done ()
   \<and> (\<exists>ht. app_reg_ok (ls_env st) ht \<and> ht_map ht (IdUuid CLSID_NkIInput) = Some (Some ial)) \<and> (\<forall>c. om_AddRef (af_vt (we_app E)) ial c = c)
   \<and> length (we_behind E) = 8 \<and> length (af_behind (we_app E)) = 8 \<and> we_heap E sizeof_GdiRenderer \<and> layers_quiet E \<and> stack_is st v"

definition resources_ok :: "('l, 'o, 'p, 'g) wnd_env \<Rightarrow> nat \<Rightarrow> NkRendererSpecification \<Rightarrow> bool" where
  "resources_ok E h spec \<longleftrightarrow> (\<forall>(W :: 'o WindowsWindow) g. wn_nativeHandle W = h \<longrightarrow> \<not> unattached (we_os E) h g \<longrightarrow>
     (\<exists>R g'. CreateBasicResources (we_gdi E) (window_iface (we_os E) W) spec g = (NkErr_Ok, Some R, g') \<and> \<not> unattached (we_os E) h g'))"

lemma finish_window_ok:
  assumes "engine_ready E ial v st" "desktop_laws E h rank" "creation_laws (we_os E) (we_self E) h rank" "wn_nativeHandle (wnd st) = h"
    "unattached (we_os E) h (native st)" "ws_rendererApi S = NkRdApi_Win32GDI" "resources_ok E h (window_rd_specs (we_self E) S)"
    "ws_initialWndMode S \<in> shown_modes" "ws_initialWndMode S AND ws_allowedWndModes S \<noteq> 0"
  shows "\<exists>st' r. finish_window E S st = Some (Done (NkErr_Ok, st'))
    \<and> wnd st' = \<lparr>wn_nativeHandle = h, wn_lastMousePos = (0, 0), wn_allowedWndModes = ws_allowedWndModes S AND 59, wn_currWndMode = ws_initialWndMode S,
        wn_wndFlags = ws_wndFlags S, wn_wndUuid = NkUuidCopy (ws_wndUuid S), wn_rendererRef = Some (rw_next (rds st)), wn_ialRef = Some ial\<rparr>
    \<and> rw_rds (rds st') (rw_next (rds st)) = Some r \<and> rd_refCount r = 1 \<and> rd_wndRef r = we_self E \<and> rd_currSpec r = window_rd_specs (we_self E) S
    \<and> in_mode (we_os E) h (ws_initialWndMode S) (native st') \<and> stack_is st' v"
proof -
  let ?a = "rw_next (rds st)" and ?m = "ws_initialWndMode S" and ?spec = "window_rd_specs (we_self E) S"
  define st1 where "st1 = set_native (w32_DwmDarkMode (we_os E) h (w32_SetUserData (we_os E) h (we_self E) (native st))) st"
  obtain ht where ht: "reg_ok (om st) ht" "ht_map ht (IdUuid CLSID_NkIGdiRenderer) = Some (Some rd_obj.RdFactory)" using assms(1) by (auto simp: engine_ready_def)
  obtain hta where hta: "app_reg_ok (ls_env st) hta" "ht_map hta (IdUuid CLSID_NkIInput) = Some (Some ial)" using assms(1) by (auto simp: engine_ready_def)
  have st1: "wnd st1 = wnd st" "stack_is st1 v" "rw_next (rds st1) = ?a" "reg_ok (om st1) ht" "om_objs (om st1) = \<lparr>ro_world = rds st1, ro_fault = Done ()\<rparr>"
    "\<not> unattached (we_os E) h (rw_gdi (rds st1))" "app_reg_ok (ls_env st1) hta"
    using assms(1,3,5) ht hta by (auto simp: st1_def set_native_rds engine_ready_def stack_is_def reg_ok_def creation_laws_def rds_def)
  obtain R g where R: "CreateBasicResources (we_gdi E) (window_iface (we_os E) (wnd st1)) ?spec (rw_gdi (rds st1)) = (NkErr_Ok, Some R, g)" "\<not> unattached (we_os E) h g"
    using assms(4,7) st1(1,6) unfolding resources_ok_def by metis
  define c where "c = (om st1)\<lparr>om_objs := \<lparr>ro_world = (rds st1)\<lparr>rw_rds := (rw_rds (rds st1))(?a \<mapsto> \<lparr>rd_refCount = 1, rd_wndRef = we_self E, rd_initSpec = ?spec,
    rd_currSpec = ?spec, rd_gdiRes = R\<rparr>), rw_next := Suc ?a, rw_gdi := g\<rparr>, ro_fault = Done ()\<rparr>\<rparr>"
  have cr: "create_renderer (we_gdi E) (window_iface (we_os E) (wnd st1)) (we_heap E) (we_behind E) (we_clsAddr E) ?spec (om st1) = Done (NkErr_Ok, Some (RdAt ?a), c)"
    using create_renderer_ok[of "om st1" ht "we_behind E" "rds st1" "we_heap E" ?spec, OF st1(4) _ ht(2) st1(5) _ _ R(1)] assms(1,6) st1(3)
    by (simp add: engine_ready_def c_def window_rd_specs_def window_iface_def)
  define st2 where "st2 = upd_wnd (\<lambda>W. W\<lparr>wn_wndUuid := NkUuidCopy (ws_wndUuid S), wn_allowedWndModes := ws_allowedWndModes S AND 59,
     wn_wndFlags := ws_wndFlags S, wn_ialRef := Some ial, wn_lastMousePos := (0, 0)\<rparr>) (upd_wnd (wn_rendererRef_update (\<lambda>_. Some ?a)) (set_om c st1))"
  have "NkApplicationQueryInstance (we_app E) (we_ialAddr E, CLSID_NkIInput) (ls_env (upd_wnd (wn_rendererRef_update (\<lambda>_. Some ?a)) (set_om c st1)))
      = Done (Some ial, ls_env (upd_wnd (wn_rendererRef_update (\<lambda>_. Some ?a)) (set_om c st1)))"
    using query_instance[of _ hta "we_app E" CLSID_NkIInput ial "we_ialAddr E"] assms(1) st1(7) hta(2) by (simp add: engine_ready_def CLSID_NkIInput_def)
  then have fin: "finish_window E S st = lbind (Some (dispatch E NkEv_WindowOpened (wnd_event (we_self E)) st2)) (\<lambda>(_, st).
                   lbind (WindowsWindow_SetWindowMode E ?m st) (\<lambda>(_, st). Some (Done (NkErr_Ok, st))))"
    using cr assms(4) unfolding finish_window_def Let_def st1_def[symmetric] by (simp add: st1_def[symmetric] rd_addr_def st2_def)
  have "stack_is st2 v" using st1(2) by (simp add: st2_def stack_is_def)
  moreover have "layers_quiet E" using assms(1) by (simp add: engine_ready_def)
  moreover have "event_kind_ok NkEv_WindowOpened (wnd_event (we_self E))" by (simp add: event_kind_ok_def wnd_event_def)
  ultimately obtain ec st3 where st3: "dispatch E NkEv_WindowOpened (wnd_event (we_self E)) st2 = Done (ec, st3)" "wnd st3 = wnd st2" "rds st3 = rds st2" "stack_is st3 v"
    using dispatch_quiet[of E st2 v] by blast
  have r3: "rds st3 = ro_world (om_objs c)" "renderer_live st3" "wn_nativeHandle (wnd st3) = h" "wn_allowedWndModes (wnd st3) = ws_allowedWndModes S AND 59"
    using st3 st1(1) assms(4) by (auto simp: st2_def renderer_live_def c_def)
  have "?m AND wn_allowedWndModes (wnd st3) \<noteq> 0" using r3(4) allowed_shown[OF assms(8)] assms(9) by simp
  moreover have "w32_GetUserData (we_os E) h (native st3) \<noteq> 0" using r3(1) R(2) by (simp add: native_def c_def unattached_def)
  ultimately obtain ec st4 where st4: "WindowsWindow_SetWindowMode E ?m st3 = Some (Done (ec, st4))" "wnd st4 = (wnd st3)\<lparr>wn_currWndMode := ?m\<rparr>"
    "in_mode (we_os E) h ?m (native st4)" "same_rds (rds st3) (rds st4)" "stack_is st4 v"
    using SetWindowMode_quiet[OF assms(2) r3(3) _ r3(2) assms(8) _ _ st3(4)] assms(1) by (auto simp: engine_ready_def)
  have "map_option (\<lambda>r. (rd_refCount r, rd_wndRef r, rd_currSpec r)) (rw_rds (rds st4) ?a) = Some (1, we_self E, ?spec)"
    using st4(4) r3(1) by (simp add: same_rds_def c_def)
  then obtain r where "rw_rds (rds st4) ?a = Some r" "rd_refCount r = 1" "rd_wndRef r = we_self E" "rd_currSpec r = ?spec" by auto
  then show ?thesis using fin st3 st4 st1(1) assms(4) by (intro exI[of _ st4] exI[of _ r]) (auto simp: st2_def)
qed

lemma position_changed:
  assumes "desktop_laws E h rank" "layers_quiet E" "stack_is st v" "renderer_live st" "wn_nativeHandle (wnd st) = h"
    "wm_hwnd msg = h" "wm_id msg = WM_WINDOWPOSCHANGED" "in_mode (we_os E) h m (native st)" "m AND wn_allowedWndModes (wnd st) \<noteq> 0"
  shows "\<exists>rep st'. WindowsWindow_WndProc E msg st = Some (Done (rep, st')) \<and> wnd st' = (wnd st)\<lparr>wn_currWndMode := m\<rparr>
    \<and> in_mode (we_os E) h m (native st') \<and> stack_is st' v \<and> renderer_live st'"
proof -
  let ?P = "in_mode (we_os E) h m"
  have m: "m \<in> shown_modes" "w32_GetUserData (we_os E) h (native st) \<noteq> 0" "WindowsWindow_GetNewWindowMode (we_os E) h (native st) = m"
    using assms(8) by (auto simp: in_mode_def shown_modes_def WindowsWindow_GetNewWindowMode_def split: if_splits)
  have lay: "layout_msg h msg" using assms(6,7) by (simp add: layout_msg_def)
  have dflt: "\<exists>rep st'. DefWindowProc_with (run_native E) E msg s = Some (Done (rep, st')) \<and> wnd st' = wnd s \<and> ?P (native st') \<and> stack_is st' v \<and> renderer_live st'"
    if "?P (native s)" "wn_currWndMode (wnd s) = m" "renderer_live s" "stack_is s v" for s
  proof -
    have "settles same_rds ?P (\<lambda>_. True) s (run_native E (w32_DefWindowProc (we_os E) msg (native s)) s)"
      using assms(1) that lay by (intro run_native_calm[OF assms(1), of "rank msg"]) (auto simp: desktop_laws_def default_calm_def Let_def)
    then show ?thesis using that renderer_live_set[OF that(3)] by (auto simp: settles_def DefWindowProc_with_def stack_is_def)
  qed
  show ?thesis
  proof (cases "wn_currWndMode (wnd st) = m")
    case True
    then have "(wnd st)\<lparr>wn_currWndMode := m\<rparr> = wnd st" by auto
    then show ?thesis using True dflt[of st] m lay assms by (auto simp: WindowsWindow_WndProc_def WndProc_with_def)
  next
    case False
    then have x: "wn_currWndMode (wnd st) XOR m \<noteq> 0" by (simp add: word_xor_zero)
    obtain ec s where s: "WindowsWindow_SetWindowMode E m st = Some (Done (ec, s))" "wnd s = (wnd st)\<lparr>wn_currWndMode := m\<rparr>" "?P (native s)"
      "stack_is s v" "renderer_live s"
      using SetWindowMode_quiet[OF assms(1,5) m(2) assms(4) m(1) assms(9,2,3)] by auto
    then obtain rep st' where "DefWindowProc_with (run_native E) E msg s = Some (Done (rep, st'))" "wnd st' = wnd s" "?P (native st')" "stack_is st' v" "renderer_live st'"
      using dflt[of s] s by auto
    then show ?thesis using s x m assms(6,7) by (auto simp: WindowsWindow_WndProc_def WndProc_with_def WindowsWindow_SetWindowMode_def[symmetric])
  qed
qed

text \<open>Hiding the window: the message about the changed position makes the window procedure show the window again, and as no event
  belongs to hiding, the call then fails an assertion.\<close>

lemma hiding_fails:
  assumes laws: "desktop_laws E h rank" "layers_quiet E" and st: "stack_is st v" "renderer_live st" "wn_nativeHandle (wnd st) = h"
    and allowed: "NkWndMode_Hidden AND wn_allowedWndModes (wnd st) \<noteq> 0" "m AND wn_allowedWndModes (wnd st) \<noteq> 0"
    and hide: "w32_ShowWindow (we_os E) h SW_HIDE (native st) = Sends msg g k" "wm_hwnd msg = h" "wm_id msg = WM_WINDOWPOSCHANGED" "in_mode (we_os E) h m g"
    and rest: "\<And>rep g'. in_mode (we_os E) h m g' \<Longrightarrow> calm (layout_msg h) rank n (in_mode (we_os E) h m) (\<lambda>_. True) (k rep g')"
  shows "WindowsWindow_SetWindowMode E NkWndMode_Hidden st = Some (Abort NkErr_InParameter)"
proof -
  let ?st = "set_native g (upd_wnd (wn_currWndMode_update (\<lambda>_. NkWndMode_Hidden)) st)"
  have s: "stack_is ?st v" "renderer_live ?st" "wn_nativeHandle (wnd ?st) = h" "in_mode (we_os E) h m (native ?st)" "m AND wn_allowedWndModes (wnd ?st) \<noteq> 0"
    using st hide(4) allowed by (simp_all add: set_native_rds stack_is_def renderer_live_def)
  obtain rep st1 where p: "WindowsWindow_WndProc E msg ?st = Some (Done (rep, st1))" "wn_currWndMode (wnd st1) = m" "in_mode (we_os E) h m (native st1)" "renderer_live st1"
    using position_changed[OF laws s(1-3) hide(2,3) s(4,5)] by auto
  have "settles same_rds (in_mode (we_os E) h m) (\<lambda>_. True) st1 (run_native E (k rep (native st1)) st1)"
    by (rule run_native_calm[OF laws(1) rest[OF p(3)] p(4,2)])
  then obtain x st2 where "run_native E (Sends msg g k) (upd_wnd (wn_currWndMode_update (\<lambda>_. NkWndMode_Hidden)) st) = Some (Done (x, st2))"
    using p(1) by (auto simp: run_native.simps[of E "Sends msg g k"] WindowsWindow_WndProc_def settles_def)
  moreover have "NkWindowMapEventTypeFromWindowMode NkWndMode_Hidden = Done NkEv_None" by code_simp
  ultimately show ?thesis using st(3) allowed(1) hide(1)
    by (simp add: WindowsWindow_SetWindowMode_def SetWindowMode_with_def WindowsWindow_QueryAllowedWindowModes_def dispatch_def
        WindowsWindow_TranslateWindowModeToShowCommand_def NkEventDispatch_def)
qed




subsection \<open>A small desktop\<close>

text \<open>The desktop the witnesses run on has one window, with handle 7.  Its state is the mode of this window and its user data.\<close>

record toy_win =
  tw_mode :: "32 word"
  tw_ref :: nat

definition toy_msg :: "nat \<Rightarrow> win_message" where
  "toy_msg i = \<lparr>wm_hwnd = 7, wm_id = i, wm_wParam = 0, wm_lParam = 0\<rparr>"

definition toy_rank :: "win_message \<Rightarrow> nat" where
  "toy_rank msg = (if wm_id msg = WM_WINDOWPOSCHANGED then 1 else 0)"

definition toy_os :: "toy_win win32" where
  "toy_os = \<lparr>w32_IsZoomed = (\<lambda>_ g. tw_mode g = 2), w32_IsIconic = (\<lambda>_ g. tw_mode g = 1), w32_GetUserData = (\<lambda>_ g. tw_ref g),
     w32_SetUserData = (\<lambda>_ p g. g\<lparr>tw_ref := p\<rparr>), w32_ClientToScreen = (\<lambda>_ p _. p), w32_GetSystemMenu = (\<lambda>_ g. (3, g)), w32_EnableMenuItem = (\<lambda>_ g. g),
     w32_GetStyle = (\<lambda>_ _. 0), w32_GetExStyle = (\<lambda>_ _. 0), w32_SetStyle = (\<lambda>_ _ g. Returns 0 g), w32_SetWindowPos = (\<lambda>_ _ g. Returns 1 g),
     w32_ShowWindow = (\<lambda>_ cmd g. Sends (toy_msg WM_WINDOWPOSCHANGED)
       (g\<lparr>tw_mode := if cmd = 1 then 8 else if cmd = 2 then 1 else if cmd = 3 then 2 else tw_mode g\<rparr>) (\<lambda>_ g. Returns 1 g)),
     w32_DefWindowProc = (\<lambda>msg g. if wm_id msg = WM_WINDOWPOSCHANGED then Sends (toy_msg WM_SIZE) g (\<lambda>_ g. Returns 0 g) else Returns 0 g),
     w32_ValidateRect = (\<lambda>_ g. g), w32_PostQuitMessage = (\<lambda>_ g. g), w32_AdjustWindowRectEx = (\<lambda>r _ _. (True, r)),
     w32_GetClientRect = (\<lambda>_ _. (True, (0, 0, 512, 512))), w32_GetWindowRect = (\<lambda>_ _. (True, (0, 0, 528, 551))),
     w32_RegisterClassEx = (\<lambda>_ g. (True, g)), w32_UnregisterClass = (\<lambda>_ g. g),
     w32_CreateWindowEx = (\<lambda>_ _ _ _ _ _ g. Sends (toy_msg WM_GETMINMAXINFO) \<lparr>tw_mode = 8, tw_ref = 0\<rparr> (\<lambda>_ g. Returns 7 g)),
     w32_DwmDarkMode = (\<lambda>_ g. g), w32_DestroyWindow = (\<lambda>_ g. Sends (toy_msg WM_DESTROY) g (\<lambda>_ g. Returns 1 g)),
     w32_MaximizedExtents = (\<lambda>_. (1920, 1080)), w32_WorkArea = (\<lambda>_. Some (0, 0, 1920, 1040))\<rparr>"

definition toy_win_gdi :: "toy_win gdi_api" where
  "toy_win_gdi = \<lparr>gd_GetDC = (\<lambda>_ g. (1, g)), gd_ReleaseDC = (\<lambda>_ _ g. g), gd_CreateCompatibleDC = (\<lambda>_ g. (2, g)), gd_DeleteDC = (\<lambda>_ g. g),
     gd_CreateCompatibleBitmap = (\<lambda>_ _ _ g. (3, g)), gd_CreateBitmap = (\<lambda>_ _ g. (4, g)), gd_CreateSolidBrush = (\<lambda>_ _ _ g. (5, g)),
     gd_SelectObject = (\<lambda>_ _ g. (3, g)), gd_GetCurrentBitmap = (\<lambda>_ _. 3), gd_DeleteObject = (\<lambda>_ g. g), gd_GetObject = (\<lambda>_ _. (8, 8)),
     gd_SetStretchBltMode = (\<lambda>_ _ g. g), gd_SetBkColor = (\<lambda>_ c g. (c, g)), gd_FillRect = (\<lambda>_ _ _ g. g), gd_BitBlt = (\<lambda>_ _ _ _ _ g. g),
     gd_StretchBlt = (\<lambda>_ _ _ _ _ g. g), gd_MaskBlt = (\<lambda>_ _ _ _ _ _ _ g. g), gd_SetDIBits = (\<lambda>_ n _ _ g. (n, g)),
     gd_GetDIBits = (\<lambda>_ _ n _ px g. (int n, px, g)), gd_GdiFlush = (\<lambda>g. g), gd_DwmFlush = (\<lambda>g. g)\<rparr>"

definition toy_app_fns :: "(nat, unit, (nat, toy_win) wnd_world) app_fns" where
  "toy_app_fns = \<lparr>af_heap = (\<lambda>_. True), af_behind = replicate 8 0, af_vt = \<lparr>om_QueryInterface = (\<lambda>r iid c. (NkErr_Ok, Some r, c)), om_AddRef = (\<lambda>_ c. c),
     om_Release = (\<lambda>_ c. c), om_Initialize = (\<lambda>r p c. (NkErr_Ok, c)), om_QueryInstantiableClasses = (\<lambda>r c. ([], c)),
     om_CreateInstance = (\<lambda>r u o1 c. (NkErr_Ok, None, c))\<rparr>\<rparr>"

definition toy_env :: "(nat, nat, unit, toy_win) wnd_env" where
  "toy_env = \<lparr>we_os = toy_os, we_gdi = toy_win_gdi, we_vk = (\<lambda>_. 1),
     we_vt = \<lparr>vt_AddRef = (\<lambda>_ st. st), vt_OnPush = (\<lambda>_ _ _ _ st. (NkErr_Ok, st)), vt_OnEvent = (\<lambda>_ _ st. (NkErr_NoOperation, st)),
       vt_OnUpdate = (\<lambda>_ _ st. (NkErr_Ok, st)), vt_OnRender = (\<lambda>_ _ st. (NkErr_Ok, st))\<rparr>,
     we_ticks = (\<lambda>st. (0, st)), we_self = 9, we_app = toy_app_fns, we_ialAddr = 8192, we_heap = (\<lambda>_. True), we_behind = replicate 8 0, we_clsAddr = 4096\<rparr>"

definition toy_reg :: "nat NkHashtable" where
  "toy_reg = \<lparr>ht_elemCount = 1, ht_currCap = 16, ht_htProps = comp_reg_props, ht_elemArray =
     \<lparr>m_regPair = \<lparr>m_keyVal = mp_uuidKey 8192 CLSID_NkIInput, mp_valuePtr = Some 1\<rparr>, m_isUsed = True, m_offset = 0\<rparr> # replicate 15 zero_slot\<rparr>"

definition toy_world_with :: "nat WindowsWindow \<Rightarrow> (nat \<rightharpoonup> GdiRenderer) \<Rightarrow> toy_win \<Rightarrow> (nat, nat, toy_win) wnd_st" where
  "toy_world_with W rs g = \<lparr>ls_stack = Some sample_layers, ls_env = \<lparr>ac_compReg = Some toy_reg, ac_isStandalone = True,
     ac_htctx = \<lparr>m_hashSeed = 1, ptr_bytes = (\<lambda>_. replicate 8 0)\<rparr>, ac_rnd = \<lparr>s0 = 1, s1 = 2, s2 = 3, s3 = 4\<rparr>,
     ac_world = \<lparr>wo_wnd = W, wo_om = \<lparr>om_isInitialized = True, om_isDebugEnabled = False, om_classReg = Some sample_rd_registry,
       om_htctx = \<lparr>m_hashSeed = 1, ptr_bytes = (\<lambda>_. replicate 8 0)\<rparr>, om_rnd = \<lparr>s0 = 1, s1 = 2, s2 = 3, s3 = 4\<rparr>,
       om_objs = \<lparr>ro_world = \<lparr>rw_rds = rs, rw_res = Map.empty, rw_next = 6, rw_gdi = g\<rparr>, ro_fault = Done ()\<rparr>\<rparr>\<rparr>\<rparr>\<rparr>"

definition toy_shown :: "(nat, nat, toy_win) wnd_st" where
  "toy_shown = toy_world_with \<lparr>wn_nativeHandle = 7, wn_lastMousePos = (0, 0), wn_allowedWndModes = 59, wn_currWndMode = 8, wn_wndFlags = 28,
     wn_wndUuid = replicate 16 0, wn_rendererRef = Some 5, wn_ialRef = Some 1\<rparr> [5 \<mapsto> zero_renderer\<lparr>rd_refCount := 1, rd_wndRef := 9\<rparr>] \<lparr>tw_mode = 8, tw_ref = 9\<rparr>"

lemma toy_world_facts [simp]:
  "wnd (toy_world_with W rs g) = W" "rds (toy_world_with W rs g) = \<lparr>rw_rds = rs, rw_res = Map.empty, rw_next = 6, rw_gdi = g\<rparr>"
  "native (toy_world_with W rs g) = g" "stack_is (toy_world_with W rs g) sample_layers"
  using sample_stack_facts(1) by (simp_all add: toy_world_with_def wnd_def rds_def om_def native_def stack_is_def sample_stack_def)

lemma toy_env_sel [simp]: "we_os toy_env = toy_os" "we_gdi toy_env = toy_win_gdi" "we_self toy_env = 9"
  by (simp_all add: toy_env_def)

lemma toy_desktop: "desktop_laws toy_env 7 toy_rank"
  by (auto simp: desktop_laws_def default_calm_def drawing_keeps_def in_mode_def shown_modes_def layout_msg_def toy_os_def toy_win_gdi_def toy_msg_def
      toy_rank_def WindowsWindow_GetNewWindowMode_def WindowsWindow_TranslateWindowModeToShowCommand_def intro!: exI[of _ 2])

lemma toy_quiet: "layers_quiet toy_env"
  by (simp add: layers_quiet_def inert_def toy_env_def)



text \<open>Start-up on this desktop.\<close>

definition toy_specs :: wnd_app_specs where
  "toy_specs = \<lparr>as_rendererApi = 2, as_isVSync = False, as_vpAlignment = 18, as_vpExtents = \<lparr>m_width = 16, m_height = 16\<rparr>,
     as_dispTileSize = \<lparr>m_width = 32, m_height = 32\<rparr>, as_allowedWndModes = NkWndMode_All, as_initialWndMode = NkWndMode_Normal, as_wndFlags = 24,
     as_nativeHandle = 0, as_wndTitle = ''Noriko Sandbox''\<rparr>"

definition toy_start :: "(nat, nat, toy_win) wnd_st" where
  "toy_start = toy_world_with gl_Window Map.empty \<lparr>tw_mode = 8, tw_ref = 0\<rparr>"

lemma toy_ready: "engine_ready toy_env 1 sample_layers toy_start"
proof -
  have "reg_ok (om toy_start) sample_rd_registry"
    using sample_rd_om_facts(1) by (simp add: toy_start_def toy_world_with_def om_def reg_ok_def sample_rd_om_def cx_ok_def)
  moreover have "app_reg_ok (ls_env toy_start) toy_reg" "ht_map toy_reg (IdUuid CLSID_NkIInput) = Some (Some 1)"
    by (auto simp: app_reg_ok_def toy_start_def toy_world_with_def toy_reg_def comp_reg_props_def ht_wf_def ht_pairs_def cx_ok_def ht_limits_def
        ht_map_def pair_kv_def CLSID_NkIInput_def)
  ultimately show ?thesis using toy_quiet sample_rd_om_facts(2)
    by (auto simp: engine_ready_def toy_env_def toy_app_fns_def toy_start_def) (simp_all add: toy_world_with_def om_def)
qed


subsection \<open>Mouse buttons and flags\<close>

text \<open>The button that the event reports, for a message with the given identifier and \<open>wParam\<close>.\<close>

definition reported_button :: "(string \<Rightarrow> nat) \<Rightarrow> nat \<Rightarrow> 64 word \<Rightarrow> nat outcome" where
  "reported_button vk msgId wParam = MapFromNativeMouseButton vk (int_of64 (drop_bit (if msgId = WM_XBUTTONDOWN \<or> msgId = WM_XBUTTONUP then 16 else 0) wParam))"

definition mouse_vk :: "string \<Rightarrow> nat" where
  "mouse_vk n = (if n = ''LBUTTON'' then 1 else if n = ''RBUTTON'' then 2 else if n = ''MBUTTON'' then 4 else if n = ''XBUTTON1'' then 5 else if n = ''XBUTTON2'' then 6 else 0)"

text \<open>The message carries the buttons that are down, in other numbers than the virtual keys: the left and the right button are recognised
  when they are pressed alone.  The middle button (16) is not, nor is any button when it is released (0), and the extra
  buttons (1 and 2 in the upper half) are taken for the left and the right one.\<close>

lemma mouse_buttons_reported:
  "map (\<lambda>(i, w). reported_button mouse_vk i w) [(WM_LBUTTONDOWN, 1), (WM_RBUTTONDOWN, 2)] = [Done NkBtn_LeftButton, Done NkBtn_RightButton]"
  "map (\<lambda>(i, w). reported_button mouse_vk i w) [(WM_MBUTTONDOWN, 16), (WM_LBUTTONUP, 0), (WM_RBUTTONUP, 0), (WM_MBUTTONUP, 0), (WM_LBUTTONDOWN, 3)]
     = replicate 5 (Done NkBtn_Unknown)"
  "map (\<lambda>(i, w). reported_button mouse_vk i w) [(WM_XBUTTONDOWN, 0x10020), (WM_XBUTTONDOWN, 0x20040)] = [Done NkBtn_LeftButton, Done NkBtn_RightButton]"
  by code_simp+

text \<open>The flag that keeps a window on top is recorded although the call reports that it is not implemented.\<close>

lemma always_on_top_recorded:
  "wn_wndFlags (wnd st) AND NkWndFlag_AlwaysOnTop = 0 \<Longrightarrow>
   WindowsWindow_SetWindowFlag E NkWndFlag_AlwaysOnTop True st = Some (Done (NkErr_NotImplemented, upd_wnd (wn_wndFlags_update (\<lambda>f. f AND NOT 2 OR 2)) st))"
  by (simp add: WindowsWindow_SetWindowFlag_def WindowsWindow_GetWindowFlag_def WindowsWindow_IsWindowFlagMutable_def)

end
