(* ===== verification/NkRuntime.thy ===== *)
theory NkRuntime
  imports NkMainLoop NkWindow
begin

section \<open>The runtime (src/NorikoRt/main.c)\<close>

text \<open>
  The program that starts the engine, runs it and shuts it down.  The state is that of the application; the layer stack is part
  of it, and \<open>getL\<close> and \<open>putL\<close> read and write it there.  The memory leak detector of debug builds is left out.
\<close>

definition main_app_specs :: "int \<Rightarrow> string option list option \<Rightarrow> app_specs" where
  "main_app_specs argc argv = \<lparr>sp_argc = argc, sp_argv = argv, sp_allowedWndModes = 63\<rparr>"

definition main_wnd_specs :: wnd_app_specs where
  "main_wnd_specs = \<lparr>as_rendererApi = NkRdApi_Win32GDI, as_isVSync = False, as_vpAlignment = or 16 2, as_vpExtents = \<lparr>m_width = 16, m_height = 16\<rparr>,
     as_dispTileSize = \<lparr>m_width = 32, m_height = 32\<rparr>, as_allowedWndModes = NkWndMode_All, as_initialWndMode = NkWndMode_Normal,
     as_wndFlags = or NkWndFlag_DragResizable NkWndFlag_DragMovable, as_nativeHandle = 0, as_wndTitle = ''Noriko Sandbox''\<rparr>"

definition main ::
    "('o, 'p, 'w) app_fns \<Rightarrow> ('l, 'e, 'o, 'r, 'w) run_fns \<Rightarrow> 64 word \<Rightarrow> (('o, 'w) app_core \<Rightarrow> 'l NkVector option)
     \<Rightarrow> ('l NkVector option \<Rightarrow> ('o, 'w) app_core \<Rightarrow> ('o, 'w) app_core) \<Rightarrow> ('o, 'w) app_comp list \<Rightarrow> int \<Rightarrow> string option list option
     \<Rightarrow> ('o, 'w) app_state \<Rightarrow> (NkErrorCode \<times> ('o, 'w) app_state) outcome" where
  "main fns R wndId getL putL table argc argv st =
     obind (NkApplicationStartup fns table (main_app_specs argc argv) st) (\<lambda>(errCode, st).
     obind (if errCode \<noteq> NkErr_Ok then Done (errCode, st)
            else obind (NkApplicationRun fns R wndId \<lparr>ls_stack = getL (as_core st), ls_env = as_core st\<rparr>) (\<lambda>(errCode, rs).
                   Done (errCode, st\<lparr>as_core := putL (ls_stack rs) (ls_env rs)\<rparr>))) (\<lambda>(errCode, st).
     obind (NkApplicationShutdown fns table st) (\<lambda>(_, st). Done (errCode, st))))"

text \<open>The specification is valid for every command line the C library passes, and the window it asks for can be shown.\<close>

lemma main_specs_valid:
  "0 < argc \<Longrightarrow> argv \<noteq> None \<Longrightarrow> ValidateAppSpecification (main_app_specs argc argv) = NkErr_Ok"
  "and (as_initialWndMode main_wnd_specs) (as_allowedWndModes main_wnd_specs) \<noteq> 0" "as_rendererApi main_wnd_specs = NkRendererQueryDefaultPlatformApi"
  by (simp_all add: ValidateAppSpecification_def main_app_specs_def main_wnd_specs_def NkRendererQueryDefaultPlatformApi_def)

lemma shutdown_after_run:
  assumes "NkApplicationStartup fns table specs st0 = Done (NkErr_Ok, st)" "ValidateAppSpecification specs = NkErr_Ok" "2 \<le> length table"
  shows "core_of (NkApplicationShutdown fns table (st\<lparr>as_core := c\<rparr>)) = run_script (concat (map (shutdown_script fns (replicate 3 True)) (rev table))) c"
proof -
  have f: "flags_are (\<lambda>_. True) st" "Suc (m_compIndex st) = length table"
    using startup_loop_flags[OF Startup_loop[OF assms(1,2)]] assms(3) by force+
  then have "flags_are (\<lambda>j. replicate 3 True ! j) (st\<lparr>as_core := c\<rparr>)" by (simp add: flags_are_def)
  then show ?thesis using app_shutdown_loop_script[of "replicate 3 True" "st\<lparr>as_core := c\<rparr>" "length table" table fns] f(2) assms(3)
    by (simp add: NkApplicationShutdown_def)
qed


text \<open>The witness runs the sample engine of the main loop: its first component sets up the state, the second one does nothing; the request to
  quit is already in the queue.\<close>

definition toy_table :: "(nat, run_world) app_comp list" where
  "toy_table = (let info = \<lparr>mp_fnStartup = Some (\<lambda>_. Done (NkErr_Ok, ls_env (sample_state 0))), mp_fnShutdown = None, m_isNkOM = False, mp_clsId = (0, []),
     mp_fnQueryInst = (\<lambda>c. (None, c))\<rparr> in [comp_entry info, comp_entry (info\<lparr>mp_fnStartup := None\<rparr>)])"

lemma sample_run_quits: "\<exists>rs. NkApplicationRun wnd_fns sample_run 4096 (sample_state 0) = Done (NkErr_ManuallyAborted, rs)"
proof -
  have "f32_round 10000000 = 10000000" by code_simp
  then have "\<exists>k. maxElapsed (f32_round 10000000) = Done k" using maxElapsed_bounds[of 10000000] by auto
  then show ?thesis
    using sample_window[of 0]
    by (auto simp: NkApplicationRun_def NkTimerGetFrequency_def NkTimerGetCurrentTicks_def sample_run_def run_loop.simps run_frame_def
        Application_PlatformLoop_def platform_loop.simps sample_peek_def world_def on_world_def set_world_def sample_state_def of_loop_def)
qed


end
