(* ===== verification/Spec2Isabelle.thy ===== *)
theory Spec2Isabelle
  imports NkWorld NkLog NkPool NkEnv NkError NkPath NkInput NkIO NkAsset NkRuntime
begin

text \<open>
  \<^bold>\<open>A verification library for the Noriko engine core.\<close>

  Noriko (src/Noriko) is a game engine written in C.  A runtime fills in an application
  specification and calls \<open>NkApplicationStartup\<close>, \<open>NkApplicationRun\<close> and \<open>NkApplicationShutdown\<close>.
  Start-up walks over a table of components (logging, allocators, random numbers, timing, environment,
  object model, paths, I/O, input, renderer factories, layer stack, window, database, assets, world);
  each has callbacks, and NkOM components are put into a registry of instances, a hash table keyed by
  class identifier.  The main loop pumps messages, updates the layers of the layer stack at a fixed
  rate and renders them.  Vectors, hash tables, strings, the pool allocator and the utilities are the
  containers and services the components are built from.

  \<^bold>\<open>Theories and the code they model.\<close>

  \<^item> \<open>NkPrelude\<close>: error codes (include/Noriko/error.h), the outcome of a call, wrap-around of unsigned
    types, array slots.  \<open>NkFloat\<close>: single precision arithmetic as used by the capacity computations and
    by the main loop.  \<open>NkAlloc\<close>: the general-purpose allocator interface (alloc.c, \<open>NkGPAlloc\<close> and friends).
  \<^item> \<open>NkSort\<close>: sort.c, \<open>NkQuicksort\<close> on an array of pointers.
  \<^item> \<open>NkVector\<close>: dstruct/vector.c, every operation from \<open>NkVectorCreate\<close> to \<open>NkVectorForEach\<close>.
  \<^item> \<open>NkText\<close>: string views and raw strings (util.c).  \<open>NkUtil\<close>: random numbers, UUIDs, variants, checked
    additions, viewports (util.c, util.h).
  \<^item> \<open>NkHash\<close>: keys and the HalfSipHash of dstruct/htable.c; \<open>NkHashtable\<close>: the Robin-Hood table itself,
    \<open>NkHashtableCreate\<close> to \<open>NkHashtableForEach\<close>.
  \<^item> \<open>NkPool\<close>: the pool allocator of alloc.c.
  \<^item> \<open>NkLayer\<close>: layer.c, the layer stack on top of the vector.  \<open>NkEvent\<close>: event.c, events and their
    dispatch to the layer stack.
  \<^item> \<open>NkOM\<close>: nkom.c, class factories and instances with their reference counts.
  \<^item> \<open>NkEnv\<close>: env.c, parsing of the command line and of environment variables into a hash table.
  \<^item> \<open>NkError\<close>: error.c, error strings and the message of a fatal error.  \<open>NkTimer\<close>: timer.c.
  \<^item> \<open>NkApplication\<close>: application.c, start-up, shutdown and the registry of instances.  \<open>NkMainLoop\<close>: the main
    loop of application.c and the message pump of platform/windows/winloop.c.
  \<^item> \<open>NkLog\<close>: log.c, the array of log devices with its mutex, messages and the console format.
    \<open>NkBitmap\<close>: bmp.c, creation, filling, saving and loading of bitmaps.  \<open>NkWorld\<close>: world.c, the layer with the
    test maps and the player.
  \<^item> \<open>NkString\<close>: dstruct/string.c, UTF-8 strings with their inline buffer.  \<open>NkPath\<close>: path.c, construction of
    paths and the table of locations, with platform/windows/winpath.c.
  \<^item> \<open>NkInput\<close>: input.c and platform/windows/wininput.c, key and button codes, their native counterparts, their
    names and the modifier flags.
  \<^item> \<open>NkIO\<close>: io.c, files and the file system as object-model classes, with
    platform/windows/winfilesys.c, on a model of the streams of the C library.
  \<^item> \<open>NkDb\<close>: db.c, database handles and statements; sqlite3 is a parameter.  \<open>NkAsset\<close>: asset.c, the asset
    service on top of the database.
  \<^item> \<open>NkPlatform\<close>: platform.c with platform/windows/winhelpers.c and winrng.c, build information, window metrics and the
    random seed.  \<open>NkRenderer\<close>: renderer.c and platform/windows/wingdi.c, the renderer factory and the GDI renderer;
    GDI is the parameter \<open>gdi_api\<close>, with its documented behaviour as \<open>gdi_laws\<close>, and the locale \<open>window_service\<close> is
    what the renderer relies on of its window, interpreted for the window of \<open>NkWindow\<close>.
  \<^item> \<open>NkWindow\<close>: window.c and platform/windows/winwindow.c, the window procedure and the methods of the window, on the state
    of the main loop; Windows is the parameter \<open>win32\<close>, and a function of Windows that sends messages is a tree of type
    \<open>native\<close>, which \<open>run_native\<close> carries out by calling the window procedure.  \<open>NkRuntime\<close>: NorikoRt/main.c.


  \<^bold>\<open>How the model corresponds to the code.\<close>  Definitions carry the names of the C functions (without the
  prefix of internal ones); a loop is a recursive function named after it.  Structures are records with
  the names of the members, enumerations datatypes or numbers where the code does arithmetic on them.
  A function that changes an object returns the changed object; output parameters are components of
  the result.  A call has an \<open>outcome\<close>: it returns (\<open>Done\<close>), fails an assertion, which terminates the
  process (\<open>Abort\<close>), runs into undefined behaviour such as an access outside an array (\<open>Undef\<close>), or
  never returns (\<open>Hang\<close>).  A loop that may not end is a \<open>partial_function\<close> whose value \<open>None\<close> is turned into
  \<open>Hang\<close>; there is no fuel anywhere.  \<open>NkSize\<close> and the other unsigned types are naturals with the
  wrap-around written out, or words where the code works on bits.  Memory is granted or refused by a
  parameter \<open>heap\<close>; what is not code of the engine (the C library's conversions, Win32, the methods of
  layers, factories, windows and renderers supplied by clients) is a parameter of the definitions.
  Locks have no effect in the single-threaded model and log output is left out.

  \<^bold>\<open>Interfaces.\<close>  \<open>nk_sequence\<close> is what clients of the vector rely on (append, remove, read), interpreted
  on the vector as \<open>vec_seq\<close> and used by the layer stack.  \<open>nk_map\<close> is what clients of the hash table
  rely on (lookup, insertion and removal as operations on a finite map, for any sequence of them),
  and \<open>nk_owning_map\<close> extends it by what is freed; they are interpreted on the hash table as \<open>ht_dict\<close>
  and \<open>ht_owner\<close> and used by the object model, the environment and the registry of the application.
  \<^bold>\<open>What the lemmas show.\<close>

  \<^item> Containers: a sequence of insertions and removals on a hash table terminates and refines the same
    sequence on a finite map, for every seed of the hash function; lookups are exact; the sort
    terminates and sorts on the ranges it supports; vectors refine lists on the operations that are
    correct, and the operations that are not are characterised exactly (insertion in the middle,
    reversal of even ranges, predicate search, clearing of large tables).
  \<^item> Pool allocator: blocks handed out were not in use, an allocation that is freed restores the
    allocator, the layout of a new pool fits into its pages.
  \<^item> Application: start-up and shutdown are given as scripts, the sequences of callbacks that reach the
    components, and shutdown is the mirror image of start-up; after a failed start-up the script of
    shutdown misses one stage.  The main loop does at most two updates per turn, loses no tick and
    ends when the message pump delivers the request to quit.
  \<^item> Object model and registry: reference counts after creating, installing, removing and replacing
    instances.  Environment: the first definition of an option wins, the syntax of numbers.
  \<^item> Log: the counter of the devices, delivery of a message to each device exactly once in every reachable
    state, and the mutex that stays locked.  Bitmaps: contents of a filled bitmap, the round trip through
    a file.  World: a key press moves the player by exactly one tile in spite of the rounding of every
    step, and rendering shows exactly the tiles in view.
  \<^item> Strings and paths: access by offset on ASCII text, the joined form of a built path, the ends of the
    loops over separators.  Input: codes mapped to the platform and back.  Streams: the modes a file
    handle can be in, in every reachable state, and blocks written and read back in blocks of other
    sizes.  Database: the lifetime of handles and statements under any sequence of operations, the rows a
    callback is given, values bound again.  Assets: the references of the service and its answers.
  \<^item> Renderer: the GDI objects that are alive after any sequence of calls are exactly those of the renderer and its resources;
    creation through the object model.  Window: start-up with all nested messages, a change of the mode returns, is
    applied and reported once, and the mode follows the desktop.  Runtime: the exit code and the order of
    shutdown.

  \<^bold>\<open>Bounds.\<close>  Element counts are bounded by \<open>2 ^ 30\<close> where the code computes capacities in single
  precision, strings by \<open>2 ^ 63\<close>, which no object exceeds.  The main loop is treated for counters from
  10 kHz to 1 GHz; the counter of the supported platform has 10 MHz.

  \<^bold>\<open>Not modelled.\<close>  ext/sqlite3 is vendored, and NorikoEd is a Qt editor in C++.  What Windows and GDI do is not modelled
  beyond the laws named above: the pixels on the screen, the real order of messages, other windows.
\<close>

section \<open>Properties that span components\<close>

text \<open>The query the application makes of the environment component: the error code of the lookup.\<close>

definition env_query ::
    "'d env_variant ht_context \<Rightarrow> byte list \<Rightarrow> 'd env_store \<Rightarrow> string \<Rightarrow> ('o, 'w) app_core \<Rightarrow> NkErrorCode outcome" where
  "env_query cx behind st name c = obind (NkEnvGetValue cx behind name (Some st)) (\<lambda>(ec, _). Done ec)"

text \<open>C32: The operating mode.  After the environment component has started with memory granted, the
  application runs attached exactly if the first accepted option named \<open>attached\<close> has a value; when
  that option has no value, the process is terminated.  The documented option \<open>--attached\<close> is parsed
  as an option named \<open>-attached\<close>, so that with it the application still runs standalone.\<close>

theorem app_mode_follows_options:
  assumes "cx_ok cx" "length behind = 8" "list_all env_string envs" "list_all env_string args"
    "length envs + length args \<le> 2 ^ 30"
  shows "\<exists>st. EnvStartup cx rnd NkErr_Ok (\<lambda>_. True) behind strtod (\<lambda>_ _. (NkErr_Ok, NkErr_Ok))
      (Suc (length args)) (prog # map Some args) (Some (map Some envs @ [None])) None = Done (NkErr_Ok, Some st)
    \<and> Env_PostStartup (env_query cx2 behind st) c = (case env_options strtod envs args (IdText ''attached'') of
        None \<Rightarrow> Done (NkErr_Ok, c\<lparr>ac_isStandalone := True\<rparr>)
      | Some None \<Rightarrow> Abort NkErr_InParameter
      | Some (Some v) \<Rightarrow> Done (NkErr_Ok, c\<lparr>ac_isStandalone := False\<rparr>))"
proof -
  obtain st where st: "EnvStartup cx rnd NkErr_Ok (\<lambda>_. True) behind strtod (\<lambda>_ _. (NkErr_Ok, NkErr_Ok))
      (Suc (length args)) (prog # map Some args) (Some (map Some envs @ [None])) None = Done (NkErr_Ok, Some st)"
    "store_ok st" "ht_map st = env_options strtod envs args"
    using EnvStartup_store[OF assms] by blast
  have "NkEnvGetValue cx2 behind ''attached'' (Some st) = (case env_options strtod envs args (IdText ''attached'') of
      None \<Rightarrow> Done (NkErr_ItemNotFound, None) | Some None \<Rightarrow> Abort NkErr_InParameter | Some (Some v) \<Rightarrow> Done (NkErr_Ok, Some v))"
    using EnvGetValue_spec[OF st(2) assms(2), of "''attached''" cx2] st(3) by simp
  then show ?thesis
    using st(1) by (auto simp: Env_PostStartup_def env_query_def split: option.splits)
qed

theorem app_mode_follows_options_witness:
  "\<exists>st. EnvStartup sample_env_cx \<lparr>s0 = 1, s1 = 2, s2 = 3, s3 = 4\<rparr> NkErr_Ok (\<lambda>_. True) (replicate 8 0) length (\<lambda>_ _. (NkErr_Ok, NkErr_Ok))
      2 [Some ''rt'', Some ''--attached''] (Some [None]) None = Done (NkErr_Ok, Some st)
    \<and> Env_PostStartup (env_query sample_env_cx (replicate 8 0) st) sample_core = Done (NkErr_Ok, sample_core\<lparr>ac_isStandalone := True\<rparr>)"
proof -
  have two: "Suc (length [''--attached'']) = 2" by simp
  show ?thesis
    using app_mode_follows_options[of sample_env_cx "replicate 8 0" "[]" "[''--attached'']"
        "\<lparr>s0 = 1, s1 = 2, s2 = 3, s3 = 4\<rparr>" length "Some ''rt''" sample_env_cx sample_core, unfolded two]
    by (simp add: sample_env_cx_def cx_ok_def env_string_def env_options_def env_add_def env_pair_def)
qed

end
